(* ===== verification/Prelude.thy ===== *)
theory Prelude
  imports Main "HOL-Library.Word" "HOL-Library.Char_ord" "HOL-Library.List_Lexorder"
begin

text \<open>
  Shared vocabulary of the development: machine integers and byte strings, the result type with
  the early return of Rust's question mark operator, saturating and checked arithmetic on
  \<open>u64\<close>, the fixed-width little-endian encoding of \<open>u32\<close>, decimal and hexadecimal
  printing, \<open>str::trim\<close> on UTF-8 bytes, and the sort-and-deduplicate idiom on vectors.
  The lemmas declared \<open>simp\<close> or collected in the named bundles below carry the proofs of the
  component theories.
\<close>

section \<open>Types\<close>

type_synonym u8 = "8 word"
type_synonym u32 = "32 word"
type_synonym u64 = "64 word"
type_synonym bytes = "u8 list"

named_theorems result_simps \<open>inversion of successful early-return chains\<close>
named_theorems codec_laws \<open>decode-after-encode laws\<close>

section \<open>Results and early return\<close>

text \<open>A Rust \<open>Result<A, E>\<close> is \<open>'e + 'a\<close>, the error on the left.  \<open>rbind\<close> is the
  question mark operator followed by the rest of the function, \<open>require\<close> is
  \<open>if !c { return Err(e) }\<close>, \<open>map_err\<close> is \<open>Result::map_err\<close> and \<open>ok_or\<close> is
  \<open>Option::ok_or\<close>.\<close>

definition rbind :: "'e + 'a \<Rightarrow> ('a \<Rightarrow> 'e + 'b) \<Rightarrow> 'e + 'b" where
  "rbind r f = (case r of Inl e \<Rightarrow> Inl e | Inr a \<Rightarrow> f a)"

definition require :: "bool \<Rightarrow> 'e \<Rightarrow> 'e + unit" where
  "require c e = (if c then Inr () else Inl e)"

definition map_err :: "('e \<Rightarrow> 'f) \<Rightarrow> 'e + 'a \<Rightarrow> 'f + 'a" where
  "map_err h r = (case r of Inl e \<Rightarrow> Inl (h e) | Inr a \<Rightarrow> Inr a)"

definition ok_or :: "'e \<Rightarrow> 'a option \<Rightarrow> 'e + 'a" where
  "ok_or e x = (case x of None \<Rightarrow> Inl e | Some a \<Rightarrow> Inr a)"

definition is_ok :: "'e + 'a \<Rightarrow> bool" where
  "is_ok r = (case r of Inl _ \<Rightarrow> False | Inr _ \<Rightarrow> True)"

text \<open>\<open>for x in xs { step(x)? }\<close> over a validator that returns no value.\<close>

primrec for_each :: "('a \<Rightarrow> 'e + unit) \<Rightarrow> 'a list \<Rightarrow> 'e + unit" where
  "for_each f [] = Inr ()"
| "for_each f (x # xs) = rbind (f x) (\<lambda>_. for_each f xs)"

text \<open>\<open>for x in xs { step(&mut state, x)? }\<close>.\<close>

primrec fold_result :: "('s \<Rightarrow> 'a \<Rightarrow> 'e + 's) \<Rightarrow> 's \<Rightarrow> 'a list \<Rightarrow> 'e + 's" where
  "fold_result f s [] = Inr s"
| "fold_result f s (x # xs) = rbind (f s x) (\<lambda>s'. fold_result f s' xs)"

lemma rbind_simps [simp]:
  "rbind (Inl e) f = Inl e"
  "rbind (Inr a) f = f a"
  by (simp_all add: rbind_def)

lemma rbind_Inr_iff [result_simps]: "rbind r f = Inr b \<longleftrightarrow> (\<exists>a. r = Inr a \<and> f a = Inr b)"
  by (cases r) simp_all

lemma rbind_Inl_iff: "rbind r f = Inl e \<longleftrightarrow> r = Inl e \<or> (\<exists>a. r = Inr a \<and> f a = Inl e)"
  by (cases r) simp_all

lemma rbind_assoc: "rbind (rbind r f) g = rbind r (\<lambda>a. rbind (f a) g)"
  by (cases r) simp_all

lemma rbind_cong [fundef_cong]:
  "r = r' \<Longrightarrow> (\<And>a. r' = Inr a \<Longrightarrow> f a = g a) \<Longrightarrow> rbind r f = rbind r' g"
  by (cases r') simp_all

lemma require_Inr_iff [result_simps]: "require c e = Inr u \<longleftrightarrow> c"
  by (simp add: require_def)

lemma require_Inl_iff: "require c e = Inl e' \<longleftrightarrow> \<not> c \<and> e' = e"
  by (auto simp: require_def)

lemma require_True [simp]: "require True e = Inr ()"
  by (simp add: require_def)

lemma require_False [simp]: "require False e = Inl e"
  by (simp add: require_def)

lemma map_err_simps [simp]:
  "map_err h (Inl e) = Inl (h e)"
  "map_err h (Inr a) = Inr a"
  by (simp_all add: map_err_def)

lemma map_err_Inr_iff [result_simps]: "map_err h r = Inr a \<longleftrightarrow> r = Inr a"
  by (cases r) simp_all

lemma ok_or_simps [simp]:
  "ok_or e None = Inl e"
  "ok_or e (Some a) = Inr a"
  by (simp_all add: ok_or_def)

lemma ok_or_Inr_iff [result_simps]: "ok_or e x = Inr a \<longleftrightarrow> x = Some a"
  by (cases x) simp_all

lemma is_ok_simps [simp]: "\<not> is_ok (Inl e)" "is_ok (Inr a)"
  by (simp_all add: is_ok_def)

lemma is_ok_iff: "is_ok r \<longleftrightarrow> (\<exists>a. r = Inr a)"
  by (cases r) simp_all

lemma for_each_Inr_iff [result_simps]: "for_each f xs = Inr u \<longleftrightarrow> (\<forall>x\<in>set xs. f x = Inr ())"
  by (induction xs) (auto simp: rbind_Inr_iff)

lemma fold_result_append:
  "fold_result f s (xs @ ys) = rbind (fold_result f s xs) (\<lambda>s'. fold_result f s' ys)"
  by (induction xs arbitrary: s) (simp_all add: rbind_assoc)

lemma fold_result_snoc:
  "fold_result f s (xs @ [y]) = rbind (fold_result f s xs) (\<lambda>s'. f s' y)"
proof -
  have "rbind (f s' y) (\<lambda>t. Inr t) = f s' y" for s'
    by (cases "f s' y") simp_all
  then show ?thesis by (simp add: fold_result_append)
qed

text \<open>An invariant kept by every step holds after a successful fold.\<close>

lemma fold_result_invariant:
  assumes "fold_result f s xs = Inr t" and "I s"
    and "\<And>s x s'. f s x = Inr s' \<Longrightarrow> I s \<Longrightarrow> I s'"
  shows "I t"
  using assms(1,2)
proof (induction xs arbitrary: s)
  case Nil
  then show ?case by simp
next
  case (Cons x xs)
  then show ?case by (auto simp: rbind_Inr_iff intro: assms(3))
qed

section \<open>Results with a state\<close>

text \<open>Code that mutates a structure and may return early: the state as the failing call left it
  is part of the outcome.\<close>

type_synonym ('s, 'e, 'a) outcome = "'s \<times> ('e + 'a)"

fun sbind :: "('s, 'e, 'a) outcome \<Rightarrow> ('s \<Rightarrow> 'a \<Rightarrow> ('s, 'e, 'b) outcome) \<Rightarrow> ('s, 'e, 'b) outcome" where
  "sbind (s, Inl e) f = (s, Inl e)"
| "sbind (s, Inr a) f = f s a"

definition check :: "bool \<Rightarrow> 'e \<Rightarrow> 's \<Rightarrow> ('s, 'e, unit) outcome" where
  "check c e s = (s, require c e)"

lemma sbind_Inr_iff [result_simps]:
  "sbind m f = (t, Inr b) \<longleftrightarrow> (\<exists>s a. m = (s, Inr a) \<and> f s a = (t, Inr b))"
  by (cases "(m, f)" rule: sbind.cases) auto

lemma check_simps [simp]: "check True e s = (s, Inr ())" "check False e s = (s, Inl e)"
  by (simp_all add: check_def)

lemma check_Inr_iff [result_simps]: "check c e s = (t, Inr u) \<longleftrightarrow> c \<and> t = s"
  by (auto simp: check_def require_def)

section \<open>Machine integers\<close>

definition saturating_sub :: "u64 \<Rightarrow> u64 \<Rightarrow> u64" where
  "saturating_sub a b = (if b \<le> a then a - b else 0)"

definition saturating_add :: "u64 \<Rightarrow> u64 \<Rightarrow> u64" where
  "saturating_add a b = (if unat a + unat b < 2 ^ 64 then a + b else - 1)"

definition saturating_add_u32 :: "u32 \<Rightarrow> u32 \<Rightarrow> u32" where
  "saturating_add_u32 a b = (if unat a + unat b < 2 ^ 32 then a + b else - 1)"

definition saturating_sub_u32 :: "u32 \<Rightarrow> u32 \<Rightarrow> u32" where
  "saturating_sub_u32 a b = (if b \<le> a then a - b else 0)"

text \<open>\<open>u64::checked_add\<close> on values read as naturals.\<close>

definition checked_add_u64 :: "nat \<Rightarrow> nat \<Rightarrow> nat option" where
  "checked_add_u64 a b = (if a + b < 2 ^ 64 then Some (a + b) else None)"

lemma unat_saturating_sub: "unat (saturating_sub a b) = unat a - unat b"
proof (cases "b \<le> a")
  case True
  then show ?thesis by (simp add: saturating_sub_def unat_sub)
next
  case False
  then have "unat a < unat b" by (simp add: word_less_nat_alt not_le)
  with False show ?thesis by (simp add: saturating_sub_def)
qed

lemma unat_saturating_add: "unat (saturating_add a b) = min (unat a + unat b) (2 ^ 64 - 1)"
proof (cases "unat a + unat b < 2 ^ 64")
  case True
  then show ?thesis by (simp add: saturating_add_def unat_word_ariths)
next
  case False
  have "unat (- 1 :: u64) = 2 ^ 64 - 1"
    by (simp add: unsigned_minus_1_eq_mask mask_eq_exp_minus_1)
  with False show ?thesis by (simp add: saturating_add_def min_def)
qed

lemma word_suc_fits: "(w :: 'a :: len word) \<noteq> - 1 \<longleftrightarrow> unat w + 1 < 2 ^ LENGTH('a)"
proof -
  have "unat w < 2 ^ LENGTH('a)" "unat (- 1 :: 'a word) = 2 ^ LENGTH('a) - 1"
    using unsigned_less [of w] by (simp_all add: unsigned_minus_1_eq_mask mask_eq_exp_minus_1)
  moreover have "w = - 1 \<longleftrightarrow> unat w = unat (- 1 :: 'a word)" by (metis word_unat_eq_iff)
  ultimately show ?thesis by linarith
qed

lemma unat_suc: "(w :: 'a :: len word) \<noteq> - 1 \<Longrightarrow> unat (w + 1) = unat w + 1"
  unfolding word_suc_fits by (simp add: unat_word_ariths)

lemma word_less_suc: "(w :: 'a :: len word) \<noteq> - 1 \<Longrightarrow> w < w + 1"
  by (simp add: word_less_nat_alt unat_suc)

lemma saturating_add_one: "saturating_add a 1 = (if a = - 1 then - 1 else a + 1)"
  using word_suc_fits [of a] word_suc_fits [of "- 1 :: u64"] by (auto simp: saturating_add_def)

section \<open>Little-endian byte encoding of u32\<close>

definition u32_to_le_bytes :: "u32 \<Rightarrow> bytes" where
  "u32_to_le_bytes w =
     [word_of_nat (unat w mod 256), word_of_nat (unat w div 256 mod 256),
      word_of_nat (unat w div 65536 mod 256), word_of_nat (unat w div 16777216 mod 256)]"

fun u32_from_le_bytes :: "bytes \<Rightarrow> u32" where
  "u32_from_le_bytes [a, b, c, d] =
     word_of_nat (unat a + 256 * unat b + 65536 * unat c + 16777216 * unat d)"
| "u32_from_le_bytes _ = 0"

lemma length_u32_to_le_bytes [simp]: "length (u32_to_le_bytes w) = 4"
  by (simp add: u32_to_le_bytes_def)

lemma unat_word_of_nat_u8: "n < 256 \<Longrightarrow> unat (word_of_nat n :: u8) = n"
  by (simp add: unat_of_nat)

lemma unat_word_of_mod_u8: "unat (word_of_nat (n mod 256) :: u8) = n mod 256"
  by (simp add: unat_word_of_nat_u8)

lemma u32_le_bytes_roundtrip [simp]: "u32_from_le_bytes (u32_to_le_bytes w) = w"
proof -
  define n where "n = unat w"
  have bound: "n < 4294967296" using unsigned_less [of w] by (simp add: n_def)
  have e: "n div 65536 = n div 256 div 256" "n div 16777216 = n div 256 div 256 div 256"
    by (simp_all flip: div_mult2_eq)
  have top: "n div 256 div 256 div 256 mod 256 = n div 256 div 256 div 256"
    using bound by (simp flip: div_mult2_eq)
  have "n mod 256 + 256 * (n div 256 mod 256) + 65536 * (n div 65536 mod 256)
      + 16777216 * (n div 16777216 mod 256) = n"
    using mult_div_mod_eq [of 256 n] mult_div_mod_eq [of 256 "n div 256"]
      mult_div_mod_eq [of 256 "n div 256 div 256"] unfolding e top by linarith
  then have "word_of_nat (n mod 256 + 256 * (n div 256 mod 256) + 65536 * (n div 65536 mod 256)
      + 16777216 * (n div 16777216 mod 256)) = w"
    by (simp only: n_def) simp
  then show ?thesis
    by (simp only: u32_to_le_bytes_def u32_from_le_bytes.simps unat_word_of_mod_u8 n_def)
qed

section \<open>Strings and bytes\<close>

text \<open>A Rust \<open>String\<close> is its UTF-8 bytes, an Isabelle \<open>string\<close>; \<open>as_bytes\<close> reads
  the characters as \<open>u8\<close> values.  The byte-wise lexicographic order of \<open>str\<close> is the one
  of the imported list and character orders.\<close>

definition as_bytes :: "string \<Rightarrow> bytes" where
  "as_bytes s = map of_char s"

lemma length_as_bytes [simp]: "length (as_bytes s) = length s"
  by (simp add: as_bytes_def)

lemma unat_of_char_u8: "unat (of_char c :: u8) = of_char c"
proof -
  have "(of_char c :: u8) = word_of_nat (of_char c)"
    by (cases c) (simp add: of_char_def)
  moreover have "(of_char c :: nat) < 256" by simp
  ultimately show ?thesis by (simp add: unat_of_nat)
qed

lemma inj_of_char_u8: "inj (of_char :: char \<Rightarrow> u8)"
proof (rule injI)
  fix c d :: char
  assume "(of_char c :: u8) = of_char d"
  then have "unat (of_char c :: u8) = unat (of_char d :: u8)" by simp
  then have "(of_char c :: nat) = of_char d" by (simp add: unat_of_char_u8)
  then show "c = d" by simp
qed

lemma as_bytes_inject [simp]: "as_bytes s = as_bytes t \<longleftrightarrow> s = t"
  by (simp add: as_bytes_def inj_of_char_u8 inj_map_eq_map)

text \<open>Splitting at a separator.\<close>

lemma append_Cons_split:
  "x \<notin> set a \<Longrightarrow> x \<notin> set b \<Longrightarrow> a @ x # as = b @ x # bs \<Longrightarrow> a = b \<and> as = bs"
proof (induction a arbitrary: b)
  case Nil
  then show ?case by (cases b) auto
next
  case (Cons y a)
  then show ?case by (cases b) auto
qed

end
