(* ===== verification/Rust_Text.thy ===== *)
theory Rust_Text
  imports Prelude
begin

text \<open>
  The string operations of the Rust standard library that the store crate relies on, on strings
  as UTF-8 bytes: \<open>str::trim\<close>, the \<open>{:08}\<close> and \<open>{:02x}\<close> formats, \<open>str::parse::<u64>\<close>,
  \<open>Path::file_stem\<close> and \<open>Path::extension\<close>, and the idiom \<open>v.sort(); v.dedup()\<close>.  The
  \<open>sha256:\<close> reference format that four modules of the crate validate is defined here once.
\<close>

section \<open>Trimming\<close>

text \<open>The UTF-8 encodings of the characters with the Unicode property White_Space, which is what
  \<open>str::trim\<close> removes: TAB to CR, SPACE, U+0085, U+00A0, U+1680, U+2000 to U+200A, U+2028,
  U+2029, U+202F, U+205F and U+3000.\<close>

definition white_space :: "string list" where
  "white_space = map (map char_of)
     ([[9], [10], [11], [12], [13], [32], [194, 133], [194, 160], [225, 154, 128]]
      @ map (\<lambda>b. [226, 128, b]) [128, 129, 130, 131, 132, 133, 134, 135, 136, 137, 138, 168, 169, 175]
      @ [[226, 129, 159], [227, 128, 128 :: nat]])"

definition starts_with :: "string \<Rightarrow> string \<Rightarrow> bool" where
  "starts_with s p \<longleftrightarrow> take (length p) s = p"

definition find_front :: "string list \<Rightarrow> string \<Rightarrow> string option" where
  "find_front qs s = find (\<lambda>q. q \<noteq> [] \<and> starts_with s q) qs"

lemma find_front_SomeD:
  "find_front qs s = Some q \<Longrightarrow> q \<noteq> [] \<and> starts_with s q \<and> length q \<le> length s"
  by (auto simp: find_front_def find_Some_iff starts_with_def) (metis length_take min.cobounded1)

function trim_front :: "string list \<Rightarrow> string \<Rightarrow> string" where
  "trim_front qs s =
     (case find_front qs s of None \<Rightarrow> s | Some q \<Rightarrow> trim_front qs (drop (length q) s))"
  by pat_completeness auto
termination
proof (relation "measure (\<lambda>(qs, s). length s)")
  fix qs s q
  assume "find_front qs s = Some q"
  then have "q \<noteq> []" "length q \<le> length s" by (auto dest: find_front_SomeD)
  then show "((qs, drop (length q) s), qs, s) \<in> measure (\<lambda>(qs, s). length s)"
    by (cases q) auto
qed simp

declare trim_front.simps [simp del]

definition trim_start :: "string \<Rightarrow> string" where
  "trim_start s = trim_front white_space s"

definition trim_end :: "string \<Rightarrow> string" where
  "trim_end s = rev (trim_front (map rev white_space) (rev s))"

definition trim :: "string \<Rightarrow> string" where
  "trim s = trim_end (trim_start s)"

lemma find_front_trim_front: "find_front qs (trim_front qs s) = None"
  by (induction qs s rule: trim_front.induct) (subst trim_front.simps, simp split: option.split)

lemma trim_front_id: "find_front qs s = None \<Longrightarrow> trim_front qs s = s"
  by (subst trim_front.simps) simp

lemma trim_front_suffix: "\<exists>p. s = p @ trim_front qs s"
proof (induction qs s rule: trim_front.induct)
  case (1 qs s)
  show ?case
  proof (cases "find_front qs s")
    case None
    then show ?thesis by (simp add: trim_front_id)
  next
    case (Some q)
    with "1.IH" obtain p where "drop (length q) s = p @ trim_front qs (drop (length q) s)" by blast
    then have "s = (take (length q) s @ p) @ trim_front qs (drop (length q) s)"
      by (metis append_assoc append_take_drop_id)
    then show ?thesis unfolding trim_front.simps [of qs s] using Some by (metis option.simps(5))
  qed
qed

lemma trim_end_prefix: "\<exists>q. s = trim_end s @ q"
proof -
  obtain p where "rev s = p @ trim_front (map rev white_space) (rev s)"
    using trim_front_suffix by blast
  then have "s = trim_end s @ rev p"
    unfolding trim_end_def by (metis rev_append rev_rev_ident)
  then show ?thesis by blast
qed

lemma find_front_prefix_None:
  assumes "find_front qs (p @ q) = None"
  shows "find_front qs p = None"
  unfolding find_front_def find_None_iff
proof
  assume "\<exists>x. x \<in> set qs \<and> x \<noteq> [] \<and> starts_with p x"
  then obtain x where x: "x \<in> set qs" "x \<noteq> []" "take (length x) p = x"
    by (auto simp: starts_with_def)
  then have "length x \<le> length p" by (metis length_take min.cobounded1)
  with x have "x \<in> set qs" "x \<noteq> [] \<and> starts_with (p @ q) x" by (auto simp: starts_with_def)
  with assms show False by (auto simp: find_front_def find_None_iff)
qed

text \<open>A text that begins and ends with a printable ASCII character is trimmed already.\<close>

definition ascii_graphic :: "char \<Rightarrow> bool" where
  "ascii_graphic c \<longleftrightarrow> 33 \<le> (of_char c :: nat) \<and> (of_char c :: nat) < 128"

lemma white_space_ends: "q \<in> set white_space \<Longrightarrow> q \<noteq> [] \<and> \<not> ascii_graphic (hd q) \<and> \<not> ascii_graphic (last q)"
  by (auto simp: white_space_def ascii_graphic_def)

lemma find_front_graphic:
  assumes "s \<noteq> []" "ascii_graphic (hd s)" "\<And>q. q \<in> set qs \<Longrightarrow> \<not> ascii_graphic (hd q)"
  shows "find_front qs s = None"
  using assms by (cases s) (auto simp: find_front_def find_None_iff starts_with_def take_Cons' split: if_splits, metis list.sel(1))

lemma trim_graphic:
  assumes "s \<noteq> []" "ascii_graphic (hd s)" "ascii_graphic (last s)"
  shows "trim s = s"
proof -
  have "find_front white_space s = None" using assms white_space_ends by (intro find_front_graphic) auto
  moreover have "find_front (map rev white_space) (rev s) = None"
    using assms white_space_ends by (intro find_front_graphic) (auto simp: hd_rev)
  ultimately show ?thesis by (simp add: trim_def trim_start_def trim_end_def trim_front_id)
qed

lemma trim_idem [simp]: "trim (trim s) = trim s"
proof -
  let ?t = "trim_end (trim_start s)"
  obtain q where q: "trim_start s = ?t @ q" using trim_end_prefix by blast
  have "find_front white_space (trim_start s) = None"
    by (simp add: trim_start_def find_front_trim_front)
  with q have "find_front white_space ?t = None" by (metis find_front_prefix_None)
  then have start: "trim_start ?t = ?t" by (simp add: trim_start_def trim_front_id)
  have "trim_end ?t = ?t"
    by (simp add: trim_end_def trim_front_id find_front_trim_front)
  with start show ?thesis by (simp add: trim_def)
qed

section \<open>Decimal numbers\<close>

definition digit_char :: "nat \<Rightarrow> char" where
  "digit_char d = char_of (48 + d)"

fun dec_digits :: "nat \<Rightarrow> string" where
  "dec_digits n = (if n < 10 then [digit_char n] else dec_digits (n div 10) @ [digit_char (n mod 10)])"

declare dec_digits.simps [simp del]

text \<open>\<open>format!("{n:08}")\<close>: at least eight digits, padded with zeros on the left.\<close>

definition format_08 :: "nat \<Rightarrow> string" where
  "format_08 n = (let s = dec_digits n in replicate (8 - length s) (digit_char 0) @ s)"

definition is_digit_char :: "char \<Rightarrow> bool" where
  "is_digit_char c \<longleftrightarrow> 48 \<le> (of_char c :: nat) \<and> (of_char c :: nat) \<le> 57"

definition dec_value :: "string \<Rightarrow> nat" where
  "dec_value s = foldl (\<lambda>v c. 10 * v + (of_char c - 48)) 0 s"

text \<open>\<open>str::parse::<u64>\<close>: an optional plus sign, at least one digit, and no overflow.\<close>

definition parse_u64 :: "string \<Rightarrow> nat option" where
  "parse_u64 s =
     (let ds = (case s of [] \<Rightarrow> [] | c # cs \<Rightarrow> if c = CHR ''+'' then cs else s)
      in if ds \<noteq> [] \<and> list_all is_digit_char ds \<and> dec_value ds < 2 ^ 64
         then Some (dec_value ds) else None)"

lemma of_char_digit_char: "d < 10 \<Longrightarrow> (of_char (digit_char d) :: nat) = 48 + d"
  by (simp add: digit_char_def)

lemma is_digit_digit_char [simp]: "d < 10 \<Longrightarrow> is_digit_char (digit_char d)"
  by (simp add: is_digit_char_def of_char_digit_char)

lemma dec_digits_all_digits: "list_all is_digit_char (dec_digits n)"
proof (induction n rule: dec_digits.induct)
  case (1 n)
  show ?case
    using "1.IH" by (subst dec_digits.simps) (auto simp: list_all_append)
qed

lemma dec_value_append: "dec_value (s @ [c]) = 10 * dec_value s + (of_char c - 48)"
  by (simp add: dec_value_def)

lemma dec_value_dec_digits: "dec_value (dec_digits n) = n"
proof (induction n rule: dec_digits.induct)
  case (1 n)
  show ?case
  proof (cases "n < 10")
    case True
    then show ?thesis by (subst dec_digits.simps) (simp add: dec_value_def of_char_digit_char)
  next
    case False
    with "1.IH" have "dec_value (dec_digits n) = 10 * (n div 10) + n mod 10"
      by (subst dec_digits.simps) (simp add: dec_value_append of_char_digit_char)
    then show ?thesis by simp
  qed
qed

lemma dec_digits_nonempty: "dec_digits n \<noteq> []"
  by (subst dec_digits.simps) simp

lemma dec_value_zeros: "dec_value (replicate k (digit_char 0) @ s) = dec_value s"
proof -
  have "foldl (\<lambda>v c. 10 * v + (of_char c - 48)) 0 (replicate k (digit_char 0)) = (0::nat)"
    by (induction k) (simp_all add: of_char_digit_char)
  then show ?thesis by (simp add: dec_value_def)
qed

lemma format_08_digits: "list_all is_digit_char (format_08 n)"
proof -
  have "list_all is_digit_char (replicate k (digit_char 0))" for k
    by (simp add: list_all_iff)
  then show ?thesis by (simp add: format_08_def Let_def list_all_append dec_digits_all_digits)
qed

lemma dec_value_format_08 [simp]: "dec_value (format_08 n) = n"
  by (simp add: format_08_def Let_def dec_value_zeros dec_value_dec_digits)

lemma format_08_nonempty [simp]: "format_08 n \<noteq> []"
  by (simp add: format_08_def Let_def dec_digits_nonempty)

lemma parse_u64_dec_digits: "n < 2 ^ 64 \<Longrightarrow> parse_u64 (dec_digits n) = Some n"
proof -
  assume n: "n < 2 ^ 64"
  obtain c cs where s: "dec_digits n = c # cs" using dec_digits_nonempty by (cases "dec_digits n") auto
  with dec_digits_all_digits [of n] have "is_digit_char c" by simp
  then have "c \<noteq> CHR ''+''" by (auto simp: is_digit_char_def)
  then show ?thesis using n s dec_digits_all_digits [of n] dec_value_dec_digits [of n]
    by (simp add: parse_u64_def Let_def)
qed

lemma parse_u64_format_08: "n < 2 ^ 64 \<Longrightarrow> parse_u64 (format_08 n) = Some n"
proof -
  assume "n < 2 ^ 64"
  obtain c cs where s: "format_08 n = c # cs" by (cases "format_08 n") auto
  with format_08_digits [of n] have "is_digit_char c" by simp
  then have "c \<noteq> CHR ''+''" by (auto simp: is_digit_char_def)
  then show ?thesis
    using \<open>n < 2 ^ 64\<close> s format_08_digits [of n] dec_value_format_08 [of n]
    by (simp add: parse_u64_def Let_def)
qed

lemma format_08_inject [simp]: "format_08 m = format_08 n \<longleftrightarrow> m = n"
  by (metis dec_value_format_08)

section \<open>Hexadecimal\<close>

definition hex_char :: "nat \<Rightarrow> char" where
  "hex_char d = (if d < 10 then char_of (48 + d) else char_of (87 + d))"

text \<open>\<open>write!(output, "{byte:02x}")\<close> for one byte.\<close>

definition byte_hex :: "u8 \<Rightarrow> string" where
  "byte_hex b = [hex_char (unat b div 16), hex_char (unat b mod 16)]"

definition hex_of_bytes :: "bytes \<Rightarrow> string" where
  "hex_of_bytes bs = concat (map byte_hex bs)"

definition is_lower_hex :: "char \<Rightarrow> bool" where
  "is_lower_hex c \<longleftrightarrow>
     (let n = (of_char c :: nat) in 48 \<le> n \<and> n \<le> 57 \<or> 97 \<le> n \<and> n \<le> 102)"

text \<open>\<open>u8::is_ascii_hexdigit\<close> and the value of such a digit.\<close>

definition is_ascii_hexdigit :: "char \<Rightarrow> bool" where
  "is_ascii_hexdigit c \<longleftrightarrow>
     (let n = (of_char c :: nat) in 48 \<le> n \<and> n \<le> 57 \<or> 65 \<le> n \<and> n \<le> 70 \<or> 97 \<le> n \<and> n \<le> 102)"

definition hex_digit_value :: "char \<Rightarrow> nat" where
  "hex_digit_value c =
     (let n = of_char c in if n \<le> 57 then n - 48 else if n \<le> 70 then n - 55 else n - 87)"

lemma of_char_hex_char: "d < 16 \<Longrightarrow> (of_char (hex_char d) :: nat) = (if d < 10 then 48 + d else 87 + d)"
  by (simp add: hex_char_def)

lemma is_lower_hex_hex_char [simp]: "d < 16 \<Longrightarrow> is_lower_hex (hex_char d)"
  by (simp add: is_lower_hex_def of_char_hex_char Let_def)

lemma is_ascii_hexdigit_hex_char [simp]: "d < 16 \<Longrightarrow> is_ascii_hexdigit (hex_char d)"
  by (simp add: is_ascii_hexdigit_def of_char_hex_char Let_def)

lemma hex_digit_value_hex_char [simp]: "d < 16 \<Longrightarrow> hex_digit_value (hex_char d) = d"
  by (simp add: hex_digit_value_def of_char_hex_char Let_def)

lemma unat_u8_nibbles: "unat (b :: u8) div 16 < 16" "unat (b :: u8) mod 16 < 16"
  using unsigned_less [of b, where ?'a = nat] by simp_all

lemma length_byte_hex [simp]: "length (byte_hex b) = 2"
  by (simp add: byte_hex_def)

lemma length_hex_of_bytes [simp]: "length (hex_of_bytes bs) = 2 * length bs"
  by (induction bs) (simp_all add: hex_of_bytes_def)

lemma hex_of_bytes_lower: "list_all is_lower_hex (hex_of_bytes bs)"
  by (induction bs) (simp_all add: hex_of_bytes_def byte_hex_def unat_u8_nibbles)

lemma byte_hex_inject [simp]: "byte_hex a = byte_hex b \<longleftrightarrow> a = b"
proof
  assume "byte_hex a = byte_hex b"
  then have "unat a div 16 = unat b div 16" "unat a mod 16 = unat b mod 16"
    unfolding byte_hex_def by (metis hex_digit_value_hex_char list.inject unat_u8_nibbles)+
  then have "unat a = unat b" by (metis div_mult_mod_eq)
  then show "a = b" by (simp add: word_unat_eq_iff)
qed simp

lemma hex_of_bytes_inject [simp]: "hex_of_bytes a = hex_of_bytes b \<longleftrightarrow> a = b"
proof (induction a arbitrary: b)
  case Nil
  show ?case by (cases b) (simp_all add: hex_of_bytes_def byte_hex_def)
next
  case (Cons x a)
  show ?case
  proof (cases b)
    case Nil
    then show ?thesis by (simp add: hex_of_bytes_def byte_hex_def)
  next
    case (Cons y b')
    have "hex_of_bytes (x # a) = hex_of_bytes b \<longleftrightarrow>
        byte_hex x = byte_hex y \<and> hex_of_bytes a = hex_of_bytes b'"
      by (simp add: Cons hex_of_bytes_def)
    then show ?thesis using Cons.IH by (simp add: Cons)
  qed
qed

section \<open>Sha-256 references\<close>

text \<open>The textual form \<open>sha256:\<close> followed by 64 lower-case hexadecimal digits.\<close>

definition is_sha256_ref :: "string \<Rightarrow> bool" where
  "is_sha256_ref r \<longleftrightarrow>
     length r = 71 \<and> starts_with r ''sha256:'' \<and> list_all is_lower_hex (drop 7 r)"

lemma is_sha256_ref_of_hex:
  "length bs = 32 \<Longrightarrow> is_sha256_ref (''sha256:'' @ hex_of_bytes bs)"
  by (simp add: is_sha256_ref_def starts_with_def hex_of_bytes_lower)

section \<open>File names\<close>

text \<open>\<open>rsplit_file_at_dot\<close> of \<open>std::path\<close>: the part before the last dot and the part
  after it; a name whose only dot is its first character has no extension.\<close>

definition split_at_last_dot :: "string \<Rightarrow> (string \<times> string) option" where
  "split_at_last_dot name =
     (if CHR ''.'' \<in> set name
      then Some (rev (tl (dropWhile (\<lambda>c. c \<noteq> CHR ''.'') (rev name))),
                 rev (takeWhile (\<lambda>c. c \<noteq> CHR ''.'') (rev name)))
      else None)"

definition file_stem :: "string \<Rightarrow> string" where
  "file_stem name =
     (case split_at_last_dot name of
        Some (before, after) \<Rightarrow> if before = [] \<or> name = ''..'' then name else before
      | None \<Rightarrow> name)"

definition file_extension :: "string \<Rightarrow> string option" where
  "file_extension name =
     (case split_at_last_dot name of
        Some (before, after) \<Rightarrow> if before = [] \<or> name = ''..'' then None else Some after
      | None \<Rightarrow> None)"

lemma split_at_last_dot_append:
  assumes "CHR ''.'' \<notin> set ext"
  shows "split_at_last_dot (stem @ CHR ''.'' # ext) = Some (stem, ext)"
proof -
  have "takeWhile (\<lambda>c. c \<noteq> CHR ''.'') (rev ext @ CHR ''.'' # rev stem) = rev ext"
    using assms by (subst takeWhile_append2) auto
  moreover have "dropWhile (\<lambda>c. c \<noteq> CHR ''.'') (rev ext @ CHR ''.'' # rev stem) = CHR ''.'' # rev stem"
    using assms by (subst dropWhile_append2) auto
  ultimately show ?thesis by (simp add: split_at_last_dot_def)
qed

lemma file_name_parts:
  assumes "stem \<noteq> []" and "CHR ''.'' \<notin> set ext" and "ext \<noteq> []"
  shows "file_stem (stem @ CHR ''.'' # ext) = stem"
    and "file_extension (stem @ CHR ''.'' # ext) = Some ext"
proof -
  have "stem @ CHR ''.'' # ext \<noteq> ''..''"
  proof
    assume "stem @ CHR ''.'' # ext = ''..''"
    then have "length (stem @ CHR ''.'' # ext) = length ''..''" by (rule arg_cong)
    with assms(1,3) show False by (cases stem; cases ext) auto
  qed
  with assms split_at_last_dot_append [OF assms(2), of stem]
  show "file_stem (stem @ CHR ''.'' # ext) = stem"
    and "file_extension (stem @ CHR ''.'' # ext) = Some ext"
    by (auto simp: file_stem_def file_extension_def)
qed

section \<open>Sorting and removing duplicates\<close>

definition sort_dedup :: "'a::linorder list \<Rightarrow> 'a list" where
  "sort_dedup xs = remdups_adj (sort xs)"

lemma set_sort_dedup [simp]: "set (sort_dedup xs) = set xs"
  by (simp add: sort_dedup_def)

lemma strict_sorted_of_distinct_adj:
  "sorted xs \<Longrightarrow> distinct_adj xs \<Longrightarrow> sorted_wrt (<) (xs :: 'a::linorder list)"
  by (induction xs rule: induct_list012) force+

lemma strict_sorted_sort_dedup: "sorted_wrt (<) (sort_dedup xs)"
  by (rule strict_sorted_of_distinct_adj) (simp_all add: sort_dedup_def)

lemma sort_dedup_id_iff: "sort_dedup xs = xs \<longleftrightarrow> sorted_wrt (<) xs"
proof
  assume "sort_dedup xs = xs"
  then show "sorted_wrt (<) xs" by (metis strict_sorted_sort_dedup)
next
  assume "sorted_wrt (<) xs"
  then have "sort xs = xs" and "distinct xs" by (simp_all add: strict_sorted_iff sorted_sort_id)
  then show "sort_dedup xs = xs" by (simp add: sort_dedup_def remdups_adj_distinct)
qed

lemma sort_dedup_idem [simp]: "sort_dedup (sort_dedup xs) = sort_dedup xs"
  by (simp add: sort_dedup_id_iff strict_sorted_sort_dedup)

end
