(* ===== verification/BTree_Map.thy ===== *)
theory BTree_Map
  imports Rust_Text
begin

text \<open>
  \<open>BTreeMap<K, V>\<close> as the list of its entries in key order.  The representation is canonical
  (two maps with the same lookups are the same list), so the equality the program tests on whole
  states is the equality of the model.  The interface the ledgers use is the locale
  \<open>ordered_map\<close>, interpreted here on the list operations.
\<close>

type_synonym ('k, 'v) btree_map = "('k \<times> 'v) list"

fun bt_get :: "('k, 'v) btree_map \<Rightarrow> 'k \<Rightarrow> 'v option" where
  "bt_get [] k = None"
| "bt_get ((k', v) # m) k = (if k = k' then Some v else bt_get m k)"

fun bt_insert :: "'k::linorder \<Rightarrow> 'v \<Rightarrow> ('k, 'v) btree_map \<Rightarrow> ('k, 'v) btree_map" where
  "bt_insert k v [] = [(k, v)]"
| "bt_insert k v ((k', v') # m) =
     (if k < k' then (k, v) # (k', v') # m
      else if k = k' then (k, v) # m
      else (k', v') # bt_insert k v m)"

fun bt_remove :: "'k \<Rightarrow> ('k, 'v) btree_map \<Rightarrow> ('k, 'v) btree_map" where
  "bt_remove k [] = []"
| "bt_remove k ((k', v') # m) = (if k = k' then m else (k', v') # bt_remove k m)"

definition bt_contains_key :: "('k, 'v) btree_map \<Rightarrow> 'k \<Rightarrow> bool" where
  "bt_contains_key m k \<longleftrightarrow> bt_get m k \<noteq> None"

definition bt_keys :: "('k, 'v) btree_map \<Rightarrow> 'k list" where
  "bt_keys m = map fst m"

definition bt_values :: "('k, 'v) btree_map \<Rightarrow> 'v list" where
  "bt_values m = map snd m"

definition bt_wf :: "('k::linorder, 'v) btree_map \<Rightarrow> bool" where
  "bt_wf m \<longleftrightarrow> sorted_wrt (<) (map fst m)"

lemma bt_wf_Nil [simp]: "bt_wf []"
  by (simp add: bt_wf_def)

lemma bt_wf_Cons: "bt_wf ((k, v) # m) \<longleftrightarrow> (\<forall>k'\<in>set (map fst m). k < k') \<and> bt_wf m"
  by (simp add: bt_wf_def)

lemma bt_get_insert [simp]: "bt_get (bt_insert k v m) k' = (if k' = k then Some v else bt_get m k')"
  by (induction k v m rule: bt_insert.induct) auto

lemma fst_bt_insert: "set (map fst (bt_insert k v m)) = insert k (set (map fst m))"
  by (induction k v m rule: bt_insert.induct) auto

lemma bt_wf_insert [simp]: "bt_wf m \<Longrightarrow> bt_wf (bt_insert k v m)"
proof (induction k v m rule: bt_insert.induct)
  case (1 k v)
  then show ?case by (simp add: bt_wf_Cons)
next
  case (2 k v k' v' m)
  then show ?case
    using fst_bt_insert [of k v m] by (auto simp: bt_wf_Cons dest: less_trans)
qed

lemma bt_get_None_iff: "bt_get m k = None \<longleftrightarrow> k \<notin> set (map fst m)"
  by (induction m k rule: bt_get.induct) simp_all

lemma bt_get_in_set: "bt_get m k = Some v \<Longrightarrow> (k, v) \<in> set m"
  by (induction m k rule: bt_get.induct) (auto split: if_splits)

lemma bt_get_of_set: "bt_wf m \<Longrightarrow> (k, v) \<in> set m \<Longrightarrow> bt_get m k = Some v"
  by (induction m k rule: bt_get.induct) (force simp: bt_wf_Cons)+

lemma fst_bt_remove: "set (map fst (bt_remove k m)) \<subseteq> set (map fst m)"
  by (induction k m rule: bt_remove.induct) auto

lemma bt_wf_remove [simp]: "bt_wf m \<Longrightarrow> bt_wf (bt_remove k m)"
proof (induction k m rule: bt_remove.induct)
  case (2 k k' v' m)
  have "\<forall>x\<in>set (map fst (bt_remove k m)). k' < x"
    using 2 fst_bt_remove [of k m] unfolding bt_wf_Cons by blast
  with 2 show ?case by (simp add: bt_wf_Cons)
qed simp

lemma bt_get_remove [simp]:
  "bt_wf m \<Longrightarrow> bt_get (bt_remove k m) k' = (if k' = k then None else bt_get m k')"
proof (induction k m rule: bt_remove.induct)
  case (2 k k'' v' m)
  then have "k = k'' \<Longrightarrow> bt_get m k'' = None" by (auto simp: bt_wf_Cons bt_get_None_iff)
  with 2 show ?case by (auto simp: bt_wf_Cons)
qed simp

lemma bt_ext:
  assumes "bt_wf m" and "bt_wf n" and "\<And>k. bt_get m k = bt_get n k"
  shows "m = n"
  using assms
proof (induction m arbitrary: n)
  case Nil
  show ?case
  proof (cases n)
    case (Cons e n')
    then show ?thesis using Nil.prems(3) [of "fst e"] by (cases e) simp
  qed simp
next
  case (Cons e m)
  obtain k v where e: "e = (k, v)" by (cases e)
  from Cons.prems(3) [of k] e obtain k' v' n' where n: "n = (k', v') # n'"
    by (cases n) auto
  have "bt_get n k \<noteq> None" "bt_get (e # m) k' \<noteq> None"
    using Cons.prems(3) [of k] Cons.prems(3) [of k'] e n by (simp_all split: if_splits) metis+
  then have "k \<in> set (map fst n)" "k' \<in> set (map fst (e # m))"
    unfolding bt_get_None_iff by blast+
  with Cons.prems(1,2) e n have k: "k' = k"
    by (fastforce simp: bt_wf_Cons)
  have fresh: "bt_get m k = None" "bt_get n' k = None"
    using Cons.prems(1,2) e n k by (auto simp: bt_wf_Cons bt_get_None_iff)
  have "bt_get m x = bt_get n' x" for x
    using Cons.prems(3) [of x] fresh e n k by (cases "x = k") auto
  then have "m = n'" using Cons.IH Cons.prems(1,2) e n by (simp add: bt_wf_Cons)
  moreover have "v = v'" using Cons.prems(3) [of k] e n k by simp
  ultimately show ?case by (simp add: e n k)
qed

text \<open>A loop that updates one key per entry of another map.\<close>

lemma bt_get_fold:
  assumes step: "\<And>k v m k'. bt_get (step (k, v) m) k' = (if k' = k then g (bt_get m k) v else bt_get m k')"
    and wf: "bt_wf es"
  shows "bt_get (fold step es m) k = (case bt_get es k of None \<Rightarrow> bt_get m k | Some v \<Rightarrow> g (bt_get m k) v)"
  using wf
proof (induction es arbitrary: m)
  case (Cons e es)
  obtain k' v' where e: "e = (k', v')" by (cases e)
  have "bt_get es k' = None" using Cons.prems by (fastforce simp: e bt_wf_Cons bt_get_None_iff)
  then show ?case using Cons by (auto simp: e bt_wf_Cons step split: option.splits)
qed simp

lemma bt_wf_fold:
  assumes "\<And>e m. bt_wf m \<Longrightarrow> bt_wf (step e m)" "bt_wf m"
  shows "bt_wf (fold step es m)"
  using assms(2) by (induction es arbitrary: m) (simp_all add: assms(1))

section \<open>The interface\<close>

locale ordered_map =
  fixes empty :: 'm
    and get :: "'m \<Rightarrow> 'k \<Rightarrow> 'v option"
    and put :: "'k \<Rightarrow> 'v \<Rightarrow> 'm \<Rightarrow> 'm"
    and del :: "'k \<Rightarrow> 'm \<Rightarrow> 'm"
    and wf :: "'m \<Rightarrow> bool"
  assumes get_empty: "get empty k = None"
    and get_put: "wf m \<Longrightarrow> get (put k v m) k' = (if k' = k then Some v else get m k')"
    and get_del: "wf m \<Longrightarrow> get (del k m) k' = (if k' = k then None else get m k')"
    and wf_empty: "wf empty"
    and wf_put: "wf m \<Longrightarrow> wf (put k v m)"
    and wf_del: "wf m \<Longrightarrow> wf (del k m)"
    and ext: "wf m \<Longrightarrow> wf n \<Longrightarrow> (\<And>k. get m k = get n k) \<Longrightarrow> m = n"
begin

lemma put_put: "wf m \<Longrightarrow> put k v (put k w m) = put k v m"
  by (rule ext) (simp_all add: wf_put get_put)

lemma put_commute: "wf m \<Longrightarrow> k \<noteq> l \<Longrightarrow> put k v (put l w m) = put l w (put k v m)"
  by (rule ext) (simp_all add: wf_put get_put)

lemma put_get_same: "wf m \<Longrightarrow> get m k = Some v \<Longrightarrow> put k v m = m"
  by (rule ext) (simp_all add: wf_put get_put)

lemma del_fresh: "wf m \<Longrightarrow> get m k = None \<Longrightarrow> del k m = m"
  by (rule ext) (simp_all add: wf_del get_del)

lemma del_put: "wf m \<Longrightarrow> del k (put k v m) = del k m"
  by (rule ext) (simp_all add: wf_del wf_put get_del get_put)

text \<open>Two maps built from the same entries agree, whatever the order of insertion.\<close>

lemma wf_fold_put: "wf m \<Longrightarrow> wf (fold (\<lambda>(k, v). put k v) es m)"
  by (induction es arbitrary: m) (auto simp: wf_put)

lemma get_fold_put:
  "wf m \<Longrightarrow> get (fold (\<lambda>(k, v). put k v) es m) x =
     (case map_of (rev es) x of None \<Rightarrow> get m x | Some v \<Rightarrow> Some v)"
proof (induction es arbitrary: m)
  case Nil
  then show ?case by simp
next
  case (Cons e es)
  obtain k v where e: "e = (k, v)" by (cases e)
  have "get (fold (\<lambda>(k, v). put k v) es (put k v m)) x =
      (case map_of (rev es) x of None \<Rightarrow> get (put k v m) x | Some v \<Rightarrow> Some v)"
    using Cons by (simp add: wf_put)
  then show ?case
    using Cons.prems by (auto simp: e map_add_def get_put split: option.splits)
qed

end

interpretation bt: ordered_map "[]" bt_get "bt_insert :: 'k::linorder \<Rightarrow> 'v \<Rightarrow> _" bt_remove bt_wf
  by unfold_locales (simp_all add: bt_ext)

end
