(* ===== verification/Wal.thy ===== *)
theory Wal
  imports BTree_Map
begin

text \<open>
  The write-ahead log of the store crate, \<open>src/liminal-db/crates/liminal-store/src/wal.rs\<close> and
  \<open>gc.rs\<close>: segment files of length-prefixed, checksummed frames, the writer with rotation,
  the recovery of a torn tail when a store is opened, and the stream that reads frames back.

  A directory is the map from file names to entries, a \<open>disk\<close> is the store root with its writer
  lock.  The \<open>File\<close> a writer or a stream holds is the name of a segment and a cursor.  The
  positions and segment numbers of the source are \<open>u64\<close>; the model keeps them as naturals and
  writes the reduction modulo \<open>2 ^ 64\<close> out where the code adds to a segment number, and
  \<open>checked_add\<close> where the code uses it.  The 32-bit length header is a word, so the cast
  \<open>payload.len() as u32\<close> truncates as it does in the source.

  An append is given an \<open>io_env\<close>, which says which of its system calls fail and how many bytes a
  failing write transfers first, and one of the source's own failpoints.  The CRC-32 crate is the
  parameter \<open>crc_hasher\<close>.
\<close>

section \<open>Types\<close>

datatype AppendFailpoint =
  Disabled | BeforeWrite | AfterLengthWrite | AfterPayloadWrite | AfterWriteBeforeSync | AfterSyncBeforeAck

datatype offset = Offset (segment: nat) (position: nat)

instantiation offset :: linorder
begin

definition less_eq_offset :: "offset \<Rightarrow> offset \<Rightarrow> bool" where
  "less_eq_offset a b \<longleftrightarrow> segment a < segment b \<or> segment a = segment b \<and> position a \<le> position b"

definition less_offset :: "offset \<Rightarrow> offset \<Rightarrow> bool" where
  "less_offset a b \<longleftrightarrow> segment a < segment b \<or> segment a = segment b \<and> position a < position b"

instance
  by standard (auto simp: less_eq_offset_def less_offset_def offset.expand)

end

definition offset_start :: offset where
  "offset_start = Offset 1 0"

definition DEFAULT_SEGMENT_SIZE :: nat where
  "DEFAULT_SEGMENT_SIZE = 32 * 1024 * 1024"

datatype io_call =
  WriteLength | WritePayload | WriteChecksum | FlushSegment | SyncSegment
  | RotateSync | RotateOpen | RotateSyncNew | RotateSyncDir

type_synonym io_env = "io_call \<Rightarrow> nat option"

record StoreManifest =
  last_snapshot :: "string option"
  wal_segment :: nat
  wal_position :: nat

datatype wal_error =
  RotationZero
  | WriterLockHeld
  | OpenFailed nat
  | FrameLengthOverflow nat
  | AmbiguousPartialPayload nat
  | ChecksumMismatch nat
  | StreamChecksumMismatch
  | UnexpectedEof
  | ReadFailed nat
  | InjectedFailure AppendFailpoint
  | IoError io_call
  | ManifestCodec string
  | ManifestIo StoreManifest
  | SnapshotIo string

record 'h crc_hasher =
  crc_new :: 'h
  crc_update :: "'h \<Rightarrow> bytes \<Rightarrow> 'h"
  crc_finalize :: "'h \<Rightarrow> u32"

datatype dir_entry = RegularFile bytes | OtherEntry

type_synonym directory = "(string, dir_entry) btree_map"

record disk =
  d_data :: directory
  d_snap :: directory
  d_manifest :: "bytes option"
  d_locked :: bool

record wal_writer =
  ww_rotation :: nat
  ww_segment :: nat
  ww_size :: nat
  ww_cursor :: nat

record store =
  st_disk :: disk
  st_writer :: wal_writer

section \<open>Files\<close>

definition dir_file :: "directory \<Rightarrow> string \<Rightarrow> bytes option" where
  "dir_file d name = (case bt_get d name of Some (RegularFile f) \<Rightarrow> Some f | _ \<Rightarrow> None)"

definition wal_path :: "nat \<Rightarrow> string" where
  "wal_path seg = format_08 seg @ ''.wal''"

definition numbered_files :: "string \<Rightarrow> directory \<Rightarrow> nat list" where
  "numbered_files ext d =
     List.map_filter (\<lambda>(name, e).
       case e of
         RegularFile _ \<Rightarrow> if file_extension name = Some ext then parse_u64 (file_stem name) else None
       | OtherEntry \<Rightarrow> None) d"

definition list_segments :: "directory option \<Rightarrow> nat list" where
  "list_segments dir =
     (case dir of
        None \<Rightarrow> []
      | Some d \<Rightarrow>
          let segments = numbered_files ''wal'' d
          in sort_dedup (if segments = [] then [1] else segments))"

definition write_at :: "nat \<Rightarrow> bytes \<Rightarrow> bytes \<Rightarrow> bytes" where
  "write_at cursor bs f =
     take cursor (f @ replicate (cursor - length f) 0) @ bs @ drop (cursor + length bs) f"

text \<open>\<open>Write::write_all\<close> on the segment file the writer holds open: a failing call has written a
  prefix of its bytes.\<close>

definition write_all :: "io_env \<Rightarrow> io_call \<Rightarrow> bytes \<Rightarrow> directory \<times> wal_writer \<Rightarrow>
    (directory \<times> wal_writer, wal_error, unit) outcome" where
  "write_all io call bs s =
     (case s of (d, w) \<Rightarrow>
        let written = (case io call of None \<Rightarrow> bs | Some n \<Rightarrow> take n bs);
            name = wal_path (ww_segment w);
            f = (case dir_file d name of None \<Rightarrow> [] | Some f \<Rightarrow> f);
            d' = bt_insert name (RegularFile (write_at (ww_cursor w) written f)) d;
            w' = w\<lparr>ww_cursor := ww_cursor w + length written\<rparr>
        in ((d', w'), require (io call = None) (IoError call)))"

text \<open>A system call that changes no file contents: \<open>flush\<close>, \<open>sync_all\<close>,
  \<open>sync_directory\<close>.\<close>

definition io_step :: "io_env \<Rightarrow> io_call \<Rightarrow> 's \<Rightarrow> ('s, wal_error, unit) outcome" where
  "io_step io call s = check (io call = None) (IoError call) s"

section \<open>The writer\<close>

definition crc_of :: "'h crc_hasher \<Rightarrow> bytes \<Rightarrow> u32" where
  "crc_of crc payload = crc_finalize crc (crc_update crc (crc_new crc) payload)"

definition writer_rotate :: "io_env \<Rightarrow> directory \<times> wal_writer \<Rightarrow>
    (directory \<times> wal_writer, wal_error, unit) outcome" where
  "writer_rotate io s =
     sbind (io_step io RotateSync s) (\<lambda>(d, w) _.
       let next_segment = (ww_segment w + 1) mod 2 ^ 64;
           name = wal_path next_segment
       in sbind (check (io RotateOpen = None \<and> bt_get d name \<noteq> Some OtherEntry) (OpenFailed next_segment) (d, w))
            (\<lambda>(d, w) _.
          let d' = bt_insert name (RegularFile []) d
          in sbind (io_step io RotateSyncNew (d', w)) (\<lambda>s _.
             sbind (io_step io RotateSyncDir s) (\<lambda>(d, w) _.
               ((d, w\<lparr>ww_segment := next_segment, ww_size := 0, ww_cursor := 0\<rparr>), Inr ())))))"

text \<open>The part of \<open>WalWriter::append\<close> after the rotation check: the frame is written in three
  calls and flushed.\<close>

definition write_frame :: "'h crc_hasher \<Rightarrow> io_env \<Rightarrow> AppendFailpoint \<Rightarrow> bytes \<Rightarrow>
    directory \<times> wal_writer \<Rightarrow> (directory \<times> wal_writer, wal_error, offset) outcome" where
  "write_frame crc io failpoint payload s =
     (let record_size = 4 + length payload + 4;
          offset = Offset (ww_segment (snd s)) (ww_size (snd s));
          len = (word_of_nat (length payload) :: u32);
          checksum = crc_of crc payload
      in sbind (write_all io WriteLength (u32_to_le_bytes len) s) (\<lambda>s _.
         sbind (check (failpoint \<noteq> AfterLengthWrite) (InjectedFailure AfterLengthWrite) s) (\<lambda>s _.
         sbind (write_all io WritePayload payload s) (\<lambda>s _.
         sbind (check (failpoint \<noteq> AfterPayloadWrite) (InjectedFailure AfterPayloadWrite) s) (\<lambda>s _.
         sbind (write_all io WriteChecksum (u32_to_le_bytes checksum) s) (\<lambda>s _.
         sbind (io_step io FlushSegment s) (\<lambda>(d, w) _.
           ((d, w\<lparr>ww_size := ww_size w + record_size\<rparr>), Inr offset))))))))"

definition writer_append :: "'h crc_hasher \<Rightarrow> io_env \<Rightarrow> AppendFailpoint \<Rightarrow> bytes \<Rightarrow>
    directory \<times> wal_writer \<Rightarrow> (directory \<times> wal_writer, wal_error, offset) outcome" where
  "writer_append crc io failpoint payload s =
     (let record_size = 4 + length payload + 4
      in sbind (if ww_size (snd s) + record_size > ww_rotation (snd s)
                then writer_rotate io s else (s, Inr ())) (\<lambda>s _.
         write_frame crc io failpoint payload s))"

section \<open>Recovery of the last segment\<close>

text \<open>The checksum of a payload read in chunks of 8192 bytes.\<close>

function hash_chunks :: "'h crc_hasher \<Rightarrow> 'h \<Rightarrow> bytes \<Rightarrow> 'h" where
  "hash_chunks crc h bs =
     (if bs = [] then h else hash_chunks crc (crc_update crc h (take 8192 bs)) (drop 8192 bs))"
  by pat_completeness auto
termination
  by (relation "measure (\<lambda>(crc, h, bs). length bs)") auto

declare hash_chunks.simps [simp del]

definition truncate_torn_tail :: "bytes \<Rightarrow> nat \<Rightarrow> bytes \<times> nat" where
  "truncate_torn_tail f valid_len = (take valid_len f, valid_len)"

text \<open>The loop of \<open>recover_last_segment_tail\<close>, from \<open>pos\<close>; the result is the repaired
  file and its length.\<close>

function recover_loop :: "'h crc_hasher \<Rightarrow> bytes \<Rightarrow> nat \<Rightarrow> wal_error + bytes \<times> nat" where
  "recover_loop crc f pos =
     (if pos < length f then
        let frame_start = pos;
            remaining_frame_bytes = length f - frame_start
        in if remaining_frame_bytes < 4 then Inr (truncate_torn_tail f frame_start)
           else
             let payload_len = unat (u32_from_le_bytes (take 4 (drop frame_start f)));
                 payload_start = frame_start + 4;
                 available_after_header = length f - payload_start
             in (case Option.bind (checked_add_u64 payload_start payload_len) (\<lambda>v. checked_add_u64 v 4) of
                   None \<Rightarrow> Inl (FrameLengthOverflow frame_start)
                 | Some frame_end \<Rightarrow>
                     if frame_end > length f then
                       if available_after_header = 0
                          \<or> available_after_header \<ge> payload_len \<and> available_after_header < payload_len + 4
                       then Inr (truncate_torn_tail f frame_start)
                       else Inl (AmbiguousPartialPayload frame_start)
                     else
                       let payload = take payload_len (drop payload_start f);
                           expected = crc_finalize crc (hash_chunks crc (crc_new crc) payload);
                           actual = u32_from_le_bytes (take 4 (drop (payload_start + payload_len) f))
                       in if expected \<noteq> actual then Inl (ChecksumMismatch frame_start)
                          else recover_loop crc f frame_end)
      else Inr (f, pos))"
  by pat_completeness auto
termination
  by (relation "measure (\<lambda>(crc, f, pos). length f - pos)")
     (auto simp: checked_add_u64_def split: if_splits)

declare recover_loop.simps [simp del]

definition recover_last_segment_tail :: "'h crc_hasher \<Rightarrow> bytes \<Rightarrow> wal_error + bytes \<times> nat" where
  "recover_last_segment_tail crc f = recover_loop crc f 0"

definition writer_open :: "'h crc_hasher \<Rightarrow> directory \<Rightarrow> nat \<Rightarrow> directory \<times> (wal_error + wal_writer)" where
  "writer_open crc d rotation =
     (let segments = list_segments (Some d);
          seg = (if segments = [] then 1 else last segments);
          name = wal_path seg
      in case bt_get d name of
           None \<Rightarrow>
             (bt_insert name (RegularFile []) d,
              Inr \<lparr>ww_rotation = rotation, ww_segment = seg, ww_size = 0, ww_cursor = 0\<rparr>)
         | Some OtherEntry \<Rightarrow> (d, Inl (OpenFailed seg))
         | Some (RegularFile f) \<Rightarrow>
             (case recover_last_segment_tail crc f of
                Inl e \<Rightarrow> (d, Inl e)
              | Inr (f', len) \<Rightarrow>
                  (bt_insert name (RegularFile f') d,
                   Inr \<lparr>ww_rotation = rotation, ww_segment = seg, ww_size = len, ww_cursor = len\<rparr>)))"

section \<open>The store\<close>

text \<open>Opening takes the writer lock of the root; a failed opening drops the lock file again.\<close>

definition store_open_with_rotation :: "'h crc_hasher \<Rightarrow> disk \<Rightarrow> nat \<Rightarrow> disk \<times> (wal_error + store)" where
  "store_open_with_rotation crc dk rotation =
     (if rotation = 0 then (dk, Inl RotationZero)
      else if d_locked dk then (dk, Inl WriterLockHeld)
      else case writer_open crc (d_data dk) rotation of
             (d', Inl e) \<Rightarrow> (dk\<lparr>d_data := d'\<rparr>, Inl e)
           | (d', Inr w) \<Rightarrow>
               let dk' = dk\<lparr>d_data := d', d_locked := True\<rparr>
               in (dk', Inr \<lparr>st_disk = dk', st_writer = w\<rparr>))"

definition store_open :: "'h crc_hasher \<Rightarrow> disk \<Rightarrow> disk \<times> (wal_error + store)" where
  "store_open crc dk = store_open_with_rotation crc dk DEFAULT_SEGMENT_SIZE"

text \<open>Dropping a store releases the advisory lock it holds.\<close>

definition store_drop :: "store \<Rightarrow> disk" where
  "store_drop s = (st_disk s)\<lparr>d_locked := False\<rparr>"

definition store_append :: "'h crc_hasher \<Rightarrow> io_env \<Rightarrow> AppendFailpoint \<Rightarrow> bytes \<Rightarrow> store \<Rightarrow>
    (store, wal_error, offset) outcome" where
  "store_append crc io failpoint bs s =
     sbind (check (failpoint \<noteq> BeforeWrite) (InjectedFailure BeforeWrite) s) (\<lambda>s _.
       case writer_append crc io failpoint bs (d_data (st_disk s), st_writer s) of ((d', w'), r) \<Rightarrow>
         let s' = s\<lparr>st_disk := (st_disk s)\<lparr>d_data := d'\<rparr>, st_writer := w'\<rparr>
         in sbind (s', r) (\<lambda>s offset.
            sbind (check (failpoint \<noteq> AfterWriteBeforeSync) (InjectedFailure AfterWriteBeforeSync) s) (\<lambda>s _.
            sbind (io_step io SyncSegment s) (\<lambda>s _.
            sbind (check (failpoint \<noteq> AfterSyncBeforeAck) (InjectedFailure AfterSyncBeforeAck) s) (\<lambda>s _.
              (s, Inr offset))))))"

definition current_segment :: "store \<Rightarrow> nat" where
  "current_segment s = ww_segment (st_writer s)"

definition end_offset :: "store \<Rightarrow> offset" where
  "end_offset s = Offset (ww_segment (st_writer s)) (ww_size (st_writer s))"

section \<open>Reading frames back\<close>

record wal_stream =
  ws_segments :: "nat list"
  ws_idx :: nat
  ws_file :: "(nat \<times> nat) option"
  ws_position :: nat
  ws_offset :: offset

function open_current :: "directory \<Rightarrow> wal_stream \<Rightarrow> (wal_stream, wal_error, unit) outcome" where
  "open_current d s =
     (if ws_idx s < length (ws_segments s) then
        let seg = ws_segments s ! ws_idx s
        in (case bt_get d (wal_path seg) of
              Some _ \<Rightarrow>
                if segment (ws_offset s) > seg then open_current d (s\<lparr>ws_idx := ws_idx s + 1\<rparr>)
                else
                  let pos = (if segment (ws_offset s) = seg \<and> position (ws_offset s) > 0
                             then position (ws_offset s) else 0)
                  in (s\<lparr>ws_file := Some (seg, pos), ws_position := pos, ws_offset := Offset seg 0\<rparr>, Inr ())
            | None \<Rightarrow>
                let s' = s\<lparr>ws_idx := ws_idx s + 1\<rparr>
                in if ws_idx s' \<ge> length (ws_segments s') then (s', Inl (OpenFailed seg))
                   else open_current d s')
      else (s, Inr ()))"
  by pat_completeness auto
termination
  by (relation "measure (\<lambda>(d, s). length (ws_segments s) - ws_idx s)") auto

declare open_current.simps [simp del]

text \<open>\<open>Iterator::position\<close>.\<close>

primrec find_index :: "('a \<Rightarrow> bool) \<Rightarrow> 'a list \<Rightarrow> nat option" where
  "find_index P [] = None"
| "find_index P (x # xs) = (if P x then Some 0 else map_option Suc (find_index P xs))"

definition stream_new :: "directory \<Rightarrow> offset \<Rightarrow> wal_error + wal_stream" where
  "stream_new d off =
     (let segments = list_segments (Some d);
          start_idx = (case find_index (\<lambda>seg. seg \<ge> segment off) segments of
                         Some i \<Rightarrow> i | None \<Rightarrow> length segments - 1)
      in case open_current d \<lparr>ws_segments = segments, ws_idx = start_idx, ws_file = None,
                ws_position = position off, ws_offset = off\<rparr> of
           (s, Inl e) \<Rightarrow> Inl e
         | (s, Inr _) \<Rightarrow> Inr s)"

definition stream_from :: "store \<Rightarrow> offset \<Rightarrow> wal_error + wal_stream" where
  "stream_from s off = stream_new (d_data (st_disk s)) off"


text \<open>\<open>WalStream::next\<close>.  A read that meets the end of the file while it reads a length header
  ends the segment; one that meets it later is an error and leaves the cursor at the end.\<close>

definition stream_fuel :: "wal_stream \<Rightarrow> nat" where
  "stream_fuel s =
     (case ws_file s of
        None \<Rightarrow> 2 * (length (ws_segments s) - ws_idx s) + 1
      | Some _ \<Rightarrow> max (2 * (length (ws_segments s) - ws_idx s)) 2)"

lemma open_current_frame:
  "open_current d s = (s', r) \<Longrightarrow> ws_segments s' = ws_segments s \<and> ws_idx s \<le> ws_idx s'"
proof (induction "length (ws_segments s) - ws_idx s" arbitrary: s rule: less_induct)
  case less
  let ?n = "s\<lparr>ws_idx := Suc (ws_idx s)\<rparr>"
  have IH: "ws_segments s' = ws_segments s \<and> ws_idx s \<le> ws_idx s'"
    if "ws_idx s < length (ws_segments s)" and "open_current d ?n = (s', r)"
    using less.hyps [of ?n] that by (auto simp: diff_less_mono2 Suc_le_eq)
  show ?case
    using less.prems IH
    by (subst (asm) open_current.simps) (auto simp: Let_def split: if_splits option.splits)
qed

lemma open_current_advances:
  "open_current d s = (s', r) \<Longrightarrow> ws_file s = None \<Longrightarrow> ws_file s' = None \<Longrightarrow>
     length (ws_segments s) \<le> ws_idx s'"
proof (induction "length (ws_segments s) - ws_idx s" arbitrary: s rule: less_induct)
  case less
  let ?n = "s\<lparr>ws_idx := Suc (ws_idx s)\<rparr>"
  have IH: "length (ws_segments s) \<le> ws_idx s'"
    if "ws_idx s < length (ws_segments s)" and "open_current d ?n = (s', r)"
    using less.hyps [of ?n] less.prems that by auto
  show ?case
    using less.prems IH
    by (subst (asm) open_current.simps) (auto simp: Let_def split: if_splits option.splits)
qed

lemma open_current_fuel:
  assumes "ws_file s = None" and "ws_idx s < length (ws_segments s)" and "open_current d s = (s', r)"
  shows "stream_fuel s' < stream_fuel s"
  using open_current_frame [OF assms(3)] open_current_advances [OF assms(3,1)] assms(1,2)
  by (auto simp: stream_fuel_def split: option.splits)

function stream_next :: "'h crc_hasher \<Rightarrow> directory \<Rightarrow> wal_stream \<Rightarrow>
    (wal_error + bytes) option \<times> wal_stream" where
  "stream_next crc d s =
     (case ws_file s of
        None \<Rightarrow>
          if ws_idx s \<ge> length (ws_segments s) then (None, s)
          else (case open_current d s of
                  (s', Inl e) \<Rightarrow> (Some (Inl e), s')
                | (s', Inr _) \<Rightarrow> stream_next crc d s')
      | Some (seg, cursor) \<Rightarrow>
          (case dir_file d (wal_path seg) of
             None \<Rightarrow> (Some (Inl (ReadFailed seg)), s)
           | Some f \<Rightarrow>
               if length f < cursor + 4 then
                 stream_next crc d
                   (s\<lparr>ws_idx := ws_idx s + 1, ws_file := None,
                      ws_offset := Offset ((segment (ws_offset s) + 1) mod 2 ^ 64) 0\<rparr>)
               else
                 let len = unat (u32_from_le_bytes (take 4 (drop cursor f)))
                 in if length f < cursor + 4 + len
                    then (Some (Inl UnexpectedEof), s\<lparr>ws_file := Some (seg, length f)\<rparr>)
                    else
                      let payload = take len (drop (cursor + 4) f)
                      in if length f < cursor + 4 + len + 4
                         then (Some (Inl UnexpectedEof), s\<lparr>ws_file := Some (seg, length f)\<rparr>)
                         else
                           let expected = crc_of crc payload;
                               actual = u32_from_le_bytes (take 4 (drop (cursor + 4 + len) f));
                               s' = s\<lparr>ws_file := Some (seg, cursor + 4 + len + 4)\<rparr>
                           in if expected \<noteq> actual then (Some (Inl StreamChecksumMismatch), s')
                              else (Some (Inr payload),
                                    s'\<lparr>ws_position := ws_position s + (4 + len + 4),
                                       ws_offset := Offset (segment (ws_offset s))
                                         (ws_position s + (4 + len + 4))\<rparr>)))"
  by pat_completeness auto
termination
proof (relation "measure (\<lambda>(crc, d, s). stream_fuel s)", goal_cases)
  case 1
  show ?case by simp
next
  case (2 crc d s s' r)
  then show ?case by (auto simp: not_le intro!: open_current_fuel dest: sym)
next
  case (3 crc d s y seg cursor f)
  then show ?case by (auto simp: stream_fuel_def)
qed

declare stream_next.simps [simp del]

section \<open>Garbage collection\<close>

definition gc_compact :: "store \<Rightarrow> offset \<Rightarrow> store" where
  "gc_compact s since =
     (let current = current_segment s;
          segments = list_segments (Some (d_data (st_disk s)));
          doomed = filter (\<lambda>seg. seg < segment since \<and> seg \<noteq> current) segments;
          d' = fold (\<lambda>seg d. bt_remove (wal_path seg) d) doomed (d_data (st_disk s))
      in s\<lparr>st_disk := (st_disk s)\<lparr>d_data := d'\<rparr>\<rparr>)"

section \<open>Snapshot files and the manifest\<close>


definition snapshot_file_path :: "nat \<Rightarrow> string" where
  "snapshot_file_path n = format_08 n @ ''.snap''"

definition list_snapshots :: "directory option \<Rightarrow> nat list" where
  "list_snapshots dir =
     (case dir of None \<Rightarrow> [] | Some d \<Rightarrow> sort_dedup (numbered_files ''snap'' d))"

definition next_snapshot_id :: "store \<Rightarrow> nat" where
  "next_snapshot_id s =
     (let ids = list_snapshots (Some (d_snap (st_disk s)))
      in ((if ids = [] then 0 else last ids) + 1) mod 2 ^ 64)"

definition read_manifest :: "(bytes \<Rightarrow> string + StoreManifest) \<Rightarrow> store \<Rightarrow> wal_error + StoreManifest option" where
  "read_manifest from_slice s =
     (case d_manifest (st_disk s) of
        None \<Rightarrow> Inr None
      | Some bs \<Rightarrow> rbind (map_err ManifestCodec (from_slice bs)) (\<lambda>m. Inr (Some m)))"

text \<open>\<open>std::fs::write\<close> truncates or creates the file and writes it in place, without a sync.  A failing
  call has not opened the file, or has stopped after some bytes.\<close>

datatype write_fault = NotOpened | StoppedAfter nat

fun fs_write_bytes :: "write_fault option \<Rightarrow> bytes \<Rightarrow> bytes option \<Rightarrow> bytes option" where
  "fs_write_bytes None bs old = Some bs"
| "fs_write_bytes (Some NotOpened) bs old = old"
| "fs_write_bytes (Some (StoppedAfter k)) bs old = Some (take k bs)"

definition write_manifest :: "(StoreManifest \<Rightarrow> string + bytes) \<Rightarrow> write_fault option \<Rightarrow> StoreManifest \<Rightarrow> store \<Rightarrow>
    (store, wal_error, unit) outcome" where
  "write_manifest to_vec fault m s =
     (case to_vec m of
        Inl e \<Rightarrow> (s, Inl (ManifestCodec e))
      | Inr bs \<Rightarrow>
          (s\<lparr>st_disk := (st_disk s)\<lparr>d_manifest := fs_write_bytes fault bs (d_manifest (st_disk s))\<rparr>\<rparr>,
           require (fault = None) (ManifestIo m)))"

end
