(* ===== verification/Wal_Log.thy ===== *)
theory Wal_Log
  imports Wal
begin

text \<open>
  Frames and streams.  \<open>frame\<close> is the byte form of one record and \<open>wal_fold\<close> is the loop
  \<open>for record in stream\<close> that the ledgers run.  The lemmas show that the scan of a segment accepts
  intact frames, that it truncates the tail an interrupted append left or fails closed, and that a
  stream over whole segments yields their records in order.
\<close>

section \<open>Running a stream to its end\<close>

definition stream_left :: "directory \<Rightarrow> wal_stream \<Rightarrow> nat" where
  "stream_left d s =
     (case ws_file s of
        Some (seg, cursor) \<Rightarrow> (case dir_file d (wal_path seg) of Some f \<Rightarrow> length f - cursor | None \<Rightarrow> 0)
      | None \<Rightarrow> (case dir_file d (wal_path (ws_segments s ! ws_idx s)) of
                   Some f \<Rightarrow> length f + 1 | None \<Rightarrow> 1))"

abbreviation stream_rel :: "directory \<Rightarrow> (wal_stream \<times> wal_stream) set" where
  "stream_rel d \<equiv> measures [\<lambda>s. length (ws_segments s) - ws_idx s, stream_left d]"

lemma open_current_result:
  "open_current d s = (s', Inr u) \<Longrightarrow> ws_file s = None \<Longrightarrow> ws_idx s < length (ws_segments s) \<Longrightarrow>
     ws_idx s < ws_idx s' \<or>
     ws_idx s' = ws_idx s \<and> (\<exists>pos. ws_file s' = Some (ws_segments s ! ws_idx s, pos))"
  using open_current_frame [of d "s\<lparr>ws_idx := ws_idx s + 1\<rparr>" s' "Inr u"]
  by (subst (asm) open_current.simps) (auto simp: Let_def split: if_splits option.splits)

lemma open_current_rel:
  assumes "open_current d s = (s', Inr u)" "ws_file s = None" "ws_idx s < length (ws_segments s)"
  shows "(s', s) \<in> stream_rel d"
  using open_current_result [OF assms] open_current_frame [OF assms(1)] assms(2,3)
  by (auto simp: stream_left_def split: option.splits)

lemma stream_next_Ok_rel:
  "stream_next crc d s = (Some (Inr p), s') \<Longrightarrow>
     ws_segments s' = ws_segments s \<and> (s', s) \<in> stream_rel d"
proof (induction "stream_fuel s" arbitrary: s rule: less_induct)
  case less
  show ?case
  proof (cases "ws_file s")
    case None
    with less.prems have idx: "ws_idx s < length (ws_segments s)"
      by (subst (asm) stream_next.simps) (auto split: if_splits)
    obtain s1 r where oc: "open_current d s = (s1, r)" by (cases "open_current d s")
    with None less.prems idx obtain u where r: "r = Inr u"
      by (subst (asm) stream_next.simps) (auto split: sum.splits)
    with None less.prems idx oc have n: "stream_next crc d s1 = (Some (Inr p), s')"
      by (subst (asm) stream_next.simps) simp
    have "stream_fuel s1 < stream_fuel s" using None idx oc by (rule open_current_fuel)
    from less.hyps [OF this n] have "ws_segments s' = ws_segments s1" "(s', s1) \<in> stream_rel d" by auto
    moreover have "(s1, s) \<in> stream_rel d"
      using open_current_rel [of d s s1 u] oc r None idx by simp
    moreover have "ws_segments s1 = ws_segments s" using open_current_frame [OF oc] by simp
    ultimately show ?thesis by auto
  next
    case (Some fc)
    obtain seg cur where fc: "fc = (seg, cur)" by (cases fc)
    with Some less.prems obtain f where f: "dir_file d (wal_path seg) = Some f"
      by (subst (asm) stream_next.simps) (auto split: option.splits)
    show ?thesis
    proof (cases "length f < cur + 4")
      case True
      let ?s = "s\<lparr>ws_idx := ws_idx s + 1, ws_file := None,
          ws_offset := Offset ((segment (ws_offset s) + 1) mod 2 ^ 64) 0\<rparr>"
      have n: "stream_next crc d ?s = (Some (Inr p), s')"
        using less.prems Some fc f True by (subst (asm) stream_next.simps) simp
      then have idx: "ws_idx s + 1 < length (ws_segments s)"
        by (subst (asm) stream_next.simps) (auto split: if_splits)
      have "stream_fuel ?s < stream_fuel s" using Some idx by (auto simp: stream_fuel_def)
      from less.hyps [OF this n] idx show ?thesis by auto
    next
      case False
      then show ?thesis
        using less.prems Some fc f
        by (subst (asm) stream_next.simps)
           (auto simp: Let_def stream_left_def split: if_splits)
    qed
  qed
qed

text \<open>\<open>for record in stream { let bytes = record.map_err(h)?; step(&mut state, bytes)? }\<close>.\<close>

function wal_fold :: "'h crc_hasher \<Rightarrow> directory \<Rightarrow> (wal_error \<Rightarrow> 'e) \<Rightarrow> ('s \<Rightarrow> bytes \<Rightarrow> 'e + 's) \<Rightarrow>
    's \<Rightarrow> wal_stream \<Rightarrow> 'e + 's" where
  "wal_fold crc d h step st s =
     (case stream_next crc d s of
        (None, _) \<Rightarrow> Inr st
      | (Some (Inl e), _) \<Rightarrow> Inl (h e)
      | (Some (Inr bs), s') \<Rightarrow> rbind (step st bs) (\<lambda>st'. wal_fold crc d h step st' s'))"
  by pat_completeness auto
termination
proof (relation "measures [\<lambda>(crc, d, h, step, st, s). length (ws_segments s) - ws_idx s,
      \<lambda>(crc, d, h, step, st, s). stream_left d s]", goal_cases)
  case 1
  show ?case by simp
next
  case (2 crc d h step st s r s' x bs st')
  then have "stream_next crc d s = (Some (Inr bs), s')" by simp
  from stream_next_Ok_rel [OF this] show ?case by auto
qed

declare wal_fold.simps [simp del]

lemma wal_fold_inv:
  "wal_fold crc d h step st s = Inr st' \<Longrightarrow> P st \<Longrightarrow> (\<And>st bs st'. P st \<Longrightarrow> step st bs = Inr st' \<Longrightarrow> P st') \<Longrightarrow> P st'"
proof (induction crc d h step st s arbitrary: st' rule: wal_fold.induct)
  case (1 crc d h step st s)
  show ?case
  proof (cases "stream_next crc d s")
    case (Pair r s')
    with 1 show ?thesis
      by (subst (asm) (2) wal_fold.simps) (auto simp: rbind_Inr_iff split: option.splits sum.splits)
  qed
qed

section \<open>Frames\<close>

text \<open>The documented behaviour of the CRC-32 hasher the code relies on: updating with two pieces is
  updating with their concatenation.\<close>

definition crc_streaming :: "'h crc_hasher \<Rightarrow> bool" where
  "crc_streaming crc \<longleftrightarrow>
     (\<forall>h. crc_update crc h [] = h) \<and>
     (\<forall>h a b. crc_update crc (crc_update crc h a) b = crc_update crc h (a @ b))"

definition frame :: "'h crc_hasher \<Rightarrow> bytes \<Rightarrow> bytes" where
  "frame crc p = u32_to_le_bytes (word_of_nat (length p)) @ p @ u32_to_le_bytes (crc_of crc p)"

definition frames :: "'h crc_hasher \<Rightarrow> bytes list \<Rightarrow> bytes" where
  "frames crc ps = concat (map (frame crc) ps)"

definition frame_ok :: "bytes \<Rightarrow> bool" where
  "frame_ok p \<longleftrightarrow> length p < 2 ^ 32"

lemma length_frame [simp]: "length (frame crc p) = length p + 8"
  by (simp add: frame_def)

lemma frames_Nil [simp]: "frames crc [] = []"
  by (simp add: frames_def)

lemma frames_Cons [simp]: "frames crc (p # ps) = frame crc p @ frames crc ps"
  by (simp add: frames_def)

lemma frames_append [simp]: "frames crc (ps @ qs) = frames crc ps @ frames crc qs"
  by (simp add: frames_def)

lemma hash_chunks_eq: "crc_streaming crc \<Longrightarrow> hash_chunks crc h bs = crc_update crc h bs"
proof (induction crc h bs rule: hash_chunks.induct)
  case (1 crc h bs)
  then show ?case
    by (subst hash_chunks.simps) (auto simp: crc_streaming_def)
qed

lemma frame_header: "frame_ok p \<Longrightarrow> unat (u32_from_le_bytes (take 4 (frame crc p @ rest))) = length p"
  by (simp add: frame_def frame_ok_def unat_of_nat)

lemma frame_payload: "take (length p) (drop 4 (frame crc p @ rest)) = p"
  by (simp add: frame_def)

lemma frame_checksum: "take 4 (drop (4 + length p) (frame crc p @ rest)) = u32_to_le_bytes (crc_of crc p)"
  by (simp add: frame_def)

lemma drop_frame_parts:
  "drop (length pre) (pre @ bs) = bs"
  "drop (length pre + 4) (pre @ bs) = drop 4 bs"
  "drop (length pre + 4 + n) (pre @ bs) = drop (4 + n) bs"
  by (simp_all add: add.assoc)

section \<open>Recovery\<close>

text \<open>A complete, intact frame is skipped.\<close>

lemma recover_loop_frame:
  assumes crc: "crc_streaming crc" and ok: "frame_ok p"
    and len: "length pre + 2 ^ 33 < 2 ^ 64"
  shows "recover_loop crc (pre @ frame crc p @ rest) (length pre) =
         recover_loop crc (pre @ frame crc p @ rest) (length pre + (length p + 8))"
proof -
  let ?f = "pre @ frame crc p @ rest"
  have b: "length p < 2 ^ 32" using ok by (simp add: frame_ok_def)
  have header: "unat (u32_from_le_bytes (take 4 (drop (length pre) ?f))) = length p"
    using frame_header [OF ok, of crc rest] by (simp only: drop_frame_parts)
  have sum: "Option.bind (checked_add_u64 (length pre + 4) (length p)) (\<lambda>v. checked_add_u64 v 4)
      = Some (length pre + (length p + 8))"
    using b len by (simp add: checked_add_u64_def)
  have body: "take (length p) (drop (length pre + 4) ?f) = p"
    using frame_payload [of p crc rest] by (simp only: drop_frame_parts)
  have tail: "u32_from_le_bytes (take 4 (drop (length pre + 4 + length p) ?f)) = crc_of crc p"
    using frame_checksum [of p crc rest] by (simp only: drop_frame_parts u32_le_bytes_roundtrip)
  have hash: "crc_finalize crc (hash_chunks crc (crc_new crc) p) = crc_of crc p"
    using crc by (simp add: hash_chunks_eq crc_of_def)
  show ?thesis
    by (subst recover_loop.simps) (simp only: Let_def header sum body tail hash, simp)
qed

lemma recover_loop_frames:
  assumes "crc_streaming crc" "list_all frame_ok ps"
    and "length pre + length (frames crc ps) + 2 ^ 33 < 2 ^ 64"
  shows "recover_loop crc (pre @ frames crc ps @ rest) (length pre) =
         recover_loop crc (pre @ frames crc ps @ rest) (length (pre @ frames crc ps))"
  using assms(2,3)
proof (induction ps arbitrary: pre)
  case Nil
  then show ?case by simp
next
  case (Cons p ps)
  have "recover_loop crc (pre @ frame crc p @ frames crc ps @ rest) (length pre) =
      recover_loop crc (pre @ frame crc p @ frames crc ps @ rest) (length pre + (length p + 8))"
    using assms(1) Cons.prems by (intro recover_loop_frame) auto
  also have "\<dots> = recover_loop crc ((pre @ frame crc p) @ frames crc ps @ rest) (length (pre @ frame crc p))"
    by simp
  also have "\<dots> = recover_loop crc ((pre @ frame crc p) @ frames crc ps @ rest)
      (length ((pre @ frame crc p) @ frames crc ps))"
    using Cons.prems by (intro Cons.IH) auto
  finally show ?case by simp
qed

text \<open>The tail one interrupted append can leave: the first \<open>k\<close> bytes of a frame.\<close>

lemma recover_loop_torn:
  assumes ok: "frame_ok p" and len: "length pre + 2 ^ 33 < 2 ^ 64" and k: "k < length (frame crc p)"
  shows "recover_loop crc (pre @ take k (frame crc p)) (length pre) =
         (if 4 < k \<and> k < 4 + length p then Inl (AmbiguousPartialPayload (length pre))
          else Inr (pre, length pre))"
proof (cases "k < 4")
  case True
  then show ?thesis
    by (subst recover_loop.simps) (auto simp: truncate_torn_tail_def Let_def)
next
  case False
  let ?f = "pre @ take k (frame crc p)"
  have b: "length p < 2 ^ 32" using ok by (simp add: frame_ok_def)
  have "take 4 (take k (frame crc p)) = take 4 (frame crc p @ [])"
    using False by (simp add: min_def)
  then have header: "unat (u32_from_le_bytes (take 4 (drop (length pre) ?f))) = length p"
    using frame_header [OF ok, of crc "[]"] by (simp only: drop_frame_parts)
  have sum: "Option.bind (checked_add_u64 (length pre + 4) (length p)) (\<lambda>v. checked_add_u64 v 4)
      = Some (length pre + (length p + 8))"
    using b len by (simp add: checked_add_u64_def)
  have lf: "length ?f = length pre + k" using k by simp
  show ?thesis
    using False k
    by (subst recover_loop.simps)
       (simp only: Let_def header sum lf, auto simp: truncate_torn_tail_def)
qed

theorem recover_torn_tail:
  assumes "crc_streaming crc" "list_all frame_ok ps" "frame_ok p"
    and "length (frames crc ps) + 2 ^ 33 < 2 ^ 64" and "k < length (frame crc p)"
  shows "recover_last_segment_tail crc (frames crc ps @ take k (frame crc p)) =
         (if 4 < k \<and> k < 4 + length p then Inl (AmbiguousPartialPayload (length (frames crc ps)))
          else Inr (frames crc ps, length (frames crc ps)))"
  using recover_loop_frames [OF assms(1,2), of "[]" "take k (frame crc p)"]
    recover_loop_torn [OF assms(3,4,5)] assms(4)
  by (simp add: recover_last_segment_tail_def)

lemma recover_intact:
  assumes "crc_streaming crc" "list_all frame_ok ps" "length (frames crc ps) + 2 ^ 33 < 2 ^ 64"
  shows "recover_last_segment_tail crc (frames crc ps) = Inr (frames crc ps, length (frames crc ps))"
  using recover_loop_frames [OF assms(1,2), of "[]" "[]"] assms(3)
    recover_loop.simps [of crc "frames crc ps" "length (frames crc ps)"]
  by (simp add: recover_last_segment_tail_def)

section \<open>Streaming\<close>

text \<open>Reading one frame, and leaving a segment at its end.\<close>

lemma stream_next_frame:
  assumes "ws_file s = Some (seg, length pre)" and "frame_ok p"
    and "dir_file d (wal_path seg) = Some (pre @ frame crc p @ rest)"
  shows "stream_next crc d s =
    (Some (Inr p),
     s\<lparr>ws_file := Some (seg, length (pre @ frame crc p)), ws_position := ws_position s + (length p + 8),
       ws_offset := Offset (segment (ws_offset s)) (ws_position s + (length p + 8))\<rparr>)"
proof -
  let ?f = "pre @ frame crc p @ rest"
  have header: "unat (u32_from_le_bytes (take 4 (drop (length pre) ?f))) = length p"
    using frame_header [OF assms(2), of crc rest] by (simp only: drop_frame_parts)
  have body: "take (length p) (drop (length pre + 4) ?f) = p"
    using frame_payload [of p crc rest] by (simp only: drop_frame_parts)
  have tail: "u32_from_le_bytes (take 4 (drop (length pre + 4 + length p) ?f)) = crc_of crc p"
    using frame_checksum [of p crc rest] by (simp only: drop_frame_parts u32_le_bytes_roundtrip)
  have lf: "length ?f = length pre + (length p + 8) + length rest" by simp
  show ?thesis
    by (subst stream_next.simps)
       (simp only: assms(1,3) option.case prod.case Let_def header body tail lf, simp add: algebra_simps)
qed

lemma wal_fold_cong:
  "stream_next crc d s = stream_next crc d s' \<Longrightarrow> wal_fold crc d h step st s = wal_fold crc d h step st s'"
  by (simp add: wal_fold.simps [of crc d h step st s] wal_fold.simps [of crc d h step st s'])

lemma wal_fold_open:
  assumes "ws_file s = None" "ws_idx s < length (ws_segments s)" "open_current d s = (s', Inr u)"
  shows "wal_fold crc d h step st s' = wal_fold crc d h step st s"
proof (rule wal_fold_cong [symmetric])
  show "stream_next crc d s = stream_next crc d s'"
    using assms by (subst stream_next.simps) simp
qed

text \<open>The frames of one open segment, then the rest of the stream.\<close>

lemma wal_fold_segment:
  assumes "ws_file s = Some (seg, length pre)" and "list_all frame_ok ps"
    and "dir_file d (wal_path seg) = Some (pre @ frames crc ps)" and "segment (ws_offset s) = seg"
  shows "\<exists>s'. ws_segments s' = ws_segments s \<and> ws_idx s' = ws_idx s + 1 \<and> ws_file s' = None
      \<and> ws_offset s' = Offset ((seg + 1) mod 2 ^ 64) 0
      \<and> (\<forall>st. wal_fold crc d h step st s =
                rbind (fold_result step st ps) (\<lambda>st'. wal_fold crc d h step st' s'))"
  using assms
proof (induction ps arbitrary: s pre)
  case Nil
  let ?s = "s\<lparr>ws_idx := ws_idx s + 1, ws_file := None, ws_offset := Offset ((seg + 1) mod 2 ^ 64) 0\<rparr>"
  have "stream_next crc d s = stream_next crc d ?s"
    using Nil.prems by (subst stream_next.simps) simp
  then have "wal_fold crc d h step st s = wal_fold crc d h step st ?s" for st
    by (rule wal_fold_cong)
  then show ?case by (intro exI [of _ ?s]) simp
next
  case (Cons p ps)
  let ?s = "s\<lparr>ws_file := Some (seg, length (pre @ frame crc p)),
      ws_position := ws_position s + (length p + 8),
      ws_offset := Offset (segment (ws_offset s)) (ws_position s + (length p + 8))\<rparr>"
  have next_eq: "stream_next crc d s = (Some (Inr p), ?s)"
    using Cons.prems by (intro stream_next_frame [where rest = "frames crc ps"]) auto
  then have unfold: "wal_fold crc d h step st s = rbind (step st p) (\<lambda>st'. wal_fold crc d h step st' ?s)" for st
    by (subst wal_fold.simps) (simp only: prod.case option.case sum.case)
  have "\<exists>s'. ws_segments s' = ws_segments ?s \<and> ws_idx s' = ws_idx ?s + 1 \<and> ws_file s' = None
      \<and> ws_offset s' = Offset ((seg + 1) mod 2 ^ 64) 0
      \<and> (\<forall>st. wal_fold crc d h step st ?s =
                rbind (fold_result step st ps) (\<lambda>st'. wal_fold crc d h step st' s'))"
    using Cons.prems by (intro Cons.IH [where pre = "pre @ frame crc p"]) auto
  then obtain s' where s': "ws_segments s' = ws_segments ?s \<and> ws_idx s' = ws_idx ?s + 1 \<and> ws_file s' = None
      \<and> ws_offset s' = Offset ((seg + 1) mod 2 ^ 64) 0"
    and fold: "\<And>st. wal_fold crc d h step st ?s =
                rbind (fold_result step st ps) (\<lambda>st'. wal_fold crc d h step st' s')"
    by blast
  have "wal_fold crc d h step st s =
      rbind (fold_result step st (p # ps)) (\<lambda>st'. wal_fold crc d h step st' s')" for st
    by (simp only: unfold fold fold_result.simps rbind_assoc)
  with s' show ?case by (intro exI [of _ s']) simp
qed

text \<open>Whole segments, from a stream that is about to open the first of them.\<close>

lemma wal_fold_segments:
  assumes "ws_file s = None" "ws_segments s = prev @ map fst segs" "ws_idx s = length prev"
    and "position (ws_offset s) = 0"
    and "\<forall>(n, ps)\<in>set segs. segment (ws_offset s) \<le> n \<and> n < 2 ^ 64 \<and>
           dir_file d (wal_path n) = Some (frames crc ps) \<and> list_all frame_ok ps"
    and "sorted_wrt (<) (map fst segs)"
  shows "wal_fold crc d h step st s = fold_result step st (concat (map snd segs))"
  using assms
proof (induction segs arbitrary: s prev st)
  case Nil
  then show ?case by (simp add: wal_fold.simps [of crc d h step st s] stream_next.simps [of crc d s])
next
  case (Cons e segs)
  obtain n ps where e: "e = (n, ps)" by (cases e)
  let ?s = "s\<lparr>ws_file := Some (n, 0), ws_position := 0, ws_offset := Offset n 0\<rparr>"
  have f: "dir_file d (wal_path n) = Some (frames crc ps)" and ok: "list_all frame_ok ps"
    and n: "segment (ws_offset s) \<le> n"
    using Cons.prems(5) by (auto simp: e)
  have "bt_get d (wal_path n) \<noteq> None" using f by (auto simp: dir_file_def split: option.splits)
  then have "open_current d s = (?s, Inr ())"
    using Cons.prems(2,3,4) n by (subst open_current.simps) (auto simp: e nth_append)
  then have opened: "wal_fold crc d h step st s = wal_fold crc d h step st ?s"
    using Cons.prems(1,2,3) by (intro wal_fold_open [symmetric]) auto
  obtain s' where s': "ws_segments s' = ws_segments s" "ws_idx s' = ws_idx s + 1" "ws_file s' = None"
      "ws_offset s' = Offset ((n + 1) mod 2 ^ 64) 0"
      and fold: "\<And>st. wal_fold crc d h step st ?s =
                rbind (fold_result step st ps) (\<lambda>st'. wal_fold crc d h step st' s')"
    using wal_fold_segment [of ?s n "[]" ps d crc h step] f ok by auto
  have later: "(n + 1) mod 2 ^ 64 \<le> m" if "(m, qs) \<in> set segs" for m qs
  proof -
    have "n < m" using Cons.prems(6) that by (force simp: e)
    then have "n + 1 \<le> m" by simp
    moreover have "(n + 1) mod 2 ^ 64 \<le> n + 1" by (rule mod_less_eq_dividend)
    ultimately show ?thesis by linarith
  qed
  have "wal_fold crc d h step st' s' = fold_result step st' (concat (map snd segs))" for st'
    using Cons.prems s' later by (intro Cons.IH [where prev = "prev @ [n]"]) (auto simp: e)
  then show ?case using opened fold by (simp add: e fold_result_append)
qed

end
