(* ===== verification/Wal_Store.thy ===== *)
theory Wal_Store
  imports Wal_Log "HOL-Library.Sublist"
begin

text \<open>
  The store as an append-only log.  \<open>dir_rep\<close> relates a data directory to the records of its
  segments and the torn bytes after the last one, \<open>store_rep\<close> adds the writer.  The lemmas show
  that an append extends the log by one record, that a failed append leaves at most a prefix of its
  frame, that reopening recovers the log or fails closed, and that collecting old segments keeps the
  rest.  The contract built from them is in the theory of append logs.
\<close>

section \<open>Directories and their segments\<close>

lemma wal_path_split: "wal_path n = format_08 n @ CHR ''.'' # ''wal''"
  by (simp add: wal_path_def)

lemma wal_path_parts [simp]:
  "file_stem (wal_path n) = format_08 n"
  "file_extension (wal_path n) = Some ''wal''"
  unfolding wal_path_split by (rule file_name_parts; simp)+

lemma wal_path_inject [simp]: "wal_path m = wal_path n \<longleftrightarrow> m = n"
  by (simp add: wal_path_def)

theorem segment_name_roundtrip: "n < 2 ^ 64 \<Longrightarrow> parse_u64 (file_stem (wal_path n)) = Some n"
  by (simp add: parse_u64_format_08)

lemma numbered_files_iff:
  assumes "bt_wf d"
  shows "m \<in> set (numbered_files ext d) \<longleftrightarrow>
    (\<exists>name f. bt_get d name = Some (RegularFile f) \<and> file_extension name = Some ext
              \<and> parse_u64 (file_stem name) = Some m)"
proof -
  have "m \<in> set (numbered_files ext d) \<longleftrightarrow>
    (\<exists>name f. (name, RegularFile f) \<in> set d \<and> file_extension name = Some ext
              \<and> parse_u64 (file_stem name) = Some m)"
    by (force simp: numbered_files_def List.map_filter_def split: dir_entry.splits if_splits)
  also have "\<dots> \<longleftrightarrow> (\<exists>name f. bt_get d name = Some (RegularFile f) \<and> file_extension name = Some ext
              \<and> parse_u64 (file_stem name) = Some m)"
    using bt_get_of_set [OF assms] bt_get_in_set by metis
  finally show ?thesis .
qed

lemma numbered_files_insert:
  assumes "bt_wf d" and "n < 2 ^ 64" and "bt_get d (wal_path n) \<noteq> Some OtherEntry"
  shows "set (numbered_files ''wal'' (bt_insert (wal_path n) (RegularFile f) d))
       = insert n (set (numbered_files ''wal'' d))"
proof (intro set_eqI)
  fix m
  show "m \<in> set (numbered_files ''wal'' (bt_insert (wal_path n) (RegularFile f) d)) \<longleftrightarrow>
      m \<in> insert n (set (numbered_files ''wal'' d))"
    unfolding insert_iff numbered_files_iff [OF assms(1)] numbered_files_iff [OF bt_wf_insert [OF assms(1)]]
  proof
    assume "\<exists>name f'. bt_get (bt_insert (wal_path n) (RegularFile f) d) name = Some (RegularFile f')
        \<and> file_extension name = Some ''wal'' \<and> parse_u64 (file_stem name) = Some m"
    then obtain name f' where name: "bt_get (bt_insert (wal_path n) (RegularFile f) d) name = Some (RegularFile f')"
        "file_extension name = Some ''wal''" "parse_u64 (file_stem name) = Some m" by blast
    show "m = n \<or> (\<exists>name f. bt_get d name = Some (RegularFile f) \<and> file_extension name = Some ''wal''
        \<and> parse_u64 (file_stem name) = Some m)"
    proof (cases "name = wal_path n")
      case True
      then show ?thesis using name(3) segment_name_roundtrip [OF assms(2)] by simp
    next
      case False
      then show ?thesis using name by auto
    qed
  next
    assume "m = n \<or> (\<exists>name f. bt_get d name = Some (RegularFile f) \<and> file_extension name = Some ''wal''
        \<and> parse_u64 (file_stem name) = Some m)"
    then show "\<exists>name f'. bt_get (bt_insert (wal_path n) (RegularFile f) d) name = Some (RegularFile f')
        \<and> file_extension name = Some ''wal'' \<and> parse_u64 (file_stem name) = Some m"
    proof
      assume "m = n"
      then show ?thesis
        using segment_name_roundtrip [OF assms(2)] by (intro exI [of _ "wal_path n"] exI [of _ f]) simp
    next
      assume "\<exists>name f. bt_get d name = Some (RegularFile f) \<and> file_extension name = Some ''wal''
        \<and> parse_u64 (file_stem name) = Some m"
      then obtain name g where g: "bt_get d name = Some (RegularFile g)"
          "file_extension name = Some ''wal''" "parse_u64 (file_stem name) = Some m" by blast
      then show ?thesis
        by (intro exI [of _ name] exI [of _ "if name = wal_path n then f else g"]) simp
    qed
  qed
qed

lemma list_segments_eqI:
  assumes "set (numbered_files ''wal'' d) = set ns" and "ns \<noteq> []" and "sorted_wrt (<) ns"
  shows "list_segments (Some d) = ns"
proof -
  have "numbered_files ''wal'' d \<noteq> []" using assms(1,2) by (metis set_empty)
  then have "list_segments (Some d) = sort_dedup (numbered_files ''wal'' d)"
    by (simp add: list_segments_def)
  moreover have "sort_dedup (numbered_files ''wal'' d) = ns"
    using assms(1,3) strict_sorted_sort_dedup [of "numbered_files ''wal'' d"]
    by (intro strict_sorted_equal) auto
  ultimately show ?thesis by simp
qed

type_synonym segments = "(nat \<times> bytes list) list"

definition log_of :: "segments \<Rightarrow> bytes list" where
  "log_of segs = concat (map snd segs)"

definition segment_ok :: "'h crc_hasher \<Rightarrow> directory \<Rightarrow> nat \<times> bytes list \<Rightarrow> bytes \<Rightarrow> bool" where
  "segment_ok crc d e tail \<longleftrightarrow>
     (case e of (n, ps) \<Rightarrow>
        1 \<le> n \<and> n < 2 ^ 64 \<and> dir_file d (wal_path n) = Some (frames crc ps @ tail)
        \<and> list_all frame_ok ps \<and> length (frames crc ps @ tail) \<le> 2 ^ 63)"

text \<open>Every segment file has the name the writer gives it.\<close>

definition canonical_names :: "directory \<Rightarrow> bool" where
  "canonical_names d \<longleftrightarrow>
     (\<forall>name f m. bt_get d name = Some (RegularFile f) \<and> file_extension name = Some ''wal''
        \<and> parse_u64 (file_stem name) = Some m \<longrightarrow> name = wal_path m)"

lemma canonical_names_insert [simp]:
  assumes "canonical_names d" "n < 2 ^ 64"
  shows "canonical_names (bt_insert (wal_path n) (RegularFile f) d)"
  using assms segment_name_roundtrip [OF assms(2)] by (auto simp: canonical_names_def split: if_splits)

definition dir_rep :: "'h crc_hasher \<Rightarrow> directory \<Rightarrow> segments \<Rightarrow> bytes \<Rightarrow> bool" where
  "dir_rep crc d segs tail \<longleftrightarrow>
     bt_wf d \<and> canonical_names d \<and> segs \<noteq> [] \<and> sorted_wrt (<) (map fst segs)
     \<and> set (numbered_files ''wal'' d) = fst ` set segs
     \<and> (\<forall>n. bt_get d (wal_path n) \<noteq> Some OtherEntry)
     \<and> (\<forall>e\<in>set (butlast segs). segment_ok crc d e []) \<and> segment_ok crc d (last segs) tail"

lemma log_of_simps [simp]:
  "log_of [] = []"
  "log_of ((n, ps) # segs) = ps @ log_of segs"
  "log_of (segs @ segs') = log_of segs @ log_of segs'"
  by (simp_all add: log_of_def)

lemma dir_rep_segments:
  assumes "dir_rep crc d segs tail"
  shows "list_segments (Some d) = map fst segs"
  using assms by (intro list_segments_eqI) (auto simp: dir_rep_def)

lemma dir_rep_all_ok: "dir_rep crc d segs [] \<Longrightarrow> e \<in> set segs \<Longrightarrow> segment_ok crc d e []"
  by (metis dir_rep_def append_butlast_last_id in_set_conv_decomp last_in_set not_Cons_self2
      rotate1.simps(2) set_ConsD set_rotate1)

section \<open>Streaming from a represented directory\<close>

lemma find_index_split:
  "(\<forall>x\<in>set xs. \<not> P x) \<Longrightarrow> P y \<Longrightarrow> find_index P (xs @ y # ys) = Some (length xs)"
  by (induction xs) auto

lemma stream_start:
  assumes "dir_rep crc d segs []"
  shows "\<exists>s. stream_new d offset_start = Inr s
    \<and> (\<forall>h step st. wal_fold crc d h step st s = fold_result step st (log_of segs))"
proof -
  obtain n ps segs' where segs: "segs = (n, ps) # segs'"
    using assms by (cases segs) (auto simp: dir_rep_def)
  have ok: "segment_ok crc d e []" if "e \<in> set segs" for e
    using dir_rep_all_ok [OF assms that] .
  define s0 where "s0 = \<lparr>ws_segments = map fst segs, ws_idx = 0, ws_file = None, ws_position = 0,
      ws_offset = offset_start\<rparr>"
  define s where "s = s0\<lparr>ws_file := Some (n, 0), ws_position := 0, ws_offset := Offset n 0\<rparr>"
  have first: "1 \<le> n" "bt_get d (wal_path n) \<noteq> None"
    using ok [of "(n, ps)"] segs by (auto simp: segment_ok_def dir_file_def split: option.splits)
  have opened: "open_current d s0 = (s, Inr ())"
    using first by (subst open_current.simps) (auto simp: s_def s0_def segs offset_start_def)
  have idx: "find_index (\<lambda>seg. seg \<ge> segment offset_start) (map fst segs) = Some 0"
    using first by (simp add: segs offset_start_def)
  have "stream_new d offset_start = Inr s"
    using opened unfolding stream_new_def Let_def dir_rep_segments [OF assms] idx
    by (simp add: s0_def offset_start_def)
  moreover have "wal_fold crc d h step st s = fold_result step st (log_of segs)" for h step st
  proof -
    have "wal_fold crc d h step st s = wal_fold crc d h step st s0"
      using opened by (intro wal_fold_open) (auto simp: s0_def segs)
    also have "\<dots> = fold_result step st (concat (map snd segs))"
    proof (rule wal_fold_segments [where prev = "[]"])
      show "\<forall>(n, ps)\<in>set segs. segment (ws_offset s0) \<le> n \<and> n < 2 ^ 64 \<and>
           dir_file d (wal_path n) = Some (frames crc ps) \<and> list_all frame_ok ps"
        using ok by (auto simp: s0_def segment_ok_def offset_start_def)
    qed (use assms in \<open>auto simp: dir_rep_def s0_def offset_start_def\<close>)
    finally show ?thesis by (simp add: log_of_def)
  qed
  ultimately show ?thesis by blast
qed

lemma stream_offset:
  assumes rep: "dir_rep crc d segs []" and segs: "segs = bef @ (g, qs @ ps) # aft"
  shows "\<exists>s. stream_new d (Offset g (length (frames crc qs))) = Inr s
    \<and> (\<forall>h step st. wal_fold crc d h step st s = fold_result step st (ps @ log_of aft))"
proof -
  have ok: "segment_ok crc d e []" if "e \<in> set segs" for e
    using dir_rep_all_ok [OF rep that] .
  have sorted: "sorted_wrt (<) (map fst segs)" using rep by (simp add: dir_rep_def)
  let ?off = "Offset g (length (frames crc qs))"
  let ?ini = "\<lparr>ws_segments = map fst segs, ws_idx = length bef, ws_file = None,
      ws_position = length (frames crc qs), ws_offset = ?off\<rparr>"
  let ?s = "?ini\<lparr>ws_file := Some (g, length (frames crc qs)), ws_offset := Offset g 0\<rparr>"
  have g: "bt_get d (wal_path g) \<noteq> None" "dir_file d (wal_path g) = Some (frames crc qs @ frames crc ps)"
    "list_all frame_ok ps"
    using ok [of "(g, qs @ ps)"] segs by (auto simp: segment_ok_def dir_file_def split: option.splits)
  have opened: "open_current d ?ini = (?s, Inr ())"
    using g(1) by (subst open_current.simps) (auto simp: Let_def segs nth_append)
  have idx: "find_index (\<lambda>seg. seg \<ge> g) (map fst segs) = Some (length bef)"
    using sorted find_index_split [of "map fst bef" "\<lambda>seg. seg \<ge> g" g "map fst aft"]
    by (fastforce simp: segs sorted_wrt_append)
  have "stream_new d ?off = Inr ?s"
    using opened unfolding stream_new_def Let_def dir_rep_segments [OF rep]
    by (simp add: idx)
  moreover have "wal_fold crc d h step st ?s = fold_result step st (ps @ log_of aft)" for h step st
  proof -
    obtain s' where s': "ws_segments s' = map fst segs" "ws_idx s' = length bef + 1" "ws_file s' = None"
        "ws_offset s' = Offset ((g + 1) mod 2 ^ 64) 0"
      and fold: "\<And>st. wal_fold crc d h step st ?s =
                  rbind (fold_result step st ps) (\<lambda>st'. wal_fold crc d h step st' s')"
      using wal_fold_segment [of ?s g "frames crc qs" ps d crc h step] g(2,3) by auto
    have later: "(g + 1) mod 2 ^ 64 \<le> m" if "(m, rs) \<in> set aft" for m rs
    proof -
      have "g < m" using sorted that by (force simp: segs sorted_wrt_append)
      moreover have "(g + 1) mod 2 ^ 64 \<le> g + 1" by (rule mod_less_eq_dividend)
      ultimately show ?thesis by linarith
    qed
    have "wal_fold crc d h step st' s' = fold_result step st' (concat (map snd aft))" for st'
    proof (rule wal_fold_segments [where prev = "map fst bef @ [g]"])
      show "\<forall>(n, ps)\<in>set aft. segment (ws_offset s') \<le> n \<and> n < 2 ^ 64 \<and>
           dir_file d (wal_path n) = Some (frames crc ps) \<and> list_all frame_ok ps"
        using ok later s'(4) by (fastforce simp: segs segment_ok_def)
      show "sorted_wrt (<) (map fst aft)" using sorted by (simp add: segs sorted_wrt_append)
    qed (use s' in \<open>auto simp: segs\<close>)
    then show ?thesis unfolding fold fold_result_append by (simp add: log_of_def)
  qed
  ultimately show ?thesis by blast
qed

section \<open>Writing a frame\<close>

lemma write_at_end: "write_at (length f) bs f = f @ bs"
  by (simp add: write_at_def)

text \<open>Writing at the end of the segment: whatever the call transfers is appended.\<close>

lemma write_all_end:
  assumes "dir_file d (wal_path (ww_segment w)) = Some f" and "ww_cursor w = length f"
  shows "write_all io call bs (d, w) =
    (let t = (case io call of None \<Rightarrow> bs | Some n \<Rightarrow> take n bs)
     in ((bt_insert (wal_path (ww_segment w)) (RegularFile (f @ t)) d, w\<lparr>ww_cursor := length (f @ t)\<rparr>),
         require (io call = None) (IoError call)))"
  using assms by (simp add: write_all_def Let_def write_at_end)

lemma dir_file_insert [simp]:
  "dir_file (bt_insert name (RegularFile f) d) name' = (if name' = name then Some f else dir_file d name')"
  by (simp add: dir_file_def)

text \<open>The state of a writer in the middle of a frame, and what one call of \<open>write_all\<close> does to it.\<close>

definition frame_state :: "directory \<Rightarrow> wal_writer \<Rightarrow> bytes \<Rightarrow> bytes \<Rightarrow> directory \<times> wal_writer" where
  "frame_state d w f t =
     (bt_insert (wal_path (ww_segment w)) (RegularFile (f @ t)) d, w\<lparr>ww_cursor := length (f @ t)\<rparr>)"

lemma write_all_frame_state:
  assumes "bt_wf d"
  shows "write_all io call bs (frame_state d w f t) =
    (frame_state d w f (t @ (case io call of None \<Rightarrow> bs | Some n \<Rightarrow> take n bs)),
     require (io call = None) (IoError call))"
  using assms
  by (simp add: frame_state_def write_all_end Let_def bt.put_put split: option.splits)

lemma write_all_frame_start:
  assumes "dir_file d (wal_path (ww_segment w)) = Some f" and "ww_cursor w = length f"
  shows "write_all io call bs (d, w) =
    (frame_state d w f (case io call of None \<Rightarrow> bs | Some n \<Rightarrow> take n bs),
     require (io call = None) (IoError call))"
  using assms by (simp add: frame_state_def write_all_end Let_def)

lemma prefix_frame:
  "prefix (take n (u32_to_le_bytes (word_of_nat (length p)))) (frame crc p)"
  "prefix (u32_to_le_bytes (word_of_nat (length p))) (frame crc p)"
  "prefix (u32_to_le_bytes (word_of_nat (length p)) @ take n p) (frame crc p)"
  "prefix (u32_to_le_bytes (word_of_nat (length p)) @ p) (frame crc p)"
  "prefix (u32_to_le_bytes (word_of_nat (length p)) @ p @ take n (u32_to_le_bytes (crc_of crc p))) (frame crc p)"
  by (simp_all add: frame_def take_is_prefix prefix_def) (metis append_take_drop_id append.assoc)+

lemma write_frame_outcome:
  assumes wf: "bt_wf d" and f: "dir_file d (wal_path (ww_segment w)) = Some f" "ww_cursor w = length f"
  shows "\<exists>t r. prefix t (frame crc p) \<and>
     (write_frame crc io fp p (d, w) = (frame_state d w f t, Inl r) \<or>
      t = frame crc p \<and> write_frame crc io fp p (d, w) =
        ((fst (frame_state d w f t), (snd (frame_state d w f t))\<lparr>ww_size := ww_size w + (length p + 8)\<rparr>),
         Inr (Offset (ww_segment w) (ww_size w))))"
proof -
  note step = write_frame_def Let_def write_all_frame_start [OF f] write_all_frame_state [OF wf]
    io_step_def check_def require_def
  show ?thesis
  proof (cases "io WriteLength")
    case (Some n)
    then show ?thesis using prefix_frame(1) [of n] by (auto simp: step)
  next
    case L: None
    show ?thesis
    proof (cases "fp = AfterLengthWrite")
      case True
      then show ?thesis using L prefix_frame(2) by (auto simp: step)
    next
      case FL: False
      show ?thesis
      proof (cases "io WritePayload")
        case (Some n)
        then show ?thesis using L FL prefix_frame(3) [of _ n] by (auto simp: step)
      next
        case P: None
        show ?thesis
        proof (cases "fp = AfterPayloadWrite")
          case True
          then show ?thesis using L P prefix_frame(4) by (auto simp: step)
        next
          case FP: False
          show ?thesis
          proof (cases "io WriteChecksum")
            case (Some n)
            then show ?thesis using L FL P FP prefix_frame(5) [of _ n] by (auto simp: step)
          next
            case None
            then have "write_frame crc io fp p (d, w) =
                (if io FlushSegment = None
                 then ((fst (frame_state d w f (frame crc p)),
                        (snd (frame_state d w f (frame crc p)))\<lparr>ww_size := ww_size w + (length p + 8)\<rparr>),
                       Inr (Offset (ww_segment w) (ww_size w)))
                 else (frame_state d w f (frame crc p), Inl (IoError FlushSegment)))"
              using L FL P FP by (simp add: step) (simp add: frame_state_def frame_def add.commute)
            then show ?thesis by (cases "io FlushSegment = None") (auto split del: if_split)
          qed
        qed
      qed
    qed
  qed
qed

section \<open>Appending\<close>

lemma dir_rep_last:
  assumes "dir_rep crc d segs tail"
  obtains bef g ps where "segs = bef @ [(g, ps)]"
  using assms by (metis dir_rep_def append_butlast_last_id surj_pair)

text \<open>Replacing the contents of the last segment, and creating its successor.\<close>

lemma dir_rep_write:
  assumes rep: "dir_rep crc d (bef @ [(g, ps)]) tail0"
    and new: "list_all frame_ok qs" "length (frames crc qs @ tail) \<le> 2 ^ 63"
  shows "dir_rep crc (bt_insert (wal_path g) (RegularFile (frames crc qs @ tail)) d) (bef @ [(g, qs)]) tail"
proof -
  have g: "1 \<le> g" "g < 2 ^ 64" using rep by (auto simp: dir_rep_def segment_ok_def)
  have wf: "bt_wf d" and other: "bt_get d (wal_path n) \<noteq> Some OtherEntry" for n
    using rep by (auto simp: dir_rep_def)
  have neq: "n \<noteq> g" if "(n, rs) \<in> set bef" for n rs
    using rep that by (force simp: dir_rep_def sorted_wrt_append)
  have "\<forall>e\<in>set bef. segment_ok crc (bt_insert (wal_path g) (RegularFile (frames crc qs @ tail)) d) e []"
    using rep neq by (fastforce simp: dir_rep_def segment_ok_def)
  then show ?thesis
    using rep new g numbered_files_insert [OF wf g(2) other]
    by (auto simp: dir_rep_def segment_ok_def)
qed

lemma dir_rep_create:
  assumes rep: "dir_rep crc d segs []" and g: "g = fst (last segs)" "g + 1 < 2 ^ 64"
  shows "dir_rep crc (bt_insert (wal_path (g + 1)) (RegularFile []) d) (segs @ [(g + 1, [])]) []"
proof -
  obtain bef ps where segs: "segs = bef @ [(g, ps)]"
    using rep g(1) by (metis dir_rep_last fst_conv last_snoc)
  have wf: "bt_wf d" and other: "bt_get d (wal_path n) \<noteq> Some OtherEntry" for n
    using rep by (auto simp: dir_rep_def)
  have less: "n \<le> g" if "(n, rs) \<in> set segs" for n rs
    using rep that by (force simp: dir_rep_def segs sorted_wrt_append)
  have "\<forall>e\<in>set segs. segment_ok crc (bt_insert (wal_path (g + 1)) (RegularFile []) d) e []"
    using dir_rep_all_ok [OF rep] less by (fastforce simp: segment_ok_def)
  moreover have "sorted_wrt (<) (map fst (segs @ [(g + 1, [])]))"
    using rep less by (fastforce simp: dir_rep_def sorted_wrt_append)
  ultimately show ?thesis
    using rep g(2) numbered_files_insert [OF wf g(2) other]
    by (auto simp: dir_rep_def segment_ok_def)
qed

lemma writer_rotate_outcome:
  assumes rep: "dir_rep crc d segs []" and g: "g = ww_segment w" "g = fst (last segs)" "g + 1 < 2 ^ 64"
  shows "(\<exists>e. writer_rotate io (d, w) = ((d, w), Inl e)) \<or>
    (\<exists>e. writer_rotate io (d, w) = ((bt_insert (wal_path (g + 1)) (RegularFile []) d, w), Inl e)) \<or>
    writer_rotate io (d, w) = ((bt_insert (wal_path (g + 1)) (RegularFile []) d,
      w\<lparr>ww_segment := g + 1, ww_size := 0, ww_cursor := 0\<rparr>), Inr ())"
proof -
  have "(g + 1) mod 2 ^ 64 = g + 1" using g(3) by simp
  moreover have "bt_get d (wal_path (g + 1)) \<noteq> Some OtherEntry" using rep by (simp add: dir_rep_def)
  ultimately show ?thesis
    unfolding writer_rotate_def io_step_def check_def
    by (simp add: g(1) [symmetric] require_def Let_def)
qed

text \<open>One append seen from the directory: a success adds the record at the returned offset, a failure
  leaves a prefix of the record's frame after the records that were there.\<close>

definition segs_le :: "segments \<Rightarrow> segments \<Rightarrow> bool" where
  "segs_le segs segs' \<longleftrightarrow> (\<exists>bef g qs ps aft. segs = bef @ [(g, qs)] \<and> segs' = bef @ (g, qs @ ps) # aft)"

lemma segs_le_refl: "segs \<noteq> [] \<Longrightarrow> segs_le segs segs"
  by (cases segs rule: rev_cases) (auto simp: segs_le_def intro!: exI [of _ "[]"])

lemma segs_le_snoc: "segs_le (bef @ [(g, qs)]) (bef @ [(g, qs @ ps)])"
  by (auto simp: segs_le_def)

lemma segs_le_new: "segs \<noteq> [] \<Longrightarrow> segs_le segs (segs @ aft)"
  by (cases segs rule: rev_cases) (auto simp: segs_le_def intro!: exI [of _ "[]"])

lemma segs_le_trans:
  assumes "segs_le a b" "segs_le b c"
  shows "segs_le a c"
proof -
  obtain bef g qs ps aft where a: "a = bef @ [(g, qs)]" and b: "b = bef @ (g, qs @ ps) # aft"
    using assms(1) by (auto simp: segs_le_def)
  obtain bef' g' qs' ps' aft' where b': "b = bef' @ [(g', qs')]" and c: "c = bef' @ (g', qs' @ ps') # aft'"
    using assms(2) by (auto simp: segs_le_def)
  show ?thesis
  proof (cases aft rule: rev_cases)
    case Nil
    then have "bef' = bef" "g' = g" "qs' = qs @ ps" using b b' by auto
    then show ?thesis unfolding segs_le_def a c by auto
  next
    case (snoc aft0 e)
    then have "bef' = bef @ (g, qs @ ps) # aft0" using b b' by auto
    then show ?thesis unfolding segs_le_def a c by auto
  qed
qed

definition appended :: "'h crc_hasher \<Rightarrow> segments \<Rightarrow> bytes \<Rightarrow> segments \<Rightarrow> offset \<Rightarrow> bool" where
  "appended crc segs b segs' off \<longleftrightarrow>
     (\<exists>bef g qs. segs' = bef @ [(g, qs @ [b])] \<and> off = Offset g (length (frames crc qs))
        \<and> log_of (bef @ [(g, qs)]) = log_of segs \<and> segs_le segs (bef @ [(g, qs)]))"

lemma appended_here:
  "appended crc (bef @ [(g, ps)]) b (bef @ [(g, ps @ [b])]) (Offset g (length (frames crc ps)))"
  unfolding appended_def using segs_le_refl [of "bef @ [(g, ps)]"] by blast

lemma appended_le: "appended crc segs b segs' off \<Longrightarrow> segs_le segs segs'"
  using segs_le_trans segs_le_snoc by (fastforce simp: appended_def)

lemma appended_log: "appended crc segs b segs' off \<Longrightarrow> log_of segs' = log_of segs @ [b]"
  by (fastforce simp: appended_def)

definition writer_at :: "'h crc_hasher \<Rightarrow> wal_writer \<Rightarrow> segments \<Rightarrow> bool" where
  "writer_at crc w segs \<longleftrightarrow>
     ww_segment w = fst (last segs) \<and> ww_size w = length (frames crc (snd (last segs)))
     \<and> ww_cursor w = ww_size w \<and> 0 < ww_rotation w \<and> ww_rotation w \<le> 2 ^ 63"

lemma write_frame_rep:
  assumes rep: "dir_rep crc d segs []" and w: "writer_at crc w segs" and b: "frame_ok b"
    and room: "ww_size w + (length b + 8) \<le> 2 ^ 63"
    and run: "write_frame crc io fp b (d, w) = ((d', w'), r)"
  shows "case r of
      Inr off \<Rightarrow> \<exists>segs'. dir_rep crc d' segs' [] \<and> writer_at crc w' segs' \<and> appended crc segs b segs' off
          \<and> fst (last segs') = fst (last segs)
    | Inl e \<Rightarrow> \<exists>t. dir_rep crc d' segs t \<and> prefix t (frame crc b)"
proof -
  obtain bef g ps where segs: "segs = bef @ [(g, ps)]" using rep by (rule dir_rep_last)
  have ps: "list_all frame_ok ps" and f: "dir_file d (wal_path (ww_segment w)) = Some (frames crc ps)"
    using rep w by (auto simp: dir_rep_def segment_ok_def segs writer_at_def)
  have wf: "bt_wf d" using rep by (simp add: dir_rep_def)
  obtain t e where t: "prefix t (frame crc b)" and
    cases: "write_frame crc io fp b (d, w) = (frame_state d w (frames crc ps) t, Inl e) \<or>
      t = frame crc b \<and> write_frame crc io fp b (d, w) =
        ((fst (frame_state d w (frames crc ps) t),
          (snd (frame_state d w (frames crc ps) t))\<lparr>ww_size := ww_size w + (length b + 8)\<rparr>),
         Inr (Offset (ww_segment w) (ww_size w)))"
    using write_frame_outcome [OF wf f, of crc b io fp] w by (auto simp: writer_at_def segs)
  have len: "length t \<le> length b + 8" using prefix_length_le [OF t] by simp
  have wsize: "ww_size w = length (frames crc ps)" "ww_segment w = g" "ww_cursor w = ww_size w"
    using w by (auto simp: writer_at_def segs)
  from cases show ?thesis
  proof
    assume "write_frame crc io fp b (d, w) = (frame_state d w (frames crc ps) t, Inl e)"
    then have r: "r = Inl e" and d': "d' = bt_insert (wal_path g) (RegularFile (frames crc ps @ t)) d"
      using run by (auto simp: frame_state_def wsize)
    have "dir_rep crc d' segs t"
      using dir_rep_write [OF rep [unfolded segs], of ps t] ps len room by (simp add: d' segs wsize)
    then show ?thesis using t r by auto
  next
    assume *: "t = frame crc b \<and> write_frame crc io fp b (d, w) =
        ((fst (frame_state d w (frames crc ps) t),
          (snd (frame_state d w (frames crc ps) t))\<lparr>ww_size := ww_size w + (length b + 8)\<rparr>),
         Inr (Offset (ww_segment w) (ww_size w)))"
    then have r: "r = Inr (Offset g (length (frames crc ps)))"
      and d': "d' = bt_insert (wal_path g) (RegularFile (frames crc (ps @ [b]) @ [])) d"
      and w': "w' = w\<lparr>ww_cursor := length (frames crc (ps @ [b])), ww_size := length (frames crc (ps @ [b]))\<rparr>"
      using run by (auto simp: frame_state_def wsize)
    have "dir_rep crc d' (bef @ [(g, ps @ [b])]) []"
      unfolding d' by (rule dir_rep_write [OF rep [unfolded segs]]) (use ps b room in \<open>auto simp: wsize\<close>)
    moreover have "writer_at crc w' (bef @ [(g, ps @ [b])])"
      using w by (simp add: writer_at_def w' segs)
    ultimately show ?thesis
      using appended_here [of crc bef g ps b] by (auto simp: r segs)
  qed
qed

lemma writer_append_rep:
  assumes rep: "dir_rep crc d segs []" and w: "writer_at crc w segs" and b: "frame_ok b"
    and next_seg: "fst (last segs) + 1 < 2 ^ 64"
    and run: "writer_append crc io fp b (d, w) = ((d', w'), r)"
  shows "case r of
      Inr off \<Rightarrow> \<exists>segs'. dir_rep crc d' segs' [] \<and> writer_at crc w' segs' \<and> appended crc segs b segs' off
          \<and> fst (last segs') \<le> fst (last segs) + 1
    | Inl e \<Rightarrow> \<exists>segs' t. dir_rep crc d' segs' t \<and> log_of segs' = log_of segs \<and> prefix t (frame crc b)
          \<and> fst (last segs') \<le> fst (last segs) + 1 \<and> segs_le segs segs'"
proof (cases "ww_size w + (length b + 8) > ww_rotation w")
  case False
  have ne: "segs \<noteq> []" using rep by (simp add: dir_rep_def)
  from False have "write_frame crc io fp b (d, w) = ((d', w'), r)"
    using run by (simp add: writer_append_def)
  moreover have "ww_size w + (length b + 8) \<le> 2 ^ 63" using False w by (auto simp: writer_at_def)
  ultimately have W: "case r of
      Inr off \<Rightarrow> \<exists>segs'. dir_rep crc d' segs' [] \<and> writer_at crc w' segs' \<and> appended crc segs b segs' off
          \<and> fst (last segs') = fst (last segs)
    | Inl e \<Rightarrow> \<exists>t. dir_rep crc d' segs t \<and> prefix t (frame crc b)"
    by (rule write_frame_rep [OF rep w b, rotated])
  show ?thesis
  proof (cases r)
    case (Inl e)
    then show ?thesis using W ne by (auto intro!: exI [of _ segs] segs_le_refl)
  next
    case (Inr off)
    then show ?thesis using W by (auto intro!: le_SucI)
  qed
next
  case True
  have ne: "segs \<noteq> []" using rep by (simp add: dir_rep_def)
  define g where "g = fst (last segs)"
  let ?d = "bt_insert (wal_path (g + 1)) (RegularFile []) d"
  let ?w = "w\<lparr>ww_segment := g + 1, ww_size := 0, ww_cursor := 0\<rparr>"
  let ?segs = "segs @ [(g + 1, [])]"
  have g: "g = ww_segment w" using w by (simp add: g_def writer_at_def)
  have rep': "dir_rep crc ?d ?segs []"
    using dir_rep_create [OF rep, of g] next_seg by (simp add: g_def)
  have w': "writer_at crc ?w ?segs" using w by (simp add: writer_at_def)
  have run': "sbind (writer_rotate io (d, w)) (\<lambda>s _. write_frame crc io fp b s) = ((d', w'), r)"
    using run True by (simp add: writer_append_def)
  consider (early) e where "writer_rotate io (d, w) = ((d, w), Inl e)"
    | (late) e where "writer_rotate io (d, w) = ((?d, w), Inl e)"
    | (rotated) "writer_rotate io (d, w) = ((?d, ?w), Inr ())"
    using writer_rotate_outcome [OF rep g g_def, of io] next_seg by (auto simp: g_def)
  then show ?thesis
  proof cases
    case early
    then have "r = Inl e" "d' = d" using run' by auto
    then show ?thesis using rep by (simp, metis Nil_prefix le_SucI order_refl segs_le_refl ne)
  next
    case late
    then have "r = Inl e" "d' = ?d" using run' by auto
    moreover have "log_of ?segs = log_of segs" "fst (last ?segs) \<le> fst (last segs) + 1" "segs_le segs ?segs"
      using segs_le_new [OF ne] by (simp_all add: g_def)
    ultimately show ?thesis using rep' by (simp only: sum.case, metis Nil_prefix)
  next
    case rotated
    then have "write_frame crc io fp b (?d, ?w) = ((d', w'), r)" using run' by simp
    moreover have "ww_size ?w + (length b + 8) \<le> 2 ^ 63" using b by (simp add: frame_ok_def)
    ultimately have W: "case r of
        Inr off \<Rightarrow> \<exists>segs'. dir_rep crc d' segs' [] \<and> writer_at crc w' segs' \<and> appended crc ?segs b segs' off
            \<and> fst (last segs') = fst (last ?segs)
      | Inl e \<Rightarrow> \<exists>t. dir_rep crc d' ?segs t \<and> prefix t (frame crc b)"
      by (rule write_frame_rep [OF rep' w' b, rotated])
    have log: "log_of ?segs = log_of segs" "fst (last ?segs) \<le> fst (last segs) + 1" "segs_le segs ?segs"
      using segs_le_new [OF ne] by (simp_all add: g_def)
    show ?thesis
    proof (cases r)
      case (Inl e)
      then show ?thesis using W log by (simp only: sum.case, blast)
    next
      case (Inr off)
      then show ?thesis using W log segs_le_trans [OF log(3)] by (auto simp: appended_def g_def)
    qed
  qed
qed

text \<open>The store: its directory without a torn tail, the writer at the end of the last segment.\<close>

definition store_rep :: "'h crc_hasher \<Rightarrow> store \<Rightarrow> segments \<Rightarrow> bool" where
  "store_rep crc s segs \<longleftrightarrow>
     crc_streaming crc \<and> dir_rep crc (d_data (st_disk s)) segs [] \<and> writer_at crc (st_writer s) segs"

text \<open>What an append, failing or not, leaves on disk.\<close>

definition disk_after :: "'h crc_hasher \<Rightarrow> segments \<Rightarrow> bytes \<Rightarrow> disk \<Rightarrow> bool" where
  "disk_after crc segs b dk \<longleftrightarrow>
     (\<exists>segs' t. dir_rep crc (d_data dk) segs' t \<and> log_of segs' = log_of segs \<and> prefix t (frame crc b)
        \<and> fst (last segs') \<le> fst (last segs) + 1 \<and> segs_le segs segs')"

lemma disk_after_unchanged:
  assumes "dir_rep crc (d_data dk) segs []"
  shows "disk_after crc segs b dk"
proof -
  have "segs_le segs segs" using assms by (simp add: dir_rep_def segs_le_refl)
  then have "dir_rep crc (d_data dk) segs [] \<and> log_of segs = log_of segs \<and> prefix [] (frame crc b)
      \<and> fst (last segs) \<le> fst (last segs) + 1 \<and> segs_le segs segs"
    using assms by simp
  then show ?thesis unfolding disk_after_def by blast
qed

lemma dir_rep_snoc_tail:
  assumes "dir_rep crc d (bef @ [(g, qs @ [b])]) []"
  shows "dir_rep crc d (bef @ [(g, qs)]) (frame crc b)"
  using assms by (auto simp: dir_rep_def segment_ok_def)

theorem store_append_rep:
  assumes rep: "store_rep crc s segs" and b: "frame_ok b" and next_seg: "fst (last segs) + 1 < 2 ^ 64"
    and run: "store_append crc io fp b s = (s', r)"
  shows "case r of
      Inr off \<Rightarrow> \<exists>segs'. store_rep crc s' segs' \<and> appended crc segs b segs' off
          \<and> fst (last segs') \<le> fst (last segs) + 1
    | Inl e \<Rightarrow> disk_after crc segs b (st_disk s')"
proof -
  have rep': "dir_rep crc (d_data (st_disk s)) segs []" "writer_at crc (st_writer s) segs"
    using rep by (auto simp: store_rep_def)
  obtain d' w' q where wa: "writer_append crc io fp b (d_data (st_disk s), st_writer s) = ((d', w'), q)"
    by (metis surj_pair)
  note W = writer_append_rep [OF rep' b next_seg wa]
  show ?thesis
  proof (cases "fp = BeforeWrite")
    case True
    then have "s' = s" "\<exists>e. r = Inl e" using run by (auto simp: store_append_def)
    then show ?thesis using rep'(1) by (auto intro: disk_after_unchanged)
  next
    case False
    let ?s = "s\<lparr>st_disk := (st_disk s)\<lparr>d_data := d'\<rparr>, st_writer := w'\<rparr>"
    have s': "s' = ?s" and r: "\<And>off. r = Inr off \<Longrightarrow> q = Inr off"
      using run wa False
      by (cases q; auto simp: store_append_def Let_def io_step_def check_def require_def split: if_splits)+
    show ?thesis
    proof (cases q)
      case (Inl e)
      then show ?thesis using W r s' by (cases r) (auto simp: disk_after_def)
    next
      case (Inr off)
      then obtain segs' where segs': "dir_rep crc d' segs' []" "writer_at crc w' segs'"
          "appended crc segs b segs' off" "fst (last segs') \<le> fst (last segs) + 1" using W by auto
      obtain bef g qs where split: "segs' = bef @ [(g, qs @ [b])]" "log_of (bef @ [(g, qs)]) = log_of segs"
          "segs_le segs (bef @ [(g, qs)])"
        using segs'(3) by (auto simp: appended_def)
      have "disk_after crc segs b (st_disk s')"
        using dir_rep_snoc_tail [of crc d' bef g qs b] segs'(1,4) split
        by (auto simp: s' disk_after_def intro!: exI [of _ "bef @ [(g, qs)]"] exI [of _ "frame crc b"])
      then show ?thesis
        using rep segs' r s' Inr by (cases r) (auto simp: store_rep_def)
    qed
  qed
qed

text \<open>Without injected failures and failing system calls an append succeeds.\<close>

lemma write_all_None: "io call = None \<Longrightarrow> \<exists>s'. write_all io call bs s = (s', Inr ())"
  by (cases s) (simp add: write_all_def Let_def)

lemma sbind_runs:
  "\<exists>s'. m = (s', Inr ()) \<Longrightarrow> (\<And>s'. \<exists>t a. f s' () = (t, Inr a)) \<Longrightarrow> \<exists>t a. sbind m f = (t, Inr a)"
  by auto

lemma write_frame_succeeds:
  assumes "\<forall>call. io call = None" "fp \<notin> {AfterLengthWrite, AfterPayloadWrite}"
  shows "\<exists>s' off. write_frame crc io fp b s = (s', Inr off)"
  unfolding write_frame_def Let_def io_step_def
  by (rule sbind_runs write_all_None | simp add: assms(1) split: prod.splits | use assms(2) in simp)+

lemma store_append_succeeds:
  assumes rep: "store_rep crc s segs" and ok: "\<forall>call. io call = None"
  shows "\<exists>s' off. store_append crc io Disabled b s = (s', Inr off)"
proof -
  have "bt_get (d_data (st_disk s)) (wal_path n) \<noteq> Some OtherEntry" for n
    using rep by (simp add: store_rep_def dir_rep_def)
  then have "\<exists>s'. writer_rotate io (d_data (st_disk s), w) = (s', Inr ())" for w
    using ok by (simp add: writer_rotate_def io_step_def Let_def)
  then have "\<exists>s' off. writer_append crc io Disabled b (d_data (st_disk s), st_writer s) = (s', Inr off)"
    unfolding writer_append_def Let_def
    by (intro sbind_runs write_frame_succeeds [OF ok]) simp_all
  then show ?thesis using ok by (auto simp: store_append_def io_step_def Let_def)
qed

section \<open>Reopening\<close>

definition recovered :: "'h crc_hasher \<Rightarrow> segments \<Rightarrow> bytes \<Rightarrow> bytes \<Rightarrow> segments" where
  "recovered crc segs b t =
     (if t = frame crc b then butlast segs @ [(fst (last segs), snd (last segs) @ [b])] else segs)"

lemma log_of_recovered:
  "segs \<noteq> [] \<Longrightarrow> log_of (recovered crc segs b t) = log_of segs @ (if t = frame crc b then [b] else [])"
  by (cases segs rule: rev_cases) (auto simp: recovered_def)

lemma segs_le_recovered: "segs \<noteq> [] \<Longrightarrow> segs_le segs (recovered crc segs b t)"
  using segs_le_snoc by (cases segs rule: rev_cases) (auto simp: recovered_def segs_le_refl)

lemma writer_open_rep:
  assumes rep: "dir_rep crc d segs t" and t: "prefix t (frame crc b)" and b: "frame_ok b"
    and crc: "crc_streaming crc" and rot: "0 < rotation" "rotation \<le> 2 ^ 63"
  shows "if 4 < length t \<and> length t < 4 + length b
    then writer_open crc d rotation =
           (d, Inl (AmbiguousPartialPayload (length (frames crc (snd (last segs))))))
    else \<exists>d' w. writer_open crc d rotation = (d', Inr w)
           \<and> dir_rep crc d' (recovered crc segs b t) [] \<and> writer_at crc w (recovered crc segs b t)"
proof -
  obtain bef g ps where segs: "segs = bef @ [(g, ps)]" using rep by (rule dir_rep_last)
  have ps: "list_all frame_ok ps" "length (frames crc ps @ t) \<le> 2 ^ 63"
    and f: "bt_get d (wal_path g) = Some (RegularFile (frames crc ps @ t))"
    using rep by (auto simp: dir_rep_def segment_ok_def segs dir_file_def split: option.splits dir_entry.splits)
  have open_eq: "writer_open crc d rotation =
      (case recover_last_segment_tail crc (frames crc ps @ t) of
         Inl e \<Rightarrow> (d, Inl e)
       | Inr (f', len) \<Rightarrow>
           (bt_insert (wal_path g) (RegularFile f') d,
            Inr \<lparr>ww_rotation = rotation, ww_segment = g, ww_size = len, ww_cursor = len\<rparr>))"
    using f unfolding writer_open_def Let_def dir_rep_segments [OF rep]
    by (simp add: segs split: sum.split)
  show ?thesis
  proof (cases "t = frame crc b")
    case True
    have "recover_last_segment_tail crc (frames crc (ps @ [b])) =
        Inr (frames crc (ps @ [b]), length (frames crc (ps @ [b])))"
      using crc ps b True by (intro recover_intact) auto
    moreover have "dir_rep crc (bt_insert (wal_path g) (RegularFile (frames crc (ps @ [b]) @ [])) d)
        (bef @ [(g, ps @ [b])]) []"
      using ps b True by (intro dir_rep_write [OF rep [unfolded segs]]) auto
    ultimately show ?thesis
      using True rot by (simp add: open_eq recovered_def segs writer_at_def)
  next
    case False
    have k: "t = take (length t) (frame crc b)" "length t < length (frame crc b)"
      using t False prefix_length_less [of t "frame crc b"] by (auto simp: prefix_def strict_prefix_def)
    have "recover_last_segment_tail crc (frames crc ps @ t) =
         (if 4 < length t \<and> length t < 4 + length b then Inl (AmbiguousPartialPayload (length (frames crc ps)))
          else Inr (frames crc ps, length (frames crc ps)))"
      using recover_torn_tail [OF crc ps(1) b _ k(2)] ps(2) k(1) by simp
    moreover have "dir_rep crc (bt_insert (wal_path g) (RegularFile (frames crc ps @ [])) d) segs []"
      using ps unfolding segs by (intro dir_rep_write [OF rep [unfolded segs]]) auto
    ultimately show ?thesis
      using False rot by (simp add: open_eq recovered_def segs writer_at_def)
  qed
qed

text \<open>Opening an empty root creates the first segment.\<close>

lemma writer_open_fresh:
  assumes wf: "bt_wf d" and none: "numbered_files ''wal'' d = []" "\<forall>n. bt_get d (wal_path n) = None"
    and can: "canonical_names d" and rot: "0 < rotation" "rotation \<le> 2 ^ 63"
  shows "\<exists>d' w. writer_open crc d rotation = (d', Inr w) \<and> dir_rep crc d' [(1, [])] []
           \<and> writer_at crc w [(1, [])]"
proof -
  have segs: "list_segments (Some d) = [1]"
    using none(1) by (simp add: list_segments_def sort_dedup_def)
  have "set (numbered_files ''wal'' (bt_insert (wal_path 1) (RegularFile []) d)) = {1}"
    using numbered_files_insert [OF wf, of 1 "[]"] none by simp
  then have "dir_rep crc (bt_insert (wal_path 1) (RegularFile []) d) [(1, [])] []"
    using wf none(2) can by (auto simp: dir_rep_def segment_ok_def)
  then show ?thesis
    using none(2) rot by (simp add: writer_open_def segs writer_at_def)
qed

theorem store_reopen:
  assumes rep: "dir_rep crc (d_data dk) segs t" and t: "prefix t (frame crc b)" and b: "frame_ok b"
    and crc: "crc_streaming crc" and rot: "0 < rotation" "rotation \<le> 2 ^ 63" and free: "\<not> d_locked dk"
  shows "if 4 < length t \<and> length t < 4 + length b
    then store_open_with_rotation crc dk rotation =
           (dk, Inl (AmbiguousPartialPayload (length (frames crc (snd (last segs))))))
    else \<exists>dk' s. store_open_with_rotation crc dk rotation = (dk', Inr s)
           \<and> store_rep crc s (recovered crc segs b t)"
  using writer_open_rep [OF rep t b crc rot] rot(1) free crc
  by (auto simp: store_open_with_rotation_def store_rep_def Let_def)

theorem store_open_fresh:
  assumes "bt_wf (d_data dk)" "numbered_files ''wal'' (d_data dk) = []"
    "\<forall>n. bt_get (d_data dk) (wal_path n) = None" "canonical_names (d_data dk)"
    and crc: "crc_streaming crc" and rot: "0 < rotation" "rotation \<le> 2 ^ 63" and free: "\<not> d_locked dk"
  shows "\<exists>dk' s. store_open_with_rotation crc dk rotation = (dk', Inr s) \<and> store_rep crc s [(1, [])]"
  using writer_open_fresh [OF assms(1,2,3,4) rot, of crc] rot(1) free crc
  by (auto simp: store_open_with_rotation_def store_rep_def Let_def)

section \<open>Garbage collection\<close>

lemma numbered_files_remove:
  assumes "bt_wf d" "canonical_names d" "n < 2 ^ 64"
  shows "set (numbered_files ''wal'' (bt_remove (wal_path n) d)) = set (numbered_files ''wal'' d) - {n}"
proof (intro set_eqI)
  fix m
  let ?seg = "\<lambda>name f. bt_get d name = Some (RegularFile f) \<and> file_extension name = Some ''wal''
       \<and> parse_u64 (file_stem name) = Some m"
  have name: "name \<noteq> wal_path n \<longleftrightarrow> m \<noteq> n" if "?seg name f" for name f
  proof -
    have "name = wal_path m" using assms(2) that unfolding canonical_names_def by blast
    then show ?thesis by simp
  qed
  have "m \<in> set (numbered_files ''wal'' (bt_remove (wal_path n) d)) \<longleftrightarrow>
      (\<exists>name f. name \<noteq> wal_path n \<and> ?seg name f)"
    unfolding numbered_files_iff [OF bt_wf_remove [OF assms(1)]] using assms(1) by auto
  also have "\<dots> \<longleftrightarrow> (\<exists>name f. ?seg name f) \<and> m \<noteq> n" using name by blast
  finally show "m \<in> set (numbered_files ''wal'' (bt_remove (wal_path n) d)) \<longleftrightarrow>
      m \<in> set (numbered_files ''wal'' d) - {n}"
    by (simp add: numbered_files_iff [OF assms(1)])
qed

lemma canonical_names_remove: "bt_wf d \<Longrightarrow> canonical_names d \<Longrightarrow> canonical_names (bt_remove name d)"
  by (auto simp: canonical_names_def)

lemma last_filter: "xs \<noteq> [] \<Longrightarrow> P (last xs) \<Longrightarrow> last (filter P xs) = last xs"
  by (cases xs rule: rev_cases) auto

lemma dir_rep_segments_ok:
  "dir_rep crc d segs [] \<longleftrightarrow>
     bt_wf d \<and> canonical_names d \<and> segs \<noteq> [] \<and> sorted_wrt (<) (map fst segs)
     \<and> set (numbered_files ''wal'' d) = fst ` set segs
     \<and> (\<forall>n. bt_get d (wal_path n) \<noteq> Some OtherEntry) \<and> (\<forall>e\<in>set segs. segment_ok crc d e [])"
  (is "?L \<longleftrightarrow> ?R")
proof
  assume L: ?L
  have "\<forall>e\<in>set segs. segment_ok crc d e []" using dir_rep_all_ok [OF L] by blast
  then show ?R using L unfolding dir_rep_def by blast
next
  assume R: ?R
  then have "segment_ok crc d (last segs) []" "\<forall>e\<in>set (butlast segs). segment_ok crc d e []"
    by (blast dest: in_set_butlastD intro: last_in_set)+
  then show ?L using R unfolding dir_rep_def by blast
qed

lemma dir_rep_remove:
  assumes rep: "dir_rep crc d segs []" and n: "n < 2 ^ 64" "n \<noteq> fst (last segs)"
  shows "dir_rep crc (bt_remove (wal_path n) d) (filter (\<lambda>e. fst e \<noteq> n) segs) []"
proof -
  have wf: "bt_wf d" and can: "canonical_names d" and ne: "segs \<noteq> []"
    and sorted: "sorted_wrt (<) (map fst segs)"
    and nums: "set (numbered_files ''wal'' d) = fst ` set segs"
    using rep by (auto simp: dir_rep_def)
  have same: "dir_file (bt_remove (wal_path n) d) (wal_path m) = dir_file d (wal_path m)" if "m \<noteq> n" for m
    using that wf by (simp add: dir_file_def)
  have "\<forall>e\<in>set (filter (\<lambda>e. fst e \<noteq> n) segs). segment_ok crc (bt_remove (wal_path n) d) e []"
    using dir_rep_all_ok [OF rep] same by (fastforce simp: segment_ok_def)
  moreover have "filter (\<lambda>e. fst e \<noteq> n) segs \<noteq> []"
    using ne n(2) by (auto simp: filter_empty_conv intro!: bexI [of _ "last segs"])
  moreover have "sorted_wrt (<) (map fst (filter (\<lambda>e. fst e \<noteq> n) segs))"
    using sorted by (simp add: sorted_wrt_map sorted_wrt_filter)
  moreover have "set (numbered_files ''wal'' (bt_remove (wal_path n) d))
      = fst ` set (filter (\<lambda>e. fst e \<noteq> n) segs)"
    using numbered_files_remove [OF wf can n(1)] nums by auto
  moreover have "\<forall>m. bt_get (bt_remove (wal_path n) d) (wal_path m) \<noteq> Some OtherEntry"
    using rep wf by (simp add: dir_rep_def)
  ultimately show ?thesis
    using wf can by (simp add: dir_rep_segments_ok canonical_names_remove)
qed

lemma dir_rep_remove_all:
  assumes "dir_rep crc d segs []" "\<forall>n\<in>set ns. n < 2 ^ 64 \<and> n \<noteq> fst (last segs)"
  shows "dir_rep crc (fold (\<lambda>n d. bt_remove (wal_path n) d) ns d) (filter (\<lambda>e. fst e \<notin> set ns) segs) []"
  using assms
proof (induction ns arbitrary: d segs)
  case Nil
  then show ?case by simp
next
  case (Cons n ns)
  have ne: "segs \<noteq> []" using Cons.prems(1) by (simp add: dir_rep_def)
  have "fst (last (filter (\<lambda>e. fst e \<noteq> n) segs)) = fst (last segs)"
    using Cons.prems(2) ne by (subst last_filter) auto
  then have "dir_rep crc (fold (\<lambda>n d. bt_remove (wal_path n) d) ns (bt_remove (wal_path n) d))
      (filter (\<lambda>e. fst e \<notin> set ns) (filter (\<lambda>e. fst e \<noteq> n) segs)) []"
    using Cons.prems dir_rep_remove by (intro Cons.IH) auto
  moreover have "filter (\<lambda>e. fst e \<notin> set ns) (filter (\<lambda>e. fst e \<noteq> n) segs) =
      filter (\<lambda>e. fst e \<notin> set (n # ns)) segs"
    by (auto intro: filter_cong)
  ultimately show ?case by simp
qed

lemma gc_compact_rep:
  assumes rep: "store_rep crc s segs" and since: "segment since \<le> fst (last segs)"
  shows "store_rep crc (gc_compact s since) (filter (\<lambda>e. segment since \<le> fst e) segs)"
proof -
  let ?d = "d_data (st_disk s)"
  let ?doomed = "filter (\<lambda>n. n < segment since \<and> n \<noteq> fst (last segs)) (map fst segs)"
  have dr: "dir_rep crc ?d segs []" and w: "writer_at crc (st_writer s) segs"
    using rep by (auto simp: store_rep_def)
  have ne: "segs \<noteq> []" using dr by (simp add: dir_rep_def)
  have small: "\<forall>n\<in>set ?doomed. n < 2 ^ 64 \<and> n \<noteq> fst (last segs)"
    using dir_rep_all_ok [OF dr] by (fastforce simp: segment_ok_def)
  have keep: "filter (\<lambda>e. fst e \<notin> set ?doomed) segs = filter (\<lambda>e. segment since \<le> fst e) segs"
    using since by (intro filter_cong) (auto simp: not_less)
  have "dir_rep crc (d_data (st_disk (gc_compact s since))) (filter (\<lambda>e. segment since \<le> fst e) segs) []"
    using dir_rep_remove_all [OF dr small] w
    unfolding keep gc_compact_def Let_def dir_rep_segments [OF dr] current_segment_def
    by (simp add: writer_at_def)
  moreover have "writer_at crc (st_writer (gc_compact s since)) (filter (\<lambda>e. segment since \<le> fst e) segs)"
    using w ne since by (simp add: writer_at_def gc_compact_def last_filter)
  ultimately show ?thesis using rep by (simp add: store_rep_def)
qed

end
