(* ===== verification/Append_Log.thy ===== *)
theory Append_Log
  imports Wal_Store
begin

text \<open>
  The contract between the store and its clients, as locales.  \<open>append_log\<close> states what the
  ledgers rely on when they call \<open>Store::append\<close>, \<open>Store::open\<close> and \<open>Store::stream_from\<close>;
  \<open>event_log\<close> adds an event codec and an event handler and proves, once for both ledgers, that
  the replay of the log is the state in memory after a committed append, and the old or the new
  state after a failed one.  The store interprets \<open>append_log\<close> at the end of this theory.
\<close>

section \<open>Contracts\<close>

locale append_log =
  fixes rep :: "'s \<Rightarrow> 'g \<Rightarrow> bool"
    and log :: "'g \<Rightarrow> bytes list"
    and le :: "'g \<Rightarrow> 'g \<Rightarrow> bool"
    and room :: "'g \<Rightarrow> nat \<Rightarrow> bool"
    and append :: "'x \<Rightarrow> bytes \<Rightarrow> 's \<Rightarrow> ('s, 'e, 'o) outcome"
    and reopen :: "'s \<Rightarrow> 'e + 's"
    and replay :: "('t \<Rightarrow> bytes \<Rightarrow> 'f + 't) \<Rightarrow> 't \<Rightarrow> 's \<Rightarrow> 'f + 't"
  assumes append_ok: "rep s g \<Longrightarrow> frame_ok b \<Longrightarrow> room g (Suc n) \<Longrightarrow> append x b s = (s', Inr off) \<Longrightarrow>
      \<exists>g'. rep s' g' \<and> room g' n \<and> le g g' \<and> log g' = log g @ [b]"
    and append_err: "rep s g \<Longrightarrow> frame_ok b \<Longrightarrow> room g (Suc n) \<Longrightarrow> append x b s = (s', Inl e) \<Longrightarrow>
      reopen s' = Inr s'' \<Longrightarrow> \<exists>g'. rep s'' g' \<and> room g' n \<and> le g g' \<and> log g' \<in> {log g, log g @ [b]}"
    and reopen_ok: "rep s g \<Longrightarrow> \<exists>s'. reopen s = Inr s' \<and> rep s' g"
    and replay_log: "rep s g \<Longrightarrow> replay step st s = fold_result step st (log g)"
begin

lemma replay_append:
  assumes "rep s g" "frame_ok b" "room g (Suc n)" "append x b s = (s', Inr off)"
  shows "replay step st s' = rbind (replay step st s) (\<lambda>st'. step st' b)"
  using append_ok [OF assms] assms(1) by (auto simp: replay_log fold_result_snoc)

lemma replay_reopen:
  assumes "rep s g" "reopen s = Inr s'"
  shows "replay step st s' = replay step st s"
  using reopen_ok [OF assms(1)] assms by (auto simp: replay_log)

text \<open>A whole run of acknowledged appends, with any failures injected along the way ruled out by the
  acknowledgements, is replayed record by record.\<close>

lemma replay_run:
  assumes "fold_result (\<lambda>s (x, b). case append x b s of (s', Inr _) \<Rightarrow> Inr s' | (_, Inl e) \<Rightarrow> Inl e) s xbs = Inr s'"
    and "rep s g" "room g (length xbs)" "\<forall>(x, b)\<in>set xbs. frame_ok b"
  shows "replay step st s' = rbind (replay step st s) (\<lambda>st'. fold_result step st' (map snd xbs))"
  using assms
proof (induction xbs arbitrary: s g st)
  case Nil
  then show ?case by (cases "replay step st s'") auto
next
  case (Cons xb xbs)
  obtain x b where xb: "xb = (x, b)" by (cases xb)
  then obtain s1 off where s1: "append x b s = (s1, Inr off)"
    and run: "fold_result (\<lambda>s (x, b). case append x b s of (s', Inr _) \<Rightarrow> Inr s' | (_, Inl e) \<Rightarrow> Inl e) s1 xbs = Inr s'"
    using Cons.prems(1) by (auto simp: rbind_Inr_iff split: prod.splits sum.splits)
  have b: "frame_ok b" and rm: "room g (Suc (length xbs))" using Cons.prems xb by auto
  obtain g1 where g1: "rep s1 g1" "room g1 (length xbs)"
    using append_ok [OF Cons.prems(2) b rm s1] by blast
  have "replay step st s' = rbind (replay step st s1) (\<lambda>st'. fold_result step st' (map snd xbs))"
    using Cons.IH [OF run g1] Cons.prems(4) by simp
  then show ?case
    using replay_append [OF Cons.prems(2) b rm s1] by (simp add: xb rbind_assoc)
qed

end

text \<open>A log that can be read from an offset: \<open>pos_at g off n\<close> says that \<open>off\<close> is the position after
  the first \<open>n\<close> records, which stays so while the log grows.\<close>

locale offset_log = append_log rep log le room append reopen replay
  for rep :: "'s \<Rightarrow> 'g \<Rightarrow> bool" and log :: "'g \<Rightarrow> bytes list" and le :: "'g \<Rightarrow> 'g \<Rightarrow> bool"
    and room :: "'g \<Rightarrow> nat \<Rightarrow> bool"
    and append :: "'x \<Rightarrow> bytes \<Rightarrow> 's \<Rightarrow> ('s, 'e, 'o) outcome" and reopen :: "'s \<Rightarrow> 'e + 's"
    and replay :: "('t \<Rightarrow> bytes \<Rightarrow> 'f + 't) \<Rightarrow> 't \<Rightarrow> 's \<Rightarrow> 'f + 't" +
  fixes pos_at :: "'g \<Rightarrow> 'o \<Rightarrow> nat \<Rightarrow> bool"
    and end_pos :: "'s \<Rightarrow> 'o"
    and replay_at :: "'o \<Rightarrow> ('t \<Rightarrow> bytes \<Rightarrow> 'f + 't) \<Rightarrow> 't \<Rightarrow> 's \<Rightarrow> 'f + 't"
  assumes pos_le: "le g g' \<Longrightarrow> pos_at g off n \<Longrightarrow> pos_at g' off n"
    and pos_end: "rep s g \<Longrightarrow> pos_at g (end_pos s) (length (log g))"
    and replay_pos: "rep s g \<Longrightarrow> pos_at g off n \<Longrightarrow> replay_at off step st s = fold_result step st (drop n (log g))"
begin

text \<open>A state saved with its position is completed to the full replay by the records after it.\<close>

lemma replay_saved:
  assumes "rep s g" "pos_at g off n" "fold_result step st (take n (log g)) = Inr saved"
  shows "replay_at off step saved s = replay step st s"
proof -
  have "replay step st s = fold_result step st (take n (log g) @ drop n (log g))"
    using assms(1) replay_log by (simp only: append_take_drop_id)
  then have "replay step st s = fold_result step saved (drop n (log g))"
    unfolding fold_result_append assms(3) by simp
  then show ?thesis using replay_pos [OF assms(1,2)] by simp
qed

end

text \<open>A ledger: events are encoded into records, and the state in memory is the fold of the handler
  over the decoded records.\<close>

definition decode_then :: "('b \<Rightarrow> 'f + 'ev) \<Rightarrow> ('t \<Rightarrow> 'ev \<Rightarrow> 'f + 't) \<Rightarrow> 't \<Rightarrow> 'b \<Rightarrow> 'f + 't" where
  "decode_then dec handle t b = rbind (dec b) (\<lambda>ev. handle t ev)"

definition coherent_log :: "('s \<Rightarrow> 'g \<Rightarrow> bool) \<Rightarrow> ('g \<Rightarrow> 'b list) \<Rightarrow> ('t \<Rightarrow> 'b \<Rightarrow> 'f + 't) \<Rightarrow> 't \<Rightarrow> 's \<Rightarrow> 'g \<Rightarrow> 't \<Rightarrow> bool" where
  "coherent_log rep log step init s g t \<longleftrightarrow> rep s g \<and> fold_result step init (log g) = Inr t"

text \<open>A saved state and its position, as a snapshot holds them.\<close>

definition saved_log :: "('g \<Rightarrow> 'b list) \<Rightarrow> ('g \<Rightarrow> 'o \<Rightarrow> nat \<Rightarrow> bool) \<Rightarrow> ('t \<Rightarrow> 'b \<Rightarrow> 'f + 't) \<Rightarrow> 't \<Rightarrow>
    'g \<Rightarrow> 'o \<Rightarrow> 't \<Rightarrow> bool" where
  "saved_log log pos_at step init g off saved \<longleftrightarrow>
     (\<exists>n \<le> length (log g). pos_at g off n \<and> fold_result step init (take n (log g)) = Inr saved)"

locale event_log = offset_log rep log le room append reopen replay pos_at end_pos replay_at
  for rep :: "'s \<Rightarrow> 'g \<Rightarrow> bool" and log :: "'g \<Rightarrow> bytes list" and le :: "'g \<Rightarrow> 'g \<Rightarrow> bool"
    and room :: "'g \<Rightarrow> nat \<Rightarrow> bool"
    and append :: "'x \<Rightarrow> bytes \<Rightarrow> 's \<Rightarrow> ('s, 'e, 'o) outcome" and reopen :: "'s \<Rightarrow> 'e + 's"
    and replay :: "('t \<Rightarrow> bytes \<Rightarrow> 'f + 't) \<Rightarrow> 't \<Rightarrow> 's \<Rightarrow> 'f + 't"
    and pos_at :: "'g \<Rightarrow> 'o \<Rightarrow> nat \<Rightarrow> bool" and end_pos :: "'s \<Rightarrow> 'o"
    and replay_at :: "'o \<Rightarrow> ('t \<Rightarrow> bytes \<Rightarrow> 'f + 't) \<Rightarrow> 't \<Rightarrow> 's \<Rightarrow> 'f + 't" +
  fixes enc :: "'ev \<Rightarrow> 'f + bytes" and dec :: "bytes \<Rightarrow> 'f + 'ev"
    and handle :: "'t \<Rightarrow> 'ev \<Rightarrow> 'f + 't" and init :: 't
  assumes dec_enc: "rep s g \<Longrightarrow> enc ev = Inr b \<Longrightarrow> dec b = Inr ev"
begin

lemma coherent_replay: "coherent_log rep log (decode_then dec handle) init s g t \<Longrightarrow> replay (decode_then dec handle) init s = Inr t"
  using replay_log by (auto simp: coherent_log_def)

lemma saved_replay: "coherent_log rep log (decode_then dec handle) init s g t \<Longrightarrow> saved_log log pos_at (decode_then dec handle) init g off saved \<Longrightarrow> replay_at off (decode_then dec handle) saved s = Inr t"
  using replay_saved coherent_replay by (fastforce simp: coherent_log_def saved_log_def)

lemma saved_now: "coherent_log rep log (decode_then dec handle) init s g t \<Longrightarrow> saved_log log pos_at (decode_then dec handle) init g (end_pos s) t"
  using pos_end by (fastforce simp: coherent_log_def saved_log_def)

lemma saved_grows:
  assumes "saved_log log pos_at (decode_then dec handle) init g off saved" "le g g'" "\<exists>bs. log g' = log g @ bs"
  shows "saved_log log pos_at (decode_then dec handle) init g' off saved"
proof -
  obtain n where n: "n \<le> length (log g)" "pos_at g off n"
      "fold_result (decode_then dec handle) init (take n (log g)) = Inr saved"
    using assms(1) by (auto simp: saved_log_def)
  obtain bs where "log g' = log g @ bs" using assms(3) by blast
  then have "n \<le> length (log g')" "take n (log g') = take n (log g)" using n(1) by auto
  then show ?thesis using n(3) pos_le [OF assms(2) n(2)] unfolding saved_log_def by metis
qed

lemma coherent_snoc:
  assumes "coherent_log rep log (decode_then dec handle) init s g t" "rep s' g'" "log g' = log g @ [b]" "enc ev = Inr b" "handle t ev = Inr t'"
  shows "coherent_log rep log (decode_then dec handle) init s' g' t'"
  using assms dec_enc by (auto simp: coherent_log_def fold_result_snoc decode_then_def)

lemma commit:
  assumes "coherent_log rep log (decode_then dec handle) init s g t" "handle t ev = Inr t'" "enc ev = Inr b" "frame_ok b" "room g (Suc n)"
    and "append x b s = (s', Inr off)"
  shows "\<exists>g'. coherent_log rep log (decode_then dec handle) init s' g' t' \<and> room g' n \<and> (\<forall>off saved. saved_log log pos_at (decode_then dec handle) init g off saved \<longrightarrow> saved_log log pos_at (decode_then dec handle) init g' off saved)"
proof -
  have rep: "rep s g" using assms(1) by (simp add: coherent_log_def)
  obtain g' where g': "rep s' g'" "room g' n" "le g g'" "log g' = log g @ [b]"
    using append_ok [OF rep assms(4,5,6)] by blast
  then show ?thesis using coherent_snoc [OF assms(1) g'(1,4) assms(3,2)] saved_grows by blast
qed

lemma abort:
  assumes "coherent_log rep log (decode_then dec handle) init s g t" "handle t ev = Inr t'" "enc ev = Inr b" "frame_ok b" "room g (Suc n)"
    and "append x b s = (s', Inl e)" "reopen s' = Inr s''"
  shows "\<exists>g'. (coherent_log rep log (decode_then dec handle) init s'' g' t \<or> coherent_log rep log (decode_then dec handle) init s'' g' t') \<and> room g' n
    \<and> (\<forall>off saved. saved_log log pos_at (decode_then dec handle) init g off saved \<longrightarrow> saved_log log pos_at (decode_then dec handle) init g' off saved)"
proof -
  have rep: "rep s g" using assms(1) by (simp add: coherent_log_def)
  obtain g' where g': "rep s'' g'" "room g' n" "le g g'" "log g' \<in> {log g, log g @ [b]}"
    using append_err [OF rep assms(4,5,6,7)] by blast
  have sv: "\<forall>off saved. saved_log log pos_at (decode_then dec handle) init g off saved \<longrightarrow> saved_log log pos_at (decode_then dec handle) init g' off saved"
    using saved_grows [OF _ g'(3)] g'(4) by auto
  show ?thesis
  proof (cases "log g' = log g")
    case True
    then have "coherent_log rep log (decode_then dec handle) init s'' g' t" using assms(1) g'(1) by (simp add: coherent_log_def)
    then show ?thesis using g'(2) sv by blast
  next
    case False
    then have "coherent_log rep log (decode_then dec handle) init s'' g' t'" using coherent_snoc [OF assms(1) g'(1) _ assms(3,2)] g'(4) by simp
    then show ?thesis using g'(2) sv by blast
  qed
qed

lemma restart:
  assumes "coherent_log rep log (decode_then dec handle) init s g t"
  shows "\<exists>s'. reopen s = Inr s' \<and> coherent_log rep log (decode_then dec handle) init s' g t"
  using assms reopen_ok by (fastforce simp: coherent_log_def)

end

section \<open>The store as an append log\<close>

text \<open>The loop both ledgers run: \<open>store.stream_from(offset)?\<close> and then a handler for every record.\<close>

definition replay_records :: "'h crc_hasher \<Rightarrow> (wal_error \<Rightarrow> 'f) \<Rightarrow> offset \<Rightarrow> ('t \<Rightarrow> bytes \<Rightarrow> 'f + 't) \<Rightarrow> 't \<Rightarrow>
    store \<Rightarrow> 'f + 't" where
  "replay_records crc h off step st s =
     rbind (map_err h (stream_from s off)) (\<lambda>stream. wal_fold crc (d_data (st_disk s)) h step st stream)"

definition store_reopen_again :: "'h crc_hasher \<Rightarrow> store \<Rightarrow> wal_error + store" where
  "store_reopen_again crc s = snd (store_open crc (store_drop s))"

definition segment_room :: "segments \<Rightarrow> nat \<Rightarrow> bool" where
  "segment_room segs n \<longleftrightarrow> fst (last segs) + n < 2 ^ 64"

text \<open>What the handler preserves holds of the result, whatever bytes the disk has.\<close>

lemma replay_records_inv:
  assumes "replay_records crc h off step st s = Inr st'" "P st" "\<And>st bs st'. P st \<Longrightarrow> step st bs = Inr st' \<Longrightarrow> P st'"
  shows "P st'"
  using assms(1) wal_fold_inv [of crc _ h step st _ st' P, OF _ assms(2,3)]
  by (auto simp: replay_records_def rbind_Inr_iff)

text \<open>A run in which \<open>sync_all\<close> fails after the record was written.\<close>

definition sync_fails :: io_env where
  "sync_fails call = (if call = SyncSegment then Some 0 else None)"

lemma default_rotation: "0 < DEFAULT_SEGMENT_SIZE" "DEFAULT_SEGMENT_SIZE \<le> 2 ^ 63"
  by (simp_all add: DEFAULT_SEGMENT_SIZE_def)

lemma store_drop_simps [simp]: "d_data (store_drop s) = d_data (st_disk s)" "\<not> d_locked (store_drop s)"
  by (simp_all add: store_drop_def)

lemma replay_records_start:
  fixes step :: "'t \<Rightarrow> bytes \<Rightarrow> 'f + 't"
  assumes "store_rep crc s segs"
  shows "replay_records crc h offset_start step st s = fold_result step st (log_of segs)"
proof -
  let ?d = "d_data (st_disk s)"
  have "dir_rep crc ?d segs []" using assms by (simp add: store_rep_def)
  then have "\<exists>str. stream_new ?d offset_start = Inr str
      \<and> (\<forall>h (step :: 't \<Rightarrow> bytes \<Rightarrow> 'f + 't) st. wal_fold crc ?d h step st str = fold_result step st (log_of segs))"
    by (rule stream_start)
  then show ?thesis by (auto simp: replay_records_def stream_from_def)
qed

lemma reopen_after:
  assumes "disk_after crc segs b (st_disk s)" "frame_ok b" "crc_streaming crc"
    and "store_reopen_again crc s = Inr s'"
  shows "\<exists>segs'. store_rep crc s' segs' \<and> log_of segs' \<in> {log_of segs, log_of segs @ [b]}
      \<and> fst (last segs') \<le> fst (last segs) + 1 \<and> segs_le segs segs'"
proof -
  obtain segs0 t where rep: "dir_rep crc (d_data (st_disk s)) segs0 t" "log_of segs0 = log_of segs"
      and t: "prefix t (frame crc b)" and le: "fst (last segs0) \<le> fst (last segs) + 1" "segs_le segs segs0"
    using assms(1) by (auto simp: disk_after_def)
  have ne: "segs0 \<noteq> []" using rep(1) by (simp add: dir_rep_def)
  have "store_rep crc s' (recovered crc segs0 b t)"
    using store_reopen [of crc "store_drop s" segs0 t b DEFAULT_SEGMENT_SIZE] rep t default_rotation assms(2-4)
    by (auto simp: store_reopen_again_def store_open_def split: if_splits)
  moreover have "fst (last (recovered crc segs0 b t)) = fst (last segs0)"
    by (simp add: recovered_def)
  moreover have "log_of (recovered crc segs0 b t) \<in> {log_of segs, log_of segs @ [b]}"
    using log_of_recovered [OF ne, of crc b t] rep(2) by simp
  moreover have "segs_le segs (recovered crc segs0 b t)"
    using le(2) segs_le_recovered [OF ne] by (rule segs_le_trans)
  ultimately show ?thesis using le(1) by auto
qed

lemma reopen_clean:
  assumes "store_rep crc s segs"
  shows "\<exists>s'. store_reopen_again crc s = Inr s' \<and> store_rep crc s' segs"
proof -
  have "recovered crc segs [] [] = segs" by (simp add: recovered_def frame_def u32_to_le_bytes_def)
  then show ?thesis
    using store_reopen [of crc "store_drop s" segs "[]" "[]" DEFAULT_SEGMENT_SIZE] assms default_rotation
    by (auto simp: store_reopen_again_def store_open_def store_rep_def frame_ok_def)
qed

text \<open>Offsets: the end of a record of some segment.\<close>

definition offset_at :: "'h crc_hasher \<Rightarrow> segments \<Rightarrow> offset \<Rightarrow> nat \<Rightarrow> bool" where
  "offset_at crc segs off n \<longleftrightarrow>
     (\<exists>bef g qs ps aft. segs = bef @ (g, qs @ ps) # aft \<and> off = Offset g (length (frames crc qs))
        \<and> n = length (log_of bef @ qs))"

lemma offset_at_le:
  assumes "segs_le segs segs'" "offset_at crc segs off n"
  shows "offset_at crc segs' off n"
proof -
  obtain bef g qs ps aft where a: "segs = bef @ (g, qs @ ps) # aft" "off = Offset g (length (frames crc qs))"
      "n = length (log_of bef @ qs)" using assms(2) by (auto simp: offset_at_def)
  obtain bef' g' qs' ps' aft' where b: "segs = bef' @ [(g', qs')]" "segs' = bef' @ (g', qs' @ ps') # aft'"
    using assms(1) by (auto simp: segs_le_def)
  show ?thesis
  proof (cases aft rule: rev_cases)
    case Nil
    then have "bef' = bef" "g' = g" "qs' = qs @ ps" using a b by auto
    then show ?thesis using a(2,3) b(2) by (auto simp: offset_at_def)
  next
    case (snoc aft0 e)
    then have "segs' = bef @ (g, qs @ ps) # aft0 @ (g', qs' @ ps') # aft'" using a b by auto
    then show ?thesis using a(2,3) by (auto simp: offset_at_def)
  qed
qed

lemma offset_at_end: "store_rep crc s segs \<Longrightarrow> offset_at crc segs (end_offset s) (length (log_of segs))"
proof -
  assume rep: "store_rep crc s segs"
  then obtain bef g ps where segs: "segs = bef @ [(g, ps @ [])]"
    by (auto simp: store_rep_def elim: dir_rep_last)
  then have "end_offset s = Offset g (length (frames crc ps))"
    using rep by (simp add: store_rep_def writer_at_def end_offset_def)
  then have "segs = bef @ (g, ps @ []) # [] \<and> end_offset s = Offset g (length (frames crc ps))
      \<and> length (log_of segs) = length (log_of bef @ ps)"
    using segs by simp
  then show ?thesis unfolding offset_at_def by blast
qed

lemma replay_records_at:
  fixes step :: "'t \<Rightarrow> bytes \<Rightarrow> 'f + 't"
  assumes "store_rep crc s segs" "offset_at crc segs off n"
  shows "replay_records crc h off step st s = fold_result step st (drop n (log_of segs))"
proof -
  let ?d = "d_data (st_disk s)"
  obtain bef g qs ps aft where a: "segs = bef @ (g, qs @ ps) # aft" "off = Offset g (length (frames crc qs))"
      "n = length (log_of bef @ qs)" using assms(2) by (auto simp: offset_at_def)
  have "dir_rep crc ?d segs []" using assms(1) by (simp add: store_rep_def)
  then have "\<exists>str. stream_new ?d (Offset g (length (frames crc qs))) = Inr str
      \<and> (\<forall>h (step :: 't \<Rightarrow> bytes \<Rightarrow> 'f + 't) st. wal_fold crc ?d h step st str = fold_result step st (ps @ log_of aft))"
    using a(1) by (rule stream_offset)
  then show ?thesis by (auto simp: replay_records_def stream_from_def a)
qed

lemma store_append_ok:
  assumes "store_rep crc s g" "frame_ok b" "segment_room g (Suc n)" "store_append crc io fp b s = (s', Inr off)"
  shows "\<exists>g'. store_rep crc s' g' \<and> segment_room g' n \<and> segs_le g g' \<and> log_of g' = log_of g @ [b]"
  using store_append_rep [OF assms(1,2) _ assms(4)] assms(3)
  by (auto simp: segment_room_def dest: appended_log appended_le)

lemma store_append_err:
  assumes "store_rep crc s g" "frame_ok b" "segment_room g (Suc n)" "store_append crc io fp b s = (s', Inl e)"
    and "store_reopen_again crc s' = Inr s''"
  shows "\<exists>g'. store_rep crc s'' g' \<and> segment_room g' n \<and> segs_le g g' \<and> log_of g' \<in> {log_of g, log_of g @ [b]}"
proof -
  have "disk_after crc g b (st_disk s')"
    using store_append_rep [OF assms(1,2) _ assms(4)] assms(3) by (auto simp: segment_room_def)
  from reopen_after [OF this assms(2) _ assms(5)] assms(1,3) show ?thesis
    by (auto simp: store_rep_def segment_room_def)
qed

interpretation wal: offset_log "store_rep crc" log_of segs_le segment_room
    "\<lambda>(io, fp). store_append crc io fp" "store_reopen_again crc" "replay_records crc h offset_start"
    "offset_at crc" end_offset "replay_records crc h"
  for crc h
proof (unfold_locales, goal_cases)
  case (1 s g b n x s' off)
  then show ?case by (cases x) (simp only: prod.case, rule store_append_ok)
next
  case (2 s g b n x s' e s'')
  then show ?case by (cases x) (simp only: prod.case, rule store_append_err)
next
  case (3 s g)
  then show ?case by (rule reopen_clean)
next
  case (4 s g step st)
  then show ?case by (rule replay_records_start)
next
  case (5 g g' off n)
  then show ?case by (rule offset_at_le)
next
  case (6 s g)
  then show ?case by (rule offset_at_end)
next
  case (7 s g off n step st)
  then show ?case by (rule replay_records_at)
qed

end
