(* ===== verification/Hash_Chain.thy ===== *)
theory Hash_Chain
  imports Rust_Text
begin

text \<open>
  Hash chains, the pattern both ledgers follow: an entry is accepted only when it names the hash of
  the current head, and its own hash becomes the head.  The locale shows once that two accepted
  histories with the same head are the same, unless two of their entries are a digest collision.
\<close>

locale hash_chain =
  fixes accept :: "'s \<Rightarrow> 'e \<Rightarrow> 'f + 's"
    and init :: 's
    and head :: "'s \<Rightarrow> string option"
    and digest :: "'e \<Rightarrow> string"
    and prev :: "'e \<Rightarrow> string option"
    and faithful :: bool
    and collides :: "'e \<Rightarrow> 'e \<Rightarrow> bool"
  assumes head_init: "head init = None"
    and head_accept: "accept s e = Inr s' \<Longrightarrow> head s' = Some (digest e)"
    and prev_accept: "accept s e = Inr s' \<Longrightarrow> prev e = head s"
    and same_digest: "faithful \<Longrightarrow> accept s e = Inr s' \<Longrightarrow> accept t f = Inr t' \<Longrightarrow> digest e = digest f \<Longrightarrow>
      e = f \<or> collides e f"
begin

lemma accept_snoc_iff:
  "fold_result accept s (es @ [e]) = Inr s' \<longleftrightarrow> (\<exists>s1. fold_result accept s es = Inr s1 \<and> accept s1 e = Inr s')"
  by (simp add: fold_result_snoc rbind_Inr_iff)

text \<open>Every entry names its predecessor.\<close>

lemma chain_links:
  "fold_result accept init es = Inr s \<Longrightarrow> i < length es \<Longrightarrow>
     prev (es ! i) = (if i = 0 then None else Some (digest (es ! (i - 1))))"
proof (induction es arbitrary: s rule: rev_induct)
  case Nil
  then show ?case by simp
next
  case (snoc e es)
  then obtain s1 where s1: "fold_result accept init es = Inr s1" "accept s1 e = Inr s"
    by (auto simp: accept_snoc_iff)
  have head: "head s1 = (if es = [] then None else Some (digest (last es)))"
    using s1(1) head_init head_accept by (cases es rule: rev_cases) (auto simp: accept_snoc_iff)
  show ?case
  proof (cases "i < length es")
    case True
    then show ?thesis using snoc.IH [OF s1(1)] by (auto simp: nth_append)
  next
    case False
    then have "i = length es" using snoc.prems(2) by simp
    then show ?thesis using prev_accept [OF s1(2)] head by (auto simp: nth_append last_conv_nth)
  qed
qed

lemma tamper_evident:
  assumes faithful
  shows "fold_result accept init es = Inr s \<Longrightarrow> fold_result accept init fs = Inr t \<Longrightarrow> head s = head t \<Longrightarrow>
    es = fs \<or> (\<exists>e\<in>set es. \<exists>f\<in>set fs. collides e f)"
proof (induction es arbitrary: fs s t rule: rev_induct)
  case Nil
  then show ?case
    using head_init by (cases fs rule: rev_cases) (auto simp: accept_snoc_iff dest: head_accept)
next
  case (snoc e es)
  obtain s1 where s1: "fold_result accept init es = Inr s1" "accept s1 e = Inr s"
    using snoc.prems(1) by (auto simp: accept_snoc_iff)
  have "fs \<noteq> []" using snoc.prems(2,3) head_accept [OF s1(2)] head_init by auto
  then obtain fs1 f where fs: "fs = fs1 @ [f]" by (metis rev_exhaust)
  obtain t1 where t1: "fold_result accept init fs1 = Inr t1" "accept t1 f = Inr t"
    using snoc.prems(2) by (auto simp: fs accept_snoc_iff)
  have "digest e = digest f" using snoc.prems(3) head_accept [OF s1(2)] head_accept [OF t1(2)] by simp
  from same_digest [OF assms s1(2) t1(2) this] show ?case
  proof
    assume "e = f"
    moreover have "prev e = head s1" "prev f = head t1" by (rule prev_accept [OF s1(2)], rule prev_accept [OF t1(2)])
    ultimately show ?thesis using snoc.IH [OF s1(1) t1(1)] by (auto simp: fs)
  qed (auto simp: fs)
qed

end

section \<open>Digest references\<close>

definition sha256_ref :: "(bytes \<Rightarrow> bytes) \<Rightarrow> bytes \<Rightarrow> string" where
  "sha256_ref sha256 bs = ''sha256:'' @ hex_of_bytes (sha256 bs)"

text \<open>Two values that are serialized differently and have the same digest; and the injectivity of a
  serializer, which its decoder provides.\<close>

definition ser_collision :: "(bytes \<Rightarrow> bytes) \<Rightarrow> ('v \<Rightarrow> string + bytes) \<Rightarrow> 'v \<Rightarrow> 'v \<Rightarrow> bool" where
  "ser_collision sha256 ser v w \<longleftrightarrow>
     (case (ser v, ser w) of (Inr x, Inr y) \<Rightarrow> x \<noteq> y \<and> sha256 x = sha256 y | _ \<Rightarrow> False)"

definition ser_injective :: "('v \<Rightarrow> string + bytes) \<Rightarrow> bool" where
  "ser_injective ser \<longleftrightarrow> (\<forall>v w x. ser v = Inr x \<and> ser w = Inr x \<longrightarrow> v = w)"

lemma same_reference:
  assumes "ser_injective ser" "ser v = Inr x" "ser w = Inr y" "sha256_ref sha256 x = sha256_ref sha256 y"
  shows "v = w \<or> ser_collision sha256 ser v w"
  using assms by (cases "x = y") (auto simp: ser_injective_def ser_collision_def sha256_ref_def)

end
