(* ===== verification/ProofPath.thy ===== *)
theory ProofPath
  imports Append_Log Hash_Chain
begin

text \<open>
  The durable ProofPath ledger, \<open>proofpath_durable.rs\<close>: idempotent admission of evidence under a
  key derived from the namespace and the logical operation, a hash chain, an authority boundary that
  every record states, and replay of the whole log on opening.  It interprets \<open>hash_chain\<close> and
  \<open>event_log\<close>.  A ledger of a namespace lives in its own directory; the disks of the root are a map
  from that directory to a store root.
\<close>

section \<open>Data\<close>

definition PROOFPATH_DURABLE_RECORD_SCHEMA :: string where
  "PROOFPATH_DURABLE_RECORD_SCHEMA = ''liminaldb.proofpath-durable-record.v0.1''"
definition PROOFPATH_DURABLE_PROFILE :: string where
  "PROOFPATH_DURABLE_PROFILE = ''org.liminaldb.proofpath-durable-ledger.v0.1''"
definition PROOFPATH_PRODUCER_REPOSITORY :: string where
  "PROOFPATH_PRODUCER_REPOSITORY = ''safal207/ProofPath''"
definition PROOFPATH_CAPABILITY_ID :: string where
  "PROOFPATH_CAPABILITY_ID = ''proofpath.scig.v0.1''"
definition PROOFPATH_CAPABILITY_COMMIT :: string where
  "PROOFPATH_CAPABILITY_COMMIT = ''685d50e256a5125a21f4c4584b326411caaa64ad''"
definition LIMINALDB_CONSUMER_REPOSITORY :: string where
  "LIMINALDB_CONSUMER_REPOSITORY = ''safal207/LiminalDB''"
definition LIMINALDB_PROOFPATH_IMPORT_COMMIT :: string where
  "LIMINALDB_PROOFPATH_IMPORT_COMMIT = ''00580ff097dee61b45ad3c8a3c36ae5f548f572d''"
definition LIMINALDB_AUDIT_EVENT_CONTRACT_BLOB :: string where
  "LIMINALDB_AUDIT_EVENT_CONTRACT_BLOB = ''fd733971aaae089df770062bcf7f2c2d6d19ca1d''"
definition PROOFPATH_PERSISTENCE_SCOPE :: string where
  "PROOFPATH_PERSISTENCE_SCOPE = ''local_test_only''"
definition RECORD_KIND :: string where
  "RECORD_KIND = ''proofpath.scig.verification.observed''"
definition LEDGER_DIR :: string where
  "LEDGER_DIR = ''proofpath-durable-v0.1''"

record ProofPathDurableInput =
  pi_logical_operation_id :: string
  pi_source_event_bytes :: bytes
  pi_admission_report_bytes :: bytes
  pi_source_receipt_ref :: string
  pi_valid_time_ms :: u64
  pi_transaction_time_ms :: u64
  pi_storage_admission_ref :: string

record ProofPathDurableRecordBody =
  pb_schema :: string
  pb_profile :: string
  pb_sequence :: u64
  pb_namespace :: string
  pb_ingestion_key :: string
  pb_logical_operation_id :: string
  pb_source_event_sha256 :: string
  pb_source_receipt_ref :: string
  pb_admission_report_sha256 :: string
  pb_producer_repository :: string
  pb_producer_capability_id :: string
  pb_producer_capability_commit :: string
  pb_consumer_repository :: string
  pb_consumer_import_commit :: string
  pb_consumer_contract_blob_sha :: string
  pb_valid_time_ms :: u64
  pb_transaction_time_ms :: u64
  pb_source_event_bytes :: bytes
  pb_admission_report_bytes :: bytes
  pb_storage_admission_ref :: string
  pb_persistence_scope :: string
  pb_storage_write_authorized :: bool
  pb_execution_authorized :: bool
  pb_mutation_authorized :: bool
  pb_external_effects_authorized :: bool
  pb_previous_record_hash :: "string option"

record ProofPathDurableRecord =
  pr_body :: ProofPathDurableRecordBody
  pr_record_hash :: string

datatype ProofPathAppendOutcome = Inserted ProofPathDurableRecord | AlreadyPresent ProofPathDurableRecord

fun outcome_record :: "ProofPathAppendOutcome \<Rightarrow> ProofPathDurableRecord" where
  "outcome_record (Inserted r) = r"
| "outcome_record (AlreadyPresent r) = r"

fun inserted :: "ProofPathAppendOutcome \<Rightarrow> bool" where
  "inserted (Inserted _) = True"
| "inserted (AlreadyPresent _) = False"

datatype ProofPathDurableError =
  PP_Storage wal_error
  | PP_Encoding string
  | InvalidNamespace
  | InvalidLogicalOperationId
  | EmptySourceEvent
  | EmptyAdmissionReport
  | PP_InvalidReference string
  | InvalidTemporalOrder
  | RecordProfileMismatch
  | NamespaceMismatch
  | PP_SequenceMismatch u64 u64
  | PreviousRecordHashMismatch
  | RecordHashMismatch
  | IngestionKeyMismatch
  | SourceEventDigestMismatch
  | AdmissionReportDigestMismatch
  | ProducerCapabilityMismatch
  | ConsumerContractMismatch
  | AuthorityBoundaryViolation
  | DuplicateIngestionKey string
  | IdempotencyConflict
  | PP_PoisonedAfterStorageFailure

record ProofPathDurableState =
  ps_next_sequence :: u64
  ps_head_record_hash :: "string option"
  ps_records :: "(string, ProofPathDurableRecord) btree_map"

definition proofpath_default :: ProofPathDurableState where
  "proofpath_default = \<lparr>ps_next_sequence = 1, ps_head_record_hash = None, ps_records = []\<rparr>"

record ProofPathDurableLedger =
  pl_namespace :: string
  pl_store :: store
  pl_state :: ProofPathDurableState
  pl_poisoned :: bool

text \<open>The crates the ledger calls.\<close>

record 'h proofpath_env =
  pe_crc :: "'h crc_hasher"
  pe_sha256 :: "bytes \<Rightarrow> bytes"
  pe_ser_body :: "ProofPathDurableRecordBody \<Rightarrow> string + bytes"
  pe_ser_record :: "ProofPathDurableRecord \<Rightarrow> string + bytes"
  pe_de_record :: "bytes \<Rightarrow> string + ProofPathDurableRecord"

section \<open>Validation\<close>

definition is_ascii_alphanumeric :: "char \<Rightarrow> bool" where
  "is_ascii_alphanumeric c \<longleftrightarrow>
     (CHR ''0'' \<le> c \<and> c \<le> CHR ''9'') \<or> (CHR ''A'' \<le> c \<and> c \<le> CHR ''Z'') \<or> (CHR ''a'' \<le> c \<and> c \<le> CHR ''z'')"

definition normalize_namespace :: "string \<Rightarrow> ProofPathDurableError + string" where
  "normalize_namespace v =
     (let trimmed = trim v;
          valid_len = (trimmed \<noteq> [] \<and> length trimmed \<le> 64);
          valid_chars = list_all (\<lambda>c. is_ascii_alphanumeric c \<or> c \<in> {CHR ''.'', CHR ''_'', CHR ''-''}) trimmed
      in if \<not> valid_len \<or> trimmed \<noteq> v \<or> trimmed = ''.'' \<or> trimmed = ''..'' \<or> \<not> valid_chars
            \<or> \<not> is_ascii_alphanumeric (hd trimmed)
         then Inl InvalidNamespace else Inr v)"

definition validate_sha256_ref :: "string \<Rightarrow> string \<Rightarrow> ProofPathDurableError + unit" where
  "validate_sha256_ref reference label = require (is_sha256_ref reference) (PP_InvalidReference label)"

definition proofpath_normalize_input :: "ProofPathDurableInput \<Rightarrow> ProofPathDurableError + ProofPathDurableInput" where
  "proofpath_normalize_input input =
     (let logical = trim (pi_logical_operation_id input)
      in rbind (require (\<not> (logical = [] \<or> logical \<noteq> pi_logical_operation_id input)) InvalidLogicalOperationId) (\<lambda>_.
         rbind (require (pi_source_event_bytes input \<noteq> []) EmptySourceEvent) (\<lambda>_.
         rbind (require (pi_admission_report_bytes input \<noteq> []) EmptyAdmissionReport) (\<lambda>_.
         rbind (validate_sha256_ref (pi_source_receipt_ref input) ''source_receipt_ref'') (\<lambda>_.
         rbind (validate_sha256_ref (pi_storage_admission_ref input) ''storage_admission_ref'') (\<lambda>_.
         rbind (require (\<not> (pi_valid_time_ms input = 0 \<or> pi_transaction_time_ms input < pi_valid_time_ms input))
                  InvalidTemporalOrder) (\<lambda>_.
           Inr (input\<lparr>pi_logical_operation_id := logical\<rparr>))))))))"

definition ingestion_key :: "'h proofpath_env \<Rightarrow> string \<Rightarrow> string \<Rightarrow> string" where
  "ingestion_key env namespace logical_operation_id =
     sha256_ref (pe_sha256 env)
       (as_bytes (namespace @ [CHR 0x00] @ logical_operation_id @ [CHR 0x00] @ RECORD_KIND))"

definition proofpath_digest :: "'h proofpath_env \<Rightarrow> ProofPathDurableRecordBody \<Rightarrow> ProofPathDurableError + string" where
  "proofpath_digest env body =
     rbind (map_err PP_Encoding (pe_ser_body env body)) (\<lambda>bs. Inr (sha256_ref (pe_sha256 env) bs))"

section \<open>Records\<close>

definition apply_record :: "'h proofpath_env \<Rightarrow> string \<Rightarrow> ProofPathDurableState \<Rightarrow> ProofPathDurableRecord \<Rightarrow>
    ProofPathDurableError + ProofPathDurableState" where
  "apply_record env namespace st rec =
     (let body = pr_body rec; sha = sha256_ref (pe_sha256 env)
      in rbind (require (\<not> (pb_schema body \<noteq> PROOFPATH_DURABLE_RECORD_SCHEMA
                  \<or> pb_profile body \<noteq> PROOFPATH_DURABLE_PROFILE)) RecordProfileMismatch) (\<lambda>_.
         rbind (require (pb_namespace body = namespace) NamespaceMismatch) (\<lambda>_.
         rbind (require (pb_sequence body = ps_next_sequence st)
                  (PP_SequenceMismatch (ps_next_sequence st) (pb_sequence body))) (\<lambda>_.
         rbind (require (pb_previous_record_hash body = ps_head_record_hash st) PreviousRecordHashMismatch) (\<lambda>_.
         rbind (proofpath_digest env body) (\<lambda>digest.
         rbind (require (digest = pr_record_hash rec) RecordHashMismatch) (\<lambda>_.
         rbind (validate_sha256_ref (pr_record_hash rec) ''record_hash'') (\<lambda>_.
         rbind (validate_sha256_ref (pb_source_receipt_ref body) ''source_receipt_ref'') (\<lambda>_.
         rbind (validate_sha256_ref (pb_storage_admission_ref body) ''storage_admission_ref'') (\<lambda>_.
         rbind (require (\<not> (trim (pb_logical_operation_id body) = []
                  \<or> trim (pb_logical_operation_id body) \<noteq> pb_logical_operation_id body)) InvalidLogicalOperationId) (\<lambda>_.
         rbind (require (\<not> (pb_valid_time_ms body = 0 \<or> pb_transaction_time_ms body < pb_valid_time_ms body))
                  InvalidTemporalOrder) (\<lambda>_.
         rbind (require (pb_ingestion_key body = ingestion_key env namespace (pb_logical_operation_id body))
                  IngestionKeyMismatch) (\<lambda>_.
         rbind (validate_sha256_ref (pb_ingestion_key body) ''ingestion_key'') (\<lambda>_.
         rbind (require (pb_source_event_sha256 body = sha (pb_source_event_bytes body)) SourceEventDigestMismatch) (\<lambda>_.
         rbind (require (pb_admission_report_sha256 body = sha (pb_admission_report_bytes body))
                  AdmissionReportDigestMismatch) (\<lambda>_.
         rbind (require (\<not> (pb_producer_repository body \<noteq> PROOFPATH_PRODUCER_REPOSITORY
                  \<or> pb_producer_capability_id body \<noteq> PROOFPATH_CAPABILITY_ID
                  \<or> pb_producer_capability_commit body \<noteq> PROOFPATH_CAPABILITY_COMMIT)) ProducerCapabilityMismatch) (\<lambda>_.
         rbind (require (\<not> (pb_consumer_repository body \<noteq> LIMINALDB_CONSUMER_REPOSITORY
                  \<or> pb_consumer_import_commit body \<noteq> LIMINALDB_PROOFPATH_IMPORT_COMMIT
                  \<or> pb_consumer_contract_blob_sha body \<noteq> LIMINALDB_AUDIT_EVENT_CONTRACT_BLOB)) ConsumerContractMismatch) (\<lambda>_.
         rbind (require (\<not> (pb_persistence_scope body \<noteq> PROOFPATH_PERSISTENCE_SCOPE
                  \<or> \<not> pb_storage_write_authorized body \<or> pb_execution_authorized body
                  \<or> pb_mutation_authorized body \<or> pb_external_effects_authorized body)) AuthorityBoundaryViolation) (\<lambda>_.
         rbind (require (\<not> bt_contains_key (ps_records st) (pb_ingestion_key body))
                  (DuplicateIngestionKey (pb_ingestion_key body))) (\<lambda>_.
           Inr \<lparr>ps_next_sequence = ps_next_sequence st + 1, ps_head_record_hash = Some (pr_record_hash rec),
                ps_records = bt_insert (pb_ingestion_key body) rec (ps_records st)\<rparr>))))))))))))))))))))"

definition equivalent_semantic_input :: "'h proofpath_env \<Rightarrow> ProofPathDurableRecord \<Rightarrow> ProofPathDurableInput \<Rightarrow> bool" where
  "equivalent_semantic_input env existing input \<longleftrightarrow>
     pb_logical_operation_id (pr_body existing) = pi_logical_operation_id input
     \<and> pb_source_event_bytes (pr_body existing) = pi_source_event_bytes input
     \<and> pb_admission_report_bytes (pr_body existing) = pi_admission_report_bytes input
     \<and> pb_source_receipt_ref (pr_body existing) = pi_source_receipt_ref input
     \<and> pb_valid_time_ms (pr_body existing) = pi_valid_time_ms input
     \<and> pb_source_event_sha256 (pr_body existing) = sha256_ref (pe_sha256 env) (pi_source_event_bytes input)
     \<and> pb_admission_report_sha256 (pr_body existing) = sha256_ref (pe_sha256 env) (pi_admission_report_bytes input)"

section \<open>The ledger\<close>

definition decode_record :: "'h proofpath_env \<Rightarrow> bytes \<Rightarrow> ProofPathDurableError + ProofPathDurableRecord" where
  "decode_record env bs = map_err PP_Encoding (pe_de_record env bs)"

definition encode_record :: "'h proofpath_env \<Rightarrow> ProofPathDurableRecord \<Rightarrow> ProofPathDurableError + bytes" where
  "encode_record env rec = map_err PP_Encoding (pe_ser_record env rec)"

definition proofpath_step :: "'h proofpath_env \<Rightarrow> string \<Rightarrow> ProofPathDurableState \<Rightarrow> bytes \<Rightarrow>
    ProofPathDurableError + ProofPathDurableState" where
  "proofpath_step env namespace = decode_then (decode_record env) (apply_record env namespace)"

definition proofpath_replay_from :: "'h proofpath_env \<Rightarrow> store \<Rightarrow> string \<Rightarrow> ProofPathDurableError + ProofPathDurableState" where
  "proofpath_replay_from env s namespace =
     replay_records (pe_crc env) PP_Storage offset_start (proofpath_step env namespace) proofpath_default s"

definition namespace_path :: "string \<Rightarrow> string" where
  "namespace_path namespace = LEDGER_DIR @ ''/'' @ namespace"

definition proofpath_open :: "'h proofpath_env \<Rightarrow> (string \<Rightarrow> disk) \<Rightarrow> string \<Rightarrow>
    (string \<Rightarrow> disk) \<times> (ProofPathDurableError + ProofPathDurableLedger)" where
  "proofpath_open env disks ns =
     (case normalize_namespace ns of
        Inl e \<Rightarrow> (disks, Inl e)
      | Inr namespace \<Rightarrow>
          let path = namespace_path namespace
          in case store_open (pe_crc env) (disks path) of
               (dk, Inl e) \<Rightarrow> (disks(path := dk), Inl (PP_Storage e))
             | (dk, Inr s) \<Rightarrow>
                 (case proofpath_replay_from env s namespace of
                    Inl e \<Rightarrow> (disks(path := store_drop s), Inl e)
                  | Inr st \<Rightarrow> (disks(path := dk),
                      Inr \<lparr>pl_namespace = namespace, pl_store = s, pl_state = st, pl_poisoned = False\<rparr>)))"

definition record_body_of :: "'h proofpath_env \<Rightarrow> ProofPathDurableLedger \<Rightarrow> ProofPathDurableInput \<Rightarrow>
    ProofPathDurableRecordBody" where
  "record_body_of env l input =
     \<lparr>pb_schema = PROOFPATH_DURABLE_RECORD_SCHEMA, pb_profile = PROOFPATH_DURABLE_PROFILE,
      pb_sequence = ps_next_sequence (pl_state l), pb_namespace = pl_namespace l,
      pb_ingestion_key = ingestion_key env (pl_namespace l) (pi_logical_operation_id input),
      pb_logical_operation_id = pi_logical_operation_id input,
      pb_source_event_sha256 = sha256_ref (pe_sha256 env) (pi_source_event_bytes input),
      pb_source_receipt_ref = pi_source_receipt_ref input,
      pb_admission_report_sha256 = sha256_ref (pe_sha256 env) (pi_admission_report_bytes input),
      pb_producer_repository = PROOFPATH_PRODUCER_REPOSITORY,
      pb_producer_capability_id = PROOFPATH_CAPABILITY_ID,
      pb_producer_capability_commit = PROOFPATH_CAPABILITY_COMMIT,
      pb_consumer_repository = LIMINALDB_CONSUMER_REPOSITORY,
      pb_consumer_import_commit = LIMINALDB_PROOFPATH_IMPORT_COMMIT,
      pb_consumer_contract_blob_sha = LIMINALDB_AUDIT_EVENT_CONTRACT_BLOB,
      pb_valid_time_ms = pi_valid_time_ms input, pb_transaction_time_ms = pi_transaction_time_ms input,
      pb_source_event_bytes = pi_source_event_bytes input,
      pb_admission_report_bytes = pi_admission_report_bytes input,
      pb_storage_admission_ref = pi_storage_admission_ref input,
      pb_persistence_scope = PROOFPATH_PERSISTENCE_SCOPE, pb_storage_write_authorized = True,
      pb_execution_authorized = False, pb_mutation_authorized = False,
      pb_external_effects_authorized = False,
      pb_previous_record_hash = ps_head_record_hash (pl_state l)\<rparr>"

text \<open>The part of \<open>append\<close> for an input that is not present yet, up to the store.\<close>

definition prepare_record :: "'h proofpath_env \<Rightarrow> ProofPathDurableLedger \<Rightarrow> ProofPathDurableInput \<Rightarrow>
    ProofPathDurableError + (ProofPathDurableRecord \<times> ProofPathDurableState \<times> bytes)" where
  "prepare_record env l input =
     rbind (proofpath_digest env (record_body_of env l input)) (\<lambda>digest.
       let rec = \<lparr>pr_body = record_body_of env l input, pr_record_hash = digest\<rparr>
       in rbind (apply_record env (pl_namespace l) (pl_state l) rec) (\<lambda>candidate.
          rbind (encode_record env rec) (\<lambda>bs. Inr (rec, candidate, bs))))"

definition proofpath_append :: "'h proofpath_env \<Rightarrow> io_env \<Rightarrow> AppendFailpoint \<Rightarrow> ProofPathDurableInput \<Rightarrow>
    ProofPathDurableLedger \<Rightarrow> (ProofPathDurableLedger, ProofPathDurableError, ProofPathAppendOutcome) outcome" where
  "proofpath_append env io fp raw l =
     (if pl_poisoned l then (l, Inl PP_PoisonedAfterStorageFailure)
      else case proofpath_normalize_input raw of
             Inl e \<Rightarrow> (l, Inl e)
           | Inr input \<Rightarrow>
               (case bt_get (ps_records (pl_state l))
                       (ingestion_key env (pl_namespace l) (pi_logical_operation_id input)) of
                  Some existing \<Rightarrow>
                    if equivalent_semantic_input env existing input then (l, Inr (AlreadyPresent existing))
                    else (l, Inl IdempotencyConflict)
                | None \<Rightarrow>
                    (case prepare_record env l input of
                       Inl e \<Rightarrow> (l, Inl e)
                     | Inr (rec, candidate, bs) \<Rightarrow>
                         (case store_append (pe_crc env) io fp bs (pl_store l) of
                            (s, Inl e) \<Rightarrow> (l\<lparr>pl_store := s, pl_poisoned := True\<rparr>, Inl (PP_Storage e))
                          | (s, Inr _) \<Rightarrow> (l\<lparr>pl_store := s, pl_state := candidate\<rparr>, Inr (Inserted rec))))))"

definition proofpath_get :: "'h proofpath_env \<Rightarrow> ProofPathDurableLedger \<Rightarrow> string \<Rightarrow> ProofPathDurableRecord option" where
  "proofpath_get env l operation =
     (let logical = trim operation
      in if logical = [] then None
         else bt_get (ps_records (pl_state l)) (ingestion_key env (pl_namespace l) logical))"

definition proofpath_event_count :: "ProofPathDurableLedger \<Rightarrow> u64" where
  "proofpath_event_count l = saturating_sub (ps_next_sequence (pl_state l)) 1"

end
