(* ===== verification/ProofPath_Ledger.thy ===== *)
theory ProofPath_Ledger
  imports ProofPath
begin

text \<open>
  What the ProofPath ledger guarantees: every record it holds respects the authority boundary and
  carries the digests of its own bytes, a retry returns the record that is there, changed evidence
  under the same operation is refused, and an acknowledged record is found again after a reopening.
\<close>

section \<open>Accepted records\<close>

definition record_ok :: "'h proofpath_env \<Rightarrow> string \<Rightarrow> ProofPathDurableRecord \<Rightarrow> bool" where
  "record_ok env namespace rec \<longleftrightarrow>
     (let body = pr_body rec
      in pb_namespace body = namespace
         \<and> pb_ingestion_key body = ingestion_key env namespace (pb_logical_operation_id body)
         \<and> pb_logical_operation_id body \<noteq> [] \<and> trim (pb_logical_operation_id body) = pb_logical_operation_id body
         \<and> pb_source_event_sha256 body = sha256_ref (pe_sha256 env) (pb_source_event_bytes body)
         \<and> pb_admission_report_sha256 body = sha256_ref (pe_sha256 env) (pb_admission_report_bytes body)
         \<and> proofpath_digest env body = Inr (pr_record_hash rec)
         \<and> pb_valid_time_ms body \<le> pb_transaction_time_ms body
         \<and> pb_persistence_scope body = PROOFPATH_PERSISTENCE_SCOPE \<and> pb_storage_write_authorized body
         \<and> \<not> pb_execution_authorized body \<and> \<not> pb_mutation_authorized body
         \<and> \<not> pb_external_effects_authorized body)"

definition proofpath_inv :: "'h proofpath_env \<Rightarrow> string \<Rightarrow> ProofPathDurableState \<Rightarrow> bool" where
  "proofpath_inv env namespace st \<longleftrightarrow>
     bt_wf (ps_records st) \<and>
     (\<forall>k rec. bt_get (ps_records st) k = Some rec \<longrightarrow> record_ok env namespace rec \<and> pb_ingestion_key (pr_body rec) = k)"

lemma apply_record_shape:
  assumes "apply_record env namespace st rec = Inr st'"
  shows "record_ok env namespace rec"
    and "pb_sequence (pr_body rec) = ps_next_sequence st"
    and "pb_previous_record_hash (pr_body rec) = ps_head_record_hash st"
    and "bt_get (ps_records st) (pb_ingestion_key (pr_body rec)) = None"
    and "st' = \<lparr>ps_next_sequence = ps_next_sequence st + 1, ps_head_record_hash = Some (pr_record_hash rec),
                ps_records = bt_insert (pb_ingestion_key (pr_body rec)) rec (ps_records st)\<rparr>"
  using assms
  by (auto simp: apply_record_def Let_def result_simps record_ok_def bt_contains_key_def not_less)

lemma apply_record_inv:
  assumes "apply_record env namespace st rec = Inr st'" "proofpath_inv env namespace st"
  shows "proofpath_inv env namespace st'"
  using assms(2) apply_record_shape(1,5) [OF assms(1)] by (auto simp: proofpath_inv_def)

lemma proofpath_inv_default [simp]: "proofpath_inv env namespace proofpath_default"
  by (simp add: proofpath_inv_def proofpath_default_def)

lemma records_inv:
  "fold_result (apply_record env namespace) proofpath_default recs = Inr st \<Longrightarrow> proofpath_inv env namespace st"
  by (rule fold_result_invariant [where I = "proofpath_inv env namespace"]) (auto intro: apply_record_inv)

interpretation proofpath_chain: hash_chain "apply_record env namespace" proofpath_default ps_head_record_hash
    pr_record_hash "\<lambda>rec. pb_previous_record_hash (pr_body rec)" "ser_injective (pe_ser_body env)"
    "\<lambda>a b. ser_collision (pe_sha256 env) (pe_ser_body env) (pr_body a) (pr_body b)"
  for env namespace
proof (unfold_locales, goal_cases)
  case 1
  show ?case by (simp add: proofpath_default_def)
next
  case (2 s e s')
  from apply_record_shape(5) [OF this] show ?case by simp
next
  case (3 s e s')
  then show ?case by (rule apply_record_shape(3))
next
  case (4 s e s' t f t')
  obtain x where x: "pe_ser_body env (pr_body e) = Inr x" "pr_record_hash e = sha256_ref (pe_sha256 env) x"
    using apply_record_shape(1) [OF 4(2)] by (auto simp: record_ok_def proofpath_digest_def Let_def result_simps)
  obtain y where y: "pe_ser_body env (pr_body f) = Inr y" "pr_record_hash f = sha256_ref (pe_sha256 env) y"
    using apply_record_shape(1) [OF 4(3)] by (auto simp: record_ok_def proofpath_digest_def Let_def result_simps)
  have "pr_body e = pr_body f \<or> ser_collision (pe_sha256 env) (pe_ser_body env) (pr_body e) (pr_body f)"
    using same_reference [OF 4(1) x(1) y(1)] x(2) y(2) 4(4) by simp
  then show ?case using 4(4) by auto
qed

section \<open>The ledger as an event log\<close>

definition proofpath_codec :: "'h proofpath_env \<Rightarrow> bool" where
  "proofpath_codec env \<longleftrightarrow>
     (\<forall>rec bs. pe_ser_record env rec = Inr bs \<longrightarrow> pe_de_record env bs = Inr rec)"

interpretation pp: event_log "\<lambda>s g. proofpath_codec env \<and> store_rep (pe_crc env) s g" log_of segs_le
    segment_room "\<lambda>(io, fp). store_append (pe_crc env) io fp" "store_reopen_again (pe_crc env)"
    "replay_records (pe_crc env) PP_Storage offset_start" "offset_at (pe_crc env)" end_offset
    "replay_records (pe_crc env) PP_Storage" "encode_record env" "decode_record env"
    "apply_record env namespace" proofpath_default
  for env namespace
proof (unfold_locales, goal_cases)
  case (1 s g b n x s' off)
  then show ?case using wal.append_ok [of "pe_crc env" s g b n x s' off] by auto
next
  case (2 s g b n x s' e s'')
  then show ?case using wal.append_err [of "pe_crc env" s g b n x s' e s''] by auto
next
  case (3 s g)
  then show ?case using wal.reopen_ok by auto
next
  case (4 s g step st)
  then show ?case by (elim conjE) (rule wal.replay_log)
next
  case (5 g g' off n)
  then show ?case by (rule wal.pos_le)
next
  case (6 s g)
  then show ?case using wal.pos_end by blast
next
  case (7 s g off n step st)
  then show ?case by (elim conjE) (rule wal.replay_pos)
next
  case (8 s g ev b)
  then show ?case by (auto simp: encode_record_def decode_record_def proofpath_codec_def map_err_Inr_iff)
qed

abbreviation proofpath_coherent :: "'h proofpath_env \<Rightarrow> string \<Rightarrow> store \<Rightarrow> segments \<Rightarrow> ProofPathDurableState \<Rightarrow> bool" where
  "proofpath_coherent env namespace \<equiv>
     coherent_log (\<lambda>s g. proofpath_codec env \<and> store_rep (pe_crc env) s g) log_of (proofpath_step env namespace)
       proofpath_default"

lemmas proofpath_log = pp.coherent_replay pp.commit pp.abort pp.restart
lemmas proofpath_laws = proofpath_log [folded proofpath_step_def]

definition proofpath_rep :: "'h proofpath_env \<Rightarrow> ProofPathDurableLedger \<Rightarrow> segments \<Rightarrow> bool" where
  "proofpath_rep env l segs \<longleftrightarrow>
     proofpath_coherent env (pl_namespace l) (pl_store l) segs (pl_state l)
     \<and> normalize_namespace (pl_namespace l) = Inr (pl_namespace l)"

lemma proofpath_step_inv:
  "proofpath_step env namespace st bs = Inr st' \<Longrightarrow> proofpath_inv env namespace st \<Longrightarrow> proofpath_inv env namespace st'"
  by (auto simp: proofpath_step_def decode_then_def rbind_Inr_iff intro: apply_record_inv)

lemma proofpath_rep_inv: "proofpath_rep env l segs \<Longrightarrow> proofpath_inv env (pl_namespace l) (pl_state l)"
  by (auto simp: proofpath_rep_def coherent_log_def intro: proofpath_step_inv
      elim!: fold_result_invariant [where I = "proofpath_inv env (pl_namespace l)"])

section \<open>Reopening\<close>

lemma proofpath_open_coherent:
  assumes "normalize_namespace ns = Inr ns" "store_open (pe_crc env) (disks (namespace_path ns)) = (dk, Inr s)"
    and coh: "proofpath_coherent env ns s segs st"
  shows "\<exists>l. proofpath_open env disks ns = (disks(namespace_path ns := dk), Inr l) \<and> pl_state l = st
    \<and> pl_namespace l = ns \<and> \<not> pl_poisoned l \<and> proofpath_rep env l segs"
proof -
  have "proofpath_replay_from env s ns = Inr st"
    using proofpath_laws(1) [OF coh] by (simp add: proofpath_replay_from_def)
  then show ?thesis using assms by (simp add: proofpath_open_def Let_def proofpath_rep_def)
qed

lemma proofpath_reopen:
  assumes rep: "proofpath_rep env l segs"
    and disk: "disks (namespace_path (pl_namespace l)) = store_drop (pl_store l)"
  shows "\<exists>dk l'. proofpath_open env disks (pl_namespace l) = (disks(namespace_path (pl_namespace l) := dk), Inr l')
    \<and> pl_state l' = pl_state l \<and> pl_namespace l' = pl_namespace l \<and> \<not> pl_poisoned l' \<and> proofpath_rep env l' segs"
proof -
  have coh: "proofpath_coherent env (pl_namespace l) (pl_store l) segs (pl_state l)"
    using rep by (simp add: proofpath_rep_def)
  obtain s' where s': "store_reopen_again (pe_crc env) (pl_store l) = Inr s'"
      "proofpath_coherent env (pl_namespace l) s' segs (pl_state l)"
    using proofpath_laws(4) [OF coh] by blast
  obtain dk where "store_open (pe_crc env) (store_drop (pl_store l)) = (dk, Inr s')"
    using s'(1) by (metis store_reopen_again_def prod.collapse)
  then have "store_open (pe_crc env) (disks (namespace_path (pl_namespace l))) = (dk, Inr s')"
    using disk by simp
  moreover have "normalize_namespace (pl_namespace l) = Inr (pl_namespace l)"
    using rep by (simp add: proofpath_rep_def)
  ultimately show ?thesis using proofpath_open_coherent s'(2) by blast
qed

section \<open>Appending\<close>

lemma prepare_record_Inr:
  assumes "prepare_record env l input = Inr (rec, candidate, bs)"
  shows "apply_record env (pl_namespace l) (pl_state l) rec = Inr candidate" "encode_record env rec = Inr bs"
    "pr_body rec = record_body_of env l input"
  using assms by (auto simp: prepare_record_def Let_def result_simps)

lemma proofpath_append_run:
  assumes "\<not> pl_poisoned l" "proofpath_normalize_input raw = Inr input"
  shows "proofpath_append env io fp raw l =
    (case bt_get (ps_records (pl_state l)) (ingestion_key env (pl_namespace l) (pi_logical_operation_id input)) of
       Some existing \<Rightarrow>
         if equivalent_semantic_input env existing input then (l, Inr (AlreadyPresent existing))
         else (l, Inl IdempotencyConflict)
     | None \<Rightarrow>
         (case prepare_record env l input of
            Inl e \<Rightarrow> (l, Inl e)
          | Inr (rec, candidate, bs) \<Rightarrow>
              (case store_append (pe_crc env) io fp bs (pl_store l) of
                 (s, Inl e) \<Rightarrow> (l\<lparr>pl_store := s, pl_poisoned := True\<rparr>, Inl (PP_Storage e))
               | (s, Inr _) \<Rightarrow> (l\<lparr>pl_store := s, pl_state := candidate\<rparr>, Inr (Inserted rec)))))"
  using assms by (simp add: proofpath_append_def)

lemma proofpath_append_accepted:
  assumes "proofpath_append env io fp raw l = (l', r)" "r = Inr out \<or> l' \<noteq> l"
  obtains input where "\<not> pl_poisoned l" "proofpath_normalize_input raw = Inr input"
  using assms by (cases "pl_poisoned l"; cases "proofpath_normalize_input raw") (auto simp: proofpath_append_def)

text \<open>A new record: prepared, written, and the state advanced.\<close>

lemma proofpath_append_inserted:
  assumes run: "proofpath_append env io fp raw l = (l', Inr (Inserted rec))"
  obtains input candidate bs s off where "proofpath_normalize_input raw = Inr input" "\<not> pl_poisoned l"
    "prepare_record env l input = Inr (rec, candidate, bs)"
    "store_append (pe_crc env) io fp bs (pl_store l) = (s, Inr off)"
    "l' = l\<lparr>pl_store := s, pl_state := candidate\<rparr>"
proof -
  obtain input where input: "\<not> pl_poisoned l" "proofpath_normalize_input raw = Inr input"
    using proofpath_append_accepted [OF run] by blast
  note step = run [unfolded proofpath_append_run [OF input]]
  have none: "bt_get (ps_records (pl_state l)) (ingestion_key env (pl_namespace l) (pi_logical_operation_id input)) = None"
    using step by (auto split: option.splits if_splits)
  obtain rec' candidate bs where prep: "prepare_record env l input = Inr (rec', candidate, bs)"
    using step none by (cases "prepare_record env l input") auto
  obtain s q where q: "store_append (pe_crc env) io fp bs (pl_store l) = (s, q)"
    by (cases "store_append (pe_crc env) io fp bs (pl_store l)")
  obtain off where off: "q = Inr off" using step none prep q by (cases q) auto
  show ?thesis
    using that [OF input(2,1), of candidate bs s off] step none prep q off by simp
qed

text \<open>A retry finds the record of the first attempt.\<close>

lemma equivalent_own_record:
  "pr_body rec = record_body_of env l input \<Longrightarrow> equivalent_semantic_input env rec input"
  by (simp add: equivalent_semantic_input_def record_body_of_def)

lemma proofpath_retry:
  assumes run: "proofpath_append env io fp raw l = (l', Inr out)"
    and same: "pl_namespace l2 = pl_namespace l'" "pl_state l2 = pl_state l'" "\<not> pl_poisoned l2"
  shows "proofpath_append env io' fp' raw l2 = (l2, Inr (AlreadyPresent (outcome_record out)))"
proof -
  obtain input where input: "\<not> pl_poisoned l" "proofpath_normalize_input raw = Inr input"
    using proofpath_append_accepted [OF run] by blast
  let ?k = "ingestion_key env (pl_namespace l) (pi_logical_operation_id input)"
  have "pl_namespace l' = pl_namespace l \<and> bt_get (ps_records (pl_state l')) ?k = Some (outcome_record out)
      \<and> equivalent_semantic_input env (outcome_record out) input"
  proof (cases out)
    case (AlreadyPresent rec)
    then show ?thesis
      using run [unfolded proofpath_append_run [OF input]]
      by (auto split: option.splits if_splits sum.splits prod.splits)
  next
    case (Inserted rec)
    obtain input' candidate bs s off where new: "proofpath_normalize_input raw = Inr input'"
        "prepare_record env l input' = Inr (rec, candidate, bs)" "l' = l\<lparr>pl_store := s, pl_state := candidate\<rparr>"
      using proofpath_append_inserted [OF run [unfolded Inserted]] by metis
    then have "input' = input" using input(2) by simp
    note ev = prepare_record_Inr [OF new(2) [unfolded this]]
    have "pb_ingestion_key (pr_body rec) = ?k" by (simp add: ev(3) record_body_of_def)
    then show ?thesis
      using apply_record_shape(5) [OF ev(1)] equivalent_own_record [OF ev(3)] new(3) Inserted by simp
  qed
  then show ?thesis using same by (simp add: proofpath_append_run [OF same(3) input(2)])
qed

text \<open>An acknowledged append keeps the ledger coherent.\<close>

lemma proofpath_append_ok:
  assumes rep: "proofpath_rep env l segs" and room: "segment_room segs (Suc n)"
    and run: "proofpath_append env io fp raw l = (l', Inr (Inserted rec))"
    and fits: "\<forall>bs. pe_ser_record env rec = Inr bs \<longrightarrow> frame_ok bs"
  shows "\<exists>segs'. proofpath_rep env l' segs' \<and> segment_room segs' n"
proof -
  have coh: "proofpath_coherent env (pl_namespace l) (pl_store l) segs (pl_state l)"
    using rep by (simp add: proofpath_rep_def)
  obtain input candidate bs s off where new: "prepare_record env l input = Inr (rec, candidate, bs)"
      "store_append (pe_crc env) io fp bs (pl_store l) = (s, Inr off)" "l' = l\<lparr>pl_store := s, pl_state := candidate\<rparr>"
    using proofpath_append_inserted [OF run] by metis
  note ev = prepare_record_Inr [OF new(1)]
  have "frame_ok bs" using ev(2) fits by (simp add: encode_record_def map_err_Inr_iff)
  with proofpath_laws(2) [OF coh ev(1,2) _ room, of "(io, fp)" s off] new(2)
  obtain segs' where "proofpath_coherent env (pl_namespace l) s segs' candidate" "segment_room segs' n"
    by auto
  then show ?thesis using rep by (auto simp: proofpath_rep_def new(3))
qed

lemma proofpath_append_failed:
  assumes run: "proofpath_append env io fp raw l = (l', Inl e)" "l' \<noteq> l"
  obtains input rec candidate bs s w where "proofpath_normalize_input raw = Inr input" "\<not> pl_poisoned l"
    "bt_get (ps_records (pl_state l)) (ingestion_key env (pl_namespace l) (pi_logical_operation_id input)) = None"
    "prepare_record env l input = Inr (rec, candidate, bs)"
    "store_append (pe_crc env) io fp bs (pl_store l) = (s, Inl w)" "e = PP_Storage w"
    "l' = l\<lparr>pl_store := s, pl_poisoned := True\<rparr>"
proof -
  obtain input where input: "\<not> pl_poisoned l" "proofpath_normalize_input raw = Inr input"
    using proofpath_append_accepted [OF run(1)] run(2) by blast
  note step = run(1) [unfolded proofpath_append_run [OF input]]
  have none: "bt_get (ps_records (pl_state l)) (ingestion_key env (pl_namespace l) (pi_logical_operation_id input)) = None"
    using step run(2) by (auto split: option.splits if_splits)
  obtain rec candidate bs where prep: "prepare_record env l input = Inr (rec, candidate, bs)"
    using step none run(2) by (cases "prepare_record env l input") auto
  obtain s q where q: "store_append (pe_crc env) io fp bs (pl_store l) = (s, q)"
    by (cases "store_append (pe_crc env) io fp bs (pl_store l)")
  obtain w where w: "q = Inl w" using step none prep q by (cases q) auto
  show ?thesis using that [OF input(2,1) none prep] step none prep q w by simp
qed

lemma prepare_record_cong:
  "pl_namespace l2 = pl_namespace l \<Longrightarrow> pl_state l2 = pl_state l \<Longrightarrow> prepare_record env l2 input = prepare_record env l input"
  by (simp add: prepare_record_def record_body_of_def)

text \<open>After a failed append, the reopened ledger has the old state or the one with the new record.\<close>

lemma proofpath_abort:
  assumes rep: "proofpath_rep env l segs" and room: "segment_room segs (Suc n)"
    and run: "proofpath_append env io fp raw l = (l', Inl e)" "l' \<noteq> l"
    and fits: "\<And>rec bs. pe_ser_record env rec = Inr bs \<Longrightarrow> frame_ok bs"
    and disk: "disks (namespace_path (pl_namespace l)) = store_drop (pl_store l')"
    and reopened: "store_open (pe_crc env) (store_drop (pl_store l')) = (dk, Inr s2)"
  obtains input rec candidate bs l2 segs' where "proofpath_normalize_input raw = Inr input"
    "bt_get (ps_records (pl_state l)) (ingestion_key env (pl_namespace l) (pi_logical_operation_id input)) = None"
    "prepare_record env l input = Inr (rec, candidate, bs)"
    "proofpath_open env disks (pl_namespace l) = (disks(namespace_path (pl_namespace l) := dk), Inr l2)"
    "pl_state l2 \<in> {pl_state l, candidate}" "pl_namespace l2 = pl_namespace l" "\<not> pl_poisoned l2"
    "proofpath_rep env l2 segs'" "segment_room segs' n"
proof -
  have coh: "proofpath_coherent env (pl_namespace l) (pl_store l) segs (pl_state l)"
    and ns: "normalize_namespace (pl_namespace l) = Inr (pl_namespace l)"
    using rep by (auto simp: proofpath_rep_def)
  obtain input rec candidate bs s w where fail: "proofpath_normalize_input raw = Inr input"
    "bt_get (ps_records (pl_state l)) (ingestion_key env (pl_namespace l) (pi_logical_operation_id input)) = None"
    "prepare_record env l input = Inr (rec, candidate, bs)"
    "store_append (pe_crc env) io fp bs (pl_store l) = (s, Inl w)" "l' = l\<lparr>pl_store := s, pl_poisoned := True\<rparr>"
    using proofpath_append_failed [OF run] by metis
  note ev = prepare_record_Inr [OF fail(3)]
  have ok: "frame_ok bs" using fits ev(2) by (simp add: encode_record_def map_err_Inr_iff)
  have "store_reopen_again (pe_crc env) s = Inr s2" using reopened fail(5) by (simp add: store_reopen_again_def)
  with proofpath_laws(3) [OF coh ev(1,2) ok room, of "(io, fp)" s w s2] fail(4)
  obtain segs' st where segs': "proofpath_coherent env (pl_namespace l) s2 segs' st" "st \<in> {pl_state l, candidate}"
      "segment_room segs' n" by auto
  have dk: "store_open (pe_crc env) (disks (namespace_path (pl_namespace l))) = (dk, Inr s2)"
    using reopened disk by simp
  show ?thesis
    using that [OF fail(1-3)] proofpath_open_coherent [of "pl_namespace l" env disks dk s2, OF ns dk segs'(1)] segs'(2,3)
    by metis
qed

text \<open>The retry after it ends with the record of the first attempt.\<close>

lemma proofpath_crash_retry:
  assumes rep: "proofpath_rep env l segs" and room: "segment_room segs (Suc n)"
    and run: "proofpath_append env io fp raw l = (l', Inl e)" "l' \<noteq> l"
    and fits: "\<And>rec bs. pe_ser_record env rec = Inr bs \<Longrightarrow> frame_ok bs"
    and disk: "disks (namespace_path (pl_namespace l)) = store_drop (pl_store l')"
    and reopened: "store_open (pe_crc env) (store_drop (pl_store l')) = (dk, Inr s2)"
  shows "\<exists>l2 l3 out. proofpath_open env disks (pl_namespace l) = (disks(namespace_path (pl_namespace l) := dk), Inr l2)
    \<and> proofpath_append env (\<lambda>_. None) Disabled raw l2 = (l3, Inr out)
    \<and> (\<exists>input candidate bs. proofpath_normalize_input raw = Inr input
         \<and> prepare_record env l input = Inr (outcome_record out, candidate, bs) \<and> pl_state l3 = candidate)"
proof -
  obtain input rec candidate bs l2 segs' where fail: "proofpath_normalize_input raw = Inr input"
    "bt_get (ps_records (pl_state l)) (ingestion_key env (pl_namespace l) (pi_logical_operation_id input)) = None"
    "prepare_record env l input = Inr (rec, candidate, bs)"
    and l2: "proofpath_open env disks (pl_namespace l) = (disks(namespace_path (pl_namespace l) := dk), Inr l2)"
      "pl_state l2 \<in> {pl_state l, candidate}" "pl_namespace l2 = pl_namespace l" "\<not> pl_poisoned l2" "proofpath_rep env l2 segs'"
    by (rule proofpath_abort [of env l segs n io fp raw l' e disks dk s2]) (use assms in auto)
  note ev = prepare_record_Inr [OF fail(3)]
  have key: "pb_ingestion_key (pr_body rec) = ingestion_key env (pl_namespace l) (pi_logical_operation_id input)"
    by (simp add: ev(3) record_body_of_def)
  show ?thesis
  proof (cases "pl_state l2 = candidate")
    case True
    then have "bt_get (ps_records (pl_state l2)) (ingestion_key env (pl_namespace l2) (pi_logical_operation_id input)) = Some rec"
      using apply_record_shape(5) [OF ev(1)] key l2 by simp
    then have "proofpath_append env (\<lambda>_. None) Disabled raw l2 = (l2, Inr (AlreadyPresent rec))"
      using equivalent_own_record [OF ev(3)] by (simp add: proofpath_append_run [OF l2(4) fail(1)])
    then show ?thesis using l2(1,2) fail(1,3) True by fastforce
  next
    case False
    then have st: "pl_state l2 = pl_state l" using l2(2) by auto
    have "store_rep (pe_crc env) (pl_store l2) segs'" using l2(5) by (simp add: proofpath_rep_def coherent_log_def)
    then obtain s3 off where "store_append (pe_crc env) (\<lambda>_. None) Disabled bs (pl_store l2) = (s3, Inr off)"
      using store_append_succeeds [of "pe_crc env" "pl_store l2" segs' "\<lambda>_. None" bs] by auto
    then have "proofpath_append env (\<lambda>_. None) Disabled raw l2
        = (l2\<lparr>pl_store := s3, pl_state := candidate\<rparr>, Inr (Inserted rec))"
      using fail(2,3) st l2(3) prepare_record_cong [OF l2(3) st, of env input]
      by (simp add: proofpath_append_run [OF l2(4) fail(1)])
    then show ?thesis using l2(1) fail(1,3) by fastforce
  qed
qed

section \<open>Keys and namespaces\<close>

text \<open>Different operations of a namespace share a key only through a digest collision.\<close>

lemma ingestion_key_inject:
  assumes "ingestion_key env ns a = ingestion_key env ns b" "a \<noteq> b"
  shows "\<exists>x y. x = as_bytes (ns @ [CHR 0x00] @ a @ [CHR 0x00] @ RECORD_KIND)
    \<and> y = as_bytes (ns @ [CHR 0x00] @ b @ [CHR 0x00] @ RECORD_KIND) \<and> x \<noteq> y \<and> pe_sha256 env x = pe_sha256 env y"
  using assms by (simp add: ingestion_key_def sha256_ref_def)

lemma normalize_namespace_safe:
  assumes "normalize_namespace ns = Inr ns'"
  shows "ns' = ns \<and> ns \<noteq> [] \<and> length ns \<le> 64 \<and> CHR ''/'' \<notin> set ns \<and> CHR 0x00 \<notin> set ns \<and> hd ns \<noteq> CHR ''.''"
proof -
  have ns: "ns' = ns" "ns \<noteq> []" "length ns \<le> 64"
    "\<forall>c\<in>set ns. is_ascii_alphanumeric c \<or> c \<in> {CHR ''.'', CHR ''_'', CHR ''-''}" "is_ascii_alphanumeric (hd ns)"
    using assms by (auto simp: normalize_namespace_def Let_def list_all_iff split: if_splits)
  have "\<not> is_ascii_alphanumeric (CHR ''/'')" "\<not> is_ascii_alphanumeric (CHR 0x00)" "\<not> is_ascii_alphanumeric (CHR ''.'')"
    by (simp_all add: is_ascii_alphanumeric_def less_eq_char_def)
  then show ?thesis using ns by auto
qed

lemma proofpath_open_isolated:
  assumes "proofpath_open env disks ns = (disks', r)" "other \<noteq> namespace_path ns"
  shows "disks' other = disks other"
proof (cases "normalize_namespace ns")
  case (Inl e)
  then show ?thesis using assms by (simp add: proofpath_open_def)
next
  case (Inr ns')
  then have "ns' = ns" using normalize_namespace_safe by blast
  then show ?thesis
    using assms Inr by (auto simp: proofpath_open_def Let_def split: prod.splits sum.splits)
qed

end
