(* ===== verification/Sample_Crates.thy ===== *)
theory Sample_Crates
  imports Append_Log Hash_Chain
begin

text \<open>
  Concrete functions for the crates the development takes as parameters, used where a theorem is
  applied to a concrete run: the CRC-32 of the \<open>crc32fast\<close> crate (reflected polynomial
  \<open>0xEDB88320\<close>), a digest of 32 bytes, and serializers for a fixed table of values, whose decoder
  inverts them.  The empty root directory and the store opened on it are the start of every run.
\<close>

section \<open>CRC-32\<close>

unbundle bit_operations_syntax

definition crc32_bit :: "u32 \<Rightarrow> u32" where
  "crc32_bit c = (if bit c 0 then drop_bit 1 c XOR 0xEDB88320 else drop_bit 1 c)"

primrec crc32_bits :: "nat \<Rightarrow> u32 \<Rightarrow> u32" where
  "crc32_bits 0 c = c"
| "crc32_bits (Suc n) c = crc32_bits n (crc32_bit c)"

definition crc32_byte :: "u8 \<Rightarrow> u32 \<Rightarrow> u32" where
  "crc32_byte b c = crc32_bits 8 (c XOR ucast b)"

definition crc32 :: "u32 crc_hasher" where
  "crc32 = \<lparr>crc_new = 0xFFFFFFFF, crc_update = (\<lambda>h bs. fold crc32_byte bs h), crc_finalize = (\<lambda>h. NOT h)\<rparr>"

lemma crc32_streaming [simp]: "crc_streaming crc32"
  by (simp add: crc_streaming_def crc32_def)

section \<open>Digest and table codecs\<close>

definition pad_digest :: "bytes \<Rightarrow> bytes" where
  "pad_digest bs = take 32 (bs @ replicate 32 0)"

lemma length_pad_digest [simp]: "length (pad_digest bs) = 32"
  by (simp add: pad_digest_def)

definition ser_table :: "'v list \<Rightarrow> 'v \<Rightarrow> string + bytes" where
  "ser_table table v =
     (case find_index (\<lambda>w. w = v) table of
        Some i \<Rightarrow> if i < 256 then Inr [word_of_nat i] else Inl ''table'' | None \<Rightarrow> Inl ''table'')"

fun de_table :: "'v list \<Rightarrow> bytes \<Rightarrow> string + 'v" where
  "de_table table [i] = (if unat i < length table then Inr (table ! unat i) else Inl ''table'')"
| "de_table table _ = Inl ''table''"

lemma find_index_Some: "find_index P xs = Some i \<Longrightarrow> i < length xs \<and> P (xs ! i)"
  by (induction xs arbitrary: i) (auto split: if_splits)

lemma ser_de_table: "ser_table table v = Inr bs \<Longrightarrow> de_table table bs = Inr v"
  by (auto simp: ser_table_def unat_word_of_nat_u8 dest!: find_index_Some split: option.splits if_splits)

lemma ser_table_injective [simp]: "ser_injective (ser_table table)"
  unfolding ser_injective_def by (metis ser_de_table sum.inject(2))

lemma ser_table_frame: "ser_table table v = Inr bs \<Longrightarrow> frame_ok bs"
  by (auto simp: ser_table_def frame_ok_def split: option.splits if_splits)

text \<open>References: the digest of one byte.\<close>

definition sample_ref :: "u8 \<Rightarrow> string" where
  "sample_ref i = sha256_ref pad_digest [i]"

lemma sha256_ref_pad_valid [simp]: "is_sha256_ref (sha256_ref pad_digest bs)"
  unfolding sha256_ref_def by (rule is_sha256_ref_of_hex) (simp add: pad_digest_def)

lemma sample_ref_valid [simp]: "is_sha256_ref (sample_ref i)"
  by (simp add: sample_ref_def)

lemma sample_ref_inject [simp]: "sample_ref i = sample_ref j \<longleftrightarrow> i = j"
  by (simp add: sample_ref_def sha256_ref_def pad_digest_def)

lemma trim_sample [simp]: "trim ''t'' = ''t''" "trim ''s'' = ''s''"
  by (rule trim_graphic; simp add: ascii_graphic_def)+

section \<open>The empty root\<close>

definition empty_disk :: disk where
  "empty_disk = \<lparr>d_data = [], d_snap = [], d_manifest = None, d_locked = False\<rparr>"

text \<open>The store after the records \<open>ps\<close>, all in the first segment, and a snapshot directory.\<close>

definition log_store :: "'h crc_hasher \<Rightarrow> bytes list \<Rightarrow> directory \<Rightarrow> store" where
  "log_store crc ps snap =
     \<lparr>st_disk = \<lparr>d_data = [(wal_path 1, RegularFile (frames crc ps))], d_snap = snap, d_manifest = None,
        d_locked = True\<rparr>,
      st_writer = \<lparr>ww_rotation = DEFAULT_SEGMENT_SIZE, ww_segment = 1, ww_size = length (frames crc ps),
        ww_cursor = length (frames crc ps)\<rparr>\<rparr>"

lemma open_empty: "store_open crc empty_disk = (st_disk (log_store crc [] []), Inr (log_store crc [] []))"
  by (simp add: store_open_def store_open_with_rotation_def empty_disk_def log_store_def writer_open_def
      list_segments_def numbered_files_def DEFAULT_SEGMENT_SIZE_def sort_dedup_def Let_def)

lemma write_at_length: "length f = n \<Longrightarrow> write_at n bs f = f @ bs"
  by (auto simp: write_at_end)

text \<open>An append with no failing call, and one whose \<open>sync_all\<close> fails after the bytes were written.\<close>

abbreviation no_faults :: io_env where
  "no_faults \<equiv> \<lambda>_. None"

lemma log_store_frame:
  assumes "io WriteLength = None" "io WritePayload = None" "io WriteChecksum = None" "io FlushSegment = None"
    and "length (frames crc ps) + (length b + 8) \<le> DEFAULT_SEGMENT_SIZE"
  shows "writer_append crc io Disabled b (d_data (st_disk (log_store crc ps snap)), st_writer (log_store crc ps snap)) =
    ((d_data (st_disk (log_store crc (ps @ [b]) snap)), st_writer (log_store crc (ps @ [b]) snap)),
     Inr (Offset 1 (length (frames crc ps))))"
  using assms
  by (simp add: writer_append_def write_frame_def log_store_def write_all_def write_at_length dir_file_def
      io_step_def check_def require_def Let_def frame_def)

lemma log_store_append:
  assumes "length (frames crc ps) + (length b + 8) \<le> DEFAULT_SEGMENT_SIZE"
  shows "store_append crc no_faults Disabled b (log_store crc ps snap) =
    (log_store crc (ps @ [b]) snap, Inr (Offset 1 (length (frames crc ps))))"
  using log_store_frame [of no_faults crc ps b snap] assms
  by (simp add: store_append_def Let_def io_step_def check_def require_def log_store_def)

lemma log_store_rep:
  assumes crc: "crc_streaming crc" and ok: "list_all frame_ok ps" "length (frames crc ps) \<le> DEFAULT_SEGMENT_SIZE"
  shows "store_rep crc (log_store crc ps snap) [(1, ps)]"
proof -
  have parse: "parse_u64 (format_08 (Suc 0)) = Some (Suc 0)" using segment_name_roundtrip [of 1] by simp
  then have "numbered_files ''wal'' [(wal_path 1, RegularFile f)] = [1]" for f
    by (simp add: numbered_files_def map_filter_simps)
  then show ?thesis
    using assms parse
    by (auto simp: store_rep_def dir_rep_def writer_at_def log_store_def segment_ok_def dir_file_def
        canonical_names_def bt_wf_Cons DEFAULT_SEGMENT_SIZE_def)
qed

lemma log_store_unsynced:
  assumes "length (frames crc ps) + (length b + 8) \<le> DEFAULT_SEGMENT_SIZE"
  shows "store_append crc sync_fails Disabled b (log_store crc ps snap) =
    (log_store crc (ps @ [b]) snap, Inl (IoError SyncSegment))"
  using log_store_frame [of sync_fails crc ps b snap] assms
  by (simp add: store_append_def Let_def io_step_def check_def require_def log_store_def sync_fails_def)

lemma log_store_reopen:
  assumes crc: "crc_streaming crc" and ok: "list_all frame_ok ps" "length (frames crc ps) \<le> DEFAULT_SEGMENT_SIZE"
  shows "store_open crc (store_drop (log_store crc ps snap)) =
    (st_disk (log_store crc ps snap), Inr (log_store crc ps snap))"
proof -
  have rep: "dir_rep crc [(wal_path 1, RegularFile (frames crc ps))] [(1, ps)] []"
    using log_store_rep [OF assms, of snap] by (simp add: store_rep_def log_store_def)
  have "recover_last_segment_tail crc (frames crc ps) = Inr (frames crc ps, length (frames crc ps))"
    using recover_intact [OF crc ok(1)] ok(2) by (simp add: DEFAULT_SEGMENT_SIZE_def)
  then show ?thesis
    using dir_rep_segments [OF rep]
    by (simp add: store_open_def store_open_with_rotation_def store_drop_def log_store_def writer_open_def Let_def
        DEFAULT_SEGMENT_SIZE_def)
qed

end
