(* ===== verification/Wal_Open.thy ===== *)
theory Wal_Open
  imports Wal_Store
begin

text \<open>
  Opening a store when its system calls can fail, \<open>Store::open\<close> and \<open>WalWriter::open\<close> of
  \<open>src/liminal-db/crates/liminal-store/src/wal.rs\<close>.  An \<open>open_env\<close> says which calls fail: making the
  directories and the lock file, listing the segments, opening the last one, syncing a segment and the
  directory when it was created, reading it, and truncating, syncing and seeking in it.  A failed opening
  drops the lock.  The lemmas show that without faults this is the opening of the write-ahead log, and that
  an opening that failed can be tried again: the result is what a first opening without faults gives.
\<close>

section \<open>Openings with failing calls\<close>

datatype open_call =
  MakeDirectories | LockFile | ListSegments | OpenSegment | SyncCreated | SyncCreatedDir
  | ReadSegment | TruncateTail | SyncTruncated | SeekEnd

type_synonym open_env = "open_call \<Rightarrow> bool"

datatype open_error = OpenCallFailed open_call | OpenRefused wal_error

definition open_step :: "open_env \<Rightarrow> open_call \<Rightarrow> 's \<Rightarrow> ('s, open_error, unit) outcome" where
  "open_step io call s = check (\<not> io call) (OpenCallFailed call) s"

text \<open>\<open>recover_last_segment_tail\<close> on the file of segment \<open>seg\<close>.  A read that fails stops the scan with the
  file as it is; the scan shortens the file exactly when it found a torn tail.\<close>

definition recover_file_io :: "'h crc_hasher \<Rightarrow> open_env \<Rightarrow> string \<Rightarrow> bytes \<Rightarrow> directory \<Rightarrow> (directory, open_error, nat) outcome" where
  "recover_file_io crc io name f d =
     sbind (open_step io ReadSegment d) (\<lambda>d _.
       case recover_last_segment_tail crc f of
         Inl e \<Rightarrow> (d, Inl (OpenRefused e))
       | Inr (f', len) \<Rightarrow>
           if len < length f
           then sbind (open_step io TruncateTail d) (\<lambda>d _.
                sbind (open_step io SyncTruncated (bt_insert name (RegularFile f') d)) (\<lambda>d _.
                sbind (open_step io SeekEnd d) (\<lambda>d _. (d, Inr len))))
           else sbind (open_step io SeekEnd d) (\<lambda>d _. (d, Inr len)))"

definition writer_open_io :: "'h crc_hasher \<Rightarrow> open_env \<Rightarrow> nat \<Rightarrow> directory \<Rightarrow> (directory, open_error, wal_writer) outcome" where
  "writer_open_io crc io rotation d =
     sbind (open_step io ListSegments d) (\<lambda>d _.
       let segments = list_segments (Some d);
           seg = (if segments = [] then 1 else last segments);
           name = wal_path seg
       in sbind (open_step io OpenSegment d) (\<lambda>d _.
          sbind (case bt_get d name of
                   None \<Rightarrow>
                     sbind (open_step io SyncCreated (bt_insert name (RegularFile []) d)) (\<lambda>d _.
                     sbind (open_step io SyncCreatedDir d) (\<lambda>d _. (d, Inr 0)))
                 | Some OtherEntry \<Rightarrow> (d, Inl (OpenRefused (OpenFailed seg)))
                 | Some (RegularFile f) \<Rightarrow> recover_file_io crc io name f d) (\<lambda>d size.
          (d, Inr \<lparr>ww_rotation = rotation, ww_segment = seg, ww_size = size, ww_cursor = size\<rparr>))))"

definition store_open_io :: "'h crc_hasher \<Rightarrow> open_env \<Rightarrow> disk \<Rightarrow> disk \<times> (open_error + store)" where
  "store_open_io crc io dk =
     (if io MakeDirectories then (dk, Inl (OpenCallFailed MakeDirectories))
      else if io LockFile then (dk, Inl (OpenCallFailed LockFile))
      else if d_locked dk then (dk, Inl (OpenRefused WriterLockHeld))
      else case writer_open_io crc io DEFAULT_SEGMENT_SIZE (d_data dk) of
             (d', Inl e) \<Rightarrow> (dk\<lparr>d_data := d'\<rparr>, Inl e)
           | (d', Inr w) \<Rightarrow>
               let dk' = dk\<lparr>d_data := d', d_locked := True\<rparr>
               in (dk', Inr \<lparr>st_disk = dk', st_writer = w\<rparr>))"

text \<open>Any number of openings that fail, then one that does not.\<close>

inductive reopens :: "'h crc_hasher \<Rightarrow> disk \<Rightarrow> store \<Rightarrow> bool" for crc where
  opened: "store_open_io crc io dk = (dk', Inr s) \<Longrightarrow> reopens crc dk s"
| retried: "store_open_io crc io dk = (dk', Inl e) \<Longrightarrow> reopens crc dk' s \<Longrightarrow> reopens crc dk s"

section \<open>The scan repairs once\<close>

text \<open>One round of the scan.\<close>

lemma recover_loop_round:
  "recover_loop crc f pos =
     (let n = unat (u32_from_le_bytes (take 4 (drop pos f))); rest = length f - (pos + 4) in
      if length f \<le> pos then Inr (f, pos)
      else if length f - pos < 4 then Inr (take pos f, pos)
      else if 2 ^ 64 \<le> pos + n + 8 then Inl (FrameLengthOverflow pos)
      else if length f < pos + n + 8 then
        (if rest = 0 \<or> n \<le> rest \<and> rest < n + 4 then Inr (take pos f, pos) else Inl (AmbiguousPartialPayload pos))
      else if crc_finalize crc (hash_chunks crc (crc_new crc) (take n (drop (pos + 4) f))) \<noteq>
              u32_from_le_bytes (take 4 (drop (pos + 4 + n) f))
      then Inl (ChecksumMismatch pos)
      else recover_loop crc f (pos + n + 8))"
proof -
  have "Option.bind (checked_add_u64 (pos + 4) n) (\<lambda>v. checked_add_u64 v 4) =
      (if 2 ^ 64 \<le> pos + n + 8 then None else Some (pos + n + 8))" for n
    by (auto simp: checked_add_u64_def)
  then show ?thesis
    by (subst recover_loop.simps) (simp add: Let_def truncate_torn_tail_def not_less add.commute add.left_commute)
qed

lemma recover_loop_cases:
  assumes "recover_loop crc f pos = Inr (f', len)" "pos \<le> length f" "n = unat (u32_from_le_bytes (take 4 (drop pos f)))"
  obtains "f' = take pos f" "len = pos"
  | "pos + n + 8 \<le> length f" "recover_loop crc f (pos + n + 8) = Inr (f', len)" "pos + n + 8 < 2 ^ 64"
      "crc_finalize crc (hash_chunks crc (crc_new crc) (take n (drop (pos + 4) f))) =
         u32_from_le_bytes (take 4 (drop (pos + 4 + n) f))"
proof (cases "length f \<le> pos \<or> length f - pos < 4")
  case True
  have "recover_loop crc f pos = Inr (take pos f, pos)"
  proof (cases "length f \<le> pos")
    case True
    then show ?thesis unfolding recover_loop_round [of crc f pos] Let_def if_P [OF True] by simp
  next
    case False
    with True have short: "length f - pos < 4" by simp
    show ?thesis unfolding recover_loop_round [of crc f pos] Let_def if_not_P [OF False] if_P [OF short] by simp
  qed
  then show ?thesis using that(1) assms(1) by simp
next
  case False
  then have long: "\<not> length f \<le> pos" "\<not> length f - pos < 4" by simp_all
  define torn where "torn \<longleftrightarrow> length f - (pos + 4) = 0 \<or> n \<le> length f - (pos + 4) \<and> length f - (pos + 4) < n + 4"
  define wrong where "wrong \<longleftrightarrow> crc_finalize crc (hash_chunks crc (crc_new crc) (take n (drop (pos + 4) f))) \<noteq>
    u32_from_le_bytes (take 4 (drop (pos + 4 + n) f))"
  have eq: "Inr (f', len) = (if 2 ^ 64 \<le> pos + n + 8 then Inl (FrameLengthOverflow pos)
      else if length f < pos + n + 8 then (if torn then Inr (take pos f, pos) else Inl (AmbiguousPartialPayload pos))
      else if wrong then Inl (ChecksumMismatch pos) else recover_loop crc f (pos + n + 8))"
    unfolding assms(1) [symmetric] torn_def wrong_def
    unfolding recover_loop_round [of crc f pos] Let_def assms(3) [symmetric] if_not_P [OF long(1)] if_not_P [OF long(2)] by (rule refl)
  have small: "\<not> 2 ^ 64 \<le> pos + n + 8" by (rule notI) (use eq in \<open>simp only: if_True sum.distinct\<close>)
  show ?thesis
  proof (cases "length f < pos + n + 8")
    case True
    then have "Inr (f', len) = (if torn then Inr (take pos f, pos) else Inl (AmbiguousPartialPayload pos))"
      using eq small by (simp only: if_False if_True)
    then show ?thesis using that(1) by (cases torn) simp_all
  next
    case False
    then have whole: "Inr (f', len) = (if wrong then Inl (ChecksumMismatch pos) else recover_loop crc f (pos + n + 8))"
      using eq small by (simp only: if_False)
    then have "\<not> wrong" by (cases wrong) simp_all
    then show ?thesis using that(2) whole False small by (simp add: wrong_def not_less not_le)
  qed
qed

lemma recover_loop_repaired:
  assumes "recover_loop crc f pos = Inr (f', len)" "pos \<le> length f"
  shows "f' = take len f \<and> pos \<le> len \<and> len \<le> length f \<and> recover_loop crc f' pos = Inr (f', len)"
  using assms
proof (induction "length f - pos" arbitrary: pos rule: less_induct)
  case less
  define n where "n = unat (u32_from_le_bytes (take 4 (drop pos f)))"
  from less.prems n_def show ?case
  proof (cases rule: recover_loop_cases)
    case 1
    then show ?thesis using less.prems(2) recover_loop_round [of crc "take pos f" pos] by simp
  next
    case 2
    have "length f - (pos + n + 8) < length f - pos" using 2(1) by simp
    from less.hyps [OF this 2(2,1)]
    have IH: "f' = take len f" "pos + n + 8 \<le> len" "len \<le> length f" "recover_loop crc f' (pos + n + 8) = Inr (f', len)" by blast+
    have len': "length f' = len" using IH(1,3) by simp
    have same: "take k (drop q f') = take k (drop q f)" if "q + k \<le> len" for q k
      using that by (simp add: IH(1) drop_take min_def)
    have parts: "take 4 (drop pos f') = take 4 (drop pos f)" "take n (drop (pos + 4) f') = take n (drop (pos + 4) f)"
      "take 4 (drop (pos + 4 + n) f') = take 4 (drop (pos + 4 + n) f)"
      using IH(2) by (simp_all add: same)
    have conds: "\<not> len \<le> pos" "\<not> len - pos < 4" "\<not> 2 ^ 64 \<le> pos + n + 8" "\<not> len < pos + n + 8" using IH(2) 2(3) by simp_all
    have "recover_loop crc f' pos = recover_loop crc f' (pos + n + 8)"
      unfolding recover_loop_round [of crc f' pos] Let_def parts n_def [symmetric] len' 2(4) by (simp only: conds if_False refl not_True_eq_False)
    then show ?thesis using IH by simp
  qed
qed

lemma recover_repaired:
  "recover_last_segment_tail crc f = Inr (f', len) \<Longrightarrow>
     f' = take len f \<and> len \<le> length f \<and> recover_last_segment_tail crc f' = Inr (f', len)"
  unfolding recover_last_segment_tail_def using recover_loop_repaired [of crc f 0 f' len] by blast

section \<open>Opening again\<close>

lemma bt_insert_same: "bt_wf d \<Longrightarrow> bt_get d k = Some v \<Longrightarrow> bt_insert k v d = d"
  by (rule bt_ext) simp_all

lemma segment_numbers: "n \<in> set (numbered_files ext d) \<Longrightarrow> n < 2 ^ 64"
  by (auto simp: numbered_files_def List.map_filter_def parse_u64_def Let_def split: dir_entry.splits if_splits)

text \<open>Writing to the last segment, or creating it, leaves it the last one.\<close>

definition last_segment :: "directory \<Rightarrow> nat" where
  "last_segment d = (let segments = list_segments (Some d) in if segments = [] then 1 else last segments)"

lemma last_segment_write:
  assumes "bt_wf d" "bt_get d (wal_path (last_segment d)) \<noteq> Some OtherEntry"
  shows "last_segment (bt_insert (wal_path (last_segment d)) (RegularFile f) d) = last_segment d"
proof -
  let ?seg = "last_segment d"
  define ns where "ns = (if numbered_files ''wal'' d = [] then [1] else numbered_files ''wal'' d)"
  have segs: "list_segments (Some d) = sort_dedup ns" by (simp add: list_segments_def ns_def)
  have ne: "sort_dedup ns \<noteq> []" by (metis ns_def list.distinct(1) set_empty set_sort_dedup)
  have seg: "?seg = last (sort_dedup ns)" using ne by (simp add: last_segment_def segs)
  then have mem: "?seg \<in> set ns" using last_in_set [OF ne] by simp
  then have "?seg < 2 ^ 64" using segment_numbers by (auto simp: ns_def split: if_splits)
  then have "set (numbered_files ''wal'' (bt_insert (wal_path ?seg) (RegularFile f) d)) = insert ?seg (set (numbered_files ''wal'' d))"
    using assms by (intro numbered_files_insert) simp_all
  also have "\<dots> = set ns" using mem by (auto simp: ns_def split: if_splits)
  also have "\<dots> = set (sort_dedup ns)" by simp
  finally have "list_segments (Some (bt_insert (wal_path ?seg) (RegularFile f) d)) = sort_dedup ns"
    using ne strict_sorted_sort_dedup by (intro list_segments_eqI)
  then show ?thesis using ne seg by (simp add: last_segment_def)
qed

lemma writer_open_last:
  "writer_open crc d rotation =
     (let seg = last_segment d; name = wal_path seg in
      case bt_get d name of
        None \<Rightarrow> (bt_insert name (RegularFile []) d,
                 Inr \<lparr>ww_rotation = rotation, ww_segment = seg, ww_size = 0, ww_cursor = 0\<rparr>)
      | Some OtherEntry \<Rightarrow> (d, Inl (OpenFailed seg))
      | Some (RegularFile f) \<Rightarrow>
          (case recover_last_segment_tail crc f of
             Inl e \<Rightarrow> (d, Inl e)
           | Inr (f', len) \<Rightarrow>
               (bt_insert name (RegularFile f') d,
                Inr \<lparr>ww_rotation = rotation, ww_segment = seg, ww_size = len, ww_cursor = len\<rparr>)))"
  unfolding writer_open_def last_segment_def Let_def by (rule refl)

text \<open>A repaired last segment is opened as it is.\<close>

lemma writer_open_repaired:
  assumes "bt_wf d" "bt_get d (wal_path (last_segment d)) \<noteq> Some OtherEntry" "recover_last_segment_tail crc f = Inr (f, len)"
  shows "writer_open crc (bt_insert (wal_path (last_segment d)) (RegularFile f) d) rotation =
    (bt_insert (wal_path (last_segment d)) (RegularFile f) d,
     Inr \<lparr>ww_rotation = rotation, ww_segment = last_segment d, ww_size = len, ww_cursor = len\<rparr>)"
  unfolding writer_open_last last_segment_write [OF assms(1,2)] using assms(1,3) by (simp add: bt_insert_same Let_def)

lemma recover_empty: "recover_last_segment_tail crc [] = Inr ([], 0)"
  by (simp add: recover_last_segment_tail_def recover_loop.simps)

text \<open>A failing opening leaves a directory from which opening gives the same writer, and one that
  succeeds is the opening without faults.\<close>

lemma open_step_bind: "sbind (open_step io call s) g = (if io call then (s, Inl (OpenCallFailed call)) else g s ())"
  by (simp add: open_step_def check_def require_def)

lemma recover_file_io_again:
  assumes "bt_wf d" "bt_get d (wal_path (last_segment d)) = Some (RegularFile f)"
    and "recover_file_io crc io (wal_path (last_segment d)) f d = (d', r)"
  shows "case r of
      Inr len \<Rightarrow> writer_open crc d rotation =
        (d', Inr \<lparr>ww_rotation = rotation, ww_segment = last_segment d, ww_size = len, ww_cursor = len\<rparr>)
    | Inl e \<Rightarrow> writer_open crc d' rotation = writer_open crc d rotation \<and> bt_wf d'"
proof (cases "recover_last_segment_tail crc f")
  case (Inl e)
  then show ?thesis using assms by (auto simp: recover_file_io_def open_step_bind split: if_splits)
next
  case (Inr fl)
  obtain f' len where fl: "fl = (f', len)" by fastforce
  have rep: "f' = take len f" "len \<le> length f" "recover_last_segment_tail crc f' = Inr (f', len)"
    using recover_repaired [OF Inr [unfolded fl]] by blast+
  let ?d = "bt_insert (wal_path (last_segment d)) (RegularFile f') d"
  have now: "writer_open crc d rotation =
      (?d, Inr \<lparr>ww_rotation = rotation, ww_segment = last_segment d, ww_size = len, ww_cursor = len\<rparr>)"
    unfolding writer_open_last using assms(2) Inr fl by (simp add: Let_def)
  have again: "writer_open crc ?d rotation = writer_open crc d rotation"
    unfolding now using rep(3) assms(1,2) by (intro writer_open_repaired) simp_all
  have intact: "?d = d" if "\<not> len < length f" using that rep(1,2) assms(1,2) by (simp add: bt_insert_same)
  show ?thesis
    using assms(1,3) again now intact Inr fl
    by (auto simp: recover_file_io_def open_step_bind split: if_splits)
qed

lemma writer_open_io_run:
  assumes "\<not> io ListSegments" "\<not> io OpenSegment"
  shows "writer_open_io crc io rotation d =
    sbind (case bt_get d (wal_path (last_segment d)) of
             None \<Rightarrow> sbind (open_step io SyncCreated (bt_insert (wal_path (last_segment d)) (RegularFile []) d)) (\<lambda>d _.
                      sbind (open_step io SyncCreatedDir d) (\<lambda>d _. (d, Inr 0)))
           | Some OtherEntry \<Rightarrow> (d, Inl (OpenRefused (OpenFailed (last_segment d))))
           | Some (RegularFile f) \<Rightarrow> recover_file_io crc io (wal_path (last_segment d)) f d)
      (\<lambda>d' size. (d', Inr \<lparr>ww_rotation = rotation, ww_segment = last_segment d, ww_size = size, ww_cursor = size\<rparr>))"
  using assms unfolding writer_open_io_def last_segment_def Let_def by (simp add: open_step_bind)

lemma writer_open_io_again:
  assumes "bt_wf d" "writer_open_io crc io rotation d = (d', r)"
  shows "case r of Inr w \<Rightarrow> writer_open crc d rotation = (d', Inr w)
    | Inl e \<Rightarrow> writer_open crc d' rotation = writer_open crc d rotation \<and> bt_wf d'"
proof (cases "io ListSegments \<or> io OpenSegment")
  case True
  then show ?thesis using assms by (auto simp: writer_open_io_def open_step_bind Let_def split: if_splits)
next
  case False
  then have "\<not> io ListSegments" "\<not> io OpenSegment" by simp_all
  note run = writer_open_io_run [OF this]
  show ?thesis
  proof (cases "bt_get d (wal_path (last_segment d))")
    case None
    then have other: "bt_get d (wal_path (last_segment d)) \<noteq> Some OtherEntry" by simp
    have now: "writer_open crc d rotation = (bt_insert (wal_path (last_segment d)) (RegularFile []) d,
        Inr \<lparr>ww_rotation = rotation, ww_segment = last_segment d, ww_size = 0, ww_cursor = 0\<rparr>)"
      using None by (simp add: writer_open_last Let_def)
    have "writer_open crc (bt_insert (wal_path (last_segment d)) (RegularFile []) d) rotation = writer_open crc d rotation"
      unfolding now by (rule writer_open_repaired [OF assms(1) other recover_empty])
    then show ?thesis using assms None now unfolding run by (auto simp: open_step_bind split: if_splits)
  next
    case (Some e)
    show ?thesis
    proof (cases e)
      case OtherEntry
      then show ?thesis using assms Some unfolding run by auto
    next
      case (RegularFile f)
      obtain d1 r1 where r1: "recover_file_io crc io (wal_path (last_segment d)) f d = (d1, r1)" by fastforce
      from recover_file_io_again [OF assms(1) Some [unfolded RegularFile] r1, of rotation] show ?thesis
        using assms(2) Some RegularFile r1 unfolding run by (cases r1) auto
    qed
  qed
qed

lemma store_open_io_again:
  assumes "bt_wf (d_data dk)" "store_open_io crc io dk = (dk', r)"
  shows "case r of Inr s \<Rightarrow> store_open crc dk = (dk', Inr s)
    | Inl e \<Rightarrow> store_open crc dk' = store_open crc dk \<and> bt_wf (d_data dk')"
proof (cases "io MakeDirectories \<or> io LockFile \<or> d_locked dk")
  case True
  then show ?thesis using assms by (auto simp: store_open_io_def split: if_splits)
next
  case False
  obtain d1 r1 where r1: "writer_open_io crc io DEFAULT_SEGMENT_SIZE (d_data dk) = (d1, r1)" by fastforce
  from writer_open_io_again [OF assms(1) r1] show ?thesis
    using False assms(2) r1
    by (cases r1) (auto simp: store_open_io_def store_open_def store_open_with_rotation_def DEFAULT_SEGMENT_SIZE_def Let_def)
qed

lemma reopens_open: "reopens crc dk s \<Longrightarrow> bt_wf (d_data dk) \<Longrightarrow> \<exists>dk'. store_open crc dk = (dk', Inr s)"
proof (induction rule: reopens.induct)
  case (opened io dk dk' s)
  then show ?case using store_open_io_again [of dk crc io] by fastforce
next
  case (retried io dk dk' e s)
  then show ?case using store_open_io_again [of dk crc io] by fastforce
qed

lemma store_open_io_no_faults:
  assumes "bt_wf (d_data dk)" "store_open crc dk = (dk', Inr s)"
  shows "store_open_io crc (\<lambda>_. False) dk = (dk', Inr s)"
proof -
  obtain dk1 r where r: "store_open_io crc (\<lambda>_. False) dk = (dk1, r)" by fastforce
  show ?thesis
  proof (cases r)
    case (Inr s')
    then show ?thesis using store_open_io_again [OF assms(1) r] assms(2) r by simp
  next
    case (Inl e)
    have "\<exists>w. snd (writer_open crc (d_data dk) DEFAULT_SEGMENT_SIZE) = Inr w" "\<not> d_locked dk"
      using assms(2) by (auto simp: store_open_def store_open_with_rotation_def Let_def split: if_splits sum.splits prod.splits)
    then have "\<exists>d' w. writer_open_io crc (\<lambda>_. False) DEFAULT_SEGMENT_SIZE (d_data dk) = (d', Inr w)"
      by (auto simp: writer_open_io_run writer_open_last recover_file_io_def Let_def open_step_bind
          split: option.splits dir_entry.splits sum.splits)
    then show ?thesis using r Inl \<open>\<not> d_locked dk\<close> by (auto simp: store_open_io_def Let_def)
  qed
qed

lemma open_reopens: "bt_wf (d_data dk) \<Longrightarrow> store_open crc dk = (dk', Inr s) \<Longrightarrow> reopens crc dk s"
  by (rule reopens.opened [OF store_open_io_no_faults])

end
