(* ===== verification/Wal_Properties.thy ===== *)
theory Wal_Properties
  imports Sample_Crates Wal_Open
begin

text \<open>
  Properties of the write-ahead log.  \<open>wal_run\<close> is the life of a store as its ledgers use it: opened
  on an empty root, appended to under any failing calls and failpoints, dropped and opened again, and
  opened again after a failed append before the next one.  Every opening may be preceded by openings that
  fail.  The properties hold for every reachable store.
\<close>

section \<open>Runs of a store\<close>

text \<open>\<open>acked\<close> are the payloads whose append returned an offset, \<open>tried\<close> those submitted to an append
  that reached the store, both in order.\<close>

inductive wal_run :: "'h crc_hasher \<Rightarrow> store \<Rightarrow> bytes list \<Rightarrow> bytes list \<Rightarrow> bool" for crc where
  start: "reopens crc empty_disk s \<Longrightarrow> wal_run crc s [] []"
| acknowledged: "wal_run crc s acked tried \<Longrightarrow> frame_ok b \<Longrightarrow> store_append crc io fp b s = (s', Inr off) \<Longrightarrow>
    wal_run crc s' (acked @ [b]) (tried @ [b])"
| restart: "wal_run crc s acked tried \<Longrightarrow> reopens crc (store_drop s) s' \<Longrightarrow> wal_run crc s' acked tried"
| failed: "wal_run crc s acked tried \<Longrightarrow> frame_ok b \<Longrightarrow> store_append crc io fp b s = (s', Inl e) \<Longrightarrow>
    reopens crc (store_drop s') s'' \<Longrightarrow> wal_run crc s'' acked (tried @ [b])"

lemma store_drop_data [simp]: "d_data (store_drop s) = d_data (st_disk s)"
  by (simp add: store_drop_def)

lemma store_rep_wf: "store_rep crc s segs \<Longrightarrow> bt_wf (d_data (st_disk s))"
  by (simp add: store_rep_def dir_rep_def)

lemma store_open_locked: "store_open crc dk = (dk', Inr s) \<Longrightarrow> st_disk s = dk' \<and> d_locked dk'"
  by (auto simp: store_open_def store_open_with_rotation_def Let_def split: if_splits prod.splits sum.splits)

lemma writer_append_keeps_lock: "store_append crc io fp b s = (s', r) \<Longrightarrow> d_locked (st_disk s') = d_locked (st_disk s)"
  by (cases "snd (writer_append crc io fp b (d_data (st_disk s), st_writer s))")
     (auto simp: store_append_def Let_def io_step_def check_def require_def split: if_splits prod.splits)

lemma subseq_snoc: "subseq xs ys \<Longrightarrow> subseq xs (ys @ [y])"
  using list_emb_append_mono [of "(=)" xs ys "[]" "[y]"] by simp

lemma reopen_again_eq: "store_open crc (store_drop s) = (dk, Inr s') \<Longrightarrow> store_reopen_again crc s = Inr s'"
  by (simp add: store_reopen_again_def)

text \<open>The invariant of a run: the store holds a log between the acknowledged and the submitted
  payloads, and has segment numbers left for the rest of the run.\<close>

lemma wal_run_rep:
  assumes "wal_run crc s acked tried" "crc_streaming crc" "length tried + n + 1 < 2 ^ 64"
  shows "\<exists>segs. store_rep crc s segs \<and> segment_room segs n \<and> subseq acked (log_of segs)
    \<and> subseq (log_of segs) tried \<and> d_locked (st_disk s)"
  using assms(1,3)
proof (induction arbitrary: n)
  case (start s)
  then have "s = log_store crc [] []" using open_empty [of crc] reopens_open [OF start.hyps] by (simp add: empty_disk_def)
  then show ?case
    using log_store_rep [OF assms(2), of "[]" "[]"] start.prems
    by (intro exI [of _ "[(1, [])]"]) (simp add: segment_room_def log_store_def)
next
  case (acknowledged s acked tried b io fp s' off)
  have "length tried + Suc n + 1 < 2 ^ 64" using acknowledged.prems by simp
  from acknowledged.IH [OF this] obtain segs where segs: "store_rep crc s segs" "segment_room segs (Suc n)"
      "subseq acked (log_of segs)" "subseq (log_of segs) tried" "d_locked (st_disk s)" by blast
  from store_append_ok [OF segs(1) acknowledged.hyps(2) segs(2) acknowledged.hyps(3)]
  obtain g where "store_rep crc s' g" "segment_room g n" "log_of g = log_of segs @ [b]" by blast
  then show ?case
    using segs(3-5) writer_append_keeps_lock [OF acknowledged.hyps(3)] by (auto intro: list_emb_append_mono)
next
  case (restart s acked tried s')
  from restart.IH [OF restart.prems] obtain segs where segs: "store_rep crc s segs" "segment_room segs n"
      "subseq acked (log_of segs)" "subseq (log_of segs) tried" by blast
  obtain dk where opened: "store_open crc (store_drop s) = (dk, Inr s')"
    using reopens_open [OF restart.hyps(2)] store_rep_wf [OF segs(1)] by auto
  from reopen_clean [OF segs(1)] reopen_again_eq [OF opened] have "store_rep crc s' segs" by simp
  then show ?case using segs store_open_locked [OF opened] by auto
next
  case (failed s acked tried b io fp s' e s'')
  have "length tried + Suc n + 1 < 2 ^ 64" using failed.prems by simp
  from failed.IH [OF this] obtain segs where segs: "store_rep crc s segs" "segment_room segs (Suc n)"
      "subseq acked (log_of segs)" "subseq (log_of segs) tried" by blast
  have "bt_wf (d_data (store_drop s'))"
    using store_append_rep [OF segs(1) failed.hyps(2) _ failed.hyps(3)] segs(2)
    by (auto simp: disk_after_def segment_room_def dir_rep_def)
  from reopens_open [OF failed.hyps(4) this] obtain dk where opened: "store_open crc (store_drop s') = (dk, Inr s'')" by blast
  from store_append_err [OF segs(1) failed.hyps(2) segs(2) failed.hyps(3) reopen_again_eq [OF opened]]
  obtain g where g: "store_rep crc s'' g" "segment_room g n" "log_of g \<in> {log_of segs, log_of segs @ [b]}" by blast
  have "subseq acked (log_of g)" using g(3) segs(3) by (auto intro: subseq_snoc)
  moreover have "subseq (log_of g) (tried @ [b])" using g(3) segs(4) by (auto intro: list_emb_append_mono)
  ultimately show ?case using g store_open_locked [OF opened] by auto
qed

text \<open>All records of a store, as a stream from the start yields them.\<close>

definition wal_records :: "'h crc_hasher \<Rightarrow> store \<Rightarrow> wal_error + bytes list" where
  "wal_records crc s = replay_records crc (\<lambda>e. e) offset_start (\<lambda>acc b. Inr (acc @ [b])) [] s"

lemma fold_collect: "fold_result (\<lambda>acc b. Inr (acc @ [b])) acc bs = Inr (acc @ bs)"
  by (induction bs arbitrary: acc) auto

lemma wal_records_rep: "store_rep crc s segs \<Longrightarrow> wal_records crc s = Inr (log_of segs)"
  by (simp add: wal_records_def replay_records_start fold_collect)

section \<open>Durability\<close>

text \<open>C1: An acknowledged record is never lost as long as a store is opened again after a failed append, as the
  ledgers do.  After any sequence of appends under failing system calls and failpoints, restarts, and
  restarts after a failed append before the next one, each preceded by any number of openings that fail, the
  store opens again, always to the same store, and the stream from the start yields the acknowledged payloads
  in order, interleaved at most with payloads whose append was submitted and reported a failure; nothing else
  appears.  A store that is used on after a failed append is not covered: there acknowledged records can be
  lost (\<open>append_after_failure_lost\<close> in the properties of the services).\<close>

theorem acknowledged_records_durable:
  assumes "wal_run crc s acked tried" "crc_streaming crc" "length tried + 1 < 2 ^ 64"
  shows "\<exists>dk s' log. store_open crc (store_drop s) = (dk, Inr s') \<and> wal_records crc s' = Inr log
    \<and> subseq acked log \<and> subseq log tried \<and> (\<forall>s''. reopens crc (store_drop s) s'' \<longrightarrow> s'' = s')"
proof -
  obtain segs where segs: "store_rep crc s segs" "subseq acked (log_of segs)" "subseq (log_of segs) tried"
    using wal_run_rep [OF assms(1,2), of 0] assms(3) by auto
  obtain s' where s': "store_reopen_again crc s = Inr s'" "store_rep crc s' segs"
    using reopen_clean [OF segs(1)] by blast
  have opened: "store_open crc (store_drop s) = (fst (store_open crc (store_drop s)), Inr s')"
    using s'(1) by (simp add: store_reopen_again_def prod_eq_iff)
  have "s'' = s'" if "reopens crc (store_drop s) s''" for s''
    using reopens_open [OF that] store_rep_wf [OF segs(1)] opened by auto
  then show ?thesis using segs wal_records_rep [OF s'(2)] opened by blast
qed

text \<open>One acknowledged record, then a record whose \<open>sync_all\<close> fails, and a restart.\<close>

lemma log_store_wf: "bt_wf (d_data (store_drop (log_store crc ps snap)))"
  by (simp add: log_store_def bt_wf_Cons)

lemma example_run: "wal_run crc32 (log_store crc32 [[7]] []) [[7]] [[7]]"
    "wal_run crc32 (log_store crc32 [[7], [8]] []) [[7]] [[7], [8]]"
proof -
  have start: "reopens crc32 empty_disk (log_store crc32 [] [])"
    by (rule open_reopens [OF _ open_empty]) (simp add: empty_disk_def)
  have "wal_run crc32 (log_store crc32 ([] @ [[7]]) []) ([] @ [[7]]) ([] @ [[7]])"
    by (rule wal_run.acknowledged [OF wal_run.start [OF start] _ log_store_append])
       (simp_all add: frame_ok_def DEFAULT_SEGMENT_SIZE_def)
  then show one: "wal_run crc32 (log_store crc32 [[7]] []) [[7]] [[7]]" by simp
  have "wal_run crc32 (log_store crc32 ([[7]] @ [[8]]) []) [[7]] ([[7]] @ [[8]])"
    by (rule wal_run.failed [OF one _ log_store_unsynced open_reopens [OF log_store_wf log_store_reopen]])
       (simp_all add: frame_ok_def DEFAULT_SEGMENT_SIZE_def)
  then show "wal_run crc32 (log_store crc32 [[7], [8]] []) [[7]] [[7], [8]]" by simp
qed

theorem acknowledged_records_durable_witness:
  "\<exists>dk s' log. store_open crc32 (store_drop (log_store crc32 [[7], [8]] [])) = (dk, Inr s')
    \<and> wal_records crc32 s' = Inr log \<and> subseq [[7]] log \<and> subseq log [[7], [8]]
    \<and> (\<forall>s''. reopens crc32 (store_drop (log_store crc32 [[7], [8]] [])) s'' \<longrightarrow> s'' = s')"
  by (rule acknowledged_records_durable [OF example_run(2)]) simp_all

text \<open>C2: A failed append is atomic or reported.  After an append that failed anywhere (a failing
  call that wrote part of its bytes, or a failpoint), opening the root again either refuses with the
  error for an ambiguous partial payload and leaves the disk as it is, or yields the records that
  were there before, with the new record appended or not.\<close>

theorem failed_append_atomic:
  assumes run: "wal_run crc s acked tried" "crc_streaming crc" "length tried + 2 < 2 ^ 64"
    and app: "frame_ok b" "store_append crc io fp b s = (s', Inl e)"
  shows "\<exists>old. wal_records crc s = Inr old \<and>
    (case store_open crc (store_drop s') of
       (dk, Inl err) \<Rightarrow> dk = store_drop s' \<and> (\<exists>p. err = AmbiguousPartialPayload p)
     | (dk, Inr s'') \<Rightarrow> wal_records crc s'' \<in> {Inr old, Inr (old @ [b])})"
proof -
  obtain segs where segs: "store_rep crc s segs" "segment_room segs 1"
    using wal_run_rep [OF run(1,2), of 1] run(3) by auto
  obtain segs' t where t: "dir_rep crc (d_data (st_disk s')) segs' t" "log_of segs' = log_of segs" "prefix t (frame crc b)"
    using store_append_rep [OF segs(1) app(1) _ app(2)] segs(2) by (auto simp: disk_after_def segment_room_def)
  have ne: "segs' \<noteq> []" using t(1) by (simp add: dir_rep_def)
  show ?thesis
  proof (cases "4 < length t \<and> length t < 4 + length b")
    case True
    then show ?thesis
      using store_reopen [OF _ t(3) app(1) run(2) default_rotation, of "store_drop s'" segs'] t(1)
        wal_records_rep [OF segs(1)] by (simp add: store_open_def)
  next
    case False
    then obtain dk s'' where "store_open crc (store_drop s') = (dk, Inr s'')" "store_rep crc s'' (recovered crc segs' b t)"
      using store_reopen [OF _ t(3) app(1) run(2) default_rotation, of "store_drop s'" segs'] t(1)
      by (auto simp: store_open_def)
    then show ?thesis
      using wal_records_rep [OF segs(1)] wal_records_rep [of crc s''] log_of_recovered [OF ne, of crc b t] t(2) by simp
  qed
qed

theorem failed_append_atomic_witness:
  "store_append crc32 sync_fails Disabled [8] (log_store crc32 [[7]] []) =
     (log_store crc32 [[7], [8]] [], Inl (IoError SyncSegment))
   \<and> (\<exists>old. wal_records crc32 (log_store crc32 [[7]] []) = Inr old \<and>
    (case store_open crc32 (store_drop (log_store crc32 [[7], [8]] [])) of
       (dk, Inl err) \<Rightarrow> dk = store_drop (log_store crc32 [[7], [8]] []) \<and> (\<exists>p. err = AmbiguousPartialPayload p)
     | (dk, Inr s'') \<Rightarrow> wal_records crc32 s'' \<in> {Inr old, Inr (old @ [[8]])}))"
proof -
  have app: "store_append crc32 sync_fails Disabled [8] (log_store crc32 [[7]] []) =
      (log_store crc32 [[7], [8]] [], Inl (IoError SyncSegment))"
    using log_store_unsynced [of crc32 "[[7]]" "[8]" "[]"] by (simp add: DEFAULT_SEGMENT_SIZE_def)
  show ?thesis
    by (intro conjI app failed_append_atomic [OF example_run(1) _ _ _ app]) (simp_all add: frame_ok_def)
qed

section \<open>Recovery of a segment\<close>

text \<open>Opening repairs a torn tail exactly when it can tell that the record was never complete.  For
  intact records followed by the first \<open>k\<close> bytes of one more frame, the scan truncates to the intact
  records, except when the cut is strictly inside the payload, where it refuses and names the
  position; and the repaired segment is a fixed point of the scan.\<close>

theorem torn_tail_recovery:
  assumes "crc_streaming crc" "list_all frame_ok ps" "frame_ok p"
    and "length (frames crc ps) + 2 ^ 33 < 2 ^ 64" and "k < length (frame crc p)"
  shows "recover_last_segment_tail crc (frames crc ps @ take k (frame crc p)) =
         (if 4 < k \<and> k < 4 + length p then Inl (AmbiguousPartialPayload (length (frames crc ps)))
          else Inr (frames crc ps, length (frames crc ps)))
    \<and> recover_last_segment_tail crc (frames crc ps) = Inr (frames crc ps, length (frames crc ps))"
  using recover_torn_tail [OF assms] recover_intact [OF assms(1,2,4)] by blast

theorem torn_tail_recovery_witness:
  "recover_last_segment_tail crc32 (frames crc32 [[1, 2]] @ take 6 (frame crc32 [3, 4, 5])) =
     Inl (AmbiguousPartialPayload 10)
   \<and> recover_last_segment_tail crc32 (frames crc32 [[1, 2]] @ take 8 (frame crc32 [3, 4, 5])) =
     Inr (frames crc32 [[1, 2]], 10)"
  using torn_tail_recovery [of crc32 "[[1, 2]]" "[3, 4, 5]" 6] torn_tail_recovery [of crc32 "[[1, 2]]" "[3, 4, 5]" 8]
  by (simp add: frame_ok_def)

lemma recover_loop_corrupt:
  assumes "crc_streaming crc" "frame_ok p" "length pre + 2 ^ 33 < 2 ^ 64"
    and "length c = 4" "u32_from_le_bytes c \<noteq> crc_of crc p"
  shows "recover_loop crc (pre @ (u32_to_le_bytes (word_of_nat (length p)) @ p @ c) @ rest) (length pre) =
         Inl (ChecksumMismatch (length pre))"
proof -
  let ?h = "u32_to_le_bytes (word_of_nat (length p))"
  let ?f = "pre @ (?h @ p @ c) @ rest"
  have b: "length p < 2 ^ 32" using assms(2) by (simp add: frame_ok_def)
  have header: "unat (u32_from_le_bytes (take 4 (drop (length pre) ?f))) = length p"
    using b by (simp add: unat_of_nat)
  have sum: "Option.bind (checked_add_u64 (length pre + 4) (length p)) (\<lambda>v. checked_add_u64 v 4)
      = Some (length pre + (length p + 8))"
    using b assms(3) by (simp add: checked_add_u64_def)
  have payload: "take (length p) (drop (length pre + 4) ?f) = p" by simp
  have stored: "take 4 (drop (length pre + 4 + length p) ?f) = c" using assms(4) by simp
  have hash: "crc_finalize crc (hash_chunks crc (crc_new crc) p) = crc_of crc p"
    using assms(1) by (simp add: hash_chunks_eq crc_of_def)
  show ?thesis
    using assms(4,5)
    by (subst recover_loop.simps) (simp only: Let_def header sum payload stored hash option.case, simp)
qed

text \<open>A damaged record is never accepted.  A complete frame whose stored checksum is not the
  checksum of its payload makes opening the segment fail with a checksum mismatch at its position,
  whatever precedes and follows it.\<close>

theorem corrupt_frame_detected:
  assumes "crc_streaming crc" "list_all frame_ok ps" "frame_ok p" "length (frames crc ps) + 2 ^ 33 < 2 ^ 64"
    and "length c = 4" "u32_from_le_bytes c \<noteq> crc_of crc p"
  shows "recover_last_segment_tail crc
      (frames crc ps @ (u32_to_le_bytes (word_of_nat (length p)) @ p @ c) @ rest) =
    Inl (ChecksumMismatch (length (frames crc ps)))"
  using recover_loop_frames [of crc ps "[]" "(u32_to_le_bytes (word_of_nat (length p)) @ p @ c) @ rest"]
    recover_loop_corrupt [of crc p "frames crc ps" c rest] assms
  by (simp add: recover_last_segment_tail_def)

theorem corrupt_frame_detected_witness:
  "recover_last_segment_tail crc32
      (frames crc32 [[1, 2]] @
       (u32_to_le_bytes (word_of_nat (length [3, 4, 5 :: u8])) @ [3, 4, 5] @ u32_to_le_bytes (crc_of crc32 [3, 4, 5] + 1)) @ [9]) =
    Inl (ChecksumMismatch 10)"
  using corrupt_frame_detected [of crc32 "[[1, 2]]" "[3, 4, 5]" "u32_to_le_bytes (crc_of crc32 [3, 4, 5] + 1)" "[9]"]
  by (simp add: frame_ok_def)

section \<open>The writer\<close>

text \<open>One writer per root.  While a store is open, a second opening of its root is refused and
  changes nothing; once the store is dropped the root opens again.\<close>

lemma single_writer:
  assumes "wal_run crc s acked tried" "crc_streaming crc" "length tried + 1 < 2 ^ 64"
  shows "store_open crc (st_disk s) = (st_disk s, Inl WriterLockHeld)
    \<and> (\<exists>dk s'. store_open crc (store_drop s) = (dk, Inr s') \<and> d_locked dk)"
proof -
  obtain segs where segs: "store_rep crc s segs" "d_locked (st_disk s)"
    using wal_run_rep [OF assms(1,2), of 0] assms(3) by auto
  obtain s' where s': "store_reopen_again crc s = Inr s'" using reopen_clean [OF segs(1)] by blast
  have "store_open crc (store_drop s) = (fst (store_open crc (store_drop s)), Inr s')"
    using s' by (simp add: store_reopen_again_def prod_eq_iff)
  moreover have "store_open crc (st_disk s) = (st_disk s, Inl WriterLockHeld)"
    using segs(2) default_rotation(1) by (simp add: store_open_def store_open_with_rotation_def)
  ultimately show ?thesis using store_open_locked by blast
qed

lemma appended_order:
  assumes "dir_rep crc d segs' []" "appended crc segs b segs' off"
    and w: "writer_at crc w segs" "writer_at crc w' segs'"
  shows "Offset (ww_segment w) (ww_size w) \<le> off \<and> off < Offset (ww_segment w') (ww_size w')"
proof -
  obtain bef g qs where app: "segs' = bef @ [(g, qs @ [b])]" "off = Offset g (length (frames crc qs))"
      "segs_le segs (bef @ [(g, qs)])"
    using assms(2) by (auto simp: appended_def)
  obtain bef0 g0 qs0 ps aft where le: "segs = bef0 @ [(g0, qs0)]" "bef @ [(g, qs)] = bef0 @ (g0, qs0 @ ps) # aft"
    using app(3) by (auto simp: segs_le_def)
  have sorted: "sorted_wrt (<) (map fst (bef @ [(g, qs)]))"
    using assms(1) by (simp add: dir_rep_def app(1) sorted_wrt_append)
  have "g0 < g \<or> g0 = g \<and> qs = qs0 @ ps"
    using le(2) sorted by (cases aft rule: rev_cases) (auto simp: sorted_wrt_append)
  then show ?thesis
    using w by (auto simp: writer_at_def le(1) app(1,2) less_eq_offset_def less_offset_def)
qed

lemma writer_append_fits:
  assumes "writer_append crc io fp b (d, w) = ((d', w'), Inr off)"
  shows "ww_size w' \<le> ww_rotation w \<or> position off = 0"
proof -
  have size: "write_frame crc io fp b (d1, w1) = ((d', w'), Inr off) \<Longrightarrow>
      ww_size w' = ww_size w1 + (length b + 8) \<and> position off = ww_size w1" for d1 w1
    by (auto simp: write_frame_def write_all_def io_step_def check_def Let_def result_simps split: option.splits)
  show ?thesis
  proof (cases "ww_size w + (4 + length b + 4) > ww_rotation w")
    case True
    then obtain d1 w1 where "writer_rotate io (d, w) = ((d1, w1), Inr ())"
        "write_frame crc io fp b (d1, w1) = ((d', w'), Inr off)"
      using assms by (auto simp: writer_append_def Let_def sbind_Inr_iff)
    moreover have "ww_size w1 = 0"
      using calculation(1) by (auto simp: writer_rotate_def Let_def result_simps)
    ultimately show ?thesis using size by auto
  next
    case False
    then have "write_frame crc io fp b (d, w) = ((d', w'), Inr off)"
      using assms by (simp add: writer_append_def)
    then show ?thesis using size False by auto
  qed
qed

text \<open>Offsets order the log.  An acknowledged append returns an offset at or after the end of the
  log before it and strictly before the end after it, so successive offsets increase; and the segment
  it wrote to stays within the rotation size unless the record is the only one of its segment.\<close>

lemma append_offsets_increase:
  assumes "wal_run crc s acked tried" "crc_streaming crc" "length tried + 2 < 2 ^ 64" "frame_ok b"
    and app: "store_append crc io fp b s = (s', Inr off)"
  shows "end_offset s \<le> off \<and> off < end_offset s'
    \<and> (ww_size (st_writer s') \<le> ww_rotation (st_writer s) \<or> position off = 0)"
proof -
  obtain segs where segs: "store_rep crc s segs" "segment_room segs 1"
    using wal_run_rep [OF assms(1,2), of 1] assms(3) by auto
  obtain segs' where segs': "store_rep crc s' segs'" "appended crc segs b segs' off"
    using store_append_rep [OF segs(1) assms(4) _ app] segs(2) by (auto simp: segment_room_def)
  have "writer_append crc io fp b (d_data (st_disk s), st_writer s) = ((d_data (st_disk s'), st_writer s'), Inr off)"
    using app by (auto simp: store_append_def Let_def io_step_def check_def result_simps split: prod.splits)
  from writer_append_fits [OF this] show ?thesis
    using appended_order [of crc "d_data (st_disk s')" segs' segs b off "st_writer s" "st_writer s'"] segs segs'
    by (simp add: store_rep_def end_offset_def)
qed

lemma numbered_files_fold:
  assumes "\<forall>n\<in>set ns. n < 2 ^ 64" "bt_wf d" "\<forall>n. bt_get d (wal_path n) \<noteq> Some OtherEntry"
  shows "set (numbered_files ''wal'' (fold (\<lambda>n. bt_insert (wal_path n) (RegularFile [])) ns d)) =
    set ns \<union> set (numbered_files ''wal'' d)"
  using assms
proof (induction ns arbitrary: d)
  case (Cons n ns)
  have "set (numbered_files ''wal'' (bt_insert (wal_path n) (RegularFile []) d)) = insert n (set (numbered_files ''wal'' d))"
    using Cons.prems by (intro numbered_files_insert) auto
  with Cons show ?case by simp
qed simp

text \<open>Segment files are found again under their numbers.  Whatever segment numbers a directory has
  files for, also numbers of more than eight digits, listing it parses every zero-padded name back
  and returns the numbers in increasing order.\<close>

theorem segment_listing:
  assumes "sorted_wrt (<) ns" "ns \<noteq> []" "\<forall>n\<in>set ns. n < 2 ^ 64"
  shows "list_segments (Some (fold (\<lambda>n. bt_insert (wal_path n) (RegularFile [])) ns [])) = ns"
  using numbered_files_fold [OF assms(3), of "[]"] assms(1,2)
  by (intro list_segments_eqI) (simp_all add: numbered_files_def)

theorem segment_listing_witness:
  "list_segments (Some (fold (\<lambda>n. bt_insert (wal_path n) (RegularFile [])) [99999999, 100000000] [])) = [99999999, 100000000]"
  using segment_listing [of "[99999999, 100000000]"] by simp

text \<open>The length header of a record is its length modulo \<open>2 ^ 32\<close>.  Every payload, whatever its
  length, is written after the segment's bytes and acknowledged; its header is the length of the
  payload exactly below 4 GiB, the bound the other theorems assume.  The writer has no guard for
  larger payloads.\<close>

theorem length_header_wraps:
  assumes "bt_wf d" "dir_file d (wal_path (ww_segment w)) = Some f" "ww_cursor w = length f"
  shows "\<exists>d' w' off g. write_frame crc no_faults Disabled p (d, w) = ((d', w'), Inr off)
    \<and> dir_file d' (wal_path (ww_segment w)) = Some (f @ g) \<and> length g = length p + 8
    \<and> unat (u32_from_le_bytes (take 4 g)) = length p mod 2 ^ 32
    \<and> (unat (u32_from_le_bytes (take 4 g)) = length p \<longleftrightarrow> frame_ok p)"
proof -
  obtain s' off where ok: "write_frame crc no_faults Disabled p (d, w) = (s', Inr off)"
    using write_frame_succeeds [of no_faults Disabled crc p "(d, w)"] by auto
  obtain t r where "write_frame crc no_faults Disabled p (d, w) = (frame_state d w f t, Inl r) \<or>
      t = frame crc p \<and> write_frame crc no_faults Disabled p (d, w) =
        ((fst (frame_state d w f t), (snd (frame_state d w f t))\<lparr>ww_size := ww_size w + (length p + 8)\<rparr>),
         Inr (Offset (ww_segment w) (ww_size w)))"
    using write_frame_outcome [OF assms, of crc p no_faults Disabled] by blast
  then have "fst s' = bt_insert (wal_path (ww_segment w)) (RegularFile (f @ frame crc p)) d"
    using ok by (auto simp: frame_state_def)
  then have written: "dir_file (fst s') (wal_path (ww_segment w)) = Some (f @ frame crc p)" by simp
  have header: "unat (u32_from_le_bytes (take 4 (frame crc p))) = length p mod 2 ^ 32"
    by (simp add: frame_def unat_of_nat)
  moreover have "length p mod 2 ^ 32 = length p \<longleftrightarrow> frame_ok p"
    by (auto simp: frame_ok_def intro: mod_less)
  ultimately show ?thesis
    using ok written by (intro exI [of _ "fst s'"] exI [of _ "snd s'"] exI [of _ off] exI [of _ "frame crc p"]) simp
qed

theorem length_header_wraps_witness:
  "\<exists>d' w' off g. write_frame crc32 no_faults Disabled [1, 2, 3]
      ([(wal_path 1, RegularFile [])], st_writer (log_store crc32 [] [])) = ((d', w'), Inr off)
    \<and> dir_file d' (wal_path 1) = Some ([] @ g) \<and> length g = length [1, 2, 3 :: u8] + 8
    \<and> unat (u32_from_le_bytes (take 4 g)) = length [1, 2, 3 :: u8] mod 2 ^ 32
    \<and> (unat (u32_from_le_bytes (take 4 g)) = length [1, 2, 3 :: u8] \<longleftrightarrow> frame_ok [1, 2, 3])"
  using length_header_wraps [of "[(wal_path 1, RegularFile [])]" "st_writer (log_store crc32 [] [])" "[]" crc32 "[1, 2, 3]"]
  by (simp add: bt_wf_Cons dir_file_def log_store_def)

end
