(* ===== verification/ProofPath_Properties.thy ===== *)
theory ProofPath_Properties
  imports ProofPath_Ledger Wal_Properties
begin

text \<open>
  Properties of the ProofPath ledger along its runs: the authority boundary, durability, idempotent
  retries (also across a crash), refusal of changed evidence, tamper evidence and the isolation of
  namespaces.  The examples use the concrete crates of \<open>Sample_Crates\<close> and one sample admission.
\<close>

section \<open>A sample admission\<close>

definition pp_input :: ProofPathDurableInput where
  "pp_input = \<lparr>pi_logical_operation_id = ''t'', pi_source_event_bytes = [1], pi_admission_report_bytes = [2],
     pi_source_receipt_ref = sample_ref 3, pi_valid_time_ms = 1, pi_transaction_time_ms = 2,
     pi_storage_admission_ref = sample_ref 4\<rparr>"

definition pp_ledger :: "bytes list \<Rightarrow> ProofPathDurableState \<Rightarrow> ProofPathDurableLedger" where
  "pp_ledger log st = \<lparr>pl_namespace = ''s'', pl_store = log_store crc32 log [], pl_state = st, pl_poisoned = False\<rparr>"

definition pp_base :: "u32 proofpath_env" where
  "pp_base = \<lparr>pe_crc = crc32, pe_sha256 = pad_digest, pe_ser_body = (\<lambda>_. Inl []), pe_ser_record = (\<lambda>_. Inl []),
     pe_de_record = (\<lambda>_. Inl [])\<rparr>"

definition pp_record :: ProofPathDurableRecord where
  "pp_record = \<lparr>pr_body = record_body_of pp_base (pp_ledger [] proofpath_default) pp_input, pr_record_hash = sample_ref 0\<rparr>"

definition pp_env :: "u32 proofpath_env" where
  "pp_env = pp_base\<lparr>pe_ser_body := ser_table [pr_body pp_record], pe_ser_record := ser_table [pp_record],
     pe_de_record := de_table [pp_record]\<rparr>"

definition pp_state :: ProofPathDurableState where
  "pp_state = \<lparr>ps_next_sequence = 2, ps_head_record_hash = Some (sample_ref 0),
     ps_records = [(pb_ingestion_key (pr_body pp_record), pp_record)]\<rparr>"

lemma pp_env_simps [simp]: "pe_crc pp_env = crc32" "pe_sha256 pp_env = pad_digest" "crc_streaming (pe_crc pp_env)"
  by (simp_all add: pp_env_def pp_base_def)

lemma pp_namespace: "normalize_namespace ''s'' = Inr ''s''"
  by (simp add: normalize_namespace_def is_ascii_alphanumeric_def Let_def less_eq_char_def)

lemma pp_normalized: "proofpath_normalize_input pp_input = Inr pp_input"
  by (simp add: proofpath_normalize_input_def pp_input_def validate_sha256_ref_def require_def Let_def)

lemma pp_body: "record_body_of pp_env (pp_ledger [] proofpath_default) pp_input = pr_body pp_record"
  by (simp add: pp_record_def record_body_of_def ingestion_key_def pp_base_def)

lemma pp_key: "ingestion_key pp_env ''s'' ''t'' = pb_ingestion_key (pr_body pp_record)"
  by (simp add: pp_record_def record_body_of_def ingestion_key_def pp_base_def pp_ledger_def pp_input_def)

lemma pp_digest: "proofpath_digest pp_env (pr_body pp_record) = Inr (sample_ref 0)"
  by (simp add: proofpath_digest_def pp_env_def pp_base_def ser_table_def map_err_def sample_ref_def)

lemma pp_apply: "apply_record pp_env ''s'' proofpath_default pp_record = Inr pp_state"
  unfolding apply_record_def Let_def pp_digest
  by (simp add: pp_record_def record_body_of_def pp_ledger_def proofpath_default_def require_def validate_sha256_ref_def
      pp_input_def ingestion_key_def pp_base_def bt_contains_key_def pp_state_def)

lemma pp_prepared: "prepare_record pp_env (pp_ledger [] proofpath_default) pp_input = Inr (pp_record, pp_state, [0])"
  unfolding prepare_record_def pp_body pp_digest Let_def
  using pp_apply
  by (simp add: pp_ledger_def encode_record_def pp_env_def ser_table_def map_err_def pp_record_def)

lemma pp_append: "proofpath_append pp_env no_faults Disabled pp_input (pp_ledger [] proofpath_default) =
    (pp_ledger [[0]] pp_state, Inr (Inserted pp_record))"
  using pp_prepared pp_normalized log_store_append [of crc32 "[]" "[0]" "[]"]
  by (simp add: proofpath_append_def pp_ledger_def proofpath_default_def DEFAULT_SEGMENT_SIZE_def)

lemma pp_unsynced: "proofpath_append pp_env sync_fails Disabled pp_input (pp_ledger [] proofpath_default) =
    ((pp_ledger [[0]] proofpath_default)\<lparr>pl_poisoned := True\<rparr>, Inl (PP_Storage (IoError SyncSegment)))"
  using pp_prepared pp_normalized log_store_unsynced [of crc32 "[]" "[0]" "[]"]
  by (simp add: proofpath_append_def pp_ledger_def proofpath_default_def DEFAULT_SEGMENT_SIZE_def)

lemma pp_codec [simp]: "proofpath_codec pp_env"
  by (simp add: proofpath_codec_def pp_env_def ser_de_table)

definition record_frames_ok :: "'h proofpath_env \<Rightarrow> bool" where
  "record_frames_ok env \<longleftrightarrow> (\<forall>rec bs. pe_ser_record env rec = Inr bs \<longrightarrow> frame_ok bs)"

lemma pp_frames [simp]: "record_frames_ok pp_env"
  by (auto simp: record_frames_ok_def pp_env_def ser_table_frame)

section \<open>The authority boundary\<close>

text \<open>A ledger opened on any root contents, and then appended to in any way.\<close>

inductive proofpath_reachable :: "'h proofpath_env \<Rightarrow> ProofPathDurableLedger \<Rightarrow> bool" for env where
  opened: "proofpath_open env disks ns = (disks', Inr l) \<Longrightarrow> proofpath_reachable env l"
| appended: "proofpath_reachable env l \<Longrightarrow> proofpath_append env io fp raw l = (l', r) \<Longrightarrow> proofpath_reachable env l'"

lemma proofpath_open_inv:
  assumes "proofpath_open env disks ns = (disks', Inr l)"
  shows "proofpath_inv env (pl_namespace l) (pl_state l)"
proof -
  have "proofpath_replay_from env (pl_store l) (pl_namespace l) = Inr (pl_state l)"
    using assms by (auto simp: proofpath_open_def Let_def split: sum.splits prod.splits)
  then show ?thesis
    unfolding proofpath_replay_from_def
    by (rule replay_records_inv [where P = "proofpath_inv env (pl_namespace l)"]) (auto intro: proofpath_step_inv)
qed

lemma proofpath_append_state:
  assumes "proofpath_append env io fp raw l = (l', r)"
  shows "pl_namespace l' = pl_namespace l \<and> (pl_state l' = pl_state l \<or>
    (\<exists>rec. apply_record env (pl_namespace l) (pl_state l) rec = Inr (pl_state l')))"
  using assms
  by (auto simp: proofpath_append_def dest!: prepare_record_Inr(1) split: sum.splits option.splits prod.splits if_splits)

lemma proofpath_reachable_inv: "proofpath_reachable env l \<Longrightarrow> proofpath_inv env (pl_namespace l) (pl_state l)"
proof (induction rule: proofpath_reachable.induct)
  case (opened disks ns disks' l)
  then show ?case by (rule proofpath_open_inv)
next
  case (appended l io fp raw l' r)
  then show ?case using proofpath_append_state [OF appended.hyps(2)] apply_record_inv by metis
qed

text \<open>C12: The authority boundary holds for every record a ledger returns, whatever bytes its root held
  when it was opened and whatever was appended since.  The only authority a record carries is that of the
  local storage write; it authorizes neither execution, mutation nor external effects.  It belongs to the
  ledger's namespace, its key is derived from its operation, its digests are those of its bytes, and its
  transaction time is not before its valid time.\<close>

theorem authority_boundary:
  assumes "proofpath_reachable env l" "proofpath_get env l operation = Some rec"
  shows "pb_storage_write_authorized (pr_body rec) \<and> \<not> pb_execution_authorized (pr_body rec)
    \<and> \<not> pb_mutation_authorized (pr_body rec) \<and> \<not> pb_external_effects_authorized (pr_body rec)
    \<and> pb_persistence_scope (pr_body rec) = PROOFPATH_PERSISTENCE_SCOPE \<and> pb_namespace (pr_body rec) = pl_namespace l
    \<and> ingestion_key env (pl_namespace l) (pb_logical_operation_id (pr_body rec)) =
        ingestion_key env (pl_namespace l) (trim operation)
    \<and> pb_source_event_sha256 (pr_body rec) = sha256_ref (pe_sha256 env) (pb_source_event_bytes (pr_body rec))
    \<and> pb_admission_report_sha256 (pr_body rec) = sha256_ref (pe_sha256 env) (pb_admission_report_bytes (pr_body rec))
    \<and> proofpath_digest env (pr_body rec) = Inr (pr_record_hash rec)
    \<and> pb_valid_time_ms (pr_body rec) \<le> pb_transaction_time_ms (pr_body rec)"
proof -
  have "bt_get (ps_records (pl_state l)) (ingestion_key env (pl_namespace l) (trim operation)) = Some rec"
    using assms(2) by (auto simp: proofpath_get_def Let_def split: if_splits)
  then have ok: "record_ok env (pl_namespace l) rec"
    and key: "pb_ingestion_key (pr_body rec) = ingestion_key env (pl_namespace l) (trim operation)"
    using proofpath_reachable_inv [OF assms(1)] by (auto simp: proofpath_inv_def)
  then show ?thesis by (simp add: record_ok_def Let_def)
qed

lemma pp_open: "proofpath_open pp_env (\<lambda>_. empty_disk) ''s'' =
    ((\<lambda>_. empty_disk)(namespace_path ''s'' := st_disk (log_store crc32 [] [])), Inr (pp_ledger [] proofpath_default))"
proof -
  have "proofpath_coherent pp_env ''s'' (log_store crc32 [] []) [(1, [])] proofpath_default"
    using log_store_rep [of crc32 "[]" "[]"] by (simp add: coherent_log_def)
  from proofpath_laws(1) [OF this] show ?thesis
    using open_empty [of crc32]
    by (simp add: proofpath_open_def pp_namespace proofpath_replay_from_def pp_ledger_def)
qed

theorem authority_boundary_witness:
  "proofpath_get pp_env (pp_ledger [[0]] pp_state) ''t'' = Some pp_record \<and> \<not> pb_execution_authorized (pr_body pp_record)
    \<and> pb_storage_write_authorized (pr_body pp_record)"
proof -
  have reach: "proofpath_reachable pp_env (pp_ledger [[0]] pp_state)"
    by (rule proofpath_reachable.appended [OF proofpath_reachable.opened [OF pp_open] pp_append])
  have found: "proofpath_get pp_env (pp_ledger [[0]] pp_state) ''t'' = Some pp_record"
    using pp_key by (simp add: proofpath_get_def pp_ledger_def pp_state_def)
  show ?thesis using authority_boundary [OF reach found] found by blast
qed

section \<open>Durability\<close>

text \<open>The life of a ledger on its own root, as for the transition ledger; \<open>acked\<close> are the records an
  append inserted and acknowledged, \<open>k\<close> counts the appends.\<close>

inductive proofpath_run :: "'h proofpath_env \<Rightarrow> string \<Rightarrow> ProofPathDurableLedger \<Rightarrow> ProofPathDurableRecord list \<Rightarrow> nat \<Rightarrow> bool"
  for env ns where
  start: "proofpath_open env (\<lambda>_. empty_disk) ns = (disks, Inr l) \<Longrightarrow> proofpath_run env ns l [] 0"
| acknowledged: "proofpath_run env ns l acked k \<Longrightarrow> proofpath_append env io fp raw l = (l', Inr (Inserted rec)) \<Longrightarrow>
    proofpath_run env ns l' (acked @ [rec]) (Suc k)"
| restart: "proofpath_run env ns l acked k \<Longrightarrow>
    proofpath_open env (\<lambda>_. store_drop (pl_store l)) ns = (disks, Inr l') \<Longrightarrow> proofpath_run env ns l' acked k"
| failed: "proofpath_run env ns l acked k \<Longrightarrow> proofpath_append env io fp raw l = (l', Inl e) \<Longrightarrow> pl_poisoned l' \<Longrightarrow>
    proofpath_open env (\<lambda>_. store_drop (pl_store l')) ns = (disks, Inr l'') \<Longrightarrow> proofpath_run env ns l'' acked (Suc k)"

definition holds_record :: "ProofPathDurableState \<Rightarrow> ProofPathDurableRecord \<Rightarrow> bool" where
  "holds_record st rec \<longleftrightarrow> bt_get (ps_records st) (pb_ingestion_key (pr_body rec)) = Some rec"

definition pp_inv :: "'h proofpath_env \<Rightarrow> string \<Rightarrow> ProofPathDurableLedger \<Rightarrow> ProofPathDurableRecord list \<Rightarrow> nat \<Rightarrow> bool" where
  "pp_inv env ns l acked n \<longleftrightarrow> \<not> pl_poisoned l \<and> pl_namespace l = ns
     \<and> (\<exists>segs. proofpath_rep env l segs \<and> segment_room segs n) \<and> list_all (holds_record (pl_state l)) acked"

lemma apply_record_holds:
  assumes "apply_record env ns st rec = Inr st'"
  shows "holds_record st' rec" "holds_record st r \<Longrightarrow> holds_record st' r"
  using apply_record_shape(4,5) [OF assms] by (auto simp: holds_record_def)

lemma proofpath_open_ns: "proofpath_open env disks ns = (disks', Inr l) \<Longrightarrow> pl_namespace l = ns \<and> normalize_namespace ns = Inr ns
    \<and> (\<exists>dk s. store_open (pe_crc env) (disks (namespace_path ns)) = (dk, Inr s))"
  by (auto simp: proofpath_open_def Let_def dest: normalize_namespace_safe split: sum.splits prod.splits)

lemma pp_inv_append:
  assumes "pp_inv env ns l acked (Suc n)" "record_frames_ok env"
    and run: "proofpath_append env io fp raw l = (l', Inr (Inserted rec))"
  shows "pp_inv env ns l' (acked @ [rec]) n"
proof -
  obtain segs where inv: "\<not> pl_poisoned l" "pl_namespace l = ns" "proofpath_rep env l segs" "segment_room segs (Suc n)"
      "list_all (holds_record (pl_state l)) acked"
    using assms(1) by (auto simp: pp_inv_def)
  obtain input candidate bs s where new: "prepare_record env l input = Inr (rec, candidate, bs)"
      "l' = l\<lparr>pl_store := s, pl_state := candidate\<rparr>"
    using proofpath_append_inserted [OF run] by metis
  have "\<exists>segs'. proofpath_rep env l' segs' \<and> segment_room segs' n"
    by (rule proofpath_append_ok [OF inv(3,4) run]) (use assms(2) in \<open>auto simp: record_frames_ok_def\<close>)
  moreover have "list_all (holds_record candidate) (acked @ [rec])"
    using inv(5) apply_record_holds [OF prepare_record_Inr(1) [OF new(1)]] by (auto simp: list_all_iff)
  ultimately show ?thesis using inv new by (simp add: pp_inv_def)
qed

lemma pp_inv_failed:
  assumes "pp_inv env ns l acked (Suc n)" "record_frames_ok env"
    and run: "proofpath_append env io fp raw l = (l', Inl e)" "pl_poisoned l'"
    and reopened: "proofpath_open env (\<lambda>_. store_drop (pl_store l')) ns = (disks, Inr l'')"
  shows "pp_inv env ns l'' acked n"
proof -
  obtain segs where inv: "\<not> pl_poisoned l" "pl_namespace l = ns" "proofpath_rep env l segs" "segment_room segs (Suc n)"
      "list_all (holds_record (pl_state l)) acked"
    using assms(1) by (auto simp: pp_inv_def)
  have ne: "l' \<noteq> l" using inv(1) run(2) by auto
  obtain dk s2 where opened: "store_open (pe_crc env) (store_drop (pl_store l')) = (dk, Inr s2)"
    using proofpath_open_ns [OF reopened] by auto
  obtain input rec candidate bs l2 segs' where r: "prepare_record env l input = Inr (rec, candidate, bs)"
      "proofpath_open env (\<lambda>_. store_drop (pl_store l')) (pl_namespace l) =
         ((\<lambda>_. store_drop (pl_store l'))(namespace_path (pl_namespace l) := dk), Inr l2)"
      "pl_state l2 \<in> {pl_state l, candidate}" "pl_namespace l2 = pl_namespace l" "\<not> pl_poisoned l2"
      "proofpath_rep env l2 segs'" "segment_room segs' n"
    by (rule proofpath_abort [of env l segs n io fp raw l' e "\<lambda>_. store_drop (pl_store l')" dk s2])
       (use inv ne run opened assms(2) in \<open>auto simp: record_frames_ok_def\<close>)
  have "l'' = l2" using r(2) reopened inv(2) by simp
  moreover have "list_all (holds_record (pl_state l2)) acked"
    using r(3) inv(5) apply_record_holds [OF prepare_record_Inr(1) [OF r(1)]] by (auto simp: list_all_iff)
  ultimately show ?thesis using r inv(2) by (auto simp: pp_inv_def)
qed

lemma proofpath_run_inv:
  assumes "proofpath_run env ns l acked k" "crc_streaming (pe_crc env)" "proofpath_codec env" "record_frames_ok env"
    and "k + n + 1 < 2 ^ 64"
  shows "pp_inv env ns l acked n"
  using assms(1,5)
proof (induction arbitrary: n)
  case (start disks l)
  have "proofpath_coherent env ns (log_store (pe_crc env) [] []) [(1, [])] proofpath_default"
    using log_store_rep [OF assms(2), of "[]" "[]"] assms(3) by (simp add: coherent_log_def)
  from proofpath_open_coherent [OF _ _ this, of "\<lambda>_. empty_disk"] start.hyps open_empty [of "pe_crc env"]
    proofpath_open_ns [OF start.hyps]
  have "pl_namespace l = ns \<and> \<not> pl_poisoned l \<and> proofpath_rep env l [(1, [])]" by auto
  moreover have "segment_room [(1, [])] n" using start.prems by (simp add: segment_room_def)
  ultimately show ?case by (auto simp: pp_inv_def)
next
  case (acknowledged l acked k io fp raw l' rec)
  then show ?case using pp_inv_append [OF acknowledged.IH [of "Suc n"] assms(4)] by simp
next
  case (restart l acked k disks l')
  then obtain segs where inv: "pl_namespace l = ns" "proofpath_rep env l segs" "segment_room segs n"
      "list_all (holds_record (pl_state l)) acked" by (auto simp: pp_inv_def)
  from proofpath_reopen [OF inv(2), of "\<lambda>_. store_drop (pl_store l)"] restart.hyps(2) inv(1)
  have "pl_state l' = pl_state l \<and> pl_namespace l' = ns \<and> \<not> pl_poisoned l' \<and> proofpath_rep env l' segs" by auto
  then show ?case using inv by (auto simp: pp_inv_def)
next
  case (failed l acked k io fp raw l' e disks l'')
  then show ?case using pp_inv_failed [OF failed.IH [of "Suc n"] assms(4) failed.hyps(2-4)] by simp
qed

text \<open>C13: An acknowledged record is found again.  After any run of appends under failing calls, restarts,
  and restarts after a failed append, the ledger opens again with the same state, and looking up the
  operation of any acknowledged record returns that record.\<close>

theorem acknowledged_proofs_durable:
  assumes "proofpath_run env ns l acked k" "k + 1 < 2 ^ 64"
    and "crc_streaming (pe_crc env)" "proofpath_codec env" "record_frames_ok env"
  shows "\<exists>disks l'. proofpath_open env (\<lambda>_. store_drop (pl_store l)) ns = (disks, Inr l') \<and> pl_state l' = pl_state l
    \<and> (\<forall>rec\<in>set acked. proofpath_get env l' (pb_logical_operation_id (pr_body rec)) = Some rec)"
proof -
  have "pp_inv env ns l acked 0" using proofpath_run_inv [OF assms(1,3-5), of 0] assms(2) by simp
  then obtain segs where inv: "pl_namespace l = ns" "proofpath_rep env l segs" "list_all (holds_record (pl_state l)) acked"
    by (auto simp: pp_inv_def)
  obtain disks l' where l': "proofpath_open env (\<lambda>_. store_drop (pl_store l)) ns = (disks, Inr l')"
      "pl_state l' = pl_state l" "pl_namespace l' = ns"
    using proofpath_reopen [OF inv(2), of "\<lambda>_. store_drop (pl_store l)"] inv(1) by auto
  have "proofpath_get env l' (pb_logical_operation_id (pr_body rec)) = Some rec" if "rec \<in> set acked" for rec
  proof -
    have held: "bt_get (ps_records (pl_state l)) (pb_ingestion_key (pr_body rec)) = Some rec"
      using that inv(3) by (auto simp: list_all_iff holds_record_def)
    then have "record_ok env ns rec"
      using proofpath_rep_inv [OF inv(2)] inv(1) by (auto simp: proofpath_inv_def)
    then show ?thesis using held l' by (simp add: proofpath_get_def record_ok_def Let_def)
  qed
  then show ?thesis using l' by blast
qed

lemma pp_run: "proofpath_run pp_env ''s'' (pp_ledger [] proofpath_default) [] 0"
    "proofpath_run pp_env ''s'' (pp_ledger [[0]] pp_state) [pp_record] 1"
proof -
  show start: "proofpath_run pp_env ''s'' (pp_ledger [] proofpath_default) [] 0"
    by (rule proofpath_run.start [OF pp_open])
  from proofpath_run.acknowledged [OF start pp_append]
  show "proofpath_run pp_env ''s'' (pp_ledger [[0]] pp_state) [pp_record] 1" by simp
qed

theorem acknowledged_proofs_durable_witness:
  "\<exists>disks l'. proofpath_open pp_env (\<lambda>_. store_drop (log_store crc32 [[0]] [])) ''s'' = (disks, Inr l')
    \<and> proofpath_get pp_env l' ''t'' = Some pp_record"
proof -
  have "pb_logical_operation_id (pr_body pp_record) = ''t''" by (simp add: pp_record_def record_body_of_def pp_input_def)
  then show ?thesis
    using acknowledged_proofs_durable [OF pp_run(2)] by (auto simp: pp_ledger_def)
qed

section \<open>Idempotence\<close>

text \<open>A retry is answered with the record that is there.  After an append succeeded, submitting the
  same input again, under whatever conditions of the storage, returns the stored record as already
  present and leaves the ledger as it is; the store is not written.\<close>

theorem retry_is_idempotent:
  assumes "proofpath_append env io fp raw l = (l', Inr out)"
  shows "proofpath_append env io' fp' raw l' = (l', Inr (AlreadyPresent (outcome_record out)))"
proof -
  have "\<not> pl_poisoned l'"
    using assms by (auto simp: proofpath_append_def split: if_splits sum.splits option.splits prod.splits)
  then show ?thesis by (intro proofpath_retry [OF assms]) simp_all
qed

theorem retry_is_idempotent_witness:
  "proofpath_append pp_env sync_fails BeforeWrite pp_input (pp_ledger [[0]] pp_state) =
     (pp_ledger [[0]] pp_state, Inr (AlreadyPresent pp_record))"
  using retry_is_idempotent [OF pp_append, of sync_fails BeforeWrite] by simp

text \<open>Evidence cannot be exchanged under an operation that is present.  A valid input for the same
  operation with other source bytes, another report, another receipt or another valid time is refused
  as a conflict and changes nothing.\<close>

theorem changed_evidence_conflicts:
  assumes "proofpath_append env io fp raw l = (l', Inr out)"
    and "proofpath_normalize_input raw2 = Inr input2" "pi_logical_operation_id raw2 = pi_logical_operation_id raw"
    and "pi_source_event_bytes raw2 \<noteq> pi_source_event_bytes raw
      \<or> pi_admission_report_bytes raw2 \<noteq> pi_admission_report_bytes raw
      \<or> pi_source_receipt_ref raw2 \<noteq> pi_source_receipt_ref raw \<or> pi_valid_time_ms raw2 \<noteq> pi_valid_time_ms raw"
  shows "proofpath_append env io' fp' raw2 l' = (l', Inl IdempotencyConflict)"
proof -
  obtain input where input: "\<not> pl_poisoned l" "proofpath_normalize_input raw = Inr input"
    by (rule proofpath_append_accepted [OF assms(1)]) auto
  have eq: "input = raw" "input2 = raw2"
    using input(2) assms(2) by (auto simp: proofpath_normalize_input_def Let_def rbind_Inr_iff require_Inr_iff)
  have retry: "proofpath_append env io' fp' raw l' = (l', Inr (AlreadyPresent (outcome_record out)))" and ok: "\<not> pl_poisoned l'"
  proof -
    show "\<not> pl_poisoned l'"
      using assms(1) by (auto simp: proofpath_append_def split: if_splits sum.splits option.splits prod.splits)
    then show "proofpath_append env io' fp' raw l' = (l', Inr (AlreadyPresent (outcome_record out)))"
      by (intro proofpath_retry [OF assms(1)]) simp_all
  qed
  then have "bt_get (ps_records (pl_state l')) (ingestion_key env (pl_namespace l') (pi_logical_operation_id raw)) =
        Some (outcome_record out)" "equivalent_semantic_input env (outcome_record out) raw"
    using input(2) eq
    by (auto simp: proofpath_append_run [OF ok] split: option.splits if_splits sum.splits prod.splits)
  then show ?thesis
    using proofpath_append_run [OF ok assms(2), of env io' fp'] assms(3,4) eq
    by (auto simp: equivalent_semantic_input_def)
qed

theorem changed_evidence_conflicts_witness:
  "proofpath_append pp_env no_faults Disabled (pp_input\<lparr>pi_source_event_bytes := [9]\<rparr>) (pp_ledger [[0]] pp_state) =
     (pp_ledger [[0]] pp_state, Inl IdempotencyConflict)"
proof (rule changed_evidence_conflicts [OF pp_append])
  show "proofpath_normalize_input (pp_input\<lparr>pi_source_event_bytes := [9]\<rparr>) = Inr (pp_input\<lparr>pi_source_event_bytes := [9]\<rparr>)"
    by (simp add: proofpath_normalize_input_def pp_input_def validate_sha256_ref_def require_def Let_def)
qed (simp_all add: pp_input_def)

text \<open>C14: A crash does not duplicate or lose a submission.  When an append failed in storage and the
  ledger was opened again, submitting the same input once more succeeds, and the resulting state is
  the state before the failure advanced by exactly one record, whether the failed attempt had reached
  the log or not.\<close>

theorem crash_retry_exactly_once:
  assumes run: "proofpath_run env ns l acked k" "k + 2 < 2 ^ 64"
    and env: "crc_streaming (pe_crc env)" "proofpath_codec env" "record_frames_ok env"
    and fail: "proofpath_append env io fp raw l = (l', Inl e)" "pl_poisoned l'"
    and reopened: "proofpath_open env (\<lambda>_. store_drop (pl_store l')) ns = (disks, Inr l2)"
  shows "\<exists>l3 out. proofpath_append env no_faults Disabled raw l2 = (l3, Inr out)
    \<and> apply_record env ns (pl_state l) (outcome_record out) = Inr (pl_state l3)
    \<and> ps_next_sequence (pl_state l3) = ps_next_sequence (pl_state l) + 1"
proof -
  have "pp_inv env ns l acked 1" using proofpath_run_inv [OF run(1) env, of 1] run(2) by simp
  then obtain segs where inv: "\<not> pl_poisoned l" "pl_namespace l = ns" "proofpath_rep env l segs" "segment_room segs (Suc 0)"
    by (auto simp: pp_inv_def)
  obtain dk s2 where opened: "store_open (pe_crc env) (store_drop (pl_store l')) = (dk, Inr s2)"
    using proofpath_open_ns [OF reopened] by auto
  have "\<exists>l2 l3 out. proofpath_open env (\<lambda>_. store_drop (pl_store l')) (pl_namespace l) =
        ((\<lambda>_. store_drop (pl_store l'))(namespace_path (pl_namespace l) := dk), Inr l2)
      \<and> proofpath_append env no_faults Disabled raw l2 = (l3, Inr out)
      \<and> (\<exists>input candidate bs. proofpath_normalize_input raw = Inr input
           \<and> prepare_record env l input = Inr (outcome_record out, candidate, bs) \<and> pl_state l3 = candidate)"
    by (rule proofpath_crash_retry [OF inv(3,4) fail(1) _ _ _ opened])
       (use inv(1) fail(2) env(3) in \<open>auto simp: record_frames_ok_def\<close>)
  then obtain l3 out input bs where r: "proofpath_append env no_faults Disabled raw l2 = (l3, Inr out)"
      "prepare_record env l input = Inr (outcome_record out, pl_state l3, bs)"
    using reopened inv(2) by auto
  have ap: "apply_record env ns (pl_state l) (outcome_record out) = Inr (pl_state l3)"
    using prepare_record_Inr(1) [OF r(2)] inv(2) by simp
  then show ?thesis using r(1) apply_record_shape(5) [OF ap] by auto
qed

theorem crash_retry_exactly_once_witness:
  "\<exists>disks l2 l3 out. proofpath_open pp_env (\<lambda>_. store_drop (log_store crc32 [[0]] [])) ''s'' = (disks, Inr l2)
    \<and> proofpath_append pp_env no_faults Disabled pp_input l2 = (l3, Inr out)
    \<and> ps_next_sequence (pl_state l3) = 2"
proof -
  let ?l' = "(pp_ledger [[0]] proofpath_default)\<lparr>pl_poisoned := True\<rparr>"
  have "pp_inv pp_env ''s'' (pp_ledger [[0]] pp_state) [pp_record] 0"
    by (rule proofpath_run_inv [OF pp_run(2)]) simp_all
  then obtain segs where "proofpath_rep pp_env (pp_ledger [[0]] pp_state) segs" by (auto simp: pp_inv_def)
  from proofpath_reopen [OF this, of "\<lambda>_. store_drop (log_store crc32 [[0]] [])"]
  obtain disks l2 where open2: "proofpath_open pp_env (\<lambda>_. store_drop (pl_store ?l')) ''s'' = (disks, Inr l2)"
    by (auto simp: pp_ledger_def)
  have "\<exists>l3 out. proofpath_append pp_env no_faults Disabled pp_input l2 = (l3, Inr out)
      \<and> apply_record pp_env ''s'' (pl_state (pp_ledger [] proofpath_default)) (outcome_record out) = Inr (pl_state l3)
      \<and> ps_next_sequence (pl_state l3) = ps_next_sequence (pl_state (pp_ledger [] proofpath_default)) + 1"
    by (rule crash_retry_exactly_once [OF pp_run(1) _ _ _ _ pp_unsynced _ open2]) simp_all
  then show ?thesis using open2 by (auto simp: pp_ledger_def proofpath_default_def)
qed

section \<open>Tamper evidence and namespaces\<close>

text \<open>The head commits to the records.  Two sequences of records accepted from the empty state that
  end in the same head hash are equal, unless two of their records have different serialized bodies
  with the same digest; and every record names the hash of its predecessor.\<close>

theorem proofpath_head_commits:
  assumes "ser_injective (pe_ser_body env)"
    and "fold_result (apply_record env ns) proofpath_default recs = Inr st"
    and "fold_result (apply_record env ns) proofpath_default recs' = Inr st'"
    and "ps_head_record_hash st = ps_head_record_hash st'"
  shows "(\<forall>i<length recs. pb_previous_record_hash (pr_body (recs ! i)) =
            (if i = 0 then None else Some (pr_record_hash (recs ! (i - 1)))))
    \<and> (recs = recs' \<or>
       (\<exists>a\<in>set recs. \<exists>b\<in>set recs'. ser_collision (pe_sha256 env) (pe_ser_body env) (pr_body a) (pr_body b)))"
  using proofpath_chain.tamper_evident [OF assms] proofpath_chain.chain_links [OF assms(2)] by blast

theorem proofpath_head_commits_witness:
  "pb_previous_record_hash (pr_body ([pp_record] ! 0)) = None"
proof -
  have "fold_result (apply_record pp_env ''s'') proofpath_default [pp_record] = Inr pp_state" using pp_apply by simp
  from proofpath_head_commits [OF _ this this refl] show ?thesis by (simp add: pp_env_def)
qed

text \<open>Namespaces are isolated.  An opening touches no other directory of the root; a namespace that
  opens is one path component of at most 64 characters that begins with a letter or digit, different
  namespaces have different directories, and the keys of two operations in two such namespaces differ
  unless both agree or the digest collides.\<close>

theorem namespaces_isolated:
  assumes "proofpath_open env disks ns = (disks', Inr l)" "proofpath_open env disks2 ns2 = (disks2', Inr l2)"
  shows "(\<forall>path. path \<noteq> namespace_path ns \<longrightarrow> disks' path = disks path)
    \<and> ns \<noteq> [] \<and> length ns \<le> 64 \<and> CHR ''/'' \<notin> set ns \<and> hd ns \<noteq> CHR ''.'' \<and> pl_namespace l = ns
    \<and> (namespace_path ns = namespace_path ns2 \<longleftrightarrow> ns = ns2)
    \<and> (ingestion_key env ns a = ingestion_key env ns2 b \<longrightarrow> ns = ns2 \<and> a = b \<or>
         (\<exists>x y. x \<noteq> y \<and> pe_sha256 env x = pe_sha256 env y))"
proof -
  have safe: "ns \<noteq> [] \<and> length ns \<le> 64 \<and> CHR ''/'' \<notin> set ns \<and> hd ns \<noteq> CHR ''.'' \<and> pl_namespace l = ns"
    and nul: "CHR 0x00 \<notin> set ns" "CHR 0x00 \<notin> set ns2"
    using proofpath_open_ns [OF assms(1)] proofpath_open_ns [OF assms(2)] normalize_namespace_safe by blast+
  define x where "x = ns @ CHR 0x00 # a @ CHR 0x00 # RECORD_KIND"
  define y where "y = ns2 @ CHR 0x00 # b @ CHR 0x00 # RECORD_KIND"
  have keys: "x = y \<Longrightarrow> ns = ns2 \<and> a = b"
    using append_Cons_split [OF nul, of "a @ CHR 0x00 # RECORD_KIND" "b @ CHR 0x00 # RECORD_KIND"] by (simp add: x_def y_def)
  have "pe_sha256 env (as_bytes x) = pe_sha256 env (as_bytes y)" if "ingestion_key env ns a = ingestion_key env ns2 b"
    using that by (simp add: ingestion_key_def sha256_ref_def x_def y_def)
  then have "ns = ns2 \<and> a = b \<or> (\<exists>x y. x \<noteq> y \<and> pe_sha256 env x = pe_sha256 env y)"
    if "ingestion_key env ns a = ingestion_key env ns2 b"
    using that keys by (cases "x = y") (blast, metis as_bytes_inject)
  moreover have "namespace_path ns = namespace_path ns2 \<longleftrightarrow> ns = ns2" by (simp add: namespace_path_def)
  moreover have "\<forall>path. path \<noteq> namespace_path ns \<longrightarrow> disks' path = disks path"
    using proofpath_open_isolated [OF assms(1)] by blast
  ultimately show ?thesis using safe by blast
qed

theorem namespaces_isolated_witness:
  "fst (proofpath_open pp_env (\<lambda>_. empty_disk) ''s'') ''elsewhere'' = empty_disk"
proof -
  have "''elsewhere'' \<noteq> namespace_path ''s''" by (simp add: namespace_path_def LEDGER_DIR_def)
  then show ?thesis using namespaces_isolated [OF pp_open pp_open] by (simp add: pp_open)
qed

end
