(* ===== verification/Snapshot_Durability.thy ===== *)
theory Snapshot_Durability
  imports Wal
begin

text \<open>
  Crash-safe replacement of a snapshot file: \<open>snapshot_durability.rs\<close> and the failpoint names of
  \<open>durability.rs\<close>.  The replacement works on three names of one directory, the snapshot, a temporary
  file and a rollback file.  Every system call consumes one entry of a plan, which lets it proceed,
  makes it fail, or ends the process inside it; a write that does not proceed has written a prefix.
  The plan also decides whether a failpoint of the source ends the process.  What has been written
  or renamed before the process ends is what the next process finds.

  A path is the name of a file of the snapshot directory, so \<open>parent\<close> and \<open>file_name\<close> succeed.  The three
  names are taken not to be directories: removing and renaming what they name fails by the plan only.
\<close>

section \<open>Failpoints\<close>

datatype DurabilityFailpoint =
  BeforeWalWrite | AfterWalWriteBeforeFlush | AfterWalFlushBeforeSync | AfterWalSyncBeforeReturn
  | SnapshotDuringTempWrite | SnapshotAfterFileSyncBeforeRename | SnapshotAfterRenameBeforeDirectorySync
  | WalSegmentRotation

definition failpoint_ALL :: "DurabilityFailpoint list" where
  "failpoint_ALL =
     [BeforeWalWrite, AfterWalWriteBeforeFlush, AfterWalFlushBeforeSync, AfterWalSyncBeforeReturn,
      SnapshotDuringTempWrite, SnapshotAfterFileSyncBeforeRename,
      SnapshotAfterRenameBeforeDirectorySync, WalSegmentRotation]"

fun failpoint_as_str :: "DurabilityFailpoint \<Rightarrow> string" where
  "failpoint_as_str BeforeWalWrite = ''before_wal_write''"
| "failpoint_as_str AfterWalWriteBeforeFlush = ''after_wal_write_before_flush''"
| "failpoint_as_str AfterWalFlushBeforeSync = ''after_wal_flush_before_sync''"
| "failpoint_as_str AfterWalSyncBeforeReturn = ''after_wal_sync_before_return''"
| "failpoint_as_str SnapshotDuringTempWrite = ''snapshot_during_temp_write''"
| "failpoint_as_str SnapshotAfterFileSyncBeforeRename = ''snapshot_after_file_sync_before_rename''"
| "failpoint_as_str SnapshotAfterRenameBeforeDirectorySync = ''snapshot_after_rename_before_directory_sync''"
| "failpoint_as_str WalSegmentRotation = ''wal_segment_rotation''"

text \<open>Whether \<open>crash_if\<close> ends the process, for the value of \<open>LIMINALDB_FAILPOINT\<close>.\<close>

definition crash_if :: "string option \<Rightarrow> DurabilityFailpoint \<Rightarrow> bool" where
  "crash_if selected point \<longleftrightarrow> selected = Some (failpoint_as_str point)"

section \<open>System calls under a plan\<close>

datatype fault = Proceed | FailWith nat | CrashAt nat

datatype snap_error = IoFailure | Crashed

record snap_fs =
  sf_dir :: directory
  sf_plan :: "fault list"

text \<open>One call with its full effect \<open>eff\<close>, and its effect when it stops after \<open>k\<close> bytes.\<close>

definition syscall :: "(directory \<Rightarrow> directory) \<Rightarrow> (nat \<Rightarrow> directory \<Rightarrow> directory) \<Rightarrow> snap_fs \<Rightarrow>
    (snap_fs, snap_error, unit) outcome" where
  "syscall eff part fs =
     (case sf_plan fs of
        [] \<Rightarrow> (fs\<lparr>sf_dir := eff (sf_dir fs)\<rparr>, Inr ())
      | Proceed # plan \<Rightarrow> (\<lparr>sf_dir = eff (sf_dir fs), sf_plan = plan\<rparr>, Inr ())
      | FailWith k # plan \<Rightarrow> (\<lparr>sf_dir = part k (sf_dir fs), sf_plan = plan\<rparr>, Inl IoFailure)
      | CrashAt k # plan \<Rightarrow> (\<lparr>sf_dir = part k (sf_dir fs), sf_plan = plan\<rparr>, Inl Crashed))"

definition path_exists :: "string \<Rightarrow> snap_fs \<Rightarrow> bool" where
  "path_exists name fs \<longleftrightarrow> bt_get (sf_dir fs) name \<noteq> None"

definition remove_file :: "string \<Rightarrow> snap_fs \<Rightarrow> (snap_fs, snap_error, unit) outcome" where
  "remove_file name = syscall (bt_remove name) (\<lambda>_ d. d)"

definition rename_effect :: "string \<Rightarrow> string \<Rightarrow> directory \<Rightarrow> directory" where
  "rename_effect old new d =
     (case bt_get d old of None \<Rightarrow> d | Some e \<Rightarrow> bt_insert new e (bt_remove old d))"

definition fs_rename :: "string \<Rightarrow> string \<Rightarrow> snap_fs \<Rightarrow> (snap_fs, snap_error, unit) outcome" where
  "fs_rename old new fs =
     (if path_exists old fs then syscall (rename_effect old new) (\<lambda>_ d. d) fs else (fs, Inl IoFailure))"

definition create_truncate :: "string \<Rightarrow> snap_fs \<Rightarrow> (snap_fs, snap_error, unit) outcome" where
  "create_truncate name = syscall (bt_insert name (RegularFile [])) (\<lambda>_ d. d)"

definition append_bytes :: "string \<Rightarrow> bytes \<Rightarrow> directory \<Rightarrow> directory" where
  "append_bytes name bs d =
     bt_insert name (RegularFile ((case dir_file d name of Some f \<Rightarrow> f | None \<Rightarrow> []) @ bs)) d"

definition fs_write :: "string \<Rightarrow> bytes \<Rightarrow> snap_fs \<Rightarrow> (snap_fs, snap_error, unit) outcome" where
  "fs_write name bs = syscall (append_bytes name bs) (\<lambda>k. append_bytes name (take k bs))"

text \<open>\<open>flush\<close>, \<open>sync_all\<close>, \<open>sync_directory\<close>.\<close>

definition fs_sync :: "snap_fs \<Rightarrow> (snap_fs, snap_error, unit) outcome" where
  "fs_sync = syscall (\<lambda>d. d) (\<lambda>_ d. d)"

text \<open>\<open>trigger_durability_failpoint\<close> ends the process or does nothing.\<close>

definition trigger_failpoint :: "DurabilityFailpoint \<Rightarrow> snap_fs \<Rightarrow> (snap_fs, snap_error, unit) outcome" where
  "trigger_failpoint point fs =
     (case sf_plan fs of
        CrashAt _ # plan \<Rightarrow> (fs\<lparr>sf_plan := plan\<rparr>, Inl Crashed)
      | _ \<Rightarrow> (fs\<lparr>sf_plan := tl (sf_plan fs)\<rparr>, Inr ()))"

text \<open>\<open>let _ = call\<close>.\<close>

definition ignore_error :: "(snap_fs, snap_error, unit) outcome \<Rightarrow> (snap_fs, snap_error, unit) outcome" where
  "ignore_error r = (case r of (fs, Inl IoFailure) \<Rightarrow> (fs, Inr ()) | _ \<Rightarrow> r)"

definition do_when :: "bool \<Rightarrow> (snap_fs \<Rightarrow> (snap_fs, snap_error, unit) outcome) \<Rightarrow> snap_fs \<Rightarrow>
    (snap_fs, snap_error, unit) outcome" where
  "do_when c f fs = (if c then f fs else (fs, Inr ()))"

section \<open>The replacement\<close>

definition sibling :: "string \<Rightarrow> string \<Rightarrow> string" where
  "sibling name suffix = ''.'' @ name @ suffix"

definition temporary_path :: "string \<Rightarrow> string" where
  "temporary_path name = sibling name ''.tmp''"

definition rollback_path :: "string \<Rightarrow> string" where
  "rollback_path name = sibling name ''.rollback''"

definition recover_interrupted_snapshot_replace :: "string \<Rightarrow> snap_fs \<Rightarrow> (snap_fs, snap_error, unit) outcome" where
  "recover_interrupted_snapshot_replace snapshot fs =
     (let temporary = temporary_path snapshot;
          backup = rollback_path snapshot
      in sbind
           (if path_exists snapshot fs then
              do_when (path_exists backup fs) (\<lambda>fs. sbind (remove_file backup fs) (\<lambda>fs _. fs_sync fs)) fs
            else
              do_when (path_exists backup fs) (\<lambda>fs. sbind (fs_rename backup snapshot fs) (\<lambda>fs _. fs_sync fs)) fs)
           (\<lambda>fs _. do_when (path_exists temporary fs)
              (\<lambda>fs. sbind (remove_file temporary fs) (\<lambda>fs _. fs_sync fs)) fs))"

definition replace_snapshot_bytes_crash_safe :: "string \<Rightarrow> bytes \<Rightarrow> snap_fs \<Rightarrow> (snap_fs, snap_error, unit) outcome" where
  "replace_snapshot_bytes_crash_safe snapshot bs fs =
     (let temporary = temporary_path snapshot;
          backup = rollback_path snapshot;
          midpoint = length bs div 2
      in sbind (recover_interrupted_snapshot_replace snapshot fs) (\<lambda>fs _.
         sbind (do_when (path_exists temporary fs) (remove_file temporary) fs) (\<lambda>fs _.
         sbind (create_truncate temporary fs) (\<lambda>fs _.
         sbind (fs_write temporary (take midpoint bs) fs) (\<lambda>fs _.
         sbind (fs_sync fs) (\<lambda>fs _.
         sbind (trigger_failpoint SnapshotDuringTempWrite fs) (\<lambda>fs _.
         sbind (fs_write temporary (drop midpoint bs) fs) (\<lambda>fs _.
         sbind (fs_sync fs) (\<lambda>fs _.
         sbind (fs_sync fs) (\<lambda>fs _.
         sbind (trigger_failpoint SnapshotAfterFileSyncBeforeRename fs) (\<lambda>fs _.
         sbind (do_when (path_exists snapshot fs)
                  (\<lambda>fs. sbind (do_when (path_exists backup fs) (remove_file backup) fs)
                          (\<lambda>fs _. fs_rename snapshot backup fs)) fs) (\<lambda>fs _.
         sbind (case fs_rename temporary snapshot fs of
                  (fs, Inl IoFailure) \<Rightarrow>
                    sbind (do_when (\<not> path_exists snapshot fs \<and> path_exists backup fs)
                             (\<lambda>fs. ignore_error (fs_rename backup snapshot fs)) fs)
                      (\<lambda>fs _. (fs, Inl IoFailure))
                | r \<Rightarrow> r) (\<lambda>fs _.
         sbind (trigger_failpoint SnapshotAfterRenameBeforeDirectorySync fs) (\<lambda>fs _.
         sbind (fs_sync fs) (\<lambda>fs _.
         do_when (path_exists backup fs) (\<lambda>fs. sbind (remove_file backup fs) (\<lambda>fs _. fs_sync fs)) fs)))))))))))))))"

section \<open>What a reader finds\<close>

text \<open>The snapshot a recovery installs: the file itself, or the rollback copy when it is missing.\<close>

definition snap_view :: "string \<Rightarrow> directory \<Rightarrow> dir_entry option" where
  "snap_view snapshot d =
     (case bt_get d snapshot of Some e \<Rightarrow> Some e | None \<Rightarrow> bt_get d (rollback_path snapshot))"

lemma sibling_distinct [simp]:
  "temporary_path n \<noteq> n" "rollback_path n \<noteq> n" "temporary_path n \<noteq> rollback_path n"
  "n \<noteq> temporary_path n" "n \<noteq> rollback_path n" "rollback_path n \<noteq> temporary_path n"
proof -
  have "length (temporary_path n) \<noteq> length n" "length (rollback_path n) \<noteq> length n"
    "length (temporary_path n) \<noteq> length (rollback_path n)"
    by (simp_all add: temporary_path_def rollback_path_def sibling_def)
  then show "temporary_path n \<noteq> n" "rollback_path n \<noteq> n" "temporary_path n \<noteq> rollback_path n"
    "n \<noteq> temporary_path n" "n \<noteq> rollback_path n" "rollback_path n \<noteq> temporary_path n"
    by metis+
qed

text \<open>Assertions on the directory: \<open>ensures P m Q E\<close> says that from a directory with \<open>P\<close> the
  call ends in \<open>Q\<close>, or fails or crashes in \<open>E\<close>, whatever the plan.\<close>

definition ensures :: "(directory \<Rightarrow> bool) \<Rightarrow> (snap_fs \<Rightarrow> (snap_fs, snap_error, unit) outcome) \<Rightarrow>
    (directory \<Rightarrow> bool) \<Rightarrow> (directory \<Rightarrow> bool) \<Rightarrow> bool" where
  "ensures P m Q E \<longleftrightarrow>
     (\<forall>fs. P (sf_dir fs) \<longrightarrow>
        (case m fs of (fs', Inr _) \<Rightarrow> Q (sf_dir fs') | (fs', Inl _) \<Rightarrow> E (sf_dir fs')))"

lemma ensures_bind:
  assumes m: "ensures P m R E" and f: "ensures R f Q E"
  shows "ensures P (\<lambda>fs. sbind (m fs) (\<lambda>fs _. f fs)) Q E"
  unfolding ensures_def
proof (intro allI impI)
  fix fs :: snap_fs
  assume P: "P (sf_dir fs)"
  obtain fs1 r where r: "m fs = (fs1, r)" by (cases "m fs")
  show "case sbind (m fs) (\<lambda>fs _. f fs) of
      (fs', Inr _) \<Rightarrow> Q (sf_dir fs') | (fs', Inl _) \<Rightarrow> E (sf_dir fs')"
  proof (cases r)
    case (Inl e)
    then show ?thesis using m [unfolded ensures_def, rule_format, OF P] r by simp
  next
    case (Inr u)
    then have "R (sf_dir fs1)" using m [unfolded ensures_def, rule_format, OF P] r by simp
    from f [unfolded ensures_def, rule_format, OF this] show ?thesis using r Inr by simp
  qed
qed

lemma ensures_syscall:
  assumes "\<And>d. P d \<Longrightarrow> Q (eff d)" "\<And>k d. P d \<Longrightarrow> E (part k d)"
  shows "ensures P (syscall eff part) Q E"
  using assms by (auto simp: ensures_def syscall_def split: list.splits fault.splits)

lemma ensures_sync: "(\<And>d. P d \<Longrightarrow> E d) \<Longrightarrow> ensures P fs_sync P E"
  unfolding fs_sync_def by (rule ensures_syscall)

lemma ensures_trigger: "(\<And>d. P d \<Longrightarrow> E d) \<Longrightarrow> ensures P (trigger_failpoint point) P E"
  by (auto simp: ensures_def trigger_failpoint_def split: list.splits fault.splits)

lemma ensures_do_when:
  assumes "ensures (\<lambda>d. P d \<and> bt_get d name \<noteq> None) f Q E" "\<And>d. P d \<Longrightarrow> bt_get d name = None \<Longrightarrow> Q d"
  shows "ensures P (\<lambda>fs. do_when (path_exists name fs) f fs) Q E"
  using assms by (auto simp: ensures_def do_when_def path_exists_def)

lemma ensures_if:
  assumes "ensures (\<lambda>d. P d \<and> bt_get d name \<noteq> None) f Q E" "ensures (\<lambda>d. P d \<and> bt_get d name = None) g Q E"
  shows "ensures P (\<lambda>fs. if path_exists name fs then f fs else g fs) Q E"
  using assms by (auto simp: ensures_def path_exists_def)

lemma ensures_rename:
  assumes "\<And>d. P d \<Longrightarrow> bt_get d old \<noteq> None" "\<And>d. P d \<Longrightarrow> Q (rename_effect old new d)" "\<And>d. P d \<Longrightarrow> E d"
  shows "ensures P (fs_rename old new) Q E"
  using assms
  by (auto simp: ensures_def fs_rename_def path_exists_def syscall_def split: list.splits fault.splits)

section \<open>Recovery and replacement\<close>

definition snap_clean :: "string \<Rightarrow> dir_entry option \<Rightarrow> directory \<Rightarrow> bool" where
  "snap_clean n v d \<longleftrightarrow> bt_wf d \<and> bt_get d n = v \<and> bt_get d (rollback_path n) = None
     \<and> bt_get d (temporary_path n) = None"

definition snap_shows :: "string \<Rightarrow> dir_entry option set \<Rightarrow> directory \<Rightarrow> bool" where
  "snap_shows n vs d \<longleftrightarrow> bt_wf d \<and> snap_view n d \<in> vs"

lemma rename_effect_get:
  "bt_wf d \<Longrightarrow> bt_get d old = Some e \<Longrightarrow> old \<noteq> new \<Longrightarrow>
     bt_get (rename_effect old new d) k = (if k = new then Some e else if k = old then None else bt_get d k)"
  by (simp add: rename_effect_def)

lemma rename_effect_wf [simp]: "bt_wf d \<Longrightarrow> bt_wf (rename_effect old new d)"
  by (simp add: rename_effect_def split: option.splits)

lemma recover_ensures:
  "ensures (snap_shows n {v}) (recover_interrupted_snapshot_replace n) (snap_clean n v) (snap_shows n {v})"
proof -
  let ?E = "snap_shows n {v}"
  let ?R = "\<lambda>d. bt_wf d \<and> bt_get d n = v \<and> bt_get d (rollback_path n) = None"
  note defs = snap_shows_def snap_clean_def snap_view_def
  have restore: "ensures ?E (\<lambda>fs. if path_exists n fs then
        do_when (path_exists (rollback_path n) fs) (\<lambda>fs. sbind (remove_file (rollback_path n) fs) (\<lambda>fs _. fs_sync fs)) fs
      else do_when (path_exists (rollback_path n) fs) (\<lambda>fs. sbind (fs_rename (rollback_path n) n fs) (\<lambda>fs _. fs_sync fs)) fs)
      ?R ?E"
  proof (intro ensures_if ensures_do_when ensures_bind [where R = ?R] ensures_sync)
    show "ensures (\<lambda>d. (?E d \<and> bt_get d n \<noteq> None) \<and> bt_get d (rollback_path n) \<noteq> None)
        (remove_file (rollback_path n)) ?R ?E"
      unfolding remove_file_def by (rule ensures_syscall) (auto simp: defs)
    show "ensures (\<lambda>d. (?E d \<and> bt_get d n = None) \<and> bt_get d (rollback_path n) \<noteq> None)
        (fs_rename (rollback_path n) n) ?R ?E"
      by (rule ensures_rename) (auto simp: defs rename_effect_get)
  qed (auto simp: defs split: option.splits)
  have tidy: "ensures ?R (\<lambda>fs. do_when (path_exists (temporary_path n) fs)
      (\<lambda>fs. sbind (remove_file (temporary_path n) fs) (\<lambda>fs _. fs_sync fs)) fs) (snap_clean n v) ?E"
  proof (intro ensures_do_when ensures_bind [where R = "snap_clean n v"] ensures_sync)
    show "ensures (\<lambda>d. ?R d \<and> bt_get d (temporary_path n) \<noteq> None) (remove_file (temporary_path n))
        (snap_clean n v) ?E"
      unfolding remove_file_def by (rule ensures_syscall) (auto simp: defs split: option.splits)
  qed (auto simp: defs split: option.splits)
  show ?thesis
    using ensures_bind [OF restore tidy]
    unfolding recover_interrupted_snapshot_replace_def Let_def .
qed

text \<open>The temporary file while it is written.\<close>

definition snap_writing :: "string \<Rightarrow> dir_entry option \<Rightarrow> bytes \<Rightarrow> directory \<Rightarrow> bool" where
  "snap_writing n v f d \<longleftrightarrow> bt_wf d \<and> bt_get d n = v \<and> bt_get d (rollback_path n) = None
     \<and> bt_get d (temporary_path n) = Some (RegularFile f)"

lemma snap_writing_shows: "snap_writing n v f d \<Longrightarrow> snap_shows n (insert v vs) d"
  by (auto simp: snap_writing_def snap_shows_def snap_view_def split: option.splits)

lemma snap_clean_shows: "snap_clean n v d \<Longrightarrow> snap_shows n (insert v vs) d"
  by (auto simp: snap_clean_def snap_shows_def snap_view_def split: option.splits)

lemma append_bytes_writing:
  "snap_writing n v f d \<Longrightarrow> snap_writing n v (f @ bs) (append_bytes (temporary_path n) bs d)"
  by (simp add: snap_writing_def append_bytes_def dir_file_def)

lemma write_temporary_ensures:
  "ensures (snap_writing n v f) (fs_write (temporary_path n) bs) (snap_writing n v (f @ bs))
     (snap_shows n (insert v vs))"
  unfolding fs_write_def
  by (rule ensures_syscall) (blast intro: append_bytes_writing snap_writing_shows)+

lemma create_temporary_ensures:
  "ensures (snap_clean n v) (create_truncate (temporary_path n)) (snap_writing n v [])
     (snap_shows n (insert v vs))"
  unfolding create_truncate_def
  by (rule ensures_syscall) (auto simp: snap_clean_shows, simp add: snap_clean_def snap_writing_def)

text \<open>The two renames.\<close>

definition snap_moved :: "string \<Rightarrow> dir_entry option \<Rightarrow> bytes \<Rightarrow> directory \<Rightarrow> bool" where
  "snap_moved n v f d \<longleftrightarrow> bt_wf d \<and> bt_get d n = None \<and> bt_get d (rollback_path n) = v
     \<and> bt_get d (temporary_path n) = Some (RegularFile f)"

definition snap_installed :: "string \<Rightarrow> bytes \<Rightarrow> directory \<Rightarrow> bool" where
  "snap_installed n f d \<longleftrightarrow> bt_wf d \<and> bt_get d n = Some (RegularFile f) \<and> bt_get d (temporary_path n) = None"

lemma snap_moved_shows: "snap_moved n v f d \<Longrightarrow> snap_shows n (insert v vs) d"
  by (simp add: snap_moved_def snap_shows_def snap_view_def)

lemma snap_installed_shows: "snap_installed n f d \<Longrightarrow> snap_shows n {v, Some (RegularFile f)} d"
  by (simp add: snap_installed_def snap_shows_def snap_view_def)

lemma ensures_pre: "ensures P m Q E \<Longrightarrow> (\<And>d. P' d \<Longrightarrow> P d) \<Longrightarrow> ensures P' m Q E"
  by (auto simp: ensures_def)

lemma ensures_err: "ensures P m Q E \<Longrightarrow> (\<And>d. E d \<Longrightarrow> E' d) \<Longrightarrow> ensures P m Q E'"
  by (fastforce simp: ensures_def split: prod.splits sum.splits)

lemma backup_ensures:
  "ensures (snap_writing n v f)
     (\<lambda>fs. do_when (path_exists n fs)
        (\<lambda>fs. sbind (do_when (path_exists (rollback_path n) fs) (remove_file (rollback_path n)) fs)
           (\<lambda>fs _. fs_rename n (rollback_path n) fs)) fs)
     (snap_moved n v f) (snap_shows n (insert v vs))"
proof (intro ensures_do_when ensures_bind [where R = "\<lambda>d. snap_writing n v f d \<and> bt_get d n \<noteq> None"])
  show "ensures (\<lambda>d. (snap_writing n v f d \<and> bt_get d n \<noteq> None) \<and> bt_get d (rollback_path n) \<noteq> None)
      (remove_file (rollback_path n)) (\<lambda>d. snap_writing n v f d \<and> bt_get d n \<noteq> None)
      (snap_shows n (insert v vs))"
    by (auto simp: ensures_def snap_writing_def)
  show "ensures (\<lambda>d. snap_writing n v f d \<and> bt_get d n \<noteq> None) (fs_rename n (rollback_path n))
      (snap_moved n v f) (snap_shows n (insert v vs))"
    by (rule ensures_rename)
       (auto simp: snap_writing_def snap_moved_def rename_effect_get
             intro!: snap_writing_shows [unfolded snap_writing_def])
qed (auto simp: snap_writing_def snap_moved_def)

lemma install_ensures:
  "ensures (snap_moved n v f)
     (\<lambda>fs. case fs_rename (temporary_path n) n fs of
        (fs, Inl IoFailure) \<Rightarrow>
          sbind (do_when (\<not> path_exists n fs \<and> path_exists (rollback_path n) fs)
                   (\<lambda>fs. ignore_error (fs_rename (rollback_path n) n fs)) fs) (\<lambda>fs _. (fs, Inl IoFailure))
      | r \<Rightarrow> r)
     (snap_installed n f) (snap_shows n {v, Some (RegularFile f)})"
  (is "ensures ?P ?m ?Q ?E")
proof -
  have mv: "ensures ?P (fs_rename (temporary_path n) n) ?Q (snap_moved n v f)"
    by (rule ensures_rename) (auto simp: snap_moved_def snap_installed_def rename_effect_get)
  have undo: "ensures (snap_moved n v f) (fs_rename (rollback_path n) n) ?E ?E"
    unfolding ensures_def
    by (auto simp: fs_rename_def path_exists_def syscall_def snap_moved_def snap_shows_def snap_view_def
        rename_effect_get split: list.splits fault.splits)
  show ?thesis
    unfolding ensures_def
  proof (intro allI impI)
    fix fs :: snap_fs
    assume P: "?P (sf_dir fs)"
    obtain fs1 r where r1: "fs_rename (temporary_path n) n fs = (fs1, r)" by (cases "fs_rename (temporary_path n) n fs")
    obtain fs2 q where r2: "fs_rename (rollback_path n) n fs1 = (fs2, q)" by (cases "fs_rename (rollback_path n) n fs1")
    have ok: "r = Inr u \<Longrightarrow> ?Q (sf_dir fs1)" and err: "r = Inl e \<Longrightarrow> snap_moved n v f (sf_dir fs1)" for u e
      using mv P r1 by (auto simp: ensures_def)
    have "r = Inl e \<Longrightarrow> ?E (sf_dir fs1) \<and> ?E (sf_dir fs2)" for e
      using err snap_moved_shows undo r2 by (cases q) (auto simp: ensures_def)
    with ok show "case ?m fs of (fs', Inr _) \<Rightarrow> ?Q (sf_dir fs') | (fs', Inl _) \<Rightarrow> ?E (sf_dir fs')"
      by (cases r; cases q) (auto simp: r1 r2 do_when_def ignore_error_def split: snap_error.splits)
  qed
qed

lemma finish_ensures:
  "ensures (snap_installed n f)
     (\<lambda>fs. do_when (path_exists (rollback_path n) fs)
        (\<lambda>fs. sbind (remove_file (rollback_path n) fs) (\<lambda>fs _. fs_sync fs)) fs)
     (snap_clean n (Some (RegularFile f))) (snap_shows n {v, Some (RegularFile f)})"
proof (intro ensures_do_when ensures_bind [where R = "snap_clean n (Some (RegularFile f))"] ensures_sync)
  show "ensures (\<lambda>d. snap_installed n f d \<and> bt_get d (rollback_path n) \<noteq> None) (remove_file (rollback_path n))
      (snap_clean n (Some (RegularFile f))) (snap_shows n {v, Some (RegularFile f)})"
    unfolding remove_file_def
    by (rule ensures_syscall) (auto simp: snap_installed_def snap_clean_def snap_shows_def snap_view_def)
qed (auto simp: snap_installed_def snap_clean_def snap_shows_def snap_view_def)

lemma replace_ensures:
  "ensures (snap_shows n {v}) (replace_snapshot_bytes_crash_safe n bs)
     (snap_clean n (Some (RegularFile bs))) (snap_shows n {v, Some (RegularFile bs)})"
proof -
  let ?mid = "length bs div 2"
  let ?E = "snap_shows n {v, Some (RegularFile bs)}"
  have wider: "snap_shows n {v} d \<Longrightarrow> ?E d" for d by (auto simp: snap_shows_def)
  have keep: "snap_writing n v f d \<Longrightarrow> ?E d" for f d by (rule snap_writing_shows)
  have written: "snap_writing n v (take ?mid bs @ drop ?mid bs) = snap_writing n v bs" by simp
  have recover: "ensures (snap_shows n {v}) (recover_interrupted_snapshot_replace n) (snap_clean n v) ?E"
    by (rule ensures_err [OF recover_ensures]) (rule wider)
  have clear: "ensures (snap_clean n v)
      (\<lambda>fs. do_when (path_exists (temporary_path n) fs) (remove_file (temporary_path n)) fs) (snap_clean n v) ?E"
    by (rule ensures_do_when) (auto simp: ensures_def snap_clean_def)
  have first: "ensures (snap_writing n v []) (fs_write (temporary_path n) (take ?mid bs))
      (snap_writing n v (take ?mid bs)) ?E"
    using write_temporary_ensures [of n v "[]"] by simp
  have second: "ensures (snap_writing n v (take ?mid bs)) (fs_write (temporary_path n) (drop ?mid bs))
      (snap_writing n v bs) ?E"
    using write_temporary_ensures [of n v "take ?mid bs" "drop ?mid bs"] by simp
  show ?thesis
    unfolding replace_snapshot_bytes_crash_safe_def Let_def
    by (intro ensures_bind [OF recover] ensures_bind [OF clear] ensures_bind [OF create_temporary_ensures]
        ensures_bind [OF first] ensures_bind [OF second] ensures_bind [OF backup_ensures]
        ensures_bind [OF install_ensures] ensures_bind [OF ensures_sync] ensures_bind [OF ensures_trigger]
        finish_ensures)
       (simp_all add: keep snap_installed_shows)
qed

lemma ensures_outcome:
  assumes "ensures P m Q E" "P (sf_dir fs)" "m fs = (fs', r)"
  shows "case r of Inr _ \<Rightarrow> Q (sf_dir fs') | Inl _ \<Rightarrow> E (sf_dir fs')"
  using assms by (auto simp: ensures_def)

text \<open>Without faults every call succeeds.\<close>

lemma recover_no_fault:
  assumes "sf_plan fs = []"
  shows "\<exists>fs'. recover_interrupted_snapshot_replace n fs = (fs', Inr ()) \<and> sf_plan fs' = []"
  using assms
  by (simp add: recover_interrupted_snapshot_replace_def Let_def do_when_def remove_file_def fs_sync_def
      fs_rename_def syscall_def)

section \<open>Atomicity\<close>

text \<open>C3: Replacing a snapshot is atomic under failing calls and process crashes.  Whatever the plan
  makes of the individual system calls, the recovery that the next process runs succeeds and
  installs either the snapshot that was there before (or its rollback copy) or the complete new one,
  with no temporary or rollback file left; and when the replacement returns success the new bytes
  are installed.\<close>

theorem snapshot_replace_atomic:
  assumes "bt_wf d" and "replace_snapshot_bytes_crash_safe n bs \<lparr>sf_dir = d, sf_plan = plan\<rparr> = (fs, r)"
  shows "\<exists>fs'. recover_interrupted_snapshot_replace n \<lparr>sf_dir = sf_dir fs, sf_plan = []\<rparr> = (fs', Inr ())
      \<and> bt_get (sf_dir fs') n \<in> {snap_view n d, Some (RegularFile bs)}
      \<and> bt_get (sf_dir fs') (temporary_path n) = None \<and> bt_get (sf_dir fs') (rollback_path n) = None
      \<and> (r = Inr () \<longrightarrow> bt_get (sf_dir fs) n = Some (RegularFile bs)
                        \<and> bt_get (sf_dir fs') n = Some (RegularFile bs))"
proof -
  have pre: "snap_shows n {snap_view n d} (sf_dir \<lparr>sf_dir = d, sf_plan = plan\<rparr>)"
    using assms(1) by (simp add: snap_shows_def)
  note post = ensures_outcome [OF replace_ensures pre assms(2)]
  have view: "bt_wf (sf_dir fs)" "snap_view n (sf_dir fs) \<in> {snap_view n d, Some (RegularFile bs)}"
    and ok: "r = Inr () \<Longrightarrow> bt_get (sf_dir fs) n = Some (RegularFile bs)
        \<and> snap_view n (sf_dir fs) = Some (RegularFile bs)"
    using post by (auto simp: snap_clean_def snap_shows_def snap_view_def split: sum.splits)
  obtain fs' where run: "recover_interrupted_snapshot_replace n \<lparr>sf_dir = sf_dir fs, sf_plan = []\<rparr> = (fs', Inr ())"
    using recover_no_fault [of "\<lparr>sf_dir = sf_dir fs, sf_plan = []\<rparr>" n] by auto
  have "snap_clean n (snap_view n (sf_dir fs)) (sf_dir fs')"
    using ensures_outcome [OF recover_ensures _ run, of "snap_view n (sf_dir fs)"] view(1)
    by (simp add: snap_shows_def)
  then show ?thesis using run view(2) ok by (auto simp: snap_clean_def)
qed

text \<open>A crash between the two renames: the rollback copy is reinstalled.\<close>

theorem snapshot_replace_atomic_witness:
  "\<exists>fs fs'. replace_snapshot_bytes_crash_safe ''s'' [1, 2]
        \<lparr>sf_dir = [(''s'', RegularFile [9])], sf_plan = replicate 9 Proceed @ [CrashAt 0]\<rparr> = (fs, Inl Crashed)
      \<and> bt_get (sf_dir fs) ''s'' = None
      \<and> recover_interrupted_snapshot_replace ''s'' \<lparr>sf_dir = sf_dir fs, sf_plan = []\<rparr> = (fs', Inr ())
      \<and> bt_get (sf_dir fs') ''s'' \<in> {Some (RegularFile [9]), Some (RegularFile [1, 2])}"
proof -
  let ?fs = "\<lparr>sf_dir = [(''.s.rollback'', RegularFile [9]), (''.s.tmp'', RegularFile [1, 2])],
      sf_plan = []\<rparr>"
  have run: "replace_snapshot_bytes_crash_safe ''s'' [1, 2]
      \<lparr>sf_dir = [(''s'', RegularFile [9])], sf_plan = replicate 9 Proceed @ [CrashAt 0]\<rparr> = (?fs, Inl Crashed)"
    by code_simp
  have "bt_wf [(''s'', RegularFile [9])]" by (simp add: bt_wf_def)
  from snapshot_replace_atomic [OF this run] show ?thesis
    using run by (auto simp: snap_view_def)
qed

section \<open>Failpoint names\<close>

text \<open>Failpoints are addressed unambiguously.  The list of all failpoints names each of them once,
  and a value of the environment variable that is the name of one failpoint ends the process at that
  failpoint and at no other.\<close>

lemma failpoint_names_select:
  "distinct failpoint_ALL \<and> set failpoint_ALL = UNIV
   \<and> (crash_if (Some (failpoint_as_str p)) q \<longleftrightarrow> q = p) \<and> \<not> crash_if None q"
proof -
  have "set failpoint_ALL = UNIV"
    by (auto simp: failpoint_ALL_def intro: DurabilityFailpoint.exhaust)
  moreover have "crash_if (Some (failpoint_as_str p)) q \<longleftrightarrow> q = p"
    by (cases p; cases q) (simp_all add: crash_if_def)
  ultimately show ?thesis by (simp add: failpoint_ALL_def crash_if_def)
qed

end
