(* ===== verification/Transition.thy ===== *)
theory Transition
  imports Snapshot_Durability Hash_Chain
begin

text \<open>
  The trustworthy transition ledger, \<open>trustworthy_transition.rs\<close>, first part: the event model, the
  validation of inputs and event bodies, and the deterministic projection that an event updates.
  The serde and SHA-256 crates are the fields of \<open>transition_env\<close>; sequence numbers, epochs and
  counters are 64-bit words with the wrapping addition of a release build.
\<close>

section \<open>Event model\<close>

definition EVENT_SCHEMA :: string where
  "EVENT_SCHEMA = ''liminaldb.trustworthy-transition-event.v0.1''"

definition SNAPSHOT_SCHEMA :: string where
  "SNAPSHOT_SCHEMA = ''liminaldb.trustworthy-transition-snapshot.v0.1''"

definition PROFILE :: string where
  "PROFILE = ''org.liminaldb.trustworthy-transition-ledger.v0.1''"

definition SNAPSHOT_FILE :: string where
  "SNAPSHOT_FILE = ''trustworthy-transition-v0.1.snap''"

datatype TransitionRecordKind =
  Authorization | Observation | ResponseIntegrity | CausalAudit | ContinuitySnapshot

datatype AuthorityState =
  AuthorityValid | Denied | Pending | Expired | ExpiredAtReport | Consumed | RevalidationRequired
  | AuthorityNotEvaluated | AuthorityUnknown

datatype ExecutionState = NotObserved | ObservedExecuted | ObservedBlocked | ObservedErrored | ObservedOther

datatype ResponseIntegrityState =
  Verified | Failed | Partial | ResponseNotEvaluated | ResponseUnknown

datatype CausalValidityState = CausalValid | CausalInvalid | CausalNotEvaluated | CausalUnknown

datatype ContinuityPosture =
  ContinueSideEffect | RetrySideEffect | ReportOnly | RemediateResponse | Revalidate | Blocked
  | AlreadyConsumed | PostureNotEvaluated

record TransitionDimensions =
  dim_authority :: AuthorityState
  dim_execution :: ExecutionState
  dim_response_integrity :: ResponseIntegrityState
  dim_causal_validity :: CausalValidityState
  dim_continuity_posture :: ContinuityPosture

record TransitionLinks =
  lk_authorization_ref :: "string option"
  lk_observation_refs :: "string list"
  lk_response_integrity_ref :: "string option"
  lk_causal_audit_ref :: "string option"
  lk_previous_continuity_ref :: "string option"

record TransitionEventInput =
  ti_transition_id :: string
  ti_subject_id :: string
  ti_kind :: TransitionRecordKind
  ti_record_ref :: string
  ti_payload_digest :: string
  ti_links :: TransitionLinks
  ti_dimensions :: "TransitionDimensions option"
  ti_side_effect_committed :: "bool option"
  ti_captured_at_ms :: u64

record TransitionEventBody =
  tb_schema :: string
  tb_profile :: string
  tb_sequence :: u64
  tb_transition_id :: string
  tb_subject_id :: string
  tb_kind :: TransitionRecordKind
  tb_record_ref :: string
  tb_payload_digest :: string
  tb_links :: TransitionLinks
  tb_dimensions :: "TransitionDimensions option"
  tb_side_effect_committed :: "bool option"
  tb_captured_at_ms :: u64
  tb_previous_event_hash :: "string option"

record TransitionEvent =
  te_body :: TransitionEventBody
  te_event_hash :: string

record TransitionProjection =
  tp_transition_id :: string
  tp_subject_id :: string
  tp_authorization_ref :: "string option"
  tp_authorization_epoch :: u64
  tp_observation_refs :: "string list"
  tp_response_integrity_ref :: "string option"
  tp_causal_audit_ref :: "string option"
  tp_continuity_snapshot_ref :: "string option"
  tp_dimensions :: "TransitionDimensions option"
  tp_side_effect_committed :: bool
  tp_last_sequence :: u64
  tp_last_event_hash :: string
  tp_event_count :: u64

record RecordOwner =
  ro_transition_id :: string
  ro_subject_id :: string
  ro_kind :: TransitionRecordKind

record LedgerState =
  ls_next_sequence :: u64
  ls_head_event_hash :: "string option"
  ls_projections :: "(string, TransitionProjection) btree_map"
  ls_record_owners :: "(string, RecordOwner) btree_map"

definition ledger_default :: LedgerState where
  "ledger_default =
     \<lparr>ls_next_sequence = 1, ls_head_event_hash = None, ls_projections = [], ls_record_owners = []\<rparr>"

record TransitionLedgerSnapshotBody =
  sb_schema :: string
  sb_profile :: string
  sb_wal_offset :: offset
  sb_next_sequence :: u64
  sb_head_event_hash :: "string option"
  sb_projections :: "(string, TransitionProjection) btree_map"
  sb_record_owners :: "(string, RecordOwner) btree_map"
  sb_projection_digest :: string
  sb_created_at_ms :: u64

record TransitionLedgerSnapshot =
  sn_body :: TransitionLedgerSnapshotBody
  sn_snapshot_digest :: string

record TransitionLedgerSnapshotInfo =
  si_path :: string
  si_offset :: offset
  si_event_count :: u64
  si_projection_count :: nat
  si_snapshot_digest :: string
  si_head_event_hash :: "string option"
  si_projection_digest :: string

text \<open>The text of a storage error is its cause.\<close>

datatype storage_cause = WalFailure wal_error | SnapshotFailure snap_error

datatype TransitionLedgerError =
  Storage storage_cause
  | Encoding string
  | InvalidIdentifier string
  | InvalidReference string
  | EventProfileMismatch
  | SnapshotProfileMismatch
  | SequenceMismatch u64 u64
  | PreviousEventHashMismatch
  | EventHashMismatch
  | SnapshotDigestMismatch
  | SnapshotProjectionDigestMismatch
  | ReplayProjectionMismatch
  | DuplicateRecordReference string
  | MissingAuthorization string
  | MissingParent string
  | ParentMismatch string
  | CrossTransitionReference string
  | SubjectMismatch string
  | ReauthorizationWithoutSupersession
  | ObservationSetMismatch
  | SideEffectRollback
  | ExecutionRollback
  | ContinuityDimensionsRequired
  | InvalidLinks TransitionRecordKind
  | PoisonedAfterStorageFailure

text \<open>The crates the ledger calls.  \<open>env_ser_material\<close> serializes \<open>ProjectionDigestMaterial\<close>,
  which borrows the four fields of the ledger state.\<close>

record 'h transition_env =
  env_crc :: "'h crc_hasher"
  env_sha256 :: "bytes \<Rightarrow> bytes"
  env_ser_body :: "TransitionEventBody \<Rightarrow> string + bytes"
  env_ser_event :: "TransitionEvent \<Rightarrow> string + bytes"
  env_de_event :: "bytes \<Rightarrow> string + TransitionEvent"
  env_ser_material :: "LedgerState \<Rightarrow> string + bytes"
  env_ser_snapshot_body :: "TransitionLedgerSnapshotBody \<Rightarrow> string + bytes"
  env_ser_snapshot :: "TransitionLedgerSnapshot \<Rightarrow> string + bytes"
  env_de_snapshot :: "bytes \<Rightarrow> string + TransitionLedgerSnapshot"

section \<open>Digests\<close>

definition digest_cbor :: "(bytes \<Rightarrow> bytes) \<Rightarrow> ('v \<Rightarrow> string + bytes) \<Rightarrow> 'v \<Rightarrow> TransitionLedgerError + string" where
  "digest_cbor sha256 to_vec v =
     rbind (map_err Encoding (to_vec v)) (\<lambda>bs. Inr (sha256_ref sha256 bs))"

definition projection_digest :: "'h transition_env \<Rightarrow> LedgerState \<Rightarrow> TransitionLedgerError + string" where
  "projection_digest env st = digest_cbor (env_sha256 env) (env_ser_material env) st"

section \<open>Validation\<close>

definition validate_canonical_identifier :: "string \<Rightarrow> string \<Rightarrow> TransitionLedgerError + unit" where
  "validate_canonical_identifier v label =
     (let trimmed = trim v in require (\<not> (trimmed = [] \<or> trimmed \<noteq> v)) (InvalidIdentifier label))"

definition non_empty :: "string \<Rightarrow> string \<Rightarrow> TransitionLedgerError + string" where
  "non_empty v label =
     (let normalized = trim v in if normalized = [] then Inl (InvalidIdentifier label) else Inr normalized)"

definition validate_ref :: "string \<Rightarrow> string \<Rightarrow> TransitionLedgerError + unit" where
  "validate_ref reference label = require (is_sha256_ref reference) (InvalidReference label)"

definition validate_optional_ref :: "string option \<Rightarrow> string \<Rightarrow> TransitionLedgerError + unit" where
  "validate_optional_ref reference label =
     (case reference of Some r \<Rightarrow> validate_ref r label | None \<Rightarrow> Inr ())"

definition normalize_input :: "TransitionEventInput \<Rightarrow> TransitionLedgerError + TransitionEventInput" where
  "normalize_input input =
     rbind (non_empty (ti_transition_id input) ''transition_id'') (\<lambda>tid.
     rbind (non_empty (ti_subject_id input) ''subject_id'') (\<lambda>sid.
     rbind (validate_ref (ti_record_ref input) ''record_ref'') (\<lambda>_.
     rbind (validate_ref (ti_payload_digest input) ''payload_digest'') (\<lambda>_.
     rbind (validate_optional_ref (lk_authorization_ref (ti_links input)) ''authorization_ref'') (\<lambda>_.
     rbind (validate_optional_ref (lk_response_integrity_ref (ti_links input)) ''response_integrity_ref'') (\<lambda>_.
     rbind (validate_optional_ref (lk_causal_audit_ref (ti_links input)) ''causal_audit_ref'') (\<lambda>_.
     rbind (validate_optional_ref (lk_previous_continuity_ref (ti_links input)) ''previous_continuity_ref'') (\<lambda>_.
     rbind (for_each (\<lambda>r. validate_ref r ''observation_ref'') (lk_observation_refs (ti_links input))) (\<lambda>_.
       let input' = input\<lparr>ti_transition_id := tid, ti_subject_id := sid,
             ti_links := (ti_links input)\<lparr>lk_observation_refs := sort_dedup (lk_observation_refs (ti_links input))\<rparr>\<rparr>
       in if ti_kind input' = ContinuitySnapshot \<and> ti_dimensions input' = None
          then Inl ContinuityDimensionsRequired else Inr input')))))))))"

definition validate_event_body :: "TransitionEventBody \<Rightarrow> TransitionLedgerError + unit" where
  "validate_event_body body =
     rbind (validate_canonical_identifier (tb_transition_id body) ''transition_id'') (\<lambda>_.
     rbind (validate_canonical_identifier (tb_subject_id body) ''subject_id'') (\<lambda>_.
     rbind (validate_ref (tb_record_ref body) ''record_ref'') (\<lambda>_.
     rbind (validate_ref (tb_payload_digest body) ''payload_digest'') (\<lambda>_.
     rbind (validate_optional_ref (lk_authorization_ref (tb_links body)) ''authorization_ref'') (\<lambda>_.
     rbind (validate_optional_ref (lk_response_integrity_ref (tb_links body)) ''response_integrity_ref'') (\<lambda>_.
     rbind (validate_optional_ref (lk_causal_audit_ref (tb_links body)) ''causal_audit_ref'') (\<lambda>_.
     rbind (validate_optional_ref (lk_previous_continuity_ref (tb_links body)) ''previous_continuity_ref'') (\<lambda>_.
     rbind (validate_optional_ref (tb_previous_event_hash body) ''previous_event_hash'') (\<lambda>_.
     rbind (for_each (\<lambda>r. validate_ref r ''observation_ref'') (lk_observation_refs (tb_links body))) (\<lambda>_.
     rbind (require (sort_dedup (lk_observation_refs (tb_links body)) = lk_observation_refs (tb_links body))
              (InvalidLinks (tb_kind body))) (\<lambda>_.
     require (\<not> (tb_kind body = ContinuitySnapshot \<and> tb_dimensions body = None))
       ContinuityDimensionsRequired)))))))))))"

section \<open>The projection\<close>

definition validate_side_effect :: "bool \<Rightarrow> bool option \<Rightarrow> TransitionLedgerError + unit" where
  "validate_side_effect previous update =
     require (\<not> (previous \<and> update = Some False)) SideEffectRollback"

definition validate_monotonic_dimensions :: "TransitionDimensions option \<Rightarrow> TransitionDimensions option \<Rightarrow>
    TransitionLedgerError + unit" where
  "validate_monotonic_dimensions previous update =
     (case (previous, update) of
        (Some p, Some u) \<Rightarrow>
          require (\<not> (dim_execution p = ObservedExecuted \<and> dim_execution u \<noteq> ObservedExecuted)) ExecutionRollback
      | _ \<Rightarrow> Inr ())"

definition ensure_owned_by :: "LedgerState \<Rightarrow> string \<Rightarrow> string \<Rightarrow> string \<Rightarrow> TransitionLedgerError + unit" where
  "ensure_owned_by st reference transition_id subject_id =
     rbind (ok_or (MissingParent reference) (bt_get (ls_record_owners st) reference)) (\<lambda>owner.
       require (\<not> (ro_transition_id owner \<noteq> transition_id \<or> ro_subject_id owner \<noteq> subject_id))
         (CrossTransitionReference reference))"

definition expect_optional_ref :: "LedgerState \<Rightarrow> string option \<Rightarrow> string option \<Rightarrow> string \<Rightarrow> TransitionEvent \<Rightarrow>
    TransitionLedgerError + unit" where
  "expect_optional_ref st actual expected label event =
     rbind (case actual of
              Some r \<Rightarrow> require (bt_contains_key (ls_record_owners st) r) (MissingParent r)
            | None \<Rightarrow> Inr ()) (\<lambda>_.
     rbind (require (actual = expected) (ParentMismatch label)) (\<lambda>_.
       case actual of
         Some r \<Rightarrow> ensure_owned_by st r (tb_transition_id (te_body event)) (tb_subject_id (te_body event))
       | None \<Rightarrow> Inr ()))"

definition expect_observation_set :: "LedgerState \<Rightarrow> string list \<Rightarrow> TransitionProjection \<Rightarrow> TransitionEvent \<Rightarrow>
    TransitionLedgerError + unit" where
  "expect_observation_set st actual current event =
     rbind (require (actual = tp_observation_refs current) ObservationSetMismatch) (\<lambda>_.
       for_each (\<lambda>r. ensure_owned_by st r (tb_transition_id (te_body event)) (tb_subject_id (te_body event)))
         actual)"

definition update_projection_tail :: "TransitionProjection \<Rightarrow> TransitionEvent \<Rightarrow> TransitionProjection" where
  "update_projection_tail p event =
     p\<lparr>tp_last_sequence := tb_sequence (te_body event), tp_last_event_hash := te_event_hash event,
       tp_event_count := tp_event_count p + 1\<rparr>"

definition update_dimensions :: "TransitionProjection \<Rightarrow> TransitionEvent \<Rightarrow> TransitionProjection" where
  "update_dimensions p event =
     (let p' = (case tb_dimensions (te_body event) of Some d \<Rightarrow> p\<lparr>tp_dimensions := Some d\<rparr> | None \<Rightarrow> p)
      in if tb_side_effect_committed (te_body event) = Some True
         then p'\<lparr>tp_side_effect_committed := True\<rparr> else p')"

definition apply_authorization :: "LedgerState \<Rightarrow> TransitionEvent \<Rightarrow> TransitionLedgerError + LedgerState" where
  "apply_authorization st event =
     (let body = te_body event; links = tb_links body
      in rbind (require (\<not> (lk_observation_refs links \<noteq> [] \<or> lk_response_integrity_ref links \<noteq> None
                  \<or> lk_causal_audit_ref links \<noteq> None \<or> lk_previous_continuity_ref links \<noteq> None))
                (InvalidLinks (tb_kind body))) (\<lambda>_.
         case bt_get (ls_projections st) (tb_transition_id body) of
           Some existing \<Rightarrow>
             rbind (require (\<not> (tp_subject_id existing \<noteq> tb_subject_id body))
                      (SubjectMismatch (tb_transition_id body))) (\<lambda>_.
             rbind (ok_or (MissingAuthorization (tb_transition_id body)) (tp_authorization_ref existing)) (\<lambda>expected.
             rbind (require (lk_authorization_ref links = Some expected) ReauthorizationWithoutSupersession) (\<lambda>_.
             rbind (ensure_owned_by st expected (tb_transition_id body) (tb_subject_id body)) (\<lambda>_.
             rbind (validate_monotonic_dimensions (tp_dimensions existing) (tb_dimensions body)) (\<lambda>_.
             rbind (validate_side_effect (tp_side_effect_committed existing) (tb_side_effect_committed body)) (\<lambda>_.
               let projection = existing\<lparr>tp_authorization_ref := Some (tb_record_ref body),
                     tp_authorization_epoch := tp_authorization_epoch existing + 1,
                     tp_observation_refs := [], tp_response_integrity_ref := None,
                     tp_causal_audit_ref := None, tp_continuity_snapshot_ref := None\<rparr>;
                   projection = update_projection_tail (update_dimensions projection event) event
               in Inr (st\<lparr>ls_projections := bt_insert (tb_transition_id body) projection (ls_projections st)\<rparr>)))))))
         | None \<Rightarrow>
             rbind (require (lk_authorization_ref links = None) (InvalidLinks (tb_kind body))) (\<lambda>_.
               let projection = \<lparr>tp_transition_id = tb_transition_id body, tp_subject_id = tb_subject_id body,
                     tp_authorization_ref = Some (tb_record_ref body), tp_authorization_epoch = 1,
                     tp_observation_refs = [], tp_response_integrity_ref = None, tp_causal_audit_ref = None,
                     tp_continuity_snapshot_ref = None, tp_dimensions = tb_dimensions body,
                     tp_side_effect_committed =
                       (case tb_side_effect_committed body of Some b \<Rightarrow> b | None \<Rightarrow> False),
                     tp_last_sequence = tb_sequence body, tp_last_event_hash = te_event_hash event,
                     tp_event_count = 1\<rparr>
               in Inr (st\<lparr>ls_projections := bt_insert (tb_transition_id body) projection (ls_projections st)\<rparr>))))"

text \<open>The two matches on the record kind inside \<open>apply_dependent_record\<close>; its \<open>Authorization\<close> arms
  are unreachable.\<close>

definition check_dependent_links :: "LedgerState \<Rightarrow> TransitionProjection \<Rightarrow> TransitionEvent \<Rightarrow>
    TransitionLedgerError + unit" where
  "check_dependent_links st current event =
     (let body = te_body event; links = tb_links body; kind = tb_kind body;
          observations = expect_observation_set st (lk_observation_refs links) current event;
          response = expect_optional_ref st (lk_response_integrity_ref links)
                       (tp_response_integrity_ref current) ''response_integrity_ref'' event
      in case kind of
           Authorization \<Rightarrow> Inr ()
         | Observation \<Rightarrow>
             require (\<not> (lk_observation_refs links \<noteq> [] \<or> lk_response_integrity_ref links \<noteq> None
                \<or> lk_causal_audit_ref links \<noteq> None \<or> lk_previous_continuity_ref links \<noteq> None)) (InvalidLinks kind)
         | ResponseIntegrity \<Rightarrow>
             rbind observations (\<lambda>_.
               require (\<not> (lk_response_integrity_ref links \<noteq> None \<or> lk_causal_audit_ref links \<noteq> None
                  \<or> lk_previous_continuity_ref links \<noteq> None)) (InvalidLinks kind))
         | CausalAudit \<Rightarrow>
             rbind observations (\<lambda>_. rbind response (\<lambda>_.
               require (\<not> (lk_causal_audit_ref links \<noteq> None \<or> lk_previous_continuity_ref links \<noteq> None))
                 (InvalidLinks kind)))
         | ContinuitySnapshot \<Rightarrow>
             rbind observations (\<lambda>_. rbind response (\<lambda>_.
             rbind (expect_optional_ref st (lk_causal_audit_ref links) (tp_causal_audit_ref current)
                      ''causal_audit_ref'' event) (\<lambda>_.
               expect_optional_ref st (lk_previous_continuity_ref links) (tp_continuity_snapshot_ref current)
                 ''previous_continuity_ref'' event))))"

definition update_dependent_refs :: "TransitionProjection \<Rightarrow> TransitionEventBody \<Rightarrow> TransitionProjection" where
  "update_dependent_refs p body =
     (case tb_kind body of
        Authorization \<Rightarrow> p
      | Observation \<Rightarrow>
          p\<lparr>tp_observation_refs := sort_dedup (tp_observation_refs p @ [tb_record_ref body]),
            tp_response_integrity_ref := None, tp_causal_audit_ref := None, tp_continuity_snapshot_ref := None\<rparr>
      | ResponseIntegrity \<Rightarrow>
          p\<lparr>tp_response_integrity_ref := Some (tb_record_ref body), tp_causal_audit_ref := None,
            tp_continuity_snapshot_ref := None\<rparr>
      | CausalAudit \<Rightarrow>
          p\<lparr>tp_causal_audit_ref := Some (tb_record_ref body), tp_continuity_snapshot_ref := None\<rparr>
      | ContinuitySnapshot \<Rightarrow> p\<lparr>tp_continuity_snapshot_ref := Some (tb_record_ref body)\<rparr>)"

definition apply_dependent_record :: "LedgerState \<Rightarrow> TransitionEvent \<Rightarrow> TransitionLedgerError + LedgerState" where
  "apply_dependent_record st event =
     (let body = te_body event
      in rbind (ok_or (MissingAuthorization (tb_transition_id body))
                 (bt_get (ls_projections st) (tb_transition_id body))) (\<lambda>current.
         rbind (require (\<not> (tp_subject_id current \<noteq> tb_subject_id body))
                  (SubjectMismatch (tb_transition_id body))) (\<lambda>_.
         rbind (ok_or (MissingAuthorization (tb_transition_id body)) (tp_authorization_ref current)) (\<lambda>expected.
         rbind (expect_optional_ref st (lk_authorization_ref (tb_links body)) (Some expected)
                  ''authorization_ref'' event) (\<lambda>_.
         rbind (check_dependent_links st current event) (\<lambda>_.
         rbind (validate_monotonic_dimensions (tp_dimensions current) (tb_dimensions body)) (\<lambda>_.
         rbind (validate_side_effect (tp_side_effect_committed current) (tb_side_effect_committed body)) (\<lambda>_.
           let projection = update_projection_tail (update_dimensions (update_dependent_refs current body) event) event
           in Inr (st\<lparr>ls_projections := bt_insert (tb_transition_id body) projection (ls_projections st)\<rparr>)))))))))"

definition apply_event :: "'h transition_env \<Rightarrow> LedgerState \<Rightarrow> TransitionEvent \<Rightarrow>
    TransitionLedgerError + LedgerState" where
  "apply_event env st event =
     (let body = te_body event
      in rbind (validate_event_body body) (\<lambda>_.
         rbind (require (\<not> (tb_schema body \<noteq> EVENT_SCHEMA \<or> tb_profile body \<noteq> PROFILE)) EventProfileMismatch) (\<lambda>_.
         rbind (require (tb_sequence body = ls_next_sequence st)
                  (SequenceMismatch (ls_next_sequence st) (tb_sequence body))) (\<lambda>_.
         rbind (require (tb_previous_event_hash body = ls_head_event_hash st) PreviousEventHashMismatch) (\<lambda>_.
         rbind (digest_cbor (env_sha256 env) (env_ser_body env) body) (\<lambda>digest.
         rbind (require (digest = te_event_hash event) EventHashMismatch) (\<lambda>_.
         rbind (validate_ref (tb_record_ref body) ''record_ref'') (\<lambda>_.
         rbind (validate_ref (tb_payload_digest body) ''payload_digest'') (\<lambda>_.
         rbind (require (\<not> bt_contains_key (ls_record_owners st) (tb_record_ref body))
                  (DuplicateRecordReference (tb_record_ref body))) (\<lambda>_.
         rbind (case tb_kind body of
                  Authorization \<Rightarrow> apply_authorization st event
                | _ \<Rightarrow> apply_dependent_record st event) (\<lambda>st'.
           Inr (st'\<lparr>ls_record_owners := bt_insert (tb_record_ref body)
                      \<lparr>ro_transition_id = tb_transition_id body, ro_subject_id = tb_subject_id body,
                       ro_kind = tb_kind body\<rparr> (ls_record_owners st'),
                    ls_head_event_hash := Some (te_event_hash event),
                    ls_next_sequence := ls_next_sequence st' + 1\<rparr>))))))))))))"

end
