(* ===== verification/Transition_Invariant.thy ===== *)
theory Transition_Invariant
  imports Transition
begin

text \<open>
  What every accepted transition event preserves: the invariant of the ledger state, the monotonicity
  of committed side effects and observed execution, the isolation of transitions from each other, the
  uniqueness of record references, and the hash chain.
\<close>

section \<open>The effect of an accepted event\<close>

definition reauthorized :: "TransitionProjection \<Rightarrow> TransitionEventBody \<Rightarrow> TransitionProjection" where
  "reauthorized q body =
     q\<lparr>tp_authorization_ref := Some (tb_record_ref body),
       tp_authorization_epoch := tp_authorization_epoch q + 1,
       tp_observation_refs := [], tp_response_integrity_ref := None,
       tp_causal_audit_ref := None, tp_continuity_snapshot_ref := None\<rparr>"

definition fresh_projection :: "TransitionEvent \<Rightarrow> TransitionProjection" where
  "fresh_projection event =
     (let body = te_body event
      in \<lparr>tp_transition_id = tb_transition_id body, tp_subject_id = tb_subject_id body,
          tp_authorization_ref = Some (tb_record_ref body), tp_authorization_epoch = 1,
          tp_observation_refs = [], tp_response_integrity_ref = None, tp_causal_audit_ref = None,
          tp_continuity_snapshot_ref = None, tp_dimensions = tb_dimensions body,
          tp_side_effect_committed = (case tb_side_effect_committed body of Some b \<Rightarrow> b | None \<Rightarrow> False),
          tp_last_sequence = tb_sequence body, tp_last_event_hash = te_event_hash event,
          tp_event_count = 1\<rparr>)"

definition owner_of :: "TransitionEventBody \<Rightarrow> RecordOwner" where
  "owner_of body =
     \<lparr>ro_transition_id = tb_transition_id body, ro_subject_id = tb_subject_id body, ro_kind = tb_kind body\<rparr>"

text \<open>The projection an event updates, given the one that is there.\<close>

definition extends :: "LedgerState \<Rightarrow> TransitionEvent \<Rightarrow> TransitionProjection \<Rightarrow> TransitionProjection \<Rightarrow> bool" where
  "extends st event q p \<longleftrightarrow>
     (let body = te_body event
      in tp_subject_id q = tb_subject_id body
         \<and> tp_authorization_ref q \<noteq> None \<and> lk_authorization_ref (tb_links body) = tp_authorization_ref q
         \<and> validate_monotonic_dimensions (tp_dimensions q) (tb_dimensions body) = Inr ()
         \<and> validate_side_effect (tp_side_effect_committed q) (tb_side_effect_committed body) = Inr ()
         \<and> (if tb_kind body = Authorization
            then p = update_projection_tail (update_dimensions (reauthorized q body) event) event
            else check_dependent_links st q event = Inr ()
                 \<and> p = update_projection_tail (update_dimensions (update_dependent_refs q body) event) event))"

lemma apply_authorization_shape:
  assumes "apply_authorization st event = Inr st'" and "tb_kind (te_body event) = Authorization"
  shows "\<exists>p. st' = st\<lparr>ls_projections := bt_insert (tb_transition_id (te_body event)) p (ls_projections st)\<rparr>
    \<and> (case bt_get (ls_projections st) (tb_transition_id (te_body event)) of
         None \<Rightarrow> p = fresh_projection event
       | Some q \<Rightarrow> extends st event q p)"
  using assms
  by (auto simp: apply_authorization_def Let_def result_simps fresh_projection_def extends_def reauthorized_def
      split: option.splits)

lemma apply_dependent_shape:
  assumes "apply_dependent_record st event = Inr st'" and "tb_kind (te_body event) \<noteq> Authorization"
  shows "\<exists>p q. st' = st\<lparr>ls_projections := bt_insert (tb_transition_id (te_body event)) p (ls_projections st)\<rparr>
    \<and> bt_get (ls_projections st) (tb_transition_id (te_body event)) = Some q \<and> extends st event q p"
  using assms
  by (auto simp: apply_dependent_record_def Let_def result_simps extends_def expect_optional_ref_def)

lemma apply_event_shape:
  assumes "apply_event env st event = Inr st'"
  obtains p bs where
    "st' = \<lparr>ls_next_sequence = ls_next_sequence st + 1, ls_head_event_hash = Some (te_event_hash event),
            ls_projections = bt_insert (tb_transition_id (te_body event)) p (ls_projections st),
            ls_record_owners = bt_insert (tb_record_ref (te_body event)) (owner_of (te_body event))
              (ls_record_owners st)\<rparr>"
    "validate_event_body (te_body event) = Inr ()"
    "tb_sequence (te_body event) = ls_next_sequence st"
    "tb_previous_event_hash (te_body event) = ls_head_event_hash st"
    "env_ser_body env (te_body event) = Inr bs" "te_event_hash event = sha256_ref (env_sha256 env) bs"
    "bt_get (ls_record_owners st) (tb_record_ref (te_body event)) = None"
    "case bt_get (ls_projections st) (tb_transition_id (te_body event)) of
       None \<Rightarrow> tb_kind (te_body event) = Authorization \<and> p = fresh_projection event
     | Some q \<Rightarrow> extends st event q p"
proof -
  obtain st1 bs where ev: "validate_event_body (te_body event) = Inr ()"
    "tb_sequence (te_body event) = ls_next_sequence st"
    "tb_previous_event_hash (te_body event) = ls_head_event_hash st"
    "env_ser_body env (te_body event) = Inr bs" "te_event_hash event = sha256_ref (env_sha256 env) bs"
    "bt_get (ls_record_owners st) (tb_record_ref (te_body event)) = None"
    and st1: "(case tb_kind (te_body event) of Authorization \<Rightarrow> apply_authorization st event
                | _ \<Rightarrow> apply_dependent_record st event) = Inr st1"
    and st': "st' = st1\<lparr>ls_record_owners := bt_insert (tb_record_ref (te_body event)) (owner_of (te_body event))
               (ls_record_owners st1),
             ls_head_event_hash := Some (te_event_hash event), ls_next_sequence := ls_next_sequence st1 + 1\<rparr>"
    using assms
    by (auto simp: apply_event_def Let_def result_simps digest_cbor_def bt_contains_key_def owner_of_def)
  have "\<exists>p. st1 = st\<lparr>ls_projections := bt_insert (tb_transition_id (te_body event)) p (ls_projections st)\<rparr>
    \<and> (case bt_get (ls_projections st) (tb_transition_id (te_body event)) of
         None \<Rightarrow> tb_kind (te_body event) = Authorization \<and> p = fresh_projection event
       | Some q \<Rightarrow> extends st event q p)"
  proof (cases "tb_kind (te_body event) = Authorization")
    case True
    then show ?thesis using st1 apply_authorization_shape by (fastforce split: option.splits)
  next
    case False
    then have "apply_dependent_record st event = Inr st1"
      using st1 by (cases "tb_kind (te_body event)") auto
    then show ?thesis using apply_dependent_shape [OF _ False] by fastforce
  qed
  then obtain p where p: "st1 = st\<lparr>ls_projections := bt_insert (tb_transition_id (te_body event)) p (ls_projections st)\<rparr>"
      "case bt_get (ls_projections st) (tb_transition_id (te_body event)) of
         None \<Rightarrow> tb_kind (te_body event) = Authorization \<and> p = fresh_projection event
       | Some q \<Rightarrow> extends st event q p" by blast
  show ?thesis
    by (rule that [OF _ ev p(2)]) (simp add: st' p(1))
qed

section \<open>Invariant\<close>

definition owned :: "(string, RecordOwner) btree_map \<Rightarrow> TransitionProjection \<Rightarrow> TransitionRecordKind \<Rightarrow> string \<Rightarrow> bool" where
  "owned owners p kind r \<longleftrightarrow>
     bt_get owners r = Some \<lparr>ro_transition_id = tp_transition_id p, ro_subject_id = tp_subject_id p, ro_kind = kind\<rparr>"

definition projection_ok :: "(string, RecordOwner) btree_map \<Rightarrow> TransitionProjection \<Rightarrow> bool" where
  "projection_ok owners p \<longleftrightarrow>
     (\<exists>a. tp_authorization_ref p = Some a \<and> owned owners p Authorization a)
     \<and> sorted_wrt (<) (tp_observation_refs p) \<and> list_all (owned owners p Observation) (tp_observation_refs p)
     \<and> pred_option (owned owners p ResponseIntegrity) (tp_response_integrity_ref p)
     \<and> pred_option (owned owners p CausalAudit) (tp_causal_audit_ref p)
     \<and> pred_option (owned owners p ContinuitySnapshot) (tp_continuity_snapshot_ref p)"

definition ledger_inv :: "LedgerState \<Rightarrow> bool" where
  "ledger_inv st \<longleftrightarrow>
     bt_wf (ls_projections st) \<and> bt_wf (ls_record_owners st)
     \<and> (\<forall>k p. bt_get (ls_projections st) k = Some p \<longrightarrow>
              tp_transition_id p = k \<and> projection_ok (ls_record_owners st) p)
     \<and> (\<forall>r ow. bt_get (ls_record_owners st) r = Some ow \<longrightarrow>
              (\<exists>p. bt_get (ls_projections st) (ro_transition_id ow) = Some p \<and> tp_subject_id p = ro_subject_id ow))"

lemma ledger_inv_default [simp]: "ledger_inv ledger_default"
  by (simp add: ledger_inv_def ledger_default_def)

lemma owned_cong: "tp_transition_id p = tp_transition_id q \<Longrightarrow> tp_subject_id p = tp_subject_id q \<Longrightarrow>
    owned owners p = owned owners q"
  by (simp add: owned_def fun_eq_iff)

lemma owned_insert:
  "bt_get owners r = None \<Longrightarrow> owned owners p kind x \<Longrightarrow> owned (bt_insert r ow owners) p kind x"
  by (auto simp: owned_def)

lemma pred_option_mono': "pred_option P x \<Longrightarrow> (\<And>y. P y \<Longrightarrow> Q y) \<Longrightarrow> pred_option Q x"
  by (cases x) auto

lemma projection_ok_insert:
  "bt_get owners r = None \<Longrightarrow> projection_ok owners p \<Longrightarrow> projection_ok (bt_insert r ow owners) p"
  unfolding projection_ok_def
  by (auto intro: owned_insert elim!: pred_option_mono' list.pred_mono_strong)

lemma update_dimensions_simps [simp]:
  "tp_transition_id (update_dimensions p event) = tp_transition_id p"
  "tp_subject_id (update_dimensions p event) = tp_subject_id p"
  "tp_authorization_ref (update_dimensions p event) = tp_authorization_ref p"
  "tp_authorization_epoch (update_dimensions p event) = tp_authorization_epoch p"
  "tp_observation_refs (update_dimensions p event) = tp_observation_refs p"
  "tp_response_integrity_ref (update_dimensions p event) = tp_response_integrity_ref p"
  "tp_causal_audit_ref (update_dimensions p event) = tp_causal_audit_ref p"
  "tp_continuity_snapshot_ref (update_dimensions p event) = tp_continuity_snapshot_ref p"
  "tp_event_count (update_dimensions p event) = tp_event_count p"
  by (simp_all add: update_dimensions_def Let_def split: option.split)

lemma update_projection_tail_simps [simp]:
  "tp_transition_id (update_projection_tail p event) = tp_transition_id p"
  "tp_subject_id (update_projection_tail p event) = tp_subject_id p"
  "tp_authorization_ref (update_projection_tail p event) = tp_authorization_ref p"
  "tp_authorization_epoch (update_projection_tail p event) = tp_authorization_epoch p"
  "tp_observation_refs (update_projection_tail p event) = tp_observation_refs p"
  "tp_response_integrity_ref (update_projection_tail p event) = tp_response_integrity_ref p"
  "tp_causal_audit_ref (update_projection_tail p event) = tp_causal_audit_ref p"
  "tp_continuity_snapshot_ref (update_projection_tail p event) = tp_continuity_snapshot_ref p"
  "tp_dimensions (update_projection_tail p event) = tp_dimensions p"
  "tp_side_effect_committed (update_projection_tail p event) = tp_side_effect_committed p"
  "tp_event_count (update_projection_tail p event) = tp_event_count p + 1"
  "tp_last_sequence (update_projection_tail p event) = tb_sequence (te_body event)"
  "tp_last_event_hash (update_projection_tail p event) = te_event_hash event"
  by (simp_all add: update_projection_tail_def)

lemma update_dependent_refs_simps [simp]:
  "tp_transition_id (update_dependent_refs p body) = tp_transition_id p"
  "tp_subject_id (update_dependent_refs p body) = tp_subject_id p"
  "tp_authorization_ref (update_dependent_refs p body) = tp_authorization_ref p"
  "tp_dimensions (update_dependent_refs p body) = tp_dimensions p"
  "tp_side_effect_committed (update_dependent_refs p body) = tp_side_effect_committed p"
  by (simp_all add: update_dependent_refs_def split: TransitionRecordKind.split)

lemma extends_ids:
  assumes "extends st event q p"
  shows "tp_transition_id p = tp_transition_id q" "tp_subject_id p = tp_subject_id q"
    "tp_subject_id q = tb_subject_id (te_body event)"
  using assms by (auto simp: extends_def Let_def reauthorized_def split: if_splits)

lemma projection_ok_refs:
  assumes ids: "tp_transition_id p = tp_transition_id q" "tp_subject_id p = tp_subject_id q"
    and refs: "tp_authorization_ref p = tp_authorization_ref q" "tp_observation_refs p = tp_observation_refs q"
      "tp_response_integrity_ref p = tp_response_integrity_ref q" "tp_causal_audit_ref p = tp_causal_audit_ref q"
      "tp_continuity_snapshot_ref p = tp_continuity_snapshot_ref q"
  shows "projection_ok owners p \<longleftrightarrow> projection_ok owners q"
  unfolding projection_ok_def refs owned_cong [OF ids] ..

lemma update_dependent_refs_ok:
  assumes ok: "projection_ok owners q" and new: "owned owners q (tb_kind body) (tb_record_ref body)"
  shows "projection_ok owners (update_dependent_refs q body)"
proof -
  have eq: "owned owners (update_dependent_refs q body) = owned owners q"
    by (rule owned_cong) simp_all
  show ?thesis
    using ok new unfolding projection_ok_def eq
    by (auto simp: update_dependent_refs_def list_all_iff strict_sorted_sort_dedup
        split: TransitionRecordKind.splits)
qed

lemma extends_ok:
  assumes ext: "extends st event q p" and ok: "projection_ok owners q"
    and new: "owned owners q (tb_kind (te_body event)) (tb_record_ref (te_body event))"
  shows "projection_ok owners p"
proof (cases "tb_kind (te_body event) = Authorization")
  case True
  then have p: "p = update_projection_tail (update_dimensions (reauthorized q (te_body event)) event) event"
    using ext by (simp add: extends_def Let_def)
  have "projection_ok owners (reauthorized q (te_body event))"
    using new True by (simp add: projection_ok_def reauthorized_def owned_def)
  then show ?thesis unfolding p by (subst projection_ok_refs) simp_all
next
  case False
  then have p: "p = update_projection_tail (update_dimensions (update_dependent_refs q (te_body event)) event) event"
    using ext by (simp add: extends_def Let_def)
  show ?thesis
    using update_dependent_refs_ok [OF ok new] unfolding p by (subst projection_ok_refs) simp_all
qed

lemma apply_event_inv:
  assumes run: "apply_event env st event = Inr st'" and inv: "ledger_inv st"
  shows "ledger_inv st'"
proof -
  let ?b = "te_body event"
  let ?owners = "bt_insert (tb_record_ref ?b) (owner_of ?b) (ls_record_owners st)"
  obtain p where st': "st' = \<lparr>ls_next_sequence = ls_next_sequence st + 1,
        ls_head_event_hash = Some (te_event_hash event),
        ls_projections = bt_insert (tb_transition_id ?b) p (ls_projections st), ls_record_owners = ?owners\<rparr>"
    and fresh: "bt_get (ls_record_owners st) (tb_record_ref ?b) = None"
    and p: "case bt_get (ls_projections st) (tb_transition_id ?b) of
       None \<Rightarrow> tb_kind ?b = Authorization \<and> p = fresh_projection event | Some q \<Rightarrow> extends st event q p"
    using run by (rule apply_event_shape)
  have old: "tp_transition_id q = k" "projection_ok ?owners q" if "bt_get (ls_projections st) k = Some q" for k q
    using inv that fresh by (auto simp: ledger_inv_def intro: projection_ok_insert)
  have ok: "tp_transition_id p = tb_transition_id ?b \<and> tp_subject_id p = tb_subject_id ?b \<and> projection_ok ?owners p"
  proof (cases "bt_get (ls_projections st) (tb_transition_id ?b)")
    case None
    then show ?thesis using p by (simp add: fresh_projection_def Let_def projection_ok_def owned_def owner_of_def)
  next
    case (Some q)
    then have "extends st event q p" using p by simp
    moreover have "owned ?owners q (tb_kind ?b) (tb_record_ref ?b)"
      using old [OF Some] extends_ids [OF calculation] by (simp add: owned_def owner_of_def)
    ultimately show ?thesis using extends_ok extends_ids old [OF Some] by metis
  qed
  have same: "tp_subject_id q = tb_subject_id ?b" if "bt_get (ls_projections st) (tb_transition_id ?b) = Some q" for q
    using p that extends_ids(3) by auto
  show ?thesis
    using inv ok old same unfolding st' ledger_inv_def
    by (auto simp: owner_of_def split: if_splits) metis
qed

lemma replay_inv:
  "fold_result (apply_event env) st events = Inr st' \<Longrightarrow> ledger_inv st \<Longrightarrow> ledger_inv st'"
  by (rule fold_result_invariant) (auto intro: apply_event_inv)

section \<open>Monotonicity\<close>

definition observed_executed :: "TransitionProjection \<Rightarrow> bool" where
  "observed_executed p \<longleftrightarrow> (case tp_dimensions p of Some d \<Rightarrow> dim_execution d = ObservedExecuted | None \<Rightarrow> False)"

definition advances :: "TransitionProjection \<Rightarrow> TransitionProjection \<Rightarrow> bool" where
  "advances q p \<longleftrightarrow>
     tp_transition_id p = tp_transition_id q \<and> tp_subject_id p = tp_subject_id q
     \<and> (tp_side_effect_committed q \<longrightarrow> tp_side_effect_committed p)
     \<and> (observed_executed q \<longrightarrow> observed_executed p)"

lemma advances_refl [simp]: "advances p p"
  by (simp add: advances_def)

lemma advances_trans: "advances a b \<Longrightarrow> advances b c \<Longrightarrow> advances a c"
  by (auto simp: advances_def)

lemma extends_advances:
  assumes "extends st event q p"
  shows "advances q p"
proof -
  have "tp_side_effect_committed q \<longrightarrow> tp_side_effect_committed p"
    using assms by (auto simp: extends_def Let_def reauthorized_def update_dimensions_def split: if_splits option.splits)
  moreover have "observed_executed q \<longrightarrow> observed_executed p"
    using assms
    by (auto simp: extends_def Let_def reauthorized_def update_dimensions_def observed_executed_def
        validate_monotonic_dimensions_def require_Inr_iff split: if_splits option.splits)
  ultimately show ?thesis using extends_ids [OF assms] by (simp add: advances_def)
qed

lemma apply_event_projection:
  assumes "apply_event env st event = Inr st'" and "bt_get (ls_projections st) k = Some q"
  shows "\<exists>p. bt_get (ls_projections st') k = Some p \<and> advances q p"
  using assms(1)
proof (rule apply_event_shape, goal_cases)
  case (1 p bs)
  then show ?case using assms(2) extends_advances by (auto split: option.splits)
qed

lemma replay_projection:
  assumes "fold_result (apply_event env) st events = Inr st'" and "bt_get (ls_projections st) k = Some q"
  shows "\<exists>p. bt_get (ls_projections st') k = Some p \<and> advances q p"
proof (rule fold_result_invariant [OF assms(1), where I = "\<lambda>st. \<exists>p. bt_get (ls_projections st) k = Some p \<and> advances q p"])
  show "\<exists>p. bt_get (ls_projections st) k = Some p \<and> advances q p" using assms(2) by simp
qed (use apply_event_projection advances_trans in blast)

section \<open>Isolation\<close>

definition linked_refs :: "TransitionLinks \<Rightarrow> string set" where
  "linked_refs links =
     set_option (lk_authorization_ref links) \<union> set (lk_observation_refs links)
     \<union> set_option (lk_response_integrity_ref links) \<union> set_option (lk_causal_audit_ref links)
     \<union> set_option (lk_previous_continuity_ref links)"

lemma ensure_owned_by_iff:
  "ensure_owned_by st r t s = Inr u \<longleftrightarrow>
     (\<exists>ow. bt_get (ls_record_owners st) r = Some ow \<and> ro_transition_id ow = t \<and> ro_subject_id ow = s)"
  by (auto simp: ensure_owned_by_def result_simps)

lemma expect_optional_ref_owned:
  "expect_optional_ref st actual expected label event = Inr u \<Longrightarrow> r \<in> set_option actual \<Longrightarrow>
     ensure_owned_by st r (tb_transition_id (te_body event)) (tb_subject_id (te_body event)) = Inr ()"
  by (auto simp: expect_optional_ref_def result_simps split: option.splits)

lemma expect_observation_set_owned:
  "expect_observation_set st actual current event = Inr u \<Longrightarrow> r \<in> set actual \<Longrightarrow>
     ensure_owned_by st r (tb_transition_id (te_body event)) (tb_subject_id (te_body event)) = Inr ()"
  by (auto simp: expect_observation_set_def result_simps)

lemma check_dependent_links_owned:
  assumes "check_dependent_links st current event = Inr u" "tb_kind (te_body event) \<noteq> Authorization"
    and "r \<in> linked_refs (tb_links (te_body event))" "r \<notin> set_option (lk_authorization_ref (tb_links (te_body event)))"
  shows "ensure_owned_by st r (tb_transition_id (te_body event)) (tb_subject_id (te_body event)) = Inr ()"
  using assms
  by (auto simp: check_dependent_links_def Let_def linked_refs_def result_simps
      intro: expect_optional_ref_owned expect_observation_set_owned
      split: TransitionRecordKind.splits)

lemma apply_authorization_owned:
  assumes "apply_authorization st event = Inr st'" "r \<in> linked_refs (tb_links (te_body event))"
  shows "ensure_owned_by st r (tb_transition_id (te_body event)) (tb_subject_id (te_body event)) = Inr ()"
  using assms
  by (auto simp: apply_authorization_def Let_def linked_refs_def result_simps split: option.splits)

lemma apply_dependent_owned:
  assumes "apply_dependent_record st event = Inr st'" "r \<in> linked_refs (tb_links (te_body event))"
    "tb_kind (te_body event) \<noteq> Authorization"
  shows "ensure_owned_by st r (tb_transition_id (te_body event)) (tb_subject_id (te_body event)) = Inr ()"
proof (cases "r \<in> set_option (lk_authorization_ref (tb_links (te_body event)))")
  case True
  obtain expected u where "expect_optional_ref st (lk_authorization_ref (tb_links (te_body event)))
      (Some expected) ''authorization_ref'' event = Inr u"
    using assms(1) by (auto simp: apply_dependent_record_def Let_def result_simps)
  from expect_optional_ref_owned [OF this True] show ?thesis .
next
  case False
  obtain current u where "check_dependent_links st current event = Inr u"
    using assms(1) by (auto simp: apply_dependent_record_def Let_def result_simps)
  from check_dependent_links_owned [OF this assms(3,2) False] show ?thesis .
qed

lemma apply_event_links_owned:
  assumes "apply_event env st event = Inr st'" "r \<in> linked_refs (tb_links (te_body event))"
  shows "\<exists>ow. bt_get (ls_record_owners st) r = Some ow
    \<and> ro_transition_id ow = tb_transition_id (te_body event) \<and> ro_subject_id ow = tb_subject_id (te_body event)"
proof -
  obtain st1 where "(case tb_kind (te_body event) of Authorization \<Rightarrow> apply_authorization st event
                | _ \<Rightarrow> apply_dependent_record st event) = Inr st1"
    using assms(1) by (auto simp: apply_event_def Let_def result_simps)
  then have "ensure_owned_by st r (tb_transition_id (te_body event)) (tb_subject_id (te_body event)) = Inr ()"
    using apply_authorization_owned [OF _ assms(2)] apply_dependent_owned [OF _ assms(2)]
    by (cases "tb_kind (te_body event)") auto
  then show ?thesis by (simp add: ensure_owned_by_iff)
qed

section \<open>The hash chain\<close>

abbreviation event_ref :: "TransitionEvent \<Rightarrow> string" where
  "event_ref event \<equiv> tb_record_ref (te_body event)"

lemma apply_event_head: "apply_event env st event = Inr st' \<Longrightarrow> ls_head_event_hash st' = Some (te_event_hash event)"
  by (auto elim!: apply_event_shape)

lemma replay_snoc_iff:
  "fold_result (apply_event env) st (events @ [event]) = Inr st' \<longleftrightarrow>
     (\<exists>st1. fold_result (apply_event env) st events = Inr st1 \<and> apply_event env st1 event = Inr st')"
  by (simp add: fold_result_snoc rbind_Inr_iff)

lemma replay_sequence:
  "fold_result (apply_event env) st events = Inr st' \<Longrightarrow>
     ls_next_sequence st' = ls_next_sequence st + of_nat (length events)"
proof (induction events arbitrary: st' rule: rev_induct)
  case Nil
  then show ?case by simp
next
  case (snoc e es)
  then show ?case by (auto simp: replay_snoc_iff elim!: apply_event_shape)
qed

lemma replay_record_owners:
  "fold_result (apply_event env) st events = Inr st' \<Longrightarrow>
     distinct (map event_ref events)
     \<and> (\<forall>r. bt_get (ls_record_owners st') r \<noteq> None \<longleftrightarrow>
            bt_get (ls_record_owners st) r \<noteq> None \<or> r \<in> event_ref ` set events)"
proof (induction events arbitrary: st' rule: rev_induct)
  case Nil
  then show ?case by simp
next
  case (snoc e es)
  then obtain st1 where st1: "fold_result (apply_event env) st es = Inr st1" "apply_event env st1 e = Inr st'"
    by (auto simp: replay_snoc_iff)
  have "ls_record_owners st' = bt_insert (event_ref e) (owner_of (te_body e)) (ls_record_owners st1)
      \<and> bt_get (ls_record_owners st1) (event_ref e) = None"
    using st1(2) by (rule apply_event_shape) simp
  moreover have "event_ref e \<notin> event_ref ` set es"
    using snoc.IH [OF st1(1)] calculation by metis
  ultimately show ?case using snoc.IH [OF st1(1)] by auto
qed

interpretation transition_chain: hash_chain "apply_event env" ledger_default ls_head_event_hash te_event_hash
    "\<lambda>e. tb_previous_event_hash (te_body e)" "ser_injective (env_ser_body env)"
    "\<lambda>e f. ser_collision (env_sha256 env) (env_ser_body env) (te_body e) (te_body f)"
  for env
proof (unfold_locales, goal_cases)
  case 1
  show ?case by (simp add: ledger_default_def)
next
  case (2 s e s')
  then show ?case by (rule apply_event_head)
next
  case (3 s e s')
  then show ?case by (rule apply_event_shape) simp
next
  case (4 s e s' t f t')
  obtain x where x: "env_ser_body env (te_body e) = Inr x" "te_event_hash e = sha256_ref (env_sha256 env) x"
    using 4(2) by (rule apply_event_shape)
  obtain y where y: "env_ser_body env (te_body f) = Inr y" "te_event_hash f = sha256_ref (env_sha256 env) y"
    using 4(3) by (rule apply_event_shape)
  have "te_body e = te_body f \<or> ser_collision (env_sha256 env) (env_ser_body env) (te_body e) (te_body f)"
    using same_reference [OF 4(1) x(1) y(1)] x(2) y(2) 4(4) by simp
  then show ?case using 4(4) by auto
qed

section \<open>Evidence order\<close>

text \<open>New evidence invalidates what was derived from the old evidence; a continuity snapshot is
  accepted only for the current evidence.\<close>

lemma apply_event_new_projection:
  assumes "apply_event env st event = Inr st'" "bt_get (ls_projections st) (tb_transition_id (te_body event)) = Some q"
  shows "\<exists>p. bt_get (ls_projections st') (tb_transition_id (te_body event)) = Some p \<and> extends st event q p"
  using assms(1)
proof (rule apply_event_shape, goal_cases)
  case (1 p bs)
  then show ?case using assms(2) by simp
qed

lemma extends_evidence:
  assumes "extends st event q p"
  shows "tb_kind (te_body event) = Authorization \<Longrightarrow>
      tp_authorization_ref p = Some (event_ref event) \<and> tp_observation_refs p = []
      \<and> tp_response_integrity_ref p = None \<and> tp_causal_audit_ref p = None \<and> tp_continuity_snapshot_ref p = None
      \<and> tp_authorization_epoch p = tp_authorization_epoch q + 1"
    and "tb_kind (te_body event) = Observation \<Longrightarrow>
      set (tp_observation_refs p) = insert (event_ref event) (set (tp_observation_refs q))
      \<and> tp_response_integrity_ref p = None \<and> tp_causal_audit_ref p = None \<and> tp_continuity_snapshot_ref p = None"
    and "tb_kind (te_body event) = ResponseIntegrity \<Longrightarrow>
      tp_response_integrity_ref p = Some (event_ref event) \<and> tp_causal_audit_ref p = None
      \<and> tp_continuity_snapshot_ref p = None"
    and "tb_kind (te_body event) = CausalAudit \<Longrightarrow>
      tp_causal_audit_ref p = Some (event_ref event) \<and> tp_continuity_snapshot_ref p = None"
    and "tb_kind (te_body event) = ContinuitySnapshot \<Longrightarrow>
      tp_continuity_snapshot_ref p = Some (event_ref event)
      \<and> tb_links (te_body event) =
          \<lparr>lk_authorization_ref = tp_authorization_ref q, lk_observation_refs = tp_observation_refs q,
           lk_response_integrity_ref = tp_response_integrity_ref q, lk_causal_audit_ref = tp_causal_audit_ref q,
           lk_previous_continuity_ref = tp_continuity_snapshot_ref q\<rparr>"
  using assms
  by (auto simp: extends_def Let_def reauthorized_def update_dependent_refs_def check_dependent_links_def
      expect_optional_ref_def expect_observation_set_def result_simps)

end
