(* ===== verification/Transition_Ledger.thy ===== *)
theory Transition_Ledger
  imports Append_Log Transition_Invariant
begin

text \<open>
  The trustworthy transition ledger, second part: opening with snapshot-assisted and full replay,
  appending under poisoning, and digest-bound snapshots (\<open>trustworthy_transition.rs\<close> and the crash
  safe snapshot of \<open>snapshot_durability.rs\<close>).  The ledger interprets \<open>event_log\<close>; the theorems
  show that an acknowledged event survives a reopening, that a failed append leaves the old or the
  new history, and that a snapshot never changes the recovered state.
\<close>

section \<open>Operations\<close>

record TrustworthyTransitionLedger =
  tl_store :: store
  tl_state :: LedgerState
  tl_snapshot_path :: string
  tl_poisoned :: bool

definition wal_storage :: "wal_error \<Rightarrow> TransitionLedgerError" where
  "wal_storage e = Storage (WalFailure e)"

definition decode_event :: "'h transition_env \<Rightarrow> bytes \<Rightarrow> TransitionLedgerError + TransitionEvent" where
  "decode_event env bs = map_err Encoding (env_de_event env bs)"

definition encode_event :: "'h transition_env \<Rightarrow> TransitionEvent \<Rightarrow> TransitionLedgerError + bytes" where
  "encode_event env event = map_err Encoding (env_ser_event env event)"

definition replay_step :: "'h transition_env \<Rightarrow> LedgerState \<Rightarrow> bytes \<Rightarrow> TransitionLedgerError + LedgerState" where
  "replay_step env = decode_then (decode_event env) (apply_event env)"

definition replay_from :: "'h transition_env \<Rightarrow> store \<Rightarrow> offset \<Rightarrow> LedgerState \<Rightarrow> TransitionLedgerError + LedgerState" where
  "replay_from env s off st = replay_records (env_crc env) wal_storage off (replay_step env) st s"

definition snapshot_state :: "TransitionLedgerSnapshotBody \<Rightarrow> LedgerState" where
  "snapshot_state body =
     \<lparr>ls_next_sequence = sb_next_sequence body, ls_head_event_hash = sb_head_event_hash body,
      ls_projections = sb_projections body, ls_record_owners = sb_record_owners body\<rparr>"

definition verify_snapshot_bytes :: "'h transition_env \<Rightarrow> bytes \<Rightarrow> TransitionLedgerError + TransitionLedgerSnapshot" where
  "verify_snapshot_bytes env bs =
     rbind (map_err Encoding (env_de_snapshot env bs)) (\<lambda>snapshot.
     rbind (require (\<not> (sb_schema (sn_body snapshot) \<noteq> SNAPSHOT_SCHEMA \<or> sb_profile (sn_body snapshot) \<noteq> PROFILE))
              SnapshotProfileMismatch) (\<lambda>_.
     rbind (digest_cbor (env_sha256 env) (env_ser_snapshot_body env) (sn_body snapshot)) (\<lambda>digest.
     rbind (require (digest = sn_snapshot_digest snapshot) SnapshotDigestMismatch) (\<lambda>_.
     rbind (projection_digest env (snapshot_state (sn_body snapshot))) (\<lambda>pd.
     rbind (require (pd = sb_projection_digest (sn_body snapshot)) SnapshotProjectionDigestMismatch) (\<lambda>_.
       Inr snapshot))))))"

definition load_and_verify_snapshot :: "'h transition_env \<Rightarrow> directory \<Rightarrow> TransitionLedgerError + TransitionLedgerSnapshot" where
  "load_and_verify_snapshot env d =
     rbind (ok_or (Storage (SnapshotFailure IoFailure)) (dir_file d SNAPSHOT_FILE)) (verify_snapshot_bytes env)"

text \<open>The checks of \<open>open\<close> on the store it has opened.\<close>

definition recover_state :: "'h transition_env \<Rightarrow> store \<Rightarrow> TransitionLedgerError + LedgerState" where
  "recover_state env s =
     rbind (if bt_get (d_snap (st_disk s)) SNAPSHOT_FILE \<noteq> None then
              rbind (load_and_verify_snapshot env (d_snap (st_disk s))) (\<lambda>snapshot.
                replay_from env s (sb_wal_offset (sn_body snapshot)) (snapshot_state (sn_body snapshot)))
            else replay_from env s offset_start ledger_default) (\<lambda>snapshot_recovered.
     rbind (replay_from env s offset_start ledger_default) (\<lambda>full_replay.
     rbind (require (snapshot_recovered = full_replay) ReplayProjectionMismatch) (\<lambda>_.
       Inr full_replay)))"

text \<open>\<open>store.snap_dir().join(SNAPSHOT_FILE)\<close> for the root path the ledger is opened with.\<close>

definition snapshot_path_of :: "string \<Rightarrow> string" where
  "snapshot_path_of root = root @ ''/snap/'' @ SNAPSHOT_FILE"

definition ledger_open :: "'h transition_env \<Rightarrow> string \<Rightarrow> disk \<Rightarrow> disk \<times> (TransitionLedgerError + TrustworthyTransitionLedger)" where
  "ledger_open env root dk =
     (case store_open (env_crc env) dk of
        (dk', Inl e) \<Rightarrow> (dk', Inl (wal_storage e))
      | (dk', Inr s) \<Rightarrow>
          (case recover_state env s of
             Inl e \<Rightarrow> (store_drop s, Inl e)
           | Inr st \<Rightarrow> (dk', Inr \<lparr>tl_store = s, tl_state = st,
               tl_snapshot_path = snapshot_path_of root, tl_poisoned = False\<rparr>)))"

definition event_body_of :: "LedgerState \<Rightarrow> TransitionEventInput \<Rightarrow> TransitionEventBody" where
  "event_body_of st normalized =
     \<lparr>tb_schema = EVENT_SCHEMA, tb_profile = PROFILE, tb_sequence = ls_next_sequence st,
      tb_transition_id = ti_transition_id normalized, tb_subject_id = ti_subject_id normalized,
      tb_kind = ti_kind normalized, tb_record_ref = ti_record_ref normalized,
      tb_payload_digest = ti_payload_digest normalized, tb_links = ti_links normalized,
      tb_dimensions = ti_dimensions normalized, tb_side_effect_committed = ti_side_effect_committed normalized,
      tb_captured_at_ms = ti_captured_at_ms normalized, tb_previous_event_hash = ls_head_event_hash st\<rparr>"

text \<open>What \<open>append\<close> computes before it touches the store: the event, its successor state, its bytes.\<close>

definition prepare_event :: "'h transition_env \<Rightarrow> LedgerState \<Rightarrow> TransitionEventInput \<Rightarrow>
    TransitionLedgerError + (TransitionEvent \<times> LedgerState \<times> bytes)" where
  "prepare_event env st input =
     rbind (normalize_input input) (\<lambda>normalized.
     rbind (digest_cbor (env_sha256 env) (env_ser_body env) (event_body_of st normalized)) (\<lambda>event_hash.
       let event = \<lparr>te_body = event_body_of st normalized, te_event_hash = event_hash\<rparr>
       in rbind (apply_event env st event) (\<lambda>candidate.
          rbind (encode_event env event) (\<lambda>bs. Inr (event, candidate, bs)))))"

definition ledger_append :: "'h transition_env \<Rightarrow> io_env \<Rightarrow> AppendFailpoint \<Rightarrow> TransitionEventInput \<Rightarrow>
    TrustworthyTransitionLedger \<Rightarrow> (TrustworthyTransitionLedger, TransitionLedgerError, TransitionEvent) outcome" where
  "ledger_append env io fp input l =
     (if tl_poisoned l then (l, Inl PoisonedAfterStorageFailure)
      else case prepare_event env (tl_state l) input of
             Inl e \<Rightarrow> (l, Inl e)
           | Inr (event, candidate, bs) \<Rightarrow>
               (case store_append (env_crc env) io fp bs (tl_store l) of
                  (s, Inl e) \<Rightarrow> (l\<lparr>tl_store := s, tl_poisoned := True\<rparr>, Inl (wal_storage e))
                | (s, Inr _) \<Rightarrow> (l\<lparr>tl_store := s, tl_state := candidate\<rparr>, Inr event)))"

definition projection :: "TrustworthyTransitionLedger \<Rightarrow> string \<Rightarrow> TransitionProjection option" where
  "projection l tid = bt_get (ls_projections (tl_state l)) tid"

definition head_event_hash :: "TrustworthyTransitionLedger \<Rightarrow> string option" where
  "head_event_hash l = ls_head_event_hash (tl_state l)"

definition event_count :: "TrustworthyTransitionLedger \<Rightarrow> u64" where
  "event_count l = saturating_sub (ls_next_sequence (tl_state l)) 1"

definition checkpoint_projection_digest :: "'h transition_env \<Rightarrow> TrustworthyTransitionLedger \<Rightarrow>
    TransitionLedgerError + string" where
  "checkpoint_projection_digest env l = projection_digest env (tl_state l)"

text \<open>The snapshot \<open>write_snapshot\<close> builds, and its bytes.\<close>

definition prepare_snapshot :: "'h transition_env \<Rightarrow> u64 \<Rightarrow> TrustworthyTransitionLedger \<Rightarrow>
    TransitionLedgerError + (TransitionLedgerSnapshot \<times> bytes)" where
  "prepare_snapshot env created_at_ms l =
     rbind (projection_digest env (tl_state l)) (\<lambda>pd.
       let body = \<lparr>sb_schema = SNAPSHOT_SCHEMA, sb_profile = PROFILE, sb_wal_offset = end_offset (tl_store l),
             sb_next_sequence = ls_next_sequence (tl_state l),
             sb_head_event_hash = ls_head_event_hash (tl_state l),
             sb_projections = ls_projections (tl_state l), sb_record_owners = ls_record_owners (tl_state l),
             sb_projection_digest = pd, sb_created_at_ms = created_at_ms\<rparr>
       in rbind (digest_cbor (env_sha256 env) (env_ser_snapshot_body env) body) (\<lambda>digest.
          let snapshot = \<lparr>sn_body = body, sn_snapshot_digest = digest\<rparr>
          in rbind (map_err Encoding (env_ser_snapshot env snapshot)) (\<lambda>bs. Inr (snapshot, bs))))"

definition snapshot_info :: "TrustworthyTransitionLedger \<Rightarrow> TransitionLedgerSnapshot \<Rightarrow> TransitionLedgerSnapshotInfo" where
  "snapshot_info l snapshot =
     \<lparr>si_path = tl_snapshot_path l, si_offset = sb_wal_offset (sn_body snapshot), si_event_count = event_count l,
      si_projection_count = length (ls_projections (tl_state l)),
      si_snapshot_digest = sn_snapshot_digest snapshot,
      si_head_event_hash = sb_head_event_hash (sn_body snapshot),
      si_projection_digest = sb_projection_digest (sn_body snapshot)\<rparr>"

definition with_snap_dir :: "directory \<Rightarrow> TrustworthyTransitionLedger \<Rightarrow> TrustworthyTransitionLedger" where
  "with_snap_dir d l =
     l\<lparr>tl_store := (tl_store l)\<lparr>st_disk := (st_disk (tl_store l))\<lparr>d_snap := d\<rparr>\<rparr>\<rparr>"

abbreviation snap_dir :: "TrustworthyTransitionLedger \<Rightarrow> directory" where
  "snap_dir l \<equiv> d_snap (st_disk (tl_store l))"

text \<open>\<open>write_snapshot\<close> under a plan for the system calls of \<open>atomic_write\<close>; the rest of the plan is
  returned for the caller that continues.\<close>

definition write_snapshot :: "'h transition_env \<Rightarrow> u64 \<Rightarrow> fault list \<Rightarrow> TrustworthyTransitionLedger \<Rightarrow>
    TrustworthyTransitionLedger \<times> fault list \<times> (TransitionLedgerError + TransitionLedgerSnapshotInfo)" where
  "write_snapshot env created_at_ms plan l =
     (case prepare_snapshot env created_at_ms l of
        Inl e \<Rightarrow> (l, plan, Inl e)
      | Inr (snapshot, bs) \<Rightarrow>
          (case replace_snapshot_bytes_crash_safe SNAPSHOT_FILE bs \<lparr>sf_dir = snap_dir l, sf_plan = plan\<rparr> of
             (fs, Inl e) \<Rightarrow> (with_snap_dir (sf_dir fs) l, sf_plan fs, Inl (Storage (SnapshotFailure e)))
           | (fs, Inr _) \<Rightarrow> (with_snap_dir (sf_dir fs) l, sf_plan fs, Inr (snapshot_info l snapshot))))"

definition write_snapshot_crash_safe :: "'h transition_env \<Rightarrow> u64 \<Rightarrow> fault list \<Rightarrow> TrustworthyTransitionLedger \<Rightarrow>
    TrustworthyTransitionLedger \<times> (TransitionLedgerError + TransitionLedgerSnapshotInfo)" where
  "write_snapshot_crash_safe env created_at_ms plan l =
     (let backup = rollback_path SNAPSHOT_FILE
      in case sbind (recover_interrupted_snapshot_replace SNAPSHOT_FILE \<lparr>sf_dir = snap_dir l, sf_plan = plan\<rparr>)
                (\<lambda>fs _. do_when (path_exists SNAPSHOT_FILE fs)
                   (\<lambda>fs. sbind (fs_rename SNAPSHOT_FILE backup fs) (\<lambda>fs _. fs_sync fs)) fs) of
           (fs, Inl e) \<Rightarrow> (with_snap_dir (sf_dir fs) l, Inl (Storage (SnapshotFailure e)))
         | (fs, Inr _) \<Rightarrow>
             (case write_snapshot env created_at_ms (sf_plan fs) (with_snap_dir (sf_dir fs) l) of
                (l', plan', Inr info) \<Rightarrow>
                  (case sbind (fs_sync \<lparr>sf_dir = snap_dir l', sf_plan = plan'\<rparr>)
                          (\<lambda>fs _. do_when (path_exists backup fs)
                             (\<lambda>fs. sbind (remove_file backup fs) (\<lambda>fs _. fs_sync fs)) fs) of
                     (fs, Inl e) \<Rightarrow> (with_snap_dir (sf_dir fs) l', Inl (Storage (SnapshotFailure e)))
                   | (fs, Inr _) \<Rightarrow> (with_snap_dir (sf_dir fs) l', Inr info))
              | (l', plan', Inl error) \<Rightarrow>
                  if error = Storage (SnapshotFailure Crashed) then (l', Inl error)
                  else
                  (case do_when (bt_get (snap_dir l') SNAPSHOT_FILE = None \<and> bt_get (snap_dir l') backup \<noteq> None)
                          (\<lambda>fs. sbind (ignore_error (fs_rename backup SNAPSHOT_FILE fs))
                             (\<lambda>fs _. ignore_error (fs_sync fs)))
                          \<lparr>sf_dir = snap_dir l', sf_plan = plan'\<rparr> of
                     (fs, Inl e) \<Rightarrow> (with_snap_dir (sf_dir fs) l', Inl (Storage (SnapshotFailure e)))
                   | (fs, Inr _) \<Rightarrow> (with_snap_dir (sf_dir fs) l', Inl error))))"

section \<open>The ledger as an event log\<close>

text \<open>What the ledger relies on in the serde crates: decoding what was encoded.\<close>

definition transition_codec :: "'h transition_env \<Rightarrow> bool" where
  "transition_codec env \<longleftrightarrow>
     (\<forall>event bs. env_ser_event env event = Inr bs \<longrightarrow> env_de_event env bs = Inr event) \<and>
     (\<forall>snapshot bs. env_ser_snapshot env snapshot = Inr bs \<longrightarrow> env_de_snapshot env bs = Inr snapshot)"

interpretation tl: event_log "\<lambda>s g. transition_codec env \<and> store_rep (env_crc env) s g" log_of segs_le
    segment_room "\<lambda>(io, fp). store_append (env_crc env) io fp" "store_reopen_again (env_crc env)"
    "replay_records (env_crc env) wal_storage offset_start" "offset_at (env_crc env)" end_offset
    "replay_records (env_crc env) wal_storage" "encode_event env" "decode_event env" "apply_event env" ledger_default
  for env
proof (unfold_locales, goal_cases)
  case (1 s g b n x s' off)
  then show ?case using wal.append_ok [of "env_crc env" s g b n x s' off] by auto
next
  case (2 s g b n x s' e s'')
  then show ?case using wal.append_err [of "env_crc env" s g b n x s' e s''] by auto
next
  case (3 s g)
  then show ?case using wal.reopen_ok by auto
next
  case (4 s g step st)
  then show ?case by (elim conjE) (rule wal.replay_log)
next
  case (5 g g' off n)
  then show ?case by (rule wal.pos_le)
next
  case (6 s g)
  then show ?case using wal.pos_end by blast
next
  case (7 s g off n step st)
  then show ?case by (elim conjE) (rule wal.replay_pos)
next
  case (8 s g ev b)
  then show ?case by (auto simp: encode_event_def decode_event_def transition_codec_def map_err_Inr_iff)
qed

abbreviation ledger_coherent :: "'h transition_env \<Rightarrow> store \<Rightarrow> segments \<Rightarrow> LedgerState \<Rightarrow> bool" where
  "ledger_coherent env \<equiv>
     coherent_log (\<lambda>s g. transition_codec env \<and> store_rep (env_crc env) s g) log_of (replay_step env) ledger_default"

abbreviation ledger_saved :: "'h transition_env \<Rightarrow> segments \<Rightarrow> offset \<Rightarrow> LedgerState \<Rightarrow> bool" where
  "ledger_saved env \<equiv> saved_log log_of (offset_at (env_crc env)) (replay_step env) ledger_default"

lemmas ledger_log = tl.coherent_replay tl.saved_replay tl.saved_now tl.commit tl.abort tl.restart
lemmas ledger_laws = ledger_log [folded replay_step_def]

text \<open>A snapshot file that the ledger can use: it verifies, and its state is the replay up to its offset.\<close>

definition snapshot_entry_ok :: "'h transition_env \<Rightarrow> segments \<Rightarrow> dir_entry \<Rightarrow> bool" where
  "snapshot_entry_ok env segs e \<longleftrightarrow>
     (\<exists>f snapshot. e = RegularFile f \<and> verify_snapshot_bytes env f = Inr snapshot
        \<and> ledger_saved env segs (sb_wal_offset (sn_body snapshot)) (snapshot_state (sn_body snapshot)))"

definition ledger_rep :: "'h transition_env \<Rightarrow> TrustworthyTransitionLedger \<Rightarrow> segments \<Rightarrow> bool" where
  "ledger_rep env l segs \<longleftrightarrow>
     ledger_coherent env (tl_store l) segs (tl_state l) \<and> bt_wf (snap_dir l)
     \<and> pred_option (snapshot_entry_ok env segs) (snap_view SNAPSHOT_FILE (snap_dir l))"

section \<open>Reopening\<close>

lemma ledger_coherent_store: "ledger_coherent env s segs st \<Longrightarrow> store_rep (env_crc env) s segs"
  by (simp add: coherent_log_def)

lemma store_open_snap:
  "store_open crc dk = (dk', Inr s) \<Longrightarrow> st_disk s = dk' \<and> d_snap dk' = d_snap dk"
  by (auto simp: store_open_def store_open_with_rotation_def Let_def split: if_splits prod.splits sum.splits)

lemma store_append_snap: "store_append crc io fp b s = (s', r) \<Longrightarrow> d_snap (st_disk s') = d_snap (st_disk s)"
  by (cases "snd (writer_append crc io fp b (d_data (st_disk s), st_writer s))")
     (auto simp: store_append_def Let_def io_step_def check_def require_def split: if_splits prod.splits)

lemma snap_view_file: "bt_get d n = Some e \<Longrightarrow> snap_view n d = Some e"
  by (simp add: snap_view_def)

lemma recover_state_ok:
  assumes coh: "ledger_coherent env s segs st"
    and snap: "pred_option (snapshot_entry_ok env segs) (snap_view SNAPSHOT_FILE (d_snap (st_disk s)))"
  shows "recover_state env s = Inr st"
proof -
  have full: "replay_from env s offset_start ledger_default = Inr st"
    using ledger_laws(1) [OF coh] by (simp add: replay_from_def)
  show ?thesis
  proof (cases "bt_get (d_snap (st_disk s)) SNAPSHOT_FILE")
    case None
    then show ?thesis using full by (simp add: recover_state_def)
  next
    case (Some e)
    then obtain f snapshot where f: "e = RegularFile f" "verify_snapshot_bytes env f = Inr snapshot"
        "ledger_saved env segs (sb_wal_offset (sn_body snapshot)) (snapshot_state (sn_body snapshot))"
      using snap snap_view_file by (fastforce simp: snapshot_entry_ok_def)
    then have "load_and_verify_snapshot env (d_snap (st_disk s)) = Inr snapshot"
      using Some by (simp add: load_and_verify_snapshot_def dir_file_def)
    moreover have "replay_from env s (sb_wal_offset (sn_body snapshot)) (snapshot_state (sn_body snapshot)) = Inr st"
      using ledger_laws(2) [OF coh f(3)] by (simp add: replay_from_def)
    ultimately show ?thesis using full Some by (simp add: recover_state_def)
  qed
qed

lemma ledger_open_coherent:
  assumes "store_open (env_crc env) dk = (dk', Inr s)" "ledger_coherent env s segs st" "bt_wf (d_snap dk)"
    and "pred_option (snapshot_entry_ok env segs) (snap_view SNAPSHOT_FILE (d_snap dk))"
  shows "\<exists>l. ledger_open env root dk = (dk', Inr l) \<and> tl_state l = st \<and> \<not> tl_poisoned l \<and> ledger_rep env l segs"
proof -
  have d: "d_snap (st_disk s) = d_snap dk" using store_open_snap [OF assms(1)] by simp
  have "recover_state env s = Inr st"
    using recover_state_ok [OF assms(2)] assms(4) d by simp
  then show ?thesis using assms d by (simp add: ledger_open_def ledger_rep_def)
qed

lemma store_reopen_again_open:
  "store_reopen_again crc s = Inr s' \<Longrightarrow> \<exists>dk'. store_open crc (store_drop s) = (dk', Inr s')"
  by (metis store_reopen_again_def prod.collapse)

lemma ledger_reopen:
  assumes "ledger_rep env l segs"
  shows "\<exists>dk' l'. ledger_open env root (store_drop (tl_store l)) = (dk', Inr l') \<and> tl_state l' = tl_state l
    \<and> \<not> tl_poisoned l' \<and> ledger_rep env l' segs"
proof -
  have coh: "ledger_coherent env (tl_store l) segs (tl_state l)" using assms by (simp add: ledger_rep_def)
  obtain s' where s': "store_reopen_again (env_crc env) (tl_store l) = Inr s'"
      "ledger_coherent env s' segs (tl_state l)"
    using ledger_laws(6) [OF coh] by blast
  obtain dk' where "store_open (env_crc env) (store_drop (tl_store l)) = (dk', Inr s')"
    using store_reopen_again_open [OF s'(1)] by blast
  from ledger_open_coherent [OF this s'(2), where root = root] assms show ?thesis
    by (auto simp: ledger_rep_def store_drop_def)
qed

section \<open>Appending\<close>

lemma prepare_event_Inr:
  assumes "prepare_event env st input = Inr (event, candidate, bs)"
  shows "apply_event env st event = Inr candidate" "encode_event env event = Inr bs"
  using assms by (auto simp: prepare_event_def Let_def result_simps)

lemma snapshot_entry_grows:
  "(\<forall>off saved. ledger_saved env g off saved \<longrightarrow> ledger_saved env g' off saved) \<Longrightarrow>
     snapshot_entry_ok env g e \<Longrightarrow> snapshot_entry_ok env g' e"
  by (auto simp: snapshot_entry_ok_def)

lemma ledger_append_ok:
  assumes rep: "ledger_rep env l segs" and room: "segment_room segs (Suc n)"
    and run: "ledger_append env io fp input l = (l', Inr event)"
    and fits: "\<forall>bs. env_ser_event env event = Inr bs \<longrightarrow> frame_ok bs"
  shows "apply_event env (tl_state l) event = Inr (tl_state l')
    \<and> (\<exists>segs'. ledger_rep env l' segs' \<and> segment_room segs' n)"
proof -
  have coh: "ledger_coherent env (tl_store l) segs (tl_state l)" using rep by (simp add: ledger_rep_def)
  obtain candidate bs s off where prep: "prepare_event env (tl_state l) input = Inr (event, candidate, bs)"
      and app: "store_append (env_crc env) io fp bs (tl_store l) = (s, Inr off)"
      and l': "l' = l\<lparr>tl_store := s, tl_state := candidate\<rparr>"
    using run by (auto simp: ledger_append_def split: if_splits sum.splits prod.splits)
  note ev = prepare_event_Inr [OF prep]
  have "frame_ok bs" using ev(2) fits by (simp add: encode_event_def map_err_Inr_iff)
  with ledger_laws(4) [OF coh ev _ room, of "(io, fp)" s off] app
  obtain segs' where segs': "ledger_coherent env s segs' candidate" "segment_room segs' n"
      "\<forall>off saved. ledger_saved env segs off saved \<longrightarrow> ledger_saved env segs' off saved"
    by auto
  then have "ledger_rep env l' segs'"
    using rep store_append_snap [OF app] snapshot_entry_grows [OF segs'(3)]
    by (auto simp: ledger_rep_def l' elim: pred_option_mono')
  then show ?thesis using ev(1) segs'(2) l' by auto
qed

lemma ledger_append_err:
  assumes run: "ledger_append env io fp input l = (l', Inl e)"
  shows "l' = l \<or> (\<exists>event candidate bs s w. e = wal_storage w \<and> \<not> tl_poisoned l
    \<and> l' = l\<lparr>tl_store := s, tl_poisoned := True\<rparr>
    \<and> prepare_event env (tl_state l) input = Inr (event, candidate, bs)
    \<and> store_append (env_crc env) io fp bs (tl_store l) = (s, Inl w))"
  using run by (auto simp: ledger_append_def split: if_splits sum.splits prod.splits)

lemma ledger_abort:
  assumes rep: "ledger_rep env l segs" and room: "segment_room segs (Suc n)"
    and prep: "prepare_event env (tl_state l) input = Inr (event, candidate, bs)" and fits: "frame_ok bs"
    and app: "store_append (env_crc env) io fp bs (tl_store l) = (s, Inl w)"
    and open': "store_open (env_crc env) (store_drop s) = (dk, Inr s')"
  shows "\<exists>l'' segs'. ledger_open env root (store_drop s) = (dk, Inr l'') \<and> tl_state l'' \<in> {tl_state l, candidate}
    \<and> \<not> tl_poisoned l'' \<and> ledger_rep env l'' segs' \<and> segment_room segs' n"
proof -
  have coh: "ledger_coherent env (tl_store l) segs (tl_state l)" using rep by (simp add: ledger_rep_def)
  note ev = prepare_event_Inr [OF prep]
  have "store_reopen_again (env_crc env) s = Inr s'" using open' by (simp add: store_reopen_again_def)
  with ledger_laws(5) [OF coh ev fits room, of "(io, fp)" s w s'] app
  obtain segs' st where segs': "ledger_coherent env s' segs' st" "st \<in> {tl_state l, candidate}" "segment_room segs' n"
      "\<forall>off saved. ledger_saved env segs off saved \<longrightarrow> ledger_saved env segs' off saved"
    by auto
  have "pred_option (snapshot_entry_ok env segs') (snap_view SNAPSHOT_FILE (d_snap (store_drop s)))"
      "bt_wf (d_snap (store_drop s))"
    using rep store_append_snap [OF app] snapshot_entry_grows [OF segs'(4)]
    by (auto simp: ledger_rep_def store_drop_def elim: pred_option_mono')
  from ledger_open_coherent [OF open' segs'(1) this(2,1), where root = root] show ?thesis using segs'(2,3) by auto
qed

section \<open>Snapshots\<close>

lemma prepare_snapshot_verifies:
  assumes "prepare_snapshot env t l = Inr (snapshot, bs)" "transition_codec env"
  shows "verify_snapshot_bytes env bs = Inr snapshot \<and> snapshot_state (sn_body snapshot) = tl_state l
    \<and> sb_wal_offset (sn_body snapshot) = end_offset (tl_store l)"
proof -
  have state: "snapshot_state (sn_body snapshot) = tl_state l"
    using assms(1) by (auto simp: prepare_snapshot_def Let_def result_simps snapshot_state_def)
  then have "verify_snapshot_bytes env bs = Inr snapshot"
    using assms
    by (auto simp: prepare_snapshot_def Let_def result_simps verify_snapshot_bytes_def transition_codec_def)
  then show ?thesis
    using state assms(1) by (auto simp: prepare_snapshot_def Let_def result_simps)
qed

lemma with_snap_dir_simps [simp]:
  "snap_dir (with_snap_dir d l) = d" "tl_state (with_snap_dir d l) = tl_state l"
  "tl_poisoned (with_snap_dir d l) = tl_poisoned l"
  by (simp_all add: with_snap_dir_def)

lemma store_rep_snap_irrelevant:
  "store_rep crc (s\<lparr>st_disk := (st_disk s)\<lparr>d_snap := d\<rparr>\<rparr>) segs \<longleftrightarrow> store_rep crc s segs"
  by (simp add: store_rep_def)

text \<open>The snapshot directory may show any of the given views.\<close>

lemma ledger_rep_with_snap:
  assumes "ledger_rep env l segs" "snap_shows SNAPSHOT_FILE vs d"
    and "\<And>v. v \<in> vs \<Longrightarrow> pred_option (snapshot_entry_ok env segs) v"
  shows "ledger_rep env (with_snap_dir d l) segs"
  using assms
  by (auto simp: ledger_rep_def snap_shows_def coherent_log_def with_snap_dir_def store_rep_snap_irrelevant)

lemma new_snapshot_ok:
  assumes "ledger_rep env l segs" "prepare_snapshot env t l = Inr (snapshot, bs)"
  shows "snapshot_entry_ok env segs (RegularFile bs)"
proof -
  have coh: "ledger_coherent env (tl_store l) segs (tl_state l)" using assms(1) by (simp add: ledger_rep_def)
  then have "transition_codec env" by (simp add: coherent_log_def)
  from prepare_snapshot_verifies [OF assms(2) this] ledger_laws(3) [OF coh] show ?thesis
    by (auto simp: snapshot_entry_ok_def)
qed

lemma write_snapshot_rep:
  assumes rep: "ledger_rep env l segs" and run: "write_snapshot env t plan l = (l', plan', r)"
  shows "ledger_rep env l' segs \<and> tl_state l' = tl_state l"
proof (cases "prepare_snapshot env t l")
  case (Inl e)
  then show ?thesis using run rep by (simp add: write_snapshot_def)
next
  case (Inr sb)
  obtain snapshot bs where sb: "sb = (snapshot, bs)" by (cases sb)
  let ?fs = "\<lparr>sf_dir = snap_dir l, sf_plan = plan\<rparr>"
  obtain fs q where fs: "replace_snapshot_bytes_crash_safe SNAPSHOT_FILE bs ?fs = (fs, q)"
    by (cases "replace_snapshot_bytes_crash_safe SNAPSHOT_FILE bs ?fs")
  have l': "l' = with_snap_dir (sf_dir fs) l"
    using run fs Inr sb by (auto simp: write_snapshot_def split: sum.splits)
  let ?v = "snap_view SNAPSHOT_FILE (snap_dir l)"
  have "snap_shows SNAPSHOT_FILE {?v} (sf_dir ?fs)" using rep by (simp add: snap_shows_def ledger_rep_def)
  from ensures_outcome [OF replace_ensures this fs]
  have "snap_shows SNAPSHOT_FILE {?v, Some (RegularFile bs)} (sf_dir fs)"
    using snap_clean_shows by (fastforce simp: insert_commute split: sum.splits)
  moreover have "pred_option (snapshot_entry_ok env segs) v" if "v \<in> {?v, Some (RegularFile bs)}" for v
    using that new_snapshot_ok [OF rep, of t snapshot bs] Inr sb rep by (auto simp: ledger_rep_def)
  ultimately have "ledger_rep env (with_snap_dir (sf_dir fs) l) segs" by (rule ledger_rep_with_snap [OF rep])
  then show ?thesis by (simp add: l')
qed

lemma write_snapshot_installed:
  assumes rep: "ledger_rep env l segs" and run: "write_snapshot env t plan l = (l', plan', Inr info)"
  shows "\<exists>v. snap_clean SNAPSHOT_FILE v (snap_dir l')"
proof -
  let ?v = "snap_view SNAPSHOT_FILE (snap_dir l)"
  obtain snapshot bs fs where fs: "replace_snapshot_bytes_crash_safe SNAPSHOT_FILE bs
        \<lparr>sf_dir = snap_dir l, sf_plan = plan\<rparr> = (fs, Inr ())" and l': "l' = with_snap_dir (sf_dir fs) l"
    using run by (auto simp: write_snapshot_def split: sum.splits prod.splits)
  have "snap_shows SNAPSHOT_FILE {?v} (sf_dir \<lparr>sf_dir = snap_dir l, sf_plan = plan\<rparr>)"
    using rep by (simp add: snap_shows_def ledger_rep_def)
  from ensures_outcome [OF replace_ensures this fs] show ?thesis by (auto simp: l')
qed

text \<open>\<open>write_snapshot_crash_safe\<close> moves the snapshot away first; the inner replacement moves it back.\<close>

lemma move_away_ensures:
  "ensures (snap_shows n {v})
     (\<lambda>fs. sbind (recover_interrupted_snapshot_replace n fs)
        (\<lambda>fs _. do_when (path_exists n fs)
           (\<lambda>fs. sbind (fs_rename n (rollback_path n) fs) (\<lambda>fs _. fs_sync fs)) fs))
     (snap_shows n {v}) (snap_shows n {v})"
proof (rule ensures_bind [OF recover_ensures], intro ensures_do_when ensures_bind [where R = "snap_shows n {v}"] ensures_sync)
  show "ensures (\<lambda>d. snap_clean n v d \<and> bt_get d n \<noteq> None) (fs_rename n (rollback_path n))
      (snap_shows n {v}) (snap_shows n {v})"
    by (rule ensures_rename) (auto simp: snap_clean_def snap_shows_def snap_view_def rename_effect_get)
qed (auto dest: snap_clean_shows [where vs = "{}"])

lemma drop_backup_ensures:
  "ensures (snap_clean n v)
     (\<lambda>fs. sbind (fs_sync fs) (\<lambda>fs _. do_when (path_exists (rollback_path n) fs)
        (\<lambda>fs. sbind (remove_file (rollback_path n) fs) (\<lambda>fs _. fs_sync fs)) fs))
     (snap_clean n v) (snap_clean n v)"
proof (rule ensures_bind [OF ensures_sync], assumption, rule ensures_do_when)
  show "ensures (\<lambda>d. snap_clean n v d \<and> bt_get d (rollback_path n) \<noteq> None)
      (\<lambda>fs. sbind (remove_file (rollback_path n) fs) (\<lambda>fs _. fs_sync fs)) (snap_clean n v) (snap_clean n v)"
    by (auto simp: ensures_def snap_clean_def)
qed

lemma move_back_ensures:
  "ensures (\<lambda>d. snap_shows n {v} d \<and> bt_get d n = None \<and> bt_get d (rollback_path n) \<noteq> None)
     (\<lambda>fs. sbind (ignore_error (fs_rename (rollback_path n) n fs)) (\<lambda>fs _. ignore_error (fs_sync fs)))
     (snap_shows n {v}) (snap_shows n {v})"
proof (rule ensures_bind [where R = "snap_shows n {v}"])
  show "ensures (\<lambda>d. snap_shows n {v} d \<and> bt_get d n = None \<and> bt_get d (rollback_path n) \<noteq> None)
      (\<lambda>fs. ignore_error (fs_rename (rollback_path n) n fs)) (snap_shows n {v}) (snap_shows n {v})"
    by (auto simp: ensures_def fs_rename_def path_exists_def syscall_def ignore_error_def snap_shows_def
        snap_view_def rename_effect_get split: list.splits fault.splits)
  show "ensures (snap_shows n {v}) (\<lambda>fs. ignore_error (fs_sync fs)) (snap_shows n {v}) (snap_shows n {v})"
    by (auto simp: ensures_def fs_sync_def syscall_def ignore_error_def split: list.splits fault.splits)
qed

lemma ledger_rep_same_view:
  assumes "ledger_rep env l segs" "snap_shows SNAPSHOT_FILE {snap_view SNAPSHOT_FILE (snap_dir l)} d"
  shows "ledger_rep env (with_snap_dir d l) segs"
  using assms by (intro ledger_rep_with_snap) (auto simp: ledger_rep_def)

lemma ledger_rep_shows:
  "ledger_rep env l segs \<Longrightarrow> snap_shows SNAPSHOT_FILE {snap_view SNAPSHOT_FILE (snap_dir l)} (snap_dir l)"
  by (simp add: ledger_rep_def snap_shows_def)

lemma write_snapshot_crash_safe_rep:
  assumes rep: "ledger_rep env l segs" and run: "write_snapshot_crash_safe env t plan l = (l', r)"
  shows "ledger_rep env l' segs \<and> tl_state l' = tl_state l"
proof -
  let ?n = SNAPSHOT_FILE
  let ?m = "\<lambda>fs. sbind (recover_interrupted_snapshot_replace ?n fs)
      (\<lambda>fs _. do_when (path_exists ?n fs) (\<lambda>fs. sbind (fs_rename ?n (rollback_path ?n) fs) (\<lambda>fs _. fs_sync fs)) fs)"
  obtain fs q where fs: "?m \<lparr>sf_dir = snap_dir l, sf_plan = plan\<rparr> = (fs, q)"
    by (rule prod.exhaust)
  have "snap_shows ?n {snap_view ?n (snap_dir l)} (sf_dir fs)"
    using ensures_outcome [OF move_away_ensures _ fs] ledger_rep_shows [OF rep] by (cases q) auto
  then have rep1: "ledger_rep env (with_snap_dir (sf_dir fs) l) segs" by (rule ledger_rep_same_view [OF rep])
  obtain l2 plan2 q2 where w: "write_snapshot env t (sf_plan fs) (with_snap_dir (sf_dir fs) l) = (l2, plan2, q2)"
    by (rule prod_cases3)
  have rep2: "ledger_rep env l2 segs" "tl_state l2 = tl_state l" using write_snapshot_rep [OF rep1 w] by auto
  let ?d = "\<lambda>fs. sbind (fs_sync fs) (\<lambda>fs _. do_when (path_exists (rollback_path ?n) fs)
        (\<lambda>fs. sbind (remove_file (rollback_path ?n) fs) (\<lambda>fs _. fs_sync fs)) fs)"
  obtain fs3 q3 where fs3: "?d \<lparr>sf_dir = snap_dir l2, sf_plan = plan2\<rparr> = (fs3, q3)"
    by (rule prod.exhaust)
  let ?b = "\<lambda>fs. sbind (ignore_error (fs_rename (rollback_path ?n) ?n fs)) (\<lambda>fs _. ignore_error (fs_sync fs))"
  obtain fs4 q4 where fs4: "?b \<lparr>sf_dir = snap_dir l2, sf_plan = plan2\<rparr> = (fs4, q4)"
    by (rule prod.exhaust)
  have ok3: "ledger_rep env (with_snap_dir (sf_dir fs3) l2) segs" if done2: "q2 = Inr info" for info
  proof -
    obtain v where v: "snap_clean ?n v (snap_dir l2)" using write_snapshot_installed [OF rep1] w done2 by blast
    then have "snap_clean ?n v (sf_dir fs3)"
      using ensures_outcome [OF drop_backup_ensures _ fs3] by (cases q3) auto
    moreover have "v = snap_view ?n (snap_dir l2)" using snap_clean_shows [OF v, of "{}"] by (simp add: snap_shows_def)
    ultimately show ?thesis using ledger_rep_same_view [OF rep2(1)] snap_clean_shows [where vs = "{}"] by blast
  qed
  have ok4: "ledger_rep env (with_snap_dir (sf_dir fs4) l2) segs"
    if "bt_get (snap_dir l2) ?n = None \<and> bt_get (snap_dir l2) (rollback_path ?n) \<noteq> None"
    using ensures_outcome [OF move_back_ensures [of ?n "snap_view ?n (snap_dir l2)"] _ fs4] ledger_rep_shows [OF rep2(1)] that
      ledger_rep_same_view [OF rep2(1)] by (cases q4) auto
  have same: "with_snap_dir (snap_dir l2) l2 = l2" by (simp add: with_snap_dir_def)
  note unfolds = run [unfolded write_snapshot_crash_safe_def Let_def fs]
  show ?thesis
  proof (cases q)
    case (Inl e)
    then show ?thesis using unfolds rep1 by auto
  next
    case q: (Inr u)
    show ?thesis
    proof (cases q2)
      case (Inr info)
      then show ?thesis using unfolds rep2 ok3 by (cases q3) (auto simp: q w fs3)
    next
      case (Inl e)
      then show ?thesis
        using unfolds rep2 ok4 by (cases q4) (auto simp: q w fs4 do_when_def same split: if_splits)
    qed
  qed
qed

section \<open>A snapshot taken after an ambiguous failure\<close>

text \<open>With \<open>sync_fails\<close> the store ends after the record, the state in memory before it.\<close>

lemma store_append_unsynced:
  assumes "store_append crc sync_fails Disabled b s = (s', r)"
  shows "\<exists>off. store_append crc (\<lambda>_. None) Disabled b s = (s', Inr off) \<and> r = Inl (IoError SyncSegment)
    \<or> (\<exists>e. r = Inl e \<and> store_append crc (\<lambda>_. None) Disabled b s = (s', Inl e))"
proof -
  have w: "write_all sync_fails call = write_all (\<lambda>_. None) call" if "call \<noteq> SyncSegment" for call
    using that by (simp add: fun_eq_iff write_all_def sync_fails_def)
  have i: "io_step sync_fails call s = io_step (\<lambda>_. None) call s" if "call \<noteq> SyncSegment" for call and s :: "directory \<times> wal_writer"
    using that by (simp add: io_step_def sync_fails_def)
  have "writer_append crc sync_fails Disabled b = writer_append crc (\<lambda>_. None) Disabled b"
    by (simp add: fun_eq_iff writer_append_def write_frame_def writer_rotate_def w i)
       (simp add: sync_fails_def)
  then show ?thesis
    using assms
    by (cases "writer_append crc (\<lambda>_. None) Disabled b (d_data (st_disk s), st_writer s)";
        cases "snd (writer_append crc (\<lambda>_. None) Disabled b (d_data (st_disk s), st_writer s))")
       (auto simp: store_append_def Let_def io_step_def sync_fails_def)
qed

lemma apply_event_changes: "apply_event env st event = Inr st' \<Longrightarrow> st' \<noteq> st"
  by (auto elim!: apply_event_shape dest: arg_cong [where f = ls_next_sequence])

lemma recover_state_mismatch:
  assumes coh: "ledger_coherent env s segs st" and snap: "bt_get (d_snap (st_disk s)) SNAPSHOT_FILE = Some (RegularFile f)"
    and ver: "verify_snapshot_bytes env f = Inr snapshot"
    and off: "sb_wal_offset (sn_body snapshot) = end_offset s"
    and stale: "snapshot_state (sn_body snapshot) \<noteq> st"
  shows "recover_state env s = Inl ReplayProjectionMismatch"
proof -
  have rep: "store_rep (env_crc env) s segs" using coh by (rule ledger_coherent_store)
  have full: "replay_from env s offset_start ledger_default = Inr st"
    using ledger_laws(1) [OF coh] by (simp add: replay_from_def)
  have "replay_from env s (end_offset s) st0 = Inr st0" for st0
    using wal.replay_pos [OF rep wal.pos_end [OF rep]] by (simp add: replay_from_def)
  moreover have "load_and_verify_snapshot env (d_snap (st_disk s)) = Inr snapshot"
    using snap ver by (simp add: load_and_verify_snapshot_def dir_file_def)
  ultimately show ?thesis using full snap off stale by (simp add: recover_state_def require_def)
qed

lemma unsynced_append:
  assumes rep: "ledger_rep env l segs" "segment_room segs (Suc n)"
    and prep: "prepare_event env (tl_state l) input = Inr (event, candidate, bs)" "frame_ok bs"
    and app: "store_append (env_crc env) sync_fails Disabled bs (tl_store l) = (s, Inl w)"
  shows "\<exists>segs'. ledger_coherent env s segs' candidate"
proof -
  have coh: "ledger_coherent env (tl_store l) segs (tl_state l)" using rep(1) by (simp add: ledger_rep_def)
  obtain s0 off0 where "store_append (env_crc env) (\<lambda>_. None) Disabled bs (tl_store l) = (s0, Inr off0)"
    using store_append_succeeds [OF ledger_coherent_store [OF coh], of "\<lambda>_. None" bs] by auto
  then obtain off where off: "store_append (env_crc env) (\<lambda>_. None) Disabled bs (tl_store l) = (s, Inr off)"
    using store_append_unsynced [OF app] by auto
  note ev = prepare_event_Inr [OF prep(1)]
  show ?thesis
    using ledger_laws(4) [OF coh ev prep(2) rep(2), of "(\<lambda>_. None, Disabled)" s off] off by auto
qed

lemma write_snapshot_file:
  assumes "bt_wf (snap_dir l)" "write_snapshot env t plan l = (l', plan', Inr info)"
  shows "\<exists>snapshot bs d. prepare_snapshot env t l = Inr (snapshot, bs) \<and> l' = with_snap_dir d l
    \<and> bt_get d SNAPSHOT_FILE = Some (RegularFile bs)"
proof -
  let ?fs = "\<lparr>sf_dir = snap_dir l, sf_plan = plan\<rparr>"
  obtain snapshot bs fs where run: "prepare_snapshot env t l = Inr (snapshot, bs)"
      "replace_snapshot_bytes_crash_safe SNAPSHOT_FILE bs ?fs = (fs, Inr ())" "l' = with_snap_dir (sf_dir fs) l"
    using assms(2) by (auto simp: write_snapshot_def split: sum.splits prod.splits)
  have "snap_shows SNAPSHOT_FILE {snap_view SNAPSHOT_FILE (snap_dir l)} (sf_dir ?fs)"
    using assms(1) by (simp add: snap_shows_def)
  from ensures_outcome [OF replace_ensures this run(2)] show ?thesis using run by (auto simp: snap_clean_def)
qed

lemma store_rep_end_offset: "store_rep crc s segs \<Longrightarrow> store_rep crc s' segs \<Longrightarrow> end_offset s = end_offset s'"
  by (simp add: store_rep_def writer_at_def end_offset_def)

lemma stale_snapshot_reopen:
  assumes coh: "ledger_coherent env (tl_store l) segs st" and wf: "bt_wf (snap_dir l)"
    and stale: "tl_state l \<noteq> st" and snap: "write_snapshot env t plan l = (l', plan', Inr info)"
  shows "snd (ledger_open env root (store_drop (tl_store l'))) = Inl ReplayProjectionMismatch"
proof -
  obtain snapshot bs d where run: "prepare_snapshot env t l = Inr (snapshot, bs)" "l' = with_snap_dir d l"
      "bt_get d SNAPSHOT_FILE = Some (RegularFile bs)"
    using write_snapshot_file [OF wf snap] by blast
  have codec: "transition_codec env" using coh by (simp add: coherent_log_def)
  have coh': "ledger_coherent env (tl_store l') segs st"
    using coh by (simp add: run(2) coherent_log_def with_snap_dir_def store_rep_snap_irrelevant)
  obtain s' where s': "store_reopen_again (env_crc env) (tl_store l') = Inr s'" "ledger_coherent env s' segs st"
    using ledger_laws(6) [OF coh'] by blast
  obtain dk' where dk': "store_open (env_crc env) (store_drop (tl_store l')) = (dk', Inr s')"
    using store_reopen_again_open [OF s'(1)] by blast
  have d: "d_snap (st_disk s') = d"
    using store_open_snap [OF dk'] run(2) by (simp add: store_drop_def with_snap_dir_def)
  have "end_offset (tl_store l) = end_offset s'"
    using store_rep_end_offset ledger_coherent_store coh s'(2) by blast
  then have "recover_state env s' = Inl ReplayProjectionMismatch"
    using prepare_snapshot_verifies [OF run(1) codec] run(3) d stale
    by (intro recover_state_mismatch [OF s'(2), of bs snapshot]) auto
  then show ?thesis by (simp add: ledger_open_def dk')
qed

end
