(* ===== verification/Checkpoint.thy ===== *)
theory Checkpoint
  imports Transition_Ledger
begin

text \<open>
  Signed checkpoints of a transition ledger, \<open>checkpoint.rs\<close>: the material of a checkpoint, signing,
  the registry of trusted keys, the verification of one manifest and of a chain of manifests, and the
  external anchor against rollback.  The Ed25519 crate, SHA-256 and serde are parameters; what the
  theorems use of the signature scheme is the hypothesis \<open>ed25519_ok\<close>.
\<close>

section \<open>Data\<close>

definition CHECKPOINT_SCHEMA :: string where
  "CHECKPOINT_SCHEMA = ''liminaldb.signed-checkpoint-manifest.v0.1''"
definition CHECKPOINT_PROFILE :: string where
  "CHECKPOINT_PROFILE = ''org.liminaldb.signed-checkpoint.v0.1''"
definition LEDGER_PROFILE :: string where
  "LEDGER_PROFILE = ''org.liminaldb.trustworthy-transition-ledger.v0.1''"
definition SIGNATURE_ALGORITHM :: string where
  "SIGNATURE_ALGORITHM = ''Ed25519''"

record CheckpointMaterial =
  cm_ledger_profile :: string
  cm_storage_root_identity :: string
  cm_event_chain_head :: string
  cm_last_sequence :: u64
  cm_wal_segment :: nat
  cm_wal_offset :: nat
  cm_projection_digest :: string
  cm_snapshot_digest :: string

record CheckpointManifestBody =
  mb_schema :: string
  mb_checkpoint_profile :: string
  mb_ledger_profile :: string
  mb_storage_root_identity :: string
  mb_event_chain_head :: string
  mb_last_sequence :: u64
  mb_wal_segment :: nat
  mb_wal_offset :: nat
  mb_projection_digest :: string
  mb_snapshot_digest :: string
  mb_signer_id :: string
  mb_key_id :: string
  mb_issued_at_ms :: u64
  mb_expires_at_ms :: "u64 option"
  mb_previous_checkpoint_ref :: "string option"

record SignedCheckpointManifest =
  sm_body :: CheckpointManifestBody
  sm_manifest_ref :: string
  sm_signature_algorithm :: string
  sm_signature_hex :: string

record TrustedCheckpointKey =
  tk_signer_id :: string
  tk_key_id :: string
  tk_public_key_hex :: string
  tk_valid_from_ms :: u64
  tk_valid_until_ms :: "u64 option"
  tk_revoked_at_ms :: "u64 option"

type_synonym TrustedKeyRegistry = "(string, TrustedCheckpointKey) btree_map"

record 'sk CheckpointSigner =
  cs_signer_id :: string
  cs_key_id :: string
  cs_signing_key :: 'sk

record ExternalAnchor =
  ea_provider_profile :: string
  ea_anchor_id :: string
  ea_checkpoint_ref :: string
  ea_storage_root_identity :: string
  ea_event_chain_head :: string
  ea_last_sequence :: u64
  ea_anchored_at_ms :: u64

datatype AntiRollbackStatus = LocalSignatureOnly | ExternalAnchorVerified

record VerifiedCheckpointChain =
  vc_status :: AntiRollbackStatus
  vc_storage_root_identity :: string
  vc_first_checkpoint_ref :: string
  vc_latest_checkpoint_ref :: string
  vc_latest_event_chain_head :: string
  vc_latest_sequence :: u64
  vc_checkpoint_count :: nat
  vc_external_anchor_id :: "string option"

datatype CheckpointError =
  CP_Encoding string
  | InvalidField string
  | CP_InvalidReference string
  | InvalidHex string
  | UnsupportedSignatureAlgorithm
  | ManifestReferenceMismatch
  | SignatureVerificationFailed
  | UnknownKey
  | KeyNotYetValid
  | KeyExpired
  | KeyRevoked
  | CheckpointFromFuture
  | CheckpointExpired
  | InvalidExpiry
  | EmptyChain
  | ChainIdentityMismatch
  | PreviousCheckpointMismatch
  | NonMonotonicCheckpoint
  | LedgerHeadNotAdvanced
  | ExternalAnchorRollback
  | ExternalAnchorFork
  | ExternalAnchorNotInChain
  | MissingLedgerHead
  | SnapshotStateMismatch
  | LedgerEncoding TransitionLedgerError

fun checkpoint_error_code :: "CheckpointError \<Rightarrow> string" where
  "checkpoint_error_code (CP_Encoding _) = ''ENCODING_ERROR''"
| "checkpoint_error_code (InvalidField _) = ''INVALID_FIELD''"
| "checkpoint_error_code (CP_InvalidReference _) = ''INVALID_REFERENCE''"
| "checkpoint_error_code (InvalidHex _) = ''INVALID_HEX''"
| "checkpoint_error_code UnsupportedSignatureAlgorithm = ''UNSUPPORTED_SIGNATURE_ALGORITHM''"
| "checkpoint_error_code ManifestReferenceMismatch = ''MANIFEST_REFERENCE_MISMATCH''"
| "checkpoint_error_code SignatureVerificationFailed = ''SIGNATURE_VERIFICATION_FAILED''"
| "checkpoint_error_code UnknownKey = ''UNKNOWN_KEY''"
| "checkpoint_error_code KeyNotYetValid = ''KEY_NOT_YET_VALID''"
| "checkpoint_error_code KeyExpired = ''KEY_EXPIRED''"
| "checkpoint_error_code KeyRevoked = ''KEY_REVOKED''"
| "checkpoint_error_code CheckpointFromFuture = ''CHECKPOINT_FROM_FUTURE''"
| "checkpoint_error_code CheckpointExpired = ''CHECKPOINT_EXPIRED''"
| "checkpoint_error_code InvalidExpiry = ''INVALID_EXPIRY''"
| "checkpoint_error_code EmptyChain = ''EMPTY_CHAIN''"
| "checkpoint_error_code ChainIdentityMismatch = ''CHAIN_IDENTITY_MISMATCH''"
| "checkpoint_error_code PreviousCheckpointMismatch = ''PREVIOUS_CHECKPOINT_MISMATCH''"
| "checkpoint_error_code NonMonotonicCheckpoint = ''NON_MONOTONIC_CHECKPOINT''"
| "checkpoint_error_code LedgerHeadNotAdvanced = ''LEDGER_HEAD_NOT_ADVANCED''"
| "checkpoint_error_code ExternalAnchorRollback = ''EXTERNAL_ANCHOR_ROLLBACK''"
| "checkpoint_error_code ExternalAnchorFork = ''EXTERNAL_ANCHOR_FORK''"
| "checkpoint_error_code ExternalAnchorNotInChain = ''EXTERNAL_ANCHOR_NOT_IN_CHAIN''"
| "checkpoint_error_code MissingLedgerHead = ''MISSING_LEDGER_HEAD''"
| "checkpoint_error_code SnapshotStateMismatch = ''SNAPSHOT_STATE_MISMATCH''"
| "checkpoint_error_code (LedgerEncoding _) = ''ENCODING_ERROR''"

text \<open>The crates.  \<open>ed_parse_signature\<close> is \<open>Signature::try_from\<close>, \<open>ed_parse_public\<close> is
  \<open>VerifyingKey::from_bytes\<close>.\<close>

record ('sk, 'vk) checkpoint_env =
  ce_sha256 :: "bytes \<Rightarrow> bytes"
  ce_ser_body :: "CheckpointManifestBody \<Rightarrow> string + bytes"
  ed_from_bytes :: "bytes \<Rightarrow> 'sk"
  ed_public_bytes :: "'sk \<Rightarrow> bytes"
  ed_sign :: "'sk \<Rightarrow> bytes \<Rightarrow> bytes"
  ed_parse_public :: "bytes \<Rightarrow> 'vk option"
  ed_parse_signature :: "bytes \<Rightarrow> bytes option"
  ed_verify :: "'vk \<Rightarrow> bytes \<Rightarrow> bytes \<Rightarrow> bool"

section \<open>Helpers\<close>

definition cp_normalized :: "string \<Rightarrow> string \<Rightarrow> CheckpointError + string" where
  "cp_normalized v label =
     (let n = trim v in if n = [] then Inl (InvalidField label) else Inr n)"

definition cp_validate_ref :: "string \<Rightarrow> string \<Rightarrow> CheckpointError + unit" where
  "cp_validate_ref reference label = require (is_sha256_ref reference) (CP_InvalidReference label)"

definition canonical_bytes :: "('sk, 'vk) checkpoint_env \<Rightarrow> CheckpointManifestBody \<Rightarrow> CheckpointError + bytes" where
  "canonical_bytes env body = map_err CP_Encoding (ce_ser_body env body)"

definition key_slot :: "string \<Rightarrow> string \<Rightarrow> string" where
  "key_slot signer_id key_id = signer_id @ [CHR 0x00] @ key_id"

definition encode_hex :: "bytes \<Rightarrow> string" where
  "encode_hex bs = hex_of_bytes bs"

fun hex_pairs :: "string \<Rightarrow> bytes" where
  "hex_pairs (a # b # cs) = word_of_nat (16 * hex_digit_value a + hex_digit_value b) # hex_pairs cs"
| "hex_pairs _ = []"

definition decode_hex :: "string \<Rightarrow> string \<Rightarrow> CheckpointError + bytes" where
  "decode_hex v label =
     (if length v mod 2 \<noteq> 0 \<or> \<not> list_all is_ascii_hexdigit v then Inl (InvalidHex label)
      else Inr (hex_pairs v))"

definition decode_fixed :: "nat \<Rightarrow> string \<Rightarrow> string \<Rightarrow> CheckpointError + bytes" where
  "decode_fixed n v label =
     rbind (decode_hex v label) (\<lambda>bs. if length bs = n then Inr bs else Inl (InvalidHex label))"

definition validate_material :: "CheckpointMaterial \<Rightarrow> CheckpointError + unit" where
  "validate_material m =
     rbind (cp_normalized (cm_ledger_profile m) ''ledger_profile'') (\<lambda>_.
     rbind (cp_validate_ref (cm_storage_root_identity m) ''storage_root_identity'') (\<lambda>_.
     rbind (cp_validate_ref (cm_event_chain_head m) ''event_chain_head'') (\<lambda>_.
     rbind (cp_validate_ref (cm_projection_digest m) ''projection_digest'') (\<lambda>_.
     rbind (cp_validate_ref (cm_snapshot_digest m) ''snapshot_digest'') (\<lambda>_.
       require (cm_last_sequence m \<noteq> 0) (InvalidField ''last_sequence''))))))"

definition material_of_body :: "CheckpointManifestBody \<Rightarrow> CheckpointMaterial" where
  "material_of_body body =
     \<lparr>cm_ledger_profile = mb_ledger_profile body, cm_storage_root_identity = mb_storage_root_identity body,
      cm_event_chain_head = mb_event_chain_head body, cm_last_sequence = mb_last_sequence body,
      cm_wal_segment = mb_wal_segment body, cm_wal_offset = mb_wal_offset body,
      cm_projection_digest = mb_projection_digest body, cm_snapshot_digest = mb_snapshot_digest body\<rparr>"

definition check_expiry :: "u64 option \<Rightarrow> u64 \<Rightarrow> CheckpointError + unit" where
  "check_expiry expires issued =
     (case expires of Some e \<Rightarrow> require (\<not> e \<le> issued) InvalidExpiry | None \<Rightarrow> Inr ())"

definition check_previous_ref :: "string option \<Rightarrow> CheckpointError + unit" where
  "check_previous_ref reference =
     (case reference of Some r \<Rightarrow> cp_validate_ref r ''previous_checkpoint_ref'' | None \<Rightarrow> Inr ())"

definition validate_manifest_body :: "CheckpointManifestBody \<Rightarrow> CheckpointError + unit" where
  "validate_manifest_body body =
     rbind (require (\<not> (mb_schema body \<noteq> CHECKPOINT_SCHEMA \<or> mb_checkpoint_profile body \<noteq> CHECKPOINT_PROFILE))
              (InvalidField ''schema_or_profile'')) (\<lambda>_.
     rbind (validate_material (material_of_body body)) (\<lambda>_.
     rbind (cp_normalized (mb_signer_id body) ''signer_id'') (\<lambda>_.
     rbind (cp_normalized (mb_key_id body) ''key_id'') (\<lambda>_.
     rbind (check_expiry (mb_expires_at_ms body) (mb_issued_at_ms body)) (\<lambda>_.
       check_previous_ref (mb_previous_checkpoint_ref body))))))"

definition validate_trusted_key :: "TrustedCheckpointKey \<Rightarrow> CheckpointError + unit" where
  "validate_trusted_key key =
     rbind (cp_normalized (tk_signer_id key) ''signer_id'') (\<lambda>_.
     rbind (cp_normalized (tk_key_id key) ''key_id'') (\<lambda>_.
     rbind (decode_fixed 32 (tk_public_key_hex key) ''public_key_hex'') (\<lambda>_.
       require (\<not> (case tk_valid_until_ms key of Some until \<Rightarrow> until < tk_valid_from_ms key | None \<Rightarrow> False))
         (InvalidField ''valid_until_ms''))))"

definition validate_anchor :: "ExternalAnchor \<Rightarrow> CheckpointError + unit" where
  "validate_anchor anchor =
     rbind (cp_normalized (ea_provider_profile anchor) ''provider_profile'') (\<lambda>_.
     rbind (cp_normalized (ea_anchor_id anchor) ''anchor_id'') (\<lambda>_.
     rbind (cp_validate_ref (ea_checkpoint_ref anchor) ''checkpoint_ref'') (\<lambda>_.
     rbind (cp_validate_ref (ea_storage_root_identity anchor) ''storage_root_identity'') (\<lambda>_.
     rbind (cp_validate_ref (ea_event_chain_head anchor) ''event_chain_head'') (\<lambda>_.
       require (ea_last_sequence anchor \<noteq> 0) (InvalidField ''last_sequence''))))))"

section \<open>Material of a ledger\<close>

definition checkpoint_material :: "'h transition_env \<Rightarrow> TrustworthyTransitionLedger \<Rightarrow> string \<Rightarrow>
    TransitionLedgerSnapshotInfo \<Rightarrow> CheckpointError + CheckpointMaterial" where
  "checkpoint_material env l storage_root_identity snapshot =
     rbind (cp_validate_ref storage_root_identity ''storage_root_identity'') (\<lambda>_.
     rbind (cp_validate_ref (si_snapshot_digest snapshot) ''snapshot_digest'') (\<lambda>_.
     rbind (ok_or MissingLedgerHead (head_event_hash l)) (\<lambda>head.
     rbind (cp_validate_ref head ''event_chain_head'') (\<lambda>_.
     rbind (map_err LedgerEncoding (checkpoint_projection_digest env l)) (\<lambda>pd.
     rbind (require (\<not> (si_path snapshot \<noteq> tl_snapshot_path l \<or> si_event_count snapshot \<noteq> event_count l
                \<or> si_projection_count snapshot \<noteq> length (ls_projections (tl_state l))
                \<or> si_head_event_hash snapshot \<noteq> Some head \<or> si_projection_digest snapshot \<noteq> pd))
              SnapshotStateMismatch) (\<lambda>_.
       Inr \<lparr>cm_ledger_profile = LEDGER_PROFILE, cm_storage_root_identity = storage_root_identity,
            cm_event_chain_head = head, cm_last_sequence = event_count l,
            cm_wal_segment = segment (si_offset snapshot), cm_wal_offset = position (si_offset snapshot),
            cm_projection_digest = pd, cm_snapshot_digest = si_snapshot_digest snapshot\<rparr>))))))"

section \<open>Signing\<close>

definition from_seed :: "('sk, 'vk) checkpoint_env \<Rightarrow> string \<Rightarrow> string \<Rightarrow> bytes \<Rightarrow> CheckpointError + 'sk CheckpointSigner" where
  "from_seed env signer_id key_id seed =
     rbind (cp_normalized signer_id ''signer_id'') (\<lambda>signer_id.
     rbind (cp_normalized key_id ''key_id'') (\<lambda>key_id.
       Inr \<lparr>cs_signer_id = signer_id, cs_key_id = key_id, cs_signing_key = ed_from_bytes env seed\<rparr>))"

definition from_seed_hex :: "('sk, 'vk) checkpoint_env \<Rightarrow> string \<Rightarrow> string \<Rightarrow> string \<Rightarrow> CheckpointError + 'sk CheckpointSigner" where
  "from_seed_hex env signer_id key_id seed_hex =
     rbind (decode_fixed 32 seed_hex ''seed_hex'') (\<lambda>seed. from_seed env signer_id key_id seed)"

definition public_key_hex :: "('sk, 'vk) checkpoint_env \<Rightarrow> 'sk CheckpointSigner \<Rightarrow> string" where
  "public_key_hex env signer = encode_hex (ed_public_bytes env (cs_signing_key signer))"

definition trusted_key :: "('sk, 'vk) checkpoint_env \<Rightarrow> 'sk CheckpointSigner \<Rightarrow> u64 \<Rightarrow> u64 option \<Rightarrow> u64 option \<Rightarrow>
    TrustedCheckpointKey" where
  "trusted_key env signer valid_from valid_until revoked_at =
     \<lparr>tk_signer_id = cs_signer_id signer, tk_key_id = cs_key_id signer,
      tk_public_key_hex = public_key_hex env signer, tk_valid_from_ms = valid_from,
      tk_valid_until_ms = valid_until, tk_revoked_at_ms = revoked_at\<rparr>"

definition manifest_body_of :: "'sk CheckpointSigner \<Rightarrow> CheckpointMaterial \<Rightarrow> u64 \<Rightarrow> u64 option \<Rightarrow> string option \<Rightarrow>
    CheckpointManifestBody" where
  "manifest_body_of signer m issued expires previous =
     \<lparr>mb_schema = CHECKPOINT_SCHEMA, mb_checkpoint_profile = CHECKPOINT_PROFILE,
      mb_ledger_profile = cm_ledger_profile m, mb_storage_root_identity = cm_storage_root_identity m,
      mb_event_chain_head = cm_event_chain_head m, mb_last_sequence = cm_last_sequence m,
      mb_wal_segment = cm_wal_segment m, mb_wal_offset = cm_wal_offset m,
      mb_projection_digest = cm_projection_digest m, mb_snapshot_digest = cm_snapshot_digest m,
      mb_signer_id = cs_signer_id signer, mb_key_id = cs_key_id signer, mb_issued_at_ms = issued,
      mb_expires_at_ms = expires, mb_previous_checkpoint_ref = previous\<rparr>"

definition sign_checkpoint :: "('sk, 'vk) checkpoint_env \<Rightarrow> 'sk CheckpointSigner \<Rightarrow> CheckpointMaterial \<Rightarrow> u64 \<Rightarrow>
    u64 option \<Rightarrow> string option \<Rightarrow> CheckpointError + SignedCheckpointManifest" where
  "sign_checkpoint env signer m issued expires previous =
     rbind (validate_material m) (\<lambda>_.
     rbind (check_expiry expires issued) (\<lambda>_.
     rbind (check_previous_ref previous) (\<lambda>_.
       let body = manifest_body_of signer m issued expires previous
       in rbind (canonical_bytes env body) (\<lambda>message.
          Inr \<lparr>sm_body = body, sm_manifest_ref = sha256_ref (ce_sha256 env) message,
               sm_signature_algorithm = SIGNATURE_ALGORITHM,
               sm_signature_hex = encode_hex (ed_sign env (cs_signing_key signer) message)\<rparr>))))"

section \<open>Registry\<close>

definition registry_insert :: "TrustedCheckpointKey \<Rightarrow> TrustedKeyRegistry \<Rightarrow> CheckpointError + TrustedKeyRegistry" where
  "registry_insert key registry =
     rbind (validate_trusted_key key) (\<lambda>_.
       Inr (bt_insert (key_slot (tk_signer_id key) (tk_key_id key)) key registry))"

definition registry_get :: "TrustedKeyRegistry \<Rightarrow> string \<Rightarrow> string \<Rightarrow> TrustedCheckpointKey option" where
  "registry_get registry signer_id key_id = bt_get registry (key_slot signer_id key_id)"

section \<open>Verification\<close>

definition verify_signed_checkpoint :: "('sk, 'vk) checkpoint_env \<Rightarrow> SignedCheckpointManifest \<Rightarrow> TrustedKeyRegistry \<Rightarrow>
    u64 \<Rightarrow> CheckpointError + unit" where
  "verify_signed_checkpoint env manifest registry now =
     rbind (validate_manifest_body (sm_body manifest)) (\<lambda>_.
     rbind (require (sm_signature_algorithm manifest = SIGNATURE_ALGORITHM) UnsupportedSignatureAlgorithm) (\<lambda>_.
     rbind (canonical_bytes env (sm_body manifest)) (\<lambda>message.
     rbind (require (sm_manifest_ref manifest = sha256_ref (ce_sha256 env) message) ManifestReferenceMismatch) (\<lambda>_.
     rbind (ok_or UnknownKey (registry_get registry (mb_signer_id (sm_body manifest)) (mb_key_id (sm_body manifest)))) (\<lambda>key.
     rbind (require (\<not> mb_issued_at_ms (sm_body manifest) > now) CheckpointFromFuture) (\<lambda>_.
     rbind (require (\<not> now < tk_valid_from_ms key) KeyNotYetValid) (\<lambda>_.
     rbind (require (\<not> (case tk_valid_until_ms key of Some until \<Rightarrow> now > until | None \<Rightarrow> False)) KeyExpired) (\<lambda>_.
     rbind (require (\<not> (case tk_revoked_at_ms key of Some revoked \<Rightarrow> now \<ge> revoked | None \<Rightarrow> False)) KeyRevoked) (\<lambda>_.
     rbind (require (\<not> (case mb_expires_at_ms (sm_body manifest) of Some expires \<Rightarrow> now > expires | None \<Rightarrow> False))
              CheckpointExpired) (\<lambda>_.
     rbind (decode_fixed 32 (tk_public_key_hex key) ''public_key_hex'') (\<lambda>public_key.
     rbind (ok_or (InvalidHex ''public_key_hex'') (ed_parse_public env public_key)) (\<lambda>vk.
     rbind (decode_hex (sm_signature_hex manifest) ''signature_hex'') (\<lambda>signature_bytes.
     rbind (ok_or (InvalidHex ''signature_hex'') (ed_parse_signature env signature_bytes)) (\<lambda>signature.
       require (ed_verify env vk message signature) SignatureVerificationFailed))))))))))))))"

definition check_successor :: "SignedCheckpointManifest \<Rightarrow> SignedCheckpointManifest \<Rightarrow> CheckpointError + unit" where
  "check_successor previous current =
     (let p = sm_body previous; c = sm_body current
      in rbind (require (\<not> (mb_ledger_profile c \<noteq> mb_ledger_profile p
                  \<or> mb_storage_root_identity c \<noteq> mb_storage_root_identity p \<or> mb_signer_id c \<noteq> mb_signer_id p))
                ChainIdentityMismatch) (\<lambda>_.
         rbind (require (mb_previous_checkpoint_ref c = Some (sm_manifest_ref previous)) PreviousCheckpointMismatch) (\<lambda>_.
         rbind (require (\<not> (mb_last_sequence c \<le> mb_last_sequence p
                  \<or> Offset (mb_wal_segment c) (mb_wal_offset c) \<le> Offset (mb_wal_segment p) (mb_wal_offset p)
                  \<or> mb_issued_at_ms c < mb_issued_at_ms p)) NonMonotonicCheckpoint) (\<lambda>_.
           require (mb_event_chain_head c \<noteq> mb_event_chain_head p) LedgerHeadNotAdvanced))))"

text \<open>The loop over \<open>manifests.windows(2)\<close>.\<close>

fun check_windows :: "SignedCheckpointManifest list \<Rightarrow> CheckpointError + unit" where
  "check_windows (p # c # ms) = rbind (check_successor p c) (\<lambda>_. check_windows (c # ms))"
| "check_windows _ = Inr ()"

definition check_anchor :: "SignedCheckpointManifest list \<Rightarrow> ExternalAnchor \<Rightarrow> CheckpointError + unit" where
  "check_anchor manifests anchor =
     rbind (validate_anchor anchor) (\<lambda>_.
     rbind (require (\<not> mb_last_sequence (sm_body (last manifests)) < ea_last_sequence anchor) ExternalAnchorRollback) (\<lambda>_.
       case find (\<lambda>m. sm_manifest_ref m = ea_checkpoint_ref anchor) manifests of
         None \<Rightarrow>
           if list_ex (\<lambda>m. mb_last_sequence (sm_body m) = ea_last_sequence anchor
                  \<and> (mb_event_chain_head (sm_body m) \<noteq> ea_event_chain_head anchor
                     \<or> mb_storage_root_identity (sm_body m) \<noteq> ea_storage_root_identity anchor)) manifests
           then Inl ExternalAnchorFork else Inl ExternalAnchorNotInChain
       | Some anchored \<Rightarrow>
           require (\<not> (mb_storage_root_identity (sm_body anchored) \<noteq> ea_storage_root_identity anchor
              \<or> mb_event_chain_head (sm_body anchored) \<noteq> ea_event_chain_head anchor
              \<or> mb_last_sequence (sm_body anchored) \<noteq> ea_last_sequence anchor)) ExternalAnchorFork))"

definition verify_checkpoint_chain :: "('sk, 'vk) checkpoint_env \<Rightarrow> SignedCheckpointManifest list \<Rightarrow> TrustedKeyRegistry \<Rightarrow>
    ExternalAnchor option \<Rightarrow> u64 \<Rightarrow> CheckpointError + VerifiedCheckpointChain" where
  "verify_checkpoint_chain env manifests registry latest_anchor now =
     (if manifests = [] then Inl EmptyChain
      else
        rbind (for_each (\<lambda>m. verify_signed_checkpoint env m registry now) manifests) (\<lambda>_.
        rbind (check_windows manifests) (\<lambda>_.
        rbind (case latest_anchor of
                 Some anchor \<Rightarrow>
                   rbind (check_anchor manifests anchor) (\<lambda>_. Inr (ExternalAnchorVerified, Some (ea_anchor_id anchor)))
               | None \<Rightarrow> Inr (LocalSignatureOnly, None)) (\<lambda>(status, anchor_id).
          let latest = last manifests
          in Inr \<lparr>vc_status = status, vc_storage_root_identity = mb_storage_root_identity (sm_body latest),
                  vc_first_checkpoint_ref = sm_manifest_ref (hd manifests),
                  vc_latest_checkpoint_ref = sm_manifest_ref latest,
                  vc_latest_event_chain_head = mb_event_chain_head (sm_body latest),
                  vc_latest_sequence = mb_last_sequence (sm_body latest),
                  vc_checkpoint_count = length manifests, vc_external_anchor_id = anchor_id\<rparr>))))"

end
