(* ===== verification/Checkpoint_Chain.thy ===== *)
theory Checkpoint_Chain
  imports Checkpoint
begin

text \<open>
  What checkpoints guarantee: a signed manifest verifies under the signer's key, an accepted chain is
  strictly monotone and linked, an accepted anchor is a manifest of the chain, and material is only
  produced for a snapshot of the current ledger state.
\<close>

section \<open>Hexadecimal\<close>

lemma hex_pairs_byte: "hex_pairs (byte_hex b @ cs) = b # hex_pairs cs"
proof -
  have "unat b div 16 < 16" by (simp add: unat_u8_nibbles)
  then have "hex_digit_value (hex_char (unat b div 16)) = unat b div 16"
    "hex_digit_value (hex_char (unat b mod 16)) = unat b mod 16" by simp_all
  then show ?thesis by (simp add: byte_hex_def)
qed

lemma hex_pairs_hex_of_bytes: "hex_pairs (hex_of_bytes bs) = bs"
  by (induction bs) (simp_all add: hex_of_bytes_def hex_pairs_byte)

lemma hex_of_bytes_digits: "list_all is_ascii_hexdigit (hex_of_bytes bs)"
  by (induction bs) (simp_all add: hex_of_bytes_def byte_hex_def unat_u8_nibbles)

lemma decode_encode_hex [simp]: "decode_hex (encode_hex bs) label = Inr bs"
  by (simp add: decode_hex_def encode_hex_def hex_of_bytes_digits hex_pairs_hex_of_bytes)

lemma decode_fixed_encode [simp]: "length bs = n \<Longrightarrow> decode_fixed n (encode_hex bs) label = Inr bs"
  by (simp add: decode_fixed_def)

section \<open>Sign and verify\<close>

text \<open>The documented behaviour of the Ed25519 crate: keys have 32 bytes and parse back, signatures have
  64 bytes and parse back, and a signature verifies under its own key.\<close>

definition ed25519_ok :: "('sk, 'vk) checkpoint_env \<Rightarrow> bool" where
  "ed25519_ok env \<longleftrightarrow>
     (\<forall>sk. length (ed_public_bytes env sk) = 32) \<and>
     (\<forall>sk. ed_parse_public env (ed_public_bytes env sk) \<noteq> None) \<and>
     (\<forall>sk m. ed_parse_signature env (ed_sign env sk m) = Some (ed_sign env sk m)) \<and>
     (\<forall>sk m vk. ed_parse_public env (ed_public_bytes env sk) = Some vk \<longrightarrow> ed_verify env vk m (ed_sign env sk m))"

definition signer_ok :: "'sk CheckpointSigner \<Rightarrow> bool" where
  "signer_ok signer \<longleftrightarrow> trim (cs_signer_id signer) \<noteq> [] \<and> trim (cs_key_id signer) \<noteq> []"

lemma from_seed_ok: "from_seed env signer_id key_id seed = Inr signer \<Longrightarrow> signer_ok signer"
  by (auto simp: from_seed_def cp_normalized_def Let_def signer_ok_def trim_idem split: if_splits)

lemma material_of_manifest_body [simp]: "material_of_body (manifest_body_of signer m issued expires previous) = m"
  by (simp add: material_of_body_def manifest_body_of_def)

lemma sign_checkpoint_Inr:
  assumes "sign_checkpoint env signer m issued expires previous = Inr manifest"
  obtains message where "validate_material m = Inr ()" "check_expiry expires issued = Inr ()"
    "check_previous_ref previous = Inr ()"
    "sm_body manifest = manifest_body_of signer m issued expires previous"
    "canonical_bytes env (sm_body manifest) = Inr message"
    "sm_manifest_ref manifest = sha256_ref (ce_sha256 env) message"
    "sm_signature_algorithm manifest = SIGNATURE_ALGORITHM"
    "sm_signature_hex manifest = encode_hex (ed_sign env (cs_signing_key signer) message)"
  using assms by (auto simp: sign_checkpoint_def Let_def result_simps)

text \<open>The time conditions \<open>verify_signed_checkpoint\<close> checks for a key and a manifest.\<close>

definition times_ok :: "TrustedCheckpointKey \<Rightarrow> CheckpointManifestBody \<Rightarrow> u64 \<Rightarrow> bool" where
  "times_ok key body now \<longleftrightarrow>
     mb_issued_at_ms body \<le> now \<and> tk_valid_from_ms key \<le> now
     \<and> pred_option (\<lambda>until. now \<le> until) (tk_valid_until_ms key)
     \<and> pred_option (\<lambda>revoked. now < revoked) (tk_revoked_at_ms key)
     \<and> pred_option (\<lambda>expires. now \<le> expires) (mb_expires_at_ms body)"

lemma sign_verify:
  assumes ed: "ed25519_ok env" and signer: "signer_ok signer"
    and sign: "sign_checkpoint env signer m issued expires previous = Inr manifest"
    and key: "registry_get registry (cs_signer_id signer) (cs_key_id signer) = Some key"
      "tk_public_key_hex key = public_key_hex env signer"
    and times: "times_ok key (sm_body manifest) now"
  shows "verify_signed_checkpoint env manifest registry now = Inr ()"
proof -
  obtain message where s: "validate_material m = Inr ()" "check_expiry expires issued = Inr ()"
    "check_previous_ref previous = Inr ()" and
    body: "sm_body manifest = manifest_body_of signer m issued expires previous" and
    enc: "canonical_bytes env (sm_body manifest) = Inr message"
    "sm_manifest_ref manifest = sha256_ref (ce_sha256 env) message"
    "sm_signature_algorithm manifest = SIGNATURE_ALGORITHM"
    "sm_signature_hex manifest = encode_hex (ed_sign env (cs_signing_key signer) message)"
    using sign by (rule sign_checkpoint_Inr)
  have ids: "mb_signer_id (sm_body manifest) = cs_signer_id signer" "mb_key_id (sm_body manifest) = cs_key_id signer"
    by (simp_all add: body manifest_body_of_def)
  have valid: "validate_manifest_body (sm_body manifest) = Inr ()"
    using s signer
    by (simp add: body validate_manifest_body_def cp_normalized_def signer_ok_def)
       (simp add: manifest_body_of_def)
  obtain vk where vk: "ed_parse_public env (ed_public_bytes env (cs_signing_key signer)) = Some vk"
    using ed unfolding ed25519_ok_def by blast
  have pk: "decode_fixed 32 (tk_public_key_hex key) label = Inr (ed_public_bytes env (cs_signing_key signer))" for label
    using ed by (simp add: key(2) public_key_hex_def ed25519_ok_def)
  have t: "\<not> now < mb_issued_at_ms (sm_body manifest)" "\<not> now < tk_valid_from_ms key"
    "\<not> (case tk_valid_until_ms key of Some until \<Rightarrow> now > until | None \<Rightarrow> False)"
    "\<not> (case tk_revoked_at_ms key of Some revoked \<Rightarrow> now \<ge> revoked | None \<Rightarrow> False)"
    "\<not> (case mb_expires_at_ms (sm_body manifest) of Some expires \<Rightarrow> now > expires | None \<Rightarrow> False)"
    using times by (auto simp: times_ok_def split: option.splits)
  show ?thesis
    unfolding verify_signed_checkpoint_def
    using ed vk by (simp add: valid enc ids key(1) pk t ed25519_ok_def)
qed

section \<open>Chains\<close>

definition successor_ok :: "SignedCheckpointManifest \<Rightarrow> SignedCheckpointManifest \<Rightarrow> bool" where
  "successor_ok p c \<longleftrightarrow>
     mb_storage_root_identity (sm_body c) = mb_storage_root_identity (sm_body p)
     \<and> mb_signer_id (sm_body c) = mb_signer_id (sm_body p)
     \<and> mb_ledger_profile (sm_body c) = mb_ledger_profile (sm_body p)
     \<and> mb_previous_checkpoint_ref (sm_body c) = Some (sm_manifest_ref p)
     \<and> mb_last_sequence (sm_body p) < mb_last_sequence (sm_body c)
     \<and> Offset (mb_wal_segment (sm_body p)) (mb_wal_offset (sm_body p))
         < Offset (mb_wal_segment (sm_body c)) (mb_wal_offset (sm_body c))
     \<and> mb_issued_at_ms (sm_body p) \<le> mb_issued_at_ms (sm_body c)
     \<and> mb_event_chain_head (sm_body c) \<noteq> mb_event_chain_head (sm_body p)"

lemma check_successor_Inr: "check_successor p c = Inr u \<longleftrightarrow> successor_ok p c"
  by (auto simp: check_successor_def successor_ok_def Let_def result_simps)

lemma check_windows_Inr: "check_windows ms = Inr u \<longleftrightarrow> successively successor_ok ms"
  by (induction ms rule: check_windows.induct) (auto simp: rbind_Inr_iff check_successor_Inr)

lemma verify_chain_Inr:
  assumes "verify_checkpoint_chain env ms registry anchor now = Inr v"
  shows "ms \<noteq> []" "\<forall>m\<in>set ms. verify_signed_checkpoint env m registry now = Inr ()"
    "successively successor_ok ms"
    "vc_latest_sequence v = mb_last_sequence (sm_body (last ms))"
    "vc_latest_event_chain_head v = mb_event_chain_head (sm_body (last ms))"
    "vc_latest_checkpoint_ref v = sm_manifest_ref (last ms)"
    "case anchor of None \<Rightarrow> vc_status v = LocalSignatureOnly
       | Some a \<Rightarrow> vc_status v = ExternalAnchorVerified \<and> check_anchor ms a = Inr ()"
  using assms
  by (auto simp: verify_checkpoint_chain_def result_simps check_windows_Inr Let_def split: if_splits option.splits)

lemma successively_sorted:
  assumes "successively R xs" "\<And>x y. R x y \<Longrightarrow> (f x :: 'b :: order) < f y"
  shows "sorted_wrt (<) (map f xs)"
proof -
  have "successively (<) (map f xs)"
    using assms by (simp add: successively_map) (erule successively_mono, simp)
  then show ?thesis by (simp add: successively_conv_sorted_wrt)
qed

lemma successively_const:
  "successively R xs \<Longrightarrow> (\<And>x y. R x y \<Longrightarrow> f y = f x) \<Longrightarrow> x \<in> set xs \<Longrightarrow> f x = f (hd xs)"
proof (induction xs arbitrary: x)
  case Nil
  then show ?case by simp
next
  case (Cons a xs)
  show ?case
  proof (cases "x = a")
    case False
    then have x: "x \<in> set xs" using Cons.prems(3) by simp
    have tail: "successively R xs" "xs \<noteq> [] \<Longrightarrow> R a (hd xs)"
      using Cons.prems(1) by (simp_all add: successively_Cons) auto
    have "f x = f (hd xs)" by (rule Cons.IH [OF tail(1) Cons.prems(2) x])
    moreover have "f (hd xs) = f a" using tail(2) x Cons.prems(2) by (cases xs) auto
    ultimately show ?thesis by simp
  qed simp
qed

lemma check_anchor_Inr:
  assumes "check_anchor ms a = Inr ()"
  shows "\<exists>m\<in>set ms. sm_manifest_ref m = ea_checkpoint_ref a
      \<and> mb_storage_root_identity (sm_body m) = ea_storage_root_identity a
      \<and> mb_event_chain_head (sm_body m) = ea_event_chain_head a \<and> mb_last_sequence (sm_body m) = ea_last_sequence a"
    "ea_last_sequence a \<le> mb_last_sequence (sm_body (last ms))"
proof -
  obtain m where m: "find (\<lambda>m. sm_manifest_ref m = ea_checkpoint_ref a) ms = Some m"
      "mb_storage_root_identity (sm_body m) = ea_storage_root_identity a"
      "mb_event_chain_head (sm_body m) = ea_event_chain_head a" "mb_last_sequence (sm_body m) = ea_last_sequence a"
    using assms by (auto simp: check_anchor_def result_simps split: option.splits if_splits)
  then have "m \<in> set ms" "sm_manifest_ref m = ea_checkpoint_ref a" by (auto simp: find_Some_iff)
  then show "\<exists>m\<in>set ms. sm_manifest_ref m = ea_checkpoint_ref a
      \<and> mb_storage_root_identity (sm_body m) = ea_storage_root_identity a
      \<and> mb_event_chain_head (sm_body m) = ea_event_chain_head a \<and> mb_last_sequence (sm_body m) = ea_last_sequence a"
    using m by blast
  show "ea_last_sequence a \<le> mb_last_sequence (sm_body (last ms))"
    using assms by (auto simp: check_anchor_def result_simps not_less)
qed

section \<open>Key slots\<close>

lemma key_slot_inject:
  assumes "CHR 0x00 \<notin> set s" "CHR 0x00 \<notin> set s'" "key_slot s k = key_slot s' k'"
  shows "s = s' \<and> k = k'"
  using append_Cons_split [OF assms(1,2)] assms(3) by (simp add: key_slot_def)

end
