(* ===== verification/Governance.thy ===== *)
theory Governance
  imports Checkpoint_Chain
begin

text \<open>
  The governance checkpoint bridge, \<open>governance_checkpoint_bridge.rs\<close>: it checks a governance
  envelope, records it in a transition ledger, snapshots and checkpoints the ledger, and returns a
  receipt bound to all of it.  The disk of the ledger root is passed in and returned; the ledger is
  dropped, and with it the writer lock, when the function returns.
\<close>

section \<open>Data\<close>

definition GOVERNANCE_ENVELOPE_SCHEMA :: string where
  "GOVERNANCE_ENVELOPE_SCHEMA = ''liminalosai-governance-transition-envelope-v0.1''"
definition GOVERNANCE_RECEIPT_SCHEMA :: string where
  "GOVERNANCE_RECEIPT_SCHEMA = ''liminaldb-liminalosai-governance-checkpoint-receipt-v0.1''"
definition SUBJECT_ID :: string where
  "SUBJECT_ID = ''liminalosai:durable-governance''"
definition VERIFIED_STATUS :: string where
  "VERIFIED_STATUS = ''LOCAL_SIGNATURE_VERIFIED''"
definition ZERO_SHA256 :: string where
  "ZERO_SHA256 = replicate 64 (CHR ''0'')"

record GovernanceTransitionEnvelopeBody =
  gb_schema :: string
  gb_root_id_sha256 :: string
  gb_transition_kind :: string
  gb_generation_before :: u64
  gb_generation_after :: u64
  gb_world_before_sha256 :: string
  gb_world_after_sha256 :: string
  gb_reservation_sha256 :: string
  gb_operation_sha256 :: string
  gb_upstream_receipt_sha256 :: string
  gb_captured_at_ms :: u64

record GovernanceTransitionEnvelope =
  ge_body :: GovernanceTransitionEnvelopeBody
  ge_envelope_ref :: string

record GovernanceCheckpointReceiptBody =
  rb_schema :: string
  rb_envelope_ref :: string
  rb_root_id_sha256 :: string
  rb_transition_kind :: string
  rb_generation_before :: u64
  rb_generation_after :: u64
  rb_world_before_sha256 :: string
  rb_world_after_sha256 :: string
  rb_reservation_sha256 :: string
  rb_operation_sha256 :: string
  rb_upstream_receipt_sha256 :: string
  rb_event_hash :: string
  rb_checkpoint_ref :: string
  rb_event_chain_head :: string
  rb_last_sequence :: u64
  rb_projection_digest :: string
  rb_snapshot_digest :: string
  rb_signer_id :: string
  rb_key_id :: string
  rb_verification_status :: string

record GovernanceCheckpointReceipt =
  gr_body :: GovernanceCheckpointReceiptBody
  gr_receipt_ref :: string

record GovernanceCheckpointBundle =
  gc_envelope :: GovernanceTransitionEnvelope
  gc_receipt :: GovernanceCheckpointReceipt
  gc_checkpoint :: SignedCheckpointManifest
  gc_trusted_key :: TrustedCheckpointKey

datatype GovernanceCheckpointBridgeError =
  GovernanceInvalidField string
  | EnvelopeDigestMismatch
  | GovernanceLedger TransitionLedgerError
  | GovernanceCheckpoint CheckpointError
  | GovernanceEncoding string

record ('h, 'sk, 'vk) governance_env =
  gv_ledger :: "'h transition_env"
  gv_checkpoint :: "('sk, 'vk) checkpoint_env"
  gv_ser_envelope_body :: "GovernanceTransitionEnvelopeBody \<Rightarrow> string + bytes"
  gv_ser_receipt_body :: "GovernanceCheckpointReceiptBody \<Rightarrow> string + bytes"

section \<open>Validation\<close>

definition validate_raw_sha :: "string \<Rightarrow> string \<Rightarrow> bool \<Rightarrow> GovernanceCheckpointBridgeError + unit" where
  "validate_raw_sha v label allow_zero =
     (let valid = (length v = 64 \<and> list_all is_lower_hex v)
      in require (\<not> (\<not> valid \<or> \<not> allow_zero \<and> v = ZERO_SHA256)) (GovernanceInvalidField label))"

definition gov_validate_ref :: "string \<Rightarrow> string \<Rightarrow> GovernanceCheckpointBridgeError + unit" where
  "gov_validate_ref v label = require (is_sha256_ref v) (GovernanceInvalidField label)"

definition gov_digest :: "('h, 'sk, 'vk) governance_env \<Rightarrow> ('v \<Rightarrow> string + bytes) \<Rightarrow> 'v \<Rightarrow>
    GovernanceCheckpointBridgeError + string" where
  "gov_digest env to_vec v =
     rbind (map_err GovernanceEncoding (to_vec v)) (\<lambda>bs. Inr (sha256_ref (env_sha256 (gv_ledger env)) bs))"

text \<open>The match on \<open>transition_kind\<close>.\<close>

definition validate_semantics :: "GovernanceTransitionEnvelopeBody \<Rightarrow> GovernanceCheckpointBridgeError + unit" where
  "validate_semantics body =
      (if gb_transition_kind body = ''initialize'' then
         require (\<not> (gb_generation_before body \<noteq> 0 \<or> gb_generation_after body \<noteq> 0
             \<or> gb_world_before_sha256 body \<noteq> ZERO_SHA256 \<or> gb_reservation_sha256 body \<noteq> ZERO_SHA256
             \<or> gb_operation_sha256 body \<noteq> ZERO_SHA256)) (GovernanceInvalidField ''initialize_semantics'')
       else if gb_transition_kind body = ''reserve'' then
         require (\<not> (gb_generation_after body \<noteq> gb_generation_before body
             \<or> gb_world_after_sha256 body \<noteq> gb_world_before_sha256 body
             \<or> gb_reservation_sha256 body = ZERO_SHA256 \<or> gb_operation_sha256 body = ZERO_SHA256))
           (GovernanceInvalidField ''reserve_semantics'')
       else if gb_transition_kind body = ''commit'' then
         require (\<not> (gb_generation_after body \<noteq> saturating_add (gb_generation_before body) 1
             \<or> gb_reservation_sha256 body = ZERO_SHA256 \<or> gb_operation_sha256 body = ZERO_SHA256))
           (GovernanceInvalidField ''commit_semantics'')
       else if gb_transition_kind body = ''mutate'' then
         require (\<not> (gb_generation_after body \<noteq> saturating_add (gb_generation_before body) 1
             \<or> gb_reservation_sha256 body \<noteq> ZERO_SHA256 \<or> gb_operation_sha256 body \<noteq> ZERO_SHA256))
           (GovernanceInvalidField ''mutate_semantics'')
       else if gb_transition_kind body = ''reconcile'' then
         require (\<not> (gb_generation_after body \<noteq> saturating_add (gb_generation_before body) 1
             \<or> gb_reservation_sha256 body = ZERO_SHA256 \<or> gb_operation_sha256 body \<noteq> ZERO_SHA256))
           (GovernanceInvalidField ''reconcile_semantics'')
       else Inl (GovernanceInvalidField ''transition_kind''))"

definition validate_body :: "GovernanceTransitionEnvelopeBody \<Rightarrow> GovernanceCheckpointBridgeError + unit" where
  "validate_body body =
     rbind (require (gb_schema body = GOVERNANCE_ENVELOPE_SCHEMA) (GovernanceInvalidField ''schema'')) (\<lambda>_.
     rbind (validate_raw_sha (gb_root_id_sha256 body) ''root_id_sha256'' False) (\<lambda>_.
     rbind (validate_raw_sha (gb_world_before_sha256 body) ''world_before_sha256'' True) (\<lambda>_.
     rbind (validate_raw_sha (gb_world_after_sha256 body) ''world_after_sha256'' False) (\<lambda>_.
     rbind (validate_raw_sha (gb_reservation_sha256 body) ''reservation_sha256'' True) (\<lambda>_.
     rbind (validate_raw_sha (gb_operation_sha256 body) ''operation_sha256'' True) (\<lambda>_.
     rbind (validate_raw_sha (gb_upstream_receipt_sha256 body) ''upstream_receipt_sha256'' False) (\<lambda>_.
       validate_semantics body)))))))"

definition envelope_build :: "('h, 'sk, 'vk) governance_env \<Rightarrow> GovernanceTransitionEnvelopeBody \<Rightarrow>
    GovernanceCheckpointBridgeError + GovernanceTransitionEnvelope" where
  "envelope_build env body =
     rbind (validate_body body) (\<lambda>_.
     rbind (gov_digest env (gv_ser_envelope_body env) body) (\<lambda>r. Inr \<lparr>ge_body = body, ge_envelope_ref = r\<rparr>))"

definition envelope_verify :: "('h, 'sk, 'vk) governance_env \<Rightarrow> GovernanceTransitionEnvelope \<Rightarrow>
    GovernanceCheckpointBridgeError + unit" where
  "envelope_verify env envelope =
     rbind (validate_body (ge_body envelope)) (\<lambda>_.
     rbind (gov_digest env (gv_ser_envelope_body env) (ge_body envelope)) (\<lambda>r.
       require (r = ge_envelope_ref envelope) EnvelopeDigestMismatch))"

definition receipt_verify :: "('h, 'sk, 'vk) governance_env \<Rightarrow> GovernanceCheckpointReceipt \<Rightarrow>
    GovernanceCheckpointBridgeError + unit" where
  "receipt_verify env receipt =
     (let body = gr_body receipt
      in rbind (require (\<not> (rb_schema body \<noteq> GOVERNANCE_RECEIPT_SCHEMA \<or> rb_verification_status body \<noteq> VERIFIED_STATUS))
                 (GovernanceInvalidField ''receipt_schema_or_status'')) (\<lambda>_.
         rbind (gov_validate_ref (rb_envelope_ref body) ''envelope_ref'') (\<lambda>_.
         rbind (gov_validate_ref (rb_event_hash body) ''event_hash'') (\<lambda>_.
         rbind (gov_validate_ref (rb_checkpoint_ref body) ''checkpoint_ref'') (\<lambda>_.
         rbind (gov_validate_ref (rb_event_chain_head body) ''event_chain_head'') (\<lambda>_.
         rbind (gov_validate_ref (rb_projection_digest body) ''projection_digest'') (\<lambda>_.
         rbind (gov_validate_ref (rb_snapshot_digest body) ''snapshot_digest'') (\<lambda>_.
         rbind (validate_raw_sha (rb_root_id_sha256 body) ''root_id_sha256'' False) (\<lambda>_.
         rbind (validate_raw_sha (rb_world_before_sha256 body) ''world_before_sha256'' True) (\<lambda>_.
         rbind (validate_raw_sha (rb_world_after_sha256 body) ''world_after_sha256'' False) (\<lambda>_.
         rbind (validate_raw_sha (rb_reservation_sha256 body) ''reservation_sha256'' True) (\<lambda>_.
         rbind (validate_raw_sha (rb_operation_sha256 body) ''operation_sha256'' True) (\<lambda>_.
         rbind (validate_raw_sha (rb_upstream_receipt_sha256 body) ''upstream_receipt_sha256'' False) (\<lambda>_.
         rbind (gov_digest env (gv_ser_receipt_body env) body) (\<lambda>r.
           require (r = gr_receipt_ref receipt) (GovernanceInvalidField ''receipt_ref'')))))))))))))))) "

section \<open>The bridge\<close>

text \<open>\<open>str::trim_start_matches\<close> with a string pattern.\<close>

function trim_start_matches :: "string \<Rightarrow> string \<Rightarrow> string" where
  "trim_start_matches pat s =
     (if pat \<noteq> [] \<and> starts_with s pat then trim_start_matches pat (drop (length pat) s) else s)"
  by pat_completeness auto
termination
  by (relation "measure (\<lambda>(pat, s). length s)") (auto simp: starts_with_def min_def intro!: diff_less dest!: arg_cong [where f = length] split: if_splits)

declare trim_start_matches.simps [simp del]

definition governance_transition_id :: "GovernanceTransitionEnvelope \<Rightarrow> string" where
  "governance_transition_id envelope =
     ''liminalosai-governance-'' @ trim_start_matches ''sha256:'' (ge_envelope_ref envelope)"

definition governance_input :: "GovernanceTransitionEnvelope \<Rightarrow> TransitionEventInput" where
  "governance_input envelope =
     \<lparr>ti_transition_id = governance_transition_id envelope, ti_subject_id = SUBJECT_ID, ti_kind = Authorization,
      ti_record_ref = ge_envelope_ref envelope, ti_payload_digest = ge_envelope_ref envelope,
      ti_links = \<lparr>lk_authorization_ref = None, lk_observation_refs = [], lk_response_integrity_ref = None,
        lk_causal_audit_ref = None, lk_previous_continuity_ref = None\<rparr>,
      ti_dimensions = None, ti_side_effect_committed = None,
      ti_captured_at_ms = gb_captured_at_ms (ge_body envelope)\<rparr>"

definition receipt_body_of :: "GovernanceTransitionEnvelope \<Rightarrow> TransitionEvent \<Rightarrow> SignedCheckpointManifest \<Rightarrow>
    GovernanceCheckpointReceiptBody" where
  "receipt_body_of envelope event checkpoint =
     (let e = ge_body envelope; c = sm_body checkpoint
      in \<lparr>rb_schema = GOVERNANCE_RECEIPT_SCHEMA, rb_envelope_ref = ge_envelope_ref envelope,
          rb_root_id_sha256 = gb_root_id_sha256 e, rb_transition_kind = gb_transition_kind e,
          rb_generation_before = gb_generation_before e, rb_generation_after = gb_generation_after e,
          rb_world_before_sha256 = gb_world_before_sha256 e, rb_world_after_sha256 = gb_world_after_sha256 e,
          rb_reservation_sha256 = gb_reservation_sha256 e, rb_operation_sha256 = gb_operation_sha256 e,
          rb_upstream_receipt_sha256 = gb_upstream_receipt_sha256 e,
          rb_event_hash = te_event_hash event, rb_checkpoint_ref = sm_manifest_ref checkpoint,
          rb_event_chain_head = mb_event_chain_head c, rb_last_sequence = mb_last_sequence c,
          rb_projection_digest = mb_projection_digest c, rb_snapshot_digest = mb_snapshot_digest c,
          rb_signer_id = mb_signer_id c, rb_key_id = mb_key_id c, rb_verification_status = VERIFIED_STATUS\<rparr>)"

text \<open>What follows the append: material, signature, self-verification and receipt.\<close>

definition issue_receipt :: "('h, 'sk, 'vk) governance_env \<Rightarrow> GovernanceTransitionEnvelope \<Rightarrow> 'sk CheckpointSigner \<Rightarrow>
    u64 \<Rightarrow> TransitionEvent \<Rightarrow> TrustworthyTransitionLedger \<Rightarrow> TransitionLedgerSnapshotInfo \<Rightarrow>
    GovernanceCheckpointBridgeError + GovernanceCheckpointBundle" where
  "issue_receipt env envelope signer issued event l info =
     (let cenv = gv_checkpoint env; key = trusted_key cenv signer 0 None None
      in rbind (map_err GovernanceCheckpoint (checkpoint_material (gv_ledger env) l
                  (''sha256:'' @ gb_root_id_sha256 (ge_body envelope)) info)) (\<lambda>material.
         rbind (map_err GovernanceCheckpoint (sign_checkpoint cenv signer material issued None None)) (\<lambda>checkpoint.
         rbind (map_err GovernanceCheckpoint (registry_insert key [])) (\<lambda>registry.
         rbind (map_err GovernanceCheckpoint (verify_signed_checkpoint cenv checkpoint registry issued)) (\<lambda>_.
           let body = receipt_body_of envelope event checkpoint
           in rbind (gov_digest env (gv_ser_receipt_body env) body) (\<lambda>receipt_ref.
              let receipt = \<lparr>gr_body = body, gr_receipt_ref = receipt_ref\<rparr>
              in rbind (receipt_verify env receipt) (\<lambda>_.
                 Inr \<lparr>gc_envelope = envelope, gc_receipt = receipt, gc_checkpoint = checkpoint,
                      gc_trusted_key = key\<rparr>)))))))"

definition append_governance_checkpoint :: "('h, 'sk, 'vk) governance_env \<Rightarrow> io_env \<Rightarrow> AppendFailpoint \<Rightarrow> fault list \<Rightarrow>
    string \<Rightarrow> GovernanceTransitionEnvelope \<Rightarrow> 'sk CheckpointSigner \<Rightarrow> u64 \<Rightarrow> disk \<Rightarrow>
    disk \<times> (GovernanceCheckpointBridgeError + GovernanceCheckpointBundle)" where
  "append_governance_checkpoint env io fp plan root envelope signer issued dk =
     (case rbind (envelope_verify env envelope) (\<lambda>_.
             require (\<not> issued < gb_captured_at_ms (ge_body envelope)) (GovernanceInvalidField ''issued_at_ms'')) of
        Inl e \<Rightarrow> (dk, Inl e)
      | Inr _ \<Rightarrow>
          (case ledger_open (gv_ledger env) root dk of
             (dk', Inl e) \<Rightarrow> (dk', Inl (GovernanceLedger e))
           | (dk', Inr l) \<Rightarrow>
               (case ledger_append (gv_ledger env) io fp (governance_input envelope) l of
                  (l1, Inl e) \<Rightarrow> (store_drop (tl_store l1), Inl (GovernanceLedger e))
                | (l1, Inr event) \<Rightarrow>
                    (case write_snapshot (gv_ledger env) issued plan l1 of
                       (l2, _, Inl e) \<Rightarrow> (store_drop (tl_store l2), Inl (GovernanceLedger e))
                     | (l2, _, Inr info) \<Rightarrow>
                         (store_drop (tl_store l2), issue_receipt env envelope signer issued event l2 info)))))"

section \<open>Envelopes\<close>

lemma envelope_build_verifies: "envelope_build env body = Inr envelope \<Longrightarrow> envelope_verify env envelope = Inr ()"
  by (auto simp: envelope_build_def envelope_verify_def result_simps)

lemma validate_body_semantics: "validate_body body = Inr () \<Longrightarrow> validate_semantics body = Inr ()"
  by (simp add: validate_body_def rbind_Inr_iff)

lemma validate_body_generation:
  assumes "validate_body body = Inr ()" "gb_transition_kind body \<in> {''commit'', ''mutate'', ''reconcile''}"
  shows "gb_generation_after body = saturating_add (gb_generation_before body) 1"
proof -
  consider "gb_transition_kind body = ''commit''" | "gb_transition_kind body = ''mutate''"
    | "gb_transition_kind body = ''reconcile''" using assms(2) by blast
  then show ?thesis
    by cases (use validate_body_semantics [OF assms(1)] in \<open>simp add: validate_semantics_def require_Inr_iff\<close>)+
qed

lemma validate_body_kind:
  assumes "validate_body body = Inr ()"
  shows "gb_transition_kind body \<in> {''initialize'', ''reserve'', ''commit'', ''mutate'', ''reconcile''}"
proof (rule ccontr)
  assume "\<not> ?thesis"
  then have "validate_semantics body = Inl (GovernanceInvalidField ''transition_kind'')"
    by (simp only: validate_semantics_def insert_iff empty_iff de_Morgan_disj simp_thms if_False)
  then show False using validate_body_semantics [OF assms] by simp
qed

section \<open>The returned bundle\<close>

lemma issue_receipt_Inr:
  assumes "issue_receipt env envelope signer issued event l info = Inr bundle"
  obtains material checkpoint registry where
    "checkpoint_material (gv_ledger env) l (''sha256:'' @ gb_root_id_sha256 (ge_body envelope)) info = Inr material"
    "sign_checkpoint (gv_checkpoint env) signer material issued None None = Inr checkpoint"
    "registry_insert (trusted_key (gv_checkpoint env) signer 0 None None) [] = Inr registry"
    "verify_signed_checkpoint (gv_checkpoint env) checkpoint registry issued = Inr ()"
    "receipt_verify env (gc_receipt bundle) = Inr ()"
    "gr_body (gc_receipt bundle) = receipt_body_of envelope event checkpoint"
    "gc_checkpoint bundle = checkpoint" "gc_envelope bundle = envelope"
    "gc_trusted_key bundle = trusted_key (gv_checkpoint env) signer 0 None None"
  using assms by (auto simp: issue_receipt_def Let_def result_simps)

lemma append_governance_Inr:
  assumes run: "append_governance_checkpoint env io fp plan root envelope signer issued dk = (dk', Inr bundle)"
  obtains dk1 l event l1 l2 plan' info where
    "envelope_verify env envelope = Inr ()" "gb_captured_at_ms (ge_body envelope) \<le> issued"
    "ledger_open (gv_ledger env) root dk = (dk1, Inr l)"
    "ledger_append (gv_ledger env) io fp (governance_input envelope) l = (l1, Inr event)"
    "write_snapshot (gv_ledger env) issued plan l1 = (l2, plan', Inr info)"
    "issue_receipt env envelope signer issued event l2 info = Inr bundle" "dk' = store_drop (tl_store l2)"
proof -
  let ?pre = "rbind (envelope_verify env envelope) (\<lambda>_.
      require (\<not> issued < gb_captured_at_ms (ge_body envelope)) (GovernanceInvalidField ''issued_at_ms''))"
  obtain u where pre: "?pre = Inr u"
    using run by (cases ?pre) (simp_all add: append_governance_checkpoint_def)
  obtain dk1 q where q: "ledger_open (gv_ledger env) root dk = (dk1, q)" by (cases "ledger_open (gv_ledger env) root dk")
  obtain l where l: "q = Inr l"
    using run pre q by (cases q) (simp_all add: append_governance_checkpoint_def)
  obtain l1 q1 where q1: "ledger_append (gv_ledger env) io fp (governance_input envelope) l = (l1, q1)"
    by (cases "ledger_append (gv_ledger env) io fp (governance_input envelope) l")
  obtain event where event: "q1 = Inr event"
    using run pre q l q1 by (cases q1) (simp_all add: append_governance_checkpoint_def)
  obtain l2 plan' q2 where q2: "write_snapshot (gv_ledger env) issued plan l1 = (l2, plan', q2)"
    by (cases "write_snapshot (gv_ledger env) issued plan l1")
  obtain info where info: "q2 = Inr info"
    using run pre q l q1 event q2 by (cases q2) (simp_all add: append_governance_checkpoint_def)
  have last: "issue_receipt env envelope signer issued event l2 info = Inr bundle" "dk' = store_drop (tl_store l2)"
    using run pre q l q1 event q2 info by (simp_all add: append_governance_checkpoint_def)
  have "envelope_verify env envelope = Inr ()" "gb_captured_at_ms (ge_body envelope) \<le> issued"
    using pre by (auto simp: rbind_Inr_iff require_Inr_iff not_less)
  then show ?thesis using that q l q1 event q2 info last by simp
qed

section \<open>The recorded event\<close>

lemma non_empty_Inr: "non_empty v label = Inr x \<longleftrightarrow> x = trim v \<and> trim v \<noteq> []"
  by (auto simp: non_empty_def Let_def)

lemma if_Inl_Inr: "(if c then Inl e else Inr x) = Inr y \<longleftrightarrow> \<not> c \<and> x = y"
  by simp

lemma normalize_input_fields:
  assumes "normalize_input input = Inr n"
  shows "ti_record_ref n = ti_record_ref input \<and> ti_kind n = ti_kind input
    \<and> ti_subject_id n = trim (ti_subject_id input) \<and> ti_transition_id n = trim (ti_transition_id input)"
proof -
  obtain tid sid links where "tid = trim (ti_transition_id input)" "sid = trim (ti_subject_id input)"
      "n = input\<lparr>ti_transition_id := tid, ti_subject_id := sid, ti_links := links\<rparr>"
    using assms unfolding normalize_input_def Let_def rbind_Inr_iff non_empty_Inr if_Inl_Inr by blast
  then show ?thesis by simp
qed

lemma ledger_append_prepared:
  assumes "ledger_append env io fp input l = (l', Inr event)"
  shows "\<exists>candidate bs. prepare_event env (tl_state l) input = Inr (event, candidate, bs) \<and> tl_state l' = candidate"
proof -
  have "\<not> tl_poisoned l" using assms by (auto simp: ledger_append_def)
  then show ?thesis
    using assms
    by (cases "prepare_event env (tl_state l) input")
       (auto simp: ledger_append_def split: prod.splits sum.splits)
qed

lemma ledger_append_event:
  assumes "ledger_append env io fp input l = (l', Inr event)"
  shows "apply_event env (tl_state l) event = Inr (tl_state l')"
    "tb_record_ref (te_body event) = ti_record_ref input" "tb_kind (te_body event) = ti_kind input"
    "tb_subject_id (te_body event) = trim (ti_subject_id input)"
    "tb_transition_id (te_body event) = trim (ti_transition_id input)"
proof -
  obtain bs where prep: "prepare_event env (tl_state l) input = Inr (event, tl_state l', bs)"
    using ledger_append_prepared [OF assms] by blast
  show "apply_event env (tl_state l) event = Inr (tl_state l')" by (rule prepare_event_Inr(1) [OF prep])
  obtain n where n: "normalize_input input = Inr n" "te_body event = event_body_of (tl_state l) n"
    using prep by (auto simp: prepare_event_def Let_def rbind_Inr_iff)
  then show "tb_record_ref (te_body event) = ti_record_ref input" "tb_kind (te_body event) = ti_kind input"
    "tb_subject_id (te_body event) = trim (ti_subject_id input)"
    "tb_transition_id (te_body event) = trim (ti_transition_id input)"
    using normalize_input_fields [OF n(1)] by (simp_all add: event_body_of_def)
qed

lemma checkpoint_material_head:
  "checkpoint_material env l root_id info = Inr m \<Longrightarrow>
     head_event_hash l = Some (cm_event_chain_head m) \<and> cm_last_sequence m = event_count l"
  by (auto simp: checkpoint_material_def result_simps)

text \<open>After a run that returned a bundle, the reopened ledger holds the envelope and ends with its
  event.\<close>

lemma governance_recorded:
  assumes run: "append_governance_checkpoint env io fp plan root envelope signer issued dk = (dk', Inr bundle)"
    and opened: "ledger_open (gv_ledger env) root dk = (dk1, Inr l)" "ledger_rep (gv_ledger env) l segs"
    and room: "segment_room segs (Suc n)"
    and fits: "\<And>event bs. env_ser_event (gv_ledger env) event = Inr bs \<Longrightarrow> frame_ok bs"
  shows "\<exists>dk2 l' segs'. ledger_open (gv_ledger env) root dk' = (dk2, Inr l')
    \<and> ledger_rep (gv_ledger env) l' segs' \<and> segment_room segs' n
    \<and> head_event_hash l' = Some (rb_event_hash (gr_body (gc_receipt bundle)))
    \<and> rb_event_chain_head (gr_body (gc_receipt bundle)) = rb_event_hash (gr_body (gc_receipt bundle))
    \<and> bt_contains_key (ls_record_owners (tl_state l')) (ge_envelope_ref envelope)"
proof -
  obtain event l1 l2 plan' info where
    app: "ledger_append (gv_ledger env) io fp (governance_input envelope) l = (l1, Inr event)" and
    snap: "write_snapshot (gv_ledger env) issued plan l1 = (l2, plan', Inr info)" and
    rcpt: "issue_receipt env envelope signer issued event l2 info = Inr bundle" and
    dk': "dk' = store_drop (tl_store l2)"
    using append_governance_Inr [OF run] opened(1) by (metis Pair_inject sum.inject(2))
  note ev = ledger_append_event [OF app]
  obtain segs' where rep1: "ledger_rep (gv_ledger env) l1 segs'" "segment_room segs' n"
    using ledger_append_ok [OF opened(2) room app] fits by blast
  have rep2: "ledger_rep (gv_ledger env) l2 segs'" "tl_state l2 = tl_state l1"
    using write_snapshot_rep [OF rep1(1) snap] by auto
  obtain dk2 l' where l': "ledger_open (gv_ledger env) root dk' = (dk2, Inr l')" "tl_state l' = tl_state l2"
      "ledger_rep (gv_ledger env) l' segs'"
    using ledger_reopen [OF rep2(1), of root] dk' by blast
  obtain material checkpoint where
    m: "checkpoint_material (gv_ledger env) l2 (''sha256:'' @ gb_root_id_sha256 (ge_body envelope)) info = Inr material"
      "sign_checkpoint (gv_checkpoint env) signer material issued None None = Inr checkpoint"
      "gr_body (gc_receipt bundle) = receipt_body_of envelope event checkpoint"
    using rcpt by (rule issue_receipt_Inr)
  have head: "ls_head_event_hash (tl_state l1) = Some (te_event_hash event)"
    using apply_event_head [OF ev(1)] .
  have "mb_event_chain_head (sm_body checkpoint) = cm_event_chain_head material"
    using m(2) by (rule sign_checkpoint_Inr) (simp add: manifest_body_of_def)
  then have same: "mb_event_chain_head (sm_body checkpoint) = te_event_hash event"
    using checkpoint_material_head [OF m(1)] head rep2(2) by (simp add: head_event_hash_def)
  have "bt_get (ls_record_owners (tl_state l1)) (ge_envelope_ref envelope) \<noteq> None"
    using ev(1) by (rule apply_event_shape) (use ev(2) in \<open>simp add: governance_input_def\<close>)
  then show ?thesis
    using l' rep1(2) rep2(2) head same
    by (auto simp: m(3) receipt_body_of_def Let_def head_event_hash_def bt_contains_key_def)
qed

text \<open>An envelope that is in the ledger is refused.\<close>

lemma governance_duplicate:
  assumes "ledger_open (gv_ledger env) root dk = (dk1, Inr l)"
    and "bt_contains_key (ls_record_owners (tl_state l)) (ge_envelope_ref envelope)"
  shows "\<exists>e. snd (append_governance_checkpoint env io fp plan root envelope signer issued dk) = Inl e"
proof (rule ccontr)
  assume "\<not> ?thesis"
  then obtain dk' result where
      run: "append_governance_checkpoint env io fp plan root envelope signer issued dk = (dk', Inr result)"
    by (metis prod.collapse sum.exhaust)
  obtain event l1 where
    app: "ledger_append (gv_ledger env) io fp (governance_input envelope) l = (l1, Inr event)"
    using append_governance_Inr [OF run] assms(1) by (metis Pair_inject sum.inject(2))
  note ev = ledger_append_event [OF app]
  have "bt_get (ls_record_owners (tl_state l)) (ge_envelope_ref envelope) = None"
    using ev(1) by (rule apply_event_shape) (use ev(2) in \<open>simp add: governance_input_def\<close>)
  then show False using assms(2) by (simp add: bt_contains_key_def)
qed

end
