(* ===== verification/Transition_Properties.thy ===== *)
theory Transition_Properties
  imports Transition_Ledger Wal_Properties
begin

text \<open>
  Properties of the trustworthy transition ledger: what holds of the state after any accepted history,
  and what holds along the runs of the durable ledger under failures and restarts.  The examples run
  the ledger on a sample transition with the concrete crates of \<open>Sample_Crates\<close>.
\<close>

section \<open>A sample ledger\<close>

definition no_links :: TransitionLinks where
  "no_links = \<lparr>lk_authorization_ref = None, lk_observation_refs = [], lk_response_integrity_ref = None,
     lk_causal_audit_ref = None, lk_previous_continuity_ref = None\<rparr>"

definition sample_authorization :: TransitionEventInput where
  "sample_authorization =
     \<lparr>ti_transition_id = ''t'', ti_subject_id = ''s'', ti_kind = Authorization, ti_record_ref = sample_ref 10,
      ti_payload_digest = sample_ref 15, ti_links = no_links, ti_dimensions = None,
      ti_side_effect_committed = Some True, ti_captured_at_ms = 1\<rparr>"

definition sample_observation :: TransitionEventInput where
  "sample_observation = sample_authorization\<lparr>ti_kind := Observation, ti_record_ref := sample_ref 11,
     ti_links := no_links\<lparr>lk_authorization_ref := Some (sample_ref 10)\<rparr>, ti_side_effect_committed := None\<rparr>"

definition sample_event1 :: TransitionEvent where
  "sample_event1 = \<lparr>te_body = event_body_of ledger_default sample_authorization, te_event_hash = sample_ref 0\<rparr>"

definition sample_projection1 :: TransitionProjection where
  "sample_projection1 =
     \<lparr>tp_transition_id = ''t'', tp_subject_id = ''s'', tp_authorization_ref = Some (sample_ref 10),
      tp_authorization_epoch = 1, tp_observation_refs = [], tp_response_integrity_ref = None,
      tp_causal_audit_ref = None, tp_continuity_snapshot_ref = None, tp_dimensions = None,
      tp_side_effect_committed = True, tp_last_sequence = 1, tp_last_event_hash = sample_ref 0, tp_event_count = 1\<rparr>"

definition sample_state1 :: LedgerState where
  "sample_state1 =
     \<lparr>ls_next_sequence = 2, ls_head_event_hash = Some (sample_ref 0), ls_projections = [(''t'', sample_projection1)],
      ls_record_owners = [(sample_ref 10,
        \<lparr>ro_transition_id = ''t'', ro_subject_id = ''s'', ro_kind = Authorization\<rparr>)]\<rparr>"

definition sample_event2 :: TransitionEvent where
  "sample_event2 = \<lparr>te_body = event_body_of sample_state1 sample_observation, te_event_hash = sample_ref 1\<rparr>"

text \<open>The snapshots of the ledger after the first record: with the state after the first event, and
  with the state before it.\<close>

definition sample_snapshot :: "LedgerState \<Rightarrow> string \<Rightarrow> TransitionLedgerSnapshot" where
  "sample_snapshot st pd =
     \<lparr>sn_body = \<lparr>sb_schema = SNAPSHOT_SCHEMA, sb_profile = PROFILE, sb_wal_offset = Offset 1 9,
        sb_next_sequence = ls_next_sequence st, sb_head_event_hash = ls_head_event_hash st,
        sb_projections = ls_projections st, sb_record_owners = ls_record_owners st,
        sb_projection_digest = pd, sb_created_at_ms = 5\<rparr>,
      sn_snapshot_digest = sample_ref 2\<rparr>"

definition sample_env :: "u32 transition_env" where
  "sample_env =
     \<lparr>env_crc = crc32, env_sha256 = pad_digest,
      env_ser_body = ser_table [te_body sample_event1, te_body sample_event2],
      env_ser_event = ser_table [sample_event1, sample_event2], env_de_event = de_table [sample_event1, sample_event2],
      env_ser_material = ser_table [ledger_default, sample_state1],
      env_ser_snapshot_body = (\<lambda>_. Inr [2]),
      env_ser_snapshot = ser_table [sample_snapshot sample_state1 (sample_ref 1), sample_snapshot ledger_default (sample_ref 0)],
      env_de_snapshot = de_table [sample_snapshot sample_state1 (sample_ref 1), sample_snapshot ledger_default (sample_ref 0)]\<rparr>"

lemmas sample_defs = sample_event1_def sample_event2_def sample_state1_def sample_projection1_def
  sample_authorization_def sample_observation_def no_links_def event_body_of_def ledger_default_def

lemma sample_normalized:
  "normalize_input sample_authorization = Inr sample_authorization"
  "normalize_input sample_observation = Inr sample_observation"
  by (simp_all add: normalize_input_def sample_defs non_empty_def validate_ref_def validate_optional_ref_def
      require_def sort_dedup_def Let_def)

lemma sample_body_valid:
  "validate_event_body (te_body sample_event1) = Inr ()"
  "validate_event_body (te_body sample_event2) = Inr ()"
  by (simp_all add: validate_event_body_def sample_defs validate_canonical_identifier_def validate_ref_def
      validate_optional_ref_def require_def sort_dedup_def Let_def)

lemma sample_digest:
  "digest_cbor (env_sha256 sample_env) (env_ser_body sample_env) (te_body sample_event1) = Inr (sample_ref 0)"
  "digest_cbor (env_sha256 sample_env) (env_ser_body sample_env) (te_body sample_event2) = Inr (sample_ref 1)"
  by (simp_all add: digest_cbor_def sample_env_def ser_table_def sample_ref_def sample_defs)

lemma sample_apply1: "apply_event sample_env ledger_default sample_event1 = Inr sample_state1"
  unfolding apply_event_def Let_def sample_body_valid sample_digest
  by (simp add: sample_defs require_def validate_ref_def bt_contains_key_def apply_authorization_def)

lemma sample_apply2: "\<exists>st. apply_event sample_env sample_state1 sample_event2 = Inr st"
  unfolding apply_event_def Let_def sample_body_valid sample_digest
  by (simp add: sample_defs require_def validate_ref_def bt_contains_key_def apply_dependent_record_def
      expect_optional_ref_def ensure_owned_by_def check_dependent_links_def ok_or_def
      validate_monotonic_dimensions_def validate_side_effect_def Let_def)

lemma sample_replay:
  "fold_result (apply_event sample_env) ledger_default [sample_event1] = Inr sample_state1"
  "\<exists>st. fold_result (apply_event sample_env) ledger_default [sample_event1, sample_event2] = Inr st"
  using sample_apply1 sample_apply2 by auto

lemma sample_codec [simp]: "transition_codec sample_env"
  by (simp add: transition_codec_def sample_env_def ser_de_table)

lemma sample_fits: "env_ser_event sample_env event = Inr bs \<Longrightarrow> frame_ok bs"
  by (auto simp: sample_env_def intro: ser_table_frame)

section \<open>Accepted histories\<close>

text \<open>C8: The projection of every accepted history is well formed.  Every transition in it is
  authorized by a record it owns, its observation set is sorted and without repetition, every
  reference a projection holds is a record of the right kind owned by the same transition and
  subject, and every record belongs to a projected transition.\<close>

theorem accepted_history_invariant:
  assumes "fold_result (apply_event env) ledger_default events = Inr st"
  shows "ledger_inv st"
  using replay_inv [OF assms] by simp

theorem accepted_history_invariant_witness: "ledger_inv sample_state1"
  by (rule accepted_history_invariant [OF sample_replay(1)])

lemma apply_event_no_rollback:
  assumes "apply_event env st event = Inr st'" "bt_get (ls_projections st) (tb_transition_id (te_body event)) = Some p"
    and "tp_side_effect_committed p"
  shows "tb_side_effect_committed (te_body event) \<noteq> Some False"
proof -
  obtain st1 where "(case tb_kind (te_body event) of Authorization \<Rightarrow> apply_authorization st event
      | _ \<Rightarrow> apply_dependent_record st event) = Inr st1"
    using assms(1) by (auto simp: apply_event_def Let_def rbind_Inr_iff)
  then have "apply_authorization st event = Inr st1 \<or> apply_dependent_record st event = Inr st1"
    by (auto split: TransitionRecordKind.splits)
  then have "validate_side_effect (tp_side_effect_committed p) (tb_side_effect_committed (te_body event)) = Inr ()"
    using assms(2) by (auto simp: apply_authorization_def apply_dependent_record_def Let_def rbind_Inr_iff ok_or_Inr_iff)
  then show ?thesis using assms(3) by (simp add: validate_side_effect_def require_Inr_iff)
qed

lemma replay_no_rollback:
  assumes "fold_result (apply_event env) st later = Inr st'" "bt_get (ls_projections st) tid = Some p"
    and "tp_side_effect_committed p" "event \<in> set later" "tb_transition_id (te_body event) = tid"
  shows "tb_side_effect_committed (te_body event) \<noteq> Some False"
  using assms
proof (induction later arbitrary: st p)
  case (Cons e later)
  obtain st1 where st1: "apply_event env st e = Inr st1" "fold_result (apply_event env) st1 later = Inr st'"
    using Cons.prems(1) by (auto simp: rbind_Inr_iff)
  then have "fold_result (apply_event env) st [e] = Inr st1" by simp
  then obtain p1 where p1: "bt_get (ls_projections st1) tid = Some p1" "tp_side_effect_committed p1"
    using replay_projection [of env st "[e]" st1 tid p] Cons.prems(2,3) by (auto simp: advances_def)
  show ?case
  proof (cases "event = e")
    case True
    then show ?thesis using apply_event_no_rollback [OF st1(1)] Cons.prems(2,3,5) by blast
  next
    case False
    then show ?thesis using Cons.IH [OF st1(2) p1] Cons.prems(4,5) by simp
  qed
qed simp

text \<open>C9: Commitments are never rolled back.  Once a transition is projected it stays projected with
  the same subject through every accepted continuation of the history, a committed side effect stays
  committed and no later accepted event of the transition denies it, and an observed execution stays
  observed.\<close>

theorem commitments_monotone:
  assumes "fold_result (apply_event env) ledger_default events = Inr st"
    and "fold_result (apply_event env) st later = Inr st'" and "bt_get (ls_projections st) tid = Some p"
  shows "(\<exists>p'. bt_get (ls_projections st') tid = Some p' \<and> tp_subject_id p' = tp_subject_id p
      \<and> (tp_side_effect_committed p \<longrightarrow> tp_side_effect_committed p') \<and> (observed_executed p \<longrightarrow> observed_executed p'))
    \<and> (tp_side_effect_committed p \<longrightarrow> (\<forall>event\<in>set later. tb_transition_id (te_body event) = tid \<longrightarrow>
         tb_side_effect_committed (te_body event) \<noteq> Some False))"
  using replay_projection [OF assms(2,3)] replay_no_rollback [OF assms(2,3)] by (auto simp: advances_def)

theorem commitments_monotone_witness:
  "\<exists>st' p'. fold_result (apply_event sample_env) sample_state1 [sample_event2] = Inr st'
    \<and> bt_get (ls_projections st') ''t'' = Some p' \<and> tp_subject_id p' = ''s'' \<and> tp_side_effect_committed p'"
proof -
  obtain st' where st': "fold_result (apply_event sample_env) sample_state1 [sample_event2] = Inr st'"
    using sample_apply2 by auto
  have "bt_get (ls_projections sample_state1) ''t'' = Some sample_projection1" by (simp add: sample_state1_def)
  from commitments_monotone [OF sample_replay(1) st' this] show ?thesis
    using st' by (auto simp: sample_projection1_def)
qed

lemma apply_event_others:
  assumes "apply_event env st event = Inr st'" "tid \<noteq> tb_transition_id (te_body event)"
  shows "bt_get (ls_projections st') tid = bt_get (ls_projections st) tid"
  using assms(1) by (rule apply_event_shape) (use assms(2) in simp)

text \<open>C10: Transitions are isolated.  An accepted event changes the projection of its own transition
  only, takes a record reference no earlier event used, and every record it links to is owned by the
  same transition and subject.\<close>

theorem transitions_isolated:
  assumes "apply_event env st event = Inr st'"
  shows "(\<forall>tid. tid \<noteq> tb_transition_id (te_body event) \<longrightarrow>
           bt_get (ls_projections st') tid = bt_get (ls_projections st) tid)
    \<and> bt_get (ls_record_owners st) (tb_record_ref (te_body event)) = None
    \<and> (\<forall>r\<in>linked_refs (tb_links (te_body event)). \<exists>ow. bt_get (ls_record_owners st) r = Some ow
         \<and> ro_transition_id ow = tb_transition_id (te_body event) \<and> ro_subject_id ow = tb_subject_id (te_body event))"
proof (intro conjI allI impI ballI)
  show "bt_get (ls_record_owners st) (tb_record_ref (te_body event)) = None"
    using assms by (rule apply_event_shape)
qed (use assms apply_event_others apply_event_links_owned in blast)+

theorem transitions_isolated_witness:
  "\<exists>st'. apply_event sample_env sample_state1 sample_event2 = Inr st'
    \<and> bt_get (ls_projections st') ''u'' = None
    \<and> (\<exists>ow. bt_get (ls_record_owners sample_state1) (sample_ref 10) = Some ow \<and> ro_transition_id ow = ''t'')"
proof -
  obtain st' where st': "apply_event sample_env sample_state1 sample_event2 = Inr st'" using sample_apply2 by blast
  have "sample_ref 10 \<in> linked_refs (tb_links (te_body sample_event2))" by (simp add: linked_refs_def sample_defs)
  then show ?thesis using transitions_isolated [OF st'] st' by (auto simp: sample_defs)
qed

text \<open>C11: Every accepted history is a hash chain with unique records.  The record references are
  pairwise different, event \<open>i\<close> names the hash of event \<open>i - 1\<close> (the first names none), the head is the
  hash of the last event, and the next sequence number counts the events modulo \<open>2 ^ 64\<close>.\<close>

theorem history_is_hash_chain:
  assumes "fold_result (apply_event env) ledger_default events = Inr st"
  shows "distinct (map event_ref events)
    \<and> (\<forall>i<length events. tb_previous_event_hash (te_body (events ! i)) =
          (if i = 0 then None else Some (te_event_hash (events ! (i - 1)))))
    \<and> ls_head_event_hash st = (if events = [] then None else Some (te_event_hash (last events)))
    \<and> ls_next_sequence st = 1 + of_nat (length events)"
proof -
  have "ls_head_event_hash st = (if events = [] then None else Some (te_event_hash (last events)))"
    using assms by (cases events rule: rev_cases) (auto simp: ledger_default_def replay_snoc_iff dest: apply_event_head)
  then show ?thesis
    using replay_record_owners [OF assms] transition_chain.chain_links [OF assms] replay_sequence [OF assms]
    by (simp add: ledger_default_def)
qed

theorem history_is_hash_chain_witness:
  "\<exists>st. fold_result (apply_event sample_env) ledger_default [sample_event1, sample_event2] = Inr st
    \<and> distinct (map event_ref [sample_event1, sample_event2])
    \<and> tb_previous_event_hash (te_body sample_event2) = Some (te_event_hash sample_event1)
    \<and> ls_head_event_hash st = Some (te_event_hash sample_event2) \<and> ls_next_sequence st = 3"
proof -
  obtain st where st: "fold_result (apply_event sample_env) ledger_default [sample_event1, sample_event2] = Inr st"
    using sample_replay(2) by blast
  note chain = history_is_hash_chain [OF st]
  have "tb_previous_event_hash (te_body sample_event2) = Some (te_event_hash sample_event1)"
    using conjunct1 [OF conjunct2 [OF chain], THEN spec, of 1] by simp
  moreover have "ls_head_event_hash st = Some (te_event_hash sample_event2)" "ls_next_sequence st = 3"
    using chain by simp_all
  ultimately show ?thesis using st conjunct1 [OF chain] by blast
qed

text \<open>The head hash commits to the history.  Two accepted histories with the same head are equal,
  unless two of their events have different serialized bodies with the same SHA-256 digest.\<close>

theorem head_commits_to_history:
  assumes "ser_injective (env_ser_body env)"
    and "fold_result (apply_event env) ledger_default events = Inr st"
    and "fold_result (apply_event env) ledger_default events' = Inr st'"
    and "ls_head_event_hash st = ls_head_event_hash st'"
  shows "events = events' \<or>
    (\<exists>e\<in>set events. \<exists>f\<in>set events'. ser_collision (env_sha256 env) (env_ser_body env) (te_body e) (te_body f))"
  by (rule transition_chain.tamper_evident [OF assms])

theorem head_commits_to_history_witness:
  "[sample_event1] = [sample_event1] \<or>
    (\<exists>e\<in>set [sample_event1]. \<exists>f\<in>set [sample_event1].
       ser_collision (env_sha256 sample_env) (env_ser_body sample_env) (te_body e) (te_body f))"
  by (rule head_commits_to_history [OF _ sample_replay(1) sample_replay(1)]) (simp_all add: sample_env_def)

text \<open>New evidence invalidates what was derived from the old.  A new authorization clears the
  observations and everything derived from them and starts a new epoch; a new observation joins the
  set and clears the response, audit and continuity references; and so on down the chain.  A
  continuity snapshot is accepted only if its links are exactly the current evidence.\<close>

theorem evidence_order:
  assumes "apply_event env st event = Inr st'" "bt_get (ls_projections st) (tb_transition_id (te_body event)) = Some q"
  shows "\<exists>p. bt_get (ls_projections st') (tb_transition_id (te_body event)) = Some p \<and>
    (case tb_kind (te_body event) of
       Authorization \<Rightarrow> tp_authorization_ref p = Some (event_ref event) \<and> tp_observation_refs p = []
         \<and> tp_response_integrity_ref p = None \<and> tp_causal_audit_ref p = None \<and> tp_continuity_snapshot_ref p = None
         \<and> tp_authorization_epoch p = tp_authorization_epoch q + 1
     | Observation \<Rightarrow> set (tp_observation_refs p) = insert (event_ref event) (set (tp_observation_refs q))
         \<and> tp_response_integrity_ref p = None \<and> tp_causal_audit_ref p = None \<and> tp_continuity_snapshot_ref p = None
     | ResponseIntegrity \<Rightarrow> tp_response_integrity_ref p = Some (event_ref event) \<and> tp_causal_audit_ref p = None
         \<and> tp_continuity_snapshot_ref p = None
     | CausalAudit \<Rightarrow> tp_causal_audit_ref p = Some (event_ref event) \<and> tp_continuity_snapshot_ref p = None
     | ContinuitySnapshot \<Rightarrow> tp_continuity_snapshot_ref p = Some (event_ref event)
         \<and> tb_links (te_body event) =
            \<lparr>lk_authorization_ref = tp_authorization_ref q, lk_observation_refs = tp_observation_refs q,
             lk_response_integrity_ref = tp_response_integrity_ref q, lk_causal_audit_ref = tp_causal_audit_ref q,
             lk_previous_continuity_ref = tp_continuity_snapshot_ref q\<rparr>)"
proof -
  obtain p where p: "bt_get (ls_projections st') (tb_transition_id (te_body event)) = Some p" "extends st event q p"
    using apply_event_new_projection [OF assms] by blast
  show ?thesis
    using p(1) extends_evidence [OF p(2)] by (cases "tb_kind (te_body event)") (simp_all del: TransitionLinks.iffs)
qed

theorem evidence_order_witness:
  "\<exists>st' p. apply_event sample_env sample_state1 sample_event2 = Inr st'
    \<and> bt_get (ls_projections st') ''t'' = Some p \<and> set (tp_observation_refs p) = {sample_ref 11}"
proof -
  obtain st' where st': "apply_event sample_env sample_state1 sample_event2 = Inr st'" using sample_apply2 by blast
  have "bt_get (ls_projections sample_state1) (tb_transition_id (te_body sample_event2)) = Some sample_projection1"
    by (simp add: sample_defs)
  from evidence_order [OF st' this] show ?thesis using st' by (auto simp: sample_defs)
qed

section \<open>The durable ledger\<close>

text \<open>\<open>ledger_run\<close> is the life of a durable ledger: opened on an empty root, appended to under any
  failing calls and failpoints, snapshotted in either way under any plan of failing calls, dropped
  and opened again, and opened again after an append that poisoned it.  \<open>acked\<close> are the events whose
  append returned them, \<open>k\<close> counts the appends that reached the store.\<close>

inductive ledger_run :: "'h transition_env \<Rightarrow> string \<Rightarrow> TrustworthyTransitionLedger \<Rightarrow> TransitionEvent list \<Rightarrow> nat \<Rightarrow> bool"
  for env root where
  start: "ledger_open env root empty_disk = (dk, Inr l) \<Longrightarrow> ledger_run env root l [] 0"
| acknowledged: "ledger_run env root l acked k \<Longrightarrow> ledger_append env io fp input l = (l', Inr event) \<Longrightarrow>
    ledger_run env root l' (acked @ [event]) (Suc k)"
| snapshot: "ledger_run env root l acked k \<Longrightarrow> write_snapshot env t plan l = (l', plan', r) \<Longrightarrow>
    ledger_run env root l' acked k"
| crash_safe_snapshot: "ledger_run env root l acked k \<Longrightarrow> write_snapshot_crash_safe env t plan l = (l', r) \<Longrightarrow>
    ledger_run env root l' acked k"
| restart: "ledger_run env root l acked k \<Longrightarrow> ledger_open env root (store_drop (tl_store l)) = (dk, Inr l') \<Longrightarrow>
    ledger_run env root l' acked k"
| failed: "ledger_run env root l acked k \<Longrightarrow> ledger_append env io fp input l = (l', Inl e) \<Longrightarrow> tl_poisoned l' \<Longrightarrow>
    ledger_open env root (store_drop (tl_store l')) = (dk, Inr l'') \<Longrightarrow> ledger_run env root l'' acked (Suc k)"

lemma ledger_open_empty:
  assumes "crc_streaming (env_crc env)" "transition_codec env"
  shows "\<exists>dk l. ledger_open env root empty_disk = (dk, Inr l) \<and> tl_state l = ledger_default \<and> \<not> tl_poisoned l
    \<and> ledger_rep env l [(1, [])] \<and> tl_store l = log_store (env_crc env) [] []"
proof -
  let ?s = "log_store (env_crc env) [] []"
  have "ledger_coherent env ?s [(1, [])] ledger_default"
    using log_store_rep [OF assms(1), of "[]" "[]"] assms(2) by (simp add: coherent_log_def)
  from ledger_open_coherent [OF open_empty this, of root]
  obtain l where l: "ledger_open env root empty_disk = (st_disk ?s, Inr l)" "tl_state l = ledger_default"
      "\<not> tl_poisoned l" "ledger_rep env l [(1, [])]"
    by (auto simp: empty_disk_def snap_view_def)
  moreover have "tl_store l = ?s"
    using l(1) open_empty [of "env_crc env"] by (auto simp: ledger_open_def split: sum.splits)
  ultimately show ?thesis by blast
qed

lemma ledger_open_store:
  "ledger_open env root dk = (dk', Inr l) \<Longrightarrow> \<exists>s. store_open (env_crc env) dk = (dk', Inr s)"
  by (auto simp: ledger_open_def split: prod.splits sum.splits)

lemma write_snapshot_poisoned: "write_snapshot env t plan l = (l', plan', r) \<Longrightarrow> tl_poisoned l' = tl_poisoned l"
  by (auto simp: write_snapshot_def split: sum.splits prod.splits)

lemma write_snapshot_crash_safe_poisoned:
  "write_snapshot_crash_safe env t plan l = (l', r) \<Longrightarrow> tl_poisoned l' = tl_poisoned l"
  by (auto simp: write_snapshot_crash_safe_def Let_def dest!: write_snapshot_poisoned
      split: prod.splits sum.splits if_splits)

definition event_frames_ok :: "'h transition_env \<Rightarrow> bool" where
  "event_frames_ok env \<longleftrightarrow> (\<forall>event bs. env_ser_event env event = Inr bs \<longrightarrow> frame_ok bs)"

definition run_inv :: "'h transition_env \<Rightarrow> TrustworthyTransitionLedger \<Rightarrow> TransitionEvent list \<Rightarrow> nat \<Rightarrow> bool" where
  "run_inv env l acked n \<longleftrightarrow> \<not> tl_poisoned l \<and> (\<exists>segs. ledger_rep env l segs \<and> segment_room segs n)
     \<and> (\<exists>events. fold_result (apply_event env) ledger_default events = Inr (tl_state l) \<and> subseq acked events)"

lemma run_inv_append:
  assumes "run_inv env l acked (Suc n)" "event_frames_ok env" "ledger_append env io fp input l = (l', Inr event)"
  shows "run_inv env l' (acked @ [event]) n"
proof -
  obtain segs events where inv: "\<not> tl_poisoned l" "ledger_rep env l segs" "segment_room segs (Suc n)"
      "fold_result (apply_event env) ledger_default events = Inr (tl_state l)" "subseq acked events"
    using assms(1) by (auto simp: run_inv_def)
  have "apply_event env (tl_state l) event = Inr (tl_state l') \<and> (\<exists>segs'. ledger_rep env l' segs' \<and> segment_room segs' n)"
    by (rule ledger_append_ok [OF inv(2,3) assms(3)]) (use assms(2) in \<open>auto simp: event_frames_ok_def\<close>)
  moreover have "\<not> tl_poisoned l'"
    using assms(3) inv(1) by (auto simp: ledger_append_def split: sum.splits prod.splits if_splits)
  moreover have "subseq (acked @ [event]) (events @ [event])" using inv(5) by (auto intro: list_emb_append_mono)
  ultimately show ?thesis using inv(4) unfolding run_inv_def replay_snoc_iff [symmetric] by (metis replay_snoc_iff)
qed

lemma run_inv_failed:
  assumes "run_inv env l acked (Suc n)" "event_frames_ok env" "ledger_append env io fp input l = (l', Inl e)"
    and "tl_poisoned l'" "ledger_open env root (store_drop (tl_store l')) = (dk, Inr l'')"
  shows "run_inv env l'' acked n"
proof -
  obtain segs events where inv: "\<not> tl_poisoned l" "ledger_rep env l segs" "segment_room segs (Suc n)"
      "fold_result (apply_event env) ledger_default events = Inr (tl_state l)" "subseq acked events"
    using assms(1) by (auto simp: run_inv_def)
  obtain event candidate bs s w where prep: "prepare_event env (tl_state l) input = Inr (event, candidate, bs)"
      and app: "store_append (env_crc env) io fp bs (tl_store l) = (s, Inl w)" and s: "tl_store l' = s"
    using ledger_append_err [OF assms(3)] assms(4) inv(1) by auto
  have fits: "frame_ok bs"
    using prepare_event_Inr(2) [OF prep] assms(2) by (auto simp: event_frames_ok_def encode_event_def map_err_Inr_iff)
  obtain s' where "store_open (env_crc env) (store_drop s) = (dk, Inr s')"
    using ledger_open_store [OF assms(5)] s by auto
  from ledger_abort [OF inv(2,3) prep fits app this, of root] assms(5) s
  obtain segs' where l'': "tl_state l'' \<in> {tl_state l, candidate}" "\<not> tl_poisoned l''" "ledger_rep env l'' segs'"
      "segment_room segs' n" by auto
  have "fold_result (apply_event env) ledger_default (events @ [event]) = Inr candidate"
    using inv(4) prepare_event_Inr(1) [OF prep] by (simp add: replay_snoc_iff)
  then have "\<exists>events. fold_result (apply_event env) ledger_default events = Inr (tl_state l'') \<and> subseq acked events"
    using l''(1) inv(4,5) subseq_snoc [OF inv(5)] by auto
  then show ?thesis using l'' by (auto simp: run_inv_def)
qed

lemma run_inv_same:
  assumes "run_inv env l acked n" "\<not> tl_poisoned l'"
    and "\<And>segs. ledger_rep env l segs \<Longrightarrow> ledger_rep env l' segs \<and> tl_state l' = tl_state l"
  shows "run_inv env l' acked n"
  using assms unfolding run_inv_def by metis

lemma ledger_run_inv:
  assumes "ledger_run env root l acked k" "crc_streaming (env_crc env)" "transition_codec env" "event_frames_ok env"
    and "k + n + 1 < 2 ^ 64"
  shows "run_inv env l acked n"
  using assms(1,5)
proof (induction arbitrary: n)
  case (start dk l)
  then have "tl_state l = ledger_default" "\<not> tl_poisoned l" "ledger_rep env l [(1, [])]"
    using ledger_open_empty [OF assms(2,3), of root] by auto
  moreover have "segment_room [(1, [])] n" using start.prems by (simp add: segment_room_def)
  moreover have "fold_result (apply_event env) ledger_default [] = Inr ledger_default" by simp
  ultimately show ?case unfolding run_inv_def by (metis list_emb_Nil)
next
  case (acknowledged l acked k io fp input l' event)
  then show ?case using run_inv_append [OF acknowledged.IH [of "Suc n"] assms(4)] by simp
next
  case (snapshot l acked k t plan l' plan' r)
  note inv = snapshot.IH [OF snapshot.prems]
  have "\<not> tl_poisoned l'" using inv write_snapshot_poisoned [OF snapshot.hyps(2)] by (simp add: run_inv_def)
  then show ?case using write_snapshot_rep [OF _ snapshot.hyps(2)] by (rule run_inv_same [OF inv])
next
  case (crash_safe_snapshot l acked k t plan l' r)
  note inv = crash_safe_snapshot.IH [OF crash_safe_snapshot.prems]
  have "\<not> tl_poisoned l'"
    using inv write_snapshot_crash_safe_poisoned [OF crash_safe_snapshot.hyps(2)] by (simp add: run_inv_def)
  then show ?case using write_snapshot_crash_safe_rep [OF _ crash_safe_snapshot.hyps(2)] by (rule run_inv_same [OF inv])
next
  case (restart l acked k dk l')
  note inv = restart.IH [OF restart.prems]
  have reopen: "ledger_rep env l segs \<Longrightarrow> ledger_rep env l' segs \<and> tl_state l' = tl_state l \<and> \<not> tl_poisoned l'" for segs
    using ledger_reopen [of env l segs root] restart.hyps(2) by auto
  then have "\<not> tl_poisoned l'" using inv by (auto simp: run_inv_def)
  then show ?case using reopen by (intro run_inv_same [OF inv]) auto
next
  case (failed l acked k io fp input l' e dk l'')
  then show ?case using run_inv_failed [OF failed.IH [of "Suc n"] assms(4) failed.hyps(2-4)] by simp
qed

text \<open>C6: An acknowledged event survives.  After any run of appends under failing calls, snapshots of
  either kind under failing calls and crashes, restarts, and restarts after a failed append, the
  ledger opens again with the state it had; that state is the projection of a history in which all
  acknowledged events appear in order.\<close>

theorem acknowledged_events_durable:
  assumes "ledger_run env root l acked k" "k + 1 < 2 ^ 64"
    and "crc_streaming (env_crc env)" "transition_codec env" "event_frames_ok env"
  shows "\<exists>dk l' events. ledger_open env root (store_drop (tl_store l)) = (dk, Inr l') \<and> tl_state l' = tl_state l
    \<and> fold_result (apply_event env) ledger_default events = Inr (tl_state l') \<and> subseq acked events"
proof -
  have inv: "run_inv env l acked 0" using ledger_run_inv [OF assms(1,3-5), of 0] assms(2) by simp
  then obtain segs where "ledger_rep env l segs" by (auto simp: run_inv_def)
  from ledger_reopen [OF this, of root] inv show ?thesis by (fastforce simp: run_inv_def)
qed

lemma sample_prepared:
  "prepare_event sample_env ledger_default sample_authorization = Inr (sample_event1, sample_state1, [0])"
  using sample_digest(1) sample_apply1
  by (simp add: prepare_event_def sample_normalized Let_def sample_event1_def encode_event_def sample_env_def
      ser_table_def map_err_def)

lemma sample_append:
  "ledger_append sample_env no_faults Disabled sample_authorization
     \<lparr>tl_store = log_store crc32 [] [], tl_state = ledger_default, tl_snapshot_path = path, tl_poisoned = False\<rparr> =
   (\<lparr>tl_store = log_store crc32 [[0]] [], tl_state = sample_state1, tl_snapshot_path = path, tl_poisoned = False\<rparr>,
    Inr sample_event1)"
  using sample_prepared log_store_append [of crc32 "[]" "[0]" "[]"]
  by (simp add: ledger_append_def sample_env_def DEFAULT_SEGMENT_SIZE_def)

abbreviation sample_ledger0 :: TrustworthyTransitionLedger where
  "sample_ledger0 \<equiv> \<lparr>tl_store = log_store crc32 [] [], tl_state = ledger_default,
     tl_snapshot_path = snapshot_path_of ''r'', tl_poisoned = False\<rparr>"

abbreviation sample_ledger1 :: TrustworthyTransitionLedger where
  "sample_ledger1 \<equiv> \<lparr>tl_store = log_store crc32 [[0]] [], tl_state = sample_state1,
     tl_snapshot_path = snapshot_path_of ''r'', tl_poisoned = False\<rparr>"

lemma sample_crc [simp]: "env_crc sample_env = crc32"
  by (simp add: sample_env_def)

lemma sample_frames [simp]: "event_frames_ok sample_env"
  by (auto simp: event_frames_ok_def sample_fits)

lemma sample_run:
  "ledger_run sample_env ''r'' sample_ledger0 [] 0" "ledger_run sample_env ''r'' sample_ledger1 [sample_event1] 1"
proof -
  obtain dk l where l: "ledger_open sample_env ''r'' empty_disk = (dk, Inr l)" "tl_state l = ledger_default"
      "tl_store l = log_store crc32 [] []"
    using ledger_open_empty [of sample_env "''r''"] by auto
  have "l = sample_ledger0"
    using l by (auto simp: ledger_open_def open_empty split: sum.splits)
  with l(1) show run: "ledger_run sample_env ''r'' sample_ledger0 [] 0" by (auto intro: ledger_run.start)
  from ledger_run.acknowledged [OF run sample_append]
  show "ledger_run sample_env ''r'' sample_ledger1 [sample_event1] 1" by simp
qed

theorem acknowledged_events_durable_witness:
  "\<exists>dk l' events. ledger_open sample_env ''r'' (store_drop (log_store crc32 [[0]] [])) = (dk, Inr l')
    \<and> tl_state l' = sample_state1
    \<and> fold_result (apply_event sample_env) ledger_default events = Inr (tl_state l') \<and> subseq [sample_event1] events"
  using acknowledged_events_durable [OF sample_run(2)] by simp

text \<open>A rejected append has no effect, and a storage failure poisons.  An append that returns an
  error either leaves the ledger as it was, or it failed in storage: then the state in memory is
  unchanged, the ledger is poisoned, and every further append is refused without touching the store.\<close>

theorem rejected_append_harmless:
  assumes "ledger_append env io fp input l = (l', Inl e)"
  shows "l' = l \<or> (tl_state l' = tl_state l \<and> tl_poisoned l' \<and> (\<exists>w. e = Storage (WalFailure w))
    \<and> (\<forall>io' fp' input'. ledger_append env io' fp' input' l' = (l', Inl PoisonedAfterStorageFailure)))"
  using ledger_append_err [OF assms] by (auto simp: wal_storage_def ledger_append_def)

lemma sample_unsynced:
  "ledger_append sample_env sync_fails Disabled sample_authorization sample_ledger0 =
     (sample_ledger0\<lparr>tl_store := log_store crc32 [[0]] [], tl_poisoned := True\<rparr>,
      Inl (Storage (WalFailure (IoError SyncSegment))))"
  using sample_prepared log_store_unsynced [of crc32 "[]" "[0]" "[]"]
  by (simp add: ledger_append_def DEFAULT_SEGMENT_SIZE_def wal_storage_def)

theorem rejected_append_harmless_witness:
  "\<exists>l'. ledger_append sample_env sync_fails Disabled sample_authorization sample_ledger0 =
      (l', Inl (Storage (WalFailure (IoError SyncSegment)))) \<and> tl_poisoned l'
    \<and> (\<forall>io' fp' input'. ledger_append sample_env io' fp' input' l' = (l', Inl PoisonedAfterStorageFailure))"
  using sample_unsynced rejected_append_harmless [OF sample_unsynced] by auto

lemma replay_step_history:
  assumes "replay_step env st bs = Inr st'" "\<exists>events. fold_result (apply_event env) ledger_default events = Inr st"
  shows "\<exists>events. fold_result (apply_event env) ledger_default events = Inr st'"
proof -
  obtain event events where "apply_event env st event = Inr st'" "fold_result (apply_event env) ledger_default events = Inr st"
    using assms by (auto simp: replay_step_def decode_then_def rbind_Inr_iff)
  then show ?thesis using replay_snoc_iff [of env ledger_default events event st'] by blast
qed

text \<open>C7: Opening fails closed.  Whatever bytes the root holds, in the segments and in the snapshot
  file, a ledger that opens has the state that replaying its log alone gives; that state is the
  projection of an accepted history and satisfies the ledger invariant.  A snapshot can make opening
  fail, it can never change the result.\<close>

theorem open_fails_closed:
  assumes "ledger_open env root dk = (dk', Inr l)"
  shows "replay_from env (tl_store l) offset_start ledger_default = Inr (tl_state l) \<and> \<not> tl_poisoned l
    \<and> (\<exists>events. fold_result (apply_event env) ledger_default events = Inr (tl_state l)) \<and> ledger_inv (tl_state l)"
proof -
  have replay: "replay_from env (tl_store l) offset_start ledger_default = Inr (tl_state l) \<and> \<not> tl_poisoned l"
    using assms by (auto simp: ledger_open_def recover_state_def rbind_Inr_iff require_Inr_iff split: prod.splits sum.splits)
  have "\<exists>events. fold_result (apply_event env) ledger_default events = Inr (tl_state l)"
  proof (rule replay_records_inv [of "env_crc env" wal_storage offset_start "replay_step env" ledger_default "tl_store l"])
    show "replay_records (env_crc env) wal_storage offset_start (replay_step env) ledger_default (tl_store l) = Inr (tl_state l)"
      using replay by (simp add: replay_from_def)
    show "\<exists>events. fold_result (apply_event env) ledger_default events = Inr ledger_default"
      by (rule exI [of _ "[]"]) simp
  qed (rule replay_step_history)
  then show ?thesis using replay replay_inv [of env ledger_default _ "tl_state l"] by auto
qed

theorem open_fails_closed_witness:
  "\<exists>dk l. ledger_open sample_env ''r'' empty_disk = (dk, Inr l)
    \<and> replay_from sample_env (tl_store l) offset_start ledger_default = Inr (tl_state l) \<and> ledger_inv (tl_state l)"
  using ledger_open_empty [of sample_env "''r''"] open_fails_closed [of sample_env "''r''" empty_disk] by fastforce

section \<open>A snapshot of a poisoned ledger\<close>

text \<open>A snapshot taken from a poisoned ledger makes the root unopenable.  When \<open>sync_all\<close> fails after
  the record was written, the record is in the log and not in the state in memory; \<open>write_snapshot\<close>
  does not check for poisoning, pairs the old state with the position after the record, and every
  later opening refuses with a replay mismatch, although the log alone is intact.\<close>

theorem poisoned_snapshot_blocks_reopen:
  assumes run: "ledger_run env root l acked k" "k + 2 < 2 ^ 64"
    and env: "crc_streaming (env_crc env)" "transition_codec env" "event_frames_ok env"
    and fail: "ledger_append env sync_fails Disabled input l = (l1, Inl e)" "tl_poisoned l1"
    and snap: "write_snapshot env t plan l1 = (l2, plan', Inr info)"
  shows "snd (ledger_open env root (store_drop (tl_store l2))) = Inl ReplayProjectionMismatch"
proof -
  have inv: "run_inv env l acked 1" using ledger_run_inv [OF run(1) env, of 1] run(2) by simp
  then obtain segs where segs: "ledger_rep env l segs" "segment_room segs (Suc 0)" "\<not> tl_poisoned l"
    by (auto simp: run_inv_def)
  obtain event candidate bs s w where prep: "prepare_event env (tl_state l) input = Inr (event, candidate, bs)"
      and app: "store_append (env_crc env) sync_fails Disabled bs (tl_store l) = (s, Inl w)"
      and l1: "l1 = l\<lparr>tl_store := s, tl_poisoned := True\<rparr>"
    using ledger_append_err [OF fail(1)] fail(2) segs(3) by auto
  have "frame_ok bs"
    using prepare_event_Inr(2) [OF prep] env(3) by (auto simp: event_frames_ok_def encode_event_def map_err_Inr_iff)
  then obtain segs' where coh: "ledger_coherent env (tl_store l1) segs' candidate"
    using unsynced_append [OF segs(1,2) prep _ app] l1 by auto
  have "bt_wf (snap_dir l1)" using segs(1) store_append_snap [OF app] by (simp add: ledger_rep_def l1)
  moreover have "tl_state l1 \<noteq> candidate" using apply_event_changes [OF prepare_event_Inr(1) [OF prep]] by (simp add: l1)
  ultimately show ?thesis by (intro stale_snapshot_reopen [OF coh _ _ snap])
qed

lemma sample_replace:
  "replace_snapshot_bytes_crash_safe SNAPSHOT_FILE [1] \<lparr>sf_dir = [], sf_plan = []\<rparr> =
     (\<lparr>sf_dir = [(SNAPSHOT_FILE, RegularFile [1])], sf_plan = []\<rparr>, Inr ())"
  "replace_snapshot_bytes_crash_safe SNAPSHOT_FILE [0] \<lparr>sf_dir = [], sf_plan = []\<rparr> =
     (\<lparr>sf_dir = [(SNAPSHOT_FILE, RegularFile [0])], sf_plan = []\<rparr>, Inr ())"
  by code_simp+

lemma sample_snapshot_taken:
  "write_snapshot sample_env 5 [] (sample_ledger0\<lparr>tl_store := log_store crc32 [[0]] [], tl_poisoned := True\<rparr>) =
     (l2, plan', r) \<Longrightarrow> \<exists>info. r = Inr info"
  using sample_replace(1)
  by (auto simp: write_snapshot_def prepare_snapshot_def projection_digest_def digest_cbor_def sample_env_def ser_table_def
      map_err_def log_store_def end_offset_def sample_snapshot_def sample_ref_def sample_state1_def ledger_default_def
      split: prod.splits)

theorem poisoned_snapshot_blocks_reopen_witness:
  "\<exists>l1 l2 plan' info.
     ledger_append sample_env sync_fails Disabled sample_authorization sample_ledger0 =
       (l1, Inl (Storage (WalFailure (IoError SyncSegment))))
   \<and> write_snapshot sample_env 5 [] l1 = (l2, plan', Inr info)
   \<and> snd (ledger_open sample_env ''r'' (store_drop (tl_store l2))) = Inl ReplayProjectionMismatch"
proof -
  let ?l1 = "sample_ledger0\<lparr>tl_store := log_store crc32 [[0]] [], tl_poisoned := True\<rparr>"
  obtain l2 plan' r where run: "write_snapshot sample_env 5 [] ?l1 = (l2, plan', r)"
    by (cases "write_snapshot sample_env 5 [] ?l1")
  then obtain info where info: "write_snapshot sample_env 5 [] ?l1 = (l2, plan', Inr info)"
    using sample_snapshot_taken by blast
  from poisoned_snapshot_blocks_reopen [OF sample_run(1) _ _ _ _ sample_unsynced _ info]
  have "snd (ledger_open sample_env ''r'' (store_drop (tl_store l2))) = Inl ReplayProjectionMismatch" by simp
  then show ?thesis using sample_unsynced info by blast
qed

end
