(* ===== verification/Checkpoint_Properties.thy ===== *)
theory Checkpoint_Properties
  imports Checkpoint_Chain Transition_Properties
begin

text \<open>
  Properties of signed checkpoints: what signing, verification, chains and anchors guarantee, and how
  the material of a checkpoint relates to the ledger and its snapshot file.  The examples use a
  signature scheme whose signatures contain the key and a digest of the message.
\<close>

section \<open>A sample signature scheme\<close>

definition sample_material :: CheckpointMaterial where
  "sample_material =
     \<lparr>cm_ledger_profile = LEDGER_PROFILE, cm_storage_root_identity = sample_ref 20, cm_event_chain_head = sample_ref 0,
      cm_last_sequence = 1, cm_wal_segment = 1, cm_wal_offset = 9, cm_projection_digest = sample_ref 1,
      cm_snapshot_digest = sample_ref 2\<rparr>"

definition sample_signer :: "bytes CheckpointSigner" where
  "sample_signer = \<lparr>cs_signer_id = ''s'', cs_key_id = ''t'', cs_signing_key = [7]\<rparr>"

definition checkpoint_body1 :: CheckpointManifestBody where
  "checkpoint_body1 = manifest_body_of sample_signer sample_material 10 None None"

definition checkpoint_body2 :: CheckpointManifestBody where
  "checkpoint_body2 = manifest_body_of sample_signer
     (sample_material\<lparr>cm_event_chain_head := sample_ref 5, cm_last_sequence := 2, cm_wal_offset := 18\<rparr>) 11 None
     (Some (sample_ref 0))"

definition sample_cenv :: "(bytes, bytes) checkpoint_env" where
  "sample_cenv =
     \<lparr>ce_sha256 = pad_digest, ce_ser_body = ser_table [checkpoint_body1, checkpoint_body2], ed_from_bytes = (\<lambda>seed. seed),
      ed_public_bytes = pad_digest, ed_sign = (\<lambda>sk m. pad_digest sk @ pad_digest m),
      ed_parse_public = (\<lambda>b. if length b = 32 then Some b else None),
      ed_parse_signature = (\<lambda>b. if length b = 64 then Some b else None),
      ed_verify = (\<lambda>vk m s. s = vk @ pad_digest m)\<rparr>"

definition sample_manifest :: "CheckpointManifestBody \<Rightarrow> u8 \<Rightarrow> SignedCheckpointManifest" where
  "sample_manifest body i =
     \<lparr>sm_body = body, sm_manifest_ref = sample_ref i, sm_signature_algorithm = SIGNATURE_ALGORITHM,
      sm_signature_hex = encode_hex (pad_digest [7] @ pad_digest [i])\<rparr>"

abbreviation sample_key :: TrustedCheckpointKey where
  "sample_key \<equiv> trusted_key sample_cenv sample_signer 0 None None"

abbreviation sample_registry :: TrustedKeyRegistry where
  "sample_registry \<equiv> [(key_slot ''s'' ''t'', sample_key)]"

lemma sample_ed25519 [simp]: "ed25519_ok sample_cenv"
  by (simp add: ed25519_ok_def sample_cenv_def)

lemma sample_signed:
  "sign_checkpoint sample_cenv sample_signer sample_material 10 None None = Inr (sample_manifest checkpoint_body1 0)"
  "sign_checkpoint sample_cenv sample_signer
     (sample_material\<lparr>cm_event_chain_head := sample_ref 5, cm_last_sequence := 2, cm_wal_offset := 18\<rparr>) 11 None
     (Some (sample_ref 0)) = Inr (sample_manifest checkpoint_body2 1)"
proof -
  have ser: "ce_ser_body sample_cenv checkpoint_body1 = Inr [0]" "ce_ser_body sample_cenv checkpoint_body2 = Inr [1]"
    by (simp_all add: sample_cenv_def ser_table_def checkpoint_body1_def checkpoint_body2_def manifest_body_of_def)
  have profile: "trim LEDGER_PROFILE = LEDGER_PROFILE" "LEDGER_PROFILE \<noteq> []"
    by (rule trim_graphic; simp add: LEDGER_PROFILE_def ascii_graphic_def) (simp add: LEDGER_PROFILE_def)
  show "sign_checkpoint sample_cenv sample_signer sample_material 10 None None = Inr (sample_manifest checkpoint_body1 0)"
    using ser profile
    by (simp add: sign_checkpoint_def validate_material_def sample_material_def cp_normalized_def cp_validate_ref_def
        require_def check_expiry_def check_previous_ref_def Let_def canonical_bytes_def map_err_def sample_manifest_def
        checkpoint_body1_def sample_cenv_def sample_ref_def sample_signer_def)
  show "sign_checkpoint sample_cenv sample_signer
     (sample_material\<lparr>cm_event_chain_head := sample_ref 5, cm_last_sequence := 2, cm_wal_offset := 18\<rparr>) 11 None
     (Some (sample_ref 0)) = Inr (sample_manifest checkpoint_body2 1)"
    using ser profile
    by (simp add: sign_checkpoint_def validate_material_def sample_material_def cp_normalized_def cp_validate_ref_def
        require_def check_expiry_def check_previous_ref_def Let_def canonical_bytes_def map_err_def sample_manifest_def
        checkpoint_body2_def sample_cenv_def sample_ref_def sample_signer_def)
qed

section \<open>Signing and verifying\<close>

text \<open>C15: A signed checkpoint verifies.  A manifest signed by a signer built from a seed is accepted by a
  registry into which the signer's own trusted key was inserted, at every time at which the manifest
  and the key are valid; whatever else the registry holds.\<close>

theorem signed_checkpoint_verifies:
  assumes "ed25519_ok env" "from_seed env signer_id key_id seed = Inr signer"
    and "sign_checkpoint env signer material issued expires previous = Inr manifest"
    and "registry_insert (trusted_key env signer valid_from valid_until revoked_at) registry = Inr registry'"
    and "times_ok (trusted_key env signer valid_from valid_until revoked_at) (sm_body manifest) now"
  shows "verify_signed_checkpoint env manifest registry' now = Inr ()"
proof (rule sign_verify [OF assms(1) from_seed_ok [OF assms(2)] assms(3) _ _ assms(5)])
  show "registry_get registry' (cs_signer_id signer) (cs_key_id signer) =
      Some (trusted_key env signer valid_from valid_until revoked_at)"
    using assms(4) by (auto simp: registry_insert_def registry_get_def rbind_Inr_iff trusted_key_def)
qed (simp add: trusted_key_def)

lemma sample_from_seed: "from_seed sample_cenv ''s'' ''t'' [7] = Inr sample_signer"
  by (simp add: from_seed_def cp_normalized_def sample_signer_def sample_cenv_def)

lemma sample_registered: "registry_insert sample_key [] = Inr sample_registry"
proof -
  have "decode_fixed 32 (encode_hex (pad_digest [7])) label = Inr (pad_digest [7])" for label by simp
  then show ?thesis
    by (simp add: registry_insert_def validate_trusted_key_def trusted_key_def sample_signer_def cp_normalized_def
        public_key_hex_def sample_cenv_def require_def)
qed

theorem signed_checkpoint_verifies_witness:
  "verify_signed_checkpoint sample_cenv (sample_manifest checkpoint_body1 0) sample_registry 12 = Inr ()"
  by (rule signed_checkpoint_verifies [OF sample_ed25519 sample_from_seed sample_signed(1) sample_registered])
     (simp add: times_ok_def trusted_key_def sample_manifest_def checkpoint_body1_def manifest_body_of_def)

lemma sample_verified:
  "verify_signed_checkpoint sample_cenv (sample_manifest checkpoint_body1 0) sample_registry 12 = Inr ()"
  "verify_signed_checkpoint sample_cenv (sample_manifest checkpoint_body2 1) sample_registry 12 = Inr ()"
proof -
  note verify = sign_verify [OF sample_ed25519 from_seed_ok [OF sample_from_seed], where registry = sample_registry
      and key = sample_key and now = 12]
  note defs = registry_get_def sample_signer_def trusted_key_def times_ok_def sample_manifest_def checkpoint_body1_def
    checkpoint_body2_def manifest_body_of_def
  show "verify_signed_checkpoint sample_cenv (sample_manifest checkpoint_body1 0) sample_registry 12 = Inr ()"
    by (rule verify [OF sample_signed(1)]) (simp_all add: defs)
  show "verify_signed_checkpoint sample_cenv (sample_manifest checkpoint_body2 1) sample_registry 12 = Inr ()"
    by (rule verify [OF sample_signed(2)]) (simp_all add: defs)
qed

text \<open>C16: Only authentic checkpoints are accepted.  If a manifest verifies, its reference is the digest of
  its serialized body, a registered key for its signer and key identifier is valid and not revoked at
  that time, the manifest is neither from the future nor expired, and the Ed25519 check of its
  signature over exactly that serialized body succeeded under that key.\<close>

theorem verified_checkpoint_authentic:
  assumes "verify_signed_checkpoint env manifest registry now = Inr ()"
  shows "\<exists>message key public_key vk signature_bytes signature.
      canonical_bytes env (sm_body manifest) = Inr message
    \<and> sm_manifest_ref manifest = sha256_ref (ce_sha256 env) message
    \<and> registry_get registry (mb_signer_id (sm_body manifest)) (mb_key_id (sm_body manifest)) = Some key
    \<and> times_ok key (sm_body manifest) now
    \<and> decode_fixed 32 (tk_public_key_hex key) ''public_key_hex'' = Inr public_key \<and> ed_parse_public env public_key = Some vk
    \<and> decode_hex (sm_signature_hex manifest) ''signature_hex'' = Inr signature_bytes
    \<and> ed_parse_signature env signature_bytes = Some signature \<and> ed_verify env vk message signature"
proof -
  obtain message key public_key vk signature_bytes signature where v:
    "canonical_bytes env (sm_body manifest) = Inr message" "sm_manifest_ref manifest = sha256_ref (ce_sha256 env) message"
    "registry_get registry (mb_signer_id (sm_body manifest)) (mb_key_id (sm_body manifest)) = Some key"
    "\<not> mb_issued_at_ms (sm_body manifest) > now" "\<not> now < tk_valid_from_ms key"
    "\<not> (case tk_valid_until_ms key of Some until \<Rightarrow> now > until | None \<Rightarrow> False)"
    "\<not> (case tk_revoked_at_ms key of Some revoked \<Rightarrow> now \<ge> revoked | None \<Rightarrow> False)"
    "\<not> (case mb_expires_at_ms (sm_body manifest) of Some expires \<Rightarrow> now > expires | None \<Rightarrow> False)"
    "decode_fixed 32 (tk_public_key_hex key) ''public_key_hex'' = Inr public_key" "ed_parse_public env public_key = Some vk"
    "decode_hex (sm_signature_hex manifest) ''signature_hex'' = Inr signature_bytes"
    "ed_parse_signature env signature_bytes = Some signature" "ed_verify env vk message signature"
    using assms unfolding verify_signed_checkpoint_def rbind_Inr_iff require_Inr_iff ok_or_Inr_iff by blast
  have "times_ok key (sm_body manifest) now" using v(4-8) by (auto simp: times_ok_def not_less not_le split: option.splits)
  with v show ?thesis by blast
qed

theorem verified_checkpoint_authentic_witness:
  "sm_manifest_ref (sample_manifest checkpoint_body1 0) = sample_ref 0
   \<and> verify_signed_checkpoint sample_cenv (sample_manifest checkpoint_body1 0) sample_registry 12 = Inr ()
   \<and> (\<exists>message. canonical_bytes sample_cenv checkpoint_body1 = Inr message
        \<and> sample_ref 0 = sha256_ref (ce_sha256 sample_cenv) message)"
  using sample_verified(1) verified_checkpoint_authentic [OF sample_verified(1)] by (auto simp: sample_manifest_def)

section \<open>Chains and anchors\<close>

text \<open>C17: An accepted chain is strictly monotone and linked.  Sequence numbers and WAL positions strictly
  increase along it, issue times do not decrease, every manifest names its predecessor's reference,
  all manifests verify and describe the same storage root, and the verdict reports the last one.\<close>

theorem accepted_chain_monotone:
  assumes "verify_checkpoint_chain env manifests registry anchor now = Inr v"
  shows "sorted_wrt (<) (map (\<lambda>m. mb_last_sequence (sm_body m)) manifests)
    \<and> sorted_wrt (<) (map (\<lambda>m. Offset (mb_wal_segment (sm_body m)) (mb_wal_offset (sm_body m))) manifests)
    \<and> successively (\<lambda>p c. mb_previous_checkpoint_ref (sm_body c) = Some (sm_manifest_ref p)
         \<and> mb_issued_at_ms (sm_body p) \<le> mb_issued_at_ms (sm_body c)) manifests
    \<and> (\<forall>m\<in>set manifests. verify_signed_checkpoint env m registry now = Inr ()
         \<and> mb_storage_root_identity (sm_body m) = vc_storage_root_identity v)
    \<and> vc_latest_sequence v = mb_last_sequence (sm_body (last manifests))
    \<and> vc_latest_event_chain_head v = mb_event_chain_head (sm_body (last manifests))"
proof -
  note chain = verify_chain_Inr [OF assms]
  have root: "vc_storage_root_identity v = mb_storage_root_identity (sm_body (last manifests))"
    using assms by (auto simp: verify_checkpoint_chain_def Let_def rbind_Inr_iff split: if_splits prod.splits)
  have same: "m \<in> set manifests \<Longrightarrow>
      mb_storage_root_identity (sm_body m) = mb_storage_root_identity (sm_body (hd manifests))" for m
    using successively_const [OF chain(3), of "\<lambda>m. mb_storage_root_identity (sm_body m)" m]
    by (simp add: successor_ok_def)
  have "sorted_wrt (<) (map (\<lambda>m. mb_last_sequence (sm_body m)) manifests)"
    by (rule successively_sorted [OF chain(3)]) (simp add: successor_ok_def)
  moreover have "sorted_wrt (<) (map (\<lambda>m. Offset (mb_wal_segment (sm_body m)) (mb_wal_offset (sm_body m))) manifests)"
    by (rule successively_sorted [OF chain(3)]) (simp add: successor_ok_def)
  moreover have "successively (\<lambda>p c. mb_previous_checkpoint_ref (sm_body c) = Some (sm_manifest_ref p)
      \<and> mb_issued_at_ms (sm_body p) \<le> mb_issued_at_ms (sm_body c)) manifests"
    by (rule successively_mono [OF chain(3)]) (simp add: successor_ok_def)
  ultimately show ?thesis using chain(1,2,4,5) root same last_in_set [OF chain(1)] by metis
qed

definition sample_chain :: "SignedCheckpointManifest list" where
  "sample_chain = [sample_manifest checkpoint_body1 0, sample_manifest checkpoint_body2 1]"

definition sample_anchor :: ExternalAnchor where
  "sample_anchor = \<lparr>ea_provider_profile = ''s'', ea_anchor_id = ''t'', ea_checkpoint_ref = sample_ref 0,
     ea_storage_root_identity = sample_ref 20, ea_event_chain_head = sample_ref 0, ea_last_sequence = 1, ea_anchored_at_ms = 3\<rparr>"

lemma sample_successor: "successor_ok (sample_manifest checkpoint_body1 0) (sample_manifest checkpoint_body2 1)"
  by (simp add: successor_ok_def sample_manifest_def checkpoint_body1_def checkpoint_body2_def manifest_body_of_def
      sample_material_def less_offset_def)

lemma sample_chain_verified:
  "\<exists>v. verify_checkpoint_chain sample_cenv sample_chain sample_registry (Some sample_anchor) 12 = Inr v"
proof -
  have "check_windows sample_chain = Inr ()"
    unfolding check_windows_Inr using sample_successor by (simp add: sample_chain_def)
  moreover have "check_anchor sample_chain sample_anchor = Inr ()"
    by (simp add: check_anchor_def validate_anchor_def sample_anchor_def cp_normalized_def cp_validate_ref_def require_def
        sample_chain_def sample_manifest_def checkpoint_body1_def checkpoint_body2_def manifest_body_of_def
        sample_material_def)
  ultimately show ?thesis
    using sample_verified by (simp add: verify_checkpoint_chain_def sample_chain_def Let_def)
qed

theorem accepted_chain_monotone_witness:
  "\<exists>v. verify_checkpoint_chain sample_cenv sample_chain sample_registry (Some sample_anchor) 12 = Inr v
    \<and> sorted_wrt (<) (map (\<lambda>m. mb_last_sequence (sm_body m)) sample_chain)"
proof -
  obtain v where v: "verify_checkpoint_chain sample_cenv sample_chain sample_registry (Some sample_anchor) 12 = Inr v"
    using sample_chain_verified by blast
  show ?thesis using v accepted_chain_monotone [OF v] by blast
qed

text \<open>C18: An external anchor excludes rollback.  A chain accepted against an anchor contains the anchored
  checkpoint with the anchored root, head and sequence number, and ends at or after it; a chain whose
  last checkpoint is older than the anchor is never accepted.  Without an anchor the verdict claims
  only local signatures.\<close>

theorem anchor_excludes_rollback:
  assumes "verify_checkpoint_chain env manifests registry anchor now = Inr v"
  shows "case anchor of
      None \<Rightarrow> vc_status v = LocalSignatureOnly
    | Some a \<Rightarrow> vc_status v = ExternalAnchorVerified \<and> ea_last_sequence a \<le> vc_latest_sequence v
        \<and> (\<exists>m\<in>set manifests. sm_manifest_ref m = ea_checkpoint_ref a
             \<and> mb_storage_root_identity (sm_body m) = ea_storage_root_identity a
             \<and> mb_event_chain_head (sm_body m) = ea_event_chain_head a \<and> mb_last_sequence (sm_body m) = ea_last_sequence a)"
  using verify_chain_Inr(4,7) [OF assms] check_anchor_Inr [of manifests] by (auto split: option.splits)

theorem anchor_excludes_rollback_witness:
  "\<exists>v. verify_checkpoint_chain sample_cenv sample_chain sample_registry (Some sample_anchor) 12 = Inr v
    \<and> vc_status v = ExternalAnchorVerified \<and> ea_last_sequence sample_anchor \<le> vc_latest_sequence v"
proof -
  obtain v where v: "verify_checkpoint_chain sample_cenv sample_chain sample_registry (Some sample_anchor) 12 = Inr v"
    using sample_chain_verified by blast
  show ?thesis using v anchor_excludes_rollback [OF v] by auto
qed

section \<open>Encodings and the registry\<close>

text \<open>Hexadecimal text is a faithful encoding of bytes: decoding what was encoded returns the bytes,
  the fixed-length variant accepts exactly its length, and two byte strings with the same text are
  equal.\<close>

lemma hex_roundtrip:
  "decode_hex (encode_hex bs) label = Inr bs
   \<and> decode_fixed n (encode_hex bs) label = (if length bs = n then Inr bs else Inl (InvalidHex label))
   \<and> (encode_hex bs = encode_hex bs' \<longleftrightarrow> bs = bs')"
  by (simp add: decode_fixed_def) (simp add: encode_hex_def)

text \<open>The registry keeps the keys of different signers apart, as long as identifiers contain no NUL
  character: inserting a valid key makes it the key of its signer and key identifier and leaves every
  other pair as it was.\<close>

theorem registry_insert_lookup:
  assumes "registry_insert key registry = Inr registry'" "CHR 0x00 \<notin> set (tk_signer_id key)" "CHR 0x00 \<notin> set signer_id"
  shows "registry_get registry' signer_id key_id =
    (if signer_id = tk_signer_id key \<and> key_id = tk_key_id key then Some key else registry_get registry signer_id key_id)"
proof -
  have "key_slot signer_id key_id = key_slot (tk_signer_id key) (tk_key_id key) \<longleftrightarrow>
      signer_id = tk_signer_id key \<and> key_id = tk_key_id key"
    using key_slot_inject [OF assms(3,2), of key_id "tk_key_id key"] by auto
  then show ?thesis using assms(1) by (auto simp: registry_insert_def registry_get_def rbind_Inr_iff)
qed

theorem registry_insert_lookup_witness:
  "registry_get sample_registry ''s'' ''t'' = Some sample_key \<and> registry_get sample_registry ''t'' ''s'' = None"
proof -
  have lookup: "registry_get sample_registry a b = (if a = ''s'' \<and> b = ''t'' then Some sample_key else registry_get [] a b)"
    if "CHR 0x00 \<notin> set a" for a b
    using registry_insert_lookup [OF sample_registered _ that, of b] by (simp add: trusted_key_def sample_signer_def)
  show ?thesis using lookup [of "''s''" "''t''"] lookup [of "''t''" "''s''"] by (simp add: registry_get_def)
qed

text \<open>With a NUL character in a signer identifier, which the validation accepts, a key registered for
  one signer is the key of another: the slot separates the two identifiers by a NUL character, so
  moving the boundary gives the same slot.\<close>

theorem key_slot_nul_collision:
  assumes "registry_insert key registry = Inr registry'" "tk_signer_id key = signer_id @ [CHR 0x00] @ rest"
  shows "registry_get registry' signer_id (rest @ [CHR 0x00] @ tk_key_id key) = Some key \<and> tk_signer_id key \<noteq> signer_id"
  using assms by (auto simp: registry_insert_def registry_get_def rbind_Inr_iff key_slot_def)

theorem key_slot_nul_collision_witness:
  "\<exists>registry'. registry_insert (sample_key\<lparr>tk_signer_id := ''s'' @ [CHR 0x00] @ ''t''\<rparr>) [] = Inr registry'
    \<and> registry_get registry' ''s'' (''t'' @ [CHR 0x00] @ ''t'') = Some (sample_key\<lparr>tk_signer_id := ''s'' @ [CHR 0x00] @ ''t''\<rparr>)"
proof -
  let ?key = "sample_key\<lparr>tk_signer_id := ''s'' @ [CHR 0x00] @ ''t''\<rparr>"
  have "trim (''s'' @ [CHR 0x00] @ ''t'') = ''s'' @ [CHR 0x00] @ ''t''" by (rule trim_graphic) (simp_all add: ascii_graphic_def)
  then have "validate_trusted_key ?key = Inr ()"
    by (simp add: validate_trusted_key_def trusted_key_def sample_signer_def cp_normalized_def public_key_hex_def
        sample_cenv_def require_def)
  then obtain registry' where reg: "registry_insert ?key [] = Inr registry'" by (simp add: registry_insert_def)
  have "tk_signer_id ?key = ''s'' @ [CHR 0x00] @ ''t''" by simp
  from key_slot_nul_collision [OF reg this] show ?thesis using reg by (simp add: trusted_key_def sample_signer_def)
qed

section \<open>Checkpoint material\<close>

text \<open>C19: Checkpoint material commits to the snapshot on disk.  When a ledger wrote a snapshot and the
  material was derived from the returned info, the snapshot file verifies, and the material carries
  its digest, its log position, its chain head, the digest of its projections and the number of
  events.\<close>

theorem material_commits_to_snapshot:
  assumes "ledger_run env root l acked k" "k + 1 < 2 ^ 64"
    and env: "crc_streaming (env_crc env)" "transition_codec env" "event_frames_ok env"
    and snap: "write_snapshot env t plan l = (l', plan', Inr info)"
    and mat: "checkpoint_material env l' root_id info = Inr m"
  shows "\<exists>snapshot. load_and_verify_snapshot env (snap_dir l') = Inr snapshot
    \<and> cm_snapshot_digest m = sn_snapshot_digest snapshot
    \<and> Offset (cm_wal_segment m) (cm_wal_offset m) = sb_wal_offset (sn_body snapshot)
    \<and> sb_head_event_hash (sn_body snapshot) = Some (cm_event_chain_head m)
    \<and> sb_projection_digest (sn_body snapshot) = cm_projection_digest m
    \<and> snapshot_state (sn_body snapshot) = tl_state l \<and> cm_last_sequence m = event_count l"
proof -
  have "run_inv env l acked 0" using ledger_run_inv [OF assms(1) env, of 0] assms(2) by simp
  then have wf: "bt_wf (snap_dir l)" by (auto simp: run_inv_def ledger_rep_def)
  obtain snapshot bs d where prep: "prepare_snapshot env t l = Inr (snapshot, bs)" and l': "l' = with_snap_dir d l"
      and written: "bt_get d SNAPSHOT_FILE = Some (RegularFile bs)"
    using write_snapshot_file [OF wf snap] by blast
  have info: "info = snapshot_info l snapshot"
    using snap prep by (auto simp: write_snapshot_def split: prod.splits sum.splits)
  have ver: "verify_snapshot_bytes env bs = Inr snapshot" "snapshot_state (sn_body snapshot) = tl_state l"
    using prepare_snapshot_verifies [OF prep env(2)] by auto
  have "load_and_verify_snapshot env (snap_dir l') = Inr snapshot"
    using ver(1) written by (simp add: load_and_verify_snapshot_def dir_file_def l')
  moreover have "si_head_event_hash info = Some (cm_event_chain_head m)" "si_projection_digest info = cm_projection_digest m"
      "cm_snapshot_digest m = si_snapshot_digest info" "cm_wal_segment m = segment (si_offset info)"
      "cm_wal_offset m = position (si_offset info)" "cm_last_sequence m = event_count l'"
    using mat by (auto simp: checkpoint_material_def rbind_Inr_iff require_Inr_iff)
  ultimately show ?thesis using ver(2) by (auto simp: info snapshot_info_def l' event_count_def)
qed

lemma sample_snapshot_written:
  "\<exists>l'. write_snapshot sample_env 5 [] sample_ledger1 =
     (l', [], Inr (snapshot_info sample_ledger1 (sample_snapshot sample_state1 (sample_ref 1))))
   \<and> l' = with_snap_dir [(SNAPSHOT_FILE, RegularFile [0])] sample_ledger1"
proof -
  have "prepare_snapshot sample_env 5 sample_ledger1 = Inr (sample_snapshot sample_state1 (sample_ref 1), [0])"
    by (simp add: prepare_snapshot_def projection_digest_def digest_cbor_def sample_env_def ser_table_def
        map_err_def log_store_def end_offset_def sample_snapshot_def sample_ref_def sample_state1_def ledger_default_def)
  then show ?thesis using sample_replace(2) by (simp add: write_snapshot_def log_store_def)
qed

theorem material_commits_to_snapshot_witness:
  "\<exists>l' m snapshot. checkpoint_material sample_env l' (sample_ref 20)
       (snapshot_info sample_ledger1 (sample_snapshot sample_state1 (sample_ref 1))) = Inr m
    \<and> load_and_verify_snapshot sample_env (snap_dir l') = Inr snapshot
    \<and> cm_snapshot_digest m = sn_snapshot_digest snapshot \<and> sb_head_event_hash (sn_body snapshot) = Some (cm_event_chain_head m)"
proof -
  let ?info = "snapshot_info sample_ledger1 (sample_snapshot sample_state1 (sample_ref 1))"
  let ?l = "with_snap_dir [(SNAPSHOT_FILE, RegularFile [0])] sample_ledger1"
  have snap: "write_snapshot sample_env 5 [] sample_ledger1 = (?l, [], Inr ?info)"
    using sample_snapshot_written by blast
  have "projection_digest sample_env sample_state1 = Inr (sample_ref 1)"
    by (simp add: projection_digest_def digest_cbor_def sample_env_def ser_table_def map_err_def sample_ref_def
        sample_state1_def ledger_default_def)
  then obtain m where mat: "checkpoint_material sample_env ?l (sample_ref 20) ?info = Inr m"
    by (auto simp: checkpoint_material_def cp_validate_ref_def require_def snapshot_info_def sample_snapshot_def
        head_event_hash_def checkpoint_projection_digest_def with_snap_dir_def event_count_def sample_state1_def)
  have "\<exists>snapshot. load_and_verify_snapshot sample_env (snap_dir ?l) = Inr snapshot
      \<and> cm_snapshot_digest m = sn_snapshot_digest snapshot \<and> sb_head_event_hash (sn_body snapshot) = Some (cm_event_chain_head m)"
    using material_commits_to_snapshot [OF sample_run(2) _ _ _ _ snap mat] by auto
  with mat show ?thesis by blast
qed

end
