(* ===== verification/Governance_Properties.thy ===== *)
theory Governance_Properties
  imports Governance Checkpoint_Properties
begin

text \<open>
  Properties of the governance checkpoint bridge: what a validated envelope satisfies, that a returned
  bundle is recorded durably and verifies, and what happens to an envelope whose run failed half way.
  The example records one \<open>initialize\<close> envelope in an empty root.
\<close>

section \<open>A sample envelope\<close>

definition sample_sha :: "u8 \<Rightarrow> string" where
  "sample_sha i = hex_of_bytes (pad_digest [i])"

lemma sample_ref_sha: "sample_ref i = ''sha256:'' @ sample_sha i"
  by (simp add: sample_ref_def sample_sha_def sha256_ref_def)

lemma hex_zeros: "hex_of_bytes (replicate n 0) = replicate (2 * n) (CHR ''0'')"
proof (induction n)
  case (Suc n)
  have "byte_hex 0 = [CHR ''0'', CHR ''0'']" by code_simp
  with Suc show ?case by (simp add: hex_of_bytes_def)
qed (simp add: hex_of_bytes_def)

lemma zero_sha: "ZERO_SHA256 = hex_of_bytes (replicate 32 0)"
  unfolding hex_zeros ZERO_SHA256_def by simp

lemma sample_sha_zero:
  assumes "i \<noteq> 0"
  shows "sample_sha i \<noteq> ZERO_SHA256"
proof -
  have "hd (pad_digest [i]) = i" "hd (replicate 32 0 :: bytes) = 0" by (simp_all add: pad_digest_def)
  then show ?thesis using assms unfolding zero_sha sample_sha_def hex_of_bytes_inject by metis
qed

lemma raw_sha_hex: "length bs = 32 \<Longrightarrow> length (hex_of_bytes bs) = 64 \<and> list_all is_lower_hex (hex_of_bytes bs)"
  by (simp add: hex_of_bytes_lower)

lemma sample_sha_valid [simp]:
  "i \<noteq> 0 \<Longrightarrow> validate_raw_sha (sample_sha i) label b = Inr ()" "validate_raw_sha ZERO_SHA256 label True = Inr ()"
  using raw_sha_hex [of "pad_digest [i]"] raw_sha_hex [of "replicate 32 0"] sample_sha_zero [of i]
  by (auto simp: validate_raw_sha_def sample_sha_def require_def zero_sha)

definition gov_body :: GovernanceTransitionEnvelopeBody where
  "gov_body =
     \<lparr>gb_schema = GOVERNANCE_ENVELOPE_SCHEMA, gb_root_id_sha256 = sample_sha 20, gb_transition_kind = ''initialize'',
      gb_generation_before = 0, gb_generation_after = 0, gb_world_before_sha256 = ZERO_SHA256,
      gb_world_after_sha256 = sample_sha 21, gb_reservation_sha256 = ZERO_SHA256, gb_operation_sha256 = ZERO_SHA256,
      gb_upstream_receipt_sha256 = sample_sha 22, gb_captured_at_ms = 4\<rparr>"

definition gov_envelope :: GovernanceTransitionEnvelope where
  "gov_envelope = \<lparr>ge_body = gov_body, ge_envelope_ref = sample_ref 30\<rparr>"

lemma gov_envelope_simps [simp]: "ge_body gov_envelope = gov_body" "ge_envelope_ref gov_envelope = sample_ref 30"
  by (simp_all add: gov_envelope_def)

definition gov_event :: TransitionEvent where
  "gov_event = \<lparr>te_body = event_body_of ledger_default (governance_input gov_envelope), te_event_hash = sample_ref 0\<rparr>"

lemma gov_body_valid: "validate_body gov_body = Inr ()"
  by (simp add: validate_body_def gov_body_def validate_semantics_def require_def)

lemma gov_transition_id: "governance_transition_id gov_envelope = ''liminalosai-governance-'' @ sample_sha 30"
proof -
  have "starts_with (''sha256:'' @ sample_sha 30) ''sha256:''" by (simp add: starts_with_def)
  moreover have "\<not> starts_with (sample_sha 30) ''sha256:''"
  proof
    assume "starts_with (sample_sha 30) ''sha256:''"
    then have "CHR ''s'' \<in> set (sample_sha 30)"
      unfolding starts_with_def by (metis in_set_takeD list.set_intros(1))
    then have "is_lower_hex (CHR ''s'')"
      using hex_of_bytes_lower [of "pad_digest [30]"] by (simp add: sample_sha_def list_all_iff)
    then show False by (simp add: is_lower_hex_def)
  qed
  ultimately show ?thesis
    by (subst governance_transition_id_def, simp add: sample_ref_sha)
       (subst trim_start_matches.simps, simp, subst trim_start_matches.simps, simp)
qed

definition gov_state :: LedgerState where
  "gov_state =
     \<lparr>ls_next_sequence = 2, ls_head_event_hash = Some (sample_ref 0),
      ls_projections = [(governance_transition_id gov_envelope, fresh_projection gov_event)],
      ls_record_owners = [(sample_ref 30, owner_of (te_body gov_event))]\<rparr>"

definition gov_env :: "(u32, bytes, bytes) governance_env" where
  "gov_env =
     \<lparr>gv_ledger = \<lparr>env_crc = crc32, env_sha256 = pad_digest, env_ser_body = (\<lambda>_. Inr [0]),
        env_ser_event = ser_table [gov_event], env_de_event = de_table [gov_event], env_ser_material = (\<lambda>_. Inr [1]),
        env_ser_snapshot_body = (\<lambda>_. Inr [2]), env_ser_snapshot = ser_table [sample_snapshot gov_state (sample_ref 1)],
        env_de_snapshot = de_table [sample_snapshot gov_state (sample_ref 1)]\<rparr>,
      gv_checkpoint = sample_cenv\<lparr>ce_ser_body := (\<lambda>_. Inr [3])\<rparr>,
      gv_ser_envelope_body = (\<lambda>_. Inr [30]), gv_ser_receipt_body = (\<lambda>_. Inr [4])\<rparr>"

lemma gov_tid_trim: "trim (''liminalosai-governance-'' @ sample_sha 30) = ''liminalosai-governance-'' @ sample_sha 30"
proof (rule trim_graphic)
  have "length (sample_sha 30) = 64" by (simp add: sample_sha_def)
  then have ne: "sample_sha 30 \<noteq> []" by auto
  then have "is_lower_hex (last (sample_sha 30))"
    using hex_of_bytes_lower [of "pad_digest [30]"] last_in_set [OF ne] by (simp add: sample_sha_def list_all_iff)
  then show "ascii_graphic (last (''liminalosai-governance-'' @ sample_sha 30))"
    using ne by (auto simp: is_lower_hex_def ascii_graphic_def Let_def)
qed (simp_all add: ascii_graphic_def)

lemma gov_subject_trim: "trim SUBJECT_ID = SUBJECT_ID" "SUBJECT_ID \<noteq> []"
  by (rule trim_graphic; simp add: SUBJECT_ID_def ascii_graphic_def) (simp add: SUBJECT_ID_def)

lemma gov_tid [simp]:
  "trim (governance_transition_id gov_envelope) = governance_transition_id gov_envelope"
  "governance_transition_id gov_envelope \<noteq> []"
  unfolding gov_transition_id by (rule gov_tid_trim) simp

lemma gov_input_simps [simp]:
  "ti_transition_id (governance_input env) = governance_transition_id env" "ti_subject_id (governance_input env) = SUBJECT_ID"
  "ti_kind (governance_input env) = Authorization" "ti_record_ref (governance_input env) = ge_envelope_ref env"
  "ti_payload_digest (governance_input env) = ge_envelope_ref env" "ti_dimensions (governance_input env) = None"
  "ti_links (governance_input env) = \<lparr>lk_authorization_ref = None, lk_observation_refs = [],
     lk_response_integrity_ref = None, lk_causal_audit_ref = None, lk_previous_continuity_ref = None\<rparr>"
  "ti_side_effect_committed (governance_input env) = None"
  by (simp_all add: governance_input_def)

lemma gov_normalized: "normalize_input (governance_input gov_envelope) = Inr (governance_input gov_envelope)"
  by (simp add: normalize_input_def non_empty_def gov_subject_trim
      validate_ref_def validate_optional_ref_def require_def sort_dedup_def Let_def)

lemma gov_event_valid: "validate_event_body (te_body gov_event) = Inr ()"
  by (simp add: validate_event_body_def gov_event_def event_body_of_def
      validate_canonical_identifier_def gov_subject_trim validate_ref_def validate_optional_ref_def
      require_def sort_dedup_def Let_def ledger_default_def)

lemma gov_applied: "apply_event (gv_ledger gov_env) ledger_default gov_event = Inr gov_state"
  unfolding apply_event_def Let_def gov_event_valid
  by (simp add: gov_env_def digest_cbor_def map_err_def sample_ref_def [symmetric] gov_event_def event_body_of_def
      ledger_default_def require_def validate_ref_def
      bt_contains_key_def apply_authorization_def gov_state_def fresh_projection_def owner_of_def Let_def)

lemma gov_prepared:
  "prepare_event (gv_ledger gov_env) ledger_default (governance_input gov_envelope) = Inr (gov_event, gov_state, [0])"
proof -
  have "digest_cbor (env_sha256 (gv_ledger gov_env)) (env_ser_body (gv_ledger gov_env)) b = Inr (sample_ref 0)" for b
    by (simp add: gov_env_def digest_cbor_def map_err_def sample_ref_def)
  moreover have "encode_event (gv_ledger gov_env) gov_event = Inr [0]"
    by (simp add: encode_event_def gov_env_def ser_table_def map_err_def)
  ultimately show ?thesis
    using gov_applied by (simp add: prepare_event_def gov_normalized Let_def gov_event_def)
qed

definition gov_ledger :: "bytes list \<Rightarrow> LedgerState \<Rightarrow> TrustworthyTransitionLedger" where
  "gov_ledger log st =
     \<lparr>tl_store = log_store crc32 log [], tl_state = st, tl_snapshot_path = snapshot_path_of ''r'', tl_poisoned = False\<rparr>"

lemma gov_append: "ledger_append (gv_ledger gov_env) no_faults Disabled (governance_input gov_envelope) (gov_ledger [] ledger_default) =
    (gov_ledger [[0]] gov_state, Inr gov_event)"
proof -
  have "env_crc (gv_ledger gov_env) = crc32" by (simp add: gov_env_def)
  then show ?thesis
    using gov_prepared log_store_append [of crc32 "[]" "[0]" "[]"]
    by (simp add: ledger_append_def gov_ledger_def DEFAULT_SEGMENT_SIZE_def)
qed

lemma gov_env_ok [simp]:
  "env_crc (gv_ledger gov_env) = crc32" "transition_codec (gv_ledger gov_env)" "event_frames_ok (gv_ledger gov_env)"
  by (auto simp: gov_env_def transition_codec_def event_frames_ok_def ser_de_table ser_table_frame)

lemma gov_prepared_snapshot:
  "prepare_snapshot (gv_ledger gov_env) 5 (gov_ledger [[0]] gov_state) = Inr (sample_snapshot gov_state (sample_ref 1), [0])"
  by (simp add: prepare_snapshot_def projection_digest_def digest_cbor_def gov_env_def ser_table_def map_err_def
      log_store_def end_offset_def sample_snapshot_def sample_ref_def gov_state_def gov_ledger_def)

lemma gov_snapshot_taken:
  "write_snapshot (gv_ledger gov_env) 5 [] (gov_ledger [[0]] gov_state) =
     (with_snap_dir [(SNAPSHOT_FILE, RegularFile [0])] (gov_ledger [[0]] gov_state), [],
      Inr (snapshot_info (gov_ledger [[0]] gov_state) (sample_snapshot gov_state (sample_ref 1))))"
  using gov_prepared_snapshot sample_replace(2) by (simp add: write_snapshot_def gov_ledger_def log_store_def)

lemma gov_open:
  "ledger_open (gv_ledger gov_env) ''r'' empty_disk = (st_disk (log_store crc32 [] []), Inr (gov_ledger [] ledger_default))"
  "ledger_open (gv_ledger gov_env) ''r'' (store_drop (log_store crc32 [] [])) =
     (st_disk (log_store crc32 [] []), Inr (gov_ledger [] ledger_default))"
proof -
  obtain dk l where l: "ledger_open (gv_ledger gov_env) ''r'' empty_disk = (dk, Inr l)" "tl_state l = ledger_default"
      "ledger_rep (gv_ledger gov_env) l [(1, [])]" "tl_store l = log_store crc32 [] []"
    using ledger_open_empty [of "gv_ledger gov_env" "''r''"] by auto
  have "dk = st_disk (log_store crc32 [] []) \<and> l = gov_ledger [] ledger_default"
    using l by (auto simp: ledger_open_def open_empty gov_ledger_def split: sum.splits)
  with l(1) show "ledger_open (gv_ledger gov_env) ''r'' empty_disk =
      (st_disk (log_store crc32 [] []), Inr (gov_ledger [] ledger_default))" by simp
  obtain dk' l' where l': "ledger_open (gv_ledger gov_env) ''r'' (store_drop (log_store crc32 [] [])) = (dk', Inr l')"
      "tl_state l' = ledger_default"
    using ledger_reopen [OF l(3), of "''r''"] l(2,4) by auto
  have "store_open crc32 (store_drop (log_store crc32 [] [])) = (st_disk (log_store crc32 [] []), Inr (log_store crc32 [] []))"
    by (rule log_store_reopen) simp_all
  then have "dk' = st_disk (log_store crc32 [] []) \<and> l' = gov_ledger [] ledger_default"
    using l' by (auto simp: ledger_open_def gov_ledger_def split: sum.splits)
  with l'(1) show "ledger_open (gv_ledger gov_env) ''r'' (store_drop (log_store crc32 [] [])) =
      (st_disk (log_store crc32 [] []), Inr (gov_ledger [] ledger_default))" by simp
qed

lemma gov_run: "ledger_run (gv_ledger gov_env) ''r'' (gov_ledger [] ledger_default) [] 0"
  using gov_open(1) by (rule ledger_run.start)

lemma gov_verified: "envelope_verify gov_env gov_envelope = Inr ()"
  by (simp add: envelope_verify_def gov_body_valid gov_digest_def gov_env_def map_err_def require_def sample_ref_def)

abbreviation gov_info :: TransitionLedgerSnapshotInfo where
  "gov_info \<equiv> snapshot_info (gov_ledger [[0]] gov_state) (sample_snapshot gov_state (sample_ref 1))"

abbreviation gov_ledger2 :: TrustworthyTransitionLedger where
  "gov_ledger2 \<equiv> with_snap_dir [(SNAPSHOT_FILE, RegularFile [0])] (gov_ledger [[0]] gov_state)"

lemma gov_material:
  "\<exists>m. checkpoint_material (gv_ledger gov_env) gov_ledger2 (''sha256:'' @ sample_sha 20) gov_info = Inr m
     \<and> validate_material m = Inr () \<and> is_sha256_ref (cm_event_chain_head m) \<and> is_sha256_ref (cm_projection_digest m)
     \<and> is_sha256_ref (cm_snapshot_digest m)"
proof -
  have "projection_digest (gv_ledger gov_env) gov_state = Inr (sample_ref 1)"
    by (simp add: projection_digest_def digest_cbor_def gov_env_def map_err_def sample_ref_def)
  moreover have "trim LEDGER_PROFILE = LEDGER_PROFILE" "LEDGER_PROFILE \<noteq> []"
    by (rule trim_graphic; simp add: LEDGER_PROFILE_def ascii_graphic_def) (simp add: LEDGER_PROFILE_def)
  ultimately show ?thesis
    unfolding sample_ref_sha [symmetric]
    by (auto simp: checkpoint_material_def cp_validate_ref_def require_def snapshot_info_def sample_snapshot_def
        head_event_hash_def checkpoint_projection_digest_def with_snap_dir_def event_count_def gov_state_def gov_ledger_def
        validate_material_def cp_normalized_def saturating_sub_def)
qed

abbreviation gov_cenv :: "(bytes, bytes) checkpoint_env" where
  "gov_cenv \<equiv> sample_cenv\<lparr>ce_ser_body := (\<lambda>_. Inr [3])\<rparr>"

lemma gov_cenv_ok: "ed25519_ok gov_cenv" "from_seed gov_cenv ''s'' ''t'' [7] = Inr sample_signer"
    "trusted_key gov_cenv sample_signer 0 None None = sample_key"
  by (simp_all add: ed25519_ok_def sample_cenv_def from_seed_def cp_normalized_def sample_signer_def trusted_key_def
      public_key_hex_def)

lemma gov_env_simps [simp]:
  "gv_checkpoint gov_env = gov_cenv" "gv_ser_receipt_body gov_env = (\<lambda>_. Inr [4])" "env_sha256 (gv_ledger gov_env) = pad_digest"
  by (simp_all add: gov_env_def)

lemma gov_signed:
  assumes "validate_material m = Inr ()"
  shows "\<exists>manifest. sign_checkpoint gov_cenv sample_signer m 5 None None = Inr manifest
    \<and> verify_signed_checkpoint gov_cenv manifest sample_registry 5 = Inr ()
    \<and> is_sha256_ref (sm_manifest_ref manifest) \<and> sm_body manifest = manifest_body_of sample_signer m 5 None None"
proof -
  obtain manifest where signed: "sign_checkpoint gov_cenv sample_signer m 5 None None = Inr manifest"
      and body: "sm_body manifest = manifest_body_of sample_signer m 5 None None"
      and ref: "is_sha256_ref (sm_manifest_ref manifest)"
    using assms by (auto simp: sign_checkpoint_def check_expiry_def check_previous_ref_def canonical_bytes_def map_err_def
        Let_def sample_cenv_def)
  have "verify_signed_checkpoint gov_cenv manifest sample_registry 5 = Inr ()"
    by (rule sign_verify [OF gov_cenv_ok(1) from_seed_ok [OF gov_cenv_ok(2)] signed, where key = sample_key])
       (simp_all add: registry_get_def sample_signer_def trusted_key_def times_ok_def body manifest_body_of_def
          public_key_hex_def sample_cenv_def)
  with signed body ref show ?thesis by blast
qed

lemma gov_receipt_issued: "\<exists>r. issue_receipt gov_env gov_envelope sample_signer 5 gov_event gov_ledger2 gov_info = Inr r"
proof -
  obtain m where m: "checkpoint_material (gv_ledger gov_env) gov_ledger2 (''sha256:'' @ sample_sha 20) gov_info = Inr m"
      "validate_material m = Inr ()" "is_sha256_ref (cm_event_chain_head m)" "is_sha256_ref (cm_projection_digest m)"
      "is_sha256_ref (cm_snapshot_digest m)"
    using gov_material by blast
  obtain manifest where s: "sign_checkpoint gov_cenv sample_signer m 5 None None = Inr manifest"
      "verify_signed_checkpoint gov_cenv manifest sample_registry 5 = Inr ()"
      "is_sha256_ref (sm_manifest_ref manifest)" "sm_body manifest = manifest_body_of sample_signer m 5 None None"
    using gov_signed [OF m(2)] by blast
  have "receipt_verify gov_env \<lparr>gr_body = receipt_body_of gov_envelope gov_event manifest, gr_receipt_ref = sample_ref 4\<rparr> = Inr ()"
    using m(3-5) s(3,4)
    by (simp add: receipt_verify_def receipt_body_of_def Let_def require_def gov_validate_ref_def gov_body_def gov_digest_def
        map_err_def gov_event_def manifest_body_of_def sample_ref_def)
  then show ?thesis
    using m(1) s(1,2) sample_registered
    by (simp add: issue_receipt_def gov_cenv_ok(3) gov_digest_def map_err_def Let_def sample_ref_def gov_body_def)
qed

section \<open>Envelopes\<close>

text \<open>What a built envelope satisfies.  Its reference is the digest of its body and it verifies; its
  kind is one of five; initialization starts from generation 0 and the zero world, a reservation keeps
  generation and world, and commits, mutations and reconciliations raise the generation by one,
  except at the largest generation, where the saturating addition lets it stay the same.\<close>

theorem built_envelope_rules:
  assumes "envelope_build env body = Inr envelope"
  shows "envelope_verify env envelope = Inr () \<and> ge_body envelope = body
    \<and> gov_digest env (gv_ser_envelope_body env) body = Inr (ge_envelope_ref envelope)
    \<and> gb_transition_kind body \<in> {''initialize'', ''reserve'', ''commit'', ''mutate'', ''reconcile''}
    \<and> (gb_transition_kind body = ''initialize'' \<longrightarrow>
         gb_generation_before body = 0 \<and> gb_generation_after body = 0 \<and> gb_world_before_sha256 body = ZERO_SHA256)
    \<and> (gb_transition_kind body = ''reserve'' \<longrightarrow>
         gb_generation_after body = gb_generation_before body \<and> gb_world_after_sha256 body = gb_world_before_sha256 body)
    \<and> (gb_transition_kind body \<in> {''commit'', ''mutate'', ''reconcile''} \<longrightarrow>
         (if gb_generation_before body = - 1 then gb_generation_after body = - 1
          else gb_generation_before body < gb_generation_after body
            \<and> gb_generation_after body = gb_generation_before body + 1))"
proof -
  have valid: "validate_body body = Inr ()" and env: "ge_body envelope = body"
      "gov_digest env (gv_ser_envelope_body env) body = Inr (ge_envelope_ref envelope)"
    using assms by (auto simp: envelope_build_def rbind_Inr_iff)
  note sem = validate_body_semantics [OF valid]
  have "gb_transition_kind body = ''initialize'' \<longrightarrow>
      gb_generation_before body = 0 \<and> gb_generation_after body = 0 \<and> gb_world_before_sha256 body = ZERO_SHA256"
    using sem by (auto simp: validate_semantics_def require_Inr_iff)
  moreover have "gb_transition_kind body = ''reserve'' \<longrightarrow>
      gb_generation_after body = gb_generation_before body \<and> gb_world_after_sha256 body = gb_world_before_sha256 body"
    using sem by (auto simp: validate_semantics_def require_Inr_iff)
  moreover have "gb_transition_kind body \<in> {''commit'', ''mutate'', ''reconcile''} \<longrightarrow>
      (if gb_generation_before body = - 1 then gb_generation_after body = - 1
       else gb_generation_before body < gb_generation_after body \<and> gb_generation_after body = gb_generation_before body + 1)"
    using validate_body_generation [OF valid] saturating_add_one [of "gb_generation_before body"]
      word_less_suc [of "gb_generation_before body"] by simp
  ultimately show ?thesis using envelope_build_verifies [OF assms] validate_body_kind [OF valid] env by blast
qed

lemma gov_built: "envelope_build gov_env gov_body = Inr gov_envelope"
  by (simp add: envelope_build_def gov_body_valid gov_digest_def gov_env_def map_err_def gov_envelope_def sample_ref_def)

theorem built_envelope_rules_witness:
  "envelope_build gov_env gov_body = Inr gov_envelope \<and> envelope_verify gov_env gov_envelope = Inr ()
   \<and> gb_generation_after gov_body = 0"
  using gov_built built_envelope_rules [OF gov_built] by (simp add: gov_body_def)

section \<open>Receipts\<close>

text \<open>The ledger root after the append of a run, whatever became of the rest of it.\<close>

lemma governance_after_append:
  assumes inv: "run_inv (gv_ledger env) l acked (Suc 0)" and frames: "event_frames_ok (gv_ledger env)"
    and app: "ledger_append (gv_ledger env) io fp (governance_input envelope) l = (l1, Inr event)"
    and snap: "write_snapshot (gv_ledger env) issued plan l1 = (l2, plan', r)"
  shows "\<exists>dk l'. ledger_open (gv_ledger env) root (store_drop (tl_store l2)) = (dk, Inr l') \<and> tl_state l' = tl_state l1
    \<and> bt_contains_key (ls_record_owners (tl_state l')) (ge_envelope_ref envelope)
    \<and> head_event_hash l' = Some (te_event_hash event)"
proof -
  obtain segs where "ledger_rep (gv_ledger env) l1 segs"
    using run_inv_append [OF inv frames app] by (auto simp: run_inv_def)
  from write_snapshot_rep [OF this snap] obtain dk l' where
      l': "ledger_open (gv_ledger env) root (store_drop (tl_store l2)) = (dk, Inr l')" "tl_state l' = tl_state l1"
    using ledger_reopen [of "gv_ledger env" l2 segs root] by auto
  note ev = ledger_append_event [OF app]
  have "bt_get (ls_record_owners (tl_state l1)) (ge_envelope_ref envelope) \<noteq> None"
    using ev(1) by (rule apply_event_shape) (use ev(2) in simp)
  then show ?thesis
    using l' apply_event_head [OF ev(1)] by (auto simp: bt_contains_key_def head_event_hash_def)
qed

text \<open>The ledgers that come out of a root later, by opening it, appending, taking snapshots, closing and
  opening again, and opening again after an append that poisoned the ledger; \<open>n\<close> counts the appends that
  reached the store.\<close>

inductive ledger_later :: "'h transition_env \<Rightarrow> string \<Rightarrow> disk \<Rightarrow> TrustworthyTransitionLedger \<Rightarrow> nat \<Rightarrow> bool"
  for env root dk where
  opened: "ledger_open env root dk = (dk1, Inr l) \<Longrightarrow> ledger_later env root dk l 0"
| acknowledged: "ledger_later env root dk l n \<Longrightarrow> ledger_append env io fp input l = (l', Inr event) \<Longrightarrow>
    ledger_later env root dk l' (Suc n)"
| snapshot: "ledger_later env root dk l n \<Longrightarrow> write_snapshot env t plan l = (l', plan', r) \<Longrightarrow> ledger_later env root dk l' n"
| crash_safe_snapshot: "ledger_later env root dk l n \<Longrightarrow> write_snapshot_crash_safe env t plan l = (l', r) \<Longrightarrow>
    ledger_later env root dk l' n"
| restart: "ledger_later env root dk l n \<Longrightarrow> ledger_open env root (store_drop (tl_store l)) = (dk1, Inr l') \<Longrightarrow>
    ledger_later env root dk l' n"
| failed: "ledger_later env root dk l n \<Longrightarrow> ledger_append env io fp input l = (l', Inl e) \<Longrightarrow> tl_poisoned l' \<Longrightarrow>
    ledger_open env root (store_drop (tl_store l')) = (dk1, Inr l'') \<Longrightarrow> ledger_later env root dk l'' (Suc n)"

lemma later_run:
  assumes "ledger_later env root (store_drop (tl_store l)) l' n" "ledger_run env root l acked k"
  shows "\<exists>more_acked. ledger_run env root l' (acked @ more_acked) (k + n)"
  using assms(1)
proof induction
  case (opened dk1 l')
  then have "ledger_run env root l' (acked @ []) (k + 0)" using ledger_run.restart [OF assms(2)] by simp
  then show ?case by blast
next
  case (acknowledged l n io fp input l' event)
  then show ?case by (metis append.assoc add_Suc_right ledger_run.acknowledged)
next
  case (snapshot l n t plan l' plan' r)
  then show ?case using ledger_run.snapshot by blast
next
  case (crash_safe_snapshot l n t plan l' r)
  then show ?case using ledger_run.crash_safe_snapshot by blast
next
  case (restart l n dk1 l')
  then show ?case using ledger_run.restart by blast
next
  case (failed l n io fp input l' e dk1 l'')
  then show ?case by (metis add_Suc_right ledger_run.failed)
qed

lemma recorded_envelope_refused:
  assumes "ledger_run (gv_ledger env) root l acked k" "k + 1 < 2 ^ 64"
    and "crc_streaming (env_crc (gv_ledger env))" "transition_codec (gv_ledger env)" "event_frames_ok (gv_ledger env)"
    and "event \<in> set acked" "event_ref event = ge_envelope_ref envelope"
  shows "\<exists>e. snd (append_governance_checkpoint env io fp plan root envelope signer issued (store_drop (tl_store l))) = Inl e"
proof -
  have inv: "run_inv (gv_ledger env) l acked 0" using ledger_run_inv [OF assms(1,3-5), of 0] assms(2) by simp
  then obtain segs events where l: "ledger_rep (gv_ledger env) l segs"
      "fold_result (apply_event (gv_ledger env)) ledger_default events = Inr (tl_state l)" "subseq acked events"
    by (auto simp: run_inv_def)
  have "event \<in> set events" using list_emb_set [OF l(3) assms(6)] by metis
  then have "bt_contains_key (ls_record_owners (tl_state l)) (ge_envelope_ref envelope)"
    using replay_record_owners [OF l(2)] unfolding bt_contains_key_def assms(7) [symmetric] by blast
  then show ?thesis using ledger_reopen [OF l(1), of root] governance_duplicate by metis
qed

text \<open>C20: A receipt is backed by the disk.  When a run on the root of a ledger returns a bundle, the root
  opens again with the envelope's event as its head; the receipt verifies and names that event, the
  envelope and the checkpoint; the checkpoint verifies under the returned key alone and its chain head
  is the event.  Submitting the same envelope again always fails, on the root as the run left it and on the
  root after any later openings, appends, snapshots and failed appends.\<close>

theorem governance_receipt_durable:
  assumes run: "ledger_run (gv_ledger env) root l acked k" "k + 2 < 2 ^ 64"
    and env: "crc_streaming (env_crc (gv_ledger env))" "transition_codec (gv_ledger env)" "event_frames_ok (gv_ledger env)"
    and call: "append_governance_checkpoint env io fp plan root envelope signer issued (store_drop (tl_store l)) = (dk', Inr r)"
  shows "\<exists>dk'' l' registry. ledger_open (gv_ledger env) root dk' = (dk'', Inr l')
    \<and> head_event_hash l' = Some (rb_event_hash (gr_body (gc_receipt r)))
    \<and> receipt_verify env (gc_receipt r) = Inr ()
    \<and> rb_envelope_ref (gr_body (gc_receipt r)) = ge_envelope_ref envelope
    \<and> rb_checkpoint_ref (gr_body (gc_receipt r)) = sm_manifest_ref (gc_checkpoint r)
    \<and> registry_insert (gc_trusted_key r) [] = Inr registry
    \<and> verify_signed_checkpoint (gv_checkpoint env) (gc_checkpoint r) registry issued = Inr ()
    \<and> mb_event_chain_head (sm_body (gc_checkpoint r)) = rb_event_hash (gr_body (gc_receipt r))
    \<and> (\<forall>io fp plan signer issued. \<exists>e. snd (append_governance_checkpoint env io fp plan root envelope signer issued dk') = Inl e)
    \<and> (\<forall>later n io fp plan signer issued. ledger_later (gv_ledger env) root dk' later n \<longrightarrow> k + n + 2 < 2 ^ 64 \<longrightarrow>
         (\<exists>e. snd (append_governance_checkpoint env io fp plan root envelope signer issued (store_drop (tl_store later))) = Inl e))"
proof -
  obtain dk1 l0 event l1 l2 plan' info where
    opened: "ledger_open (gv_ledger env) root (store_drop (tl_store l)) = (dk1, Inr l0)" and
    app: "ledger_append (gv_ledger env) io fp (governance_input envelope) l0 = (l1, Inr event)" and
    snap: "write_snapshot (gv_ledger env) issued plan l1 = (l2, plan', Inr info)" and
    rcpt: "issue_receipt env envelope signer issued event l2 info = Inr r" and dk': "dk' = store_drop (tl_store l2)"
    using call by (rule append_governance_Inr)
  have inv: "run_inv (gv_ledger env) l0 acked (Suc 0)"
    using ledger_run_inv [OF ledger_run.restart [OF run(1) opened] env, of "Suc 0"] run(2) by simp
  obtain dk'' l' where l': "ledger_open (gv_ledger env) root dk' = (dk'', Inr l')" "tl_state l' = tl_state l1"
      "bt_contains_key (ls_record_owners (tl_state l')) (ge_envelope_ref envelope)"
      "head_event_hash l' = Some (te_event_hash event)"
    using governance_after_append [OF inv env(3) app snap, of root] dk' by blast
  obtain m checkpoint registry where
    m: "checkpoint_material (gv_ledger env) l2 (''sha256:'' @ gb_root_id_sha256 (ge_body envelope)) info = Inr m" and
    sign: "sign_checkpoint (gv_checkpoint env) signer m issued None None = Inr checkpoint" and
    b: "registry_insert (gc_trusted_key r) [] = Inr registry"
      "verify_signed_checkpoint (gv_checkpoint env) (gc_checkpoint r) registry issued = Inr ()"
      "receipt_verify env (gc_receipt r) = Inr ()" "gr_body (gc_receipt r) = receipt_body_of envelope event checkpoint"
      "gc_checkpoint r = checkpoint"
    using rcpt by (rule issue_receipt_Inr) auto
  have "tl_state l2 = tl_state l1"
    using inv run_inv_append [OF inv env(3) app] write_snapshot_rep [OF _ snap] by (auto simp: run_inv_def)
  then have "cm_event_chain_head m = te_event_hash event"
    using checkpoint_material_head [OF m] l'(2,4) by (simp add: head_event_hash_def)
  moreover have "mb_event_chain_head (sm_body checkpoint) = cm_event_chain_head m"
    using sign by (rule sign_checkpoint_Inr) (simp add: manifest_body_of_def)
  moreover have "\<exists>e. snd (append_governance_checkpoint env io fp plan root envelope signer issued (store_drop (tl_store later))) = Inl e"
    if later: "ledger_later (gv_ledger env) root dk' later n" and n: "k + n + 2 < 2 ^ 64" for later n io fp plan signer issued
  proof -
    have "ledger_run (gv_ledger env) root l2 (acked @ [event]) (Suc k)"
      by (rule ledger_run.snapshot [OF ledger_run.acknowledged [OF ledger_run.restart [OF run(1) opened] app] snap])
    from later_run [OF later [unfolded dk'] this] obtain xs where "ledger_run (gv_ledger env) root later ((acked @ [event]) @ xs) (Suc k + n)" by blast
    moreover have "event_ref event = ge_envelope_ref envelope" using ledger_append_event(2) [OF app] by simp
    moreover have "Suc k + n + 1 < 2 ^ 64" "event \<in> set ((acked @ [event]) @ xs)" using n by simp_all
    ultimately show ?thesis using env by (intro recorded_envelope_refused [where event = event])
  qed
  ultimately show ?thesis
    using l'(1,4) b governance_duplicate [OF l'(1,3)] by (auto simp: receipt_body_of_def Let_def)
qed

lemma gov_call:
  "\<exists>r. append_governance_checkpoint gov_env no_faults Disabled [] ''r'' gov_envelope sample_signer 5
       (store_drop (tl_store (gov_ledger [] ledger_default))) = (store_drop (tl_store gov_ledger2), Inr r)"
proof -
  have "rbind (envelope_verify gov_env gov_envelope) (\<lambda>_.
      require (\<not> 5 < gb_captured_at_ms (ge_body gov_envelope)) (GovernanceInvalidField ''issued_at_ms'')) = Inr ()"
    by (simp add: gov_verified require_def gov_body_def)
  moreover have "tl_store (gov_ledger [] ledger_default) = log_store crc32 [] []" by (simp add: gov_ledger_def)
  ultimately show ?thesis
    using gov_open(2) gov_append gov_snapshot_taken gov_receipt_issued by (simp add: append_governance_checkpoint_def)
qed

theorem governance_receipt_durable_witness:
  "\<exists>dk' r dk'' l'. append_governance_checkpoint gov_env no_faults Disabled [] ''r'' gov_envelope sample_signer 5
       (store_drop (tl_store (gov_ledger [] ledger_default))) = (dk', Inr r)
    \<and> ledger_open (gv_ledger gov_env) ''r'' dk' = (dk'', Inr l')
    \<and> head_event_hash l' = Some (rb_event_hash (gr_body (gc_receipt r))) \<and> receipt_verify gov_env (gc_receipt r) = Inr ()"
proof -
  obtain dk' r where call: "append_governance_checkpoint gov_env no_faults Disabled [] ''r'' gov_envelope sample_signer 5
       (store_drop (tl_store (gov_ledger [] ledger_default))) = (dk', Inr r)"
    using gov_call by blast
  then show ?thesis using governance_receipt_durable [OF gov_run _ _ _ _ call] by auto
qed

text \<open>An envelope whose run failed after the append can never get a receipt.  When the event was
  appended and anything after it failed, the snapshot included, the envelope is in the ledger, so
  every later submission of it to that root fails, whatever the clock, the signer and the state of the
  disk.\<close>

theorem governance_failure_is_final:
  assumes run: "ledger_run (gv_ledger env) root l acked k" "k + 2 < 2 ^ 64"
    and env: "crc_streaming (env_crc (gv_ledger env))" "transition_codec (gv_ledger env)" "event_frames_ok (gv_ledger env)"
    and opened: "ledger_open (gv_ledger env) root (store_drop (tl_store l)) = (dk1, Inr l0)"
    and app: "ledger_append (gv_ledger env) io fp (governance_input envelope) l0 = (l1, Inr event)"
    and call: "append_governance_checkpoint env io fp plan root envelope signer issued (store_drop (tl_store l)) = (dk', Inl e)"
    and ok: "envelope_verify env envelope = Inr ()" "gb_captured_at_ms (ge_body envelope) \<le> issued"
  shows "\<exists>e'. snd (append_governance_checkpoint env io' fp' plan' root envelope signer' issued' dk') = Inl e'"
proof -
  have inv: "run_inv (gv_ledger env) l0 acked (Suc 0)"
    using ledger_run_inv [OF ledger_run.restart [OF run(1) opened] env, of "Suc 0"] run(2) by simp
  obtain l2 plan2 q where snap: "write_snapshot (gv_ledger env) issued plan l1 = (l2, plan2, q)"
    by (cases "write_snapshot (gv_ledger env) issued plan l1")
  have "dk' = store_drop (tl_store l2)"
    using call opened app snap ok by (auto simp: append_governance_checkpoint_def require_def not_less split: sum.splits)
  then show ?thesis
    using governance_after_append [OF inv env(3) app snap, of root] governance_duplicate by metis
qed

lemma gov_replace_fails:
  "replace_snapshot_bytes_crash_safe SNAPSHOT_FILE [0] \<lparr>sf_dir = [], sf_plan = [FailWith 28]\<rparr> =
     (\<lparr>sf_dir = [], sf_plan = []\<rparr>, Inl IoFailure)"
  by code_simp

lemma gov_call_fails:
  "\<exists>dk'. append_governance_checkpoint gov_env no_faults Disabled [FailWith 28] ''r'' gov_envelope sample_signer 5
       (store_drop (tl_store (gov_ledger [] ledger_default))) =
     (dk', Inl (GovernanceLedger (Storage (SnapshotFailure IoFailure))))"
proof -
  have "write_snapshot (gv_ledger gov_env) 5 [FailWith 28] (gov_ledger [[0]] gov_state) =
     (with_snap_dir [] (gov_ledger [[0]] gov_state), [], Inl (Storage (SnapshotFailure IoFailure)))"
    using gov_prepared_snapshot gov_replace_fails by (simp add: write_snapshot_def gov_ledger_def log_store_def)
  moreover have "tl_store (gov_ledger [] ledger_default) = log_store crc32 [] []" by (simp add: gov_ledger_def)
  ultimately show ?thesis
    using gov_open(2) gov_append gov_verified by (simp add: append_governance_checkpoint_def require_def gov_body_def)
qed

theorem governance_failure_is_final_witness:
  "\<exists>dk' e'. append_governance_checkpoint gov_env no_faults Disabled [FailWith 28] ''r'' gov_envelope sample_signer 5
       (store_drop (tl_store (gov_ledger [] ledger_default))) =
     (dk', Inl (GovernanceLedger (Storage (SnapshotFailure IoFailure))))
   \<and> snd (append_governance_checkpoint gov_env no_faults Disabled [] ''r'' gov_envelope sample_signer 6 dk') = Inl e'"
proof -
  obtain dk' where call: "append_governance_checkpoint gov_env no_faults Disabled [FailWith 28] ''r'' gov_envelope sample_signer 5
       (store_drop (tl_store (gov_ledger [] ledger_default))) =
     (dk', Inl (GovernanceLedger (Storage (SnapshotFailure IoFailure))))"
    using gov_call_fails by blast
  have opened: "ledger_open (gv_ledger gov_env) ''r'' (store_drop (tl_store (gov_ledger [] ledger_default))) =
      (st_disk (log_store crc32 [] []), Inr (gov_ledger [] ledger_default))"
    using gov_open(2) by (simp add: gov_ledger_def)
  have "gb_captured_at_ms (ge_body gov_envelope) \<le> 5" by (simp add: gov_body_def)
  from governance_failure_is_final [OF gov_run _ _ _ _ opened gov_append call gov_verified this] call
  show ?thesis by auto
qed

end
