(* ===== verification/Journal.thy ===== *)
theory Journal
  imports Append_Log
begin

text \<open>
  The journal of the cluster field, \<open>journal_impl.rs\<close>: deltas appended to the store, snapshots with
  a manifest that names the WAL position they cover, recovery from the latest snapshot, and garbage
  collection.  The cluster field itself and its deltas are not modelled here: the functions
  \<open>encode_delta\<close>, \<open>create_snapshot\<close> and \<open>load_snapshot\<close> and the manifest's serde instance are
  arguments.  The mutex makes each operation one step; the two atomics are counters.
\<close>

section \<open>Operations\<close>

record ('delta, 'field, 'seed) journal_env =
  je_encode_delta :: "'delta \<Rightarrow> string + bytes"
  je_create_snapshot :: "'field \<Rightarrow> string + bytes"
  je_load_snapshot :: "bytes \<Rightarrow> string + 'seed"
  je_ser_manifest :: "StoreManifest \<Rightarrow> string + bytes"
  je_de_manifest :: "bytes \<Rightarrow> string + StoreManifest"

record SnapshotInfo =
  jn_id :: nat
  jn_path :: string
  jn_offset :: offset
  jn_size_bytes :: nat

record StoreStats =
  ss_current_segment :: nat
  ss_current_position :: nat
  ss_wal_segments :: "nat list"
  ss_last_snapshot :: "nat option"
  ss_delta_since_snapshot :: u64

record DiskJournal =
  dj_store :: store
  dj_delta_counter :: u64
  dj_last_snapshot_id :: nat

definition journal_open :: "'h crc_hasher \<Rightarrow> disk \<Rightarrow> disk \<times> (wal_error + DiskJournal)" where
  "journal_open crc dk =
     (case store_open crc dk of
        (dk', Inl e) \<Rightarrow> (dk', Inl e)
      | (dk', Inr s) \<Rightarrow>
          let ids = list_snapshots (Some (d_snap (st_disk s)))
          in (dk', Inr \<lparr>dj_store = s, dj_delta_counter = 0,
                        dj_last_snapshot_id = (if ids = [] then 0 else Max (set ids))\<rparr>))"

definition journal_append_delta :: "('delta, 'field, 'seed) journal_env \<Rightarrow> 'h crc_hasher \<Rightarrow> io_env \<Rightarrow> AppendFailpoint \<Rightarrow>
    'delta \<Rightarrow> DiskJournal \<Rightarrow> DiskJournal" where
  "journal_append_delta env crc io fp delta j =
     (case je_encode_delta env delta of
        Inl _ \<Rightarrow> j
      | Inr bs \<Rightarrow>
          (case store_append crc io fp bs (dj_store j) of
             (s, Inl _) \<Rightarrow> j\<lparr>dj_store := s\<rparr>
           | (s, Inr _) \<Rightarrow> j\<lparr>dj_store := s, dj_delta_counter := dj_delta_counter j + 1\<rparr>))"

text \<open>The faults of the two writes of a snapshot, of its file and of the manifest.\<close>

record snapshot_faults =
  sn_file :: "write_fault option"
  sn_manifest :: "write_fault option"

definition no_snapshot_faults :: snapshot_faults where
  "no_snapshot_faults = \<lparr>sn_file = None, sn_manifest = None\<rparr>"

definition write_snapshot_file :: "write_fault option \<Rightarrow> string \<Rightarrow> bytes \<Rightarrow> store \<Rightarrow> (store, wal_error, unit) outcome" where
  "write_snapshot_file fault name bs s =
     (let d = d_snap (st_disk s);
          fault = (if bt_get d name = Some OtherEntry then Some NotOpened else fault);
          d' = (case fault of
                  None \<Rightarrow> bt_insert name (RegularFile bs) d
                | Some NotOpened \<Rightarrow> d
                | Some (StoppedAfter k) \<Rightarrow> bt_insert name (RegularFile (take k bs)) d)
      in (s\<lparr>st_disk := (st_disk s)\<lparr>d_snap := d'\<rparr>\<rparr>, require (fault = None) (SnapshotIo name)))"

definition journal_write_snapshot :: "('delta, 'field, 'seed) journal_env \<Rightarrow> snapshot_faults \<Rightarrow> 'field \<Rightarrow> DiskJournal \<Rightarrow>
    (DiskJournal, wal_error, SnapshotInfo) outcome" where
  "journal_write_snapshot env faults field j =
     (let s = dj_store j
      in case je_create_snapshot env field of
           Inl e \<Rightarrow> (j, Inl (SnapshotIo e))
         | Inr bs \<Rightarrow>
             let offset = end_offset s;
                 id = next_snapshot_id s;
                 name = snapshot_file_path id;
                 manifest = \<lparr>last_snapshot = Some name, wal_segment = segment offset, wal_position = position offset\<rparr>
             in (case write_snapshot_file (sn_file faults) name bs s of
                   (s1, Inl e) \<Rightarrow> (j\<lparr>dj_store := s1\<rparr>, Inl e)
                 | (s1, Inr _) \<Rightarrow>
                     (case write_manifest (je_ser_manifest env) (sn_manifest faults) manifest s1 of
                        (s2, Inl e) \<Rightarrow> (j\<lparr>dj_store := s2\<rparr>, Inl e)
                      | (s2, Inr _) \<Rightarrow>
                          (j\<lparr>dj_store := s2, dj_delta_counter := 0, dj_last_snapshot_id := id\<rparr>,
                           Inr \<lparr>jn_id = id, jn_path = name, jn_offset = offset, jn_size_bytes = length bs\<rparr>))))"

definition journal_load_latest_snapshot :: "('delta, 'field, 'seed) journal_env \<Rightarrow> DiskJournal \<Rightarrow>
    (DiskJournal, wal_error, ('seed \<times> offset) option) outcome" where
  "journal_load_latest_snapshot env j =
     (case read_manifest (je_de_manifest env) (dj_store j) of
        Inl e \<Rightarrow> (j, Inl e)
      | Inr None \<Rightarrow> (j, Inr None)
      | Inr (Some manifest) \<Rightarrow>
          (case last_snapshot manifest of
             None \<Rightarrow> (j, Inr None)
           | Some name \<Rightarrow>
               (case dir_file (d_snap (st_disk (dj_store j))) name of
                  None \<Rightarrow> (j, Inl (SnapshotIo name))
                | Some bs \<Rightarrow>
                    (case je_load_snapshot env bs of
                       Inl e \<Rightarrow> (j, Inl (SnapshotIo e))
                     | Inr seed \<Rightarrow>
                         let j1 = (case parse_u64 (file_stem name) of
                                     Some stem \<Rightarrow> j\<lparr>dj_last_snapshot_id := stem\<rparr> | None \<Rightarrow> j)
                         in (j1\<lparr>dj_delta_counter := 0\<rparr>,
                             Inr (Some (seed, Offset (wal_segment manifest) (wal_position manifest))))))))"

definition journal_run_gc :: "offset \<Rightarrow> DiskJournal \<Rightarrow> DiskJournal" where
  "journal_run_gc since j = j\<lparr>dj_store := gc_compact (dj_store j) since\<rparr>"

definition journal_last_snapshot_id :: "DiskJournal \<Rightarrow> nat option" where
  "journal_last_snapshot_id j = (if dj_last_snapshot_id j = 0 then None else Some (dj_last_snapshot_id j))"

definition journal_stats :: "DiskJournal \<Rightarrow> StoreStats" where
  "journal_stats j =
     \<lparr>ss_current_segment = segment (end_offset (dj_store j)), ss_current_position = position (end_offset (dj_store j)),
      ss_wal_segments = list_segments (Some (d_data (st_disk (dj_store j)))),
      ss_last_snapshot = journal_last_snapshot_id j, ss_delta_since_snapshot = dj_delta_counter j\<rparr>"

section \<open>Recovery from a snapshot\<close>

text \<open>What the journal relies on in the codecs.\<close>

definition journal_codec :: "('delta, 'field, 'seed) journal_env \<Rightarrow> ('field \<Rightarrow> 'seed) \<Rightarrow> bool" where
  "journal_codec env seed_of \<longleftrightarrow>
     (\<forall>m bs. je_ser_manifest env m = Inr bs \<longrightarrow> je_de_manifest env bs = Inr m) \<and>
     (\<forall>f bs. je_create_snapshot env f = Inr bs \<longrightarrow> je_load_snapshot env bs = Inr (seed_of f))"

text \<open>The latest snapshot of a journal: its manifest names a file with a loadable seed.\<close>

definition snapshot_installed :: "('delta, 'field, 'seed) journal_env \<Rightarrow> disk \<Rightarrow> 'seed \<Rightarrow> offset \<Rightarrow> bool" where
  "snapshot_installed env dk seed off \<longleftrightarrow>
     (\<exists>mb m name bs. d_manifest dk = Some mb \<and> je_de_manifest env mb = Inr m \<and> last_snapshot m = Some name
        \<and> dir_file (d_snap dk) name = Some bs \<and> je_load_snapshot env bs = Inr seed
        \<and> off = Offset (wal_segment m) (wal_position m))"

lemma load_installed:
  assumes "snapshot_installed env (st_disk (dj_store j)) seed off"
  shows "\<exists>j'. journal_load_latest_snapshot env j = (j', Inr (Some (seed, off))) \<and> dj_store j' = dj_store j
    \<and> dj_delta_counter j' = 0"
  using assms
  by (auto simp: snapshot_installed_def journal_load_latest_snapshot_def read_manifest_def Let_def
      split: option.split)

lemma write_installs:
  assumes "journal_codec env seed_of" "journal_write_snapshot env faults field j = (j', Inr info)"
  shows "snapshot_installed env (st_disk (dj_store j')) (seed_of field) (jn_offset info)"
    "jn_offset info = end_offset (dj_store j)" "d_data (st_disk (dj_store j')) = d_data (st_disk (dj_store j))"
    "st_writer (dj_store j') = st_writer (dj_store j)" "dj_delta_counter j' = 0"
  using assms
  by (auto simp: journal_write_snapshot_def write_snapshot_file_def write_manifest_def snapshot_installed_def journal_codec_def
      Let_def dir_file_def require_def split: sum.splits if_splits)

lemma append_keeps_snapshot:
  assumes "snapshot_installed env (st_disk (dj_store j)) seed off"
  shows "snapshot_installed env (st_disk (dj_store (journal_append_delta env' crc io fp delta j))) seed off"
proof -
  have "d_snap (st_disk s') = d_snap (st_disk s) \<and> d_manifest (st_disk s') = d_manifest (st_disk s)"
    if "store_append crc io fp b s = (s', r)" for b s s' r
    using that by (cases "snd (writer_append crc io fp b (d_data (st_disk s), st_writer s))")
      (auto simp: store_append_def Let_def io_step_def check_def require_def split: if_splits prod.splits)
  then show ?thesis
    using assms
    by (auto simp: journal_append_delta_def snapshot_installed_def split: sum.splits prod.splits)
qed

lemma gc_keeps_snapshot:
  "snapshot_installed env (st_disk (dj_store (journal_run_gc since j))) seed off \<longleftrightarrow>
   snapshot_installed env (st_disk (dj_store j)) seed off"
  by (simp add: snapshot_installed_def journal_run_gc_def gc_compact_def Let_def)

text \<open>A run of deltas that are all acknowledged.\<close>

lemma append_delta_ok:
  assumes "store_rep crc (dj_store j) segs" "segment_room segs (Suc n)"
    and "je_encode_delta env delta = Inr b" "frame_ok b"
  shows "\<exists>segs'. store_rep crc (dj_store (journal_append_delta env crc (\<lambda>_. None) Disabled delta j)) segs'
    \<and> segment_room segs' n \<and> segs_le segs segs' \<and> log_of segs' = log_of segs @ [b]
    \<and> dj_delta_counter (journal_append_delta env crc (\<lambda>_. None) Disabled delta j) = dj_delta_counter j + 1"
proof -
  obtain s off where app: "store_append crc (\<lambda>_. None) Disabled b (dj_store j) = (s, Inr off)"
    using store_append_succeeds [OF assms(1), of "\<lambda>_. None" b] by auto
  from store_append_ok [OF assms(1,4,2) app] show ?thesis
    by (simp add: journal_append_delta_def assms(3) app)
qed

definition append_deltas :: "('delta, 'field, 'seed) journal_env \<Rightarrow> 'h crc_hasher \<Rightarrow> 'delta list \<Rightarrow> DiskJournal \<Rightarrow> DiskJournal" where
  "append_deltas env crc deltas j = fold (journal_append_delta env crc (\<lambda>_. None) Disabled) deltas j"

lemma append_deltas_ok:
  assumes "store_rep crc (dj_store j) segs" "segment_room segs (length deltas)"
    and "list_all2 (\<lambda>delta b. je_encode_delta env delta = Inr b \<and> frame_ok b) deltas bs"
    and "snapshot_installed env (st_disk (dj_store j)) seed off"
  shows "\<exists>segs'. store_rep crc (dj_store (append_deltas env crc deltas j)) segs'
    \<and> (segs' = segs \<or> segs_le segs segs') \<and> log_of segs' = log_of segs @ bs
    \<and> dj_delta_counter (append_deltas env crc deltas j) = dj_delta_counter j + of_nat (length deltas)
    \<and> snapshot_installed env (st_disk (dj_store (append_deltas env crc deltas j))) seed off"
  using assms
proof (induction deltas arbitrary: j segs bs)
  case Nil
  then show ?case by (auto simp: append_deltas_def)
next
  case (Cons delta deltas)
  let ?j = "journal_append_delta env crc (\<lambda>_. None) Disabled delta j"
  obtain b bs' where b: "bs = b # bs'" "je_encode_delta env delta = Inr b" "frame_ok b"
      "list_all2 (\<lambda>delta b. je_encode_delta env delta = Inr b \<and> frame_ok b) deltas bs'"
    using Cons.prems(3) by (auto simp: list_all2_Cons1)
  have room: "segment_room segs (Suc (length deltas))" using Cons.prems(2) by simp
  obtain segs1 where s1: "store_rep crc (dj_store ?j) segs1" "segment_room segs1 (length deltas)"
      "segs_le segs segs1" "log_of segs1 = log_of segs @ [b]" "dj_delta_counter ?j = dj_delta_counter j + 1"
    using append_delta_ok [OF Cons.prems(1) room b(2,3)] by blast
  have "snapshot_installed env (st_disk (dj_store ?j)) seed off"
    by (rule append_keeps_snapshot [OF Cons.prems(4)])
  from Cons.IH [OF s1(1,2) b(4) this] obtain segs' where
      "store_rep crc (dj_store (append_deltas env crc deltas ?j)) segs'" "segs' = segs1 \<or> segs_le segs1 segs'"
      "log_of segs' = log_of segs1 @ bs'"
      "dj_delta_counter (append_deltas env crc deltas ?j) = dj_delta_counter ?j + of_nat (length deltas)"
      "snapshot_installed env (st_disk (dj_store (append_deltas env crc deltas ?j))) seed off" by blast
  then show ?case
    using s1 b(1) segs_le_trans [OF s1(3)] by (auto simp: append_deltas_def)
qed

section \<open>Garbage collection\<close>

text \<open>Collecting the segments before an offset keeps the records after it.\<close>

lemma offset_gc:
  assumes rep: "store_rep crc s segs" and off: "offset_at crc segs off n"
  shows "\<exists>n'. offset_at crc (filter (\<lambda>e. segment off \<le> fst e) segs) off n'
    \<and> drop n' (log_of (filter (\<lambda>e. segment off \<le> fst e) segs)) = drop n (log_of segs)
    \<and> segment off \<le> fst (last segs)"
proof -
  obtain bef g qs ps aft where a: "segs = bef @ (g, qs @ ps) # aft" "off = Offset g (length (frames crc qs))"
      "n = length (log_of bef @ qs)" using off by (auto simp: offset_at_def)
  have sorted: "sorted_wrt (<) (map fst segs)" using rep by (simp add: store_rep_def dir_rep_def)
  have less: "\<forall>e\<in>set bef. fst e < g" and more: "\<forall>e\<in>set aft. g < fst e"
    using sorted by (auto simp: a(1) sorted_wrt_append)
  have "filter (\<lambda>e. g \<le> fst e) bef = []" using less by (simp add: filter_empty_conv not_le)
  moreover have "filter (\<lambda>e. g \<le> fst e) aft = aft" using more by (simp add: filter_id_conv less_imp_le)
  ultimately have f: "filter (\<lambda>e. segment off \<le> fst e) segs = [] @ (g, qs @ ps) # aft" by (simp add: a)
  have "n' = length (log_of [] @ qs) \<Longrightarrow> offset_at crc ([] @ (g, qs @ ps) # aft) off n'" for n'
    unfolding offset_at_def a(2) by blast
  then have "offset_at crc (filter (\<lambda>e. segment off \<le> fst e) segs) off (length qs)"
    unfolding f by simp
  moreover have "g \<le> fst (last segs)"
  proof (cases "aft = []")
    case False
    then show ?thesis using more last_in_set [OF False] by (simp add: a(1) less_imp_le)
  qed (simp add: a(1))
  moreover have "drop (length qs) (log_of (filter (\<lambda>e. segment off \<le> fst e) segs)) = drop n (log_of segs)"
    unfolding f by (simp add: a)
  ultimately show ?thesis using a(2) by auto
qed

lemma replay_after_gc:
  fixes step :: "'t \<Rightarrow> bytes \<Rightarrow> 'f + 't"
  assumes rep: "store_rep crc s segs" and off: "offset_at crc segs off n"
  shows "replay_records crc h off step st (gc_compact s off) = replay_records crc h off step st s"
proof -
  obtain n' where n': "offset_at crc (filter (\<lambda>e. segment off \<le> fst e) segs) off n'"
      "drop n' (log_of (filter (\<lambda>e. segment off \<le> fst e) segs)) = drop n (log_of segs)"
      "segment off \<le> fst (last segs)"
    using offset_gc [OF assms] by blast
  show ?thesis
    unfolding wal.replay_pos [OF gc_compact_rep [OF rep n'(3)] n'(1)] wal.replay_pos [OF assms] n'(2) ..
qed

lemma store_rep_same_data:
  "d_data (st_disk s') = d_data (st_disk s) \<Longrightarrow> st_writer s' = st_writer s \<Longrightarrow>
     store_rep crc s' segs \<longleftrightarrow> store_rep crc s segs"
  by (simp add: store_rep_def)

lemma journal_recovery:
  fixes step :: "'t \<Rightarrow> bytes \<Rightarrow> 'f + 't"
  assumes rep: "store_rep crc (dj_store j) segs" and room: "segment_room segs (length deltas)"
    and codec: "journal_codec env seed_of"
    and snap: "journal_write_snapshot env faults field j = (j1, Inr info)"
    and deltas: "list_all2 (\<lambda>delta b. je_encode_delta env delta = Inr b \<and> frame_ok b) deltas bs"
    and j2: "j2 = journal_run_gc (jn_offset info) (append_deltas env crc deltas j1)"
  shows "\<exists>j3. journal_load_latest_snapshot env j2 = (j3, Inr (Some (seed_of field, jn_offset info)))
    \<and> replay_records crc h (jn_offset info) step st (dj_store j3) = fold_result step st bs"
proof -
  note w = write_installs [OF codec snap]
  have rep1: "store_rep crc (dj_store j1) segs" using rep w(3,4) by (simp add: store_rep_def)
  obtain segs' where a: "store_rep crc (dj_store (append_deltas env crc deltas j1)) segs'"
      "segs' = segs \<or> segs_le segs segs'" "log_of segs' = log_of segs @ bs"
      "snapshot_installed env (st_disk (dj_store (append_deltas env crc deltas j1))) (seed_of field) (jn_offset info)"
    using append_deltas_ok [OF rep1 room deltas w(1)] by blast
  have off: "offset_at crc segs' (jn_offset info) (length (log_of segs))"
    using wal.pos_end [OF rep] wal.pos_le a(2) w(2) by auto
  have "snapshot_installed env (st_disk (dj_store j2)) (seed_of field) (jn_offset info)"
    using a(4) by (simp only: j2 gc_keeps_snapshot)
  from load_installed [OF this] obtain j3 where
      j3: "journal_load_latest_snapshot env j2 = (j3, Inr (Some (seed_of field, jn_offset info)))"
        "dj_store j3 = dj_store j2" by blast
  have "replay_records crc h (jn_offset info) step st (dj_store j2) = fold_result step st bs"
    using replay_after_gc [OF a(1) off, of h step st] wal.replay_pos [OF a(1) off, of h step st] a(3)
    by (simp add: j2 journal_run_gc_def)
  then show ?thesis using j3 by auto
qed

end
