(* ===== verification/Access.thy ===== *)
theory Access
  imports BTree_Map
begin

text \<open>
  Namespaces, API keys and roles, \<open>liminal-core/src/security.rs\<close>.  A \<open>HashMap\<close> is a map keyed by
  strings; none of the operations depends on its iteration order.  The administration of the table
  is a step relation, and the properties of a disabled key hold along every run.  The token bucket of
  the same file computes with \<open>f64\<close> and is not modelled.
\<close>

section \<open>Data\<close>

datatype Role = Admin | Writer | Reader

fun permits :: "Role \<Rightarrow> Role \<Rightarrow> bool" where
  "permits Admin _ = True"
| "permits Writer required = (required = Writer \<or> required = Reader)"
| "permits Reader required = (required = Reader)"

record ApiKey =
  ak_id :: string
  ak_secret_hash :: bytes
  ak_role :: Role
  ak_ns :: string
  ak_created_ms :: u64
  ak_disabled :: bool

definition api_key_new :: "string \<Rightarrow> bytes \<Rightarrow> Role \<Rightarrow> string \<Rightarrow> u64 \<Rightarrow> ApiKey" where
  "api_key_new kid secret_hash role ns created_ms =
     \<lparr>ak_id = kid, ak_secret_hash = secret_hash, ak_role = role, ak_ns = ns, ak_created_ms = created_ms,
      ak_disabled = False\<rparr>"

record Quotas =
  q_rps :: u32
  q_burst :: u32
  q_max_cells :: u32
  q_max_views :: u32

definition quotas_default :: Quotas where
  "quotas_default = \<lparr>q_rps = 0, q_burst = 0, q_max_cells = 0, q_max_views = 0\<rparr>"

record Access =
  ac_keys :: "(string, ApiKey) btree_map"
  ac_ns_quotas :: "(string, Quotas) btree_map"

definition access_new :: Access where
  "access_new = \<lparr>ac_keys = [], ac_ns_quotas = []\<rparr>"

datatype AccessError =
  AccessUnknownKey string
  | KeyDisabled string
  | KeyExists string
  | UnknownNamespace string
  | WrongNamespace string string string
  | Forbidden string Role Role

section \<open>Operations\<close>

definition register_namespace :: "string \<Rightarrow> Access \<Rightarrow> Access" where
  "register_namespace ns a =
     (if bt_contains_key (ac_ns_quotas a) ns then a
      else a\<lparr>ac_ns_quotas := bt_insert ns quotas_default (ac_ns_quotas a)\<rparr>)"

definition set_quota :: "string \<Rightarrow> Quotas \<Rightarrow> Access \<Rightarrow> Access" where
  "set_quota ns quota a = a\<lparr>ac_ns_quotas := bt_insert ns quota (ac_ns_quotas a)\<rparr>"

definition add_key :: "ApiKey \<Rightarrow> Access \<Rightarrow> AccessError + Access" where
  "add_key key a =
     rbind (require (\<not> bt_contains_key (ac_keys a) (ak_id key)) (KeyExists (ak_id key))) (\<lambda>_.
     rbind (require (bt_contains_key (ac_ns_quotas a) (ak_ns key)) (UnknownNamespace (ak_ns key))) (\<lambda>_.
       Inr (a\<lparr>ac_keys := bt_insert (ak_id key) key (ac_keys a)\<rparr>)))"

definition disable_key :: "string \<Rightarrow> Access \<Rightarrow> AccessError + Access" where
  "disable_key key_id a =
     (case bt_get (ac_keys a) key_id of
        Some key \<Rightarrow> Inr (a\<lparr>ac_keys := bt_insert key_id (key\<lparr>ak_disabled := True\<rparr>) (ac_keys a)\<rparr>)
      | None \<Rightarrow> Inl (AccessUnknownKey key_id))"

definition authorize :: "string \<Rightarrow> Role \<Rightarrow> string \<Rightarrow> Access \<Rightarrow> AccessError + Role" where
  "authorize key_id required ns a =
     rbind (ok_or (AccessUnknownKey key_id) (bt_get (ac_keys a) key_id)) (\<lambda>key.
     rbind (require (\<not> ak_disabled key) (KeyDisabled key_id)) (\<lambda>_.
     rbind (require (ak_ns key = ns) (WrongNamespace key_id (ak_ns key) ns)) (\<lambda>_.
     rbind (require (permits (ak_role key) required) (Forbidden key_id (ak_role key) required)) (\<lambda>_.
       Inr (ak_role key)))))"

section \<open>Administration as a step relation\<close>

inductive access_step :: "Access \<Rightarrow> Access \<Rightarrow> bool" where
  register: "access_step a (register_namespace ns a)"
| quota: "access_step a (set_quota ns quota a)"
| add: "add_key key a = Inr a' \<Longrightarrow> access_step a a'"
| disable: "disable_key key_id a = Inr a' \<Longrightarrow> access_step a a'"

inductive_cases access_stepE: "access_step a a'"

definition access_inv :: "Access \<Rightarrow> bool" where
  "access_inv a \<longleftrightarrow>
     (\<forall>k key. bt_get (ac_keys a) k = Some key \<longrightarrow> ak_id key = k \<and> bt_contains_key (ac_ns_quotas a) (ak_ns key))"

lemma access_inv_new [simp]: "access_inv access_new"
  by (simp add: access_inv_def access_new_def)

lemma access_step_inv: "access_step a a' \<Longrightarrow> access_inv a \<Longrightarrow> access_inv a'"
  by (erule access_stepE)
     (auto simp: access_inv_def register_namespace_def set_quota_def add_key_def disable_key_def result_simps
       bt_contains_key_def split: if_splits option.splits)

text \<open>The immutable part of a key; \<open>disabled\<close> only goes up.\<close>

definition key_later :: "ApiKey \<Rightarrow> ApiKey \<Rightarrow> bool" where
  "key_later key key' \<longleftrightarrow>
     ak_role key' = ak_role key \<and> ak_ns key' = ak_ns key \<and> ak_secret_hash key' = ak_secret_hash key
     \<and> (ak_disabled key \<longrightarrow> ak_disabled key')"

lemma access_step_key:
  assumes "access_step a a'" "bt_get (ac_keys a) k = Some key"
  shows "\<exists>key'. bt_get (ac_keys a') k = Some key' \<and> key_later key key'"
  using assms
  by (auto elim!: access_stepE
      simp: register_namespace_def set_quota_def add_key_def disable_key_def result_simps key_later_def
        bt_contains_key_def split: if_splits option.splits)

lemma access_run_key:
  assumes "access_step\<^sup>*\<^sup>* a a'" "bt_get (ac_keys a) k = Some key"
  shows "\<exists>key'. bt_get (ac_keys a') k = Some key' \<and> key_later key key'"
  using assms
proof (induction rule: rtranclp_induct)
  case base
  then show ?case by (auto simp: key_later_def)
next
  case (step b c)
  then obtain key1 where key1: "bt_get (ac_keys b) k = Some key1" "key_later key key1" by blast
  from access_step_key [OF step.hyps(2) key1(1)] key1(2) show ?case by (auto simp: key_later_def)
qed

lemma authorize_Inr:
  "authorize k required ns a = Inr role \<longleftrightarrow>
     (\<exists>key. bt_get (ac_keys a) k = Some key \<and> \<not> ak_disabled key \<and> ak_ns key = ns \<and> ak_role key = role
            \<and> permits role required)"
  by (auto simp: authorize_def result_simps)

text \<open>Roles are ordered by what they permit.\<close>

lemma permits_refl: "permits r r"
  by (cases r) auto

lemma permits_trans: "permits a b \<Longrightarrow> permits b c \<Longrightarrow> permits a c"
  by (cases a; cases b; cases c) auto

end
