(* ===== verification/F32.thy ===== *)
theory F32
  imports Prelude "HOL-Library.Product_Lexorder"
begin

text \<open>
  Rust's \<open>f32\<close>, as far as the program computes with it: an IEEE 754 single is not-a-number, an
  infinity, or a sign and a magnitude counted in units of \<open>2\<^sup>-\<^sup>1\<^sup>4\<^sup>9\<close>, the smallest positive single.
  Every finite single is such a multiple, so a sum is formed exactly and rounded once, to nearest,
  ties to even, as the standard asks.  The bits of a not-a-number are not kept.
\<close>

datatype f32 = F32NaN | F32Inf (f32_sign: bool) | F32 (f32_sign: bool) (f32_units: nat)

section \<open>Rounding\<close>

text \<open>How far a magnitude has to be shifted to fit 24 bits.\<close>

fun f32_shift :: "nat \<Rightarrow> nat" where
  "f32_shift n = (if n < 2 ^ 24 then 0 else Suc (f32_shift (n div 2)))"

declare f32_shift.simps [simp del]

definition f32_round :: "nat \<Rightarrow> nat" where
  "f32_round n =
     (let k = f32_shift n; q = n div 2 ^ k; r = n mod 2 ^ k
      in if 2 * r > 2 ^ k \<or> 2 * r = 2 ^ k \<and> odd q then (q + 1) * 2 ^ k else q * 2 ^ k)"

text \<open>The magnitude \<open>2\<^sup>1\<^sup>2\<^sup>8\<close> is an infinity.\<close>

definition f32_make :: "bool \<Rightarrow> nat \<Rightarrow> f32" where
  "f32_make s n = (let m = f32_round n in if m < 2 ^ 277 then F32 s m else F32Inf s)"

section \<open>Arithmetic and comparison\<close>

definition f32_int :: "f32 \<Rightarrow> int" where
  "f32_int x = (if f32_sign x then - int (f32_units x) else int (f32_units x))"

fun f32_neg :: "f32 \<Rightarrow> f32" where
  "f32_neg F32NaN = F32NaN"
| "f32_neg (F32Inf s) = F32Inf (\<not> s)"
| "f32_neg (F32 s n) = F32 (\<not> s) n"

fun f32_add :: "f32 \<Rightarrow> f32 \<Rightarrow> f32" where
  "f32_add F32NaN _ = F32NaN"
| "f32_add _ F32NaN = F32NaN"
| "f32_add (F32Inf s) (F32Inf t) = (if s = t then F32Inf s else F32NaN)"
| "f32_add (F32Inf s) (F32 _ _) = F32Inf s"
| "f32_add (F32 _ _) (F32Inf t) = F32Inf t"
| "f32_add (F32 s m) (F32 t n) =
     (let v = f32_int (F32 s m) + f32_int (F32 t n)
      in if v = 0 then F32 (s \<and> t) 0 else f32_make (v < 0) (nat \<bar>v\<bar>))"

definition f32_sub :: "f32 \<Rightarrow> f32 \<Rightarrow> f32" where
  "f32_sub x y = f32_add x (f32_neg y)"

text \<open>The position of a number in the order; \<open>f32_rank F32NaN\<close> is not used.\<close>

fun f32_rank :: "f32 \<Rightarrow> int \<times> int" where
  "f32_rank F32NaN = (2, 0)"
| "f32_rank (F32Inf s) = (if s then (- 1, 0) else (1, 0))"
| "f32_rank (F32 s n) = (0, f32_int (F32 s n))"

datatype Ordering = Less | Equal | Greater

definition cmp :: "'a :: linorder \<Rightarrow> 'a \<Rightarrow> Ordering" where
  "cmp a b = (if a < b then Less else if a = b then Equal else Greater)"

definition f32_partial_cmp :: "f32 \<Rightarrow> f32 \<Rightarrow> Ordering option" where
  "f32_partial_cmp x y = (if x = F32NaN \<or> y = F32NaN then None else Some (cmp (f32_rank x) (f32_rank y)))"

definition f32_gt :: "f32 \<Rightarrow> f32 \<Rightarrow> bool" where
  "f32_gt x y \<longleftrightarrow> f32_partial_cmp x y = Some Greater"

definition f32_ge :: "f32 \<Rightarrow> f32 \<Rightarrow> bool" where
  "f32_ge x y \<longleftrightarrow> f32_partial_cmp x y \<in> {Some Greater, Some Equal}"

text \<open>\<open>f32::max\<close> returns the other argument when one is not a number.\<close>

definition f32_max :: "f32 \<Rightarrow> f32 \<Rightarrow> f32" where
  "f32_max x y = (if x = F32NaN then y else if y = F32NaN then x else if f32_gt y x then y else x)"

definition f32_zero :: f32 where
  "f32_zero = F32 False 0"

definition f32_half :: f32 where
  "f32_half = F32 False (2 ^ 148)"

text \<open>The sum of no floats is negative zero.\<close>

definition f32_sum :: "f32 list \<Rightarrow> f32" where
  "f32_sum xs = foldl f32_add (F32 True 0) xs"

section \<open>Laws\<close>

lemma f32_add_NaN [simp]: "f32_add x F32NaN = F32NaN"
  by (cases x) simp_all

lemma f32_neg_NaN [simp]: "f32_neg x = F32NaN \<longleftrightarrow> x = F32NaN"
  by (cases x) simp_all

lemma f32_sub_NaN [simp]: "f32_sub F32NaN x = F32NaN" "f32_sub x F32NaN = F32NaN"
  by (simp_all add: f32_sub_def)

lemma f32_add_commute: "f32_add x y = f32_add y x"
  by (cases x; cases y) (auto simp: Let_def add.commute)

lemma f32_ge_NaN [simp]: "\<not> f32_ge F32NaN x" "\<not> f32_ge x F32NaN"
  by (simp_all add: f32_ge_def f32_partial_cmp_def)

lemma cmp_simps [simp]:
  "cmp a b = Less \<longleftrightarrow> a < b" "cmp a b = Equal \<longleftrightarrow> a = b" "cmp a b = Greater \<longleftrightarrow> b < a"
  by (auto simp: cmp_def)

lemma f32_gt_iff: "f32_gt x y \<longleftrightarrow> x \<noteq> F32NaN \<and> y \<noteq> F32NaN \<and> f32_rank y < f32_rank x"
  by (simp add: f32_gt_def f32_partial_cmp_def)

text \<open>Numbers of at most 24 bits are added exactly.\<close>

lemma f32_round_small: "n < 2 ^ 24 \<Longrightarrow> f32_round n = n"
  by (simp add: f32_round_def f32_shift.simps [of n])

lemma f32_shift_fits: "n div 2 ^ f32_shift n < 2 ^ 24"
proof (induction n rule: f32_shift.induct)
  case (1 n)
  then show ?case by (cases "n < 2 ^ 24") (simp_all add: f32_shift.simps [of n] div_mult2_eq)
qed

text \<open>Rounding moves a magnitude by at most half of the unit of the last place.\<close>

lemma f32_round_error: "2 * \<bar>int (f32_round n) - int n\<bar> \<le> 2 ^ f32_shift n"
proof -
  define k q r where "k = f32_shift n" and "q = n div 2 ^ k" and "r = n mod 2 ^ k"
  have n: "int n = int q * 2 ^ k + int r" and r: "r < 2 ^ k"
    using div_mult_mod_eq [of n "2 ^ k"] by (simp_all add: q_def r_def) (metis of_nat_add of_nat_mult of_nat_numeral of_nat_power)
  have r': "int r < 2 ^ k" using r by (metis of_nat_less_iff of_nat_numeral of_nat_power)
  show ?thesis
  proof (cases "2 * r > 2 ^ k \<or> 2 * r = 2 ^ k \<and> odd q")
    case True
    then have "(2 :: nat) ^ k \<le> 2 * r" by auto
    then have "(2 :: int) ^ k \<le> 2 * int r" by (metis of_nat_le_iff of_nat_mult of_nat_numeral of_nat_power)
    moreover have "int (f32_round n) = (int q + 1) * 2 ^ k"
      using True by (simp add: f32_round_def Let_def k_def q_def r_def algebra_simps)
    ultimately show ?thesis using n r' by (simp add: k_def [symmetric] algebra_simps)
  next
    case False
    then have "2 * r \<le> (2 :: nat) ^ k" by auto
    then have "2 * int r \<le> (2 :: int) ^ k" by (metis of_nat_le_iff of_nat_mult of_nat_numeral of_nat_power)
    moreover have "int (f32_round n) = int q * 2 ^ k"
      using False by (auto simp: f32_round_def Let_def k_def q_def r_def)
    ultimately show ?thesis using n by (simp add: k_def [symmetric])
  qed
qed

lemma f32_shift_power: "24 \<le> n \<Longrightarrow> f32_shift (2 ^ n) = n - 23"
proof (induction n)
  case (Suc n)
  show ?case
  proof (cases "n = 23")
    case True
    then show ?thesis by (simp add: f32_shift.simps [of 16777216] f32_shift.simps [of 8388608])
  next
    case False
    have "(2 :: nat) ^ 24 \<le> 2 ^ Suc n" by (rule power_increasing) (use Suc.prems in auto)
    then have "f32_shift (2 ^ Suc n) = Suc (f32_shift (2 ^ n))" by (subst f32_shift.simps) simp
    then show ?thesis using Suc False by simp
  qed
qed simp

text \<open>Powers of two are exact.\<close>

lemma f32_round_power: "f32_round (2 ^ n) = 2 ^ n"
proof (cases "24 \<le> n")
  case True
  then have pow: "(2 :: nat) ^ n = 2 ^ 23 * 2 ^ (n - 23)" using power_add [of "2 :: nat" 23 "n - 23"] by simp
  then have d: "(2 :: nat) ^ n div 2 ^ (n - 23) = 2 ^ 23" "(2 :: nat) ^ n mod 2 ^ (n - 23) = 0" by simp_all
  show ?thesis unfolding f32_round_def f32_shift_power [OF True] Let_def d using pow by simp
next
  case False
  then have "(2 :: nat) ^ n < 2 ^ 24" by (intro power_strict_increasing) auto
  then show ?thesis by (rule f32_round_small)
qed

end
