(* ===== verification/Peers.thy ===== *)
theory Peers
  imports BTree_Map F32
begin

text \<open>
  Peers of the network bridge, \<open>liminal-bridge-net/src/peers.rs\<close>: the signed handshake and the table
  of known peers with its gossip events.  A \<open>PeerId\<close> is the 32 bytes of a public key.  The Ed25519
  crate is the parameter \<open>peer_crypto\<close>.  The broadcast
  channel is the list of events sent; the reader-writer lock makes each operation one step.
\<close>

section \<open>Handshake\<close>

type_synonym PeerId = bytes

record 'sk peer_crypto =
  pc_public :: "'sk \<Rightarrow> bytes"
  pc_sign :: "'sk \<Rightarrow> bytes \<Rightarrow> bytes"
  pc_key_ok :: "bytes \<Rightarrow> bool"
  pc_signature_ok :: "bytes \<Rightarrow> bool"
  pc_verify :: "bytes \<Rightarrow> bytes \<Rightarrow> bytes \<Rightarrow> bool"

datatype HandshakeError = HandshakeNamespaceMismatch | Stale | InvalidSignature

record Handshake =
  hs_peer :: PeerId
  hs_namespace :: string
  hs_timestamp_ms :: u64
  hs_nonce :: bytes
  hs_signature :: bytes

text \<open>\<open>u64::to_be_bytes\<close>.\<close>

definition u64_to_be_bytes :: "u64 \<Rightarrow> bytes" where
  "u64_to_be_bytes w = map (\<lambda>i. word_of_nat (unat w div 256 ^ i mod 256)) [7, 6, 5, 4, 3, 2, 1, 0]"

definition handshake_message :: "PeerId \<Rightarrow> string \<Rightarrow> u64 \<Rightarrow> bytes \<Rightarrow> bytes" where
  "handshake_message peer namespace timestamp_ms nonce =
     peer @ u64_to_be_bytes timestamp_ms @ nonce @ as_bytes namespace"

definition handshake_sign :: "'sk peer_crypto \<Rightarrow> 'sk \<Rightarrow> string \<Rightarrow> u64 \<Rightarrow> bytes \<Rightarrow> Handshake" where
  "handshake_sign cr signer namespace timestamp_ms nonce =
     (let peer = pc_public cr signer
      in \<lparr>hs_peer = peer, hs_namespace = namespace, hs_timestamp_ms = timestamp_ms, hs_nonce = nonce,
          hs_signature = pc_sign cr signer (handshake_message peer namespace timestamp_ms nonce)\<rparr>)"

definition handshake_verify :: "'sk peer_crypto \<Rightarrow> Handshake \<Rightarrow> string \<Rightarrow> u64 \<Rightarrow> u64 \<Rightarrow> HandshakeError + unit" where
  "handshake_verify cr hs expected_namespace now window =
     rbind (require (hs_namespace hs = expected_namespace) HandshakeNamespaceMismatch) (\<lambda>_.
     rbind (require (\<not> saturating_sub now (hs_timestamp_ms hs) > window) Stale) (\<lambda>_.
     rbind (require (pc_key_ok cr (hs_peer hs)) InvalidSignature) (\<lambda>_.
     rbind (require (pc_signature_ok cr (hs_signature hs)) InvalidSignature) (\<lambda>_.
       require (pc_verify cr (hs_peer hs)
                  (handshake_message (hs_peer hs) (hs_namespace hs) (hs_timestamp_ms hs) (hs_nonce hs))
                  (hs_signature hs)) InvalidSignature))))"

section \<open>Gossip\<close>

record PeerInfo =
  pinfo_id :: PeerId
  pinfo_url :: string
  pinfo_namespace :: string
  pinfo_credence :: f32
  pinfo_last_seen_ms :: u64

definition with_last_seen :: "PeerInfo \<Rightarrow> u64 \<Rightarrow> PeerInfo" where
  "with_last_seen info millis = info\<lparr>pinfo_last_seen_ms := millis\<rparr>"

datatype GossipEventKind = Registered | Summary | ExpiredPeer

record GossipEvent =
  gev_peer :: PeerId
  gev_kind :: GossipEventKind
  gev_info :: "PeerInfo option"

text \<open>Durations in milliseconds.\<close>

record GossipManager =
  gm_local_peer :: PeerId
  gm_peers :: "(PeerId, PeerInfo) btree_map"
  gm_gossip_interval_ms :: u64
  gm_heartbeat_timeout_ms :: u64
  gm_sent :: "GossipEvent list"

definition gossip_new :: "PeerId \<Rightarrow> GossipManager" where
  "gossip_new local_peer =
     \<lparr>gm_local_peer = local_peer, gm_peers = [], gm_gossip_interval_ms = 5000, gm_heartbeat_timeout_ms = 45000,
      gm_sent = []\<rparr>"

definition gossip_send :: "PeerId \<Rightarrow> GossipEventKind \<Rightarrow> PeerInfo \<Rightarrow> GossipManager \<Rightarrow> GossipManager" where
  "gossip_send peer kind info m =
     m\<lparr>gm_sent := gm_sent m @ [\<lparr>gev_peer = peer, gev_kind = kind, gev_info = Some info\<rparr>]\<rparr>"

definition register_peer :: "PeerInfo \<Rightarrow> GossipManager \<Rightarrow> GossipManager" where
  "register_peer info m =
     gossip_send (pinfo_id info) Registered info
       (m\<lparr>gm_peers := bt_insert (pinfo_id info) info (gm_peers m)\<rparr>)"

definition update_summary :: "PeerId \<Rightarrow> u64 \<Rightarrow> f32 option \<Rightarrow> GossipManager \<Rightarrow> GossipManager" where
  "update_summary pid last_seen_ms credence m =
     (case bt_get (gm_peers m) pid of
        None \<Rightarrow> m
      | Some existing \<Rightarrow>
          let info = existing\<lparr>pinfo_last_seen_ms := last_seen_ms,
                pinfo_credence := (case credence of Some v \<Rightarrow> v | None \<Rightarrow> pinfo_credence existing)\<rparr>
          in gossip_send pid Summary info (m\<lparr>gm_peers := bt_insert pid info (gm_peers m)\<rparr>))"

definition remove_peer :: "PeerId \<Rightarrow> GossipManager \<Rightarrow> GossipManager \<times> PeerInfo option" where
  "remove_peer pid m =
     (case bt_get (gm_peers m) pid of
        None \<Rightarrow> (m, None)
      | Some info \<Rightarrow>
          (gossip_send (pinfo_id info) ExpiredPeer info (m\<lparr>gm_peers := bt_remove pid (gm_peers m)\<rparr>), Some info))"

definition is_stale :: "GossipManager \<Rightarrow> u64 \<Rightarrow> PeerInfo \<Rightarrow> bool" where
  "is_stale m now info \<longleftrightarrow> saturating_sub now (pinfo_last_seen_ms info) > gm_heartbeat_timeout_ms m"

text \<open>The loop runs over a \<open>HashMap\<close>, whose iteration order is the argument \<open>iter\<close>.\<close>

definition expire_stale ::
    "((PeerId, PeerInfo) btree_map \<Rightarrow> (PeerId \<times> PeerInfo) list) \<Rightarrow> u64 \<Rightarrow> GossipManager \<Rightarrow> GossipManager \<times> PeerInfo list" where
  "expire_stale iter now m =
     (let peers_to_remove = map fst (filter (\<lambda>(peer, info). is_stale m now info) (iter (gm_peers m)))
      in fold (\<lambda>peer (m, removed).
                 case remove_peer peer m of (m', Some info) \<Rightarrow> (m', removed @ [info]) | (m', None) \<Rightarrow> (m', removed))
              peers_to_remove (m, []))"

definition hash_iter :: "(('k :: linorder, 'v) btree_map \<Rightarrow> ('k \<times> 'v) list) \<Rightarrow> ('k, 'v) btree_map \<Rightarrow> bool" where
  "hash_iter iter m \<longleftrightarrow> set (iter m) = {(k, v). bt_get m k = Some v}"

section \<open>Handshake lemmas\<close>

definition peer_crypto_ok :: "'sk peer_crypto \<Rightarrow> bool" where
  "peer_crypto_ok cr \<longleftrightarrow>
     (\<forall>sk. pc_key_ok cr (pc_public cr sk)) \<and> (\<forall>sk m. pc_signature_ok cr (pc_sign cr sk m)) \<and>
     (\<forall>sk m. pc_verify cr (pc_public cr sk) m (pc_sign cr sk m))"

lemma u64_be_length [simp]: "length (u64_to_be_bytes w) = 8"
  by (simp add: u64_to_be_bytes_def)

lemma digits_determine:
  "\<forall>i<k. m div b ^ i mod b = n div b ^ i mod b \<Longrightarrow> m mod b ^ k = n mod (b :: nat) ^ k"
proof (induction k)
  case (Suc k)
  then have "m mod b ^ k = n mod b ^ k" "m div b ^ k mod b = n div b ^ k mod b" by auto
  then show ?case by (simp only: power_Suc2 mod_mult2_eq)
qed simp

lemma u64_be_inject:
  assumes "u64_to_be_bytes v = u64_to_be_bytes w"
  shows "v = w"
proof -
  have byte: "a mod 256 = b mod 256"
    if "(word_of_nat (a mod 256) :: u8) = word_of_nat (b mod 256)" for a b :: nat
    using arg_cong [OF that, of unat] by (simp only: unat_word_of_mod_u8)
  have "unat v div 256 ^ i mod 256 = unat w div 256 ^ i mod 256" if "i \<in> set [7, 6, 5, 4, 3, 2, 1, 0]" for i :: nat
    using assms that byte unfolding u64_to_be_bytes_def map_eq_conv by blast
  moreover have "i \<in> set [7, 6, 5, 4, 3, 2, 1, 0]" if "i < 8" for i :: nat
    using that by auto
  ultimately have "unat v mod 256 ^ 8 = unat w mod 256 ^ 8" by (intro digits_determine) blast
  moreover have "unat x mod 256 ^ 8 = unat x" for x :: u64
    using unsigned_less [of x, where 'a = nat] by simp
  ultimately have "unat v = unat w" by simp
  then show ?thesis by (rule unsigned_word_eqI)
qed

lemma handshake_message_inject:
  assumes "length p = 32" "length p' = 32" "length n = 16" "length n' = 16"
    and "handshake_message p ns t n = handshake_message p' ns' t' n'"
  shows "p = p' \<and> ns = ns' \<and> t = t' \<and> n = n'"
  using assms by (auto simp: handshake_message_def dest: u64_be_inject)

lemma handshake_verify_Inr:
  "handshake_verify cr hs ns now window = Inr u \<longleftrightarrow>
     hs_namespace hs = ns \<and> saturating_sub now (hs_timestamp_ms hs) \<le> window
     \<and> pc_key_ok cr (hs_peer hs) \<and> pc_signature_ok cr (hs_signature hs)
     \<and> pc_verify cr (hs_peer hs)
         (handshake_message (hs_peer hs) (hs_namespace hs) (hs_timestamp_ms hs) (hs_nonce hs)) (hs_signature hs)"
  by (auto simp: handshake_verify_def result_simps not_less)

section \<open>Gossip lemmas\<close>

definition gossip_inv :: "GossipManager \<Rightarrow> bool" where
  "gossip_inv m \<longleftrightarrow> bt_wf (gm_peers m) \<and> (\<forall>p info. bt_get (gm_peers m) p = Some info \<longrightarrow> pinfo_id info = p)"

lemma gossip_inv_ops:
  "gossip_inv (gossip_new p)"
  "gossip_inv m \<Longrightarrow> gossip_inv (register_peer info m)"
  "gossip_inv m \<Longrightarrow> gossip_inv (update_summary p t c m)"
  "gossip_inv m \<Longrightarrow> gossip_inv (fst (remove_peer p m))"
  by (auto simp: gossip_inv_def gossip_new_def register_peer_def gossip_send_def update_summary_def remove_peer_def
      Let_def split: option.splits)

text \<open>The loop of \<open>expire_stale\<close> over any list of peers.\<close>

definition expire_step :: "PeerId \<Rightarrow> GossipManager \<times> PeerInfo list \<Rightarrow> GossipManager \<times> PeerInfo list" where
  "expire_step peer st = (case st of (m, removed) \<Rightarrow>
     case remove_peer peer m of (m', Some info) \<Rightarrow> (m', removed @ [info]) | (m', None) \<Rightarrow> (m', removed))"

lemma expire_loop:
  assumes "gossip_inv m"
  shows "gossip_inv (fst (fold expire_step ps (m, r)))
    \<and> (\<forall>p. bt_get (gm_peers (fst (fold expire_step ps (m, r)))) p = (if p \<in> set ps then None else bt_get (gm_peers m) p))
    \<and> set (snd (fold expire_step ps (m, r))) = set r \<union> {info. \<exists>p\<in>set ps. bt_get (gm_peers m) p = Some info}"
  using assms
proof (induction ps arbitrary: m r)
  case (Cons p ps)
  show ?case
  proof (cases "bt_get (gm_peers m) p")
    case None
    then have "expire_step p (m, r) = (m, r)" by (simp add: expire_step_def remove_peer_def)
    with Cons None show ?thesis by auto
  next
    case (Some info)
    define m' where "m' = fst (remove_peer p m)"
    have e: "expire_step p (m, r) = (m', r @ [info])"
      using Some by (simp add: expire_step_def remove_peer_def m'_def)
    have inv: "gossip_inv m'" unfolding m'_def by (rule gossip_inv_ops(4) [OF Cons.prems])
    have "bt_get (gm_peers m') q = (if q = p then None else bt_get (gm_peers m) q)" for q
      using Some Cons.prems by (simp add: m'_def remove_peer_def gossip_send_def gossip_inv_def)
    with Cons.IH [OF inv, of "r @ [info]"] Some show ?thesis by (auto simp: e) (metis option.inject)
  qed
qed simp

lemma expire_stale_fold:
  "expire_stale iter now m =
     fold expire_step (map fst (filter (\<lambda>(peer, info). is_stale m now info) (iter (gm_peers m)))) (m, [])"
  unfolding expire_stale_def Let_def
  by (rule fold_cong) (auto simp: expire_step_def fun_eq_iff)

end
