(* ===== verification/Service_Properties.thy ===== *)
theory Service_Properties
  imports Journal Access Peers Sample_Crates Wal_Open
begin

text \<open>
  Properties of the services around the ledgers: recovery of the cluster journal from its snapshot,
  what a failed delta does to the journal, authorization by API keys along every administration run,
  handshakes between peers, and the expiry of silent peers.
\<close>

section \<open>The journal\<close>

text \<open>Snapshot, collection and replay recover the journal.  After a snapshot of the field was written
  at the end of the log, deltas were appended and the segments before the snapshot's offset were
  collected, loading the latest snapshot gives the field's seed and the offset of the snapshot, and
  replaying from that offset runs exactly the deltas appended since, in order.\<close>

theorem journal_recovers:
  assumes "store_rep crc (dj_store j) segs" "segment_room segs (length deltas)" "journal_codec env seed_of"
    and "journal_write_snapshot env faults field j = (j1, Inr info)"
    and "list_all2 (\<lambda>delta b. je_encode_delta env delta = Inr b \<and> frame_ok b) deltas bs"
  shows "\<exists>j3. journal_load_latest_snapshot env (journal_run_gc (jn_offset info) (append_deltas env crc deltas j1)) =
      (j3, Inr (Some (seed_of field, jn_offset info)))
    \<and> replay_records crc h (jn_offset info) step st (dj_store j3) = fold_result step st bs"
  by (rule journal_recovery [OF assms refl])

text \<open>A journal whose deltas are payloads and whose field is its own snapshot.\<close>

definition sample_journal_env :: "(bytes, bytes, bytes) journal_env" where
  "sample_journal_env =
     \<lparr>je_encode_delta = Inr, je_create_snapshot = Inr, je_load_snapshot = Inr,
      je_ser_manifest = ser_table [\<lparr>last_snapshot = Some (snapshot_file_path 1), wal_segment = 1, wal_position = 0\<rparr>],
      je_de_manifest = de_table [\<lparr>last_snapshot = Some (snapshot_file_path 1), wal_segment = 1, wal_position = 0\<rparr>]\<rparr>"

definition sample_journal :: "bytes list \<Rightarrow> DiskJournal" where
  "sample_journal ps = \<lparr>dj_store = log_store crc32 ps [], dj_delta_counter = 0, dj_last_snapshot_id = 0\<rparr>"

lemma sample_journal_codec: "journal_codec sample_journal_env id"
  by (auto simp: journal_codec_def sample_journal_env_def ser_de_table)

lemma sample_journal_rep: "store_rep crc32 (dj_store (sample_journal [])) [(1, [])]"
  using log_store_rep [OF crc32_streaming, of "[]" "[]"] by (simp add: sample_journal_def)

lemma sample_journal_snapshot:
  "\<exists>j1 info. journal_write_snapshot sample_journal_env no_snapshot_faults [9] (sample_journal []) = (j1, Inr info) \<and> jn_offset info = Offset 1 0"
proof -
  have "next_snapshot_id (log_store crc32 [] []) = 1"
    by (simp add: next_snapshot_id_def list_snapshots_def numbered_files_def log_store_def sort_dedup_def map_filter_simps)
  then show ?thesis
    by (simp add: journal_write_snapshot_def sample_journal_def sample_journal_env_def end_offset_def log_store_def Let_def
        write_snapshot_file_def no_snapshot_faults_def require_def write_manifest_def ser_table_def)
qed

theorem journal_recovers_witness:
  "\<exists>j1 info j3. journal_write_snapshot sample_journal_env no_snapshot_faults [9] (sample_journal []) = (j1, Inr info)
    \<and> journal_load_latest_snapshot sample_journal_env
        (journal_run_gc (jn_offset info) (append_deltas sample_journal_env crc32 [[1], [2]] j1)) =
        (j3, Inr (Some ([9], jn_offset info)))
    \<and> replay_records crc32 id (jn_offset info) (\<lambda>xs b. Inr (xs @ b)) [] (dj_store j3) = Inr [1, 2]"
proof -
  obtain j1 info where snap: "journal_write_snapshot sample_journal_env no_snapshot_faults [9] (sample_journal []) = (j1, Inr info)"
    using sample_journal_snapshot by blast
  have deltas: "list_all2 (\<lambda>delta b. je_encode_delta sample_journal_env delta = Inr b \<and> frame_ok b) [[1], [2]] [[1], [2]]"
    by (simp add: sample_journal_env_def frame_ok_def)
  have "segment_room [(1, [])] (length [[1], [2 :: u8]])" by (simp add: segment_room_def)
  from journal_recovers [OF sample_journal_rep this sample_journal_codec snap deltas, of id "\<lambda>xs b. Inr (xs @ b)" "[]"] snap
  show ?thesis by auto
qed

text \<open>A manifest cut short stops the next start.  The manifest is rewritten in place: when its write stops
  half way and the bytes that are left do not decode, the snapshot is reported as failed, and loading the
  latest snapshot fails from then on, although the snapshot before it and the deltas are all there.\<close>

theorem torn_manifest_blocks_start:
  assumes "je_create_snapshot env field = Inr bs" "bt_get (d_snap (st_disk (dj_store j))) (snapshot_file_path (next_snapshot_id (dj_store j))) = None"
    and "m = \<lparr>last_snapshot = Some (snapshot_file_path (next_snapshot_id (dj_store j))),
          wal_segment = segment (end_offset (dj_store j)), wal_position = position (end_offset (dj_store j))\<rparr>"
    and "je_ser_manifest env m = Inr mb" "je_de_manifest env (take k mb) = Inl e"
  shows "\<exists>j1. journal_write_snapshot env \<lparr>sn_file = None, sn_manifest = Some (StoppedAfter k)\<rparr> field j = (j1, Inl (ManifestIo m))
    \<and> journal_load_latest_snapshot env j1 = (j1, Inl (ManifestCodec e))"
  using assms
  by (simp add: journal_write_snapshot_def write_snapshot_file_def write_manifest_def require_def Let_def
      journal_load_latest_snapshot_def read_manifest_def map_err_def)

section \<open>After a failed delta\<close>

lemma recover_loop_overrun:
  assumes ok: "frame_ok p" and len: "length pre + 2 ^ 33 < 2 ^ 64" and rest: "rest \<noteq> []" "length rest < length p"
  shows "recover_loop crc (pre @ u32_to_le_bytes (word_of_nat (length p)) @ rest) (length pre) =
    Inl (AmbiguousPartialPayload (length pre))"
proof -
  let ?f = "pre @ u32_to_le_bytes (word_of_nat (length p)) @ rest"
  have b: "length p < 2 ^ 32" using ok by (simp add: frame_ok_def)
  have header: "unat (u32_from_le_bytes (take 4 (drop (length pre) ?f))) = length p"
    using frame_header [OF ok, of crc "[]"] by (simp add: frame_def)
  have sum: "Option.bind (checked_add_u64 (length pre + 4) (length p)) (\<lambda>v. checked_add_u64 v 4)
      = Some (length pre + (length p + 8))"
    using b len by (simp add: checked_add_u64_def)
  have lf: "length ?f = length pre + (4 + length rest)" by simp
  show ?thesis
    using rest by (subst recover_loop.simps) (simp only: Let_def header sum lf, auto)
qed

lemma torn_then_append:
  assumes io: "io WriteLength = None" "io WritePayload = Some 0"
    and room: "length (frames crc ps) + (length p + 8) \<le> DEFAULT_SEGMENT_SIZE"
      "length (frames crc ps) + (length q + 8) \<le> DEFAULT_SEGMENT_SIZE"
  shows "\<exists>s1 s2 off. store_append crc io Disabled p (log_store crc ps snap) = (s1, Inl (IoError WritePayload))
    \<and> store_append crc no_faults Disabled q s1 = (s2, Inr off)
    \<and> store_drop s2 = \<lparr>d_data = [(wal_path 1,
          RegularFile (frames crc ps @ u32_to_le_bytes (word_of_nat (length p)) @ frame crc q))],
        d_snap = snap, d_manifest = None, d_locked = False\<rparr>"
  using assms
  by (simp add: store_append_def writer_append_def write_frame_def log_store_def write_all_def write_at_length dir_file_def
      io_step_def check_def require_def Let_def frame_def store_drop_def)

text \<open>A record acknowledged after a failed append can be lost.  When the length of a record was written and
  the write of its payload failed, and the store is used on, a record whose frame is as long as the payload
  that failed, or up to three bytes longer, is acknowledged, and opening the store again truncates it away
  with the torn header: the store is as it was before both.\<close>

theorem append_after_failure_lost:
  assumes crc: "crc_streaming crc" and ps: "list_all frame_ok ps"
    and p: "frame_ok p" "length (frames crc ps) + (length p + 12) \<le> DEFAULT_SEGMENT_SIZE"
    and q: "length p \<le> length q + 8" "length q + 4 < length p"
    and io: "io WriteLength = None" "io WritePayload = Some 0"
  shows "\<exists>s1 s2 off. store_append crc io Disabled p (log_store crc ps []) = (s1, Inl (IoError WritePayload))
    \<and> store_append crc no_faults Disabled q s1 = (s2, Inr off)
    \<and> snd (store_open crc (store_drop s2)) = Inr (log_store crc ps [])"
proof -
  have fits: "length (frames crc ps) + (length p + 8) \<le> DEFAULT_SEGMENT_SIZE" "length (frames crc ps) + (length q + 8) \<le> DEFAULT_SEGMENT_SIZE"
    using p(2) q(2) by simp_all
  obtain s1 s2 off where app: "store_append crc io Disabled p (log_store crc ps []) = (s1, Inl (IoError WritePayload))"
      "store_append crc no_faults Disabled q s1 = (s2, Inr off)"
      "store_drop s2 = \<lparr>d_data = [(wal_path 1,
          RegularFile (frames crc ps @ u32_to_le_bytes (word_of_nat (length p)) @ frame crc q))],
        d_snap = [], d_manifest = None, d_locked = False\<rparr>"
    using torn_then_append [OF io fits(1), of q "[]"] fits(2) by auto
  define f where "f = frames crc ps @ u32_to_le_bytes (word_of_nat (length p)) @ frame crc q"
  have len: "length f = length (frames crc ps) + length q + 12" by (simp add: f_def)
  have b: "length p < 2 ^ 32" using p(1) by (simp add: frame_ok_def)
  have room: "length (frames crc ps) + 2 ^ 33 < 2 ^ 64" using p(2) by (simp add: DEFAULT_SEGMENT_SIZE_def)
  have header: "unat (u32_from_le_bytes (take 4 (drop (length (frames crc ps)) f))) = length p"
    using b by (simp add: f_def unat_of_nat)
  have "recover_loop crc f (length (frames crc ps)) = Inr (frames crc ps, length (frames crc ps))"
    unfolding recover_loop_round [of crc f "length (frames crc ps)"] Let_def header len
    using q b room by (simp add: f_def)
  then have "recover_last_segment_tail crc f = Inr (frames crc ps, length (frames crc ps))"
    using recover_loop_frames [OF crc ps, of "[]" "u32_to_le_bytes (word_of_nat (length p)) @ frame crc q"] room
    by (simp add: recover_last_segment_tail_def f_def)
  moreover have "parse_u64 (format_08 (Suc 0)) = Some (Suc 0)" using segment_name_roundtrip [of 1] by simp
  then have "list_segments (Some [(wal_path 1, RegularFile g)]) = [1]" for g
    by (simp add: list_segments_def numbered_files_def map_filter_simps sort_dedup_def)
  ultimately have "snd (store_open crc (store_drop s2)) = Inr (log_store crc ps [])"
    unfolding app(3) f_def [symmetric]
    by (simp add: store_open_def store_open_with_rotation_def writer_open_def log_store_def DEFAULT_SEGMENT_SIZE_def Let_def)
  then show ?thesis using app(1,2) by blast
qed

text \<open>A failed delta makes the journal unrecoverable.  When the length of a delta's frame was
  written and the write of its payload failed, the journal only prints the error: the next, shorter
  delta is written behind the torn header and counted as appended, and from then on the journal
  cannot be opened any more.\<close>

theorem failed_delta_blocks_journal:
  assumes crc: "crc_streaming crc" and j: "dj_store j = log_store crc ps snap"
    and ps: "list_all frame_ok ps"
    and p: "je_encode_delta env delta1 = Inr p" "frame_ok p" "length (frames crc ps) + (length p + 8) \<le> DEFAULT_SEGMENT_SIZE"
    and q: "je_encode_delta env delta2 = Inr q" "length q + 8 < length p"
    and io: "io WriteLength = None" "io WritePayload = Some 0"
    and run: "j2 = journal_append_delta env crc no_faults Disabled delta2 (journal_append_delta env crc io Disabled delta1 j)"
  shows "dj_delta_counter j2 = dj_delta_counter j + 1
    \<and> snd (journal_open crc (store_drop (dj_store j2))) = Inl (AmbiguousPartialPayload (length (frames crc ps)))"
proof -
  obtain s1 s2 off where app: "store_append crc io Disabled p (log_store crc ps snap) = (s1, Inl (IoError WritePayload))"
      "store_append crc no_faults Disabled q s1 = (s2, Inr off)"
      "store_drop s2 = \<lparr>d_data = [(wal_path 1,
          RegularFile (frames crc ps @ u32_to_le_bytes (word_of_nat (length p)) @ frame crc q))],
        d_snap = snap, d_manifest = None, d_locked = False\<rparr>"
    using torn_then_append [OF io p(3), of q snap] p(3) q(2) by auto
  have j2: "dj_store j2 = s2" "dj_delta_counter j2 = dj_delta_counter j + 1"
    using app(1,2) by (simp_all add: run journal_append_delta_def p(1) q(1) j)
  have room: "length (frames crc ps) + 2 ^ 33 < 2 ^ 64" using p(3) by (simp add: DEFAULT_SEGMENT_SIZE_def)
  have len: "length (frame crc q) = length q + 8" by simp
  then have "frame crc q \<noteq> []" by (metis add_is_0 list.size(3) zero_neq_numeral)
  moreover have "length (frame crc q) < length p" using len q(2) by simp
  ultimately have "recover_last_segment_tail crc (frames crc ps @ u32_to_le_bytes (word_of_nat (length p)) @ frame crc q) =
      Inl (AmbiguousPartialPayload (length (frames crc ps)))"
    using recover_loop_frames [OF crc ps, of "[]" "u32_to_le_bytes (word_of_nat (length p)) @ frame crc q"]
      recover_loop_overrun [OF p(2) room, of "frame crc q" crc] room
    by (simp add: recover_last_segment_tail_def)
  moreover have "parse_u64 (format_08 (Suc 0)) = Some (Suc 0)" using segment_name_roundtrip [of 1] by simp
  then have "list_segments (Some [(wal_path 1, RegularFile f)]) = [1]" for f
    by (simp add: list_segments_def numbered_files_def map_filter_simps sort_dedup_def)
  ultimately show ?thesis
    using j2 app(3) by (simp add: journal_open_def store_open_def store_open_with_rotation_def writer_open_def
        DEFAULT_SEGMENT_SIZE_def Let_def)
qed

definition payload_fails :: io_env where
  "payload_fails call = (if call = WritePayload then Some 0 else None)"

theorem failed_delta_blocks_journal_witness:
  "dj_delta_counter (journal_append_delta sample_journal_env crc32 no_faults Disabled [1]
       (journal_append_delta sample_journal_env crc32 payload_fails Disabled (replicate 10 0) (sample_journal []))) = 1
   \<and> snd (journal_open crc32 (store_drop (dj_store (journal_append_delta sample_journal_env crc32 no_faults Disabled [1]
       (journal_append_delta sample_journal_env crc32 payload_fails Disabled (replicate 10 0) (sample_journal [])))))) =
     Inl (AmbiguousPartialPayload 0)"
  using failed_delta_blocks_journal [of crc32 "sample_journal []" "[]" "[]" sample_journal_env "replicate 10 0" "replicate 10 0"
      "[1]" "[1]" payload_fails, OF _ _ _ _ _ _ _ _ _ _ refl]
  by (simp add: sample_journal_def sample_journal_env_def frame_ok_def payload_fails_def DEFAULT_SEGMENT_SIZE_def)

section \<open>Authorization\<close>

text \<open>C39: Authorization is exact and stable.  On every table reachable from the empty one, a key is
  authorized for a role in a namespace exactly when it is registered under its identifier, enabled, bound to
  that namespace, which is registered, and its role reaches the required one: an administrator everything, a
  writer writing and reading, a reader reading only.  On every later table a success for the same key gives
  the same role, for the same namespace.\<close>

theorem authorization_sound:
  assumes "access_step\<^sup>*\<^sup>* access_new a"
  shows "(\<forall>k required ns role. authorize k required ns a = Inr role \<longleftrightarrow>
      (\<exists>key. bt_get (ac_keys a) k = Some key \<and> ak_id key = k \<and> \<not> ak_disabled key \<and> ak_ns key = ns
        \<and> bt_contains_key (ac_ns_quotas a) ns \<and> ak_role key = role
        \<and> (role, required) \<in> {(Admin, Admin), (Admin, Writer), (Admin, Reader), (Writer, Writer), (Writer, Reader), (Reader, Reader)}))
    \<and> (\<forall>k required ns role a' required' ns' role'. authorize k required ns a = Inr role \<longrightarrow> access_step\<^sup>*\<^sup>* a a' \<longrightarrow>
         authorize k required' ns' a' = Inr role' \<longrightarrow> role' = role \<and> ns' = ns)"
proof -
  have inv: "access_inv a"
    using assms by (induction rule: rtranclp_induct) (auto intro: access_step_inv)
  have roles: "permits role required \<longleftrightarrow>
      (role, required) \<in> {(Admin, Admin), (Admin, Writer), (Admin, Reader), (Writer, Writer), (Writer, Reader), (Reader, Reader)}"
    for role required by (cases role; cases required) simp_all
  have exact: "authorize k required ns a = Inr role \<longleftrightarrow>
      (\<exists>key. bt_get (ac_keys a) k = Some key \<and> ak_id key = k \<and> \<not> ak_disabled key \<and> ak_ns key = ns
        \<and> bt_contains_key (ac_ns_quotas a) ns \<and> ak_role key = role \<and> permits role required)" for k required ns role
    using inv by (auto simp: authorize_Inr access_inv_def)
  have "role' = role \<and> ns' = ns"
    if now: "authorize k required ns a = Inr role" and later: "access_step\<^sup>*\<^sup>* a a'" "authorize k required' ns' a' = Inr role'"
    for k required ns role a' required' ns' role'
  proof -
    obtain key where key: "bt_get (ac_keys a) k = Some key" "ak_ns key = ns" "ak_role key = role"
      using now unfolding exact by blast
    then show ?thesis using access_run_key [OF later(1) key(1)] later(2) by (auto simp: authorize_Inr key_later_def)
  qed
  then show ?thesis unfolding exact roles by blast
qed

definition sample_access :: Access where
  "sample_access =
     \<lparr>ac_keys = [(''k'', api_key_new ''k'' [1] Writer ''n'' 5)], ac_ns_quotas = [(''n'', quotas_default)]\<rparr>"

lemma sample_access_run: "access_step\<^sup>*\<^sup>* access_new sample_access"
proof -
  have "add_key (api_key_new ''k'' [1] Writer ''n'' 5) (register_namespace ''n'' access_new) = Inr sample_access"
    by (simp add: add_key_def register_namespace_def access_new_def sample_access_def api_key_new_def require_def
        bt_contains_key_def)
  then have "access_step (register_namespace ''n'' access_new) sample_access" by (rule access_step.add)
  with access_step.register [of access_new "''n''"] show ?thesis
    by (blast intro: rtranclp.rtrancl_into_rtrancl r_into_rtranclp)
qed

lemma sample_authorized: "authorize ''k'' Reader ''n'' sample_access = Inr Writer"
  by (simp add: authorize_def sample_access_def api_key_new_def require_def ok_or_def)

theorem authorization_sound_witness:
  "authorize ''k'' Reader ''n'' sample_access = Inr Writer \<and> authorize ''k'' Admin ''n'' sample_access \<noteq> Inr Writer"
proof -
  have "\<nexists>key. bt_get (ac_keys sample_access) ''k'' = Some key \<and> (ak_role key, Admin) \<in> {(Admin, Admin)}"
    by (simp add: sample_access_def api_key_new_def)
  then show ?thesis using sample_authorized authorization_sound [OF sample_access_run] by blast
qed

text \<open>Disabling a key is final.  Once a key was disabled, no sequence of administration steps makes
  it authorize anything again; adding a key with its identifier is refused.\<close>

theorem disabled_key_never_authorizes:
  assumes "disable_key k a = Inr a1" "access_step\<^sup>*\<^sup>* a1 a'"
  shows "authorize k required ns a' = Inl (KeyDisabled k) \<and> (ak_id key = k \<longrightarrow> add_key key a' = Inl (KeyExists k))"
proof -
  obtain key1 where "bt_get (ac_keys a1) k = Some key1" "ak_disabled key1"
    using assms(1) by (auto simp: disable_key_def split: option.splits)
  then obtain key2 where "bt_get (ac_keys a') k = Some key2" "ak_disabled key2"
    using access_run_key [OF assms(2)] by (auto simp: key_later_def)
  then show ?thesis by (auto simp: authorize_def add_key_def ok_or_def require_def bt_contains_key_def)
qed

theorem disabled_key_never_authorizes_witness:
  "\<exists>a1. disable_key ''k'' sample_access = Inr a1
    \<and> authorize ''k'' Reader ''n'' (register_namespace ''m'' a1) = Inl (KeyDisabled ''k'')"
proof -
  obtain a1 where a1: "disable_key ''k'' sample_access = Inr a1"
    by (auto simp: disable_key_def sample_access_def)
  have "access_step\<^sup>*\<^sup>* a1 (register_namespace ''m'' a1)" by (rule r_into_rtranclp, rule access_step.register)
  from disabled_key_never_authorizes [OF a1 this] a1 show ?thesis by blast
qed

section \<open>Peers\<close>

text \<open>Handshakes.  A handshake that a peer signed is accepted in its namespace as long as it is not
  older than the window, a timestamp in the future never counts as old, and the signed message
  determines peer, namespace, time and nonce, so that no other handshake shares it.\<close>

theorem handshake_accepted:
  assumes "peer_crypto_ok cr"
    and "unat now - unat t \<le> unat window"
  shows "handshake_verify cr (handshake_sign cr sk ns t nonce) ns now window = Inr ()
    \<and> (length (pc_public cr sk) = 32 \<longrightarrow> length nonce = 16 \<longrightarrow>
        (\<forall>peer' ns' t' nonce'. length peer' = 32 \<longrightarrow> length nonce' = 16 \<longrightarrow>
           handshake_message peer' ns' t' nonce' = handshake_message (pc_public cr sk) ns t nonce \<longrightarrow>
           peer' = pc_public cr sk \<and> ns' = ns \<and> t' = t \<and> nonce' = nonce))"
proof -
  have "saturating_sub now t \<le> window" using assms(2) by (simp add: word_le_nat_alt unat_saturating_sub)
  then have "handshake_verify cr (handshake_sign cr sk ns t nonce) ns now window = Inr ()"
    using assms(1) by (simp add: handshake_verify_Inr handshake_sign_def Let_def peer_crypto_ok_def)
  then show ?thesis using handshake_message_inject by metis
qed

definition sample_peer_crypto :: "bytes peer_crypto" where
  "sample_peer_crypto =
     \<lparr>pc_public = pad_digest, pc_sign = (\<lambda>sk m. pad_digest sk @ pad_digest m), pc_key_ok = (\<lambda>b. length b = 32),
      pc_signature_ok = (\<lambda>b. length b = 64), pc_verify = (\<lambda>vk m s. s = vk @ pad_digest m)\<rparr>"

theorem handshake_accepted_witness:
  "handshake_verify sample_peer_crypto (handshake_sign sample_peer_crypto [7] ''n'' 100 (replicate 16 0)) ''n'' 10 5 = Inr ()"
  using handshake_accepted [of sample_peer_crypto 10 100 5 "[7]" "''n''" "replicate 16 0"]
  by (simp add: peer_crypto_ok_def sample_peer_crypto_def)

text \<open>Expiry removes exactly the silent peers.  Whatever order the table is iterated in, after
  \<open>expire_stale\<close> the table holds exactly the peers seen within the heartbeat timeout, with unchanged
  data; the removed ones are returned; the table's invariant is kept.\<close>

theorem expire_removes_stale:
  assumes "gossip_inv m" "hash_iter iter (gm_peers m)" "expire_stale iter now m = (m', removed)"
  shows "gossip_inv m'
    \<and> (\<forall>p info. bt_get (gm_peers m') p = Some info \<longleftrightarrow> bt_get (gm_peers m) p = Some info \<and> \<not> is_stale m now info)
    \<and> set removed = {info. \<exists>p. bt_get (gm_peers m) p = Some info \<and> is_stale m now info}"
proof -
  let ?ps = "map fst (filter (\<lambda>(peer, info). is_stale m now info) (iter (gm_peers m)))"
  have ps: "p \<in> set ?ps \<longleftrightarrow> (\<exists>info. bt_get (gm_peers m) p = Some info \<and> is_stale m now info)" for p
    using assms(2) by (force simp: hash_iter_def)
  have m': "m' = fst (fold expire_step ?ps (m, []))" "removed = snd (fold expire_step ?ps (m, []))"
    using assms(3) by (simp_all add: expire_stale_fold)
  note loop = expire_loop [OF assms(1), of ?ps "[]", folded m']
  have "set removed = {info. \<exists>p\<in>set ?ps. bt_get (gm_peers m) p = Some info}" using loop by simp
  also have "\<dots> = {info. \<exists>p. bt_get (gm_peers m) p = Some info \<and> is_stale m now info}" unfolding Bex_def ps by force
  finally show ?thesis using loop unfolding ps by auto
qed

definition sample_gossip :: GossipManager where
  "sample_gossip = register_peer \<lparr>pinfo_id = [2], pinfo_url = ''b'', pinfo_namespace = ''n'', pinfo_credence = f32_half,
       pinfo_last_seen_ms = 60000\<rparr>
     (register_peer \<lparr>pinfo_id = [1], pinfo_url = ''a'', pinfo_namespace = ''n'', pinfo_credence = f32_half,
       pinfo_last_seen_ms = 0\<rparr> (gossip_new [0]))"

theorem expire_removes_stale_witness:
  "\<exists>m' removed. expire_stale id 60000 sample_gossip = (m', removed) \<and> gossip_inv m'
    \<and> bt_get (gm_peers m') [1] = None \<and> bt_get (gm_peers m') [2] \<noteq> None"
proof -
  have inv: "gossip_inv sample_gossip" unfolding sample_gossip_def by (intro gossip_inv_ops)
  have "hash_iter id (gm_peers sample_gossip)"
    by (auto simp: hash_iter_def sample_gossip_def register_peer_def gossip_send_def gossip_new_def split: if_splits)
  moreover obtain m' removed where run: "expire_stale id 60000 sample_gossip = (m', removed)" by fastforce
  ultimately have "\<forall>p info. bt_get (gm_peers m') p = Some info \<longleftrightarrow>
      bt_get (gm_peers sample_gossip) p = Some info \<and> \<not> is_stale sample_gossip 60000 info" "gossip_inv m'"
    using expire_removes_stale [OF inv] by blast+
  moreover have "\<exists>i1 i2. bt_get (gm_peers sample_gossip) [1] = Some i1 \<and> is_stale sample_gossip 60000 i1
      \<and> bt_get (gm_peers sample_gossip) [2] = Some i2 \<and> \<not> is_stale sample_gossip 60000 i2"
    by (simp add: sample_gossip_def register_peer_def gossip_send_def gossip_new_def is_stale_def saturating_sub_def)
  ultimately show ?thesis using run by (metis not_Some_eq option.inject)
qed

end
