(* ===== verification/Crdt.thy ===== *)
theory Crdt
  imports Peers
begin

text \<open>
  Replicated data types, \<open>noetic/crdt.rs\<close>: hybrid logical clocks, last-writer-wins registers,
  sets with additions and removals, and counters.  Clocks are compared in a merge context that maps
  peers to credences; a merge is a loop over the other replica's entries in key order.  The interface
  of a state-based replicated type is the locale \<open>convergent\<close>; the sets, the counters and the
  registers are its interpretations.
\<close>

section \<open>Clocks\<close>

datatype Hlc = Hlc (phys_ms: u64) (hlc_log: u32) (hlc_node: PeerId)

text \<open>The derived order: the fields in their order.\<close>

instantiation Hlc :: linorder
begin

definition less_eq_Hlc :: "Hlc \<Rightarrow> Hlc \<Rightarrow> bool" where
  "less_eq_Hlc a b \<longleftrightarrow> (phys_ms a, hlc_log a, hlc_node a) \<le> (phys_ms b, hlc_log b, hlc_node b)"

definition less_Hlc :: "Hlc \<Rightarrow> Hlc \<Rightarrow> bool" where
  "less_Hlc a b \<longleftrightarrow> (phys_ms a, hlc_log a, hlc_node a) < (phys_ms b, hlc_log b, hlc_node b)"

instance
  by standard (auto simp: less_eq_Hlc_def less_Hlc_def intro: Hlc.expand)

end

definition hlc_new :: "PeerId \<Rightarrow> u64 \<Rightarrow> Hlc" where
  "hlc_new node phys = Hlc phys 0 node"

definition hlc_tick :: "u64 \<Rightarrow> Hlc \<Rightarrow> Hlc" where
  "hlc_tick now h =
     (if now > phys_ms h then Hlc now 0 (hlc_node h)
      else Hlc (phys_ms h) (saturating_add_u32 (hlc_log h) 1) (hlc_node h))"

definition hlc_merged :: "Hlc \<Rightarrow> Hlc \<Rightarrow> PeerId \<Rightarrow> u64 \<Rightarrow> Hlc" where
  "hlc_merged a b node now =
     (let max_phys = max (max (phys_ms a) (phys_ms b)) now;
          log = (if max_phys = phys_ms a \<and> max_phys = phys_ms b then max (hlc_log a) (hlc_log b) + 1
                 else if max_phys = phys_ms a then hlc_log a + 1
                 else if max_phys = phys_ms b then hlc_log b + 1
                 else 0)
      in Hlc max_phys log node)"

record MergeContext =
  mc_credence :: "(PeerId, f32) btree_map"
  mc_default :: f32

definition merge_context_new :: "f32 \<Rightarrow> MergeContext" where
  "merge_context_new fallback = \<lparr>mc_credence = [], mc_default = fallback\<rparr>"

definition set_peer :: "PeerId \<Rightarrow> f32 \<Rightarrow> MergeContext \<Rightarrow> MergeContext" where
  "set_peer peer credence ctx = ctx\<lparr>mc_credence := bt_insert peer credence (mc_credence ctx)\<rparr>"

definition with_peer :: "PeerId \<Rightarrow> f32 \<Rightarrow> MergeContext \<Rightarrow> MergeContext" where
  "with_peer peer credence ctx = set_peer peer credence ctx"

definition credence_for :: "MergeContext \<Rightarrow> PeerId \<Rightarrow> f32" where
  "credence_for ctx peer = (case bt_get (mc_credence ctx) peer of Some c \<Rightarrow> c | None \<Rightarrow> mc_default ctx)"

definition merge_context_default :: MergeContext where
  "merge_context_default = merge_context_new f32_half"

definition hlc_compare :: "MergeContext \<Rightarrow> Hlc \<Rightarrow> Hlc \<Rightarrow> Ordering" where
  "hlc_compare ctx a b =
     (case cmp (phys_ms a) (phys_ms b) of
        Equal \<Rightarrow>
          (case cmp (hlc_log a) (hlc_log b) of
             Equal \<Rightarrow>
               (case f32_partial_cmp (credence_for ctx (hlc_node a)) (credence_for ctx (hlc_node b)) of
                  Some Equal \<Rightarrow> cmp (hlc_node a) (hlc_node b)
                | None \<Rightarrow> cmp (hlc_node a) (hlc_node b)
                | Some order \<Rightarrow> order)
           | order \<Rightarrow> order)
      | order \<Rightarrow> order)"

section \<open>Registers, sets and counters\<close>

record 'a Lww =
  lww_value :: 'a
  lww_clock :: Hlc

definition lww_merge :: "MergeContext \<Rightarrow> 'a Lww \<Rightarrow> 'a Lww \<Rightarrow> 'a Lww" where
  "lww_merge ctx l r = (if hlc_compare ctx (lww_clock l) (lww_clock r) = Less then r else l)"

record 'a OrSet =
  os_adds :: "('a, Hlc) btree_map"
  os_removals :: "('a, Hlc) btree_map"

definition orset_default :: "'a OrSet" where
  "orset_default = \<lparr>os_adds = [], os_removals = []\<rparr>"

text \<open>The match that \<open>insert\<close> and \<open>remove\<close> share: keep the stored clock unless it is less.\<close>

definition put_clock :: "MergeContext \<Rightarrow> 'a :: linorder \<Rightarrow> Hlc \<Rightarrow> ('a, Hlc) btree_map \<Rightarrow> ('a, Hlc) btree_map" where
  "put_clock ctx v clock m =
     (case bt_get m v of
        Some existing \<Rightarrow> if hlc_compare ctx existing clock \<noteq> Less then m else bt_insert v clock m
      | None \<Rightarrow> bt_insert v clock m)"

definition orset_insert :: "MergeContext \<Rightarrow> 'a :: linorder \<Rightarrow> Hlc \<Rightarrow> 'a OrSet \<Rightarrow> 'a OrSet" where
  "orset_insert ctx v clock s = s\<lparr>os_adds := put_clock ctx v clock (os_adds s)\<rparr>"

definition orset_remove :: "MergeContext \<Rightarrow> 'a :: linorder \<Rightarrow> Hlc \<Rightarrow> 'a OrSet \<Rightarrow> 'a OrSet" where
  "orset_remove ctx v clock s = s\<lparr>os_removals := put_clock ctx v clock (os_removals s)\<rparr>"

definition orset_elements :: "MergeContext \<Rightarrow> 'a OrSet \<Rightarrow> 'a list" where
  "orset_elements ctx s =
     map fst (filter (\<lambda>(v, add_clock).
       case bt_get (os_removals s) v of
         Some rem_clock \<Rightarrow> hlc_compare ctx add_clock rem_clock = Greater
       | None \<Rightarrow> True) (os_adds s))"

definition orset_merge :: "MergeContext \<Rightarrow> 'a :: linorder OrSet \<Rightarrow> 'a OrSet \<Rightarrow> 'a OrSet" where
  "orset_merge ctx s other =
     fold (\<lambda>(v, clock). orset_remove ctx v clock) (os_removals other)
       (fold (\<lambda>(v, clock). orset_insert ctx v clock) (os_adds other) s)"

type_synonym i64 = "64 word"

record PnCounter =
  pn_positives :: "(PeerId, i64) btree_map"
  pn_negatives :: "(PeerId, i64) btree_map"

definition pn_default :: PnCounter where
  "pn_default = \<lparr>pn_positives = [], pn_negatives = []\<rparr>"

text \<open>\<open>i64::abs\<close>, which wraps at the smallest value.\<close>

definition i64_abs :: "i64 \<Rightarrow> i64" where
  "i64_abs d = (if sint d < 0 then - d else d)"

definition or_default :: "'v \<Rightarrow> 'v option \<Rightarrow> 'v" where
  "or_default d x = (case x of Some v \<Rightarrow> v | None \<Rightarrow> d)"

definition pn_bump :: "PeerId \<Rightarrow> i64 \<Rightarrow> (PeerId, i64) btree_map \<Rightarrow> (PeerId, i64) btree_map" where
  "pn_bump peer delta m = bt_insert peer (or_default 0 (bt_get m peer) + i64_abs delta) m"

definition increment :: "PeerId \<Rightarrow> i64 \<Rightarrow> PnCounter \<Rightarrow> PnCounter" where
  "increment peer delta c = c\<lparr>pn_positives := pn_bump peer delta (pn_positives c)\<rparr>"

definition decrement :: "PeerId \<Rightarrow> i64 \<Rightarrow> PnCounter \<Rightarrow> PnCounter" where
  "decrement peer delta c = c\<lparr>pn_negatives := pn_bump peer delta (pn_negatives c)\<rparr>"

definition pn_value :: "PnCounter \<Rightarrow> i64" where
  "pn_value c = sum_list (bt_values (pn_positives c)) - sum_list (bt_values (pn_negatives c))"

text \<open>The body of the two loops of \<open>merge\<close>: the signed maximum.\<close>

definition i64_max :: "i64 \<Rightarrow> i64 \<Rightarrow> i64" where
  "i64_max a b = (if sint a \<le> sint b then b else a)"

definition pn_raise :: "PeerId \<times> i64 \<Rightarrow> (PeerId, i64) btree_map \<Rightarrow> (PeerId, i64) btree_map" where
  "pn_raise e m = (case e of (peer, v) \<Rightarrow> bt_insert peer (i64_max (or_default 0 (bt_get m peer)) v) m)"

definition pn_merge :: "PnCounter \<Rightarrow> PnCounter \<Rightarrow> PnCounter" where
  "pn_merge c other =
     \<lparr>pn_positives = fold pn_raise (pn_positives other) (pn_positives c),
      pn_negatives = fold pn_raise (pn_negatives other) (pn_negatives c)\<rparr>"

section \<open>The clock order\<close>

definition no_nan :: "MergeContext \<Rightarrow> bool" where
  "no_nan ctx \<longleftrightarrow> mc_default ctx \<noteq> F32NaN \<and> list_all (\<lambda>(peer, c). c \<noteq> F32NaN) (mc_credence ctx)"

definition all_numbers :: "MergeContext \<Rightarrow> bool" where
  "all_numbers ctx \<longleftrightarrow> (\<forall>peer. credence_for ctx peer \<noteq> F32NaN)"

lemma no_nan_numbers: "no_nan ctx \<Longrightarrow> all_numbers ctx"
  by (auto simp: no_nan_def all_numbers_def credence_for_def list_all_iff split: option.splits dest: bt_get_in_set)

text \<open>The key clocks are compared by, when every credence is a number.\<close>

definition hlc_key :: "MergeContext \<Rightarrow> Hlc \<Rightarrow> u64 \<times> u32 \<times> (int \<times> int) \<times> PeerId" where
  "hlc_key ctx h = (phys_ms h, hlc_log h, f32_rank (credence_for ctx (hlc_node h)), hlc_node h)"

lemma hlc_key_inject: "hlc_key ctx a = hlc_key ctx b \<longleftrightarrow> a = b"
  by (auto simp: hlc_key_def intro: Hlc.expand)

lemma hlc_compare_key: "all_numbers ctx \<Longrightarrow> hlc_compare ctx a b = cmp (hlc_key ctx a) (hlc_key ctx b)"
  by (auto simp: all_numbers_def hlc_compare_def f32_partial_cmp_def hlc_key_def cmp_def)

section \<open>State-based replicated types\<close>

locale convergent =
  fixes ok :: "'s \<Rightarrow> bool" and merge :: "'s \<Rightarrow> 's \<Rightarrow> 's"
  assumes ok_merge: "ok a \<Longrightarrow> ok b \<Longrightarrow> ok (merge a b)"
    and merge_commute: "ok a \<Longrightarrow> ok b \<Longrightarrow> merge a b = merge b a"
    and merge_assoc: "ok a \<Longrightarrow> ok b \<Longrightarrow> ok c \<Longrightarrow> merge (merge a b) c = merge a (merge b c)"
    and merge_idem: "ok a \<Longrightarrow> merge a a = a"
begin

lemma ok_foldl: "ok s \<Longrightarrow> \<forall>x\<in>set xs. ok x \<Longrightarrow> ok (foldl merge s xs)"
  by (induction xs arbitrary: s) (simp_all add: ok_merge)

lemma foldl_upper:
  assumes "ok s" "\<forall>x\<in>set xs. ok x" "x \<in> insert s (set xs)"
  shows "merge x (foldl merge s xs) = foldl merge s xs"
  using assms
proof (induction xs arbitrary: s x)
  case Nil
  then show ?case by (simp add: merge_idem)
next
  case (Cons a xs)
  let ?r = "foldl merge (merge s a) xs"
  have ok: "ok s" "ok a" "ok (merge s a)" using Cons.prems ok_merge by auto
  have r: "ok ?r" using ok_foldl [OF ok(3)] Cons.prems by simp
  have up: "x \<in> insert (merge s a) (set xs) \<Longrightarrow> merge x ?r = ?r" for x
    using Cons.IH [OF ok(3)] Cons.prems(2) by simp
  have "merge s (merge s a) = merge s a" "merge a (merge s a) = merge s a"
    using ok by (metis merge_assoc merge_commute merge_idem)+
  then have "merge s ?r = ?r" "merge a ?r = ?r" using up [of "merge s a"] ok r by (metis insertI1 merge_assoc)+
  then show ?case using Cons.prems(3) up by auto
qed

lemma foldl_least:
  assumes "ok s" "\<forall>x\<in>set xs. ok x" "ok u" "\<forall>x\<in>insert s (set xs). merge x u = u"
  shows "merge (foldl merge s xs) u = u"
  using assms by (induction xs arbitrary: s) (simp_all add: ok_merge merge_assoc)

text \<open>Replicas that have seen the same states agree, in whatever order and however often.\<close>

lemma converges:
  assumes "ok s" "\<forall>x\<in>set xs. ok x" "ok t" "\<forall>y\<in>set ys. ok y" "insert s (set xs) = insert t (set ys)"
  shows "foldl merge s xs = foldl merge t ys"
proof -
  have "merge (foldl merge s xs) (foldl merge t ys) = foldl merge t ys"
    using assms by (intro foldl_least ballI foldl_upper ok_foldl) auto
  moreover have "merge (foldl merge t ys) (foldl merge s xs) = foldl merge s xs"
    using assms by (intro foldl_least ballI foldl_upper ok_foldl) auto
  ultimately show ?thesis using merge_commute ok_foldl assms by metis
qed

end

text \<open>Maps that are merged key by key with a join of the values.\<close>

definition join_opt :: "('v \<Rightarrow> 'v \<Rightarrow> 'v) \<Rightarrow> 'v option \<Rightarrow> 'v option \<Rightarrow> 'v option" where
  "join_opt f x y = (case x of None \<Rightarrow> y | Some a \<Rightarrow> (case y of None \<Rightarrow> x | Some b \<Rightarrow> Some (f a b)))"

definition map_ok :: "('v \<Rightarrow> bool) \<Rightarrow> ('k :: linorder, 'v) btree_map \<Rightarrow> bool" where
  "map_ok P m \<longleftrightarrow> bt_wf m \<and> list_all (\<lambda>(k, v). P v) m"

lemma map_ok_iff: "map_ok P m \<longleftrightarrow> bt_wf m \<and> (\<forall>k v. bt_get m k = Some v \<longrightarrow> P v)"
  by (auto simp: map_ok_def list_all_iff dest: bt_get_in_set bt_get_of_set)

locale map_join =
  fixes f :: "'v \<Rightarrow> 'v \<Rightarrow> 'v" and P :: "'v \<Rightarrow> bool" and mg :: "('k :: linorder, 'v) btree_map \<Rightarrow> ('k, 'v) btree_map \<Rightarrow> ('k, 'v) btree_map"
  assumes P_join: "P a \<Longrightarrow> P b \<Longrightarrow> P (f a b)"
    and join_commute: "P a \<Longrightarrow> P b \<Longrightarrow> f a b = f b a"
    and join_assoc: "P a \<Longrightarrow> P b \<Longrightarrow> P c \<Longrightarrow> f (f a b) c = f a (f b c)"
    and join_idem: "P a \<Longrightarrow> f a a = a"
    and mg_wf: "bt_wf m \<Longrightarrow> bt_wf (mg m n)"
    and mg_get: "map_ok P m \<Longrightarrow> map_ok P n \<Longrightarrow> bt_get (mg m n) k = join_opt f (bt_get m k) (bt_get n k)"
begin

lemma get_P: "map_ok P m \<Longrightarrow> bt_get m k = Some v \<Longrightarrow> P v"
  by (simp add: map_ok_iff)

lemma mg_bt_wf: "map_ok P m \<Longrightarrow> bt_wf (mg m n)"
  by (simp add: map_ok_iff mg_wf)

lemma mg_ok:
  assumes "map_ok P m" "map_ok P n"
  shows "map_ok P (mg m n)"
  unfolding map_ok_iff mg_get [OF assms]
  using mg_bt_wf [OF assms(1)] get_P [OF assms(1)] get_P [OF assms(2)]
  by (auto simp: join_opt_def P_join split: option.splits)

lemma mg_commute:
  assumes "map_ok P a" "map_ok P b"
  shows "mg a b = mg b a"
proof (rule bt_ext)
  show "bt_get (mg a b) k = bt_get (mg b a) k" for k
    unfolding mg_get [OF assms] mg_get [OF assms(2,1)]
    using get_P [OF assms(1)] get_P [OF assms(2)] by (simp add: join_opt_def join_commute split: option.split)
qed (use assms in \<open>simp_all add: mg_bt_wf\<close>)

lemma mg_assoc:
  assumes "map_ok P a" "map_ok P b" "map_ok P c"
  shows "mg (mg a b) c = mg a (mg b c)"
proof (rule bt_ext)
  show "bt_get (mg (mg a b) c) k = bt_get (mg a (mg b c)) k" for k
    unfolding mg_get [OF mg_ok [OF assms(1,2)] assms(3)] mg_get [OF assms(1) mg_ok [OF assms(2,3)]]
      mg_get [OF assms(1,2)] mg_get [OF assms(2,3)]
    using get_P [OF assms(1)] get_P [OF assms(2)] get_P [OF assms(3)]
    by (simp add: join_opt_def join_assoc split: option.split)
qed (use assms mg_ok in \<open>simp_all add: mg_bt_wf\<close>)

lemma mg_idem:
  assumes "map_ok P a"
  shows "mg a a = a"
proof (rule bt_ext)
  show "bt_get (mg a a) k = bt_get a k" for k
    unfolding mg_get [OF assms assms] using get_P [OF assms] by (simp add: join_opt_def join_idem split: option.split)
qed (use assms in \<open>simp_all add: mg_bt_wf map_ok_iff\<close>)

end

sublocale map_join \<subseteq> joined: convergent "map_ok P" mg
  by standard (rule mg_ok mg_commute mg_assoc mg_idem; assumption)+

section \<open>Sets\<close>

definition clock_max :: "MergeContext \<Rightarrow> Hlc \<Rightarrow> Hlc \<Rightarrow> Hlc" where
  "clock_max ctx a b = (if hlc_compare ctx a b = Less then b else a)"

definition put_clocks :: "MergeContext \<Rightarrow> ('a :: linorder, Hlc) btree_map \<Rightarrow> ('a, Hlc) btree_map \<Rightarrow> ('a, Hlc) btree_map" where
  "put_clocks ctx m other = fold (\<lambda>(v, clock). put_clock ctx v clock) other m"

lemma get_put_clock:
  "bt_get (put_clock ctx v clock m) k =
     (if k = v then join_opt (clock_max ctx) (bt_get m v) (Some clock) else bt_get m k)"
  by (auto simp: put_clock_def join_opt_def clock_max_def split: option.splits)

lemma get_put_clocks:
  assumes "bt_wf other"
  shows "bt_get (put_clocks ctx m other) k = join_opt (clock_max ctx) (bt_get m k) (bt_get other k)"
proof -
  have "bt_get (put_clocks ctx m other) k = (case bt_get other k of None \<Rightarrow> bt_get m k
      | Some clock \<Rightarrow> join_opt (clock_max ctx) (bt_get m k) (Some clock))"
    unfolding put_clocks_def by (rule bt_get_fold [OF _ assms]) (simp add: get_put_clock)
  then show ?thesis by (simp add: join_opt_def split: option.splits)
qed

lemma wf_put_clocks: "bt_wf m \<Longrightarrow> bt_wf (put_clocks ctx m other)"
  unfolding put_clocks_def by (rule bt_wf_fold) (auto simp: put_clock_def split: option.splits)

lemma clocks_map_join: "all_numbers ctx \<Longrightarrow> map_join (clock_max ctx) (\<lambda>_. True) (put_clocks ctx)"
  by standard
     (auto simp: clock_max_def hlc_compare_key map_ok_def get_put_clocks wf_put_clocks
        dest: order.asym simp flip: hlc_key_inject [of ctx])

definition orset_ok :: "'a :: linorder OrSet \<Rightarrow> bool" where
  "orset_ok s \<longleftrightarrow> bt_wf (os_adds s) \<and> bt_wf (os_removals s)"

lemma orset_merge_clocks:
  "orset_merge ctx s other =
     \<lparr>os_adds = put_clocks ctx (os_adds s) (os_adds other), os_removals = put_clocks ctx (os_removals s) (os_removals other)\<rparr>"
proof -
  have adds: "fold (\<lambda>(v, clock). orset_insert ctx v clock) es t = t\<lparr>os_adds := put_clocks ctx (os_adds t) es\<rparr>" for es t
    by (induction es arbitrary: t) (auto simp: orset_insert_def put_clocks_def)
  have "fold (\<lambda>(v, clock). orset_remove ctx v clock) es t = t\<lparr>os_removals := put_clocks ctx (os_removals t) es\<rparr>" for es t
    by (induction es arbitrary: t) (auto simp: orset_remove_def put_clocks_def)
  from this [of "os_removals other"] show ?thesis unfolding orset_merge_def adds by (simp add: OrSet.equality)
qed

locale total_context =
  fixes ctx :: MergeContext
  assumes numbers: "all_numbers ctx"
begin

lemma compare_key: "hlc_compare ctx a b = cmp (hlc_key ctx a) (hlc_key ctx b)"
  by (rule hlc_compare_key [OF numbers])

end

sublocale total_context \<subseteq> clocks: map_join "clock_max ctx" "\<lambda>_. True" "put_clocks ctx"
  by (rule clocks_map_join [OF numbers])

sublocale total_context \<subseteq> sets: convergent orset_ok "orset_merge ctx"
proof -
  have ok: "orset_ok s \<longleftrightarrow> map_ok (\<lambda>_. True) (os_adds s) \<and> map_ok (\<lambda>_. True) (os_removals s)" for s :: "'b :: linorder OrSet"
    by (auto simp: orset_ok_def map_ok_def list_all_iff)
  show "convergent orset_ok (orset_merge ctx)"
    by standard
       (auto simp: ok orset_merge_clocks intro: clocks.mg_ok clocks.mg_commute clocks.mg_assoc
          intro!: OrSet.equality clocks.mg_idem)
qed

context total_context
begin

lemma sets_agree:
  "orset_ok s \<Longrightarrow> \<forall>x\<in>set xs. orset_ok x \<Longrightarrow> orset_ok t \<Longrightarrow> \<forall>y\<in>set ys. orset_ok y \<Longrightarrow>
     insert s (set xs) = insert t (set ys) \<Longrightarrow> foldl (orset_merge ctx) s xs = foldl (orset_merge ctx) t ys"
  by (rule sets.converges)

lemma sets_commute: "orset_ok s \<Longrightarrow> orset_ok t \<Longrightarrow> orset_merge ctx s t = orset_merge ctx t s"
  by (rule sets.merge_commute)

end

text \<open>Registers whose clock determines the value.\<close>

locale stamped_registers = total_context +
  fixes stamp :: "Hlc \<Rightarrow> 'a"

sublocale stamped_registers \<subseteq> registers: convergent "\<lambda>r. lww_value r = stamp (lww_clock r)" "lww_merge ctx"
proof
  fix a b c :: "'a Lww"
  assume a: "lww_value a = stamp (lww_clock a)" and b: "lww_value b = stamp (lww_clock b)"
  show "lww_value (lww_merge ctx a b) = stamp (lww_clock (lww_merge ctx a b))" using a b by (simp add: lww_merge_def)
  show "lww_merge ctx a b = lww_merge ctx b a"
    using a b hlc_key_inject [of ctx "lww_clock a" "lww_clock b"]
    by (auto simp: lww_merge_def compare_key dest: order.asym intro: Lww.equality)
qed (auto simp: lww_merge_def compare_key dest: order.strict_trans)

interpretation default_context: total_context merge_context_default
  by standard (simp add: merge_context_default_def merge_context_new_def no_nan_def f32_half_def no_nan_numbers)

section \<open>Counters\<close>

definition i64_nonneg :: "i64 \<Rightarrow> bool" where
  "i64_nonneg v \<longleftrightarrow> 0 \<le> sint v"

definition pn_raises :: "(PeerId, i64) btree_map \<Rightarrow> (PeerId, i64) btree_map \<Rightarrow> (PeerId, i64) btree_map" where
  "pn_raises m other = fold pn_raise other m"

lemma get_pn_raises:
  assumes "map_ok i64_nonneg m" "map_ok i64_nonneg other"
  shows "bt_get (pn_raises m other) k = join_opt i64_max (bt_get m k) (bt_get other k)"
proof -
  have "bt_wf other" using assms(2) by (simp add: map_ok_def)
  then have "bt_get (pn_raises m other) k = (case bt_get other k of None \<Rightarrow> bt_get m k
      | Some v \<Rightarrow> Some (i64_max (or_default 0 (bt_get m k)) v))"
    unfolding pn_raises_def by (intro bt_get_fold) (simp_all add: pn_raise_def)
  moreover have "i64_max 0 v = v" if "bt_get other k = Some v" for v
    using assms(2) that by (auto simp: map_ok_iff i64_nonneg_def i64_max_def)
  ultimately show ?thesis by (auto simp: join_opt_def or_default_def split: option.splits)
qed

lemma sint_eq: "sint (a :: i64) = sint b \<Longrightarrow> a = b"
  by (simp add: signed_word_eqI)

interpretation pn_maps: map_join i64_max i64_nonneg pn_raises
proof
  show "bt_wf (pn_raises m n)" if "bt_wf m" for m n
    unfolding pn_raises_def by (rule bt_wf_fold [OF _ that]) (auto simp: pn_raise_def split: prod.splits)
qed (auto simp: i64_max_def i64_nonneg_def get_pn_raises dest!: sint_eq)

definition pn_ok :: "PnCounter \<Rightarrow> bool" where
  "pn_ok c \<longleftrightarrow> map_ok i64_nonneg (pn_positives c) \<and> map_ok i64_nonneg (pn_negatives c)"

interpretation counters: convergent pn_ok pn_merge
  by standard
     (auto simp: pn_ok_def pn_merge_def pn_raises_def [symmetric]
        intro: pn_maps.mg_ok pn_maps.mg_commute pn_maps.mg_assoc intro!: PnCounter.equality pn_maps.mg_idem)

end
