(* ===== verification/Noetic_State.thy ===== *)
theory Noetic_State
  imports Crdt
begin

text \<open>
  The replicated state of a peer, \<open>noetic/state.rs\<close>: headers of models, epochs and seeds in sets,
  registers for the model ranking, the seed status and the policy, and the credences of peers.  A
  policy's payload is a \<open>serde_json\<close> value, the type variable \<open>'j\<close>; the BLAKE3 digest of the
  concatenated updates is an argument of \<open>summary\<close>.
\<close>

section \<open>Data\<close>

datatype ResonantModelHeader =
  ResonantModelHeader (rm_id: string) (rm_version: Hlc) (rm_hash: string) (rm_source: PeerId)

datatype EpochHeader = EpochHeader (eh_id: u64) (eh_version: Hlc) (eh_hash: string)

datatype SeedHeader = SeedHeader (sh_id: string) (sh_epoch: u64) (sh_version: Hlc) (sh_source: PeerId)

text \<open>The derived orders.\<close>

definition model_key :: "ResonantModelHeader \<Rightarrow> string \<times> Hlc \<times> string \<times> PeerId" where
  "model_key h = (rm_id h, rm_version h, rm_hash h, rm_source h)"

definition epoch_key :: "EpochHeader \<Rightarrow> u64 \<times> Hlc \<times> string" where
  "epoch_key h = (eh_id h, eh_version h, eh_hash h)"

definition seed_key :: "SeedHeader \<Rightarrow> string \<times> u64 \<times> Hlc \<times> PeerId" where
  "seed_key h = (sh_id h, sh_epoch h, sh_version h, sh_source h)"

instantiation ResonantModelHeader :: linorder
begin

definition less_eq_ResonantModelHeader :: "ResonantModelHeader \<Rightarrow> ResonantModelHeader \<Rightarrow> bool" where
  "less_eq_ResonantModelHeader a b \<longleftrightarrow> model_key a \<le> model_key b"

definition less_ResonantModelHeader :: "ResonantModelHeader \<Rightarrow> ResonantModelHeader \<Rightarrow> bool" where
  "less_ResonantModelHeader a b \<longleftrightarrow> model_key a < model_key b"

instance
proof
  show "a \<le> b \<Longrightarrow> b \<le> a \<Longrightarrow> a = b" for a b :: ResonantModelHeader
    unfolding less_eq_ResonantModelHeader_def
    by (drule (1) order.antisym) (simp add: model_key_def ResonantModelHeader.expand)
qed (auto simp: less_eq_ResonantModelHeader_def less_ResonantModelHeader_def)

end

instantiation EpochHeader :: linorder
begin

definition less_eq_EpochHeader :: "EpochHeader \<Rightarrow> EpochHeader \<Rightarrow> bool" where
  "less_eq_EpochHeader a b \<longleftrightarrow> epoch_key a \<le> epoch_key b"

definition less_EpochHeader :: "EpochHeader \<Rightarrow> EpochHeader \<Rightarrow> bool" where
  "less_EpochHeader a b \<longleftrightarrow> epoch_key a < epoch_key b"

instance
proof
  show "a \<le> b \<Longrightarrow> b \<le> a \<Longrightarrow> a = b" for a b :: EpochHeader
    unfolding less_eq_EpochHeader_def by (drule (1) order.antisym) (simp add: epoch_key_def EpochHeader.expand)
qed (auto simp: less_eq_EpochHeader_def less_EpochHeader_def)

end

instantiation SeedHeader :: linorder
begin

definition less_eq_SeedHeader :: "SeedHeader \<Rightarrow> SeedHeader \<Rightarrow> bool" where
  "less_eq_SeedHeader a b \<longleftrightarrow> seed_key a \<le> seed_key b"

definition less_SeedHeader :: "SeedHeader \<Rightarrow> SeedHeader \<Rightarrow> bool" where
  "less_SeedHeader a b \<longleftrightarrow> seed_key a < seed_key b"

instance
proof
  show "a \<le> b \<Longrightarrow> b \<le> a \<Longrightarrow> a = b" for a b :: SeedHeader
    unfolding less_eq_SeedHeader_def by (drule (1) order.antisym) (simp add: seed_key_def SeedHeader.expand)
qed (auto simp: less_eq_SeedHeader_def less_SeedHeader_def)

end

record ResonantModelTopK =
  topk_entries :: "string list"
  topk_updated :: Hlc

datatype SeedStatus =
  SeedPending | SeedActive u64 | SeedCommitted u64 | SeedFailed string | SeedObserved string

fun seed_status_as_str :: "SeedStatus \<Rightarrow> string" where
  "seed_status_as_str SeedPending = ''pending''"
| "seed_status_as_str (SeedActive _) = ''active''"
| "seed_status_as_str (SeedCommitted _) = ''committed''"
| "seed_status_as_str (SeedFailed _) = ''failed''"
| "seed_status_as_str (SeedObserved _) = ''observed''"

record 'j PolicyBundle =
  pol_version :: Hlc
  pol_hash :: string
  pol_payload :: 'j

record 'j NoeticState =
  n_peer :: PeerId
  n_clock :: Hlc
  n_models :: "ResonantModelHeader OrSet"
  n_model_topk :: "ResonantModelTopK Lww"
  n_epochs :: "EpochHeader OrSet"
  n_seeds :: "SeedHeader OrSet"
  n_seed_status :: "SeedStatus Lww"
  n_policies :: "'j PolicyBundle Lww"
  n_credence :: "(PeerId, f32) btree_map"

abbreviation lww_new :: "'a \<Rightarrow> Hlc \<Rightarrow> 'a Lww" where
  "lww_new v clock \<equiv> \<lparr>lww_value = v, lww_clock = clock\<rparr>"

section \<open>Operations\<close>

definition noetic_new :: "'j \<Rightarrow> PeerId \<Rightarrow> 'j NoeticState" where
  "noetic_new json_null peer =
     (let clock = hlc_new peer 0
      in \<lparr>n_peer = peer, n_clock = clock, n_models = orset_default,
          n_model_topk = lww_new \<lparr>topk_entries = [], topk_updated = clock\<rparr> clock,
          n_epochs = orset_default, n_seeds = orset_default, n_seed_status = lww_new SeedPending clock,
          n_policies = lww_new \<lparr>pol_version = clock, pol_hash = [], pol_payload = json_null\<rparr> clock,
          n_credence = []\<rparr>)"

definition set_credence :: "PeerId \<Rightarrow> f32 \<Rightarrow> 'j NoeticState \<Rightarrow> 'j NoeticState" where
  "set_credence peer v s = s\<lparr>n_credence := bt_insert peer v (n_credence s)\<rparr>"

definition merge_context :: "'j NoeticState \<Rightarrow> 'j NoeticState option \<Rightarrow> MergeContext" where
  "merge_context s other =
     (let ctx = fold (\<lambda>(peer, v). set_peer peer v) (n_credence s) merge_context_default
      in case other of
           None \<Rightarrow> ctx
         | Some r \<Rightarrow>
             fold (\<lambda>(peer, v) ctx. if f32_gt v (credence_for ctx peer) then set_peer peer v ctx else ctx)
               (n_credence r) ctx)"

text \<open>The loop that takes over the other replica's credences.\<close>

definition raise_credence :: "PeerId \<times> f32 \<Rightarrow> (PeerId, f32) btree_map \<Rightarrow> (PeerId, f32) btree_map" where
  "raise_credence e m =
     (case e of (peer, v) \<Rightarrow>
        let entry = or_default v (bt_get m peer)
        in bt_insert peer (if f32_gt v entry then v else entry) m)"

definition noetic_merge :: "'j NoeticState \<Rightarrow> 'j NoeticState \<Rightarrow> 'j NoeticState" where
  "noetic_merge s other =
     (let s = s\<lparr>n_credence := fold raise_credence (n_credence other) (n_credence s)\<rparr>;
          ctx = merge_context s (Some other);
          now = max (phys_ms (n_clock s)) (phys_ms (n_clock other))
      in s\<lparr>n_models := orset_merge ctx (n_models s) (n_models other),
           n_epochs := orset_merge ctx (n_epochs s) (n_epochs other),
           n_seeds := orset_merge ctx (n_seeds s) (n_seeds other),
           n_model_topk := lww_merge ctx (n_model_topk s) (n_model_topk other),
           n_seed_status := lww_merge ctx (n_seed_status s) (n_seed_status other),
           n_policies := lww_merge ctx (n_policies s) (n_policies other),
           n_clock := hlc_merged (n_clock s) (n_clock other) (n_peer s) now\<rparr>)"

definition apply_model_header :: "ResonantModelHeader \<Rightarrow> 'j NoeticState \<Rightarrow> 'j NoeticState" where
  "apply_model_header header s =
     s\<lparr>n_models := orset_insert (merge_context s None) header (rm_version header) (n_models s)\<rparr>"

definition apply_epoch :: "EpochHeader \<Rightarrow> 'j NoeticState \<Rightarrow> 'j NoeticState" where
  "apply_epoch epoch s = s\<lparr>n_epochs := orset_insert (merge_context s None) epoch (eh_version epoch) (n_epochs s)\<rparr>"

definition apply_seed :: "SeedHeader \<Rightarrow> 'j NoeticState \<Rightarrow> 'j NoeticState" where
  "apply_seed seed s = s\<lparr>n_seeds := orset_insert (merge_context s None) seed (sh_version seed) (n_seeds s)\<rparr>"

definition update_seed_status :: "SeedStatus \<Rightarrow> Hlc \<Rightarrow> 'j NoeticState \<Rightarrow> 'j NoeticState" where
  "update_seed_status status hlc s =
     s\<lparr>n_seed_status := lww_merge (merge_context s None) (n_seed_status s) (lww_new status hlc)\<rparr>"

definition update_model_topk :: "string list \<Rightarrow> Hlc \<Rightarrow> 'j NoeticState \<Rightarrow> 'j NoeticState" where
  "update_model_topk entries hlc s =
     s\<lparr>n_model_topk := lww_merge (merge_context s None) (n_model_topk s)
          (lww_new \<lparr>topk_entries = entries, topk_updated = hlc\<rparr> hlc)\<rparr>"

definition update_policy :: "'j PolicyBundle \<Rightarrow> 'j NoeticState \<Rightarrow> 'j NoeticState" where
  "update_policy policy s =
     s\<lparr>n_policies := lww_merge (merge_context s None) (n_policies s) (lww_new policy (pol_version policy))\<rparr>"

record Summary =
  su_peer :: PeerId
  su_digest :: string
  su_model_count :: nat
  su_epoch_count :: nat
  su_seed_count :: nat
  su_topk_clock :: Hlc
  su_policy_clock :: Hlc
  su_credence_sum :: f32

definition u32_to_be_bytes :: "u32 \<Rightarrow> bytes" where
  "u32_to_be_bytes w = rev (u32_to_le_bytes w)"

definition summary_input :: "'j NoeticState \<Rightarrow> ResonantModelHeader list \<Rightarrow> EpochHeader list \<Rightarrow> SeedHeader list \<Rightarrow> bytes" where
  "summary_input s models epochs seeds =
     n_peer s
     @ u64_to_be_bytes (phys_ms (lww_clock (n_model_topk s))) @ u32_to_be_bytes (hlc_log (lww_clock (n_model_topk s)))
     @ concat (map (\<lambda>m. as_bytes (rm_id m) @ as_bytes (rm_hash m)) models)
     @ concat (map (\<lambda>e. u64_to_be_bytes (eh_id e) @ as_bytes (eh_hash e)) epochs)
     @ concat (map (\<lambda>d. as_bytes (sh_id d) @ u64_to_be_bytes (sh_epoch d)) seeds)
     @ as_bytes (seed_status_as_str (lww_value (n_seed_status s)))
     @ u64_to_be_bytes (phys_ms (lww_clock (n_seed_status s))) @ u32_to_be_bytes (hlc_log (lww_clock (n_seed_status s)))
     @ as_bytes (pol_hash (lww_value (n_policies s)))
     @ u64_to_be_bytes (phys_ms (lww_clock (n_policies s))) @ u32_to_be_bytes (hlc_log (lww_clock (n_policies s)))"

definition summary :: "(bytes \<Rightarrow> string) \<Rightarrow> 'j NoeticState \<Rightarrow> Summary" where
  "summary blake3_hex s =
     (let ctx = merge_context s None;
          models = orset_elements ctx (n_models s);
          epochs = orset_elements ctx (n_epochs s);
          seeds = orset_elements ctx (n_seeds s)
      in \<lparr>su_peer = n_peer s, su_digest = blake3_hex (summary_input s models epochs seeds),
          su_model_count = length models, su_epoch_count = length epochs, su_seed_count = length seeds,
          su_topk_clock = lww_clock (n_model_topk s), su_policy_clock = lww_clock (n_policies s),
          su_credence_sum = f32_sum (bt_values (n_credence s))\<rparr>)"

definition is_in_sync_with :: "Summary \<Rightarrow> Summary \<Rightarrow> bool" where
  "is_in_sync_with a b \<longleftrightarrow> su_digest a = su_digest b"

record 'j NoeticSnapshot =
  ns_peer :: PeerId
  ns_credence :: "(PeerId, f32) btree_map"
  ns_models :: "ResonantModelHeader list"
  ns_epochs :: "EpochHeader list"
  ns_seeds :: "SeedHeader list"
  ns_model_topk :: ResonantModelTopK
  ns_seed_status :: SeedStatus
  ns_seed_status_clock :: Hlc
  ns_policies :: "'j PolicyBundle"

definition noetic_snapshot :: "'j NoeticState \<Rightarrow> 'j NoeticSnapshot" where
  "noetic_snapshot s =
     (let ctx = merge_context s None
      in \<lparr>ns_peer = n_peer s, ns_credence = n_credence s, ns_models = orset_elements ctx (n_models s),
          ns_epochs = orset_elements ctx (n_epochs s), ns_seeds = orset_elements ctx (n_seeds s),
          ns_model_topk = lww_value (n_model_topk s), ns_seed_status = lww_value (n_seed_status s),
          ns_seed_status_clock = lww_clock (n_seed_status s), ns_policies = lww_value (n_policies s)\<rparr>)"

definition noetic_restore :: "'j \<Rightarrow> 'j NoeticSnapshot \<Rightarrow> 'j NoeticState" where
  "noetic_restore json_null sn =
     (let s = (noetic_new json_null (ns_peer sn))\<lparr>n_credence := ns_credence sn\<rparr>;
          ctx = merge_context s None
      in s\<lparr>n_models := fold (\<lambda>m. orset_insert ctx m (rm_version m)) (ns_models sn) (n_models s),
           n_epochs := fold (\<lambda>e. orset_insert ctx e (eh_version e)) (ns_epochs sn) (n_epochs s),
           n_seeds := fold (\<lambda>d. orset_insert ctx d (sh_version d)) (ns_seeds sn) (n_seeds s),
           n_model_topk := lww_new (ns_model_topk sn) (topk_updated (ns_model_topk sn)),
           n_seed_status := lww_new (ns_seed_status sn) (ns_seed_status_clock sn),
           n_policies := lww_new (ns_policies sn) (pol_version (ns_policies sn))\<rparr>)"

end
