(* ===== verification/Consensus.thy ===== *)
theory Consensus
  imports Noetic_State
begin

text \<open>
  Proposals and votes, \<open>noetic/consensus.rs\<close>, and the runtime of the bridge that drives them,
  \<open>NoeticRuntime\<close> in \<open>liminal-bridge-abi/src/ffi.rs\<close>.  A proposal identifier is a random UUID, an
  argument of the operations that create one; so is the time.  The JSON of an event is not built
  here: an event is the record it is made from.
\<close>

section \<open>Data\<close>

type_synonym ProposalId = "128 word"

datatype 'j ProposalObject =
  ModelObject ResonantModelHeader ResonantModelTopK
  | SeedObject SeedHeader SeedStatus
  | PolicyObject "'j PolicyBundle"

datatype ProposalKind = ModelKind | SeedKind | PolicyKind

fun object_kind :: "'j ProposalObject \<Rightarrow> ProposalKind" where
  "object_kind (ModelObject _ _) = ModelKind"
| "object_kind (SeedObject _ _) = SeedKind"
| "object_kind (PolicyObject _) = PolicyKind"

datatype VoteDecision = Approve | Reject

record VoteRecord =
  vr_peer :: PeerId
  vr_decision :: VoteDecision
  vr_credence :: f32
  vr_clock :: Hlc

record 'j Proposal =
  pp_id :: ProposalId
  pp_proposer :: PeerId
  pp_object :: "'j ProposalObject"
  pp_clock :: Hlc
  pp_votes :: "VoteRecord list"
  pp_committed :: bool
  pp_credence_sum :: f32

record 'j ConsensusEngine =
  ce_quorum :: f32
  ce_proposals :: "(ProposalId, 'j Proposal) btree_map"

datatype Phase = Propose | Vote | Commit

record EventMeta =
  em_phase :: Phase
  em_obj :: ProposalKind
  em_id :: ProposalId
  em_credence_sum :: f32
  em_quorum :: f32

record NoeticEvent =
  ne_ev :: string
  ne_meta :: EventMeta

record 'j ConsensusSnapshot =
  cn_quorum :: f32
  cn_proposals :: "'j Proposal list"

section \<open>The engine\<close>

definition engine_new :: "f32 \<Rightarrow> 'j ConsensusEngine" where
  "engine_new quorum = \<lparr>ce_quorum = quorum, ce_proposals = []\<rparr>"

definition set_quorum :: "f32 \<Rightarrow> 'j ConsensusEngine \<Rightarrow> 'j ConsensusEngine" where
  "set_quorum quorum e = e\<lparr>ce_quorum := f32_max quorum f32_zero\<rparr>"

definition event_for :: "f32 \<Rightarrow> 'j Proposal \<Rightarrow> Phase \<Rightarrow> NoeticEvent" where
  "event_for quorum proposal phase =
     \<lparr>ne_ev = ''noetic'',
      ne_meta = \<lparr>em_phase = phase, em_obj = object_kind (pp_object proposal), em_id = pp_id proposal,
        em_credence_sum = pp_credence_sum proposal, em_quorum = quorum\<rparr>\<rparr>"

text \<open>The three \<open>propose\<close> functions differ in the object only.\<close>

definition propose :: "ProposalId \<Rightarrow> PeerId \<Rightarrow> 'j ProposalObject \<Rightarrow> Hlc \<Rightarrow> 'j ConsensusEngine \<Rightarrow>
    'j ConsensusEngine \<times> NoeticEvent" where
  "propose pid proposer obj clock e =
     (let proposal = \<lparr>pp_id = pid, pp_proposer = proposer, pp_object = obj, pp_clock = clock, pp_votes = [],
            pp_committed = False, pp_credence_sum = f32_zero\<rparr>
      in (e\<lparr>ce_proposals := bt_insert pid proposal (ce_proposals e)\<rparr>, event_for (ce_quorum e) proposal Propose))"

definition propose_model :: "ProposalId \<Rightarrow> PeerId \<Rightarrow> ResonantModelHeader \<Rightarrow> ResonantModelTopK \<Rightarrow> Hlc \<Rightarrow>
    'j ConsensusEngine \<Rightarrow> 'j ConsensusEngine \<times> NoeticEvent" where
  "propose_model pid proposer header topk clock e = propose pid proposer (ModelObject header topk) clock e"

definition propose_seed :: "ProposalId \<Rightarrow> PeerId \<Rightarrow> SeedHeader \<Rightarrow> SeedStatus \<Rightarrow> Hlc \<Rightarrow>
    'j ConsensusEngine \<Rightarrow> 'j ConsensusEngine \<times> NoeticEvent" where
  "propose_seed pid proposer header status clock e = propose pid proposer (SeedObject header status) clock e"

definition propose_policy :: "ProposalId \<Rightarrow> PeerId \<Rightarrow> 'j PolicyBundle \<Rightarrow> Hlc \<Rightarrow>
    'j ConsensusEngine \<Rightarrow> 'j ConsensusEngine \<times> NoeticEvent" where
  "propose_policy pid proposer policy clock e = propose pid proposer (PolicyObject policy) clock e"

definition is_newer :: "Hlc \<Rightarrow> Hlc \<Rightarrow> bool" where
  "is_newer a b =
     (if phys_ms a > phys_ms b then True
      else if phys_ms a < phys_ms b then False
      else if hlc_log a > hlc_log b then True
      else if hlc_log a < hlc_log b then False
      else hlc_node a > hlc_node b)"

text \<open>The part of \<open>vote\<close> that updates the records: the proposal with the vote, and whether anything
  changed.  The loop finds the first record of the peer.\<close>

fun revise_vote :: "VoteRecord \<Rightarrow> VoteRecord list \<Rightarrow> f32 \<Rightarrow> (VoteRecord list \<times> f32 \<times> bool) option" where
  "revise_vote new [] acc = None"
| "revise_vote new (rec # votes) acc =
     (if vr_peer rec = vr_peer new then
        if is_newer (vr_clock new) (vr_clock rec) then
          let acc = (if vr_decision rec = Approve then f32_sub acc (vr_credence rec) else acc);
              acc = (if vr_decision new = Approve then f32_add acc (vr_credence new) else acc)
          in Some (new # votes, acc, True)
        else Some (rec # votes, acc, False)
      else map_option (\<lambda>(votes, acc, updated). (rec # votes, acc, updated)) (revise_vote new votes acc))"

definition record_vote :: "VoteRecord \<Rightarrow> 'j Proposal \<Rightarrow> 'j Proposal \<times> bool" where
  "record_vote new proposal =
     (case revise_vote new (pp_votes proposal) (pp_credence_sum proposal) of
        Some (votes, acc, updated) \<Rightarrow> (proposal\<lparr>pp_votes := votes, pp_credence_sum := acc\<rparr>, updated)
      | None \<Rightarrow>
          (proposal\<lparr>pp_votes := pp_votes proposal @ [new],
             pp_credence_sum := (if vr_decision new = Approve
               then f32_add (pp_credence_sum proposal) (vr_credence new) else pp_credence_sum proposal)\<rparr>, True))"

definition vote :: "ProposalId \<Rightarrow> VoteRecord \<Rightarrow> 'j ConsensusEngine \<Rightarrow> 'j ConsensusEngine \<times> NoeticEvent option" where
  "vote pid new e =
     (case bt_get (ce_proposals e) pid of
        None \<Rightarrow> (e, None)
      | Some proposal \<Rightarrow>
          (case record_vote new proposal of (p, updated) \<Rightarrow>
             if \<not> updated then (e, None)
             else if \<not> pp_committed p \<and> f32_ge (pp_credence_sum p) (ce_quorum e)
                     \<and> list_all (\<lambda>v. vr_decision v = Approve) (pp_votes p) then
               let p = p\<lparr>pp_committed := True\<rparr>
               in (e\<lparr>ce_proposals := bt_insert pid p (ce_proposals e)\<rparr>, Some (event_for (ce_quorum e) p Commit))
             else (e\<lparr>ce_proposals := bt_insert pid p (ce_proposals e)\<rparr>, Some (event_for (ce_quorum e) p Vote))))"

definition commit :: "ProposalId \<Rightarrow> 'j ConsensusEngine \<Rightarrow> 'j ConsensusEngine \<times> NoeticEvent option" where
  "commit pid e =
     (case bt_get (ce_proposals e) pid of
        None \<Rightarrow> (e, None)
      | Some proposal \<Rightarrow>
          if pp_committed proposal then (e, None)
          else let p = proposal\<lparr>pp_committed := True\<rparr>
               in (e\<lparr>ce_proposals := bt_insert pid p (ce_proposals e)\<rparr>, Some (event_for (ce_quorum e) p Commit)))"

definition engine_snapshot :: "'j ConsensusEngine \<Rightarrow> 'j ConsensusSnapshot" where
  "engine_snapshot e = \<lparr>cn_quorum = ce_quorum e, cn_proposals = bt_values (ce_proposals e)\<rparr>"

definition engine_restore :: "'j ConsensusSnapshot \<Rightarrow> 'j ConsensusEngine" where
  "engine_restore sn =
     \<lparr>ce_quorum = cn_quorum sn, ce_proposals = fold (\<lambda>p. bt_insert (pp_id p) p) (cn_proposals sn) []\<rparr>"

section \<open>The runtime\<close>

record 'j NoeticRuntime =
  nr_local_peer :: PeerId
  nr_local_credence :: f32
  nr_state :: "'j NoeticState"
  nr_consensus :: "'j ConsensusEngine"

definition f32_one :: f32 where
  "f32_one = F32 False (2 ^ 149)"

text \<open>The single nearest to 0.6.\<close>

definition f32_0_6 :: f32 where
  "f32_0_6 = F32 False (10066330 * 2 ^ 125)"

definition runtime_new :: "'j \<Rightarrow> PeerId \<Rightarrow> 'j NoeticRuntime" where
  "runtime_new json_null local_peer =
     \<lparr>nr_local_peer = local_peer, nr_local_credence = f32_one,
      nr_state = set_credence local_peer f32_one (noetic_new json_null local_peer),
      nr_consensus = engine_new f32_0_6\<rparr>"

definition tick_clock :: "u64 \<Rightarrow> 'j NoeticRuntime \<Rightarrow> 'j NoeticRuntime \<times> Hlc" where
  "tick_clock now r =
     (let clock = hlc_tick now (n_clock (nr_state r))
      in (r\<lparr>nr_state := (nr_state r)\<lparr>n_clock := clock\<rparr>\<rparr>, clock))"

definition runtime_register_peer :: "PeerId \<Rightarrow> f32 \<Rightarrow> 'j NoeticRuntime \<Rightarrow> 'j NoeticRuntime" where
  "runtime_register_peer peer credence r = r\<lparr>nr_state := set_credence peer credence (nr_state r)\<rparr>"

definition runtime_set_quorum :: "f32 \<Rightarrow> 'j NoeticRuntime \<Rightarrow> 'j NoeticRuntime" where
  "runtime_set_quorum quorum r = r\<lparr>nr_consensus := set_quorum quorum (nr_consensus r)\<rparr>"

definition apply_object :: "'j ProposalObject \<Rightarrow> Hlc \<Rightarrow> 'j NoeticState \<Rightarrow> 'j NoeticState" where
  "apply_object obj clock s =
     (case obj of
        ModelObject header topk \<Rightarrow> update_model_topk (topk_entries topk) (topk_updated topk) (apply_model_header header s)
      | SeedObject header status \<Rightarrow> update_seed_status status clock (apply_seed header s)
      | PolicyObject policy \<Rightarrow> update_policy policy s)"

definition apply_commit :: "u64 \<Rightarrow> 'j Proposal \<Rightarrow> 'j NoeticRuntime \<Rightarrow> 'j NoeticRuntime" where
  "apply_commit now proposal r =
     (let s = nr_state r;
          s = s\<lparr>n_clock := hlc_merged (n_clock s) (pp_clock proposal) (nr_local_peer r) now\<rparr>
      in r\<lparr>nr_state := apply_object (pp_object proposal) (pp_clock proposal) s\<rparr>)"

definition process_event :: "u64 \<Rightarrow> NoeticEvent \<Rightarrow> 'j NoeticRuntime \<Rightarrow> 'j NoeticRuntime" where
  "process_event now event r =
     (if em_phase (ne_meta event) = Commit then
        (case bt_get (ce_proposals (nr_consensus r)) (em_id (ne_meta event)) of
           Some proposal \<Rightarrow> apply_commit now proposal r
         | None \<Rightarrow> r)
      else r)"

text \<open>\<open>handle_noetic_propose\<close>: \<open>build\<close> reads the object from the request; the times are the readings of
  the system clock, in their order.\<close>

definition handle_noetic_propose :: "ProposalId \<Rightarrow> (PeerId \<Rightarrow> Hlc \<Rightarrow> string + 'j ProposalObject) \<Rightarrow>
    u64 \<times> u64 \<times> u64 \<Rightarrow> 'j NoeticRuntime \<Rightarrow> 'j NoeticRuntime \<times> (string + NoeticEvent list)" where
  "handle_noetic_propose pid build readings r =
     (case readings of (t1, t2, t3) \<Rightarrow>
        let local_peer = nr_local_peer r; local_credence = nr_local_credence r;
            (r, clock) = tick_clock t1 r
        in case build local_peer clock of
             Inl e \<Rightarrow> (r, Inl e)
           | Inr obj \<Rightarrow>
               let (e, event) = propose pid local_peer obj clock (nr_consensus r);
                   r = process_event t2 event (r\<lparr>nr_consensus := e\<rparr>);
                   (r, vote_clock) = tick_clock t2 r;
                   (e, vote_event) = vote (em_id (ne_meta event))
                     \<lparr>vr_peer = local_peer, vr_decision = Approve, vr_credence = local_credence, vr_clock = vote_clock\<rparr>
                     (nr_consensus r);
                   r = r\<lparr>nr_consensus := e\<rparr>
               in case vote_event of
                    Some ev \<Rightarrow> (process_event t3 ev r, Inr [event, ev])
                  | None \<Rightarrow> (r, Inr [event]))"

text \<open>\<open>f32::clamp\<close> to the unit interval keeps a not-a-number.\<close>

definition clamp_unit :: "f32 \<Rightarrow> f32" where
  "clamp_unit x = (if f32_gt f32_zero x then f32_zero else if f32_gt x f32_one then f32_one else x)"

definition handle_noetic_quorum :: "f32 \<Rightarrow> 'j NoeticRuntime \<Rightarrow> 'j NoeticRuntime" where
  "handle_noetic_quorum quorum r = runtime_set_quorum (clamp_unit quorum) r"

end
