(* ===== verification/Noetic_Properties.thy ===== *)
theory Noetic_Properties
  imports Consensus
begin

text \<open>
  Properties of the replicated state: hybrid logical clocks, convergence of sets and counters, what a
  set's history determines, merging and restoring a peer's state, votes and commits.
\<close>

section \<open>Clocks\<close>

lemma saturating_add_u32_one: "saturating_add_u32 a 1 = (if a = - 1 then - 1 else a + 1)"
  using word_suc_fits [of a] word_suc_fits [of "- 1 :: u32"] by (auto simp: saturating_add_u32_def)

lemma compare_less:
  "phys_ms a < phys_ms b \<or> phys_ms a = phys_ms b \<and> hlc_log a < hlc_log b \<Longrightarrow> hlc_compare ctx a b = Less"
  by (auto simp: hlc_compare_def cmp_def)

lemma max_neq_max_word: "(a :: u32) \<noteq> - 1 \<Longrightarrow> b \<noteq> - 1 \<Longrightarrow> max a b \<noteq> - 1"
  by (simp add: max_def)

lemma merged_later:
  assumes "hlc_log a \<noteq> - 1" "hlc_log b \<noteq> - 1"
  shows "hlc_compare ctx a (hlc_merged a b node now) = Less" "hlc_compare ctx b (hlc_merged a b node now) = Less"
proof -
  have "max (hlc_log a) (hlc_log b) < max (hlc_log a) (hlc_log b) + 1" "hlc_log a < hlc_log a + 1" "hlc_log b < hlc_log b + 1"
    using assms max_neq_max_word by (blast intro: word_less_suc)+
  then show "hlc_compare ctx a (hlc_merged a b node now) = Less" "hlc_compare ctx b (hlc_merged a b node now) = Less"
    by (auto intro!: compare_less simp: hlc_merged_def Let_def max_def split: if_splits)
qed

text \<open>Clocks.  A merged clock is later than both clocks it merges, in every context, as long as neither logical
  counter is at its maximum; ticking gives a later clock or leaves a saturated one unchanged.  At the
  maximum the counter of a merge wraps to zero and the merged clock is earlier than its input.\<close>

theorem clocks_advance:
  "(hlc_log a \<noteq> - 1 \<longrightarrow> hlc_log b \<noteq> - 1 \<longrightarrow>
      hlc_compare ctx a (hlc_merged a b node now) = Less \<and> hlc_compare ctx b (hlc_merged a b node now) = Less)
   \<and> (a < hlc_tick now a \<or> hlc_tick now a = a \<and> hlc_log a = - 1 \<and> now \<le> phys_ms a)
   \<and> (hlc_log a = - 1 \<longrightarrow> phys_ms b \<le> phys_ms a \<longrightarrow> now \<le> phys_ms a \<longrightarrow>
      hlc_compare ctx (hlc_merged a b node now) a = Less)"
proof (intro conjI impI)
  show "a < hlc_tick now a \<or> hlc_tick now a = a \<and> hlc_log a = - 1 \<and> now \<le> phys_ms a"
    using word_less_suc [of "hlc_log a"]
    by (cases a) (auto simp: hlc_tick_def saturating_add_u32_one less_Hlc_def not_less)
  assume "hlc_log a = - 1" "phys_ms b \<le> phys_ms a" "now \<le> phys_ms a"
  then have "phys_ms (hlc_merged a b node now) = phys_ms a" "hlc_log (hlc_merged a b node now) = 0"
    by (auto simp: hlc_merged_def Let_def max_def dest!: word_order.extremum_uniqueI)
  then show "hlc_compare ctx (hlc_merged a b node now) a = Less"
    using \<open>hlc_log a = - 1\<close> by (intro compare_less) (simp add: word_gt_0)
qed (simp_all add: merged_later)

theorem clocks_advance_witness:
  "hlc_compare merge_context_default (Hlc 5 2 [1]) (hlc_merged (Hlc 5 2 [1]) (Hlc 5 7 [2]) [1] 4) = Less
   \<and> hlc_compare merge_context_default (hlc_merged (Hlc 5 (- 1) [1]) (Hlc 3 7 [2]) [1] 4) (Hlc 5 (- 1) [1]) = Less"
  using clocks_advance [of "Hlc 5 2 [1]" "Hlc 5 7 [2]" merge_context_default "[1]" 4]
    clocks_advance [of "Hlc 5 (- 1) [1]" "Hlc 3 7 [2]" merge_context_default "[1]" 4]
  by simp

section \<open>Sets and counters\<close>

lemma merge_by_credence:
  assumes "\<forall>peer. credence_for ctx' peer = credence_for ctx peer"
  shows "orset_merge ctx' = (orset_merge ctx :: 'a :: linorder OrSet \<Rightarrow> _)"
proof -
  have "credence_for ctx' = credence_for ctx" using assms by (simp add: fun_eq_iff)
  then have compare: "hlc_compare ctx' = hlc_compare ctx" by (intro ext) (simp only: hlc_compare_def)
  have put: "put_clock ctx' v = put_clock ctx v" for v :: 'a by (intro ext) (simp only: put_clock_def compare)
  have "orset_insert ctx' v = orset_insert ctx v" "orset_remove ctx' v = orset_remove ctx v" for v :: 'a
    by (intro ext, simp only: orset_insert_def orset_remove_def put)+
  then show ?thesis by (intro ext) (simp only: orset_merge_def)
qed

text \<open>C23: Replicated sets converge under equal credences.  When the merge contexts of two replicas give every peer
  the same credence, and every credence is a number, the replicas are equal after merging the same states,
  whatever the order of the merges and however often a state was merged.  Replicas whose credence tables
  differ are not covered: peers keep tables of their own, and there a tie between clocks can be broken
  differently on the two sides.\<close>

theorem sets_converge:
  assumes "no_nan ctx" "\<forall>peer. credence_for ctx' peer = credence_for ctx peer"
    and "list_all orset_ok (s # xs)" "list_all orset_ok (t # ys)" "set (s # xs) = set (t # ys)"
  shows "foldl (orset_merge ctx) s xs = foldl (orset_merge ctx') t ys"
  unfolding merge_by_credence [OF assms(2)]
  by (rule total_context.sets_agree [OF total_context.intro [OF no_nan_numbers [OF assms(1)]]])
     (use assms in \<open>auto simp: list_all_iff\<close>)

lemma default_no_nan: "no_nan merge_context_default"
  by (simp add: no_nan_def merge_context_default_def merge_context_new_def f32_half_def)

theorem sets_converge_witness:
  "foldl (orset_merge merge_context_default) \<lparr>os_adds = [(1 :: nat, Hlc 1 0 [1])], os_removals = []\<rparr>
      [\<lparr>os_adds = [(1, Hlc 2 0 [2])], os_removals = [(1, Hlc 3 0 [2])]\<rparr>, \<lparr>os_adds = [(2, Hlc 1 0 [3])], os_removals = []\<rparr>] =
   foldl (orset_merge merge_context_default) \<lparr>os_adds = [(2, Hlc 1 0 [3])], os_removals = []\<rparr>
      [\<lparr>os_adds = [(1, Hlc 2 0 [2])], os_removals = [(1, Hlc 3 0 [2])]\<rparr>, \<lparr>os_adds = [(1, Hlc 1 0 [1])], os_removals = []\<rparr>,
       \<lparr>os_adds = [(2, Hlc 1 0 [3])], os_removals = []\<rparr>]"
  by (rule sets_converge [OF default_no_nan]) (auto simp: orset_ok_def bt_wf_Cons)

datatype 'a set_op = AddOp 'a Hlc | RemoveOp 'a Hlc

fun apply_set_op :: "MergeContext \<Rightarrow> 'a :: linorder set_op \<Rightarrow> 'a OrSet \<Rightarrow> 'a OrSet" where
  "apply_set_op ctx (AddOp v clock) s = orset_insert ctx v clock s"
| "apply_set_op ctx (RemoveOp v clock) s = orset_remove ctx v clock s"

text \<open>The clock a map stores for a value is the greatest of those put in.\<close>

definition greatest_clock :: "MergeContext \<Rightarrow> Hlc option \<Rightarrow> Hlc set \<Rightarrow> bool" where
  "greatest_clock ctx x cs \<longleftrightarrow>
     (case x of None \<Rightarrow> cs = {} | Some c \<Rightarrow> c \<in> cs \<and> (\<forall>d\<in>cs. hlc_key ctx d \<le> hlc_key ctx c))"

lemma greatest_clock_put:
  assumes "all_numbers ctx" "greatest_clock ctx x cs"
  shows "greatest_clock ctx (join_opt (clock_max ctx) x (Some c)) (insert c cs)"
  using assms(2)
  by (auto simp: greatest_clock_def join_opt_def clock_max_def hlc_compare_key [OF assms(1)] not_less
      intro: order.trans order.strict_implies_order order.strict_trans1 split: option.splits)

lemma set_history:
  assumes "all_numbers ctx"
  shows "orset_ok (fold (apply_set_op ctx) ops orset_default)
    \<and> greatest_clock ctx (bt_get (os_adds (fold (apply_set_op ctx) ops orset_default)) v) {c. AddOp v c \<in> set ops}
    \<and> greatest_clock ctx (bt_get (os_removals (fold (apply_set_op ctx) ops orset_default)) v) {c. RemoveOp v c \<in> set ops}"
proof (induction ops rule: rev_induct)
  case Nil
  then show ?case by (simp add: orset_ok_def orset_default_def greatest_clock_def)
next
  case (snoc op ops)
  let ?s = "fold (apply_set_op ctx) ops orset_default"
  have wf: "bt_wf m \<Longrightarrow> bt_wf (put_clock ctx w c m)" for w c and m :: "('a, Hlc) btree_map"
    by (auto simp: put_clock_def split: option.splits)
  show ?case
  proof (cases op)
    case (AddOp w c)
    have "{d. d = c \<or> AddOp w d \<in> set ops} = insert c {d. AddOp w d \<in> set ops}" by auto
    then show ?thesis
      using snoc greatest_clock_put [OF assms, of "bt_get (os_adds ?s) w" _ c]
      by (auto simp: AddOp orset_insert_def orset_ok_def wf get_put_clock)
  next
    case (RemoveOp w c)
    have "{d. d = c \<or> RemoveOp w d \<in> set ops} = insert c {d. RemoveOp w d \<in> set ops}" by auto
    then show ?thesis
      using snoc greatest_clock_put [OF assms, of "bt_get (os_removals ?s) w" _ c]
      by (auto simp: RemoveOp orset_remove_def orset_ok_def wf get_put_clock)
  qed
qed

text \<open>What a replicated set contains.  After any sequence of additions and removals the elements are
  exactly the values with an addition that is later than every removal of the value; the order in
  which the operations arrived does not matter.\<close>

theorem set_elements_by_history:
  assumes "no_nan ctx"
  shows "set (orset_elements ctx (fold (apply_set_op ctx) ops orset_default)) =
    {v. \<exists>c. AddOp v c \<in> set ops \<and> (\<forall>r. RemoveOp v r \<in> set ops \<longrightarrow> hlc_compare ctx c r = Greater)}"
  (is "set (orset_elements ctx ?s) = ?E")
proof (rule set_eqI)
  fix v
  have ok: "orset_ok ?s" and adds: "greatest_clock ctx (bt_get (os_adds ?s) v) {c. AddOp v c \<in> set ops}"
    and rems: "greatest_clock ctx (bt_get (os_removals ?s) v) {c. RemoveOp v c \<in> set ops}"
    using set_history [OF no_nan_numbers [OF assms], of ops v] by auto
  have "v \<in> set (orset_elements ctx ?s) \<longleftrightarrow> (\<exists>c. bt_get (os_adds ?s) v = Some c
      \<and> (case bt_get (os_removals ?s) v of Some r \<Rightarrow> hlc_compare ctx c r = Greater | None \<Rightarrow> True))"
    using ok by (force simp: orset_elements_def orset_ok_def dest: bt_get_of_set bt_get_in_set)
  also have "\<dots> \<longleftrightarrow> v \<in> ?E"
    using adds rems
    by (auto simp: greatest_clock_def hlc_compare_key [OF no_nan_numbers [OF assms]] split: option.splits
        intro: order.strict_trans1 order.strict_trans2)
  finally show "v \<in> set (orset_elements ctx ?s) \<longleftrightarrow> v \<in> ?E" .
qed

theorem set_elements_by_history_witness:
  "set (orset_elements merge_context_default (fold (apply_set_op merge_context_default)
     [RemoveOp True (Hlc 5 0 [2]), AddOp True (Hlc 4 0 [1]), AddOp False (Hlc 1 0 [1])] orset_default)) = {False}"
proof -
  define a b c where "a = Hlc 4 0 [1]" and "b = Hlc 1 0 [1]" and "c = Hlc 5 0 [2]"
  have less: "hlc_compare merge_context_default a c = Less" by (rule compare_less) (simp add: a_def c_def)
  have "(\<exists>d. AddOp v d \<in> set [RemoveOp True c, AddOp True a, AddOp False b]
      \<and> (\<forall>r. RemoveOp v r \<in> set [RemoveOp True c, AddOp True a, AddOp False b] \<longrightarrow> hlc_compare merge_context_default d r = Greater))
      \<longleftrightarrow> \<not> v" for v
    by (cases v) (simp_all add: less)
  then show ?thesis
    unfolding a_def [symmetric] b_def [symmetric] c_def [symmetric] set_elements_by_history [OF default_no_nan]
    by (simp only:) auto
qed
lemma pn_bump_ok:
  assumes "map_ok i64_nonneg m" "0 \<le> sint (or_default 0 (bt_get m peer) + i64_abs delta)"
  shows "map_ok i64_nonneg (pn_bump peer delta m)"
  using assms by (auto simp: map_ok_iff pn_bump_def i64_nonneg_def)

text \<open>Replicated counters converge.  Replicas that merged the same counters are equal, in whatever
  order and however often, as long as no entry has overflowed into the negative; an increment that
  does not overflow keeps that condition.\<close>

theorem counters_converge:
  assumes "list_all pn_ok (c # xs)" "list_all pn_ok (d # ys)" "set (c # xs) = set (d # ys)"
  shows "foldl pn_merge c xs = foldl pn_merge d ys
    \<and> (0 \<le> sint (or_default 0 (bt_get (pn_positives c) peer) + i64_abs delta) \<longrightarrow> pn_ok (increment peer delta c))
    \<and> (0 \<le> sint (or_default 0 (bt_get (pn_negatives c) peer) + i64_abs delta) \<longrightarrow> pn_ok (decrement peer delta c))"
proof -
  have "foldl pn_merge c xs = foldl pn_merge d ys"
    by (rule counters.converges) (use assms in \<open>auto simp: list_all_iff\<close>)
  then show ?thesis
    using assms(1) pn_bump_ok by (auto simp: pn_ok_def increment_def decrement_def)
qed

theorem counters_converge_witness:
  "foldl pn_merge (increment [1] 5 pn_default) [increment [2] 3 (decrement [2] 1 pn_default)] =
   foldl pn_merge (increment [2] 3 (decrement [2] 1 pn_default)) [increment [1] 5 pn_default, increment [1] 5 pn_default]"
proof -
  have "list_all pn_ok [increment [1] 5 pn_default, increment [2] 3 (decrement [2] 1 pn_default)]"
    by (simp add: pn_ok_def increment_def decrement_def pn_bump_def pn_default_def map_ok_def or_default_def i64_abs_def
        i64_nonneg_def bt_wf_Cons)
  then show ?thesis
    using counters_converge [of "increment [1] 5 pn_default" "[increment [2] 3 (decrement [2] 1 pn_default)]"
        "increment [2] 3 (decrement [2] 1 pn_default)" "[increment [1] 5 pn_default, increment [1] 5 pn_default]"]
    by auto
qed

section \<open>The state of a peer\<close>

text \<open>The clock an entry carries is the version of its header, and that of a register the time stamp of
  its value.\<close>

definition version_adds :: "('a :: linorder \<Rightarrow> Hlc) \<Rightarrow> 'a OrSet \<Rightarrow> bool" where
  "version_adds version s \<longleftrightarrow> orset_ok s \<and> list_all (\<lambda>(v, c). c = version v) (os_adds s)"

definition noetic_inv :: "'j NoeticState \<Rightarrow> bool" where
  "noetic_inv s \<longleftrightarrow> version_adds rm_version (n_models s) \<and> version_adds eh_version (n_epochs s)
     \<and> version_adds sh_version (n_seeds s) \<and> bt_wf (n_credence s)
     \<and> lww_clock (n_model_topk s) = topk_updated (lww_value (n_model_topk s))
     \<and> lww_clock (n_policies s) = pol_version (lww_value (n_policies s))"

lemma version_adds_iff:
  "version_adds version s \<longleftrightarrow> orset_ok s \<and> (\<forall>v c. bt_get (os_adds s) v = Some c \<longrightarrow> c = version v)"
  by (auto simp: version_adds_def orset_ok_def list_all_iff dest: bt_get_in_set bt_get_of_set)

lemma version_adds_ops:
  "version_adds version orset_default"
  "version_adds version s \<Longrightarrow> version_adds version (orset_insert ctx v (version v) s)"
  "version_adds version s \<Longrightarrow> version_adds version t \<Longrightarrow> version_adds version (orset_merge ctx s t)"
proof -
  show "version_adds version orset_default" by (simp add: version_adds_iff orset_ok_def orset_default_def)
  have wf: "bt_wf m \<Longrightarrow> bt_wf (put_clock ctx w c m)" for w c and m :: "('a, Hlc) btree_map"
    by (auto simp: put_clock_def split: option.splits)
  show "version_adds version s \<Longrightarrow> version_adds version (orset_insert ctx v (version v) s)"
    by (auto simp: version_adds_iff orset_ok_def orset_insert_def wf get_put_clock join_opt_def clock_max_def
        split: if_splits option.splits)
  show "version_adds version s \<Longrightarrow> version_adds version t \<Longrightarrow> version_adds version (orset_merge ctx s t)"
    by (auto simp: version_adds_iff orset_ok_def orset_merge_clocks wf_put_clocks get_put_clocks join_opt_def clock_max_def
        split: if_splits option.splits)
qed

lemma wf_raise: "bt_wf m \<Longrightarrow> bt_wf (fold raise_credence es m)"
  by (rule bt_wf_fold) (auto simp: raise_credence_def Let_def split: prod.splits)

lemma noetic_inv_ops:
  "noetic_inv (noetic_new j peer)"
  "noetic_inv s \<Longrightarrow> noetic_inv (set_credence peer v s)"
  "noetic_inv s \<Longrightarrow> noetic_inv (apply_model_header m s)"
  "noetic_inv s \<Longrightarrow> noetic_inv (apply_epoch e s)"
  "noetic_inv s \<Longrightarrow> noetic_inv (apply_seed d s)"
  "noetic_inv s \<Longrightarrow> noetic_inv (update_seed_status st h s)"
  "noetic_inv s \<Longrightarrow> noetic_inv (update_model_topk ks h s)"
  "noetic_inv s \<Longrightarrow> noetic_inv (update_policy pol s)"
  "noetic_inv s \<Longrightarrow> noetic_inv t \<Longrightarrow> noetic_inv (noetic_merge s t)"
  by (simp_all add: noetic_inv_def noetic_new_def set_credence_def apply_model_header_def apply_epoch_def apply_seed_def
      update_seed_status_def update_model_topk_def update_policy_def noetic_merge_def lww_merge_def version_adds_ops
      wf_raise Let_def)

lemma put_clocks_versions:
  assumes "sorted_wrt (<) vs"
  shows "fold (\<lambda>v. orset_insert ctx v (version v)) vs orset_default =
    \<lparr>os_adds = map (\<lambda>v. (v, version v)) vs, os_removals = []\<rparr>"
proof -
  have "fold (\<lambda>v. orset_insert ctx v (version v)) vs s = s\<lparr>os_adds := put_clocks ctx (os_adds s) (map (\<lambda>v. (v, version v)) vs)\<rparr>" for s
    by (induction vs arbitrary: s) (simp_all add: put_clocks_def orset_insert_def)
  moreover have wf: "bt_wf (map (\<lambda>v. (v, version v)) vs)"
    using assms by (simp add: bt_wf_def comp_def)
  have "put_clocks ctx [] (map (\<lambda>v. (v, version v)) vs) = map (\<lambda>v. (v, version v)) vs"
    by (rule bt_ext) (simp_all add: wf wf_put_clocks get_put_clocks join_opt_def)
  ultimately show ?thesis by (simp add: orset_default_def)
qed

lemma elements_sorted: "orset_ok s \<Longrightarrow> sorted_wrt (<) (orset_elements ctx s)"
  by (auto simp: orset_ok_def bt_wf_def orset_elements_def sorted_wrt_map intro: sorted_wrt_filter)

lemma elements_restored:
  "orset_ok s \<Longrightarrow> orset_elements ctx' (fold (\<lambda>v. orset_insert ctx v (version v)) (orset_elements ctx'' s) orset_default) =
     orset_elements ctx'' s"
  by (subst put_clocks_versions) (simp_all add: elements_sorted, simp add: orset_elements_def filter_map comp_def)

text \<open>A snapshot restores the summary.  Restoring the snapshot of a state that arose from the
  operations gives a state with the same credences and registers and the same elements, and with the
  same summary under every digest; the hybrid clock starts again at zero and all removals are
  forgotten.\<close>

theorem restored_summary:
  assumes "noetic_inv s"
  shows "summary blake3 (noetic_restore j (noetic_snapshot s)) = summary blake3 s
    \<and> n_credence (noetic_restore j (noetic_snapshot s)) = n_credence s
    \<and> n_policies (noetic_restore j (noetic_snapshot s)) = n_policies s
    \<and> n_model_topk (noetic_restore j (noetic_snapshot s)) = n_model_topk s
    \<and> n_seed_status (noetic_restore j (noetic_snapshot s)) = n_seed_status s
    \<and> n_clock (noetic_restore j (noetic_snapshot s)) = hlc_new (n_peer s) 0
    \<and> os_removals (n_models (noetic_restore j (noetic_snapshot s))) = []"
proof -
  have ok: "orset_ok (n_models s)" "orset_ok (n_epochs s)" "orset_ok (n_seeds s)"
    using assms by (simp_all add: noetic_inv_def version_adds_def)
  have regs: "lww_new (lww_value (n_model_topk s)) (topk_updated (lww_value (n_model_topk s))) = n_model_topk s"
    "lww_new (lww_value (n_seed_status s)) (lww_clock (n_seed_status s)) = n_seed_status s"
    "lww_new (lww_value (n_policies s)) (pol_version (lww_value (n_policies s))) = n_policies s"
    using assms by (simp_all add: noetic_inv_def)
  have rem: "os_removals (n_models (noetic_restore j (noetic_snapshot s))) = []"
    using put_clocks_versions [OF elements_sorted [OF ok(1)], of _ rm_version]
    by (simp add: noetic_restore_def noetic_snapshot_def noetic_new_def Let_def)
  show ?thesis
    using ok regs rem
    by (simp add: summary_def summary_input_def noetic_restore_def noetic_snapshot_def noetic_new_def Let_def elements_restored)
qed

theorem restored_summary_witness:
  "summary (\<lambda>_. ''x'') (noetic_restore () (noetic_snapshot (apply_epoch (EpochHeader 7 (Hlc 3 0 [1]) ''h'')
      (noetic_new () [1])))) =
   summary (\<lambda>_. ''x'') (apply_epoch (EpochHeader 7 (Hlc 3 0 [1]) ''h'') (noetic_new () [1]))"
  by (rule restored_summary [OF noetic_inv_ops(4) [OF noetic_inv_ops(1)], THEN conjunct1])

lemma get_raised:
  assumes "bt_wf other"
  shows "bt_get (fold raise_credence other m) p = join_opt (\<lambda>x v. if f32_gt v x then v else x) (bt_get m p) (bt_get other p)"
proof -
  have "bt_get (fold raise_credence other m) p = (case bt_get other p of None \<Rightarrow> bt_get m p
      | Some v \<Rightarrow> Some (if f32_gt v (or_default v (bt_get m p)) then v else or_default v (bt_get m p)))"
    by (rule bt_get_fold [OF _ assms]) (simp add: raise_credence_def Let_def)
  then show ?thesis by (auto simp: join_opt_def or_default_def split: option.splits)
qed

definition numbers :: "'j NoeticState \<Rightarrow> bool" where
  "numbers s \<longleftrightarrow> list_all (\<lambda>(p, c). c \<noteq> F32NaN) (n_credence s)"

lemma numbers_get: "bt_wf (n_credence s) \<Longrightarrow> numbers s \<longleftrightarrow> (\<forall>p c. bt_get (n_credence s) p = Some c \<longrightarrow> c \<noteq> F32NaN)"
  by (auto simp: numbers_def list_all_iff dest: bt_get_in_set bt_get_of_set)

lemma set_peer_simps [simp]:
  "mc_default (set_peer p v ctx) = mc_default ctx"
  "credence_for (set_peer p v ctx) q = (if q = p then v else credence_for ctx q)"
  by (simp_all add: set_peer_def credence_for_def split: option.split)

lemma fold_set_peer:
  assumes "bt_wf cs"
  shows "credence_for (fold (\<lambda>(p, v). set_peer p v) cs ctx) q = or_default (credence_for ctx q) (bt_get cs q)"
  using assms
proof (induction cs arbitrary: ctx)
  case (Cons e cs)
  obtain p v where e: "e = (p, v)" by (cases e)
  have "bt_get cs p = None" using Cons.prems by (fastforce simp: e bt_wf_Cons bt_get_None_iff)
  then show ?case using Cons by (auto simp: e bt_wf_Cons or_default_def split: option.splits)
qed (simp add: or_default_def)

text \<open>The context of a merge: the greater credence of the two replicas.\<close>

definition joint_credence :: "'j NoeticState \<Rightarrow> 'j NoeticState \<Rightarrow> PeerId \<Rightarrow> f32" where
  "joint_credence s t p =
     or_default f32_half (join_opt (\<lambda>x v. if f32_gt v x then v else x) (bt_get (n_credence s) p) (bt_get (n_credence t) p))"

lemma raise_nothing:
  assumes "\<And>p v. (p, v) \<in> set cs \<Longrightarrow> \<not> f32_gt v (credence_for ctx p)"
  shows "fold (\<lambda>(p, v) ctx. if f32_gt v (credence_for ctx p) then set_peer p v ctx else ctx) cs ctx = ctx"
  using assms
proof (induction cs)
  case (Cons e cs)
  then show ?case by (cases e) simp
qed simp

lemma merge_ctx:
  assumes wf: "bt_wf (n_credence s)" "bt_wf (n_credence t)"
  defines "ctx \<equiv> merge_context (s\<lparr>n_credence := fold raise_credence (n_credence t) (n_credence s)\<rparr>) (Some t)"
  shows "credence_for ctx p = joint_credence s t p"
proof -
  let ?m = "fold raise_credence (n_credence t) (n_credence s)"
  let ?c = "fold (\<lambda>(p, v). set_peer p v) ?m merge_context_default"
  have c: "credence_for ?c q = joint_credence s t q" for q
    using fold_set_peer [OF wf_raise [OF wf(1)], of "n_credence t" merge_context_default q] get_raised [OF wf(2), of "n_credence s" q]
    by (simp add: joint_credence_def merge_context_default_def merge_context_new_def credence_for_def)
  have "\<not> f32_gt v (joint_credence s t q)" if "(q, v) \<in> set (n_credence t)" for q v
    using bt_get_of_set [OF wf(2) that]
    by (auto simp: joint_credence_def join_opt_def or_default_def f32_gt_iff split: option.splits)
  then have "ctx = ?c" unfolding ctx_def merge_context_def Let_def by (simp add: raise_nothing c)
  then show ?thesis using c by simp
qed

lemma joint_credence_sym:
  assumes "bt_wf (n_credence s)" "bt_wf (n_credence t)" "numbers s" "numbers t"
  shows "f32_rank (joint_credence s t p) = f32_rank (joint_credence t s p)" "joint_credence s t p \<noteq> F32NaN"
  using assms numbers_get [of s] numbers_get [of t]
  by (auto simp: joint_credence_def join_opt_def or_default_def f32_gt_iff f32_half_def not_less split: option.splits)

lemma compare_cong:
  assumes "\<And>p. f32_rank (credence_for ctx p) = f32_rank (credence_for ctx' p)" "all_numbers ctx" "all_numbers ctx'"
  shows "hlc_compare ctx = hlc_compare ctx'"
  by (intro ext) (simp add: hlc_compare_key assms hlc_key_def)

lemma merges_cong:
  assumes "hlc_compare ctx = hlc_compare ctx'"
  shows "orset_merge ctx = orset_merge ctx'" "lww_merge ctx = lww_merge ctx'"
proof -
  have put: "put_clock ctx = put_clock ctx'"
    by (intro ext) (simp add: put_clock_def assms split: option.split)
  show "orset_merge ctx = orset_merge ctx'"
    by (intro ext) (simp only: orset_merge_def orset_insert_def [abs_def] orset_remove_def [abs_def] put)
  show "lww_merge ctx = lww_merge ctx'" by (intro ext) (simp only: lww_merge_def assms)
qed

text \<open>Two registers that hold the same value whenever they have the same clock.\<close>

definition same_stamp :: "'a Lww \<Rightarrow> 'a Lww \<Rightarrow> bool" where
  "same_stamp a b \<longleftrightarrow> (lww_clock a = lww_clock b \<longrightarrow> lww_value a = lww_value b)"

lemma lww_commute: "all_numbers ctx \<Longrightarrow> same_stamp a b \<Longrightarrow> lww_merge ctx a b = lww_merge ctx b a"
  using hlc_key_inject [of ctx "lww_clock a" "lww_clock b"]
  by (auto simp: lww_merge_def hlc_compare_key same_stamp_def dest: order.asym intro: Lww.equality)

text \<open>C24: Merging two peers' states is symmetric.  When the credences are numbers and equal time stamps
  carry equal values, merging a peer's state into another's and the other way round give the same
  models, epochs, seeds, ranking, seed status and policy, and credences of the same rank, whatever
  the two peers believed of each other's credence before.\<close>

theorem noetic_merge_symmetric:
  assumes "noetic_inv s" "noetic_inv t" "numbers s" "numbers t"
    and "same_stamp (n_model_topk s) (n_model_topk t)" "same_stamp (n_seed_status s) (n_seed_status t)"
      "same_stamp (n_policies s) (n_policies t)"
  shows "n_models (noetic_merge s t) = n_models (noetic_merge t s) \<and> n_epochs (noetic_merge s t) = n_epochs (noetic_merge t s)
    \<and> n_seeds (noetic_merge s t) = n_seeds (noetic_merge t s) \<and> n_model_topk (noetic_merge s t) = n_model_topk (noetic_merge t s)
    \<and> n_seed_status (noetic_merge s t) = n_seed_status (noetic_merge t s)
    \<and> n_policies (noetic_merge s t) = n_policies (noetic_merge t s)
    \<and> map_option f32_rank (bt_get (n_credence (noetic_merge s t)) p) = map_option f32_rank (bt_get (n_credence (noetic_merge t s)) p)"
proof -
  have wf: "bt_wf (n_credence s)" "bt_wf (n_credence t)" using assms(1,2) by (simp_all add: noetic_inv_def)
  have ok: "orset_ok (n_models s)" "orset_ok (n_models t)" "orset_ok (n_epochs s)" "orset_ok (n_epochs t)"
      "orset_ok (n_seeds s)" "orset_ok (n_seeds t)"
    using assms(1,2) by (simp_all add: noetic_inv_def version_adds_def)
  define c1 where "c1 = merge_context (s\<lparr>n_credence := fold raise_credence (n_credence t) (n_credence s)\<rparr>) (Some t)"
  define c2 where "c2 = merge_context (t\<lparr>n_credence := fold raise_credence (n_credence s) (n_credence t)\<rparr>) (Some s)"
  have c: "credence_for c1 q = joint_credence s t q" "credence_for c2 q = joint_credence t s q" for q
    using merge_ctx [OF wf] merge_ctx [OF wf(2,1)] by (simp_all add: c1_def c2_def)
  have num: "all_numbers c1" "all_numbers c2"
    using joint_credence_sym(2) [OF wf assms(3,4)] joint_credence_sym(2) [OF wf(2,1) assms(4,3)]
    by (simp_all add: all_numbers_def c)
  have same: "hlc_compare c1 = hlc_compare c2"
    by (rule compare_cong) (simp_all add: c num joint_credence_sym(1) [OF wf assms(3,4)])
  note merges = merges_cong [OF same]
  have sets: "orset_ok a \<Longrightarrow> orset_ok b \<Longrightarrow> orset_merge c1 a b = orset_merge c1 b a" for a b :: "'x :: linorder OrSet"
    by (rule total_context.sets_commute [OF total_context.intro [OF num(1)]])
  have creds: "map_option f32_rank (bt_get (n_credence (noetic_merge s t)) p) =
      map_option f32_rank (bt_get (n_credence (noetic_merge t s)) p)"
    using assms(3,4) numbers_get [OF wf(1)] numbers_get [OF wf(2)]
    by (auto simp: noetic_merge_def Let_def get_raised wf join_opt_def f32_gt_iff not_less split: option.splits)
  show ?thesis
    using creds ok lww_commute [OF num(1) assms(5)] lww_commute [OF num(1) assms(6)] lww_commute [OF num(1) assms(7)]
    by (simp add: noetic_merge_def Let_def c1_def [symmetric] c2_def [symmetric] merges [symmetric] sets)
qed

text \<open>A peer's state with one credence and one ranking.\<close>

definition ranked_peer :: "PeerId \<Rightarrow> (PeerId \<times> f32) list \<Rightarrow> string \<Rightarrow> u64 \<Rightarrow> unit NoeticState" where
  "ranked_peer peer creds entry t =
     update_model_topk [entry] (hlc_new peer t) (fold (\<lambda>(p, c). set_credence p c) creds (noetic_new () peer))"

lemma ranked_peer_ok: "noetic_inv (ranked_peer peer creds entry t)"
proof -
  have "noetic_inv (fold (\<lambda>(p, c). set_credence p c) creds s)" if "noetic_inv s" for s :: "unit NoeticState"
    using that by (induction creds arbitrary: s) (auto simp: noetic_inv_ops)
  then show ?thesis by (simp add: ranked_peer_def noetic_inv_ops)
qed

lemmas ranked_defs = ranked_peer_def update_model_topk_def set_credence_def noetic_new_def Let_def lww_merge_def
  hlc_new_def hlc_compare_def cmp_def f32_partial_cmp_def f32_gt_def f32_int_def merge_context_def merge_context_default_def
  merge_context_new_def credence_for_def set_peer_def f32_one_def f32_half_def

theorem noetic_merge_symmetric_witness:
  "lww_value (n_model_topk (noetic_merge (ranked_peer [1] [] ''a'' 5) (ranked_peer [2] [([2], f32_one)] ''b'' 5))) =
   lww_value (n_model_topk (noetic_merge (ranked_peer [2] [([2], f32_one)] ''b'' 5) (ranked_peer [1] [] ''a'' 5)))"
proof -
  let ?s = "ranked_peer [1] [] ''a'' 5" and ?t = "ranked_peer [2] [([2], f32_one)] ''b'' 5"
  have n: "numbers ?s" "numbers ?t"
    by (simp_all add: numbers_def ranked_peer_def update_model_topk_def set_credence_def noetic_new_def Let_def f32_one_def)
  have st: "same_stamp (n_model_topk ?s) (n_model_topk ?t)" "same_stamp (n_seed_status ?s) (n_seed_status ?t)"
    "same_stamp (n_policies ?s) (n_policies ?t)"
    by (simp_all add: same_stamp_def ranked_defs)
  show ?thesis using noetic_merge_symmetric [OF ranked_peer_ok ranked_peer_ok n st] by simp
qed

text \<open>The order of merges matters between three peers.  The tie between two rankings with the same
  time stamp is broken by the credences known at that merge, and a merge forgets the losing ranking:
  a peer that meets the other two in different orders ends with different rankings, although the same
  three states were merged and every credence is a number.\<close>

theorem merge_order_matters:
  "\<exists>a b c :: unit NoeticState. noetic_inv a \<and> noetic_inv b \<and> noetic_inv c \<and> numbers a \<and> numbers b \<and> numbers c
    \<and> topk_entries (lww_value (n_model_topk (noetic_merge (noetic_merge a b) c))) \<noteq>
      topk_entries (lww_value (n_model_topk (noetic_merge (noetic_merge a c) b)))"
proof (intro exI conjI)
  let ?a = "ranked_peer [2] [] ''a'' 5" and ?b = "ranked_peer [1] [] ''b'' 5" and ?c = "ranked_peer [3] [([1], f32_one)] ''c'' 4"
  show "noetic_inv ?a" "noetic_inv ?b" "noetic_inv ?c" by (rule ranked_peer_ok)+
  show "numbers ?a" "numbers ?b" "numbers ?c"
    by (simp_all add: numbers_def ranked_peer_def update_model_topk_def set_credence_def noetic_new_def Let_def f32_one_def)
  show "topk_entries (lww_value (n_model_topk (noetic_merge (noetic_merge ?a ?b) ?c))) \<noteq>
      topk_entries (lww_value (n_model_topk (noetic_merge (noetic_merge ?a ?c) ?b)))"
    by (simp add: ranked_defs noetic_merge_def raise_credence_def or_default_def hlc_merged_def)
qed

text \<open>Two peers are reported in sync only by a collision.  The digest of a summary covers the
  peer's own identifier: when the summaries of two peers agree, the digest maps two different inputs
  to the same text, however equal the replicated contents are.\<close>

theorem sync_needs_collision:
  assumes "is_in_sync_with (summary blake3 s) (summary blake3 t)" "length (n_peer s) = 32" "length (n_peer t) = 32"
    and "n_peer s \<noteq> n_peer t"
  shows "\<exists>x y. x \<noteq> y \<and> blake3 x = blake3 y"
proof -
  have "summary_input s ms es ds \<noteq> summary_input t ms' es' ds'" for ms es ds ms' es' ds'
    using assms(2-4) by (auto simp: summary_input_def)
  then show ?thesis using assms(1) by (fastforce simp: is_in_sync_with_def summary_def Let_def)
qed

theorem sync_needs_collision_witness:
  "is_in_sync_with (summary (\<lambda>_. ''x'') (noetic_new () (replicate 32 0))) (summary (\<lambda>_. ''x'') (noetic_new () (replicate 32 1)))
   \<and> (\<exists>x y. x \<noteq> y \<and> (\<lambda>_ :: bytes. ''x'') x = (\<lambda>_ :: bytes. ''x'') y)"
proof -
  have sync: "is_in_sync_with (summary (\<lambda>_. ''x'') (noetic_new () (replicate 32 0)))
      (summary (\<lambda>_. ''x'') (noetic_new () (replicate 32 1)))"
    by (simp add: is_in_sync_with_def summary_def Let_def)
  have "length (n_peer (noetic_new () (replicate 32 0))) = 32" "length (n_peer (noetic_new () (replicate 32 1))) = 32"
    "n_peer (noetic_new () (replicate 32 0)) \<noteq> n_peer (noetic_new () (replicate 32 1))"
    by (simp_all add: noetic_new_def Let_def)
  from sync_needs_collision [OF sync this] sync show ?thesis by blast
qed

section \<open>Votes\<close>

lemma is_newer_less: "is_newer a b \<longleftrightarrow> b < a"
  by (auto simp: is_newer_def less_Hlc_def)

lemma revise_vote_None: "revise_vote new votes acc = None \<longleftrightarrow> vr_peer new \<notin> vr_peer ` set votes"
  by (induction votes) (auto simp: Let_def)

lemma revise_vote_Some:
  assumes "revise_vote new votes acc = Some (votes', acc', updated)" "distinct (map vr_peer votes)"
  shows "votes' = map (\<lambda>r. if vr_peer r = vr_peer new \<and> vr_clock r < vr_clock new then new else r) votes
    \<and> (updated \<or> votes' = votes \<and> acc' = acc)"
  using assms
proof (induction votes arbitrary: votes')
  case (Cons r votes)
  have rest: "map (\<lambda>r. if vr_peer r = vr_peer new \<and> vr_clock r < vr_clock new then new else r) votes = votes"
    if "vr_peer r = vr_peer new"
  proof (rule map_idI)
    fix x
    assume "x \<in> set votes"
    then have "vr_peer x \<in> vr_peer ` set votes" by simp
    then show "(if vr_peer x = vr_peer new \<and> vr_clock x < vr_clock new then new else x) = x"
      using Cons.prems(2) that by auto
  qed
  show ?case
    using Cons rest by (auto simp: is_newer_less Let_def split: if_splits)
qed simp

definition votes_inv :: "VoteRecord list \<Rightarrow> VoteRecord list \<Rightarrow> bool" where
  "votes_inv vs votes \<longleftrightarrow> distinct (map vr_peer votes) \<and> set votes \<subseteq> set vs
     \<and> (\<forall>v\<in>set vs. \<exists>r\<in>set votes. vr_peer r = vr_peer v \<and> vr_clock v \<le> vr_clock r)"

lemma peers_revised:
  "map vr_peer (map (\<lambda>r. if vr_peer r = vr_peer new \<and> Q r then new else r) votes) = map vr_peer votes"
  by (induction votes) auto

lemma record_vote_inv:
  assumes "votes_inv vs (pp_votes p)" "record_vote v p = (p', updated)"
  shows "votes_inv (vs @ [v]) (pp_votes p')" "\<not> updated \<Longrightarrow> p' = p"
proof -
  have dist: "distinct (map vr_peer (pp_votes p))" using assms(1) by (simp add: votes_inv_def)
  show "votes_inv (vs @ [v]) (pp_votes p')"
  proof (cases "revise_vote v (pp_votes p) (pp_credence_sum p)")
    case None
    then have "vr_peer v \<notin> vr_peer ` set (pp_votes p)" by (simp add: revise_vote_None)
    with None assms show ?thesis by (auto simp: record_vote_def votes_inv_def)
  next
    case (Some q)
    obtain votes' acc' upd where q: "q = (votes', acc', upd)" by (cases q)
    have votes': "votes' = map (\<lambda>r. if vr_peer r = vr_peer v \<and> vr_clock r < vr_clock v then v else r) (pp_votes p)"
      using revise_vote_Some [OF Some [unfolded q] dist] by simp
    have p': "pp_votes p' = votes'" using assms(2) Some by (auto simp: record_vote_def q)
    have "distinct (map vr_peer votes')" unfolding votes' peers_revised by (rule dist)
    moreover have "set votes' \<subseteq> set (vs @ [v])" using assms(1) by (auto simp: votes' votes_inv_def)
    moreover have "\<exists>r\<in>set votes'. vr_peer r = vr_peer w \<and> vr_clock w \<le> vr_clock r" if "w \<in> set (vs @ [v])" for w
    proof -
      have "\<exists>r\<in>set (pp_votes p). vr_peer r = vr_peer w \<and> (w = v \<or> vr_clock w \<le> vr_clock r)"
      proof (cases "w = v")
        case True
        then show ?thesis using Some revise_vote_None [of v "pp_votes p" "pp_credence_sum p"] by force
      next
        case False
        then show ?thesis using assms(1) that by (auto simp: votes_inv_def)
      qed
      then obtain r where r: "r \<in> set (pp_votes p)" "vr_peer r = vr_peer w" "w = v \<or> vr_clock w \<le> vr_clock r" by blast
      let ?r = "if vr_peer r = vr_peer v \<and> vr_clock r < vr_clock v then v else r"
      have "?r \<in> set votes'" using r(1) by (auto simp: votes')
      moreover have "vr_peer ?r = vr_peer w" "vr_clock w \<le> vr_clock ?r" using r(2,3) by (auto simp: not_less)
      ultimately show ?thesis by blast
    qed
    ultimately show ?thesis unfolding p' votes_inv_def by blast
  qed
  show "p' = p" if "\<not> updated"
    using assms(2) that dist
    by (auto simp: record_vote_def split: option.splits prod.splits dest: revise_vote_Some)
qed

lemma vote_proposal:
  assumes "bt_get (ce_proposals e) pid = Some p" "votes_inv vs (pp_votes p)"
  shows "\<exists>p'. bt_get (ce_proposals (fst (vote pid v e))) pid = Some p' \<and> votes_inv (vs @ [v]) (pp_votes p')"
proof -
  obtain q updated where q: "record_vote v p = (q, updated)" by (cases "record_vote v p")
  note inv = record_vote_inv [OF assms(2) q]
  show ?thesis
    using assms(1) inv by (cases updated) (auto simp: vote_def q Let_def split: if_splits)
qed

lemma votes_history:
  assumes "bt_get (ce_proposals e) pid = Some p" "votes_inv ws (pp_votes p)"
  shows "\<exists>p'. bt_get (ce_proposals (fold (\<lambda>v e. fst (vote pid v e)) vs e)) pid = Some p' \<and> votes_inv (ws @ vs) (pp_votes p')"
  using assms
proof (induction vs arbitrary: e p ws)
  case (Cons v vs)
  obtain p1 where "bt_get (ce_proposals (fst (vote pid v e))) pid = Some p1" "votes_inv (ws @ [v]) (pp_votes p1)"
    using vote_proposal [OF Cons.prems] by blast
  from Cons.IH [OF this] show ?case by simp
qed auto

text \<open>C22: A peer's newest vote counts.  After any sequence of votes on a proposal, in whatever order they
  arrive, its records are exactly the votes that are the newest of their peer, one for each peer,
  provided a peer never uses the same clock for two different votes.\<close>

theorem newest_votes_count:
  assumes "bt_get (ce_proposals e) pid = Some p" "pp_votes p = []"
    and "\<forall>v\<in>set vs. \<forall>w\<in>set vs. vr_peer v = vr_peer w \<and> vr_clock v = vr_clock w \<longrightarrow> v = w"
  shows "\<exists>p'. bt_get (ce_proposals (fold (\<lambda>v e. fst (vote pid v e)) vs e)) pid = Some p'
    \<and> distinct (map vr_peer (pp_votes p'))
    \<and> set (pp_votes p') = {v \<in> set vs. \<forall>w\<in>set vs. vr_peer w = vr_peer v \<longrightarrow> vr_clock w \<le> vr_clock v}"
proof -
  have "votes_inv [] (pp_votes p)" by (simp add: votes_inv_def assms(2))
  from votes_history [OF assms(1) this, of vs] obtain p' where
      p': "bt_get (ce_proposals (fold (\<lambda>v e. fst (vote pid v e)) vs e)) pid = Some p'" "votes_inv vs (pp_votes p')"
    by auto
  have dist: "distinct (map vr_peer (pp_votes p'))" and sub: "set (pp_votes p') \<subseteq> set vs"
    and newest: "\<forall>v\<in>set vs. \<exists>r\<in>set (pp_votes p'). vr_peer r = vr_peer v \<and> vr_clock v \<le> vr_clock r"
    using p'(2) by (auto simp: votes_inv_def)
  have one: "r = q" if "r \<in> set (pp_votes p')" "q \<in> set (pp_votes p')" "vr_peer r = vr_peer q" for r q
    using dist that by (auto simp: distinct_map inj_on_def)
  have "v \<in> set (pp_votes p') \<longleftrightarrow> v \<in> set vs \<and> (\<forall>w\<in>set vs. vr_peer w = vr_peer v \<longrightarrow> vr_clock w \<le> vr_clock v)" for v
    using newest sub one assms(3) by (metis order.antisym subsetD)
  then show ?thesis using p'(1) dist by blast
qed

definition sample_engine :: "unit ConsensusEngine" where
  "sample_engine = fst (propose_policy 7 [1] \<lparr>pol_version = Hlc 1 0 [1], pol_hash = ''h'', pol_payload = ()\<rparr> (Hlc 1 0 [1])
     (engine_new f32_0_6))"

abbreviation sample_vote :: "PeerId \<Rightarrow> VoteDecision \<Rightarrow> f32 \<Rightarrow> u64 \<Rightarrow> VoteRecord" where
  "sample_vote peer decision credence t \<equiv>
     \<lparr>vr_peer = peer, vr_decision = decision, vr_credence = credence, vr_clock = Hlc t 0 peer\<rparr>"

lemma sample_proposal: "\<exists>p. bt_get (ce_proposals sample_engine) 7 = Some p \<and> pp_votes p = [] \<and> \<not> pp_committed p"
  by (simp add: sample_engine_def propose_policy_def propose_def engine_new_def Let_def)

theorem newest_votes_count_witness:
  "\<exists>p'. bt_get (ce_proposals (fold (\<lambda>v e. fst (vote 7 v e))
       [sample_vote [2] Reject f32_half 6, sample_vote [2] Approve f32_half 5] sample_engine)) 7 = Some p'
     \<and> set (pp_votes p') = {sample_vote [2] Reject f32_half 6}"
proof -
  let ?vs = "[sample_vote [2] Reject f32_half 6, sample_vote [2] Approve f32_half 5]"
  obtain p where p: "bt_get (ce_proposals sample_engine) 7 = Some p" "pp_votes p = []" using sample_proposal by blast
  have "\<forall>v\<in>set ?vs. \<forall>w\<in>set ?vs. vr_peer v = vr_peer w \<and> vr_clock v = vr_clock w \<longrightarrow> v = w" by simp
  from newest_votes_count [OF p this]
  have "\<exists>p'. bt_get (ce_proposals (fold (\<lambda>v e. fst (vote 7 v e)) ?vs sample_engine)) 7 = Some p'
      \<and> set (pp_votes p') = {v \<in> set ?vs. \<forall>w\<in>set ?vs. vr_peer w = vr_peer v \<longrightarrow> vr_clock w \<le> vr_clock v}" by blast
  moreover have "{v \<in> set ?vs. \<forall>w\<in>set ?vs. vr_peer w = vr_peer v \<longrightarrow> vr_clock w \<le> vr_clock v} = {sample_vote [2] Reject f32_half 6}"
    by (auto simp: less_eq_Hlc_def)
  ultimately show ?thesis by simp
qed

section \<open>Commits\<close>

text \<open>A run of the engine: quorum changes, proposals under fresh identifiers, votes and, where \<open>forced\<close>
  holds, explicit commits; \<open>evs\<close> are the events returned.\<close>

inductive engine_run :: "bool \<Rightarrow> 'j ConsensusEngine \<Rightarrow> NoeticEvent list \<Rightarrow> bool" for forced where
  start: "engine_run forced (engine_new quorum) []"
| quorum: "engine_run forced e evs \<Longrightarrow> engine_run forced (set_quorum q e) evs"
| proposed: "engine_run forced e evs \<Longrightarrow> bt_get (ce_proposals e) pid = None \<Longrightarrow>
    propose pid proposer obj clock e = (e', ev) \<Longrightarrow> engine_run forced e' (evs @ [ev])"
| voted: "engine_run forced e evs \<Longrightarrow> vote pid v e = (e', Some ev) \<Longrightarrow> engine_run forced e' (evs @ [ev])"
| committed: "forced \<Longrightarrow> engine_run forced e evs \<Longrightarrow> commit pid e = (e', Some ev) \<Longrightarrow> engine_run forced e' (evs @ [ev])"

definition commits_of :: "ProposalId \<Rightarrow> NoeticEvent list \<Rightarrow> nat" where
  "commits_of pid evs = length (filter (\<lambda>ev. em_phase (ne_meta ev) = Commit \<and> em_id (ne_meta ev) = pid) evs)"

definition engine_inv :: "'j ConsensusEngine \<Rightarrow> NoeticEvent list \<Rightarrow> bool" where
  "engine_inv e evs \<longleftrightarrow> bt_wf (ce_proposals e) \<and> (\<forall>pid p. bt_get (ce_proposals e) pid = Some p \<longrightarrow> pp_id p = pid)
     \<and> (\<forall>pid. commits_of pid evs = (case bt_get (ce_proposals e) pid of Some p \<Rightarrow> of_bool (pp_committed p) | None \<Rightarrow> 0))"

lemma record_vote_keeps: "record_vote v p = (p', updated) \<Longrightarrow> pp_id p' = pp_id p \<and> pp_committed p' = pp_committed p"
  by (auto simp: record_vote_def split: option.splits prod.splits)

lemma vote_Some:
  assumes "vote pid v e = (e', Some ev)"
  obtains p p' c where "bt_get (ce_proposals e) pid = Some p" "pp_id p' = pp_id p"
    "e' = e\<lparr>ce_proposals := bt_insert pid p' (ce_proposals e)\<rparr>" "pp_committed p' = (pp_committed p \<or> c)"
    "c \<longrightarrow> \<not> pp_committed p \<and> f32_ge (pp_credence_sum p') (ce_quorum e)"
    "ev = event_for (ce_quorum e) p' (if c then Commit else Vote)"
proof -
  obtain p where p: "bt_get (ce_proposals e) pid = Some p" using assms by (auto simp: vote_def split: option.splits)
  obtain q updated where q: "record_vote v p = (q, updated)" by (cases "record_vote v p")
  note keeps = record_vote_keeps [OF q]
  let ?c = "\<not> pp_committed q \<and> f32_ge (pp_credence_sum q) (ce_quorum e) \<and> list_all (\<lambda>v. vr_decision v = Approve) (pp_votes q)"
  have "updated" using assms by (auto simp: vote_def p q split: if_splits)
  then have "e' = e\<lparr>ce_proposals := bt_insert pid (if ?c then q\<lparr>pp_committed := True\<rparr> else q) (ce_proposals e)\<rparr>"
      "ev = event_for (ce_quorum e) (if ?c then q\<lparr>pp_committed := True\<rparr> else q) (if ?c then Commit else Vote)"
    using assms by (auto simp: vote_def p q Let_def split: if_splits)
  then show thesis
    using keeps by (intro that [OF p, of "if ?c then q\<lparr>pp_committed := True\<rparr> else q" ?c]) auto
qed

lemma engine_run_inv:
  assumes "engine_run forced e evs"
  shows "engine_inv e evs \<and> (\<not> forced \<longrightarrow>
    (\<forall>ev\<in>set evs. em_phase (ne_meta ev) = Commit \<longrightarrow> f32_ge (em_credence_sum (ne_meta ev)) (em_quorum (ne_meta ev))))"
  using assms
proof induction
  case (start quorum)
  then show ?case by (simp add: engine_inv_def engine_new_def commits_of_def)
next
  case (quorum e evs q)
  then show ?case by (simp add: engine_inv_def set_quorum_def)
next
  case (proposed e evs pid proposer obj clock e' ev)
  then show ?case by (auto simp: engine_inv_def propose_def Let_def event_for_def commits_of_def split: if_splits)
next
  case (voted e evs pid v e' ev)
  obtain p p' c where v: "bt_get (ce_proposals e) pid = Some p" "pp_id p' = pp_id p"
    "e' = e\<lparr>ce_proposals := bt_insert pid p' (ce_proposals e)\<rparr>" "pp_committed p' = (pp_committed p \<or> c)"
    "c \<longrightarrow> \<not> pp_committed p \<and> f32_ge (pp_credence_sum p') (ce_quorum e)"
    "ev = event_for (ce_quorum e) p' (if c then Commit else Vote)"
    using voted.hyps(2) by (rule vote_Some)
  then show ?case
    using voted.IH by (auto simp: engine_inv_def event_for_def commits_of_def)
next
  case (committed e evs pid e' ev)
  then show ?case
    by (auto simp: engine_inv_def commit_def Let_def event_for_def commits_of_def split: option.splits if_splits)
qed

text \<open>C21: A proposal commits once.  Along every run of the engine, each proposal has exactly one commit
  event if it is committed and none otherwise; without explicit commits, every commit event reports a
  credence sum that reaches the quorum it reports.\<close>

theorem commits_once:
  assumes "engine_run forced e evs"
  shows "commits_of pid evs = (case bt_get (ce_proposals e) pid of Some p \<Rightarrow> of_bool (pp_committed p) | None \<Rightarrow> 0)
    \<and> (\<not> forced \<longrightarrow> (\<forall>ev\<in>set evs. em_phase (ne_meta ev) = Commit \<longrightarrow>
         f32_ge (em_credence_sum (ne_meta ev)) (em_quorum (ne_meta ev))))"
  using engine_run_inv [OF assms] by (auto simp: engine_inv_def)

lemma f32_ge_one: "f32_ge f32_one f32_0_6" "f32_add f32_zero f32_one = f32_one"
proof -
  show "f32_ge f32_one f32_0_6" by (simp add: f32_ge_def f32_partial_cmp_def f32_one_def f32_0_6_def cmp_def f32_int_def)
  have "f32_round (2 ^ 149) = 2 ^ 149" by (rule f32_round_power)
  then show "f32_add f32_zero f32_one = f32_one"
    by (simp add: f32_zero_def f32_one_def f32_int_def f32_make_def Let_def)
qed

lemma sample_commit:
  "\<exists>e' ev. vote 7 (sample_vote [1] Approve f32_one 2) sample_engine = (e', Some ev) \<and> em_phase (ne_meta ev) = Commit
     \<and> em_id (ne_meta ev) = 7"
  using f32_ge_one
  by (simp add: sample_engine_def propose_policy_def propose_def engine_new_def Let_def vote_def record_vote_def event_for_def)

lemma sample_engine_run: "\<exists>ev. engine_run False sample_engine [ev] \<and> em_phase (ne_meta ev) = Propose"
proof -
  have "propose_policy 7 [1] \<lparr>pol_version = Hlc 1 0 [1], pol_hash = ''h'', pol_payload = ()\<rparr> (Hlc 1 0 [1]) (engine_new f32_0_6) =
      (sample_engine, event_for f32_0_6 (the (bt_get (ce_proposals sample_engine) 7)) Propose)"
    by (simp add: sample_engine_def propose_policy_def propose_def engine_new_def Let_def)
  then have "engine_run False sample_engine ([] @ [event_for f32_0_6 (the (bt_get (ce_proposals sample_engine) 7)) Propose])"
    unfolding propose_policy_def by (intro engine_run.proposed [OF engine_run.start]) (simp_all add: engine_new_def)
  then show ?thesis by (intro exI [of _ "event_for f32_0_6 (the (bt_get (ce_proposals sample_engine) 7)) Propose"])
      (simp add: event_for_def)
qed

theorem commits_once_witness:
  "\<exists>e evs. engine_run False (e :: unit ConsensusEngine) evs \<and> commits_of 7 evs = 1
     \<and> (\<exists>p. bt_get (ce_proposals e) 7 = Some p \<and> pp_committed p)"
proof -
  obtain ev0 where run0: "engine_run False sample_engine [ev0]" "em_phase (ne_meta ev0) = Propose"
    using sample_engine_run by blast
  obtain e ev where v: "vote 7 (sample_vote [1] Approve f32_one 2) sample_engine = (e, Some ev)"
      "em_phase (ne_meta ev) = Commit" "em_id (ne_meta ev) = 7"
    using sample_commit by blast
  have run: "engine_run False e ([ev0] @ [ev])" by (rule engine_run.voted [OF run0(1) v(1)])
  have count: "commits_of 7 ([ev0] @ [ev]) = 1" using run0(2) v(2,3) by (simp add: commits_of_def)
  have "commits_of 7 ([ev0] @ [ev]) =
      (case bt_get (ce_proposals e) 7 of Some p \<Rightarrow> of_bool (pp_committed p) | None \<Rightarrow> 0)"
    by (rule commits_once [OF run, THEN conjunct1])
  then have "\<exists>p. bt_get (ce_proposals e) 7 = Some p \<and> pp_committed p"
    unfolding count by (cases "bt_get (ce_proposals e) 7") (simp_all add: of_bool_def split: if_splits)
  with run count show ?thesis by (intro exI [of _ e] exI [of _ "[ev0] @ [ev]"] conjI)
qed

text \<open>The engine survives its snapshot: restoring the snapshot of a reachable engine gives the engine
  back, votes, sums and commits included.\<close>

theorem engine_roundtrip:
  assumes "engine_run forced e evs"
  shows "engine_restore (engine_snapshot e) = e"
proof -
  have inv: "bt_wf (ce_proposals e)" "\<And>pid p. bt_get (ce_proposals e) pid = Some p \<Longrightarrow> pp_id p = pid"
    using engine_run_inv [OF assms] by (auto simp: engine_inv_def)
  have "fold (\<lambda>p. bt_insert (pp_id p) p) (bt_values m) m' = fold (\<lambda>(k, p). bt_insert k p) m m'"
    if "\<forall>(k, p)\<in>set m. pp_id p = k" for m and m' :: "(ProposalId, 'a Proposal) btree_map"
    using that by (induction m arbitrary: m') (auto simp: bt_values_def)
  moreover have "\<forall>(k, p)\<in>set (ce_proposals e). pp_id p = k" using inv bt_get_of_set by fastforce
  moreover have "fold (\<lambda>(k, p). bt_insert k p) (ce_proposals e) [] = ce_proposals e"
  proof (rule bt_ext)
    show "bt_get (fold (\<lambda>(k, p). bt_insert k p) (ce_proposals e) []) k = bt_get (ce_proposals e) k" for k
      by (subst bt_get_fold [OF _ inv(1), where g = "\<lambda>_. Some"]) (auto split: option.splits)
  qed (auto intro: bt_wf_fold inv)
  ultimately show ?thesis by (simp add: engine_restore_def engine_snapshot_def)
qed

theorem engine_roundtrip_witness: "engine_restore (engine_snapshot sample_engine) = sample_engine"
  using sample_engine_run engine_roundtrip by blast

lemma revise_vote_nan: "revise_vote v votes F32NaN = Some (votes', acc', updated) \<Longrightarrow> acc' = F32NaN"
  by (induction votes arbitrary: votes') (auto simp: Let_def split: if_splits)

lemma record_vote_nan:
  "pp_credence_sum p = F32NaN \<Longrightarrow> record_vote v p = (p', updated) \<Longrightarrow> pp_credence_sum p' = F32NaN"
  by (auto simp: record_vote_def dest: revise_vote_nan split: option.splits prod.splits if_splits)

lemma vote_nan:
  assumes "bt_get (ce_proposals e) pid = Some p" "pp_credence_sum p = F32NaN" "\<not> pp_committed p"
  shows "\<exists>p'. bt_get (ce_proposals (fst (vote pid' v e))) pid = Some p' \<and> pp_credence_sum p' = F32NaN \<and> \<not> pp_committed p'"
proof (cases "pid' = pid")
  case True
  obtain q updated where q: "record_vote v p = (q, updated)" by (cases "record_vote v p")
  have "pp_credence_sum q = F32NaN" "\<not> pp_committed q"
    using record_vote_nan [OF assms(2) q] record_vote_keeps [OF q] assms(3) by auto
  then show ?thesis using True assms by (cases updated) (auto simp: vote_def q Let_def)
next
  case False
  then show ?thesis using assms by (auto simp: vote_def Let_def split: option.splits prod.splits if_splits)
qed

text \<open>One vote that is not a number blocks a proposal.  Credences are not checked; after an approval
  with a credence that is not a number the sum of the proposal is not a number, and no sequence of
  votes, on any proposals, commits it any more, even when every vote approves.\<close>

theorem nan_vote_blocks:
  assumes "bt_get (ce_proposals e) pid = Some p" "\<not> pp_committed p"
    and "vr_decision v = Approve" "vr_credence v = F32NaN" "vr_peer v \<notin> vr_peer ` set (pp_votes p)"
  shows "\<exists>p'. bt_get (ce_proposals (fold (\<lambda>(pid, v) e. fst (vote pid v e)) votes (fst (vote pid v e)))) pid = Some p'
    \<and> pp_credence_sum p' = F32NaN \<and> \<not> pp_committed p'"
proof -
  have keep: "\<exists>p'. bt_get (ce_proposals (fold (\<lambda>(pid, v) e. fst (vote pid v e)) votes e)) pid = Some p'
      \<and> pp_credence_sum p' = F32NaN \<and> \<not> pp_committed p'"
    if "\<exists>p. bt_get (ce_proposals e) pid = Some p \<and> pp_credence_sum p = F32NaN \<and> \<not> pp_committed p" for e :: "'a ConsensusEngine"
    using that
  proof (induction votes arbitrary: e)
    case (Cons w votes)
    then obtain q where "bt_get (ce_proposals e) pid = Some q" "pp_credence_sum q = F32NaN" "\<not> pp_committed q" by blast
    from vote_nan [OF this, of "fst w" "snd w"] Cons.IH show ?case by (simp add: case_prod_beta)
  qed simp
  have "revise_vote v (pp_votes p) (pp_credence_sum p) = None" using assms(5) by (simp add: revise_vote_None)
  then have "\<exists>p'. bt_get (ce_proposals (fst (vote pid v e))) pid = Some p' \<and> pp_credence_sum p' = F32NaN \<and> \<not> pp_committed p'"
    using assms(1-4) by (simp add: vote_def record_vote_def Let_def)
  then show ?thesis by (rule keep)
qed

theorem nan_vote_blocks_witness:
  "\<exists>p'. bt_get (ce_proposals (fold (\<lambda>(pid, v) e. fst (vote pid v e)) [(7, sample_vote [1] Approve f32_one 2)]
       (fst (vote 7 (sample_vote [2] Approve F32NaN 2) sample_engine)))) 7 = Some p' \<and> \<not> pp_committed p'"
proof -
  obtain p where p: "bt_get (ce_proposals sample_engine) 7 = Some p" "pp_votes p = []" "\<not> pp_committed p"
    using sample_proposal by blast
  have "vr_peer (sample_vote [2] Approve F32NaN 2) \<notin> vr_peer ` set (pp_votes p)" by (simp add: p(2))
  from nan_vote_blocks [OF p(1,3) _ _ this] show ?thesis by fastforce
qed

section \<open>The runtime\<close>

lemma clamped_quorum: "f32_ge f32_one (f32_max (clamp_unit q) f32_zero)"
  by (cases q) (auto simp: clamp_unit_def f32_max_def f32_gt_def f32_ge_def f32_partial_cmp_def f32_zero_def f32_one_def
      cmp_def f32_int_def not_less)

text \<open>A local proposal commits at once.  Whatever quorum was requested, even a number outside the unit
  interval or not a number, a proposal of the local peer under a fresh identifier is committed by the
  peer's own vote, whose credence is one: the request returns a proposal and a commit event, and the
  object is applied to the replicated state.\<close>

theorem local_proposal_commits:
  assumes "nr_local_credence r0 = f32_one" "r = handle_noetic_quorum q r0"
    and "bt_get (ce_proposals (nr_consensus r)) pid = None"
    and "build (nr_local_peer r) (hlc_tick t1 (n_clock (nr_state r))) = Inr obj"
  shows "\<exists>r' ev1 ev2 p clock. handle_noetic_propose pid build (t1, t2, t3) r = (r', Inr [ev1, ev2])
    \<and> em_phase (ne_meta ev1) = Propose \<and> em_phase (ne_meta ev2) = Commit
    \<and> bt_get (ce_proposals (nr_consensus r')) pid = Some p \<and> pp_committed p \<and> pp_object p = obj
    \<and> nr_state r' = apply_object obj (hlc_tick t1 (n_clock (nr_state r))) ((nr_state r)\<lparr>n_clock := clock\<rparr>)"
proof -
  have one: "nr_local_credence r = f32_one" and quorum: "f32_ge f32_one (ce_quorum (nr_consensus r))"
    using assms(1) clamped_quorum
    by (simp_all add: assms(2) handle_noetic_quorum_def runtime_set_quorum_def set_quorum_def)
  show ?thesis
    using one quorum assms(3,4) f32_ge_one(2)
    by (simp add: handle_noetic_propose_def tick_clock_def Let_def propose_def event_for_def process_event_def vote_def
        record_vote_def apply_commit_def)
       blast
qed

theorem local_proposal_commits_witness:
  "\<exists>r' ev1 ev2. handle_noetic_propose 7 (\<lambda>peer clock. Inr (PolicyObject \<lparr>pol_version = clock, pol_hash = ''h'', pol_payload = ()\<rparr>))
       (5, 6, 7) (handle_noetic_quorum F32NaN (runtime_new () [1])) = (r', Inr [ev1, ev2]) \<and> em_phase (ne_meta ev2) = Commit"
proof -
  have "nr_local_credence (runtime_new () [1]) = f32_one"
    "bt_get (ce_proposals (nr_consensus (handle_noetic_quorum F32NaN (runtime_new () [1])))) 7 = None"
    by (simp_all add: runtime_new_def handle_noetic_quorum_def runtime_set_quorum_def set_quorum_def engine_new_def)
  from local_proposal_commits [OF this(1) refl this(2),
      of "\<lambda>peer clock. Inr (PolicyObject \<lparr>pol_version = clock, pol_hash = ''h'', pol_payload = ()\<rparr>)" 5 _ 6 7]
  show ?thesis by fastforce
qed

end
