(* ===== verification/F32_Arith.thy ===== *)
theory F32_Arith
  imports F32 Rust_Text
begin

text \<open>
  The rest of the \<open>f32\<close> arithmetic the core uses: products, quotients, conversions from integers,
  decimal literals, \<open>clamp\<close>, \<open>round\<close>, casts to \<open>i32\<close> and \<open>str::parse::<f32>\<close>.  A quotient of two
  naturals is rounded once, to nearest, ties to even.  The lemmas bound magnitudes by powers of two:
  rounding never crosses a power of two, so bounds of the exact operations carry over.
\<close>

section \<open>Rounding a quotient\<close>

definition f32_ratio :: "nat \<Rightarrow> nat \<Rightarrow> nat" where
  "f32_ratio a b =
     (let k = f32_shift (a div b); d = b * 2 ^ k; q = a div d; r = a mod d
      in if 2 * r > d \<or> 2 * r = d \<and> odd q then (q + 1) * 2 ^ k else q * 2 ^ k)"

definition f32_of_ratio :: "bool \<Rightarrow> nat \<Rightarrow> nat \<Rightarrow> f32" where
  "f32_of_ratio s a b = (let m = f32_ratio a b in if m < 2 ^ 277 then F32 s m else F32Inf s)"

section \<open>Arithmetic\<close>

fun f32_mul :: "f32 \<Rightarrow> f32 \<Rightarrow> f32" where
  "f32_mul F32NaN _ = F32NaN"
| "f32_mul _ F32NaN = F32NaN"
| "f32_mul (F32Inf s) (F32Inf t) = F32Inf (s \<noteq> t)"
| "f32_mul (F32Inf s) (F32 t n) = (if n = 0 then F32NaN else F32Inf (s \<noteq> t))"
| "f32_mul (F32 s m) (F32Inf t) = (if m = 0 then F32NaN else F32Inf (s \<noteq> t))"
| "f32_mul (F32 s m) (F32 t n) = f32_of_ratio (s \<noteq> t) (m * n) (2 ^ 149)"

fun f32_div :: "f32 \<Rightarrow> f32 \<Rightarrow> f32" where
  "f32_div F32NaN _ = F32NaN"
| "f32_div _ F32NaN = F32NaN"
| "f32_div (F32Inf s) (F32Inf t) = F32NaN"
| "f32_div (F32Inf s) (F32 t n) = F32Inf (s \<noteq> t)"
| "f32_div (F32 s m) (F32Inf t) = F32 (s \<noteq> t) 0"
| "f32_div (F32 s m) (F32 t n) =
     (if n = 0 then (if m = 0 then F32NaN else F32Inf (s \<noteq> t))
      else f32_of_ratio (s \<noteq> t) (m * 2 ^ 149) n)"

fun f32_abs :: "f32 \<Rightarrow> f32" where
  "f32_abs F32NaN = F32NaN"
| "f32_abs (F32Inf _) = F32Inf False"
| "f32_abs (F32 _ n) = F32 False n"

text \<open>\<open>n as f32\<close> for an unsigned integer, and the literal \<open>m / 10\<^sup>e\<close>.\<close>

definition f32_of_nat :: "nat \<Rightarrow> f32" where
  "f32_of_nat n = f32_make False (n * 2 ^ 149)"

definition f32_dec :: "nat \<Rightarrow> nat \<Rightarrow> f32" where
  "f32_dec m e = f32_of_ratio False (m * 2 ^ 149) (10 ^ e)"

definition f32_one :: f32 where
  "f32_one = F32 False (2 ^ 149)"

definition f32_lt :: "f32 \<Rightarrow> f32 \<Rightarrow> bool" where
  "f32_lt x y \<longleftrightarrow> f32_partial_cmp x y = Some Less"

definition f32_le :: "f32 \<Rightarrow> f32 \<Rightarrow> bool" where
  "f32_le x y \<longleftrightarrow> f32_ge y x"

text \<open>\<open>f32::min\<close> and \<open>f32::clamp\<close>; the bounds of every \<open>clamp\<close> of the program are ordered literals.\<close>

definition f32_min :: "f32 \<Rightarrow> f32 \<Rightarrow> f32" where
  "f32_min x y = (if x = F32NaN then y else if y = F32NaN then x else if f32_lt y x then y else x)"

definition f32_clamp :: "f32 \<Rightarrow> f32 \<Rightarrow> f32 \<Rightarrow> f32" where
  "f32_clamp lo hi x =
     (let y = (if f32_lt x lo then lo else x) in if f32_gt y hi then hi else y)"

text \<open>\<open>f32::round\<close>, half away from zero, and the saturating cast \<open>as i32\<close>, which truncates.\<close>

fun f32_round_int :: "f32 \<Rightarrow> f32" where
  "f32_round_int (F32 s n) = F32 s ((n + 2 ^ 148) div 2 ^ 149 * 2 ^ 149)"
| "f32_round_int x = x"

definition i32_saturate :: "int \<Rightarrow> int" where
  "i32_saturate i = max (- (2 ^ 31)) (min (2 ^ 31 - 1) i)"

fun f32_as_i32 :: "f32 \<Rightarrow> int" where
  "f32_as_i32 F32NaN = 0"
| "f32_as_i32 (F32Inf s) = (if s then - (2 ^ 31) else 2 ^ 31 - 1)"
| "f32_as_i32 (F32 s n) =
     i32_saturate (if s then - int (n div 2 ^ 149) else int (n div 2 ^ 149))"

section \<open>Reading a number\<close>

text \<open>\<open>str::parse::<f32>\<close>: an optional sign, then digits with at most one point and at least one digit
  and an optional decimal exponent, or one of the words for infinities and not-a-number in any case.
  The value is the single nearest to the decimal number.\<close>

definition ascii_upper :: "char \<Rightarrow> char" where
  "ascii_upper c = (let n = of_char c :: nat in if 97 \<le> n \<and> n \<le> 122 then char_of (n - 32) else c)"

definition ascii_lower :: "char \<Rightarrow> char" where
  "ascii_lower c = (let n = of_char c :: nat in if 65 \<le> n \<and> n \<le> 90 then char_of (n + 32) else c)"

definition eq_ignore_ascii_case :: "string \<Rightarrow> string \<Rightarrow> bool" where
  "eq_ignore_ascii_case s t \<longleftrightarrow> map ascii_lower s = map ascii_lower t"

definition split_sign :: "string \<Rightarrow> bool \<times> string" where
  "split_sign s =
     (case s of [] \<Rightarrow> (False, [])
      | c # cs \<Rightarrow> if c = CHR ''-'' then (True, cs) else if c = CHR ''+'' then (False, cs) else (False, s))"

text \<open>The exponent part: empty, or a letter, an optional sign and at least one digit.\<close>

definition parse_exponent :: "string \<Rightarrow> int option" where
  "parse_exponent s =
     (case s of [] \<Rightarrow> Some 0
      | c # cs \<Rightarrow>
          (let (neg, ds) = split_sign cs
           in if ascii_lower c = CHR ''e'' \<and> ds \<noteq> [] \<and> list_all is_digit_char ds
              then Some (if neg then - int (dec_value ds) else int (dec_value ds)) else None))"

definition split_point :: "string \<Rightarrow> string \<times> string" where
  "split_point s =
     (case s of [] \<Rightarrow> ([], [])
      | c # cs \<Rightarrow> if c = CHR ''.'' then (takeWhile is_digit_char cs, dropWhile is_digit_char cs) else ([], s))"

definition f32_of_decimal :: "bool \<Rightarrow> nat \<Rightarrow> int \<Rightarrow> f32" where
  "f32_of_decimal neg m e =
     (if 0 \<le> e then f32_of_ratio neg (m * 10 ^ nat e * 2 ^ 149) 1
      else f32_of_ratio neg (m * 2 ^ 149) (10 ^ nat (- e)))"

definition parse_decimal :: "bool \<Rightarrow> string \<Rightarrow> f32 option" where
  "parse_decimal neg s =
     (let whole = takeWhile is_digit_char s;
          (frac, tail) = split_point (dropWhile is_digit_char s)
      in if whole = [] \<and> frac = [] then None
         else case parse_exponent tail of None \<Rightarrow> None
           | Some e \<Rightarrow> Some (f32_of_decimal neg (dec_value (whole @ frac)) (e - int (length frac))))"

definition parse_f32 :: "string \<Rightarrow> f32 option" where
  "parse_f32 s =
     (let (neg, t) = split_sign s
      in case parse_decimal neg t of Some x \<Rightarrow> Some x
         | None \<Rightarrow>
             if eq_ignore_ascii_case t ''inf'' \<or> eq_ignore_ascii_case t ''infinity'' then Some (F32Inf neg)
             else if eq_ignore_ascii_case t ''nan'' then Some F32NaN else None)"

section \<open>Laws\<close>

lemma f32_ratio_one: "f32_ratio n 1 = f32_round n"
  by (simp add: f32_ratio_def f32_round_def Let_def)

lemma f32_make_ratio: "f32_make s n = f32_of_ratio s n 1"
  by (simp only: f32_make_def f32_of_ratio_def f32_ratio_one)

lemma f32_shift_lower: "f32_shift n = Suc k \<Longrightarrow> 2 ^ (24 + k) \<le> n"
proof (induction n arbitrary: k rule: f32_shift.induct)
  case (1 n)
  then have big: "\<not> n < 2 ^ 24" "f32_shift (n div 2) = k"
    by (auto simp: f32_shift.simps [of n] split: if_splits)
  show ?case
  proof (cases k)
    case 0
    then show ?thesis using big by simp
  next
    case (Suc j)
    then have "2 ^ (24 + j) \<le> n div 2" using "1.IH" big by blast
    then have "2 * 2 ^ (24 + j) \<le> n" by (simp add: less_eq_div_iff_mult_less_eq)
    moreover have "(2 :: nat) ^ (24 + Suc j) = 2 * 2 ^ (24 + j)" by (metis add_Suc_right power_Suc)
    ultimately show ?thesis unfolding Suc by (simp only:)
  qed
qed

text \<open>Rounding does not cross a power of two.\<close>

lemma f32_ratio_le_power:
  assumes "a \<le> b * 2 ^ n" and "0 < b"
  shows "f32_ratio a b \<le> 2 ^ n"
proof -
  define k d q r where "k = f32_shift (a div b)" and "d = b * 2 ^ k" and "q = a div d" and "r = a mod d"
  have k: "k \<le> n"
  proof (cases k)
    case (Suc j)
    then have "2 ^ (24 + j) \<le> a div b" using f32_shift_lower k_def by metis
    also have "\<dots> \<le> 2 ^ n" using assms by (metis div_le_mono nonzero_mult_div_cancel_left not_gr_zero)
    finally have "24 + j \<le> n" by (simp add: power_le_imp_le_exp)
    then show ?thesis using Suc by simp
  qed simp
  have pow: "(2 :: nat) ^ n = 2 ^ (n - k) * 2 ^ k" using k by (metis le_add_diff_inverse2 power_add)
  have a: "a = q * d + r" by (simp add: q_def r_def)
  have le: "q * d + r \<le> 2 ^ (n - k) * d" using assms(1) unfolding a pow by (simp add: d_def mult.assoc mult.left_commute)
  have d0: "0 < d" using assms(2) by (simp add: d_def)
  then have q: "q \<le> 2 ^ (n - k)" using le by (metis add_leD1 mult_le_cancel2)
  show ?thesis
  proof (cases "2 * r > d \<or> 2 * r = d \<and> odd q")
    case True
    then have "0 < r" using d0 by auto
    then have "q * d < 2 ^ (n - k) * d" using le by linarith
    then have "q + 1 \<le> 2 ^ (n - k)" by simp
    then have "(q + 1) * 2 ^ k \<le> 2 ^ n" unfolding pow by (rule mult_le_mono1)
    then show ?thesis using True by (simp add: f32_ratio_def Let_def k_def d_def q_def r_def)
  next
    case False
    have "q * 2 ^ k \<le> 2 ^ n" unfolding pow using q by (rule mult_le_mono1)
    then show ?thesis using False by (auto simp: f32_ratio_def Let_def k_def d_def q_def r_def)
  qed
qed

lemma f32_ratio_ge_power:
  assumes "b * 2 ^ n \<le> a" and "0 < b"
  shows "2 ^ n \<le> f32_ratio a b"
proof -
  define k q where "k = f32_shift (a div b)" and "q = a div (b * 2 ^ k)"
  have "2 ^ n \<le> q * 2 ^ k"
  proof (cases "k \<le> n")
    case True
    then have pow: "(2 :: nat) ^ n = 2 ^ (n - k) * 2 ^ k" by (metis le_add_diff_inverse2 power_add)
    then have "2 ^ (n - k) * (b * 2 ^ k) \<le> a" using assms(1) by (simp add: mult.assoc mult.left_commute)
    then have "2 ^ (n - k) \<le> q" using assms(2) by (simp add: q_def less_eq_div_iff_mult_less_eq)
    then show ?thesis unfolding pow by (rule mult_le_mono1)
  next
    case False
    then obtain j where j: "k = Suc j" by (cases k) auto
    then have "2 ^ (24 + j) \<le> a div b" using f32_shift_lower k_def by metis
    moreover have "(2 :: nat) ^ k \<le> 2 ^ (24 + j)" unfolding j by (intro power_increasing) auto
    ultimately have "1 * 2 ^ k \<le> a div b" by linarith
    then have "1 \<le> q" unfolding q_def div_mult2_eq by (subst less_eq_div_iff_mult_less_eq) auto
    then have "2 ^ k \<le> q * 2 ^ k" by simp
    moreover have "(2 :: nat) ^ n \<le> 2 ^ k" using False by (intro power_increasing) auto
    ultimately show ?thesis by linarith
  qed
  also have "\<dots> \<le> f32_ratio a b" by (simp add: f32_ratio_def Let_def k_def q_def)
  finally show ?thesis .
qed

text \<open>Rounding at most doubles a value.\<close>

lemma f32_ratio_twice: "b * f32_ratio a b \<le> 2 * a"
proof -
  define k d q r where "k = f32_shift (a div b)" and "d = b * 2 ^ k" and "q = a div d" and "r = a mod d"
  have a: "a = q * d + r" by (simp add: q_def r_def)
  show ?thesis
  proof (cases "2 * r > d \<or> 2 * r = d \<and> odd q")
    case True
    then have "b * f32_ratio a b = (q + 1) * d" by (simp add: f32_ratio_def Let_def k_def d_def q_def r_def algebra_simps)
    then show ?thesis using a True by (auto simp: algebra_simps)
  next
    case False
    then have "b * f32_ratio a b = q * d" by (auto simp: f32_ratio_def Let_def k_def d_def q_def r_def)
    then show ?thesis using a by simp
  qed
qed

section \<open>Magnitudes\<close>

text \<open>A finite single of at most \<open>2\<^sup>n\<close> units.\<close>

fun f32_upto :: "nat \<Rightarrow> f32 \<Rightarrow> bool" where
  "f32_upto n (F32 s m) \<longleftrightarrow> m \<le> 2 ^ n"
| "f32_upto n _ \<longleftrightarrow> False"

lemma f32_upto_mono: "f32_upto m x \<Longrightarrow> m \<le> n \<Longrightarrow> f32_upto n x"
  by (cases x) (auto intro: order_trans power_increasing)

lemma f32_upto_number: "f32_upto n x \<Longrightarrow> x \<noteq> F32NaN"
  by (cases x) auto

lemma f32_upto_of_ratio: "a \<le> b * 2 ^ n \<Longrightarrow> 0 < b \<Longrightarrow> n < 277 \<Longrightarrow> f32_upto n (f32_of_ratio s a b)"
proof -
  assume "a \<le> b * 2 ^ n" "0 < b" "n < 277"
  then have "f32_ratio a b \<le> 2 ^ n" by (intro f32_ratio_le_power)
  moreover have "(2 :: nat) ^ n < 2 ^ 277" using \<open>n < 277\<close> by (intro power_strict_increasing) auto
  ultimately show ?thesis by (simp only: f32_of_ratio_def Let_def if_True f32_upto.simps order.strict_trans1)
qed

text \<open>A positive single of at least \<open>2\<^sup>l\<close> and at most \<open>2\<^sup>h\<close> units.\<close>

definition f32_between :: "nat \<Rightarrow> nat \<Rightarrow> f32 \<Rightarrow> bool" where
  "f32_between l h x \<longleftrightarrow> x = F32 False (f32_units x) \<and> 2 ^ l \<le> f32_units x \<and> f32_units x \<le> 2 ^ h"

lemma f32_between_of_ratio:
  assumes "b * 2 ^ l \<le> a" "a \<le> b * 2 ^ h" "0 < b" "h < 277"
  shows "f32_between l h (f32_of_ratio False a b)"
proof -
  have "f32_upto h (f32_of_ratio False a b)" using assms by (intro f32_upto_of_ratio)
  moreover have "2 ^ l \<le> f32_ratio a b" using assms by (intro f32_ratio_ge_power)
  ultimately show ?thesis
    by (cases "f32_ratio a b < 2 ^ 277") (simp_all only: f32_between_def f32_of_ratio_def Let_def if_True if_False f32.sel f32_upto.simps)
qed

lemma f32_between_upto: "f32_between l h x \<Longrightarrow> f32_upto h x"
  by (metis f32_between_def f32_upto.simps(1))

lemma f32_between_of_nat:
  assumes "0 < n" "n \<le> 2 ^ 64"
  shows "f32_between 149 213 (f32_of_nat n)"
proof -
  have "(2 :: nat) ^ 213 = 2 ^ 64 * 2 ^ 149" by (simp flip: power_add)
  then have "n * 2 ^ 149 \<le> 1 * 2 ^ 213" using assms(2) by (simp only: mult_1 mult_le_mono1)
  moreover have "1 * 2 ^ 149 \<le> n * 2 ^ 149" using assms(1) by (intro mult_le_mono1) simp
  ultimately show ?thesis unfolding f32_of_nat_def f32_make_ratio by (intro f32_between_of_ratio) simp_all
qed

lemma f32_upto_neg [simp]: "f32_upto n (f32_neg x) = f32_upto n x"
  by (cases x) auto

lemma f32_upto_abs [simp]: "f32_upto n (f32_abs x) = f32_upto n x"
  by (cases x) auto

lemma f32_upto_add:
  assumes "f32_upto n x" "f32_upto n y" "n < 276"
  shows "f32_upto (Suc n) (f32_add x y)"
proof -
  obtain s m t k where xy: "x = F32 s m" "y = F32 t k" "m \<le> 2 ^ n" "k \<le> 2 ^ n"
    using assms by (cases x; cases y) auto
  define v where "v = f32_int (F32 s m) + f32_int (F32 t k)"
  have "nat \<bar>v\<bar> \<le> m + k" unfolding v_def f32_int_def by (cases s; cases t; simp; arith)
  also have "\<dots> \<le> 1 * 2 ^ Suc n" using xy by simp
  finally have "f32_upto (Suc n) (f32_make (v < 0) (nat \<bar>v\<bar>))"
    unfolding f32_make_ratio using assms(3) by (intro f32_upto_of_ratio) auto
  then show ?thesis by (simp add: xy Let_def v_def del: power_Suc)
qed

lemma f32_upto_sub:
  "f32_upto n x \<Longrightarrow> f32_upto n y \<Longrightarrow> n < 276 \<Longrightarrow> f32_upto (Suc n) (f32_sub x y)"
  by (simp add: f32_sub_def f32_upto_add)

lemma f32_upto_mul:
  assumes "f32_upto a x" "f32_upto b y" "a + b \<le> n + 149" "n < 277"
  shows "f32_upto n (f32_mul x y)"
proof -
  obtain s m t k where xy: "x = F32 s m" "y = F32 t k" "m \<le> 2 ^ a" "k \<le> 2 ^ b"
    using assms by (cases x; cases y) auto
  have "m * k \<le> 2 ^ (a + b)" using xy by (simp add: power_add mult_le_mono)
  also have "\<dots> \<le> 2 ^ (149 + n)" using assms(3) by (intro power_increasing) auto
  finally have "m * k \<le> 2 ^ 149 * 2 ^ n" by (simp only: power_add)
  then have "f32_upto n (f32_of_ratio (s \<noteq> t) (m * k) (2 ^ 149))"
    using assms(4) by (intro f32_upto_of_ratio) auto
  then show ?thesis unfolding xy f32_mul.simps .
qed

lemma f32_upto_div:
  assumes "f32_upto a x" "f32_between b h y" "a + 149 \<le> b + n" "n < 277"
  shows "f32_upto n (f32_div x y)"
proof -
  define k where "k = f32_units y"
  have y: "y = F32 False k" "2 ^ b \<le> k" using assms(2) by (simp_all add: f32_between_def k_def)
  obtain s m where x: "x = F32 s m" "m \<le> 2 ^ a" using assms by (cases x) auto
  have k: "0 < k" using y(2) by (metis gr0I le_zero_eq power_not_zero zero_neq_numeral)
  have "m * 2 ^ 149 \<le> 2 ^ (a + 149)" using x by (simp only: power_add mult_le_mono1)
  also have "\<dots> \<le> 2 ^ (b + n)" using assms(3) by (intro power_increasing) auto
  also have "\<dots> \<le> k * 2 ^ n" using y(2) by (simp add: power_add)
  finally have "f32_upto n (f32_of_ratio (s \<noteq> False) (m * 2 ^ 149) k)"
    using assms(4) k by (intro f32_upto_of_ratio)
  then show ?thesis using k unfolding x y(1) f32_div.simps by (metis less_not_refl)
qed

section \<open>Clamping\<close>

definition f32_within :: "f32 \<Rightarrow> f32 \<Rightarrow> f32 \<Rightarrow> bool" where
  "f32_within lo hi x \<longleftrightarrow> f32_le lo x \<and> f32_le x hi"

lemma f32_lt_iff: "f32_lt x y \<longleftrightarrow> x \<noteq> F32NaN \<and> y \<noteq> F32NaN \<and> f32_rank x < f32_rank y"
  by (simp add: f32_lt_def f32_partial_cmp_def)

lemma f32_le_iff: "f32_le x y \<longleftrightarrow> x \<noteq> F32NaN \<and> y \<noteq> F32NaN \<and> f32_rank x \<le> f32_rank y"
  by (auto simp: f32_le_def f32_ge_def f32_partial_cmp_def)

lemma f32_clamp_NaN [simp]: "f32_clamp lo hi F32NaN = F32NaN"
  by (simp add: f32_clamp_def f32_lt_iff f32_gt_iff)

lemma f32_clamp_within: "f32_le lo hi \<Longrightarrow> x \<noteq> F32NaN \<Longrightarrow> f32_within lo hi (f32_clamp lo hi x)"
  by (auto simp: f32_clamp_def f32_within_def f32_lt_iff f32_gt_iff f32_le_iff Let_def)

lemma f32_clamp_id: "f32_within lo hi x \<Longrightarrow> f32_clamp lo hi x = x"
  by (auto simp: f32_clamp_def f32_within_def f32_lt_iff f32_gt_iff f32_le_iff Let_def)

lemma f32_within_number: "f32_within lo hi x \<Longrightarrow> x \<noteq> F32NaN"
  by (simp add: f32_within_def f32_le_iff)

lemma f32_le_trans: "f32_le x y \<Longrightarrow> f32_le y z \<Longrightarrow> f32_le x z"
  by (auto simp: f32_le_iff)

lemma f32_within_weaken: "f32_within lo hi x \<Longrightarrow> f32_le lo' lo \<Longrightarrow> f32_within lo' hi x"
  by (auto simp: f32_within_def intro: f32_le_trans)

lemma f32_max_zero: "f32_le f32_zero (f32_max x f32_zero)"
  by (auto simp: f32_max_def f32_le_iff f32_gt_iff f32_zero_def)

text \<open>A value between two finite ones is bounded by the larger magnitude.\<close>

lemma f32_within_upto:
  assumes "f32_within lo hi x" "f32_upto n lo" "f32_upto n hi"
  shows "f32_upto n x"
proof -
  obtain s a t b where lh: "lo = F32 s a" "hi = F32 t b" "a \<le> 2 ^ n" "b \<le> 2 ^ n"
    using assms by (cases lo; cases hi) auto
  show ?thesis
  proof (cases x)
    case (F32 u m)
    then show ?thesis using assms(1) lh
      by (auto simp: f32_within_def f32_le_iff f32_int_def split: if_splits)
  qed (use assms(1) lh in \<open>auto simp: f32_within_def f32_le_iff split: if_splits\<close>)
qed

end
