(* ===== verification/F32_Literals.thy ===== *)
theory F32_Literals
  imports F32_Arith
begin

text \<open>
  The single-precision literals of the core crate in units of \<open>2\<^sup>-\<^sup>1\<^sup>4\<^sup>9\<close>, and that the bounds of its
  clamps are ordered.
\<close>

lemma f32_literals:
  "f32_dec 1 2 = F32 False (10737418 * 2 ^ 119)"
  "f32_dec 95 2 = F32 False (15938355 * 2 ^ 125)"
  "f32_dec 5 2 = F32 False (13421773 * 2 ^ 121)"
  "f32_dec 15 2 = F32 False (10066330 * 2 ^ 123)"
  "f32_dec 6 2 = F32 False (16106127 * 2 ^ 121)"
  "f32_dec 6 1 = F32 False (10066330 * 2 ^ 125)"
  "f32_dec 7 1 = F32 False (11744051 * 2 ^ 125)"
  "f32_dec 135 2 = F32 False (11324621 * 2 ^ 126)"
  "f32_dec 5 1 = F32 False (8388608 * 2 ^ 125)"
  "f32_dec 15 1 = F32 False (12582912 * 2 ^ 126)"
  "f32_dec 2 1 = F32 False (13421773 * 2 ^ 123)"
  "f32_dec 25 2 = F32 False (8388608 * 2 ^ 124)"
  "f32_dec 3 1 = F32 False (10066330 * 2 ^ 124)"
  "f32_dec 1 1 = F32 False (13421773 * 2 ^ 122)"
  "f32_dec 3 0 = F32 False (12582912 * 2 ^ 127)"
  "f32_dec 80 0 = F32 False (10485760 * 2 ^ 132)"
  "f32_dec 140 0 = F32 False (9175040 * 2 ^ 133)"
  "f32_dec 1000 0 = F32 False (16384000 * 2 ^ 135)"
  "f32_dec 4 1 = F32 False (13421773 * 2 ^ 124)"
  "f32_dec 8 1 = F32 False (13421773 * 2 ^ 125)"
  "f32_dec 8 2 = F32 False (10737418 * 2 ^ 122)"
  "f32_dec 45 2 = F32 False (15099494 * 2 ^ 124)"
  "f32_dec 35 2 = F32 False (11744051 * 2 ^ 124)"
  "f32_dec 85 2 = F32 False (14260634 * 2 ^ 125)"
  "f32_dec 55 2 = F32 False (9227469 * 2 ^ 125)"
  "f32_dec 3 4 = F32 False (10307922 * 2 ^ 114)"
  "f32_dec 75 2 = F32 False (12582912 * 2 ^ 125)"
  "f32_dec 2 2 = F32 False (10737418 * 2 ^ 120)"
  "f32_dec 9 1 = F32 False (15099494 * 2 ^ 125)"
  "f32_dec 2 0 = F32 False (8388608 * 2 ^ 127)"
  "f32_dec 1 3 = F32 False (8589935 * 2 ^ 116)"
  by (simp_all add: f32_dec_def f32_of_ratio_def f32_ratio_def Let_def f32_shift.simps)

lemmas f32_order_simps = f32_literals f32_literals [unfolded One_nat_def] f32_le_iff f32_zero_def f32_one_def f32_int_def

lemma clamp_bounds:
  "f32_le (f32_dec 1 2) (f32_dec 95 2)" "f32_le f32_zero (f32_dec 95 2)" "f32_le f32_zero f32_one"
  "f32_le (f32_neg (f32_dec 3 0)) (f32_dec 3 0)" "f32_le (f32_dec 15 2) f32_one"
  "f32_le (f32_dec 5 2) (f32_dec 95 2)" "f32_le (f32_neg (f32_dec 80 0)) (f32_dec 80 0)"
  "f32_le (f32_dec 7 1) (f32_dec 135 2)" "f32_le (f32_dec 5 1) (f32_dec 15 1)"
  "f32_le (f32_neg (f32_dec 2 1)) (f32_dec 2 1)"
  by (simp_all add: f32_order_simps)

text \<open>Operations on zero.\<close>

lemma f32_zero_ops:
  "f32_mul (F32 False n) f32_zero = f32_zero" "f32_mul f32_zero (F32 False n) = f32_zero"
  "f32_add f32_zero f32_zero = f32_zero" "f32_sub f32_zero f32_zero = f32_zero" "f32_of_nat 0 = f32_zero"
  by (simp_all add: f32_zero_def f32_of_ratio_def f32_ratio_def f32_sub_def f32_int_def f32_shift.simps f32_of_nat_def f32_make_ratio)

lemma f32_dec_zero:
  "f32_mul (f32_dec 6 1) f32_zero = f32_zero" "f32_mul (f32_dec 4 1) f32_zero = f32_zero"
  "f32_mul f32_zero (f32_dec 5 1) = f32_zero" "f32_mul f32_zero (f32_dec 15 1) = f32_zero"
  "f32_mul f32_zero (f32_dec 5 2) = f32_zero"
  by (simp_all add: f32_literals f32_literals [unfolded One_nat_def] f32_zero_ops)

lemma f32_one_zero: "f32_clamp f32_zero f32_one (f32_add f32_one f32_zero) = f32_one"
proof -
  have "f32_add f32_one f32_zero = f32_one"
    by (simp add: f32_one_def f32_zero_def f32_int_def f32_make_def f32_round_power [of 149, simplified])
  then show ?thesis by (simp add: f32_clamp_id f32_within_def f32_order_simps)
qed

end
