(* ===== verification/Trs.thy ===== *)
theory Trs
  imports F32_Literals
begin

text \<open>
  The load regulator, \<open>liminal-core/src/trs.rs\<close>: a leaky proportional-integral-derivative controller
  in single precision.  The operations are the source's, operation by operation in its order, since
  the sums are rounded.  The lemmas follow magnitudes through one step: with gains of at most
  \<open>2\<^sup>1\<^sup>6\<close> no intermediate value leaves the finite singles, so no value becomes not-a-number.
\<close>

section \<open>The controller\<close>

record TrsState =
  trs_alpha :: f32
  trs_beta :: f32
  trs_target_load :: f32
  trs_err_i :: f32
  trs_k_p :: f32
  trs_k_i :: f32
  trs_k_d :: f32
  trs_last_err :: f32
  trs_last_ts :: u64

record TrsConfig =
  tc_alpha :: f32
  tc_beta :: f32
  tc_target_load :: f32
  tc_k_p :: f32
  tc_k_i :: f32
  tc_k_d :: f32

record TrsOutput =
  to_alpha_new :: f32
  to_tick_adjust_ms :: int
  to_affinity_scale :: f32
  to_metabolism_scale :: f32
  to_sleep_threshold_delta :: f32

definition trs_default :: TrsState where
  "trs_default =
     \<lparr>trs_alpha = f32_dec 22 2, trs_beta = f32_dec 6 1, trs_target_load = f32_dec 6 1, trs_err_i = f32_zero,
      trs_k_p = f32_dec 85 2, trs_k_i = f32_dec 18 2, trs_k_d = f32_dec 5 2, trs_last_err = f32_zero,
      trs_last_ts = 0\<rparr>"

definition trs_apply_config :: "TrsConfig \<Rightarrow> TrsState \<Rightarrow> TrsState" where
  "trs_apply_config cfg s =
     s\<lparr>trs_alpha := f32_clamp (f32_dec 1 2) (f32_dec 95 2) (tc_alpha cfg),
       trs_beta := f32_clamp f32_zero (f32_dec 95 2) (tc_beta cfg),
       trs_k_p := f32_max (tc_k_p cfg) f32_zero,
       trs_k_i := f32_max (tc_k_i cfg) f32_zero,
       trs_k_d := f32_max (tc_k_d cfg) f32_zero,
       trs_target_load := f32_clamp f32_zero f32_one (tc_target_load cfg),
       trs_err_i := f32_zero, trs_last_err := f32_zero, trs_last_ts := 0\<rparr>"

definition trs_to_config :: "TrsState \<Rightarrow> TrsConfig" where
  "trs_to_config s =
     \<lparr>tc_alpha = trs_alpha s, tc_beta = trs_beta s, tc_target_load = trs_target_load s,
      tc_k_p = trs_k_p s, tc_k_i = trs_k_i s, tc_k_d = trs_k_d s\<rparr>"

definition trs_set_target :: "f32 \<Rightarrow> TrsState \<Rightarrow> TrsState" where
  "trs_set_target target s = s\<lparr>trs_target_load := f32_clamp f32_zero f32_one target\<rparr>"

definition softsign :: "f32 \<Rightarrow> f32" where
  "softsign x = f32_div x (f32_add f32_one (f32_abs x))"

text \<open>The time since the last step in seconds; a clock that went back counts as one millisecond.\<close>

definition trs_dt :: "u64 \<Rightarrow> u64 \<Rightarrow> f32" where
  "trs_dt last_ts now_ms =
     (let dt_ms = (if last_ts = 0 then 1000 else max (saturating_sub now_ms last_ts) 1)
      in f32_div (f32_of_nat (unat dt_ms)) (f32_dec 1000 0))"

definition trs_step :: "u64 \<Rightarrow> f32 \<Rightarrow> TrsState \<Rightarrow> TrsState \<times> TrsOutput" where
  "trs_step now_ms observed_load s =
     (let observed = f32_clamp f32_zero f32_one observed_load;
          target = f32_clamp f32_zero f32_one (trs_target_load s);
          err = f32_sub target observed;
          dt = trs_dt (trs_last_ts s) now_ms;
          beta = f32_clamp f32_zero (f32_dec 95 2) (trs_beta s);
          err_i = f32_clamp (f32_neg (f32_dec 3 0)) (f32_dec 3 0)
                    (f32_add (f32_mul (trs_err_i s) beta) (f32_mul err dt));
          err_d = (if trs_last_ts s = 0 then f32_zero else f32_div (f32_sub err (trs_last_err s)) dt);
          control = f32_add (f32_add (f32_mul (trs_k_p s) err) (f32_mul (trs_k_i s) err_i))
                      (f32_mul (trs_k_d s) err_d);
          damping = f32_clamp (f32_dec 15 2) f32_one (f32_sub f32_one beta);
          control = f32_mul (softsign control) damping;
          alpha = f32_clamp (f32_dec 5 2) (f32_dec 95 2)
                    (f32_add (trs_alpha s) (f32_mul control (f32_dec 6 2)))
      in (s\<lparr>trs_err_i := err_i, trs_alpha := alpha, trs_last_err := err, trs_last_ts := now_ms\<rparr>,
          \<lparr>to_alpha_new = alpha,
           to_tick_adjust_ms = f32_as_i32 (f32_clamp (f32_neg (f32_dec 80 0)) (f32_dec 80 0)
              (f32_round_int (f32_mul (f32_neg control) (f32_dec 140 0)))),
           to_affinity_scale = f32_clamp (f32_dec 7 1) (f32_dec 135 2)
              (f32_add f32_one (f32_mul control (f32_dec 25 2))),
           to_metabolism_scale = f32_clamp (f32_dec 5 1) (f32_dec 15 1)
              (f32_add f32_one (f32_mul control (f32_dec 3 1))),
           to_sleep_threshold_delta = f32_clamp (f32_neg (f32_dec 2 1)) (f32_dec 2 1)
              (f32_mul (f32_neg control) (f32_dec 1 1))\<rparr>))"

section \<open>One step stays finite\<close>

lemma trs_dt_between: "f32_between 139 205 (trs_dt last_ts now_ms)"
proof -
  define dt where "dt = (if last_ts = 0 then 1000 else max (saturating_sub now_ms last_ts) 1)"
  have "dt \<noteq> 0" by (auto simp: dt_def max_def)
  then have "0 < unat dt" "unat dt \<le> 2 ^ 64" using unsigned_less [of dt, where 'a = nat] by (simp_all add: unat_gt_0)
  then have between: "f32_between 149 213 (f32_of_nat (unat dt))" by (rule f32_between_of_nat)
  define m where "m = f32_units (f32_of_nat (unat dt))"
  have n: "f32_of_nat (unat dt) = F32 False m" "2 ^ 149 \<le> m" "m \<le> 2 ^ 213"
    using between by (simp_all add: f32_between_def m_def)
  have "f32_between 139 205 (f32_of_ratio False (m * 2 ^ 149) (16384000 * 2 ^ 135))"
    using n(2,3) by (intro f32_between_of_ratio) simp_all
  then show ?thesis
    unfolding trs_dt_def Let_def dt_def [symmetric] n(1) f32_literals f32_div.simps by simp
qed

lemma softsign_upto:
  assumes "f32_upto n x" "149 \<le> n" "n < 276"
  shows "f32_upto n (softsign x)"
proof -
  obtain s m where x: "x = F32 s m" "m \<le> 2 ^ n" using assms(1) by (cases x) auto
  have "(2 :: nat) ^ 149 \<le> 2 ^ n" using assms(2) by (intro power_increasing) auto
  then have "f32_between 149 (Suc n) (f32_make False (2 ^ 149 + m))"
    unfolding f32_make_ratio using x(2) assms(3) by (intro f32_between_of_ratio) simp_all
  then have "f32_between 149 (Suc n) (f32_add f32_one (f32_abs x))"
    by (simp add: x f32_one_def f32_int_def Let_def nat_add_distrib)
  then show ?thesis unfolding softsign_def using assms by (intro f32_upto_div) auto
qed

text \<open>The controller's invariant: every setting is a number, the settings and the integral are within
  their ranges, and the gains are at most \<open>2\<^sup>1\<^sup>6\<close>.\<close>

definition gain_ok :: "f32 \<Rightarrow> bool" where
  "gain_ok k \<longleftrightarrow> f32_upto 165 k \<and> f32_le f32_zero k"

definition trs_ok :: "TrsState \<Rightarrow> bool" where
  "trs_ok s \<longleftrightarrow>
     f32_within (f32_dec 1 2) (f32_dec 95 2) (trs_alpha s) \<and>
     f32_within f32_zero (f32_dec 95 2) (trs_beta s) \<and>
     f32_within f32_zero f32_one (trs_target_load s) \<and>
     f32_within (f32_neg (f32_dec 3 0)) (f32_dec 3 0) (trs_err_i s) \<and>
     gain_ok (trs_k_p s) \<and> gain_ok (trs_k_i s) \<and> gain_ok (trs_k_d s) \<and>
     f32_upto 150 (trs_last_err s)"

definition output_ok :: "TrsOutput \<Rightarrow> bool" where
  "output_ok out \<longleftrightarrow>
     f32_within (f32_dec 5 2) (f32_dec 95 2) (to_alpha_new out) \<and>
     - 80 \<le> to_tick_adjust_ms out \<and> to_tick_adjust_ms out \<le> 80 \<and>
     f32_within (f32_dec 7 1) (f32_dec 135 2) (to_affinity_scale out) \<and>
     f32_within (f32_dec 5 1) (f32_dec 15 1) (to_metabolism_scale out) \<and>
     f32_within (f32_neg (f32_dec 2 1)) (f32_dec 2 1) (to_sleep_threshold_delta out)"

lemma unit_upto: "f32_within f32_zero f32_one x \<Longrightarrow> f32_upto 149 x"
  by (erule f32_within_upto) (simp_all add: f32_zero_def f32_one_def)

lemma f32_round_int_number: "x \<noteq> F32NaN \<Longrightarrow> f32_round_int x \<noteq> F32NaN"
  by (cases x) auto

lemma as_i32_within:
  assumes "f32_within (f32_neg (f32_dec 80 0)) (f32_dec 80 0) x"
  shows "- 80 \<le> f32_as_i32 x \<and> f32_as_i32 x \<le> 80"
proof (cases x)
  case (F32 s n)
  have "(80 :: nat) * 2 ^ 149 = 10485760 * 2 ^ 132" by simp
  then have "n \<le> 80 * 2 ^ 149"
    using assms F32 by (auto simp: f32_within_def f32_order_simps split: if_splits)
  then have "n div 2 ^ 149 \<le> 80" by (metis div_le_mono nonzero_mult_div_cancel_right power_not_zero zero_neq_numeral)
  then show ?thesis using F32 by (auto simp: i32_saturate_def)
qed (use assms in \<open>auto simp: f32_within_def f32_order_simps split: if_splits\<close>)

lemma literals_upto:
  "f32_upto 149 f32_zero" "f32_upto 149 f32_one" "f32_upto 149 (f32_dec 95 2)" "f32_upto 149 (f32_dec 15 2)"
  "f32_upto 151 (f32_dec 3 0)" "f32_upto 157 (f32_dec 140 0)" "f32_upto 149 (f32_dec 6 2)"
  "f32_upto 149 (f32_dec 25 2)" "f32_upto 149 (f32_dec 3 1)" "f32_upto 149 (f32_dec 1 1)"
  by (simp_all add: f32_order_simps)

lemma f32_add_number: "f32_upto 200 x \<Longrightarrow> f32_upto 200 y \<Longrightarrow> f32_add x y \<noteq> F32NaN"
  using f32_upto_number [OF f32_upto_add, of 200 x y] by simp

lemma f32_mul_number: "f32_upto 200 x \<Longrightarrow> f32_upto 200 y \<Longrightarrow> f32_mul x y \<noteq> F32NaN"
  using f32_upto_number [OF f32_upto_mul, of 200 x 200 y 251] by simp

lemma integral_number:
  assumes "f32_upto 151 i" "f32_upto 149 beta" "f32_upto 150 err" "f32_between 139 205 dt"
  shows "f32_add (f32_mul i beta) (f32_mul err dt) \<noteq> F32NaN"
proof -
  have "f32_upto 206 (f32_mul i beta)" using assms by (intro f32_upto_mul [of 151 _ 149]) simp_all
  moreover have "f32_upto 206 (f32_mul err dt)"
    using assms f32_between_upto by (intro f32_upto_mul [of 150 _ 205]) auto
  ultimately show ?thesis using f32_upto_number [OF f32_upto_add, of 206] by simp
qed

lemma control_upto:
  assumes "gain_ok p" "gain_ok i" "gain_ok d" "f32_upto 150 err" "f32_upto 151 err_i" "f32_upto 161 err_d"
    and "f32_upto 149 damping"
  shows "f32_upto 179 (f32_mul (softsign (f32_add (f32_add (f32_mul p err) (f32_mul i err_i)) (f32_mul d err_d))) damping)"
proof -
  have p: "f32_upto 177 (f32_mul p err)"
    using assms by (intro f32_upto_mul [of 165 _ 150]) (simp_all add: gain_ok_def)
  have i: "f32_upto 177 (f32_mul i err_i)"
    using assms by (intro f32_upto_mul [of 165 _ 151]) (simp_all add: gain_ok_def)
  have d: "f32_upto 177 (f32_mul d err_d)"
    using assms by (intro f32_upto_mul [of 165 _ 161]) (simp_all add: gain_ok_def)
  have "f32_upto 178 (f32_add (f32_mul p err) (f32_mul i err_i))" using f32_upto_add [OF p i] by simp
  from f32_upto_add [OF this, of "f32_mul d err_d"] f32_upto_mono [OF d]
  have "f32_upto 179 (f32_add (f32_add (f32_mul p err) (f32_mul i err_i)) (f32_mul d err_d))" by simp
  then have "f32_upto 179 (softsign (f32_add (f32_add (f32_mul p err) (f32_mul i err_i)) (f32_mul d err_d)))"
    by (rule softsign_upto) simp_all
  then show ?thesis using assms(7) by (rule f32_upto_mul) simp_all
qed

text \<open>The outputs are clamped numbers.\<close>

lemma alpha_within:
  assumes "f32_upto 179 control" "f32_upto 149 alpha"
  shows "f32_within (f32_dec 5 2) (f32_dec 95 2)
           (f32_clamp (f32_dec 5 2) (f32_dec 95 2) (f32_add alpha (f32_mul control (f32_dec 6 2))))"
proof -
  have "f32_upto 200 (f32_mul control (f32_dec 6 2))" using assms(1) literals_upto(7) by (rule f32_upto_mul) simp_all
  then have "f32_add alpha (f32_mul control (f32_dec 6 2)) \<noteq> F32NaN"
    using f32_upto_mono [OF assms(2)] by (intro f32_add_number) simp_all
  then show ?thesis by (rule f32_clamp_within [OF clamp_bounds(6)])
qed

lemma scale_number:
  assumes "f32_upto 179 control" "f32_upto 149 k"
  shows "f32_add f32_one (f32_mul control k) \<noteq> F32NaN"
proof -
  have "f32_upto 200 (f32_mul control k)" using assms by (rule f32_upto_mul) simp_all
  then show ?thesis using f32_upto_mono [OF literals_upto(2)] by (intro f32_add_number) simp_all
qed

lemma output_clamps:
  assumes "f32_upto 179 control"
  shows "f32_within (f32_dec 7 1) (f32_dec 135 2) (f32_clamp (f32_dec 7 1) (f32_dec 135 2) (f32_add f32_one (f32_mul control (f32_dec 25 2))))"
    and "f32_within (f32_dec 5 1) (f32_dec 15 1) (f32_clamp (f32_dec 5 1) (f32_dec 15 1) (f32_add f32_one (f32_mul control (f32_dec 3 1))))"
    and "f32_within (f32_neg (f32_dec 2 1)) (f32_dec 2 1) (f32_clamp (f32_neg (f32_dec 2 1)) (f32_dec 2 1) (f32_mul (f32_neg control) (f32_dec 1 1)))"
    and "f32_within (f32_neg (f32_dec 80 0)) (f32_dec 80 0) (f32_clamp (f32_neg (f32_dec 80 0)) (f32_dec 80 0)
           (f32_round_int (f32_mul (f32_neg control) (f32_dec 140 0))))"
proof -
  have neg: "f32_mul (f32_neg control) k \<noteq> F32NaN" if "f32_upto 157 k" for k
    using f32_upto_mono [OF assms, of 200] f32_upto_mono [OF that, of 200] by (intro f32_mul_number) simp_all
  show "f32_within (f32_dec 7 1) (f32_dec 135 2) (f32_clamp (f32_dec 7 1) (f32_dec 135 2) (f32_add f32_one (f32_mul control (f32_dec 25 2))))"
    by (intro f32_clamp_within clamp_bounds scale_number assms literals_upto)
  show "f32_within (f32_dec 5 1) (f32_dec 15 1) (f32_clamp (f32_dec 5 1) (f32_dec 15 1) (f32_add f32_one (f32_mul control (f32_dec 3 1))))"
    by (intro f32_clamp_within clamp_bounds scale_number assms literals_upto)
  show "f32_within (f32_neg (f32_dec 2 1)) (f32_dec 2 1) (f32_clamp (f32_neg (f32_dec 2 1)) (f32_dec 2 1) (f32_mul (f32_neg control) (f32_dec 1 1)))"
    using f32_upto_mono [OF literals_upto(10), of 157] by (intro f32_clamp_within clamp_bounds neg) simp
  show "f32_within (f32_neg (f32_dec 80 0)) (f32_dec 80 0) (f32_clamp (f32_neg (f32_dec 80 0)) (f32_dec 80 0)
           (f32_round_int (f32_mul (f32_neg control) (f32_dec 140 0))))"
    by (intro f32_clamp_within clamp_bounds f32_round_int_number neg literals_upto)
qed

lemma integral_upto: "f32_within (f32_neg (f32_dec 3 0)) (f32_dec 3 0) x \<Longrightarrow> f32_upto 151 x"
  by (erule f32_within_upto) (simp_all only: f32_upto_neg literals_upto)

lemma damping_upto:
  assumes "f32_upto 149 beta"
  shows "f32_upto 149 (f32_clamp (f32_dec 15 2) f32_one (f32_sub f32_one beta))"
proof -
  have "f32_sub f32_one beta \<noteq> F32NaN"
    by (rule f32_upto_number [OF f32_upto_sub [OF literals_upto(2) assms]]) simp
  then have "f32_within (f32_dec 15 2) f32_one (f32_clamp (f32_dec 15 2) f32_one (f32_sub f32_one beta))"
    by (rule f32_clamp_within [OF clamp_bounds(5)])
  then show ?thesis using literals_upto(4,2) by (rule f32_within_upto)
qed

lemma trs_step_ok:
  assumes ok: "trs_ok s" and load: "observed_load \<noteq> F32NaN"
  shows "trs_ok (fst (trs_step now_ms observed_load s)) \<and> output_ok (snd (trs_step now_ms observed_load s))"
proof -
  define err dt where "err = f32_sub (f32_clamp f32_zero f32_one (trs_target_load s)) (f32_clamp f32_zero f32_one observed_load)"
    and "dt = trs_dt (trs_last_ts s) now_ms"
  define beta where "beta = f32_clamp f32_zero (f32_dec 95 2) (trs_beta s)"
  define err_i where "err_i = f32_clamp (f32_neg (f32_dec 3 0)) (f32_dec 3 0) (f32_add (f32_mul (trs_err_i s) beta) (f32_mul err dt))"
  define err_d where "err_d = (if trs_last_ts s = 0 then f32_zero else f32_div (f32_sub err (trs_last_err s)) dt)"
  define damping where "damping = f32_clamp (f32_dec 15 2) f32_one (f32_sub f32_one beta)"
  define control where "control = f32_mul (softsign (f32_add (f32_add (f32_mul (trs_k_p s) err) (f32_mul (trs_k_i s) err_i))
    (f32_mul (trs_k_d s) err_d))) damping"
  note parts = err_def dt_def beta_def err_i_def err_d_def damping_def control_def
  have settings: "f32_within f32_zero f32_one (trs_target_load s)" "f32_within f32_zero (f32_dec 95 2) (trs_beta s)"
    "f32_within (f32_neg (f32_dec 3 0)) (f32_dec 3 0) (trs_err_i s)" "f32_upto 150 (trs_last_err s)"
    "f32_within (f32_dec 1 2) (f32_dec 95 2) (trs_alpha s)"
    using ok by (simp_all add: trs_ok_def)
  have err: "f32_upto 150 err"
    unfolding err_def using f32_upto_sub [of 149] unit_upto f32_clamp_within [OF clamp_bounds(3)] load
      f32_within_number [OF settings(1)] by simp
  have dt: "f32_between 139 205 dt" unfolding dt_def by (rule trs_dt_between)
  have beta: "f32_upto 149 beta"
    unfolding beta_def f32_clamp_id [OF settings(2)] using settings(2) literals_upto(1,3) by (rule f32_within_upto)
  have err_i: "f32_within (f32_neg (f32_dec 3 0)) (f32_dec 3 0) err_i"
    unfolding err_i_def using integral_number [OF integral_upto [OF settings(3)] beta err dt] by (rule f32_clamp_within [OF clamp_bounds(4)])
  have err_d: "f32_upto 161 err_d"
    using f32_upto_sub [OF err settings(4)] f32_upto_div [OF _ dt, of 151 _ 161]
    by (auto simp: err_d_def f32_zero_def)
  have "f32_upto 149 damping" unfolding damping_def using beta by (rule damping_upto)
  then have control: "f32_upto 179 control"
    unfolding control_def using ok err integral_upto [OF err_i] err_d by (intro control_upto) (simp_all add: trs_ok_def)
  define alpha where "alpha = f32_clamp (f32_dec 5 2) (f32_dec 95 2) (f32_add (trs_alpha s) (f32_mul control (f32_dec 6 2)))"
  have "f32_upto 149 (f32_dec 1 2)" by (simp add: f32_order_simps)
  then have alpha: "f32_within (f32_dec 5 2) (f32_dec 95 2) alpha"
    unfolding alpha_def using control f32_within_upto [OF settings(5) _ literals_upto(3)] by (intro alpha_within)
  have "f32_le (f32_dec 1 2) (f32_dec 5 2)" by (simp add: f32_order_simps)
  then have alpha': "f32_within (f32_dec 1 2) (f32_dec 95 2) alpha" by (rule f32_within_weaken [OF alpha])
  have step: "fst (trs_step now_ms observed_load s) = s\<lparr>trs_err_i := err_i, trs_alpha := alpha, trs_last_err := err, trs_last_ts := now_ms\<rparr>"
    unfolding trs_step_def Let_def parts alpha_def by (simp only: fst_conv)
  have "trs_ok (fst (trs_step now_ms observed_load s))"
    unfolding step using ok alpha' err err_i by (simp add: trs_ok_def)
  moreover have "output_ok (snd (trs_step now_ms observed_load s))"
    unfolding trs_step_def Let_def snd_conv output_ok_def TrsOutput.select_convs
    using alpha as_i32_within [OF output_clamps(4) [OF control]] output_clamps(1-3) [OF control]
    unfolding alpha_def parts by (intro conjI) (simp_all only:)
  ultimately show ?thesis ..
qed

section \<open>Runs\<close>

text \<open>What the life loop and the operators do to the controller.\<close>

datatype trs_op = ApplyConfig TrsConfig | SetTarget f32 | Step u64 f32

fun trs_op_step :: "trs_op \<Rightarrow> TrsState \<Rightarrow> TrsState" where
  "trs_op_step (ApplyConfig cfg) s = trs_apply_config cfg s"
| "trs_op_step (SetTarget t) s = trs_set_target t s"
| "trs_op_step (Step now load) s = fst (trs_step now load s)"

definition config_ok :: "TrsConfig \<Rightarrow> bool" where
  "config_ok cfg \<longleftrightarrow> tc_alpha cfg \<noteq> F32NaN \<and> tc_beta cfg \<noteq> F32NaN \<and> tc_target_load cfg \<noteq> F32NaN
     \<and> f32_upto 165 (tc_k_p cfg) \<and> f32_upto 165 (tc_k_i cfg) \<and> f32_upto 165 (tc_k_d cfg)"

fun trs_op_ok :: "trs_op \<Rightarrow> bool" where
  "trs_op_ok (ApplyConfig cfg) \<longleftrightarrow> config_ok cfg"
| "trs_op_ok (SetTarget t) \<longleftrightarrow> t \<noteq> F32NaN"
| "trs_op_ok (Step now load) \<longleftrightarrow> load \<noteq> F32NaN"

lemma gain_ok_max: "f32_upto 165 k \<Longrightarrow> gain_ok (f32_max k f32_zero)"
  unfolding gain_ok_def using f32_max_zero by (auto simp: f32_max_def f32_zero_def)

lemma trs_op_step_ok:
  assumes "trs_ok s" "trs_op_ok op"
  shows "trs_ok (trs_op_step op s)"
proof (cases op)
  case (ApplyConfig cfg)
  have "f32_within (f32_neg (f32_dec 3 0)) (f32_dec 3 0) f32_zero" "f32_upto 150 f32_zero"
    by (simp_all add: f32_within_def f32_order_simps)
  then show ?thesis
    using assms ApplyConfig f32_clamp_within [OF clamp_bounds(1)] f32_clamp_within [OF clamp_bounds(2)]
      f32_clamp_within [OF clamp_bounds(3)] gain_ok_max
    by (simp add: trs_apply_config_def trs_ok_def config_ok_def)
next
  case (SetTarget t)
  then show ?thesis
    using assms f32_clamp_within [OF clamp_bounds(3)] by (simp add: trs_set_target_def trs_ok_def)
next
  case (Step now load)
  then show ?thesis using assms trs_step_ok by simp
qed

lemma trs_run_ok: "trs_ok s \<Longrightarrow> list_all trs_op_ok ops \<Longrightarrow> trs_ok (fold trs_op_step ops s)"
  by (induction ops arbitrary: s) (simp_all add: trs_op_step_ok)

lemma trs_default_ok: "trs_ok trs_default"
proof -
  have "f32_dec 22 2 = F32 False (14763950 * 2 ^ 123)" "f32_dec 85 2 = F32 False (14260634 * 2 ^ 125)"
    "f32_dec 18 2 = F32 False (12079596 * 2 ^ 123)"
    by (simp_all add: f32_dec_def f32_of_ratio_def f32_ratio_def Let_def f32_shift.simps)
  then show ?thesis
    by (simp add: trs_ok_def trs_default_def gain_ok_def f32_within_def f32_order_simps)
qed

end
