(* ===== verification/Reflex.thy ===== *)
theory Reflex
  imports Trs
begin

text \<open>
  The reflex feedback loop, \<open>liminal-core/src/reflex/feedback.rs\<close>: a ring buffer of snapshots, the
  signal read off the window, the action proposed for a signal, and the cooldown of each kind of
  action.  What an action does to the cluster field is in \<open>Field\<close>.
\<close>

section \<open>Data\<close>

record ReflexSnapshot =
  rs_ts_ms :: u64
  rs_yield_rate :: f32
  rs_harmony :: f32
  rs_latency_p95 :: f32
  rs_impact :: f32

record MetricsDelta =
  md_yield_delta :: f32
  md_harmony_delta :: f32
  md_latency_delta :: f32
  md_impact_delta :: f32

definition metrics_delta_default :: MetricsDelta where
  "metrics_delta_default = \<lparr>md_yield_delta = f32_zero, md_harmony_delta = f32_zero,
     md_latency_delta = f32_zero, md_impact_delta = f32_zero\<rparr>"

definition snapshot_delta :: "ReflexSnapshot \<Rightarrow> ReflexSnapshot \<Rightarrow> MetricsDelta" where
  "snapshot_delta a b =
     \<lparr>md_yield_delta = f32_sub (rs_yield_rate a) (rs_yield_rate b),
      md_harmony_delta = f32_sub (rs_harmony a) (rs_harmony b),
      md_latency_delta = f32_sub (rs_latency_p95 a) (rs_latency_p95 b),
      md_impact_delta = f32_sub (rs_impact a) (rs_impact b)\<rparr>"

record ReflexCfg =
  rc_win_ms :: u64
  rc_eps :: f32
  rc_pivot_step :: f32
  rc_hysteresis :: f32
  rc_cooldown_ms :: u64
  rc_min_gain :: f32

definition reflex_cfg_default :: ReflexCfg where
  "reflex_cfg_default =
     \<lparr>rc_win_ms = 60000, rc_eps = f32_dec 5 2, rc_pivot_step = f32_dec 1 1, rc_hysteresis = f32_dec 2 2,
      rc_cooldown_ms = 15000, rc_min_gain = f32_dec 2 2\<rparr>"

datatype ReflexSignal = SigOk | Plateau | DriftDown | Oscillation | Overload

datatype ActionKind = KindMicroPivot | KindDefuse | KindDampening | KindTargetShift

datatype Action =
    MicroPivot (ac_variant: "string option") (ac_step: f32)
  | DefuseAction (ac_pendulum: bool)
  | Dampening (ac_ttl_ms: u64) (ac_factor: f32)
  | TargetShift (ac_load_delta: f32)

fun action_kind :: "Action \<Rightarrow> ActionKind" where
  "action_kind (MicroPivot _ _) = KindMicroPivot"
| "action_kind (DefuseAction _) = KindDefuse"
| "action_kind (Dampening _ _) = KindDampening"
| "action_kind (TargetShift _) = KindTargetShift"

record ReflexReport =
  rr_sig :: ReflexSignal
  rr_delta :: MetricsDelta
  rr_action :: "Action option"
  rr_took_ms :: nat

section \<open>The ring buffer\<close>

record 'a RingBuf =
  rb_limit :: nat
  rb_inner :: "'a list"

definition rb_with_limit :: "nat \<Rightarrow> 'a RingBuf" where
  "rb_with_limit limit = \<lparr>rb_limit = limit, rb_inner = []\<rparr>"

definition rb_push :: "'a \<Rightarrow> 'a RingBuf \<Rightarrow> 'a RingBuf" where
  "rb_push v b =
     (let inner = (if length (rb_inner b) = rb_limit b then tl (rb_inner b) else rb_inner b)
      in b\<lparr>rb_inner := inner @ [v]\<rparr>)"

section \<open>The state of the loop\<close>

record ReflexState =
  rx_cfg :: ReflexCfg
  rx_enabled :: bool
  rx_window :: "ReflexSnapshot RingBuf"
  rx_cooldown_until :: "ActionKind \<Rightarrow> u64 option"
  rx_last_report :: "ReflexReport option"
  rx_eps_counter :: u64

definition reflex_state_new :: "ReflexCfg \<Rightarrow> ReflexState" where
  "reflex_state_new cfg =
     \<lparr>rx_cfg = cfg, rx_enabled = False,
      rx_window = rb_with_limit (max (unat (rc_win_ms cfg) div 1000) 1 * 2),
      rx_cooldown_until = (\<lambda>_. None), rx_last_report = None, rx_eps_counter = 0\<rparr>"

definition rx_push_snapshot :: "ReflexSnapshot \<Rightarrow> ReflexState \<Rightarrow> ReflexState" where
  "rx_push_snapshot s r = r\<lparr>rx_window := rb_push s (rx_window r)\<rparr>"

definition rx_cooldown_remaining :: "ReflexState \<Rightarrow> ActionKind \<Rightarrow> u64 \<Rightarrow> u64 option" where
  "rx_cooldown_remaining r kind now_ms =
     (case rx_cooldown_until r kind of None \<Rightarrow> None
      | Some until \<Rightarrow> if now_ms \<le> until then Some (until - now_ms) else None)"

definition rx_record_action :: "ActionKind \<Rightarrow> u64 \<Rightarrow> u64 \<Rightarrow> ReflexState \<Rightarrow> ReflexState" where
  "rx_record_action kind now_ms duration_ms r =
     r\<lparr>rx_cooldown_until := (rx_cooldown_until r)(kind \<mapsto> saturating_add now_ms duration_ms)\<rparr>"

section \<open>Reading the window\<close>

text \<open>The loop over neighbouring samples: sign changes of the yield's gradient beyond the hysteresis,
  and whether a latency was too high.\<close>

definition yield_sign :: "f32 \<Rightarrow> f32 \<Rightarrow> int" where
  "yield_sign hysteresis grad =
     (if f32_gt grad hysteresis then 1 else if f32_lt grad (f32_neg hysteresis) then - 1 else 0)"

fun scan_pairs :: "ReflexCfg \<Rightarrow> ReflexSnapshot list \<Rightarrow> nat \<times> int \<times> bool \<Rightarrow> nat \<times> int \<times> bool" where
  "scan_pairs cfg (l # r # rest) (changes, last_sign, overload) =
     (let sign = yield_sign (rc_hysteresis cfg) (f32_sub (rs_yield_rate r) (rs_yield_rate l));
          changes' = (if sign \<noteq> 0 \<and> last_sign \<noteq> 0 \<and> sign \<noteq> last_sign then changes + 1 else changes);
          last_sign' = (if sign \<noteq> 0 then sign else last_sign);
          high = f32_gt (rs_latency_p95 r) (f32_mul (f32_max (rc_min_gain cfg) f32_one) (f32_dec 300 0))
      in scan_pairs cfg (r # rest) (changes', last_sign', overload \<or> high))"
| "scan_pairs cfg _ st = st"

definition rx_evaluate :: "ReflexSnapshot RingBuf \<Rightarrow> ReflexCfg \<Rightarrow> ReflexSignal" where
  "rx_evaluate window cfg =
     (let samples = rb_inner window in
      if length samples < 2 then SigOk
      else
        let first = hd samples; final = last samples;
            duration = f32_div (f32_of_nat (unat (max (saturating_sub (rs_ts_ms final) (rs_ts_ms first)) 1))) (f32_dec 1000 0);
            yield_grad = f32_div (f32_sub (rs_yield_rate final) (rs_yield_rate first)) duration;
            harmony_grad = f32_div (f32_sub (rs_harmony final) (rs_harmony first)) duration;
            hysteresis = rc_hysteresis cfg
        in if f32_lt (f32_abs yield_grad) hysteresis \<and> f32_lt (f32_abs harmony_grad) hysteresis then Plateau
           else if f32_lt (rs_yield_rate final) (f32_sub (rs_yield_rate first) (rc_min_gain cfg))
                   \<and> f32_lt (rs_impact final) (f32_sub (rs_impact first) (rc_min_gain cfg)) then DriftDown
           else let (changes, last_sign, overload) = scan_pairs cfg samples (0, 0, False)
                in if overload then Overload else if changes \<ge> 3 then Oscillation else SigOk)"

section \<open>Proposing an action\<close>

record ReflexContext =
  cx_cfg :: ReflexCfg
  cx_slo_latency_ms :: f32
  cx_neighbors :: "(string \<times> f32) list"
  cx_now_ms :: u64

definition cooled :: "(ActionKind \<Rightarrow> u64 option) \<Rightarrow> u64 \<Rightarrow> ActionKind \<Rightarrow> bool" where
  "cooled cooldowns now_ms kind = (case cooldowns kind of None \<Rightarrow> True | Some until \<Rightarrow> until \<le> now_ms)"

text \<open>\<open>Iterator::max_by\<close> keeps the later of two elements unless the earlier is greater; values that do
  not compare count as equal.\<close>

definition bias_ge :: "string \<times> f32 \<Rightarrow> string \<times> f32 \<Rightarrow> bool" where
  "bias_ge a b \<longleftrightarrow> f32_partial_cmp (snd a) (snd b) = Some Greater"

fun max_neighbor :: "(string \<times> f32) list \<Rightarrow> (string \<times> f32) option" where
  "max_neighbor [] = None"
| "max_neighbor (x # xs) = Some (fold (\<lambda>y best. if bias_ge best y then best else y) xs x)"

definition propose_action :: "ReflexSignal \<Rightarrow> ReflexContext \<Rightarrow> (ActionKind \<Rightarrow> u64 option) \<Rightarrow> Action option" where
  "propose_action sig ctx cooldowns =
     (case sig of
        Plateau \<Rightarrow>
          if \<not> cooled cooldowns (cx_now_ms ctx) KindMicroPivot then None
          else Some (MicroPivot (map_option fst (max_neighbor (cx_neighbors ctx))) (rc_pivot_step (cx_cfg ctx)))
      | DriftDown \<Rightarrow>
          if \<not> cooled cooldowns (cx_now_ms ctx) KindDefuse then None else Some (DefuseAction True)
      | Oscillation \<Rightarrow>
          if \<not> cooled cooldowns (cx_now_ms ctx) KindDampening then None
          else Some (Dampening (rc_cooldown_ms (cx_cfg ctx)) (f32_dec 75 2))
      | Overload \<Rightarrow>
          if \<not> cooled cooldowns (cx_now_ms ctx) KindTargetShift then None
          else Some (TargetShift (f32_neg (f32_dec 5 2)))
      | SigOk \<Rightarrow> None)"

definition latest_delta :: "ReflexSnapshot list \<Rightarrow> MetricsDelta" where
  "latest_delta samples =
     (case rev samples of latest # prev # _ \<Rightarrow> snapshot_delta latest prev | _ \<Rightarrow> metrics_delta_default)"

definition next_report :: "ReflexContext \<Rightarrow> ReflexState \<Rightarrow> ReflexState \<times> ReflexReport option" where
  "next_report ctx r =
     (if \<not> rx_enabled r then (r, None)
      else
        let sig = rx_evaluate (rx_window r) (rx_cfg r);
            action = propose_action sig ctx (rx_cooldown_until r);
            report = \<lparr>rr_sig = sig, rr_delta = latest_delta (rb_inner (rx_window r)), rr_action = action, rr_took_ms = 0\<rparr>
        in (r\<lparr>rx_last_report := Some report\<rparr>, Some report))"

text \<open>The product wraps in a release build.\<close>

definition cooldown_for :: "Action \<Rightarrow> ReflexCfg \<Rightarrow> u64" where
  "cooldown_for action cfg =
     (case action_kind action of
        KindMicroPivot \<Rightarrow> rc_cooldown_ms cfg
      | KindDefuse \<Rightarrow> rc_cooldown_ms cfg * 2
      | KindDampening \<Rightarrow> rc_cooldown_ms cfg
      | KindTargetShift \<Rightarrow> rc_cooldown_ms cfg)"

section \<open>Laws\<close>

text \<open>The buffer holds the last snapshots pushed, at most its limit of them.\<close>

lemma rb_push_last:
  assumes "0 < rb_limit b" "rb_inner b = drop (length xs - rb_limit b) xs"
  shows "rb_inner (rb_push x b) = drop (length (xs @ [x]) - rb_limit b) (xs @ [x])"
proof (cases "length xs < rb_limit b")
  case True
  then show ?thesis using assms by (simp add: rb_push_def Let_def)
next
  case False
  then have "length (rb_inner b) = rb_limit b" using assms by simp
  then show ?thesis
    using assms False by (simp add: rb_push_def Let_def Suc_diff_le drop_Suc tl_drop)
qed

lemma rb_limit_push [simp]: "rb_limit (rb_push x b) = rb_limit b"
  by (simp add: rb_push_def Let_def)

lemma rb_pushes:
  "0 < limit \<Longrightarrow> rb_inner (fold rb_push xs (rb_with_limit limit)) = drop (length xs - limit) xs
     \<and> rb_limit (fold rb_push xs (rb_with_limit limit)) = limit"
proof (induction xs rule: rev_induct)
  case Nil
  then show ?case by (simp add: rb_with_limit_def)
next
  case (snoc x xs)
  then show ?case using rb_push_last [of "fold rb_push xs (rb_with_limit limit)" xs x] by simp
qed

lemma propose_action_cooled:
  "propose_action sig ctx cooldowns = Some a \<Longrightarrow> cooled cooldowns (cx_now_ms ctx) (action_kind a)"
  by (auto simp: propose_action_def split: ReflexSignal.splits if_splits)

text \<open>Every neighbour has a bias that does not exceed the chosen one, when all biases are numbers.\<close>

lemma max_neighbor_greatest:
  assumes "max_neighbor xs = Some b" and "\<forall>x\<in>set xs. snd x \<noteq> F32NaN"
  shows "b \<in> set xs \<and> (\<forall>x\<in>set xs. f32_le (snd x) (snd b))"
proof -
  have greatest: "\<forall>x\<in>insert z (set ys). snd x \<noteq> F32NaN \<Longrightarrow>
    (let w = fold (\<lambda>y best. if bias_ge best y then best else y) ys z
     in w \<in> insert z (set ys) \<and> (\<forall>x\<in>insert z (set ys). f32_le (snd x) (snd w)))" for z ys
  proof (induction ys arbitrary: z)
    case Nil
    then show ?case by (simp add: f32_le_iff)
  next
    case (Cons y ys)
    define z' where "z' = (if bias_ge z y then z else y)"
    have z': "f32_le (snd z) (snd z')" "f32_le (snd y) (snd z')"
      using Cons.prems by (auto simp: z'_def bias_ge_def f32_partial_cmp_def f32_le_iff)
    have "\<forall>x\<in>insert z' (set ys). snd x \<noteq> F32NaN" using Cons.prems by (auto simp: z'_def)
    note IH = Cons.IH [OF this]
    then show ?case using z' f32_le_trans
      by (simp add: Let_def flip: z'_def) (metis (no_types, lifting) z'_def)
  qed
  show ?thesis
  proof (cases xs)
    case (Cons z ys)
    then show ?thesis using greatest [of z ys] assms by (simp add: Let_def)
  qed (use assms in simp)
qed

end
