(* ===== verification/Views.thy ===== *)
theory Views
  imports BTree_Map F32_Arith
begin

text \<open>
  Subscriptions to patterns, \<open>liminal-core/src/views.rs\<close>: a registry of views with identifiers handed
  out in order, each emitted again when its period has passed.  The registry's hash map is a map in key
  order; the order in which its values are visited is an argument of \<open>take_due\<close>.
\<close>

section \<open>Data\<close>

record ViewFilter =
  vf_min_strength :: "f32 option"
  vf_min_salience :: "f32 option"
  vf_adreno :: "bool option"

definition view_filter_default :: ViewFilter where
  "view_filter_default = \<lparr>vf_min_strength = None, vf_min_salience = None, vf_adreno = None\<rparr>"

record NodeHitStat =
  nh_id :: u64
  nh_hits :: u32

record ViewStats =
  vs_count :: u32
  vs_avg_strength :: f32
  vs_avg_latency :: f32
  vs_top_nodes :: "NodeHitStat list"
  vs_emotional_load :: f32

definition view_stats_default :: ViewStats where
  "view_stats_default = \<lparr>vs_count = 0, vs_avg_strength = f32_zero, vs_avg_latency = f32_zero,
     vs_top_nodes = [], vs_emotional_load = f32_zero\<rparr>"

record View =
  vw_id :: u64
  vw_pattern :: string
  vw_window_ms :: u32
  vw_every_ms :: u32
  vw_last_emit :: u64
  vw_filter :: ViewFilter

definition should_emit :: "View \<Rightarrow> u64 \<Rightarrow> bool" where
  "should_emit v now_ms \<longleftrightarrow> ucast (vw_every_ms v) \<le> saturating_sub now_ms (vw_last_emit v)"

record ViewRegistry =
  vr_next_id :: u64
  vr_views :: "(u64, View) btree_map"

section \<open>Operations\<close>

definition view_registry_new :: ViewRegistry where
  "view_registry_new = \<lparr>vr_next_id = 1, vr_views = []\<rparr>"

definition add_view :: "string \<Rightarrow> u32 \<Rightarrow> u32 \<Rightarrow> u64 \<Rightarrow> ViewFilter \<Rightarrow> ViewRegistry \<Rightarrow> ViewRegistry \<times> u64" where
  "add_view pattern window_ms every_ms now_ms flt r =
     (let i = vr_next_id r;
          v = \<lparr>vw_id = i, vw_pattern = pattern, vw_window_ms = window_ms, vw_every_ms = every_ms,
               vw_last_emit = saturating_sub now_ms (ucast every_ms), vw_filter = flt\<rparr>
      in (r\<lparr>vr_next_id := i + 1, vr_views := bt_insert i v (vr_views r)\<rparr>, i))"

definition remove_view :: "u64 \<Rightarrow> ViewRegistry \<Rightarrow> ViewRegistry \<times> bool" where
  "remove_view i r = (r\<lparr>vr_views := bt_remove i (vr_views r)\<rparr>, bt_contains_key (vr_views r) i)"

definition due_step :: "u64 \<Rightarrow> u64 \<Rightarrow> ViewRegistry \<times> View list \<Rightarrow> ViewRegistry \<times> View list" where
  "due_step now_ms i rd =
     (let (r, due) = rd in
      case bt_get (vr_views r) i of None \<Rightarrow> (r, due)
      | Some v \<Rightarrow>
          if should_emit v now_ms then
            let v' = v\<lparr>vw_last_emit := now_ms\<rparr>
            in (r\<lparr>vr_views := bt_insert i v' (vr_views r)\<rparr>, due @ [v'])
          else (r, due))"

definition take_due :: "u64 list \<Rightarrow> u64 \<Rightarrow> ViewRegistry \<Rightarrow> ViewRegistry \<times> View list" where
  "take_due order now_ms r = fold (due_step now_ms) order (r, [])"

text \<open>\<open>list\<close> sorts by identifier, which is the order of the map.\<close>

definition view_list :: "ViewRegistry \<Rightarrow> View list" where
  "view_list r = bt_values (vr_views r)"

section \<open>Emission times\<close>

lemma unat_u32_as_u64 [simp]: "unat (ucast (w :: u32) :: u64) = unat w"
proof -
  have "unat w < 2 ^ 64" using unsigned_less [of w, where 'a = nat] by simp
  then show ?thesis by (simp add: unsigned_ucast_eq take_bit_nat_eq_self)
qed

lemma should_emit_iff:
  "should_emit v now \<longleftrightarrow> unat (vw_every_ms v) \<le> unat now - unat (vw_last_emit v)"
  by (simp add: should_emit_def word_le_nat_alt unat_saturating_sub)

text \<open>A new view is due at once, unless the clock has not reached its period yet.\<close>

lemma new_view_due:
  assumes "add_view p w e now f r = (r', i)" "unat e \<le> unat now"
  shows "\<exists>v. bt_get (vr_views r') i = Some v \<and> should_emit v now"
  using assms by (auto simp: add_view_def Let_def should_emit_iff unat_saturating_sub)

text \<open>Taking the due views: each is returned once, with the new emission time, and the registry holds
  the same views otherwise.\<close>

definition is_due :: "ViewRegistry \<Rightarrow> u64 \<Rightarrow> u64 \<Rightarrow> bool" where
  "is_due r now i = (case bt_get (vr_views r) i of None \<Rightarrow> False | Some v \<Rightarrow> should_emit v now)"

definition views_after :: "u64 \<Rightarrow> u64 list \<Rightarrow> ViewRegistry \<Rightarrow> u64 \<Rightarrow> View option" where
  "views_after now order r i =
     map_option (\<lambda>v. if i \<in> set order \<and> should_emit v now then v\<lparr>vw_last_emit := now\<rparr> else v) (bt_get (vr_views r) i)"

lemma due_step_cases:
  assumes "due_step now i (r, d) = (r', d')"
  shows "\<not> is_due r now i \<and> r' = r \<and> d' = d \<or>
    (\<exists>v. is_due r now i \<and> bt_get (vr_views r) i = Some v \<and> should_emit v now \<and> d' = d @ [v\<lparr>vw_last_emit := now\<rparr>] \<and>
       r' = r\<lparr>vr_views := bt_insert i (v\<lparr>vw_last_emit := now\<rparr>) (vr_views r)\<rparr>)"
  using assms by (auto simp: due_step_def is_due_def Let_def split: option.splits if_splits)

lemma due_step_other:
  "due_step now i (r, d) = (r', d') \<Longrightarrow> j \<noteq> i \<Longrightarrow> bt_get (vr_views r') j = bt_get (vr_views r) j"
  by (drule due_step_cases) auto

lemma due_step_after:
  assumes "due_step now i (r, d) = (r', d')" "i \<notin> set order"
  shows "views_after now order r' j = views_after now (i # order) r j"
  using due_step_cases [OF assms(1)] assms(2)
  by (cases "j = i") (auto simp: views_after_def is_due_def split: option.splits)

lemma take_due_exact:
  assumes "distinct order" "\<forall>i v. bt_get (vr_views r) i = Some v \<longrightarrow> vw_id v = i" "take_due order now r = (r', due)"
  shows "map vw_id due = filter (is_due r now) order \<and> (\<forall>i. bt_get (vr_views r') i = views_after now order r i)"
proof -
  have "distinct order \<Longrightarrow> \<forall>i v. bt_get (vr_views r) i = Some v \<longrightarrow> vw_id v = i \<Longrightarrow> fold (due_step now) order (r, d) = (r', due) \<Longrightarrow>
      map vw_id due = map vw_id d @ filter (is_due r now) order \<and> (\<forall>i. bt_get (vr_views r') i = views_after now order r i)" for r d
  proof (induction order arbitrary: r d)
    case Nil
    then show ?case by (simp add: views_after_def option.map_id0 [unfolded id_def])
  next
    case (Cons i order)
    obtain r1 d1 where s: "due_step now i (r, d) = (r1, d1)" by fastforce
    note cases = due_step_cases [OF s]
    have i: "i \<notin> set order" "distinct order" using Cons.prems(1) by auto
    have ids: "\<forall>j v. bt_get (vr_views r1) j = Some v \<longrightarrow> vw_id v = j" using cases Cons.prems(2) by (auto split: if_splits)
    have "filter (is_due r1 now) order = filter (is_due r now) order"
      using i due_step_other [OF s] by (intro filter_cong refl) (metis is_due_def)
    moreover have "map vw_id d1 = map vw_id d @ (if is_due r now i then [i] else [])"
      using cases Cons.prems(2) by auto
    moreover have "fold (due_step now) order (r1, d1) = (r', due)" using Cons.prems(3) s by simp
    ultimately show ?case using Cons.IH [OF i(2) ids] due_step_after [OF s i(1)] by auto
  qed
  from this [of r "[]"] show ?thesis using assms by (simp add: take_due_def)
qed

section \<open>Runs\<close>

text \<open>The life of a registry: views are added and removed, and at each tick the due ones are taken.  The
  log holds what was emitted and when.\<close>

datatype view_op =
    AddView string u32 u32 u64 ViewFilter
  | RemoveView u64
  | TakeDue "u64 list" u64

type_synonym emission = "u64 \<times> View"

fun view_step :: "view_op \<Rightarrow> ViewRegistry \<times> emission list \<Rightarrow> ViewRegistry \<times> emission list" where
  "view_step (AddView p w e now f) (r, log) = (fst (add_view p w e now f r), log)"
| "view_step (RemoveView i) (r, log) = (fst (remove_view i r), log)"
| "view_step (TakeDue order now) (r, log) =
     (let (r', due) = take_due order now r in (r', log @ map (Pair now) due))"

definition view_run :: "view_op list \<Rightarrow> ViewRegistry \<times> emission list" where
  "view_run ops = fold view_step ops (view_registry_new, [])"

text \<open>Two emissions of one view are at least its period apart.\<close>

definition spaced :: "emission \<Rightarrow> emission \<Rightarrow> bool" where
  "spaced a b \<longleftrightarrow> vw_id (snd a) = vw_id (snd b) \<longrightarrow> 0 < vw_every_ms (snd b) \<longrightarrow>
     unat (fst a) + unat (vw_every_ms (snd b)) \<le> unat (fst b)"

definition emitted_before :: "ViewRegistry \<Rightarrow> emission \<Rightarrow> bool" where
  "emitted_before r a \<longleftrightarrow> vw_id (snd a) < vr_next_id r \<and>
     (\<forall>v. bt_get (vr_views r) (vw_id (snd a)) = Some v \<longrightarrow> 0 < vw_every_ms v \<longrightarrow> fst a \<le> vw_last_emit v)"

definition views_inv :: "ViewRegistry \<times> emission list \<Rightarrow> bool" where
  "views_inv s \<longleftrightarrow> (let (r, log) = s in
     bt_wf (vr_views r) \<and>
     (\<forall>i v. bt_get (vr_views r) i = Some v \<longrightarrow> vw_id v = i \<and> i < vr_next_id r) \<and>
     list_all (emitted_before r) log \<and> sorted_wrt spaced log)"

lemma due_step_inv:
  assumes "views_inv (r, log @ map (Pair now) due)" "due_step now i (r, due) = (r', due')"
  shows "views_inv (r', log @ map (Pair now) due') \<and> vr_next_id r' = vr_next_id r"
proof (cases "\<exists>v. bt_get (vr_views r) i = Some v \<and> should_emit v now")
  case False
  then show ?thesis using assms by (auto simp: due_step_def Let_def split: option.splits if_splits)
next
  case True
  then obtain v where v: "bt_get (vr_views r) i = Some v" "should_emit v now" by blast
  define v' where "v' = v\<lparr>vw_last_emit := now\<rparr>"
  have r': "r' = r\<lparr>vr_views := bt_insert i v' (vr_views r)\<rparr>" "due' = due @ [v']"
    using assms(2) v by (auto simp: due_step_def Let_def v'_def)
  have inv: "bt_wf (vr_views r)" "\<And>i v. bt_get (vr_views r) i = Some v \<Longrightarrow> vw_id v = i \<and> i < vr_next_id r"
    "list_all (emitted_before r) (log @ map (Pair now) due)" "sorted_wrt spaced (log @ map (Pair now) due)"
    using assms(1) by (auto simp: views_inv_def)
  have i: "vw_id v = i" "i < vr_next_id r" using inv(2) v(1) by blast+
  have gap: "spaced a (now, v')" if "emitted_before r a" for a
    using that v i by (auto simp: spaced_def emitted_before_def v'_def should_emit_iff word_le_nat_alt word_less_nat_alt)
  have "emitted_before r' a" if "emitted_before r a" for a
    using that v i by (auto simp: emitted_before_def r' v'_def should_emit_iff word_le_nat_alt word_less_nat_alt)
  moreover have "emitted_before r' (now, v')" using i by (auto simp: emitted_before_def r' v'_def)
  ultimately show ?thesis using inv gap i by (auto simp: views_inv_def r' list_all_iff sorted_wrt_append v'_def)
qed

lemma take_due_inv:
  assumes "views_inv (r, log)" "take_due order now r = (r', due)"
  shows "views_inv (r', log @ map (Pair now) due) \<and> vr_next_id r' = vr_next_id r"
proof -
  have loop: "views_inv (r, log @ map (Pair now) d) \<Longrightarrow> fold (due_step now) order (r, d) = (r', due) \<Longrightarrow>
    views_inv (r', log @ map (Pair now) due) \<and> vr_next_id r' = vr_next_id r" for r d
  proof (induction order arbitrary: r d)
    case (Cons i order)
    obtain r1 d1 where s: "due_step now i (r, d) = (r1, d1)" by fastforce
    then show ?case using due_step_inv [OF Cons.prems(1) s] Cons.IH [of r1 d1] Cons.prems(2) by simp
  qed simp
  show ?thesis using loop [of r "[]"] assms by (simp add: take_due_def)
qed

lemma add_view_inv:
  assumes "views_inv (r, log)" "vr_next_id r \<noteq> - 1"
  shows "views_inv (fst (add_view p w e now f r), log)"
proof -
  have less: "vr_next_id r < vr_next_id r + 1" using assms(2) by (rule word_less_suc)
  then show ?thesis using assms(1)
    by (auto simp: views_inv_def add_view_def Let_def list_all_iff emitted_before_def intro: less_trans)
qed

lemma view_step_inv:
  assumes "views_inv (r, log)" "vr_next_id r \<noteq> - 1" "view_step op (r, log) = (r', log')"
  shows "views_inv (r', log') \<and> unat (vr_next_id r') \<le> unat (vr_next_id r) + 1"
proof (cases op)
  case (AddView p w e now f)
  then show ?thesis
    using assms add_view_inv unat_suc [OF assms(2)] by (auto simp: add_view_def Let_def)
next
  case (RemoveView i)
  then show ?thesis using assms
    by (auto simp: remove_view_def views_inv_def list_all_iff emitted_before_def split: if_splits)
next
  case (TakeDue order now)
  then show ?thesis using assms(1,3) take_due_inv by (fastforce split: prod.splits)
qed

lemma view_run_inv:
  assumes "length ops < 2 ^ 64 - 1"
  shows "views_inv (view_run ops) \<and> unat (vr_next_id (fst (view_run ops))) \<le> 1 + length ops"
  using assms
proof (induction ops rule: rev_induct)
  case Nil
  then show ?case by (simp add: view_run_def view_registry_new_def views_inv_def)
next
  case (snoc op ops)
  obtain r log where s: "view_run ops = (r, log)" by fastforce
  obtain r' log' where s': "view_step op (r, log) = (r', log')" by fastforce
  have inv: "views_inv (r, log)" "unat (vr_next_id r) \<le> 1 + length ops" using snoc s by auto
  then have "vr_next_id r \<noteq> - 1" using snoc.prems by (simp add: word_suc_fits)
  from view_step_inv [OF inv(1) this s'] show ?case using inv s s' by (simp add: view_run_def)
qed

end
