(* ===== verification/Seeds.thy ===== *)
theory Seeds
  imports Views F32_Literals
begin

text \<open>
  The seed garden, \<open>liminal-core/src/seeds.rs\<close> with the telemetry of \<open>seeds_metrics.rs\<close>: seeds are
  planted, ripen with time and are harvested or aborted.  The log lines of a tick, a print of
  \<open>gd_recent\<close>, are left out.  The JSON arguments of a seed are not read here
  and are a type parameter; the order in which a tick visits the hash map is an argument.
\<close>

section \<open>Data\<close>

datatype SeedKind = BoostToken | CooldownToken | SpawnCluster | ViewWatch | PolicyBundle | Script

fun kind_as_str :: "SeedKind \<Rightarrow> string" where
  "kind_as_str BoostToken = ''BoostToken''"
| "kind_as_str CooldownToken = ''CooldownToken''"
| "kind_as_str SpawnCluster = ''SpawnCluster''"
| "kind_as_str ViewWatch = ''ViewWatch''"
| "kind_as_str PolicyBundle = ''PolicyBundle''"
| "kind_as_str Script = ''Script''"

definition kind_from_str :: "string \<Rightarrow> string + SeedKind" where
  "kind_from_str value =
     (if value = ''BoostToken'' then Inr BoostToken
      else if value = ''CooldownToken'' then Inr CooldownToken
      else if value = ''SpawnCluster'' then Inr SpawnCluster
      else if value = ''ViewWatch'' then Inr ViewWatch
      else if value = ''PolicyBundle'' then Inr PolicyBundle
      else if value = ''Script'' then Inr Script
      else Inl (''unknown seed kind: '' @ value))"

datatype SeedStage = Planted | Sprouting | Blooming | Harvested | Aborted

fun stage_as_str :: "SeedStage \<Rightarrow> string" where
  "stage_as_str Planted = ''Planted''"
| "stage_as_str Sprouting = ''Sprouting''"
| "stage_as_str Blooming = ''Blooming''"
| "stage_as_str Harvested = ''Harvested''"
| "stage_as_str Aborted = ''Aborted''"

record 'j Seed =
  sd_id :: u64
  sd_ts_planted :: u64
  sd_kind :: SeedKind
  sd_target :: string
  sd_args :: 'j
  sd_stage :: SeedStage
  sd_ttl_ms :: u32
  sd_vitality :: f32
  sd_mutation :: f32
  sd_yield_score :: f32
  sd_last_tick_ms :: u64
  sd_ns :: string

definition seed_new :: "SeedKind \<Rightarrow> string \<Rightarrow> 'j \<Rightarrow> u32 \<Rightarrow> string \<Rightarrow> u64 \<Rightarrow> 'j Seed" where
  "seed_new kind target args ttl_ms ns now =
     \<lparr>sd_id = 0, sd_ts_planted = now, sd_kind = kind, sd_target = target, sd_args = args, sd_stage = Planted,
      sd_ttl_ms = ttl_ms, sd_vitality = f32_one, sd_mutation = f32_zero, sd_yield_score = f32_zero,
      sd_last_tick_ms = now, sd_ns = ns\<rparr>"

definition lifetime_ms :: "'j Seed \<Rightarrow> u64 \<Rightarrow> u64" where
  "lifetime_ms s now = saturating_sub now (sd_ts_planted s)"

definition ttl_remaining :: "'j Seed \<Rightarrow> u64 \<Rightarrow> u64" where
  "ttl_remaining s now =
     (let elapsed = lifetime_ms s now; ttl = ucast (sd_ttl_ms s) in if ttl \<le> elapsed then 0 else ttl - elapsed)"

record SeedLog =
  lg_id :: u64
  lg_stage :: SeedStage
  lg_vitality :: f32
  lg_yield_score :: f32

record 'j SeedGarden =
  gd_seeds :: "(u64, 'j Seed) btree_map"
  gd_next_id :: u64
  gd_recent :: "SeedLog list"

definition garden_default :: "'j SeedGarden" where
  "garden_default = \<lparr>gd_seeds = [], gd_next_id = 1, gd_recent = []\<rparr>"

section \<open>Telemetry\<close>

record SeedTelemetry =
  tm_hits :: u64
  tm_avg_latency :: f32
  tm_errors :: u32
  tm_energy_delta :: f32
  tm_salience_gain :: f32

text \<open>The source's placeholder: the same telemetry for every field and seed.\<close>

definition seed_evaluate :: "'j Seed \<Rightarrow> SeedTelemetry" where
  "seed_evaluate s = \<lparr>tm_hits = 0, tm_avg_latency = f32_zero, tm_errors = 0, tm_energy_delta = f32_zero,
     tm_salience_gain = f32_zero\<rparr>"

definition seed_score :: "SeedTelemetry \<Rightarrow> f32" where
  "seed_score t =
     (let latency_penalty = (if f32_le (tm_avg_latency t) f32_zero then f32_zero else f32_neg (tm_avg_latency t));
          hit_reward = f32_mul (f32_of_nat (unat (tm_hits t))) (f32_dec 5 1);
          error_penalty = f32_mul (f32_of_nat (unat (tm_errors t))) (f32_dec 15 1)
      in f32_sub (f32_add (f32_add (f32_add latency_penalty hit_reward) (tm_salience_gain t)) (tm_energy_delta t)) error_penalty)"

section \<open>Operations\<close>

definition plant :: "'j SeedGarden \<Rightarrow> 'j Seed \<Rightarrow> 'j SeedGarden \<times> u64" where
  "plant g s =
     (let i = (if sd_id s = 0 then gd_next_id g else sd_id s)
      in (g\<lparr>gd_next_id := max (gd_next_id g) (saturating_add i 1), gd_seeds := bt_insert i (s\<lparr>sd_id := i\<rparr>) (gd_seeds g)\<rparr>, i))"

definition seed_abort :: "'j SeedGarden \<Rightarrow> u64 \<Rightarrow> 'j SeedGarden \<times> 'j Seed option" where
  "seed_abort g i =
     (case bt_get (gd_seeds g) i of None \<Rightarrow> (g, None)
      | Some s \<Rightarrow>
          let s' = s\<lparr>sd_stage := Aborted\<rparr>
          in (g\<lparr>gd_seeds := bt_insert i s' (gd_seeds g),
                gd_recent := gd_recent g @ [\<lparr>lg_id = i, lg_stage = Aborted, lg_vitality = sd_vitality s, lg_yield_score = sd_yield_score s\<rparr>]\<rparr>,
              Some s'))"

definition seed_finished :: "'j Seed \<Rightarrow> bool" where
  "seed_finished s \<longleftrightarrow> sd_stage s \<in> {Harvested, Aborted}"

text \<open>The body of the tick's loop for a seed that is not finished.\<close>

definition seed_tick :: "u64 \<Rightarrow> 'j Seed \<Rightarrow> 'j Seed" where
  "seed_tick now s =
     (let elapsed = lifetime_ms s now;
          stage = (if sd_stage s = Planted \<and> 1000 \<le> elapsed then Sprouting else sd_stage s);
          stage = (if stage = Sprouting \<and> 10000 \<le> elapsed then Blooming else stage);
          telemetry = seed_evaluate s;
          new_score = seed_score telemetry;
          yield_score = f32_add (f32_mul (f32_dec 6 1) (sd_yield_score s)) (f32_mul (f32_dec 4 1) new_score);
          vitality_delta = f32_sub (tm_salience_gain telemetry) (f32_mul (f32_of_nat (unat (tm_errors telemetry))) (f32_dec 5 2));
          vitality = f32_clamp f32_zero f32_one (f32_add (sd_vitality s) vitality_delta);
          stage = (if ucast (sd_ttl_ms s) \<le> elapsed then (if f32_ge yield_score f32_zero then Harvested else Aborted) else stage)
      in s\<lparr>sd_stage := stage, sd_yield_score := yield_score, sd_vitality := vitality, sd_last_tick_ms := now\<rparr>)"

definition garden_step :: "u64 \<Rightarrow> u64 \<Rightarrow> 'j SeedGarden \<Rightarrow> 'j SeedGarden" where
  "garden_step now i g =
     (case bt_get (gd_seeds g) i of None \<Rightarrow> g
      | Some s \<Rightarrow>
          if seed_finished s then g
          else
            let s' = seed_tick now s
            in g\<lparr>gd_seeds := bt_insert i s' (gd_seeds g),
                 gd_recent := gd_recent g @ [\<lparr>lg_id = i, lg_stage = sd_stage s', lg_vitality = sd_vitality s', lg_yield_score = sd_yield_score s'\<rparr>]\<rparr>)"

definition tick_garden :: "u64 list \<Rightarrow> u64 \<Rightarrow> 'j SeedGarden \<Rightarrow> 'j SeedGarden" where
  "tick_garden order now g = fold (garden_step now) order (g\<lparr>gd_recent := []\<rparr>)"

section \<open>Life of a seed\<close>

fun stage_rank :: "SeedStage \<Rightarrow> nat" where
  "stage_rank Planted = 0"
| "stage_rank Sprouting = 1"
| "stage_rank Blooming = 2"
| "stage_rank Harvested = 3"
| "stage_rank Aborted = 3"

lemma kind_roundtrip: "kind_from_str (kind_as_str k) = Inr k"
  by (cases k) (simp_all add: kind_from_str_def)

text \<open>The placeholder telemetry scores nothing, so yield and vitality stay where they started.\<close>

lemma seed_score_zero: "seed_score (seed_evaluate s) = f32_zero"
proof -
  have "f32_le f32_zero f32_zero" by (simp add: f32_order_simps)
  then show ?thesis by (simp add: seed_score_def seed_evaluate_def f32_zero_ops f32_dec_zero [unfolded One_nat_def] Let_def)
qed

definition seed_fresh :: "'j Seed \<Rightarrow> bool" where
  "seed_fresh s \<longleftrightarrow> sd_yield_score s = f32_zero \<and> sd_vitality s = f32_one"

lemma seed_tick_fresh:
  assumes "seed_fresh s"
  shows "seed_fresh (seed_tick now s) \<and>
    (unat (sd_ttl_ms s) \<le> unat now - unat (sd_ts_planted s) \<longrightarrow> sd_stage (seed_tick now s) = Harvested)"
proof -
  have y: "f32_add (f32_mul (f32_dec 6 1) (sd_yield_score s)) (f32_mul (f32_dec 4 1) (seed_score (seed_evaluate s))) = f32_zero"
    using assms by (simp add: seed_fresh_def seed_score_zero f32_zero_ops f32_dec_zero [unfolded One_nat_def])
  have "f32_sub (tm_salience_gain (seed_evaluate s)) (f32_mul (f32_of_nat (unat (tm_errors (seed_evaluate s)))) (f32_dec 5 2)) = f32_zero"
    by (simp add: seed_evaluate_def f32_zero_ops f32_dec_zero)
  moreover have "f32_ge f32_zero f32_zero" by (simp add: f32_ge_def f32_partial_cmp_def f32_zero_def cmp_def)
  ultimately show ?thesis using assms y
    by (simp add: seed_fresh_def seed_tick_def Let_def f32_one_zero lifetime_ms_def word_le_nat_alt unat_saturating_sub)
qed

lemma seed_tick_rank: "\<not> seed_finished s \<Longrightarrow> stage_rank (sd_stage s) \<le> stage_rank (sd_stage (seed_tick now s))"
  by (cases "sd_stage s") (auto simp: seed_tick_def Let_def seed_finished_def)

lemma seed_tick_identity:
  "sd_id (seed_tick now s) = sd_id s" "sd_ts_planted (seed_tick now s) = sd_ts_planted s"
  "sd_ttl_ms (seed_tick now s) = sd_ttl_ms s" "sd_target (seed_tick now s) = sd_target s"
  by (simp_all add: seed_tick_def Let_def)

section \<open>Reachable gardens\<close>

inductive garden_reachable :: "'j SeedGarden \<Rightarrow> bool" where
  start: "garden_reachable garden_default"
| planted: "garden_reachable g \<Longrightarrow> garden_reachable (fst (plant g (seed_new kind target args ttl ns now)))"
| aborted: "garden_reachable g \<Longrightarrow> garden_reachable (fst (seed_abort g i))"
| ticked: "garden_reachable g \<Longrightarrow> garden_reachable (tick_garden order now g)"

definition garden_inv :: "'j SeedGarden \<Rightarrow> bool" where
  "garden_inv g \<longleftrightarrow> (\<forall>i s. bt_get (gd_seeds g) i = Some s \<longrightarrow> sd_id s = i \<and> seed_fresh s)"

lemma garden_step_get:
  "bt_get (gd_seeds (garden_step now i g)) j =
     map_option (\<lambda>s. if j = i \<and> \<not> seed_finished s then seed_tick now s else s) (bt_get (gd_seeds g) j)"
  by (cases "bt_get (gd_seeds g) i"; cases "bt_get (gd_seeds g) j") (auto simp: garden_step_def Let_def)

lemma garden_step_inv: "garden_inv g \<Longrightarrow> garden_inv (garden_step now i g)"
  unfolding garden_inv_def garden_step_get using seed_tick_fresh seed_tick_identity(1) by fastforce

lemma tick_garden_inv: "garden_inv g \<Longrightarrow> garden_inv (tick_garden order now g)"
proof -
  have "garden_inv g \<Longrightarrow> garden_inv (fold (garden_step now) order g)" for g :: "'j SeedGarden"
    by (induction order arbitrary: g) (simp_all add: garden_step_inv)
  moreover assume "garden_inv g"
  then have "garden_inv (g\<lparr>gd_recent := []\<rparr>)" by (simp add: garden_inv_def)
  ultimately show ?thesis by (simp add: tick_garden_def)
qed

lemma garden_reachable_inv: "garden_reachable g \<Longrightarrow> garden_inv g"
proof (induction rule: garden_reachable.induct)
  case start
  show ?case by (simp add: garden_inv_def garden_default_def)
next
  case (planted g kind target args ttl ns now)
  then show ?case by (auto simp: garden_inv_def plant_def seed_new_def seed_fresh_def Let_def)
next
  case (aborted g i)
  then show ?case by (auto simp: garden_inv_def seed_abort_def seed_fresh_def Let_def split: option.split)
next
  case (ticked g order now)
  then show ?case by (simp add: tick_garden_inv)
qed

text \<open>A tick changes each seed it visits once.\<close>

lemma tick_garden_get:
  assumes "distinct order"
  shows "bt_get (gd_seeds (tick_garden order now g)) i =
    map_option (\<lambda>s. if i \<in> set order \<and> \<not> seed_finished s then seed_tick now s else s) (bt_get (gd_seeds g) i)"
proof -
  have loop: "distinct order \<Longrightarrow> bt_get (gd_seeds (fold (garden_step now) order g)) i =
    map_option (\<lambda>s. if i \<in> set order \<and> \<not> seed_finished s then seed_tick now s else s) (bt_get (gd_seeds g) i)" for g :: "'j SeedGarden"
  proof (induction order arbitrary: g)
    case Nil
    then show ?case by (simp add: option.map_id0 [unfolded id_def])
  next
    case (Cons j order)
    then show ?case by (auto simp: garden_step_get option.map_comp comp_def intro!: option.map_cong0)
  qed
  show ?thesis using loop [OF assms, of "g\<lparr>gd_recent := []\<rparr>"] by (simp add: tick_garden_def)
qed

end
