(* ===== verification/Unicode_Text.thy ===== *)
theory Unicode_Text
  imports F32_Arith
begin

text \<open>
  Text operations of Rust's standard library that the core crate uses, on UTF-8 bytes: splitting at
  white space and at separators, trimming, joining, case mapping and reading integers.  The Unicode
  case table for characters outside ASCII is an argument.
\<close>

section \<open>Characters\<close>

text \<open>The length of a UTF-8 character by its first byte, and the characters of a text.\<close>

definition utf8_len :: "char \<Rightarrow> nat" where
  "utf8_len c = (let n = of_char c :: nat in if n < 128 then 1 else if n < 224 then 2 else if n < 240 then 3 else 4)"

fun utf8_chars :: "string \<Rightarrow> string list" where
  "utf8_chars [] = []"
| "utf8_chars (c # cs) = (c # take (utf8_len c - 1) cs) # utf8_chars (drop (utf8_len c - 1) cs)"

text \<open>\<open>str::split_whitespace\<close>.\<close>

function words_from :: "string \<Rightarrow> string \<Rightarrow> string list" where
  "words_from acc s =
     (case s of [] \<Rightarrow> if acc = [] then [] else [acc]
      | c # cs \<Rightarrow>
          (case find_front white_space s of
             Some q \<Rightarrow> (if acc = [] then [] else [acc]) @ words_from [] (drop (length q) s)
           | None \<Rightarrow> words_from (acc @ [c]) cs))"
  by pat_completeness auto
termination
proof (relation "measure (\<lambda>(acc, s). length s)")
  fix acc s :: string and c cs q
  assume "s = c # cs" "find_front white_space s = Some q"
  then have "q \<noteq> []" "length q \<le> length s" by (auto dest: find_front_SomeD)
  then show "(([], drop (length q) s), acc, s) \<in> measure (\<lambda>(acc, s). length s)" by (cases q) auto
qed simp_all

declare words_from.simps [simp del]

definition split_whitespace :: "string \<Rightarrow> string list" where
  "split_whitespace s = words_from [] s"

definition strip_prefix :: "string \<Rightarrow> string \<Rightarrow> string option" where
  "strip_prefix p s = (if starts_with s p then Some (drop (length p) s) else None)"

definition trim_matches :: "(char \<Rightarrow> bool) \<Rightarrow> string \<Rightarrow> string" where
  "trim_matches p s = rev (dropWhile p (rev (dropWhile p s)))"

definition push_char :: "char \<Rightarrow> string list \<Rightarrow> string list" where
  "push_char c ws = (case ws of [] \<Rightarrow> [[c]] | w # ws' \<Rightarrow> (c # w) # ws')"

fun split_on :: "char \<Rightarrow> string \<Rightarrow> string list" where
  "split_on sep [] = [[]]"
| "split_on sep (c # cs) = (if c = sep then [] # split_on sep cs else push_char c (split_on sep cs))"

text \<open>Splitting at any of several characters.\<close>

fun split_any :: "char list \<Rightarrow> string \<Rightarrow> string list" where
  "split_any seps [] = [[]]"
| "split_any seps (c # cs) = (if c \<in> set seps then [] # split_any seps cs else push_char c (split_any seps cs))"

text \<open>\<open>split("->")\<close>.\<close>

fun split_arrow :: "string \<Rightarrow> string list" where
  "split_arrow [] = [[]]"
| "split_arrow [c] = [[c]]"
| "split_arrow (c # d # cs) =
     (if c = CHR ''-'' \<and> d = CHR ''>'' then [] # split_arrow cs else push_char c (split_arrow (d # cs)))"

fun join_spaces :: "string list \<Rightarrow> string" where
  "join_spaces [] = []"
| "join_spaces [w] = w"
| "join_spaces (w # ws) = w @ '' '' @ join_spaces ws"

definition parse_u32 :: "string \<Rightarrow> u32 option" where
  "parse_u32 s = (case parse_u64 s of None \<Rightarrow> None | Some n \<Rightarrow> if n < 2 ^ 32 then Some (word_of_nat n) else None)"

definition parse_id :: "string \<Rightarrow> u64 option" where
  "parse_id s = map_option word_of_nat (parse_u64 s)"

definition map_char :: "(char \<Rightarrow> char) \<Rightarrow> (string \<Rightarrow> string) \<Rightarrow> string \<Rightarrow> string" where
  "map_char ascii other ch = (case ch of [c] \<Rightarrow> if (of_char c :: nat) < 128 then [ascii c] else other ch | _ \<Rightarrow> other ch)"

definition uppercase :: "(string \<Rightarrow> string) \<Rightarrow> string \<Rightarrow> string" where
  "uppercase table s = concat (map (map_char ascii_upper table) (utf8_chars s))"

definition lowercase :: "(string \<Rightarrow> string) \<Rightarrow> string \<Rightarrow> string" where
  "lowercase table s = concat (map (map_char ascii_lower table) (utf8_chars s))"

text \<open>The tokens of a pattern, as the field and its cells split it.\<close>

definition tokenize :: "(string \<Rightarrow> string) \<Rightarrow> string \<Rightarrow> string list" where
  "tokenize table input = map (lowercase table) (filter (\<lambda>t. t \<noteq> []) (split_any ''/:.'' input))"

end
