(* ===== verification/Node_Cell.thy ===== *)
theory Node_Cell
  imports Unicode_Text F32_Literals
begin

text \<open>
  Cells of the field, \<open>liminal-core/src/node_cell.rs\<close>, with the types of \<open>types.rs\<close> and the seed
  parameters of \<open>seed.rs\<close>.  Random numbers are arguments: the generator of \<open>create_seed\<close> is a function of
  its seed bytes, the variation of a division is a number.
\<close>

section \<open>Types\<close>

datatype ImpulseKind = Query | Write | Affect

record Impulse =
  im_kind :: ImpulseKind
  im_pattern :: string
  im_strength :: f32
  im_ttl_ms :: u64
  im_tags :: "string list"

datatype NodeState = Active | Idle | Sleep | Dead

record Metrics =
  mt_cells :: nat
  mt_sleeping_pct :: f32
  mt_avg_metabolism :: f32
  mt_avg_latency_ms :: f32
  mt_active_pct :: f32
  mt_live_load :: f32

definition suggest_target :: "Metrics \<Rightarrow> f32" where
  "suggest_target m =
     (let target = mt_live_load m;
          target = (if f32_lt target (f32_dec 55 2) then f32_mul (f32_add target (f32_dec 55 2)) (f32_dec 5 1) else target);
          target = (if f32_gt target (f32_dec 7 1) then f32_mul (f32_add target (f32_dec 7 1)) (f32_dec 5 1) else target)
      in f32_clamp (f32_dec 3 1) (f32_dec 8 1) target)"

datatype Hint = SlowTick | FastTick | TrimField | WakeSeeds

section \<open>Seed parameters\<close>

record SeedParams =
  sp_affinity :: f32
  sp_base_metabolism :: f32
  sp_core_pattern :: string

definition derive_seed_bytes :: "string \<Rightarrow> bytes" where
  "derive_seed_bytes s =
     (let bs = as_bytes s in
      if bs = [] then replicate 32 0
      else map (\<lambda>i. bs ! (i mod length bs) + word_of_nat (i * 37)) [0..<32])"

text \<open>The generator gives two numbers and, when the text is blank, a third for the name.\<close>

definition create_seed :: "(bytes \<Rightarrow> f32 \<times> f32 \<times> u32) \<Rightarrow> string \<Rightarrow> SeedParams" where
  "create_seed rng seed_str =
     (let (r1, r2, r3) = rng (derive_seed_bytes seed_str);
          pattern = trim seed_str
      in \<lparr>sp_affinity = f32_clamp f32_zero f32_one r1,
          sp_base_metabolism = f32_add (f32_dec 3 1) (f32_mul r2 (f32_dec 7 1)),
          sp_core_pattern = (if pattern = [] then ''seed-'' @ dec_digits (unat r3) else pattern)\<rparr>)"

section \<open>Cells\<close>

record NodeCell =
  nc_id :: u64
  nc_seed :: SeedParams
  nc_state :: NodeState
  nc_links :: "u64 set"
  nc_metabolism :: f32
  nc_affinity :: f32
  nc_last_response_ms :: u64
  nc_energy :: f32
  nc_salience :: f32
  nc_adreno_tag :: bool
  nc_last_recall_ms :: u64

definition from_seed_params :: "u64 \<Rightarrow> SeedParams \<Rightarrow> NodeCell" where
  "from_seed_params i seed =
     \<lparr>nc_id = i, nc_seed = seed, nc_state = Active, nc_links = {}, nc_metabolism = sp_base_metabolism seed,
      nc_affinity = sp_affinity seed, nc_last_response_ms = 0, nc_energy = f32_dec 6 1, nc_salience = f32_zero,
      nc_adreno_tag = False, nc_last_recall_ms = 0\<rparr>"

definition bump_salience :: "f32 \<Rightarrow> NodeCell \<Rightarrow> NodeCell" where
  "bump_salience amount c = c\<lparr>nc_salience := f32_clamp f32_zero f32_one (f32_add (nc_salience c) amount)\<rparr>"

definition mark_adreno :: "NodeCell \<Rightarrow> NodeCell" where
  "mark_adreno c = c\<lparr>nc_adreno_tag := True\<rparr>"

text \<open>A shared token is a full match; otherwise the closeness of affinity and strength decides.\<close>

definition pattern_match :: "(string \<Rightarrow> string) \<Rightarrow> f32 \<Rightarrow> string \<Rightarrow> string \<Rightarrow> f32 \<Rightarrow> string list \<Rightarrow> f32 option" where
  "pattern_match table affinity core pattern strength tags =
     (let core_tokens = tokenize table core;
          pattern_tokens = tokenize table pattern @ map (lowercase table) tags
      in if list_ex (\<lambda>t. t \<in> set core_tokens) pattern_tokens then Some f32_one
         else let closeness = f32_sub f32_one (f32_abs (f32_sub affinity strength))
              in if f32_gt closeness (f32_dec 45 2) then Some closeness else None)"

text \<open>The part of \<open>ingest\<close> that depends on the kind of the impulse: the cell, its change of energy and
  the response.\<close>

definition ingest_kind :: "Impulse \<Rightarrow> u64 \<Rightarrow> f32 \<Rightarrow> NodeCell \<Rightarrow> NodeCell \<times> f32 \<times> string" where
  "ingest_kind imp now_ms match_score c =
     (case im_kind imp of
        Query \<Rightarrow>
          (let c = (if nc_state c = Sleep \<and> f32_gt (im_strength imp) (f32_dec 6 1) then c\<lparr>nc_state := Idle\<rparr> else c);
               c = (if f32_ge match_score (f32_dec 6 1)
                    then (let c = c\<lparr>nc_last_recall_ms := now_ms\<rparr> in if nc_adreno_tag c then bump_salience (f32_dec 5 2) c else c)
                    else c)
           in (c, f32_mul (f32_neg (f32_dec 5 2)) (im_strength imp),
               ''n'' @ dec_digits (unat (nc_id c)) @ '' echoes '' @ [CHR 0x27] @ im_pattern imp @ [CHR 0x27] @ ''?''))
      | Write \<Rightarrow>
          (c\<lparr>nc_state := Active\<rparr>, f32_mul (f32_dec 8 2) (im_strength imp),
           ''n'' @ dec_digits (unat (nc_id c)) @ '' records '' @ [CHR 0x27] @ im_pattern imp @ [CHR 0x27] @ ''.'')
      | Affect \<Rightarrow>
          (if f32_gt (im_strength imp) (f32_dec 8 1) then c\<lparr>nc_state := Active\<rparr>
           else if f32_lt (im_strength imp) (f32_dec 3 1) then c\<lparr>nc_state := Idle\<rparr> else c,
           f32_mul (f32_dec 5 2) (f32_sub (im_strength imp) (f32_dec 4 1)),
           ''n'' @ dec_digits (unat (nc_id c)) @ '' senses '' @ [CHR 0x27] @ im_pattern imp @ [CHR 0x27] @ ''.''))"

definition ingest :: "(string \<Rightarrow> string) \<Rightarrow> Impulse \<Rightarrow> u64 \<Rightarrow> NodeCell \<Rightarrow> NodeCell \<times> string option" where
  "ingest table imp now_ms c =
     (if nc_state c = Dead then (c, None)
      else case pattern_match table (nc_affinity c) (sp_core_pattern (nc_seed c)) (im_pattern imp) (im_strength imp) (im_tags imp) of
        None \<Rightarrow> (c\<lparr>nc_energy := f32_clamp f32_zero f32_one (f32_sub (nc_energy c) (f32_dec 1 2))\<rparr>, None)
      | Some match_score \<Rightarrow>
          (let c = (if im_kind imp = Affect \<and> starts_with (im_pattern imp) ''affect/'' \<and> f32_ge match_score (f32_dec 6 1)
                    then bump_salience (f32_mul (f32_dec 15 2) (im_strength imp)) c else c);
               (c, delta, response) = ingest_kind imp now_ms match_score c
           in (c\<lparr>nc_energy := f32_clamp f32_zero f32_one (f32_add (nc_energy c) delta)\<rparr>, Some response)))"

definition cell_tick :: "u64 \<Rightarrow> f32 \<Rightarrow> f32 \<Rightarrow> NodeCell \<Rightarrow> NodeCell" where
  "cell_tick dt_ms metabolism_scale sleep_shift c =
     (if nc_state c = Dead then c
      else
        let target = f32_mul (sp_base_metabolism (nc_seed c)) (f32_clamp (f32_dec 5 1) (f32_dec 15 1) metabolism_scale);
            metabolism = f32_add (nc_metabolism c) (f32_mul (f32_sub target (nc_metabolism c)) (f32_dec 5 2));
            decay = f32_mul (f32_mul metabolism (f32_of_nat (unat dt_ms))) (f32_dec 3 4);
            energy = f32_clamp f32_zero f32_one (f32_sub (nc_energy c) decay);
            shift = f32_clamp (f32_neg (f32_dec 2 1)) (f32_dec 2 1) sleep_shift;
            idle_threshold = f32_clamp (f32_dec 5 2) (f32_dec 45 2) (f32_sub (f32_dec 2 1) shift);
            state = (if f32_lt energy idle_threshold \<and> nc_state c = Active then Idle else nc_state c);
            wake_threshold = f32_clamp (f32_dec 35 2) (f32_dec 95 2) (f32_sub (f32_dec 6 1) shift);
            state = (if f32_gt energy wake_threshold \<and> state = Idle then Active else state);
            wake_sleep_threshold = f32_clamp (f32_dec 2 1) (f32_dec 85 2) (f32_sub (f32_dec 5 1) shift);
            state = (if state = Sleep \<and> f32_gt energy wake_sleep_threshold then Idle else state)
        in c\<lparr>nc_metabolism := metabolism, nc_energy := energy, nc_state := state\<rparr>)"

definition maybe_divide :: "f32 \<Rightarrow> NodeCell \<Rightarrow> NodeCell \<times> NodeCell option" where
  "maybe_divide variation c =
     (if nc_state c \<noteq> Active \<or> f32_le (nc_energy c) (f32_dec 8 1) then (c, None)
      else
        let child_affinity = f32_clamp f32_zero f32_one (f32_add (nc_affinity c) variation);
            child_metabolism = f32_div (f32_add (nc_metabolism c) (sp_base_metabolism (nc_seed c))) (f32_dec 2 0)
        in (c\<lparr>nc_energy := f32_mul (nc_energy c) (f32_dec 55 2)\<rparr>,
            Some \<lparr>nc_id = 0, nc_seed = (nc_seed c)\<lparr>sp_affinity := child_affinity\<rparr>, nc_state = Idle, nc_links = {},
                  nc_metabolism = child_metabolism, nc_affinity = child_affinity,
                  nc_last_response_ms = nc_last_response_ms c, nc_energy = f32_dec 45 2,
                  nc_salience = f32_clamp f32_zero f32_one (f32_mul (nc_salience c) (f32_dec 5 1)),
                  nc_adreno_tag = nc_adreno_tag c, nc_last_recall_ms = nc_last_recall_ms c\<rparr>))"

definition drift_affinity :: "f32 \<Rightarrow> NodeCell \<Rightarrow> NodeCell" where
  "drift_affinity drive c =
     (let target = sp_affinity (nc_seed c);
          t = f32_clamp f32_zero (f32_dec 25 2) (f32_mul drive (f32_dec 5 2))
      in c\<lparr>nc_affinity := f32_add (nc_affinity c) (f32_mul (f32_sub target (nc_affinity c)) t)\<rparr>)"

definition maybe_sleep_or_die :: "u64 \<Rightarrow> f32 \<Rightarrow> NodeCell \<Rightarrow> NodeCell \<times> bool" where
  "maybe_sleep_or_die now_ms sleep_shift c =
     (if nc_state c = Dead then (c, False)
      else
        let idle_for = saturating_sub now_ms (nc_last_response_ms c);
            shift = f32_clamp (f32_neg (f32_dec 2 1)) (f32_dec 2 1) sleep_shift;
            sleep_threshold = f32_clamp (f32_dec 1 2) (f32_dec 3 1) (f32_sub (f32_dec 15 2) shift);
            c = (if f32_lt (nc_energy c) sleep_threshold \<and> 3000 < idle_for then c\<lparr>nc_state := Sleep\<rparr> else c)
        in if f32_lt (nc_energy c) (f32_dec 5 2) \<and> 6000 < idle_for then (c\<lparr>nc_state := Dead\<rparr>, True) else (c, False))"

section \<open>Moving towards a target\<close>

text \<open>\<open>a + (b - a) * t\<close> with a step of at most a quarter does not leave the range of \<open>a\<close> and \<open>b\<close>: the two
  roundings before the sum at most quadruple the step, and the last one does not cross a power of two.\<close>

definition f32_upto0 :: "nat \<Rightarrow> f32 \<Rightarrow> bool" where
  "f32_upto0 n x \<longleftrightarrow> f32_upto n x \<and> 0 \<le> f32_int x"

lemma f32_upto0_iff: "f32_upto0 n x \<longleftrightarrow> (\<exists>s m. x = F32 s m \<and> m \<le> 2 ^ n \<and> (s \<longrightarrow> m = 0))"
  by (cases x) (auto simp: f32_upto0_def f32_int_def split: if_splits)

lemma f32_upto0_int: "f32_upto0 n x \<Longrightarrow> 0 \<le> f32_int x \<and> f32_int x \<le> 2 ^ n"
proof -
  assume "f32_upto0 n x"
  then obtain s m where x: "x = F32 s m" "m \<le> 2 ^ n" "s \<longrightarrow> m = 0" unfolding f32_upto0_iff by blast
  then have "int m \<le> int (2 ^ n)" by (simp only: of_nat_le_iff)
  then show ?thesis using x by (auto simp: f32_int_def)
qed

lemma f32_make_units:
  assumes "v \<le> 2 ^ n" "n < 277"
  shows "f32_make s v = F32 s (f32_round v) \<and> f32_round v \<le> 2 ^ n \<and> f32_round v \<le> 2 * v"
proof -
  have "f32_round v \<le> 2 ^ n" using f32_ratio_le_power [of v 1 n] assms(1) by (simp add: f32_ratio_one [simplified])
  moreover have "(2 :: nat) ^ n < 2 ^ 277" using assms(2) by (intro power_strict_increasing) auto
  ultimately have "f32_round v < 2 ^ 277" by linarith
  then show ?thesis
    using \<open>f32_round v \<le> 2 ^ n\<close> f32_ratio_twice [of 1 v] unfolding f32_make_def f32_ratio_one Let_def by (simp only: if_True mult_1 simp_thms)
qed

lemma f32_add_bound:
  assumes "x = F32 s a" "y = F32 t b" "\<bar>f32_int x + f32_int y\<bar> \<le> 2 ^ n" "n < 277"
  shows "\<exists>u m. f32_add x y = F32 u m \<and> m \<le> 2 ^ n \<and> int m \<le> 2 * \<bar>f32_int x + f32_int y\<bar> \<and>
    (0 \<le> f32_int x + f32_int y \<longrightarrow> 0 \<le> f32_int (F32 u m)) \<and> (f32_int x + f32_int y \<le> 0 \<longrightarrow> f32_int (F32 u m) \<le> 0)"
proof -
  define v where "v = f32_int x + f32_int y"
  have "int (nat \<bar>v\<bar>) \<le> int (2 ^ n)" using assms(3) by (simp add: v_def)
  then have "nat \<bar>v\<bar> \<le> 2 ^ n" by (simp only: of_nat_le_iff)
  note r = f32_make_units [OF this assms(4), of "v < 0"]
  have add: "f32_add x y = (if v = 0 then F32 (s \<and> t) 0 else F32 (v < 0) (f32_round (nat \<bar>v\<bar>)))"
    using r by (simp add: assms(1,2) v_def Let_def)
  show ?thesis
  proof (cases "v = 0")
    case True
    then show ?thesis using add by (intro exI [of _ "s \<and> t"] exI [of _ 0]) (simp add: f32_int_def v_def)
  next
    case False
    have "int (f32_round (nat \<bar>v\<bar>)) \<le> int (2 * nat \<bar>v\<bar>)" using r by (simp only: of_nat_le_iff)
    then show ?thesis using add r False
      by (intro exI [of _ "v < 0"] exI [of _ "f32_round (nat \<bar>v\<bar>)"]) (auto simp: f32_int_def v_def)
  qed
qed

lemma f32_ratio_zero: "f32_ratio 0 b = 0"
  by (simp add: f32_ratio_def f32_shift.simps [of 0])

lemma f32_step_bound:
  assumes "x = F32 s m" "f32_upto0 147 t" "m \<le> 2 ^ n" "n < 276"
  shows "\<exists>u p. f32_mul x t = F32 u p \<and> 2 * p \<le> m \<and> (u = s \<or> p = 0)"
proof -
  obtain st q where t: "t = F32 st q" "q \<le> 2 ^ 147" "st \<longrightarrow> q = 0"
    using assms(2) unfolding f32_upto0_iff by blast
  define p where "p = f32_ratio (m * q) (2 ^ 149)"
  have "2 ^ 149 * p \<le> 2 * (m * q)" unfolding p_def by (rule f32_ratio_twice)
  also have "\<dots> \<le> 2 * (m * 2 ^ 147)" using t(2) by simp
  finally have p: "2 * p \<le> m" by simp
  moreover have "(2 :: nat) ^ n < 2 ^ 277" using assms(4) by (intro power_strict_increasing) auto
  ultimately have "p < 2 ^ 277" using assms(3) by linarith
  then have "f32_mul x t = F32 (s \<noteq> st) p" unfolding assms(1) t(1) f32_mul.simps f32_of_ratio_def p_def Let_def by (simp only: if_True)
  moreover have "(s \<noteq> st) = s \<or> p = 0"
    using t(3) by (cases st) (simp_all add: p_def f32_ratio_zero)
  ultimately show ?thesis using p by (intro exI conjI)
qed

lemma f32_lerp:
  assumes "f32_upto0 n a" "f32_upto0 n b" "f32_upto0 147 t" "n < 276"
  shows "f32_upto0 n (f32_add a (f32_mul (f32_sub b a) t))"
proof -
  obtain s m where a: "a = F32 s m" "0 \<le> f32_int a" "f32_int a \<le> 2 ^ n"
    using assms(1) f32_upto0_int f32_upto0_iff by metis
  obtain s' m' where b: "b = F32 s' m'" "0 \<le> f32_int b" "f32_int b \<le> 2 ^ n"
    using assms(2) f32_upto0_int f32_upto0_iff by metis
  have n: "n < 277" using assms(4) by simp
  have neg: "f32_neg a = F32 (\<not> s) m" "f32_int (f32_neg a) = - f32_int a" by (simp_all add: a(1) f32_int_def)
  have "\<bar>f32_int b + f32_int (f32_neg a)\<bar> \<le> 2 ^ n" using a(2,3) b(2,3) unfolding neg(2) by linarith
  from f32_add_bound [OF b(1) neg(1) this n] obtain u d where
    d: "f32_sub b a = F32 u d" "d \<le> 2 ^ n" "int d \<le> 2 * \<bar>f32_int b - f32_int a\<bar>"
      "f32_int a \<le> f32_int b \<longrightarrow> 0 \<le> f32_int (F32 u d)" "f32_int b \<le> f32_int a \<longrightarrow> f32_int (F32 u d) \<le> 0"
    unfolding f32_sub_def neg(2) by auto
  obtain w p where p: "f32_mul (f32_sub b a) t = F32 w p" "2 * p \<le> d" "w = u \<or> p = 0"
    using f32_step_bound [OF d(1) assms(3) d(2) assms(4)] by blast
  have sum: "0 \<le> f32_int a + f32_int (F32 w p) \<and> f32_int a + f32_int (F32 w p) \<le> 2 ^ n"
    using p(2,3) d(3-5) a(2,3) b(2,3) by (cases "f32_int b \<le> f32_int a") (auto simp: f32_int_def split: if_splits)
  then have "\<bar>f32_int a + f32_int (F32 w p)\<bar> \<le> 2 ^ n" by linarith
  from f32_add_bound [OF a(1) refl this n] sum obtain z r where
    "f32_add a (F32 w p) = F32 z r" "r \<le> 2 ^ n" "0 \<le> f32_int (F32 z r)" by blast
  then show ?thesis by (simp add: f32_upto0_def p(1))
qed

section \<open>The invariant of a cell\<close>

text \<open>Energy, salience and affinities are within the unit interval, the metabolism within four.\<close>

definition cell_ok :: "NodeCell \<Rightarrow> bool" where
  "cell_ok c \<longleftrightarrow> f32_upto0 149 (nc_energy c) \<and> f32_upto0 149 (nc_salience c) \<and> f32_upto0 149 (nc_affinity c) \<and>
     f32_upto0 151 (nc_metabolism c) \<and> f32_upto0 149 (sp_affinity (nc_seed c)) \<and> f32_upto0 149 (sp_base_metabolism (nc_seed c))"

lemma f32_upto0_mono: "f32_upto0 m x \<Longrightarrow> m \<le> n \<Longrightarrow> f32_upto0 n x"
  by (auto simp: f32_upto0_def intro: f32_upto_mono)

lemma f32_upto0_upto: "f32_upto0 n x \<Longrightarrow> f32_upto n x"
  by (simp add: f32_upto0_def)

lemma f32_upto0_literals:
  "f32_upto0 149 f32_zero" "f32_upto0 149 f32_one" "f32_upto0 149 (f32_dec 6 1)" "f32_upto0 149 (f32_dec 45 2)"
  "f32_upto0 147 (f32_dec 25 2)" "f32_upto0 147 (f32_dec 5 2)" "f32_upto0 149 (f32_dec 55 2)" "f32_upto0 149 (f32_dec 5 1)"
  "f32_upto0 150 (f32_dec 15 1)" "f32_upto0 149 (f32_dec 3 4)" "f32_upto0 149 (f32_dec 1 2)"
  by (simp_all add: f32_upto0_def f32_order_simps)

lemma within_upto0:
  assumes "f32_within lo hi x" "f32_upto0 n hi" "0 \<le> f32_int lo" "f32_upto n lo"
  shows "f32_upto0 n x"
proof -
  have "f32_upto n x" using f32_within_upto [OF assms(1,4)] assms(2) by (simp add: f32_upto0_def)
  moreover obtain s m t k where "lo = F32 s m" "x = F32 t k" using assms(4) calculation by (cases lo; cases x) auto
  ultimately show ?thesis using assms(1,3) by (auto simp: f32_upto0_def f32_within_def f32_le_iff)
qed

lemma clamp_unit: "x \<noteq> F32NaN \<Longrightarrow> f32_upto0 149 (f32_clamp f32_zero f32_one x)"
  using f32_clamp_within [OF clamp_bounds(3)] by (rule within_upto0) (simp_all add: f32_upto0_literals f32_zero_def f32_int_def)

lemma f32_mul_upto0:
  assumes "f32_upto0 a x" "f32_upto0 b y" "a + b \<le> n + 149" "n < 277"
  shows "f32_upto0 n (f32_mul x y)"
proof -
  obtain s m t k where xy: "x = F32 s m" "y = F32 t k" "s \<longrightarrow> m = 0" "t \<longrightarrow> k = 0" using assms(1,2) unfolding f32_upto0_iff by blast
  have up: "f32_upto n (f32_mul x y)" using assms by (intro f32_upto_mul [of a _ b]) (auto simp: f32_upto0_def)
  obtain u r where r: "f32_mul x y = F32 u r" "r \<le> 2 ^ n" using up by (cases "f32_mul x y") auto
  have "u \<longrightarrow> r = 0"
    using r(1) xy by (auto simp: f32_of_ratio_def Let_def f32_ratio_zero split: if_splits)
  then show ?thesis using r unfolding f32_upto0_iff by blast
qed

lemma f32_add_finite: "f32_upto n x \<Longrightarrow> y \<noteq> F32NaN \<Longrightarrow> f32_add x y \<noteq> F32NaN"
  by (cases x; cases y) (auto simp: f32_make_def Let_def)

lemma f32_sub_finite: "f32_upto n y \<Longrightarrow> x \<noteq> F32NaN \<Longrightarrow> f32_sub x y \<noteq> F32NaN"
  using f32_add_finite [of n "f32_neg y" x] by (simp add: f32_sub_def f32_add_commute)

lemma f32_sub_finite': "f32_upto n x \<Longrightarrow> y \<noteq> F32NaN \<Longrightarrow> f32_sub x y \<noteq> F32NaN"
  unfolding f32_sub_def by (rule f32_add_finite) simp_all

lemma f32_literal_mul:
  "y \<noteq> F32NaN \<Longrightarrow> f32_mul (f32_neg (f32_dec 5 2)) y \<noteq> F32NaN" "y \<noteq> F32NaN \<Longrightarrow> f32_mul (f32_dec 8 2) y \<noteq> F32NaN"
  "y \<noteq> F32NaN \<Longrightarrow> f32_mul (f32_dec 5 2) y \<noteq> F32NaN" "y \<noteq> F32NaN \<Longrightarrow> f32_mul (f32_dec 15 2) y \<noteq> F32NaN"
  by (cases y; simp add: f32_literals f32_of_ratio_def Let_def)+

lemma f32_add_upto0: "f32_upto0 n x \<Longrightarrow> y \<noteq> F32NaN \<Longrightarrow> f32_add x y \<noteq> F32NaN"
  by (rule f32_add_finite [OF f32_upto0_upto])

section \<open>Every operation keeps it\<close>

lemma bump_salience_ok: "cell_ok c \<Longrightarrow> amount \<noteq> F32NaN \<Longrightarrow> cell_ok (bump_salience amount c)"
  using f32_add_upto0 [of 149 "nc_salience c" amount] by (simp add: cell_ok_def bump_salience_def clamp_unit)

lemma literal_numbers: "f32_dec 5 2 \<noteq> F32NaN" "f32_dec 4 1 \<noteq> F32NaN"
  by (simp_all add: f32_order_simps)

lemma ingest_kind_ok:
  assumes "cell_ok c" "im_strength imp \<noteq> F32NaN" "ingest_kind imp now score c = (c', delta, response)"
  shows "cell_ok c' \<and> delta \<noteq> F32NaN"
proof -
  have "f32_sub (im_strength imp) (f32_dec 4 1) \<noteq> F32NaN"
    using assms(2) by (intro f32_sub_finite [of 149]) (simp_all add: f32_order_simps)
  moreover have "cell_ok (c\<lparr>nc_state := st\<rparr>)" "cell_ok (c\<lparr>nc_last_recall_ms := t\<rparr>)"
    "cell_ok (c\<lparr>nc_state := st, nc_last_recall_ms := t\<rparr>)" for st t
    using assms(1) by (simp_all add: cell_ok_def)
  ultimately show ?thesis using assms literal_numbers
    by (cases "im_kind imp") (auto simp: ingest_kind_def Let_def f32_literal_mul bump_salience_ok split: if_splits)
qed

lemma ingest_ok:
  assumes "cell_ok c" "im_strength imp \<noteq> F32NaN"
  shows "cell_ok (fst (ingest table imp now c))"
proof (cases "nc_state c = Dead")
  case False
  show ?thesis
  proof (cases "pattern_match table (nc_affinity c) (sp_core_pattern (nc_seed c)) (im_pattern imp) (im_strength imp) (im_tags imp)")
    case None
    have "f32_sub (nc_energy c) (f32_dec 1 2) \<noteq> F32NaN"
      using assms(1) f32_upto0_literals(11) by (intro f32_sub_finite [of 149]) (auto simp: cell_ok_def f32_upto0_def intro: f32_upto_number)
    then show ?thesis using assms(1) False None by (simp add: ingest_def cell_ok_def clamp_unit)
  next
    case (Some score)
    define c1 where "c1 = (if im_kind imp = Affect \<and> starts_with (im_pattern imp) ''affect/'' \<and> f32_ge score (f32_dec 6 1)
      then bump_salience (f32_mul (f32_dec 15 2) (im_strength imp)) c else c)"
    have c1: "cell_ok c1" using assms by (simp add: c1_def bump_salience_ok f32_literal_mul)
    obtain c2 delta response where k: "ingest_kind imp now score c1 = (c2, delta, response)" using prod_cases3 by blast
    have "cell_ok c2" "delta \<noteq> F32NaN" using ingest_kind_ok [OF c1 assms(2) k] by auto
    moreover have "f32_add (nc_energy c2) delta \<noteq> F32NaN"
      using calculation by (intro f32_add_upto0 [of 149]) (simp_all add: cell_ok_def)
    moreover have "ingest table imp now c = (let (c, delta, response) = ingest_kind imp now score c1
        in (c\<lparr>nc_energy := f32_clamp f32_zero f32_one (f32_add (nc_energy c) delta)\<rparr>, Some response))"
      unfolding ingest_def c1_def Let_def Some option.case using False by (simp only: if_False)
    ultimately show ?thesis using k by (simp add: cell_ok_def clamp_unit)
  qed
qed (use assms(1) in \<open>simp add: ingest_def\<close>)

lemma cell_tick_ok:
  assumes "cell_ok c" "scale \<noteq> F32NaN"
  shows "cell_ok (cell_tick dt scale shift c)"
proof (cases "nc_state c = Dead")
  case False
  define target where "target = f32_mul (sp_base_metabolism (nc_seed c)) (f32_clamp (f32_dec 5 1) (f32_dec 15 1) scale)"
  define metabolism where "metabolism = f32_add (nc_metabolism c) (f32_mul (f32_sub target (nc_metabolism c)) (f32_dec 5 2))"
  define decay where "decay = f32_mul (f32_mul metabolism (f32_of_nat (unat dt))) (f32_dec 3 4)"
  have "f32_within (f32_dec 5 1) (f32_dec 15 1) (f32_clamp (f32_dec 5 1) (f32_dec 15 1) scale)"
    using assms(2) by (rule f32_clamp_within [OF clamp_bounds(9)])
  then have "f32_upto0 150 (f32_clamp (f32_dec 5 1) (f32_dec 15 1) scale)"
    by (rule within_upto0 [OF _ f32_upto0_literals(9)]) (simp_all add: f32_order_simps)
  then have "f32_upto0 150 target"
    unfolding target_def using assms(1) by (intro f32_mul_upto0 [of 149 _ 150]) (simp_all add: cell_ok_def)
  then have "f32_upto0 151 target" by (rule f32_upto0_mono) simp
  then have metabolism: "f32_upto0 151 metabolism"
    unfolding metabolism_def using assms(1) f32_upto0_literals(6) by (intro f32_lerp) (simp_all add: cell_ok_def)
  have "f32_upto 213 (f32_of_nat (unat dt))"
  proof (cases "unat dt = 0")
    case True
    then show ?thesis by (simp add: f32_zero_ops f32_zero_def)
  next
    case False
    then have "0 < unat dt" "unat dt \<le> 2 ^ 64" using unsigned_less [of dt, where 'a = nat] by simp_all
    then show ?thesis by (intro f32_between_upto [OF f32_between_of_nat])
  qed
  then have "f32_upto 215 (f32_mul metabolism (f32_of_nat (unat dt)))"
    using metabolism by (intro f32_upto_mul [of 151 _ 213]) (simp_all add: f32_upto0_def)
  then have "f32_upto 215 decay" unfolding decay_def
    using f32_upto0_upto [OF f32_upto0_literals(10)] by (rule f32_upto_mul) simp_all
  then have "decay \<noteq> F32NaN" by (rule f32_upto_number)
  then have energy: "f32_upto0 149 (f32_clamp f32_zero f32_one (f32_sub (nc_energy c) decay))"
    using assms(1) by (intro clamp_unit f32_sub_finite' [of 149]) (simp_all add: cell_ok_def f32_upto0_def)
  have "nc_metabolism (cell_tick dt scale shift c) = metabolism"
    "nc_energy (cell_tick dt scale shift c) = f32_clamp f32_zero f32_one (f32_sub (nc_energy c) decay)"
    "nc_salience (cell_tick dt scale shift c) = nc_salience c" "nc_affinity (cell_tick dt scale shift c) = nc_affinity c"
    "nc_seed (cell_tick dt scale shift c) = nc_seed c"
    using False by (simp_all add: cell_tick_def Let_def target_def metabolism_def decay_def)
  then show ?thesis using assms(1) metabolism energy by (simp add: cell_ok_def)
qed (use assms(1) in \<open>simp add: cell_tick_def\<close>)

lemma drift_affinity_ok:
  assumes "cell_ok c" "drive \<noteq> F32NaN"
  shows "cell_ok (drift_affinity drive c)"
proof -
  have "f32_mul drive (f32_dec 5 2) \<noteq> F32NaN"
    using assms(2) by (cases drive) (simp_all add: f32_literals f32_of_ratio_def Let_def)
  moreover have "f32_le f32_zero (f32_dec 25 2)" by (simp add: f32_order_simps)
  ultimately have "f32_within f32_zero (f32_dec 25 2) (f32_clamp f32_zero (f32_dec 25 2) (f32_mul drive (f32_dec 5 2)))"
    by (intro f32_clamp_within)
  then have "f32_upto0 147 (f32_clamp f32_zero (f32_dec 25 2) (f32_mul drive (f32_dec 5 2)))"
    by (rule within_upto0 [OF _ f32_upto0_literals(5)]) (simp_all add: f32_zero_def f32_int_def)
  then show ?thesis using assms(1) by (simp add: cell_ok_def drift_affinity_def Let_def f32_lerp)
qed

lemma sleep_or_die_ok: "cell_ok c \<Longrightarrow> cell_ok (fst (maybe_sleep_or_die now shift c))"
  by (simp add: cell_ok_def maybe_sleep_or_die_def Let_def)

lemma child_metabolism_ok:
  assumes "f32_upto0 151 m" "f32_upto0 149 b"
  shows "f32_upto0 151 (f32_div (f32_add m b) (f32_dec 2 0))"
proof -
  obtain s k where m: "m = F32 s k" using assms(1) unfolding f32_upto0_iff by blast
  obtain t j where b: "b = F32 t j" using assms(2) unfolding f32_upto0_iff by blast
  have sum: "0 \<le> f32_int m + f32_int b" "\<bar>f32_int m + f32_int b\<bar> \<le> 2 ^ 152"
    using f32_upto0_int [OF assms(1)] f32_upto0_int [OF assms(2)] by simp_all
  from f32_add_bound [OF m b sum(2)] sum(1) obtain u r where
    r: "f32_add m b = F32 u r" "r \<le> 2 ^ 152" "0 \<le> f32_int (F32 u r)" by auto
  have two: "f32_dec 2 0 = F32 False (2 ^ 150)" by (simp add: f32_literals)
  then have "f32_between 150 150 (f32_dec 2 0)" by (simp only: f32_between_def f32.sel) simp
  moreover have "f32_upto 152 (F32 u r)" using r(2) by simp
  ultimately have up: "f32_upto 151 (f32_div (F32 u r) (f32_dec 2 0))"
    by (intro f32_upto_div [of 152 _ 150 150]) simp_all
  moreover have "u \<longrightarrow> r = 0" using r(3) by (auto simp: f32_int_def)
  ultimately show ?thesis unfolding r(1) two
    by (cases u) (auto simp: f32_upto0_def f32_of_ratio_def f32_ratio_zero f32_int_def Let_def split: if_splits)
qed

lemma maybe_divide_ok:
  assumes "cell_ok c" "variation \<noteq> F32NaN"
  shows "cell_ok (fst (maybe_divide variation c)) \<and> pred_option cell_ok (snd (maybe_divide variation c))"
proof -
  have ok: "f32_upto0 149 (nc_energy c)" "f32_upto0 149 (nc_salience c)" "f32_upto0 149 (nc_affinity c)"
    using assms(1) by (simp_all add: cell_ok_def)
  have "f32_upto0 149 (f32_mul (nc_energy c) (f32_dec 55 2))" using ok(1) f32_upto0_literals(7) by (rule f32_mul_upto0) simp_all
  moreover have "f32_upto0 149 (f32_mul (nc_salience c) (f32_dec 5 1))" using ok(2) f32_upto0_literals(8) by (rule f32_mul_upto0) simp_all
  then have "f32_mul (nc_salience c) (f32_dec 5 1) \<noteq> F32NaN" by (intro f32_upto_number [OF f32_upto0_upto])
  moreover have "f32_add (nc_affinity c) variation \<noteq> F32NaN" using ok(3) assms(2) by (rule f32_add_upto0)
  moreover note child_metabolism_ok f32_upto0_literals(4) clamp_unit
  ultimately show ?thesis using assms(1) by (simp add: maybe_divide_def Let_def cell_ok_def)
qed

section \<open>Lives of cells\<close>

datatype cell_op =
    Ingest Impulse u64
  | CellTick u64 f32 f32
  | DivideCell f32
  | Drift f32
  | SleepOrDie u64 f32
  | MarkAdreno

fun cell_step :: "(string \<Rightarrow> string) \<Rightarrow> cell_op \<Rightarrow> NodeCell \<Rightarrow> NodeCell" where
  "cell_step table (Ingest imp now) c = fst (ingest table imp now c)"
| "cell_step table (CellTick dt scale shift) c = cell_tick dt scale shift c"
| "cell_step table (DivideCell v) c = fst (maybe_divide v c)"
| "cell_step table (Drift drive) c = drift_affinity drive c"
| "cell_step table (SleepOrDie now shift) c = fst (maybe_sleep_or_die now shift c)"
| "cell_step table MarkAdreno c = mark_adreno c"

fun cell_op_ok :: "cell_op \<Rightarrow> bool" where
  "cell_op_ok (Ingest imp now) \<longleftrightarrow> im_strength imp \<noteq> F32NaN"
| "cell_op_ok (CellTick dt scale shift) \<longleftrightarrow> scale \<noteq> F32NaN"
| "cell_op_ok (DivideCell v) \<longleftrightarrow> v \<noteq> F32NaN"
| "cell_op_ok (Drift drive) \<longleftrightarrow> drive \<noteq> F32NaN"
| "cell_op_ok _ \<longleftrightarrow> True"

lemma cell_step_ok: "cell_ok c \<Longrightarrow> cell_op_ok op \<Longrightarrow> cell_ok (cell_step table op c)"
  by (cases op) (simp_all add: ingest_ok cell_tick_ok maybe_divide_ok drift_affinity_ok sleep_or_die_ok mark_adreno_def cell_ok_def [of "_\<lparr>nc_adreno_tag := _\<rparr>"], simp add: cell_ok_def)

lemma cell_run_ok: "cell_ok c \<Longrightarrow> list_all cell_op_ok ops \<Longrightarrow> cell_ok (fold (cell_step table) ops c)"
  by (induction ops arbitrary: c) (simp_all add: cell_step_ok)

text \<open>A cell that has died answers nothing, does not move and does not divide.\<close>

lemma dead_cell:
  assumes "nc_state c = Dead"
  shows "ingest table imp now c = (c, None)" "cell_tick dt scale shift c = c" "maybe_divide v c = (c, None)"
    "maybe_sleep_or_die now shift c = (c, False)"
  using assms by (simp_all add: ingest_def cell_tick_def maybe_divide_def maybe_sleep_or_die_def)

text \<open>A cell whose energy is not a number keeps it, never sleeps or dies, and divides whenever it is
  active.\<close>

lemma f32_lt_NaN [simp]: "\<not> f32_lt F32NaN x" "\<not> f32_lt x F32NaN"
  by (simp_all add: f32_lt_iff)

lemma f32_gt_NaN [simp]: "\<not> f32_gt F32NaN x" "\<not> f32_gt x F32NaN"
  by (simp_all add: f32_gt_iff)

lemma ingest_kind_energy: "ingest_kind imp now score c = (c', delta, response) \<Longrightarrow> nc_energy c' = nc_energy c \<and> (nc_state c \<noteq> Dead \<longrightarrow> nc_state c' \<noteq> Dead)"
  by (cases "im_kind imp") (auto simp: ingest_kind_def bump_salience_def Let_def split: if_splits)

lemma ingest_nan:
  assumes "nc_energy c = F32NaN" "nc_state c \<noteq> Dead"
  shows "nc_energy (fst (ingest table imp now c)) = F32NaN \<and> nc_state (fst (ingest table imp now c)) \<noteq> Dead"
proof (cases "pattern_match table (nc_affinity c) (sp_core_pattern (nc_seed c)) (im_pattern imp) (im_strength imp) (im_tags imp)")
  case None
  then show ?thesis using assms by (simp add: ingest_def)
next
  case (Some score)
  define c1 where "c1 = (if im_kind imp = Affect \<and> starts_with (im_pattern imp) ''affect/'' \<and> f32_ge score (f32_dec 6 1)
    then bump_salience (f32_mul (f32_dec 15 2) (im_strength imp)) c else c)"
  have c1: "nc_energy c1 = F32NaN" "nc_state c1 \<noteq> Dead" using assms by (simp_all add: c1_def bump_salience_def)
  obtain c2 delta response where k: "ingest_kind imp now score c1 = (c2, delta, response)" using prod_cases3 by blast
  have "ingest table imp now c = (let (c, delta, response) = ingest_kind imp now score c1
      in (c\<lparr>nc_energy := f32_clamp f32_zero f32_one (f32_add (nc_energy c) delta)\<rparr>, Some response))"
    unfolding ingest_def c1_def Let_def Some option.case using assms(2) by (simp only: if_False)
  then show ?thesis using ingest_kind_energy [OF k] c1 k by simp
qed

lemma nan_energy_step:
  assumes "nc_energy c = F32NaN" "nc_state c \<noteq> Dead"
  shows "nc_energy (cell_step table op c) = F32NaN \<and> nc_state (cell_step table op c) \<noteq> Dead"
proof (cases op)
  case (Ingest imp now)
  then show ?thesis using ingest_nan [OF assms] by simp
qed (use assms in \<open>auto simp: cell_tick_def maybe_divide_def drift_affinity_def maybe_sleep_or_die_def mark_adreno_def Let_def\<close>)

lemma nan_energy_run:
  "nc_energy c = F32NaN \<Longrightarrow> nc_state c \<noteq> Dead \<Longrightarrow>
     nc_energy (fold (cell_step table) ops c) = F32NaN \<and> nc_state (fold (cell_step table) ops c) \<noteq> Dead"
  by (induction ops arbitrary: c) (simp_all add: nan_energy_step)

text \<open>An impulse of strength not-a-number that a living cell answers makes its energy not-a-number.\<close>

lemma f32_NaN_ops [simp]: "f32_add x F32NaN = F32NaN" "f32_mul x F32NaN = F32NaN" "f32_sub F32NaN x = F32NaN"
  by (cases x; simp add: f32_sub_def)+

lemma nan_impulse:
  assumes "im_strength imp = F32NaN" "nc_state c \<noteq> Dead" "snd (ingest table imp now c) = Some response"
  shows "nc_energy (fst (ingest table imp now c)) = F32NaN \<and> nc_state (fst (ingest table imp now c)) \<noteq> Dead"
  using assms
  by (auto simp: ingest_def ingest_kind_def bump_salience_def Let_def split: option.splits ImpulseKind.splits if_splits)

lemma nan_divides: "nc_energy c = F32NaN \<Longrightarrow> nc_state c = Active \<Longrightarrow> snd (maybe_divide v c) \<noteq> None"
  by (simp add: maybe_divide_def f32_le_iff Let_def)

end
