(* ===== verification/Core_Properties.thy ===== *)
theory Core_Properties
  imports Reflex Views Seeds Node_Cell
begin

text \<open>
  Properties of the core's control loops: the load regulator stays within its ranges along every run,
  an unbounded gain makes it stop for good, views are emitted at their period, cells stay within their
  ranges unless an impulse is not a number, and seeds ripen.
\<close>

section \<open>The load regulator\<close>

text \<open>C25: Along every run of configurations, targets and steps whose values are numbers and whose gains
  are at most \<open>2\<^sup>1\<^sup>6\<close>, starting from the default state, one further step keeps the controller's settings
  and integral within their ranges and yields outputs within theirs: the tick adjustment within 80 ms,
  the scales and the learning rate within the clamps.  In particular nothing becomes not-a-number.\<close>

theorem regulator_bounded:
  assumes "list_all trs_op_ok ops" and "load \<noteq> F32NaN"
  shows "trs_ok (fst (trs_step now load (fold trs_op_step ops trs_default)))
       \<and> output_ok (snd (trs_step now load (fold trs_op_step ops trs_default)))"
  using trs_step_ok [OF trs_run_ok [OF trs_default_ok assms(1)] assms(2)] .

definition sample_config :: TrsConfig where
  "sample_config = \<lparr>tc_alpha = F32Inf False, tc_beta = f32_one, tc_target_load = f32_dec 7 1,
     tc_k_p = f32_dec 3 0, tc_k_i = f32_one, tc_k_d = f32_dec 5 1\<rparr>"

lemma sample_config_ok: "config_ok sample_config"
  by (simp add: config_ok_def sample_config_def f32_order_simps)

theorem regulator_bounded_witness:
  "trs_op_ok (ApplyConfig sample_config) \<and> output_ok (snd (trs_step 500 f32_half
     (fold trs_op_step [ApplyConfig sample_config, Step 0 f32_zero, Step 0 (F32Inf True)] trs_default)))"
proof -
  have "list_all trs_op_ok [ApplyConfig sample_config, Step 0 f32_zero, Step 0 (F32Inf True)]" "f32_half \<noteq> F32NaN"
    using sample_config_ok by (simp_all add: f32_zero_def f32_half_def)
  from regulator_bounded [OF this, of 500] show ?thesis using sample_config_ok by simp
qed

text \<open>Values that are not finite.\<close>

definition f32_nonfinite :: "f32 \<Rightarrow> bool" where
  "f32_nonfinite x \<longleftrightarrow> x = F32NaN \<or> x = F32Inf True \<or> x = F32Inf False"

lemma nonfinite_add: "f32_nonfinite x \<Longrightarrow> f32_nonfinite (f32_add x y)"
  by (cases y) (auto simp: f32_nonfinite_def split: if_splits)

lemma nonfinite_mul: "f32_nonfinite (f32_mul (F32Inf s) y)"
  by (cases y) (auto simp: f32_nonfinite_def split: if_splits)

lemma nonfinite_softsign: "f32_nonfinite x \<Longrightarrow> softsign x = F32NaN"
  by (auto simp: f32_nonfinite_def softsign_def f32_one_def)

lemmas nonfinite_ops = nonfinite_add nonfinite_mul nonfinite_softsign

lemma trs_step_alpha:
  "trs_alpha s = F32NaN \<Longrightarrow> trs_alpha (fst (trs_step now load s)) = F32NaN"
  by (simp add: trs_step_def Let_def)

lemma infinite_gain_step:
  assumes "trs_k_p s = F32Inf False"
  shows "trs_alpha (fst (trs_step now load s)) = F32NaN"
proof -
  have "softsign (f32_add (f32_add (f32_mul (trs_k_p s) e) i) d) = F32NaN" for e i d
    unfolding assms by (intro nonfinite_ops)
  then show ?thesis by (simp add: trs_step_def Let_def)
qed

fun is_config :: "trs_op \<Rightarrow> bool" where
  "is_config (ApplyConfig _) = True"
| "is_config _ = False"

lemma alpha_stays_nan:
  "trs_alpha s = F32NaN \<Longrightarrow> list_all (\<lambda>op. \<not> is_config op) ops \<Longrightarrow> trs_alpha (fold trs_op_step ops s) = F32NaN"
proof (induction ops arbitrary: s)
  case (Cons op ops)
  then show ?case by (cases op) (simp_all add: trs_step_alpha trs_set_target_def)
qed simp

text \<open>A configuration bounds the learning rate, the leak and the target, but not the gains.  With an
  infinite proportional gain (a number in the configuration text that exceeds the largest single), the
  first step makes the learning rate not-a-number, and no later target or step restores it.\<close>

theorem infinite_gain_poisons:
  assumes "tc_k_p cfg = F32Inf False" and "list_all (\<lambda>op. \<not> is_config op) ops"
  shows "trs_alpha (fold trs_op_step ops (fst (trs_step now load (trs_apply_config cfg s)))) = F32NaN"
proof -
  have "trs_k_p (trs_apply_config cfg s) = F32Inf False"
    using assms(1) by (simp add: trs_apply_config_def f32_max_def f32_zero_def f32_gt_iff f32_int_def)
  then show ?thesis using infinite_gain_step assms(2) by (intro alpha_stays_nan)
qed

theorem infinite_gain_poisons_witness:
  "trs_alpha (fold trs_op_step [SetTarget f32_half, Step 9 f32_half]
     (fst (trs_step 1 f32_zero (trs_apply_config (sample_config\<lparr>tc_k_p := F32Inf False\<rparr>) trs_default)))) = F32NaN"
  using infinite_gain_poisons [of "sample_config\<lparr>tc_k_p := F32Inf False\<rparr>" "[SetTarget f32_half, Step 9 f32_half]"]
  by simp

section \<open>Views\<close>

text \<open>C26: Along every run of subscriptions, cancellations and ticks, at whatever times the ticks come and in
  whatever order the registry visits its views, two emissions of one view are at least its period apart.
  The bound on the run keeps the identifiers, which count up in 64 bits, distinct.\<close>

theorem views_respect_period:
  assumes "length ops < 2 ^ 64 - 1" "view_run ops = (r, log)" "i < j" "j < length log"
    and "vw_id (snd (log ! i)) = vw_id (snd (log ! j))" "0 < vw_every_ms (snd (log ! j))"
  shows "unat (fst (log ! i)) + unat (vw_every_ms (snd (log ! j))) \<le> unat (fst (log ! j))"
proof -
  have "sorted_wrt spaced log" using view_run_inv [OF assms(1)] assms(2) by (simp add: views_inv_def)
  then have "spaced (log ! i) (log ! j)" using assms(3,4) by (simp add: sorted_wrt_nth_less)
  then show ?thesis using assms(5,6) by (simp add: spaced_def)
qed

definition sample_views :: "view_op list" where
  "sample_views = [AddView ''cpu'' 1000 500 1000 view_filter_default, TakeDue [1] 1000, TakeDue [1] 1200, TakeDue [1] 1500]"

lemma sample_views_log: "map fst (snd (view_run sample_views)) = [1000, 1500] \<and>
    map (vw_id \<circ> snd) (snd (view_run sample_views)) = [1, 1] \<and> map (vw_every_ms \<circ> snd) (snd (view_run sample_views)) = [500, 500]"
  by (simp add: view_run_def sample_views_def view_registry_new_def add_view_def take_due_def due_step_def
      should_emit_def saturating_sub_def Let_def)

theorem views_respect_period_witness:
  "unat (fst (snd (view_run sample_views) ! 0)) + 500 \<le> unat (fst (snd (view_run sample_views) ! 1))"
proof -
  obtain r a b where run: "view_run sample_views = (r, [a, b])"
    using sample_views_log by (cases "view_run sample_views") (auto simp: length_Suc_conv map_eq_Cons_conv)
  then show ?thesis using views_respect_period [of sample_views r "[a, b]" 0 1] sample_views_log
    by (simp add: sample_views_def)
qed

section \<open>Cells\<close>

text \<open>C35: A cell made from seed parameters within the unit interval keeps its energy, salience and affinity
  within the unit interval and its metabolism non-negative and at most four, through every sequence of
  impulses, ticks of any length, divisions, drifts and sleep checks whose inputs are numbers; and so does
  every child it divides off.  The clamps alone do not give this: metabolism and affinity move by
  \<open>a + (b - a) * t\<close>, unclamped, in rounded arithmetic.\<close>

theorem cells_stay_in_range:
  assumes "f32_upto0 149 (sp_affinity seed)" "f32_upto0 149 (sp_base_metabolism seed)"
    and "list_all cell_op_ok ops" "v \<noteq> F32NaN"
  shows "cell_ok (fold (cell_step table) ops (from_seed_params i seed)) \<and>
    pred_option cell_ok (snd (maybe_divide v (fold (cell_step table) ops (from_seed_params i seed))))"
proof -
  have "f32_upto0 151 (sp_base_metabolism seed)" using assms(2) by (rule f32_upto0_mono) simp
  then have "cell_ok (from_seed_params i seed)"
    using assms(1,2) by (simp add: cell_ok_def from_seed_params_def f32_upto0_literals [unfolded One_nat_def])
  then have "cell_ok (fold (cell_step table) ops (from_seed_params i seed))" using assms(3) by (rule cell_run_ok)
  then show ?thesis using maybe_divide_ok assms(4) by blast
qed

definition sample_seed :: SeedParams where
  "sample_seed = \<lparr>sp_affinity = f32_dec 6 1, sp_base_metabolism = f32_dec 45 2, sp_core_pattern = ''affect/noradrenaline''\<rparr>"

definition sample_impulse :: Impulse where
  "sample_impulse = \<lparr>im_kind = Affect, im_pattern = ''affect/noradrenaline'', im_strength = f32_one, im_ttl_ms = 5000, im_tags = [''cli'']\<rparr>"

theorem cells_stay_in_range_witness:
  "f32_upto0 149 (nc_energy (fold (cell_step id) [CellTick 60000 (F32Inf False) F32NaN, Ingest sample_impulse 7, Drift f32_one]
     (from_seed_params 1 sample_seed)))"
proof -
  have "list_all cell_op_ok [CellTick 60000 (F32Inf False) F32NaN, Ingest sample_impulse 7, Drift f32_one]"
    by (simp add: sample_impulse_def f32_one_def)
  from cells_stay_in_range [of sample_seed, OF _ _ this, of f32_zero id 1] show ?thesis
    by (simp add: sample_seed_def f32_upto0_literals [unfolded One_nat_def] f32_zero_def cell_ok_def)
qed

text \<open>A strength that is not a number, which the command line's clamp lets through, makes the cells
  that answer it immortal: after any further impulses, ticks, divisions and sleep checks such a cell's energy
  is still not a number, the cell never dies, and it divides at every opportunity while it is active,
  since a division no longer costs energy.\<close>

theorem nan_impulse_immortal:
  assumes "im_strength imp = F32NaN" "nc_state c \<noteq> Dead" "snd (ingest table imp now c) = Some response"
  shows "let c' = fold (cell_step table) ops (fst (ingest table imp now c)) in
    nc_energy c' = F32NaN \<and> nc_state c' \<noteq> Dead \<and> (nc_state c' = Active \<longrightarrow> snd (maybe_divide v c') \<noteq> None)"
  using nan_energy_run [of "fst (ingest table imp now c)"] nan_impulse [OF assms] nan_divides by (simp add: Let_def)

definition nan_affect :: Impulse where
  "nan_affect = sample_impulse\<lparr>im_strength := F32NaN\<rparr>"

theorem nan_impulse_immortal_witness:
  "nc_state (fold (cell_step id) (replicate 50 (SleepOrDie 9000 f32_zero)) (fst (ingest id nan_affect 0 (from_seed_params 1 sample_seed)))) \<noteq> Dead"
proof -
  have "\<exists>response. snd (ingest id nan_affect 0 (from_seed_params 1 sample_seed)) = Some response"
    by (simp add: ingest_def from_seed_params_def pattern_match_def sample_seed_def nan_affect_def sample_impulse_def
        tokenize_def push_char_def Let_def ingest_kind_def split: prod.split)
  then obtain response where r: "snd (ingest id nan_affect 0 (from_seed_params 1 sample_seed)) = Some response" by blast
  have "im_strength nan_affect = F32NaN" "nc_state (from_seed_params 1 sample_seed) \<noteq> Dead"
    by (simp_all add: nan_affect_def from_seed_params_def)
  from nan_impulse_immortal [OF this r, of "replicate 50 (SleepOrDie 9000 f32_zero)" f32_zero] show ?thesis
    unfolding Let_def by blast
qed

section \<open>The seed garden\<close>

text \<open>C36: In every garden that planting, aborting and ticking produce, a tick that visits each seed once, in
  whatever order, moves no seed back in its life, leaves finished seeds alone, and finishes every seed whose
  time to live has passed, with a harvest.\<close>

theorem seeds_ripen:
  assumes "garden_reachable g" "distinct order" "i \<in> set order" "bt_get (gd_seeds g) i = Some s"
  shows "\<exists>s'. bt_get (gd_seeds (tick_garden order now g)) i = Some s' \<and>
    stage_rank (sd_stage s) \<le> stage_rank (sd_stage s') \<and> (seed_finished s \<longrightarrow> s' = s) \<and>
    (\<not> seed_finished s \<and> unat (sd_ttl_ms s) \<le> unat now - unat (sd_ts_planted s) \<longrightarrow> sd_stage s' = Harvested)"
proof -
  have "seed_fresh s" using garden_reachable_inv [OF assms(1)] assms(4) by (auto simp: garden_inv_def)
  then show ?thesis using assms(2-4) seed_tick_fresh seed_tick_rank by (auto simp: tick_garden_get)
qed

definition sample_garden :: "unit SeedGarden" where
  "sample_garden = fst (plant garden_default (seed_new BoostToken ''cpu'' () 30000 ''default'' 100))"

theorem seeds_ripen_witness:
  "\<exists>s. bt_get (gd_seeds (tick_garden [1] 30100 sample_garden)) 1 = Some s \<and> sd_stage s = Harvested"
proof -
  have "garden_reachable sample_garden" unfolding sample_garden_def by (intro garden_reachable.intros)
  moreover have "bt_get (gd_seeds sample_garden) 1 = Some ((seed_new BoostToken ''cpu'' () 30000 ''default'' 100)\<lparr>sd_id := 1\<rparr>)"
    by (simp add: sample_garden_def plant_def garden_default_def seed_new_def Let_def)
  ultimately show ?thesis
    using seeds_ripen [of sample_garden "[1]" 1 _ 30100] by (auto simp: seed_new_def seed_finished_def)
qed

end
