(* ===== verification/Lql.thy ===== *)
theory Lql
  imports Unicode_Text Views Reflex
begin

text \<open>
  The query language, \<open>liminal-core/src/lql.rs\<close>: the syntax tree and the parser, command by command.
  A query is split at white space and every command reads the rest of its tokens from the left.  The
  JSON texts inside queries are read by a crate and are arguments of the model; so is the table of
  Unicode case mappings for characters outside ASCII.
\<close>

section \<open>The environment\<close>

text \<open>Case mappings of one character outside ASCII, and the JSON readers.  A map of goals has \<open>f64\<close>
  values, kept as their bits.\<close>

type_synonym goal_map = "string \<rightharpoonup> u64"

record lql_env =
  le_upper :: "string \<Rightarrow> string"
  le_lower :: "string \<Rightarrow> string"
  le_strings :: "string \<Rightarrow> string list option"
  le_floats :: "string \<Rightarrow> f32 list option"
  le_goals :: "string \<Rightarrow> goal_map option"
  le_reflex_cfg :: "string \<Rightarrow> string + ReflexCfg"

definition to_uppercase :: "lql_env \<Rightarrow> string \<Rightarrow> string" where
  "to_uppercase env s = uppercase (le_upper env) s"

definition to_lowercase :: "lql_env \<Rightarrow> string \<Rightarrow> string" where
  "to_lowercase env s = lowercase (le_lower env) s"

section \<open>The syntax tree\<close>

type_synonym LqlError = string

datatype LqlAst =
    Select string "u32 option" ViewFilter
  | Subscribe string "u32 option" "u32 option" ViewFilter
  | Unsubscribe u64
  | IntrospectModel "u64 option"
  | IntrospectInfluence "u64 option"
  | IntrospectTension "u64 option"
  | IntrospectEpochs "u64 option"
  | IntrospectEpoch u64
  | Intend "string list" "f32 list" "u64 option" "f32 option"
  | Variants "u64 option" "f32 option"
  | SlideSet string "string list" goal_map "string option"
  | CommitVariant string
  | Pivot string string "string option"
  | Defuse string f32
  | ReflexOn
  | ReflexOff
  | ReflexStatus
  | ReflexTune ReflexCfg

section \<open>Clauses of SELECT and SUBSCRIBE\<close>

definition unit_range :: "f32 \<Rightarrow> bool" where
  "unit_range x \<longleftrightarrow> f32_le f32_zero x \<and> f32_le x f32_one"

definition parse_condition_token :: "lql_env \<Rightarrow> string \<Rightarrow> ViewFilter \<Rightarrow> LqlError + ViewFilter" where
  "parse_condition_token env token flt =
     (case strip_prefix ''strength>='' token of
        Some value \<Rightarrow>
          rbind (ok_or ''invalid strength threshold'' (parse_f32 value)) (\<lambda>strength.
          rbind (require (unit_range strength) ''strength must be within 0.0..=1.0'') (\<lambda>_.
          Inr (flt\<lparr>vf_min_strength := Some strength\<rparr>)))
      | None \<Rightarrow>
     (case strip_prefix ''salience>='' token of
        Some value \<Rightarrow>
          rbind (ok_or ''invalid salience threshold'' (parse_f32 value)) (\<lambda>salience.
          rbind (require (unit_range salience) ''salience must be within 0.0..=1.0'') (\<lambda>_.
          Inr (flt\<lparr>vf_min_salience := Some salience\<rparr>)))
      | None \<Rightarrow>
     (case strip_prefix ''adreno='' token of
        Some value \<Rightarrow>
          (let v = to_lowercase env value in
           if v = ''true'' then Inr (flt\<lparr>vf_adreno := Some True\<rparr>)
           else if v = ''false'' then Inr (flt\<lparr>vf_adreno := Some False\<rparr>)
           else Inl ''adreno must be true or false'')
      | None \<Rightarrow> Inl ''unsupported WHERE clause'')))"

text \<open>The loop over the conditions: the number of tokens consumed and the filter.\<close>

definition where_done :: "nat \<Rightarrow> bool \<Rightarrow> ViewFilter \<Rightarrow> LqlError + (nat \<times> ViewFilter)" where
  "where_done consumed expect flt =
     rbind (require (consumed \<noteq> 0) ''WHERE requires a condition'') (\<lambda>_.
     rbind (require (\<not> expect) ''WHERE requires a condition'') (\<lambda>_. Inr (consumed, flt)))"

fun where_loop :: "lql_env \<Rightarrow> string list \<Rightarrow> nat \<Rightarrow> bool \<Rightarrow> ViewFilter \<Rightarrow> LqlError + (nat \<times> ViewFilter)" where
  "where_loop env [] consumed expect flt = where_done consumed expect flt"
| "where_loop env (token # ts) consumed expect flt =
     (let upper = to_uppercase env token in
      if upper = ''WINDOW'' \<or> upper = ''EVERY'' then where_done consumed expect flt
      else if \<not> expect then
        (if upper = ''AND'' then where_loop env ts (consumed + 1) True flt
         else Inl ''expected AND between WHERE clauses'')
      else rbind (parse_condition_token env token flt) (\<lambda>flt'. where_loop env ts (consumed + 1) False flt'))"

definition parse_where_conditions :: "lql_env \<Rightarrow> string list \<Rightarrow> ViewFilter \<Rightarrow> LqlError + (nat \<times> ViewFilter)" where
  "parse_where_conditions env tokens flt =
     (if tokens = [] then Inl ''WHERE requires a condition'' else where_loop env tokens 0 True flt)"

text \<open>The value of \<open>WINDOW\<close> and \<open>EVERY\<close>: the token at the index, if there is one.\<close>

definition parse_millis :: "string \<Rightarrow> string list \<Rightarrow> nat \<Rightarrow> LqlError + u32" where
  "parse_millis name rest i =
     rbind (require (i < length rest) (name @ '' requires milliseconds value'')) (\<lambda>_.
     rbind (ok_or (''invalid '' @ name @ '' value'') (parse_u32 (rest ! i))) (\<lambda>value.
     rbind (require (value \<noteq> 0) (name @ '' must be greater than zero'')) (\<lambda>_. Inr value)))"

text \<open>The loops of \<open>SELECT\<close> and \<open>SUBSCRIBE\<close> over the index of the next token; they differ in their name
  in messages and in that only \<open>SUBSCRIBE\<close> knows \<open>EVERY\<close>.\<close>

type_synonym clause_state = "u32 option \<times> u32 option \<times> ViewFilter"

partial_function (option) query_loop ::
  "lql_env \<Rightarrow> string \<Rightarrow> bool \<Rightarrow> string list \<Rightarrow> nat \<Rightarrow> clause_state \<Rightarrow> (LqlError + clause_state) option" where
  "query_loop env name allow_every rest i st =
     (if length rest \<le> i then Some (Inr st)
      else
        let key = to_uppercase env (rest ! i); (window, every, flt) = st in
        if key = ''WHERE'' then
          (case parse_where_conditions env (drop (i + 1) rest) flt of
             Inl e \<Rightarrow> Some (Inl e)
           | Inr cf \<Rightarrow> query_loop env name allow_every rest (i + 1 + fst cf) (window, every, snd cf))
        else if key = ''WINDOW'' then
          (case parse_millis ''WINDOW'' rest (i + 1) of
             Inl e \<Rightarrow> Some (Inl e)
           | Inr v \<Rightarrow> query_loop env name allow_every rest (i + 2) (Some v, every, flt))
        else if allow_every \<and> key = ''EVERY'' then
          (case parse_millis ''EVERY'' rest (i + 1) of
             Inl e \<Rightarrow> Some (Inl e)
           | Inr v \<Rightarrow> query_loop env name allow_every rest (i + 2) (window, Some v, flt))
        else Some (Inl (''unexpected token in '' @ name @ '': '' @ key)))"

definition clause_state_new :: clause_state where
  "clause_state_new = (None, None, view_filter_default)"

text \<open>A parser may, as far as the loop goes, not return: \<open>None\<close>.\<close>

type_synonym parsed = "(LqlError + LqlAst) option"

definition parse_select :: "lql_env \<Rightarrow> string list \<Rightarrow> parsed" where
  "parse_select env parts =
     (case parts of [] \<Rightarrow> Some (Inl ''SELECT requires a pattern'')
      | pattern # rest \<Rightarrow>
          map_option (\<lambda>r. rbind r (\<lambda>(window, every, flt). Inr (Select pattern window flt)))
            (query_loop env ''SELECT'' False rest 0 clause_state_new))"

definition parse_subscribe :: "lql_env \<Rightarrow> string list \<Rightarrow> parsed" where
  "parse_subscribe env parts =
     (case parts of [] \<Rightarrow> Some (Inl ''SUBSCRIBE requires a pattern'')
      | pattern # rest \<Rightarrow>
          map_option (\<lambda>r. rbind r (\<lambda>(window, every, flt). Inr (Subscribe pattern window every flt)))
            (query_loop env ''SUBSCRIBE'' True rest 0 clause_state_new))"

section \<open>The other commands\<close>

definition parse_unsubscribe :: "string list \<Rightarrow> LqlError + LqlAst" where
  "parse_unsubscribe parts =
     (case parts of [] \<Rightarrow> Inl ''UNSUBSCRIBE requires an id''
      | id_raw # others \<Rightarrow>
          rbind (require (others = []) ''UNSUBSCRIBE takes exactly one argument'') (\<lambda>_.
          rbind (ok_or ''invalid view id'' (parse_id id_raw)) (\<lambda>i. Inr (Unsubscribe i))))"

definition parse_reflex :: "lql_env \<Rightarrow> string list \<Rightarrow> LqlError + LqlAst" where
  "parse_reflex env parts =
     (case parts of [] \<Rightarrow> Inl ''REFLEX requires a subcommand''
      | action # raw \<Rightarrow>
          (let a = to_uppercase env action in
           if a = ''ON'' then Inr ReflexOn
           else if a = ''OFF'' then Inr ReflexOff
           else if a = ''STATUS'' then Inr ReflexStatus
           else if a = ''TUNE'' then
             rbind (require (raw \<noteq> []) ''REFLEX TUNE requires a config'') (\<lambda>_.
             rbind (map_err (\<lambda>err. ''invalid REFLEX config: '' @ err) (le_reflex_cfg env (join_spaces raw))) (\<lambda>cfg.
             Inr (ReflexTune cfg)))
           else Inl (''unknown REFLEX subcommand: '' @ a)))"

definition parse_top_clause :: "string list \<Rightarrow> LqlError + u64 option" where
  "parse_top_clause tokens =
     (case tokens of [] \<Rightarrow> Inr None
      | first # others \<Rightarrow>
          rbind (require (eq_ignore_ascii_case first ''TOP'') (''unexpected token in INTROSPECT: '' @ first)) (\<lambda>_.
          rbind (require (length tokens \<ge> 2) ''TOP requires a numeric value'') (\<lambda>_.
          rbind (require (length tokens \<le> 2) ''unexpected tokens after TOP clause'') (\<lambda>_.
          rbind (ok_or ''TOP requires a positive integer'' (parse_id (tokens ! 1))) (\<lambda>value.
          rbind (require (value \<noteq> 0) ''TOP must be greater than zero'') (\<lambda>_. Inr (Some value)))))))"

definition parse_introspect :: "lql_env \<Rightarrow> string list \<Rightarrow> LqlError + LqlAst" where
  "parse_introspect env parts =
     (case parts of [] \<Rightarrow> Inl ''INTROSPECT requires a target''
      | target # rest \<Rightarrow>
          (let t = to_uppercase env target; top = (\<lambda>f. rbind (parse_top_clause rest) (\<lambda>n. Inr (f n))) in
           if t = ''MODEL'' then top IntrospectModel
           else if t = ''INFLUENCE'' then top IntrospectInfluence
           else if t = ''TENSION'' then top IntrospectTension
           else if t = ''EPOCHS'' then top IntrospectEpochs
           else if t = ''EPOCH'' then
             rbind (require (rest \<noteq> []) ''INTROSPECT EPOCH requires an id'') (\<lambda>_.
             rbind (require (length rest \<le> 1) ''INTROSPECT EPOCH takes a single id'') (\<lambda>_.
             rbind (ok_or ''INTROSPECT EPOCH id must be numeric'' (parse_id (rest ! 0))) (\<lambda>i.
             Inr (IntrospectEpoch i))))
           else Inl (''unexpected INTROSPECT target: '' @ t)))"

text \<open>A key and its value, the next token: the shape of the loops of \<open>INTEND\<close> and \<open>SLIDE\<close>.\<close>

definition with_value :: "LqlError \<Rightarrow> string list \<Rightarrow> (string \<Rightarrow> string list \<Rightarrow> LqlError + 'a) \<Rightarrow> LqlError + 'a" where
  "with_value missing ts k = (case ts of [] \<Rightarrow> Inl missing | raw # rest \<Rightarrow> k raw rest)"

lemma with_value_cong [fundef_cong]:
  "m = m' \<Longrightarrow> ts = ts' \<Longrightarrow> (\<And>raw rest. ts' = raw # rest \<Longrightarrow> k raw rest = k' raw rest) \<Longrightarrow>
     with_value m ts k = with_value m' ts' k'"
  by (simp add: with_value_def split: list.split)

record intend_state =
  in_tokens :: "string list option"
  in_weights :: "f32 list option"
  in_horizon_ms :: "u64 option"
  in_budget :: "f32 option"

fun intend_loop :: "lql_env \<Rightarrow> string list \<Rightarrow> intend_state \<Rightarrow> LqlError + intend_state" where
  "intend_loop env [] st = Inr st"
| "intend_loop env (k # ts) st =
     (let key = to_uppercase env k in
      if key = ''TOKENS'' then
        with_value ''INTEND TOKENS requires a list'' ts (\<lambda>raw rest.
        rbind (ok_or ''expected string array'' (le_strings env raw)) (\<lambda>xs. intend_loop env rest (st\<lparr>in_tokens := Some xs\<rparr>)))
      else if key = ''WEIGHTS'' then
        with_value ''INTEND WEIGHTS requires a list'' ts (\<lambda>raw rest.
        rbind (ok_or ''expected numeric array'' (le_floats env raw)) (\<lambda>xs. intend_loop env rest (st\<lparr>in_weights := Some xs\<rparr>)))
      else if key = ''HORIZON'' then
        with_value ''INTEND HORIZON requires milliseconds'' ts (\<lambda>raw rest.
        rbind (ok_or ''INTEND HORIZON expects a positive integer'' (parse_id raw)) (\<lambda>n. intend_loop env rest (st\<lparr>in_horizon_ms := Some n\<rparr>)))
      else if key = ''BUDGET'' then
        with_value ''INTEND BUDGET requires a value'' ts (\<lambda>raw rest.
        rbind (ok_or ''INTEND BUDGET expects a numeric value'' (parse_f32 raw)) (\<lambda>x. intend_loop env rest (st\<lparr>in_budget := Some x\<rparr>)))
      else Inl (''unexpected INTEND token: '' @ key))"

definition parse_intend :: "lql_env \<Rightarrow> string list \<Rightarrow> LqlError + LqlAst" where
  "parse_intend env tokens =
     rbind (require (tokens \<noteq> []) ''INTEND requires arguments'') (\<lambda>_.
     rbind (intend_loop env tokens \<lparr>in_tokens = None, in_weights = None, in_horizon_ms = None, in_budget = None\<rparr>) (\<lambda>st.
     rbind (ok_or ''INTEND requires TOKENS'' (in_tokens st)) (\<lambda>focus.
     let weights = (case in_weights st of Some ws \<Rightarrow> ws
           | None \<Rightarrow> replicate (length focus) (f32_div f32_one (f32_of_nat (length focus))))
     in rbind (require (length weights = length focus) ''INTEND TOKENS and WEIGHTS must have the same length'') (\<lambda>_.
        Inr (Intend focus weights (in_horizon_ms st) (in_budget st))))))"

fun variants_loop :: "lql_env \<Rightarrow> string list \<Rightarrow> u64 option \<Rightarrow> f32 option \<Rightarrow> LqlError + (u64 option \<times> f32 option)" where
  "variants_loop env [] limit minp = Inr (limit, minp)"
| "variants_loop env (k # ts) limit minp =
     (let key = to_uppercase env k in
      if key = ''WHERE'' then
        with_value ''VARIANTS WHERE requires a condition like p>=0.5'' ts (\<lambda>condition rest.
        case strip_prefix ''p>='' condition of
          Some value \<Rightarrow>
            rbind (ok_or ''VARIANTS WHERE p>= expects a numeric value'' (parse_f32 value)) (\<lambda>p.
            variants_loop env rest limit (Some (f32_clamp f32_zero f32_one p)))
        | None \<Rightarrow> Inl (''unsupported VARIANTS WHERE condition: '' @ condition))
      else if key = ''LIMIT'' then
        with_value ''VARIANTS LIMIT requires a number'' ts (\<lambda>value rest.
        rbind (ok_or ''VARIANTS LIMIT expects an integer'' (parse_id value)) (\<lambda>n.
        rbind (require (n \<noteq> 0) ''VARIANTS LIMIT must be greater than zero'') (\<lambda>_.
        variants_loop env rest (Some n) minp)))
      else variants_loop env ts limit minp)"

definition parse_variants :: "lql_env \<Rightarrow> string list \<Rightarrow> LqlError + LqlAst" where
  "parse_variants env tokens =
     (case tokens of [] \<Rightarrow> Inr (Variants None None)
      | directive # rest \<Rightarrow>
          (let first = to_uppercase env directive in
           if first = ''TOP'' then
             rbind (require (length tokens \<ge> 2) ''VARIANTS TOP requires a number'') (\<lambda>_.
             rbind (ok_or ''VARIANTS TOP expects a positive integer'' (parse_id (tokens ! 1))) (\<lambda>n.
             rbind (require (n \<noteq> 0) ''VARIANTS TOP must be greater than zero'') (\<lambda>_. Inr (Variants (Some n) None))))
           else if first = ''SELECT'' then
             rbind (variants_loop env rest None None) (\<lambda>(limit, minp). Inr (Variants limit minp))
           else Inl (''unexpected VARIANTS directive: '' @ directive)))"

definition trim_quotes :: "string \<Rightarrow> string" where
  "trim_quotes s = trim_matches (\<lambda>c. c = CHR 0x22 \<or> c = CHR 0x27) s"

definition parse_variant_list :: "string \<Rightarrow> string list" where
  "parse_variant_list raw =
     filter (\<lambda>s. s \<noteq> [])
       (map (\<lambda>part. trim_quotes (trim part))
         (split_on CHR '','' (trim_matches (\<lambda>c. c = CHR ''['' \<or> c = CHR '']'') raw)))"

record slide_state =
  sl_variants :: "string list"
  sl_goals :: goal_map
  sl_guard :: "string option"

fun slide_loop :: "lql_env \<Rightarrow> string list \<Rightarrow> slide_state \<Rightarrow> LqlError + slide_state" where
  "slide_loop env [] st = Inr st"
| "slide_loop env (k # ts) st =
     (let key = to_uppercase env k in
      if key = ''VARIANTS'' then
        with_value ''SLIDE VARIANTS requires a list'' ts (\<lambda>raw rest.
        slide_loop env rest (st\<lparr>sl_variants := parse_variant_list raw\<rparr>))
      else if key = ''GOALS'' then
        with_value ''SLIDE GOALS requires a map'' ts (\<lambda>raw rest.
        rbind (ok_or ''SLIDE GOALS expects a JSON object with numeric values'' (le_goals env raw)) (\<lambda>m.
        slide_loop env rest (st\<lparr>sl_goals := m\<rparr>)))
      else if key = ''ETHICS'' then
        with_value ''SLIDE ETHICS requires a guard'' ts (\<lambda>raw rest.
        slide_loop env rest (st\<lparr>sl_guard := Some (trim_quotes raw)\<rparr>))
      else Inl (''unexpected SLIDE token: '' @ key))"

definition parse_slide :: "lql_env \<Rightarrow> string list \<Rightarrow> LqlError + LqlAst" where
  "parse_slide env tokens =
     rbind (require (length tokens \<ge> 4) ''SLIDE SET requires id and variant list'') (\<lambda>_.
     rbind (require (eq_ignore_ascii_case (tokens ! 0) ''SET'') ''expected SLIDE SET'') (\<lambda>_.
     rbind (slide_loop env (drop 2 tokens) \<lparr>sl_variants = [], sl_goals = Map.empty, sl_guard = None\<rparr>) (\<lambda>st.
     rbind (require (sl_variants st \<noteq> []) ''SLIDE requires at least one variant'') (\<lambda>_.
     Inr (SlideSet (trim_quotes (tokens ! 1)) (sl_variants st) (sl_goals st) (sl_guard st))))))"

definition parse_commit :: "string list \<Rightarrow> LqlError + LqlAst" where
  "parse_commit tokens =
     (case tokens of [] \<Rightarrow> Inl ''COMMIT requires a variant id''
      | t # _ \<Rightarrow> Inr (CommitVariant (trim_quotes t)))"

definition pivot_reason :: "string list \<Rightarrow> string option" where
  "pivot_reason tokens =
     (case dropWhile (\<lambda>t. \<not> eq_ignore_ascii_case t ''REASON'') tokens of
        [] \<Rightarrow> None
      | _ # message \<Rightarrow>
          (let m = join_spaces (map trim_quotes message) in if m = [] then None else Some m))"

definition parse_pivot :: "string list \<Rightarrow> LqlError + LqlAst" where
  "parse_pivot tokens =
     (case tokens of [] \<Rightarrow> Inl ''PIVOT requires arguments''
      | t # _ \<Rightarrow>
          (case split_arrow (trim_quotes t) of
             [a, b] \<Rightarrow> Inr (Pivot a b (pivot_reason tokens))
           | _ \<Rightarrow> Inl ''PIVOT expects format from->to''))"

definition parse_defuse :: "lql_env \<Rightarrow> string list \<Rightarrow> LqlError + LqlAst" where
  "parse_defuse env tokens =
     (case tokens of [] \<Rightarrow> Inl ''DEFUSE requires a pendulum id''
      | t # _ \<Rightarrow>
          (if length tokens \<ge> 3 \<and> to_uppercase env (tokens ! 1) \<in> {''RATE'', ''DRAIN''}
           then rbind (ok_or ''DEFUSE RATE expects a number'' (parse_f32 (tokens ! 2))) (\<lambda>drain.
                Inr (Defuse (trim_quotes t) drain))
           else Inr (Defuse (trim_quotes t) (f32_dec 3 1))))"

section \<open>The parser\<close>

definition parse_lql :: "lql_env \<Rightarrow> string \<Rightarrow> parsed" where
  "parse_lql env input =
     (let trimmed = trim input in
      if trimmed = [] then Some (Inl ''empty LQL query'')
      else case split_whitespace trimmed of
        [] \<Rightarrow> Some (Inl ''missing LQL command'')
      | first # parts \<Rightarrow>
          (let command = to_uppercase env first in
           if command = ''SELECT'' then parse_select env parts
           else if command = ''SUBSCRIBE'' then parse_subscribe env parts
           else if command = ''UNSUBSCRIBE'' then Some (parse_unsubscribe parts)
           else if command = ''INTROSPECT'' then Some (parse_introspect env parts)
           else if command = ''INTEND'' then Some (parse_intend env parts)
           else if command = ''VARIANTS'' then Some (parse_variants env parts)
           else if command = ''SLIDE'' then Some (parse_slide env parts)
           else if command = ''COMMIT'' then Some (parse_commit parts)
           else if command = ''PIVOT'' then Some (parse_pivot parts)
           else if command = ''DEFUSE'' then Some (parse_defuse env parts)
           else if command = ''REFLEX'' then Some (parse_reflex env parts)
           else Some (Inl (''unknown LQL command: '' @ command))))"

end
