(* ===== verification/Lql_Grammar.thy ===== *)
theory Lql_Grammar
  imports Lql
begin

text \<open>
  The clauses of \<open>SELECT\<close> and \<open>SUBSCRIBE\<close> as a grammar, and the loop of the parser against it: the loop
  ends on every input, accepts exactly the sentences of the grammar, and its result is what the clauses
  mean, later ones replacing earlier ones.
\<close>

section \<open>The grammar\<close>

datatype condition = CStrength f32 | CSalience f32 | CAdreno bool

datatype clause = CWhere "condition list" | CWindow u32 | CEvery u32

fun apply_condition :: "condition \<Rightarrow> ViewFilter \<Rightarrow> ViewFilter" where
  "apply_condition (CStrength x) flt = flt\<lparr>vf_min_strength := Some x\<rparr>"
| "apply_condition (CSalience x) flt = flt\<lparr>vf_min_salience := Some x\<rparr>"
| "apply_condition (CAdreno b) flt = flt\<lparr>vf_adreno := Some b\<rparr>"

fun apply_clause :: "clause \<Rightarrow> clause_state \<Rightarrow> clause_state" where
  "apply_clause (CWhere cs) (w, e, flt) = (w, e, fold apply_condition cs flt)"
| "apply_clause (CWindow v) (w, e, flt) = (Some v, e, flt)"
| "apply_clause (CEvery v) (w, e, flt) = (w, Some v, flt)"

inductive is_condition :: "lql_env \<Rightarrow> string \<Rightarrow> condition \<Rightarrow> bool" for env where
  strength: "parse_f32 t = Some x \<Longrightarrow> unit_range x \<Longrightarrow> is_condition env (''strength>='' @ t) (CStrength x)"
| salience: "parse_f32 t = Some x \<Longrightarrow> unit_range x \<Longrightarrow> is_condition env (''salience>='' @ t) (CSalience x)"
| adreno_true: "to_lowercase env t = ''true'' \<Longrightarrow> is_condition env (''adreno='' @ t) (CAdreno True)"
| adreno_false: "to_lowercase env t = ''false'' \<Longrightarrow> is_condition env (''adreno='' @ t) (CAdreno False)"

text \<open>Conditions separated by \<open>AND\<close>.\<close>

inductive conditions :: "lql_env \<Rightarrow> string list \<Rightarrow> condition list \<Rightarrow> bool" for env where
  single: "is_condition env t c \<Longrightarrow> conditions env [t] [c]"
| more: "is_condition env t c \<Longrightarrow> to_uppercase env a = ''AND'' \<Longrightarrow> conditions env ts cs \<Longrightarrow>
    conditions env (t # a # ts) (c # cs)"

definition keyword_next :: "lql_env \<Rightarrow> string list \<Rightarrow> bool" where
  "keyword_next env ts \<longleftrightarrow> ts = [] \<or> to_uppercase env (hd ts) \<in> {''WINDOW'', ''EVERY''}"

inductive clauses :: "lql_env \<Rightarrow> bool \<Rightarrow> string list \<Rightarrow> clause list \<Rightarrow> bool" for env allow_every where
  finished: "clauses env allow_every [] []"
| where_clause: "to_uppercase env k = ''WHERE'' \<Longrightarrow> conditions env ts cs \<Longrightarrow> keyword_next env rest \<Longrightarrow>
    clauses env allow_every rest qs \<Longrightarrow> clauses env allow_every (k # ts @ rest) (CWhere cs # qs)"
| window: "to_uppercase env k = ''WINDOW'' \<Longrightarrow> parse_u32 n = Some v \<Longrightarrow> v \<noteq> 0 \<Longrightarrow>
    clauses env allow_every rest qs \<Longrightarrow> clauses env allow_every (k # n # rest) (CWindow v # qs)"
| every: "allow_every \<Longrightarrow> to_uppercase env k = ''EVERY'' \<Longrightarrow> parse_u32 n = Some v \<Longrightarrow> v \<noteq> 0 \<Longrightarrow>
    clauses env allow_every rest qs \<Longrightarrow> clauses env allow_every (k # n # rest) (CEvery v # qs)"

inductive_cases clausesE: "clauses env allow_every ts qs"

section \<open>Conditions\<close>

lemma starts_with_append [simp]: "starts_with (p @ t) p"
  by (simp add: starts_with_def)

lemma starts_with_split: "starts_with s p \<Longrightarrow> s = p @ drop (length p) s"
  unfolding starts_with_def by (metis append_take_drop_id)

lemma condition_sound:
  assumes "parse_condition_token env token flt = Inr flt'"
  shows "\<exists>c. is_condition env token c \<and> flt' = apply_condition c flt"
proof -
  have split: "strip_prefix p token = Some t \<Longrightarrow> token = p @ t" for p t
    using starts_with_split [of token p] by (auto simp: strip_prefix_def split: if_splits)
  show ?thesis using assms
    by (auto simp: parse_condition_token_def result_simps Let_def dest!: split split: option.splits if_splits
        intro: is_condition.intros)
qed

lemma condition_complete:
  "is_condition env token c \<Longrightarrow> parse_condition_token env token flt = Inr (apply_condition c flt)"
  by (induction rule: is_condition.induct)
     (auto simp: parse_condition_token_def strip_prefix_def starts_with_def)

text \<open>A condition begins with a lower-case letter, so it is no keyword.\<close>

lemma to_uppercase_ascii:
  "(of_char c :: nat) < 128 \<Longrightarrow> to_uppercase env (c # s) = ascii_upper c # to_uppercase env s"
  by (simp add: to_uppercase_def uppercase_def map_char_def utf8_len_def)

lemma condition_no_keyword: "is_condition env t c \<Longrightarrow> to_uppercase env t \<notin> {''WINDOW'', ''EVERY''}"
  by (induction rule: is_condition.induct) (auto simp: to_uppercase_ascii ascii_upper_def)

section \<open>The loop over conditions\<close>

text \<open>With a condition expected, and with \<open>AND\<close> or the end expected.\<close>

lemma where_loop_sound:
  "where_loop env ts n expect flt = Inr (m, flt') \<Longrightarrow>
     \<exists>ds cs rest. ts = ds @ rest \<and> keyword_next env rest \<and> m = n + length ds \<and> flt' = fold apply_condition cs flt \<and>
       (if expect then conditions env ds cs
        else ds = [] \<and> cs = [] \<or> (\<exists>a ds'. ds = a # ds' \<and> to_uppercase env a = ''AND'' \<and> conditions env ds' cs))"
proof (induction env ts n expect flt rule: where_loop.induct)
  case (1 env n expect flt)
  then show ?case by (auto simp: where_done_def result_simps keyword_next_def)
next
  case (2 env token ts n expect flt)
  show ?case
  proof (cases "to_uppercase env token \<in> {''WINDOW'', ''EVERY''}")
    case True
    then show ?thesis using "2.prems"
      by (intro exI [of _ "[]"] exI [of _ "token # ts"]) (auto simp: where_done_def result_simps keyword_next_def)
  next
    case key: False
    show ?thesis
    proof (cases expect)
      case False
      then have a: "to_uppercase env token = ''AND''" "where_loop env ts (n + 1) True flt = Inr (m, flt')"
        using "2.prems" key by (auto simp: Let_def split: if_splits)
      with "2.IH"(1) [OF refl] key False obtain ds cs rest where
        "ts = ds @ rest" "keyword_next env rest" "m = n + 1 + length ds" "flt' = fold apply_condition cs flt" "conditions env ds cs"
        by auto
      then show ?thesis using a(1) False by (intro exI [of _ "token # ds"] exI [of _ cs] exI [of _ rest]) simp
    next
      case True
      then obtain flt1 where c: "parse_condition_token env token flt = Inr flt1" "where_loop env ts (n + 1) False flt1 = Inr (m, flt')"
        using "2.prems" key by (auto simp: Let_def result_simps)
      obtain c where c': "is_condition env token c" "flt1 = apply_condition c flt" using condition_sound [OF c(1)] by blast
      have "\<exists>ds cs rest. ts = ds @ rest \<and> keyword_next env rest \<and> m = n + 1 + length ds \<and> flt' = fold apply_condition cs flt1
          \<and> (ds = [] \<and> cs = [] \<or> (\<exists>a ds'. ds = a # ds' \<and> to_uppercase env a = ''AND'' \<and> conditions env ds' cs))"
        using "2.IH"(2) [OF refl] key True c by simp
      then obtain ds cs rest where
        ds: "ts = ds @ rest" "keyword_next env rest" "m = n + 1 + length ds" "flt' = fold apply_condition cs flt1"
          "ds = [] \<and> cs = [] \<or> (\<exists>a ds'. ds = a # ds' \<and> to_uppercase env a = ''AND'' \<and> conditions env ds' cs)"
        by blast
      then have "conditions env (token # ds) (c # cs)" using c' by (auto intro: conditions.intros)
      then show ?thesis using ds c' True by (intro exI [of _ "token # ds"] exI [of _ "c # cs"] exI [of _ rest]) simp
    qed
  qed
qed

lemma where_loop_complete:
  "conditions env ds cs \<Longrightarrow> keyword_next env rest \<Longrightarrow>
     where_loop env (ds @ rest) n True flt = Inr (n + length ds, fold apply_condition cs flt)"
proof (induction arbitrary: n flt rule: conditions.induct)
  case (single t c)
  have "where_loop env rest (n + 1) False f = Inr (n + 1, f)" for f
    using single.prems by (cases rest) (auto simp: keyword_next_def where_done_def Let_def)
  then show ?case using single.hyps condition_no_keyword [OF single.hyps] by (simp add: condition_complete Let_def)
next
  case (more t c a ts cs)
  have "where_loop env (ts @ rest) (Suc (Suc n)) True (apply_condition c flt)
      = Inr (Suc (Suc n) + length ts, fold apply_condition cs (apply_condition c flt))"
    using more by blast
  then show ?case using more.hyps condition_no_keyword [OF more.hyps(1)] by (simp add: condition_complete Let_def)
qed

lemma conditions_nonempty: "conditions env ds cs \<Longrightarrow> ds \<noteq> [] \<and> cs \<noteq> []"
  by (induction rule: conditions.induct) auto

lemma parse_where_iff:
  "parse_where_conditions env ts flt = Inr (m, flt') \<longleftrightarrow>
     (\<exists>ds cs rest. ts = ds @ rest \<and> conditions env ds cs \<and> keyword_next env rest \<and> m = length ds \<and>
        flt' = fold apply_condition cs flt)" (is "?l \<longleftrightarrow> ?r")
proof
  assume ?l
  then have "where_loop env ts 0 True flt = Inr (m, flt')" by (simp add: parse_where_conditions_def split: if_splits)
  from where_loop_sound [OF this] show ?r by auto
next
  assume ?r
  then obtain ds cs rest where *: "ts = ds @ rest" "conditions env ds cs" "keyword_next env rest" "m = length ds"
    "flt' = fold apply_condition cs flt" by blast
  then show ?l using where_loop_complete [OF *(2,3), of 0 flt] conditions_nonempty [OF *(2)]
    by (simp add: parse_where_conditions_def)
qed

section \<open>The loop over clauses\<close>

declare query_loop.simps [simp del]

lemma parse_millis_Inr:
  "parse_millis name rest i = Inr v \<longleftrightarrow> i < length rest \<and> parse_u32 (rest ! i) = Some v \<and> v \<noteq> 0"
  by (auto simp: parse_millis_def result_simps)

lemma query_loop_end: "length rest \<le> i \<Longrightarrow> query_loop env name ev rest i st = Some (Inr st)"
  by (subst query_loop.simps) simp

text \<open>The loop ends: every round moves the index.\<close>

lemma query_loop_total: "\<exists>r. query_loop env name ev rest i st = Some r"
proof (induction "length rest - i" arbitrary: i st rule: less_induct)
  case less
  show ?case
  proof (cases "length rest \<le> i")
    case False
    obtain w e f where st: "st = (w, e, f)" by (cases st)
    have next1: "\<exists>r. query_loop env name ev rest j st' = Some r" if "i < j" for j st'
      using less that False by simp
    show ?thesis unfolding st query_loop.simps [of env name ev rest i "(w, e, f)"] Let_def
      using False next1 by (cases ev) (simp_all split: sum.split)
  qed (simp add: query_loop_end)
qed

lemma drop_two: "Suc i < length rest \<Longrightarrow> drop i rest = rest ! i # rest ! Suc i # drop (Suc (Suc i)) rest"
  by (simp add: Cons_nth_drop_Suc)

lemma drop_eq_two:
  assumes "drop i rest = k # n # tail"
  shows "Suc i < length rest \<and> rest ! i = k \<and> rest ! Suc i = n \<and> drop (Suc (Suc i)) rest = tail"
proof -
  have "length (drop i rest) = Suc (Suc (length tail))" using assms by simp
  then have "Suc i < length rest" by (simp del: length_drop add: length_drop)
  then show ?thesis using assms drop_two [of i rest] by simp
qed

lemma query_loop_sound:
  "query_loop env name ev rest i st = Some (Inr st') \<Longrightarrow>
     \<exists>qs. clauses env ev (drop i rest) qs \<and> st' = fold apply_clause qs st"
proof (induction "length rest - i" arbitrary: i st rule: less_induct)
  case less
  show ?case
  proof (cases "length rest \<le> i")
    case True
    then show ?thesis using less.prems by (auto simp: query_loop_end intro!: exI [of _ "[]"] clauses.finished)
  next
    case False
    obtain w e f where st: "st = (w, e, f)" by (cases st)
    have d: "drop i rest = rest ! i # drop (Suc i) rest" using False by (simp add: Cons_nth_drop_Suc)
    have smaller: "length rest - j < length rest - i" if "i < j" for j using False that by linarith
    note eq = less.prems [unfolded st query_loop.simps [of env name ev rest i "(w, e, f)"] Let_def]
    consider (where_clause) cs f' where "to_uppercase env (rest ! i) = ''WHERE''"
        "parse_where_conditions env (drop (Suc i) rest) f = Inr (cs, f')"
        "query_loop env name ev rest (Suc i + cs) (w, e, f') = Some (Inr st')"
      | (window) v where "to_uppercase env (rest ! i) = ''WINDOW''" "parse_millis ''WINDOW'' rest (Suc i) = Inr v"
        "query_loop env name ev rest (Suc (Suc i)) (Some v, e, f) = Some (Inr st')"
      | (every) v where ev "to_uppercase env (rest ! i) = ''EVERY''" "parse_millis ''EVERY'' rest (Suc i) = Inr v"
        "query_loop env name ev rest (Suc (Suc i)) (w, Some v, f) = Some (Inr st')"
      using eq False by (auto split: if_splits sum.splits)
    then show ?thesis
    proof cases
      case where_clause
      then obtain ds conds tail where t: "drop (Suc i) rest = ds @ tail" "conditions env ds conds" "keyword_next env tail"
        "cs = length ds" "f' = fold apply_condition conds f" by (auto simp: parse_where_iff)
      have "drop (Suc i + cs) rest = tail" using t(1,4) by (metis append_eq_conv_conj drop_drop add.commute)
      then obtain qs where "clauses env ev tail qs" "st' = fold apply_clause qs (w, e, f')"
        using less.hyps [OF smaller where_clause(3)] by auto
      then show ?thesis using where_clause(1) t st unfolding d
        by (intro exI [of _ "CWhere conds # qs"]) (auto intro: clauses.where_clause)
    next
      case window
      then obtain qs where "clauses env ev (drop (Suc (Suc i)) rest) qs" "st' = fold apply_clause qs (Some v, e, f)"
        using less.hyps [OF smaller window(3)] by auto
      then show ?thesis using window st drop_two [of i rest]
        by (intro exI [of _ "CWindow v # qs"]) (auto simp: parse_millis_Inr intro: clauses.window)
    next
      case every
      then obtain qs where "clauses env ev (drop (Suc (Suc i)) rest) qs" "st' = fold apply_clause qs (w, Some v, f)"
        using less.hyps [OF smaller every(4)] by auto
      then show ?thesis using every st drop_two [of i rest]
        by (intro exI [of _ "CEvery v # qs"]) (auto simp: parse_millis_Inr intro: clauses.every)
    qed
  qed
qed

lemma query_loop_complete:
  "clauses env ev ts qs \<Longrightarrow> drop i rest = ts \<Longrightarrow> query_loop env name ev rest i st = Some (Inr (fold apply_clause qs st))"
proof (induction arbitrary: i st rule: clauses.induct)
  case finished
  then show ?case by (simp add: query_loop_end)
next
  case (where_clause k ts cs tail qs)
  obtain w e f where st: "st = (w, e, f)" by (cases st)
  have i: "i < length rest" using where_clause.prems by (metis drop_all list.discI not_le)
  then have k: "rest ! i = k" "drop (Suc i) rest = ts @ tail"
    using where_clause.prems by (simp_all add: Cons_nth_drop_Suc [symmetric])
  have "drop (Suc i + length ts) rest = tail" using k(2) by (metis append_eq_conv_conj drop_drop add.commute)
  note IH = where_clause.IH [OF this]
  have "parse_where_conditions env (drop (Suc i) rest) f = Inr (length ts, fold apply_condition cs f)"
    unfolding k(2) parse_where_iff using where_clause.hyps by blast
  then show ?case unfolding st query_loop.simps [of env name ev rest i "(w, e, f)"] Let_def
    using i k where_clause.hyps IH by simp
next
  case (window k n v tail qs)
  obtain w e f where st: "st = (w, e, f)" by (cases st)
  have i: "Suc i < length rest" "rest ! i = k" "rest ! Suc i = n" "drop (Suc (Suc i)) rest = tail"
    using drop_eq_two [OF window.prems] by simp_all
  then have "parse_millis ''WINDOW'' rest (Suc i) = Inr v" using window.hyps by (simp add: parse_millis_Inr)
  then show ?case unfolding st query_loop.simps [of env name ev rest i "(w, e, f)"] Let_def
    using i window.hyps window.IH [OF i(4)] by simp
next
  case (every k n v tail qs)
  obtain w e f where st: "st = (w, e, f)" by (cases st)
  have i: "Suc i < length rest" "rest ! i = k" "rest ! Suc i = n" "drop (Suc (Suc i)) rest = tail"
    using drop_eq_two [OF every.prems] by simp_all
  then have "parse_millis ''EVERY'' rest (Suc i) = Inr v" using every.hyps by (simp add: parse_millis_Inr)
  then show ?case unfolding st query_loop.simps [of env name ev rest i "(w, e, f)"] Let_def
    using i every.hyps every.IH [OF i(4)] by simp
qed

lemma query_loop_iff:
  "query_loop env name ev rest 0 st = Some (Inr st') \<longleftrightarrow> (\<exists>qs. clauses env ev rest qs \<and> st' = fold apply_clause qs st)"
  using query_loop_sound [of env name ev rest 0 st st'] query_loop_complete [of env ev rest _ 0 rest name st] by auto

end
