(* ===== verification/Lql_Properties.thy ===== *)
theory Lql_Properties
  imports Lql_Grammar
begin

text \<open>
  Properties of the query language: the parser returns on every text, \<open>SELECT\<close> and \<open>SUBSCRIBE\<close> accept
  exactly their grammar, a parsed query is well-formed, and a printed subscription is read back.
\<close>

section \<open>The accepted language\<close>

text \<open>C37: The language the parser of the core implements for \<open>SELECT\<close> and \<open>SUBSCRIBE\<close>: it accepts exactly a
  pattern followed by clauses in any order and number, \<open>WHERE\<close> clauses (conditions joined by \<open>AND\<close>, up to a
  keyword or the end), \<open>WINDOW\<close> clauses and, for \<open>SUBSCRIBE\<close> only, \<open>EVERY\<close> clauses, with positive numbers and
  thresholds in the unit interval, and the query is what the clauses mean, a later clause replacing an
  earlier one.  This is the grammar of the code; the grammars in the repository's protocol documents differ
  from it and from each other.\<close>

theorem query_language_exact:
  "(parse_select env (pattern # rest) = Some (Inr ast) \<longleftrightarrow>
     (\<exists>qs w e f. clauses env False rest qs \<and> fold apply_clause qs clause_state_new = (w, e, f) \<and> ast = Select pattern w f)) \<and>
   (parse_subscribe env (pattern # rest) = Some (Inr ast) \<longleftrightarrow>
     (\<exists>qs w e f. clauses env True rest qs \<and> fold apply_clause qs clause_state_new = (w, e, f) \<and> ast = Subscribe pattern w e f))"
  using query_loop_iff [of env "''SELECT''" False rest clause_state_new]
    query_loop_iff [of env "''SUBSCRIBE''" True rest clause_state_new]
  by (auto simp: parse_select_def parse_subscribe_def result_simps) metis+

section \<open>Termination\<close>

lemma parse_select_returns: "\<exists>r. parse_select env parts = Some r"
  using query_loop_total [of env "''SELECT''" False "tl parts" 0 clause_state_new]
  by (auto simp: parse_select_def split: list.split)

lemma parse_subscribe_returns: "\<exists>r. parse_subscribe env parts = Some r"
  using query_loop_total [of env "''SUBSCRIBE''" True "tl parts" 0 clause_state_new]
  by (auto simp: parse_subscribe_def split: list.split)

lemma if_returns: "\<exists>r. x = Some r \<Longrightarrow> \<exists>r. y = Some r \<Longrightarrow> \<exists>r. (if b then x else y) = Some r"
  by simp

lemma list_returns: "\<exists>r. x = Some r \<Longrightarrow> (\<And>a b. \<exists>r. f a b = Some r) \<Longrightarrow> \<exists>r. (case l of [] \<Rightarrow> x | a # b \<Rightarrow> f a b) = Some r"
  by (cases l) simp_all

lemma Some_returns: "\<exists>r. Some x = Some r"
  by simp

lemmas returns_intros = if_returns list_returns Some_returns parse_select_returns parse_subscribe_returns

text \<open>The parser returns a syntax tree or an error on every text, whatever the case tables and the
  JSON readers are: the loop over clauses moves its index in every round.\<close>

theorem parser_returns: "\<exists>r. parse_lql env input = Some r"
  unfolding parse_lql_def Let_def
  by (intro returns_intros)

section \<open>Well-formed queries\<close>

definition filter_ok :: "ViewFilter \<Rightarrow> bool" where
  "filter_ok f \<longleftrightarrow> pred_option unit_range (vf_min_strength f) \<and> pred_option unit_range (vf_min_salience f)"

fun ast_ok :: "LqlAst \<Rightarrow> bool" where
  "ast_ok (Select p w f) \<longleftrightarrow> p \<noteq> [] \<and> w \<noteq> Some 0 \<and> filter_ok f"
| "ast_ok (Subscribe p w e f) \<longleftrightarrow> p \<noteq> [] \<and> w \<noteq> Some 0 \<and> e \<noteq> Some 0 \<and> filter_ok f"
| "ast_ok (IntrospectModel n) \<longleftrightarrow> n \<noteq> Some 0"
| "ast_ok (IntrospectInfluence n) \<longleftrightarrow> n \<noteq> Some 0"
| "ast_ok (IntrospectTension n) \<longleftrightarrow> n \<noteq> Some 0"
| "ast_ok (IntrospectEpochs n) \<longleftrightarrow> n \<noteq> Some 0"
| "ast_ok (Intend ts ws h b) \<longleftrightarrow> length ws = length ts"
| "ast_ok (Variants l p) \<longleftrightarrow> l \<noteq> Some 0 \<and> pred_option (\<lambda>x. x = F32NaN \<or> unit_range x) p"
| "ast_ok (SlideSet i vs g e) \<longleftrightarrow> vs \<noteq> [] \<and> [] \<notin> set vs"
| "ast_ok (Pivot a b r) \<longleftrightarrow> r \<noteq> Some []"
| "ast_ok _ \<longleftrightarrow> True"

fun condition_ok :: "condition \<Rightarrow> bool" where
  "condition_ok (CStrength x) \<longleftrightarrow> unit_range x"
| "condition_ok (CSalience x) \<longleftrightarrow> unit_range x"
| "condition_ok (CAdreno b) \<longleftrightarrow> True"

fun clause_ok :: "clause \<Rightarrow> bool" where
  "clause_ok (CWhere cs) \<longleftrightarrow> list_all condition_ok cs"
| "clause_ok (CWindow v) \<longleftrightarrow> v \<noteq> 0"
| "clause_ok (CEvery v) \<longleftrightarrow> v \<noteq> 0"

definition state_ok :: "clause_state \<Rightarrow> bool" where
  "state_ok st \<longleftrightarrow> (case st of (w, e, f) \<Rightarrow> w \<noteq> Some 0 \<and> e \<noteq> Some 0 \<and> filter_ok f)"

lemma conditions_ok: "conditions env ts cs \<Longrightarrow> list_all condition_ok cs"
  by (induction rule: conditions.induct) (auto elim: is_condition.cases)

lemma clauses_ok: "clauses env ev ts qs \<Longrightarrow> list_all clause_ok qs"
  by (induction rule: clauses.induct) (auto dest: conditions_ok)

lemma apply_conditions_ok: "list_all condition_ok cs \<Longrightarrow> filter_ok f \<Longrightarrow> filter_ok (fold apply_condition cs f)"
proof (induction cs arbitrary: f)
  case (Cons c cs)
  then show ?case by (cases c) (simp_all add: filter_ok_def)
qed simp

lemma apply_clauses_ok: "list_all clause_ok qs \<Longrightarrow> state_ok st \<Longrightarrow> state_ok (fold apply_clause qs st)"
proof (induction qs arbitrary: st)
  case (Cons q qs)
  obtain w e f where "st = (w, e, f)" by (cases st)
  then show ?case using Cons by (cases q) (simp_all add: state_ok_def apply_conditions_ok)
qed simp

lemma clause_state_new_ok: "state_ok clause_state_new"
  by (simp add: state_ok_def clause_state_new_def filter_ok_def view_filter_default_def)

lemma words_nonempty: "[] \<notin> set (words_from acc s)"
proof (induction acc s rule: words_from.induct)
  case (1 acc s)
  then show ?case by (subst words_from.simps) (auto split: list.splits option.splits)
qed

text \<open>What a parser may return.\<close>

definition yields_ok :: "parsed \<Rightarrow> bool" where
  "yields_ok x \<longleftrightarrow> (\<forall>ast. x = Some (Inr ast) \<longrightarrow> ast_ok ast)"

lemma yields_if: "yields_ok x \<Longrightarrow> yields_ok y \<Longrightarrow> yields_ok (if b then x else y)"
  by simp

lemma yields_error: "yields_ok (Some (Inl e))"
  by (simp add: yields_ok_def)

lemma yields_select: "[] \<notin> set parts \<Longrightarrow> yields_ok (parse_select env parts)"
proof (cases parts)
  case (Cons p rest)
  moreover assume "[] \<notin> set parts"
  ultimately show ?thesis using apply_clauses_ok [OF clauses_ok clause_state_new_ok, of env False rest]
    by (fastforce simp: yields_ok_def parse_select_def result_simps query_loop_iff state_ok_def)
qed (simp add: parse_select_def yields_error)

lemma yields_subscribe: "[] \<notin> set parts \<Longrightarrow> yields_ok (parse_subscribe env parts)"
proof (cases parts)
  case (Cons p rest)
  moreover assume "[] \<notin> set parts"
  ultimately show ?thesis using apply_clauses_ok [OF clauses_ok clause_state_new_ok, of env True rest]
    by (fastforce simp: yields_ok_def parse_subscribe_def result_simps query_loop_iff state_ok_def)
qed (simp add: parse_subscribe_def yields_error)

lemma yields_introspect: "yields_ok (Some (parse_introspect env parts))"
  by (auto simp: yields_ok_def parse_introspect_def parse_top_clause_def Let_def result_simps split: list.splits if_splits)

lemma yields_intend: "yields_ok (Some (parse_intend env parts))"
  by (auto simp: yields_ok_def parse_intend_def Let_def result_simps split: option.splits)

lemma clamped_probability:
  "f32_clamp f32_zero f32_one x = F32NaN \<or> unit_range (f32_clamp f32_zero f32_one x)"
  using f32_clamp_within [OF clamp_bounds(3)] by (cases "x = F32NaN") (auto simp: unit_range_def f32_within_def)

lemma variants_where:
  assumes "variants_loop env (k # ts) l p = Inr r" "to_uppercase env k = ''WHERE''"
  obtains t rest x where "ts = t # rest" "variants_loop env rest l (Some (f32_clamp f32_zero f32_one x)) = Inr r"
  using assms by (cases ts) (auto simp: with_value_def result_simps split: option.splits)

lemma variants_limit:
  assumes "variants_loop env (k # ts) l p = Inr r" "to_uppercase env k = ''LIMIT''"
  obtains t rest n where "ts = t # rest" "n \<noteq> 0" "variants_loop env rest (Some n) p = Inr r"
  using assms by (cases ts) (auto simp: with_value_def result_simps)

lemma variants_skip:
  "to_uppercase env k \<notin> {''WHERE'', ''LIMIT''} \<Longrightarrow> variants_loop env (k # ts) l p = variants_loop env ts l p"
  by simp

lemma variants_loop_ok:
  "variants_loop env ts l p = Inr (l', p') \<Longrightarrow> ast_ok (Variants l p) \<Longrightarrow> ast_ok (Variants l' p')"
proof (induction ts arbitrary: l p rule: length_induct)
  case (1 ts)
  show ?case
  proof (cases ts)
    case (Cons k us)
    note run = "1.prems"(1) [unfolded Cons]
    consider "to_uppercase env k = ''WHERE''" | "to_uppercase env k = ''LIMIT''" | "to_uppercase env k \<notin> {''WHERE'', ''LIMIT''}"
      by blast
    then show ?thesis
    proof cases
      case 1
      from variants_where [OF run 1] obtain t rest x where
        "us = t # rest" "variants_loop env rest l (Some (f32_clamp f32_zero f32_one x)) = Inr (l', p')" .
      then show ?thesis using "1.IH" [rule_format, of rest l "Some (f32_clamp f32_zero f32_one x)"] "1.prems"(2) Cons
          clamped_probability [of x] by simp
    next
      case 2
      from variants_limit [OF run 2] obtain t rest n where
        "us = t # rest" "n \<noteq> 0" "variants_loop env rest (Some n) p = Inr (l', p')" .
      then show ?thesis using "1.IH" [rule_format, of rest "Some n" p] "1.prems"(2) Cons by simp
    next
      case 3
      then have "variants_loop env us l p = Inr (l', p')" using run by (metis variants_skip)
      then show ?thesis using "1.IH" [rule_format, of us l p] "1.prems"(2) Cons by simp
    qed
  qed (use "1.prems" in simp)
qed

lemma yields_variants: "yields_ok (Some (parse_variants env parts))"
  using variants_loop_ok [of env "tl parts" None None]
  by (auto simp: yields_ok_def parse_variants_def Let_def result_simps split: list.splits if_splits)

lemma slide_loop_ok: "slide_loop env ts st = Inr st' \<Longrightarrow> [] \<notin> set (sl_variants st) \<Longrightarrow> [] \<notin> set (sl_variants st')"
  by (induction env ts st rule: slide_loop.induct)
     (auto simp: Let_def with_value_def result_simps parse_variant_list_def split: if_splits list.splits)

lemma yields_slide: "yields_ok (Some (parse_slide env parts))"
  by (auto simp: yields_ok_def parse_slide_def result_simps dest!: slide_loop_ok)

lemma yields_others:
  "yields_ok (Some (parse_unsubscribe parts))" "yields_ok (Some (parse_commit parts))"
  "yields_ok (Some (parse_defuse env parts))" "yields_ok (Some (parse_reflex env parts))"
  "yields_ok (Some (parse_pivot parts))"
  by (auto simp: yields_ok_def parse_unsubscribe_def parse_commit_def parse_defuse_def parse_reflex_def parse_pivot_def
      pivot_reason_def Let_def result_simps split: list.splits if_splits)

lemmas yields_intros = yields_if yields_error yields_select yields_subscribe yields_introspect yields_intend
  yields_variants yields_slide yields_others

section \<open>From text to tokens\<close>

text \<open>Tokens of printable ASCII characters, joined by spaces, are read back.\<close>

definition graphic_token :: "string \<Rightarrow> bool" where
  "graphic_token t \<longleftrightarrow> t \<noteq> [] \<and> list_all ascii_graphic t"

lemma find_front_white: "ascii_graphic c \<Longrightarrow> find_front white_space (c # s) = None"
  using white_space_ends by (intro find_front_graphic) auto

lemma words_from_token: "list_all ascii_graphic t \<Longrightarrow> words_from acc (t @ s) = words_from (acc @ t) s"
proof (induction t arbitrary: acc)
  case (Cons c t)
  then show ?case by (simp add: words_from.simps [of acc] find_front_white)
qed simp

lemma space_char: "CHR '' '' = char_of n \<longleftrightarrow> n mod 256 = (32 :: nat)"
proof -
  have "CHR '' '' = char_of n \<longleftrightarrow> (of_char CHR '' '' :: nat) = of_char (char_of n)" by (simp only: of_char_eq_iff)
  also have "\<dots> \<longleftrightarrow> n mod 256 = 32" by (simp add: eq_commute [of 32])
  finally show ?thesis .
qed

lemma char_of_space: "char_of (32 :: nat) = CHR '' ''"
  by (rule sym) (simp add: space_char)

lemma words_from_space: "acc \<noteq> [] \<Longrightarrow> words_from acc ('' '' @ s) = acc # words_from [] s"
proof -
  have "find_front white_space ('' '' @ s) = Some '' ''"
    by (simp add: find_front_def white_space_def starts_with_def space_char char_of_space)
  moreover assume "acc \<noteq> []"
  ultimately show ?thesis by (subst words_from.simps) simp
qed

lemma split_join: "list_all graphic_token ts \<Longrightarrow> split_whitespace (join_spaces ts) = ts"
  unfolding split_whitespace_def
proof (induction ts rule: join_spaces.induct)
  case (2 w)
  then show ?case using words_from_token [of w "[]" "[]"] by (simp add: graphic_token_def words_from.simps)
next
  case (3 w v ws)
  then show ?case using words_from_token [of w "[]" "'' '' @ join_spaces (v # ws)"]
      words_from_space [of w "join_spaces (v # ws)"] by (simp add: graphic_token_def)
qed (simp add: words_from.simps)

lemma join_last: "list_all graphic_token ts \<Longrightarrow> ts \<noteq> [] \<Longrightarrow>
    join_spaces ts \<noteq> [] \<and> ascii_graphic (last (join_spaces ts))"
proof (induction ts rule: join_spaces.induct)
  case (2 w)
  then show ?case by (auto simp: graphic_token_def list_all_iff)
qed simp_all

lemma trim_join:
  assumes "list_all graphic_token ts" "ts \<noteq> []"
  shows "trim (join_spaces ts) = join_spaces ts"
proof -
  obtain w ws where ts: "ts = w # ws" using assms(2) by (cases ts) auto
  then have "ascii_graphic (hd (join_spaces ts))" using assms(1) by (cases ws; cases w) (auto simp: graphic_token_def)
  then show ?thesis using join_last [OF assms] by (intro trim_graphic) auto
qed

lemma parse_tokens:
  assumes "list_all graphic_token (command # parts)"
  shows "parse_lql env (join_spaces (command # parts)) =
    (let c = to_uppercase env command in
     if c = ''SELECT'' then parse_select env parts
     else if c = ''SUBSCRIBE'' then parse_subscribe env parts
     else parse_lql env (join_spaces (command # parts)))"
  using split_join [OF assms] trim_join [OF assms] join_last [OF assms] by (simp add: parse_lql_def Let_def)

lemma to_uppercase_upper:
  "list_all (\<lambda>c. 65 \<le> (of_char c :: nat) \<and> (of_char c :: nat) \<le> 90) s \<Longrightarrow> to_uppercase env s = s"
proof (induction s)
  case Nil
  then show ?case by (simp add: to_uppercase_def uppercase_def)
next
  case (Cons c s)
  then show ?case by (simp add: to_uppercase_ascii ascii_upper_def Let_def)
qed

lemma keywords_upper:
  "to_uppercase env ''SELECT'' = ''SELECT''" "to_uppercase env ''SUBSCRIBE'' = ''SUBSCRIBE''"
  "to_uppercase env ''WHERE'' = ''WHERE''" "to_uppercase env ''WINDOW'' = ''WINDOW''"
  "to_uppercase env ''EVERY'' = ''EVERY''" "to_uppercase env ''AND'' = ''AND''"
  by (simp_all add: to_uppercase_upper)

lemma parse_select_text:
  "list_all graphic_token (p # rest) \<Longrightarrow> parse_lql env (join_spaces (''SELECT'' # p # rest)) = parse_select env (p # rest)"
  using parse_tokens [of "''SELECT''" "p # rest" env]
  by (simp add: keywords_upper graphic_token_def ascii_graphic_def)

lemma parse_subscribe_text:
  "list_all graphic_token (p # rest) \<Longrightarrow> parse_lql env (join_spaces (''SUBSCRIBE'' # p # rest)) = parse_subscribe env (p # rest)"
  using parse_tokens [of "''SUBSCRIBE''" "p # rest" env]
  by (simp add: keywords_upper graphic_token_def ascii_graphic_def)

section \<open>Well-formed queries, the property\<close>

text \<open>C38: A query that parses is well-formed: patterns are not empty, windows, periods and limits are
  positive, thresholds are within the unit interval, an intention has one weight per token, and a slide
  names at least one variant.  The probability of \<open>VARIANTS\<close> is within the unit interval too, unless it is
  not a number.\<close>

theorem parsed_queries_well_formed:
  assumes "parse_lql env input = Some (Inr ast)"
  shows "ast_ok ast"
proof -
  have "yields_ok (parse_lql env input)"
  proof (cases "split_whitespace (trim input)")
    case Nil
    then show ?thesis by (simp add: parse_lql_def Let_def yields_error)
  next
    case (Cons t parts)
    then have "[] \<notin> set parts" using words_nonempty [of "[]" "trim input"] by (simp add: split_whitespace_def)
    then show ?thesis unfolding parse_lql_def Let_def Cons list.case by (intro yields_intros)
  qed
  then show ?thesis using assms by (simp add: yields_ok_def)
qed

definition ascii_env :: lql_env where
  "ascii_env = \<lparr>le_upper = (\<lambda>s. s), le_lower = (\<lambda>s. s), le_strings = (\<lambda>_. None), le_floats = (\<lambda>_. None),
     le_goals = (\<lambda>_. None), le_reflex_cfg = (\<lambda>_. Inl ''no config'')\<rparr>"

lemma sample_numbers:
  "parse_u32 ''1500'' = Some 1500" "parse_f32 ''0.5'' = Some f32_half" "unit_range f32_half"
  by (simp_all add: parse_u32_def parse_u64_def is_digit_char_def dec_value_def parse_f32_def parse_decimal_def split_sign_def
      split_point_def parse_exponent_def f32_of_decimal_def f32_of_ratio_def f32_ratio_def Let_def f32_shift.simps f32_half_def
      unit_range_def f32_le_iff f32_zero_def f32_one_def f32_int_def)

lemma sample_clauses:
  "clauses env ev [''WHERE'', ''strength>=0.5'', ''WINDOW'', ''1500''] [CWhere [CStrength f32_half], CWindow 1500]"
proof -
  have "is_condition env (''strength>='' @ ''0.5'') (CStrength f32_half)"
    by (intro is_condition.strength sample_numbers)
  then have "clauses env ev (''WHERE'' # [''strength>=0.5''] @ [''WINDOW'', ''1500'']) [CWhere [CStrength f32_half], CWindow 1500]"
    by (intro clauses.where_clause clauses.window conditions.single clauses.finished)
       (simp_all add: keywords_upper keyword_next_def sample_numbers)
  then show ?thesis by simp
qed

theorem parsed_queries_well_formed_witness:
  "parse_lql ascii_env ''SELECT cpu WHERE strength>=0.5 WINDOW 1500''
     = Some (Inr (Select ''cpu'' (Some 1500) (view_filter_default\<lparr>vf_min_strength := Some f32_half\<rparr>)))
   \<and> ast_ok (Select ''cpu'' (Some 1500) (view_filter_default\<lparr>vf_min_strength := Some f32_half\<rparr>))"
proof -
  have "parse_lql ascii_env ''SELECT cpu WHERE strength>=0.5 WINDOW 1500''
      = parse_select ascii_env [''cpu'', ''WHERE'', ''strength>=0.5'', ''WINDOW'', ''1500'']"
    using parse_select_text [of "''cpu''" "[''WHERE'', ''strength>=0.5'', ''WINDOW'', ''1500'']" ascii_env]
    by (simp add: graphic_token_def ascii_graphic_def)
  also have "\<dots> = Some (Inr (Select ''cpu'' (Some 1500) (view_filter_default\<lparr>vf_min_strength := Some f32_half\<rparr>)))"
    using query_loop_complete [OF sample_clauses, of 0 _ ascii_env "''SELECT''" False clause_state_new]
    by (simp add: parse_select_def clause_state_new_def)
  finally show ?thesis using parsed_queries_well_formed by blast
qed

section \<open>Printing a subscription\<close>

lemma digits_graphic: "list_all is_digit_char s \<Longrightarrow> list_all ascii_graphic s"
  by (auto simp: list_all_iff is_digit_char_def ascii_graphic_def)

lemma parse_u32_dec_digits: "parse_u32 (dec_digits (unat v)) = Some v"
proof -
  have "unat v < 2 ^ 32" using unsigned_less [of v, where 'a = nat] by simp
  then show ?thesis by (simp add: parse_u32_def parse_u64_dec_digits)
qed

definition number_clause :: "string \<Rightarrow> u32 option \<Rightarrow> string list" where
  "number_clause key v = (case v of None \<Rightarrow> [] | Some n \<Rightarrow> [key, dec_digits (unat n)])"

definition adreno_clause :: "bool option \<Rightarrow> string list" where
  "adreno_clause a = (case a of None \<Rightarrow> [] | Some b \<Rightarrow> [''WHERE'', ''adreno='' @ (if b then ''true'' else ''false'')])"

definition print_subscription :: "string \<Rightarrow> u32 option \<Rightarrow> u32 option \<Rightarrow> bool option \<Rightarrow> string" where
  "print_subscription pattern window every adreno =
     join_spaces (''SUBSCRIBE'' # pattern # adreno_clause adreno @ number_clause ''WINDOW'' window @ number_clause ''EVERY'' every)"

lemma number_graphic: "graphic_token key \<Longrightarrow> list_all graphic_token (number_clause key v)"
  by (simp add: number_clause_def graphic_token_def dec_digits_nonempty digits_graphic dec_digits_all_digits split: option.split)

lemma adreno_graphic: "list_all graphic_token (adreno_clause a)"
  by (simp add: adreno_clause_def graphic_token_def ascii_graphic_def split: option.split)

lemma every_clause: "e \<noteq> Some 0 \<Longrightarrow>
    clauses env True (number_clause ''EVERY'' e) (case e of None \<Rightarrow> [] | Some v \<Rightarrow> [CEvery v])"
  by (auto simp: number_clause_def keywords_upper parse_u32_dec_digits split: option.split intro!: clauses.every clauses.finished)

lemma window_clause:
  "w \<noteq> Some 0 \<Longrightarrow> clauses env ev rest qs \<Longrightarrow>
     clauses env ev (number_clause ''WINDOW'' w @ rest) ((case w of None \<Rightarrow> [] | Some v \<Rightarrow> [CWindow v]) @ qs)"
  by (auto simp: number_clause_def keywords_upper parse_u32_dec_digits split: option.split intro!: clauses.window)

lemma to_lowercase_lower: "to_lowercase env ''true'' = ''true''" "to_lowercase env ''false'' = ''false''"
  by (simp_all add: to_lowercase_def lowercase_def map_char_def utf8_len_def ascii_lower_def)

lemma adreno_clauses:
  assumes "clauses env ev rest qs" "keyword_next env rest"
  shows "clauses env ev (adreno_clause a @ rest) ((case a of None \<Rightarrow> [] | Some b \<Rightarrow> [CWhere [CAdreno b]]) @ qs)"
proof (cases a)
  case (Some b)
  have "is_condition env (''adreno='' @ (if b then ''true'' else ''false'')) (CAdreno b)"
    by (cases b) (auto intro: is_condition.intros simp: to_lowercase_lower simp del: append.simps)
  then have "clauses env ev (''WHERE'' # [''adreno='' @ (if b then ''true'' else ''false'')] @ rest) (CWhere [CAdreno b] # qs)"
    using assms by (intro clauses.where_clause conditions.single) (simp_all add: keywords_upper)
  then show ?thesis by (simp add: Some adreno_clause_def)
qed (use assms in \<open>simp add: adreno_clause_def\<close>)

text \<open>A subscription written with its pattern, window, period and adrenaline filter is read back as it
  was, whatever the case tables and the JSON readers are.\<close>

theorem subscription_roundtrip:
  assumes "graphic_token pattern" "w \<noteq> Some 0" "e \<noteq> Some 0"
  shows "parse_lql env (print_subscription pattern w e a)
    = Some (Inr (Subscribe pattern w e (view_filter_default\<lparr>vf_adreno := a\<rparr>)))"
proof -
  let ?tail = "number_clause ''WINDOW'' w @ number_clause ''EVERY'' e"
  have next_key: "keyword_next env ?tail"
    by (auto simp: keyword_next_def number_clause_def keywords_upper split: option.split)
  have "clauses env True (adreno_clause a @ ?tail)
      ((case a of None \<Rightarrow> [] | Some b \<Rightarrow> [CWhere [CAdreno b]]) @ (case w of None \<Rightarrow> [] | Some v \<Rightarrow> [CWindow v])
        @ (case e of None \<Rightarrow> [] | Some v \<Rightarrow> [CEvery v]))"
    using assms(2,3) by (intro adreno_clauses window_clause every_clause next_key)
  then have "parse_subscribe env (pattern # adreno_clause a @ ?tail)
      = Some (Inr (Subscribe pattern w e (view_filter_default\<lparr>vf_adreno := a\<rparr>)))"
    using query_loop_complete [of env True _ _ 0 _ "''SUBSCRIBE''" clause_state_new]
    by (cases a; cases w; cases e) (simp_all add: parse_subscribe_def clause_state_new_def view_filter_default_def)
  moreover have "list_all graphic_token (pattern # adreno_clause a @ ?tail)"
    using assms(1) adreno_graphic by (simp add: number_graphic graphic_token_def ascii_graphic_def)
  ultimately show ?thesis unfolding print_subscription_def by (simp only: parse_subscribe_text)
qed

theorem subscription_roundtrip_witness:
  "parse_lql ascii_env (print_subscription ''mem/free'' (Some 2000) (Some 1000) (Some False))
     = Some (Inr (Subscribe ''mem/free'' (Some 2000) (Some 1000) (view_filter_default\<lparr>vf_adreno := Some False\<rparr>)))"
  using subscription_roundtrip [of "''mem/free''" "Some 2000" "Some 1000" ascii_env "Some False"]
  by (simp add: graphic_token_def ascii_graphic_def)

text \<open>\<open>VARIANTS\<close> accepts a probability that is not a number and skips words it does not know.\<close>

lemma variants_accepts_nan:
  "parse_variants env [''SELECT'', ''WHERE'', ''p>=nan''] = Inr (Variants None (Some F32NaN))"
proof -
  have "parse_f32 ''nan'' = Some F32NaN"
    by (simp add: parse_f32_def split_sign_def parse_decimal_def split_point_def is_digit_char_def
        eq_ignore_ascii_case_def ascii_lower_def)
  then show ?thesis
    by (simp add: parse_variants_def keywords_upper with_value_def strip_prefix_def starts_with_def)
qed

lemma variants_skips_unknown:
  "to_uppercase env k \<notin> {''WHERE'', ''LIMIT''} \<Longrightarrow> to_uppercase env n \<notin> {''WHERE'', ''LIMIT''} \<Longrightarrow>
     parse_variants env [''SELECT'', k, n] = Inr (Variants None None)"
  by (simp add: parse_variants_def keywords_upper)

end
