(* ===== verification/Rust_Sort.thy ===== *)
theory Rust_Sort
  imports F32 BTree_Map "HOL-Library.Multiset"
begin

text \<open>
  Sorting and map operations as the core crate uses them: the stable \<open>sort_by\<close> with a comparison
  function, and the maps' \<open>retain\<close>, \<open>values_mut\<close>, \<open>get_mut\<close> and \<open>entry\<close>.  For a comparison that is not
  a total preorder on the list, as \<open>partial_cmp(..).unwrap_or(Equal)\<close> is when a key is not a number, the
  library may panic and leaves the order open otherwise.  \<open>try_sort_by\<close> gives no result there; \<open>sort_by\<close>
  stands for the runs in which the sort returns and then gives one of the possible orders.
\<close>

section \<open>Sorting\<close>

fun insort_by :: "('a \<Rightarrow> 'a \<Rightarrow> Ordering) \<Rightarrow> 'a \<Rightarrow> 'a list \<Rightarrow> 'a list" where
  "insort_by compare x [] = [x]"
| "insort_by compare x (y # ys) = (if compare x y = Greater then y # insort_by compare x ys else x # y # ys)"

definition sort_by :: "('a \<Rightarrow> 'a \<Rightarrow> Ordering) \<Rightarrow> 'a list \<Rightarrow> 'a list" where
  "sort_by compare xs = foldr (insort_by compare) xs []"

lemma mset_insort_by [simp]: "mset (insort_by compare x ys) = add_mset x (mset ys)"
  by (induction ys) auto

lemma mset_sort_by [simp]: "mset (sort_by compare xs) = mset xs"
  by (induction xs) (simp_all add: sort_by_def)

lemma set_sort_by [simp]: "set (sort_by compare xs) = set xs"
  by (metis mset_sort_by set_mset_mset)

lemma length_sort_by [simp]: "length (sort_by compare xs) = length xs"
  by (metis mset_sort_by size_mset)

text \<open>Sorting by a comparison that reads a number off each element.\<close>

definition by_key :: "('a \<Rightarrow> 'k :: linorder) \<Rightarrow> 'a \<Rightarrow> 'a \<Rightarrow> Ordering" where
  "by_key f x y = cmp (f x) (f y)"

definition key_le :: "('a \<Rightarrow> 'a \<Rightarrow> Ordering) \<Rightarrow> 'a \<Rightarrow> 'a \<Rightarrow> bool" where
  "key_le compare x y \<longleftrightarrow> compare x y \<noteq> Greater"

definition preorder_on :: "'a set \<Rightarrow> ('a \<Rightarrow> 'a \<Rightarrow> Ordering) \<Rightarrow> bool" where
  "preorder_on A compare \<longleftrightarrow>
     (\<forall>a\<in>A. \<forall>b\<in>A. key_le compare a b \<or> key_le compare b a) \<and>
     (\<forall>a\<in>A. \<forall>b\<in>A. \<forall>c\<in>A. key_le compare a b \<longrightarrow> key_le compare b c \<longrightarrow> key_le compare a c)"

lemma preorder_on_subset: "preorder_on A compare \<Longrightarrow> B \<subseteq> A \<Longrightarrow> preorder_on B compare"
  unfolding preorder_on_def by blast

lemma set_insort_by [simp]: "set (insort_by compare x ys) = insert x (set ys)"
  by (metis mset_insort_by set_mset_add_mset_insert set_mset_mset)

lemma sorted_insort_by:
  assumes "sorted_wrt (key_le compare) ys" "preorder_on (insert x (set ys)) compare"
  shows "sorted_wrt (key_le compare) (insort_by compare x ys)"
  using assms
proof (induction ys)
  case (Cons y ys)
  have ys: "sorted_wrt (key_le compare) ys" "\<forall>z\<in>set ys. key_le compare y z" using Cons.prems(1) by simp_all
  show ?case
  proof (cases "compare x y = Greater")
    case True
    have "preorder_on (insert x (set ys)) compare" using Cons.prems(2) by (rule preorder_on_subset) auto
    then have "sorted_wrt (key_le compare) (insort_by compare x ys)" using ys(1) by (intro Cons.IH)
    moreover have "key_le compare y x"
      using True Cons.prems(2) unfolding preorder_on_def by (metis insertI1 insert_commute key_le_def list.set(2))
    ultimately show ?thesis using True ys(2) by simp
  next
    case False
    then have le: "key_le compare x y" by (simp add: key_le_def)
    have "key_le compare x z" if "z \<in> set ys" for z
    proof -
      have "x \<in> insert x (set (y # ys))" "y \<in> insert x (set (y # ys))" "z \<in> insert x (set (y # ys))" using that by simp_all
      then show ?thesis using Cons.prems(2) le ys(2) that unfolding preorder_on_def by meson
    qed
    then show ?thesis using False le ys by simp
  qed
qed simp

lemma sorted_sort_by: "preorder_on (set xs) compare \<Longrightarrow> sorted_wrt (key_le compare) (sort_by compare xs)"
proof (induction xs)
  case (Cons x xs)
  have "sort_by compare (x # xs) = insort_by compare x (sort_by compare xs)" by (simp add: sort_by_def)
  moreover have "preorder_on (set xs) compare" using Cons.prems by (rule preorder_on_subset) auto
  ultimately show ?case using Cons sorted_insort_by [of compare "sort_by compare xs" x] by simp
qed (simp add: sort_by_def)

text \<open>\<open>b.partial_cmp(&a).unwrap_or(Equal)\<close> on the numbers of two elements: descending order, with
  not-a-number equal to everything.\<close>

definition f32_cmp_or_equal :: "f32 \<Rightarrow> f32 \<Rightarrow> Ordering" where
  "f32_cmp_or_equal x y = (case f32_partial_cmp x y of Some o1 \<Rightarrow> o1 | None \<Rightarrow> Equal)"

lemma f32_cmp_or_equal_number:
  "x \<noteq> F32NaN \<Longrightarrow> y \<noteq> F32NaN \<Longrightarrow> f32_cmp_or_equal x y = cmp (f32_rank x) (f32_rank y)"
  by (simp add: f32_cmp_or_equal_def f32_partial_cmp_def)

text \<open>The sort that has no result when the comparison is not a total preorder on the list.\<close>

definition try_sort_by :: "('a \<Rightarrow> 'a \<Rightarrow> Ordering) \<Rightarrow> 'a list \<Rightarrow> 'a list option" where
  "try_sort_by compare xs = (if preorder_on (set xs) compare then Some (sort_by compare xs) else None)"

lemma try_sort_by_Some: "try_sort_by compare xs = Some ys \<Longrightarrow> ys = sort_by compare xs \<and> sorted_wrt (key_le compare) ys"
  by (auto simp: try_sort_by_def sorted_sort_by split: if_splits)

lemma key_le_number:
  "f a \<noteq> F32NaN \<Longrightarrow> f b \<noteq> F32NaN \<Longrightarrow>
     key_le (\<lambda>a b. f32_cmp_or_equal (f b) (f a)) a b \<longleftrightarrow> f32_rank (f b) \<le> f32_rank (f a)"
  by (auto simp: key_le_def f32_cmp_or_equal_number cmp_def)

lemma preorder_by_number:
  "\<forall>x\<in>A. f x \<noteq> F32NaN \<Longrightarrow> preorder_on A (\<lambda>a b. f32_cmp_or_equal (f b) (f a))"
  unfolding preorder_on_def using key_le_number [of f] by (meson linear order_trans)

lemma try_sort_by_number:
  "\<forall>x\<in>set xs. f x \<noteq> F32NaN \<Longrightarrow>
     try_sort_by (\<lambda>a b. f32_cmp_or_equal (f b) (f a)) xs = Some (sort_by (\<lambda>a b. f32_cmp_or_equal (f b) (f a)) xs)"
  by (simp add: try_sort_by_def preorder_by_number)

lemma sorted_by_number:
  assumes "\<forall>x\<in>set xs. f x \<noteq> F32NaN"
  shows "sorted_wrt (\<lambda>a b. f32_rank (f b) \<le> f32_rank (f a)) (sort_by (\<lambda>a b. f32_cmp_or_equal (f b) (f a)) xs)"
  using sorted_sort_by [OF preorder_by_number [OF assms]]
  by (rule sorted_wrt_mono_rel [rotated]) (use assms key_le_number [of f] in simp)

section \<open>Maps\<close>

definition bt_retain :: "('k \<Rightarrow> 'v \<Rightarrow> bool) \<Rightarrow> ('k, 'v) btree_map \<Rightarrow> ('k, 'v) btree_map" where
  "bt_retain P m = filter (\<lambda>(k, v). P k v) m"

definition bt_map_values :: "('k \<Rightarrow> 'v \<Rightarrow> 'w) \<Rightarrow> ('k, 'v) btree_map \<Rightarrow> ('k, 'w) btree_map" where
  "bt_map_values f m = map (\<lambda>(k, v). (k, f k v)) m"

text \<open>\<open>get_mut\<close> followed by a change, and \<open>entry(k).or_insert(v)\<close> followed by a change.\<close>

definition bt_update :: "'k::linorder \<Rightarrow> ('v \<Rightarrow> 'v) \<Rightarrow> ('k, 'v) btree_map \<Rightarrow> ('k, 'v) btree_map" where
  "bt_update k f m = (case bt_get m k of None \<Rightarrow> m | Some v \<Rightarrow> bt_insert k (f v) m)"

definition bt_entry :: "'k::linorder \<Rightarrow> 'v \<Rightarrow> ('v \<Rightarrow> 'v) \<Rightarrow> ('k, 'v) btree_map \<Rightarrow> ('k, 'v) btree_map" where
  "bt_entry k v f m = bt_insert k (f (case bt_get m k of None \<Rightarrow> v | Some w \<Rightarrow> w)) m"

lemma bt_get_retain:
  "bt_wf m \<Longrightarrow> bt_get (bt_retain P m) k = (case bt_get m k of None \<Rightarrow> None | Some v \<Rightarrow> if P k v then Some v else None)"
proof (induction m)
  case (Cons e m)
  obtain k' v where e: "e = (k', v)" by (cases e)
  have "bt_get m k' = None" using Cons.prems unfolding e by (auto simp: bt_wf_Cons bt_get_None_iff)
  then show ?case using Cons unfolding e by (auto simp: bt_retain_def bt_wf_Cons split: option.splits)
qed (simp add: bt_retain_def)

lemma bt_get_map_values [simp]: "bt_get (bt_map_values f m) k = map_option (f k) (bt_get m k)"
  by (induction m) (auto simp: bt_map_values_def)

lemma bt_get_update [simp]: "bt_get (bt_update k f m) k' = (if k' = k then map_option f (bt_get m k) else bt_get m k')"
  by (auto simp: bt_update_def split: option.split)

lemma bt_get_entry [simp]:
  "bt_get (bt_entry k v f m) k' = (if k' = k then Some (f (case bt_get m k of None \<Rightarrow> v | Some w \<Rightarrow> w)) else bt_get m k')"
  by (simp add: bt_entry_def)

lemma fst_bt_map_values [simp]: "map fst (bt_map_values f m) = map fst m"
  by (induction m) (auto simp: bt_map_values_def)

lemma bt_wf_retain [simp]: "bt_wf m \<Longrightarrow> bt_wf (bt_retain P m)"
  by (simp add: bt_wf_def bt_retain_def sorted_wrt_map sorted_wrt_filter)

lemma bt_wf_map_values [simp]: "bt_wf (bt_map_values f m) \<longleftrightarrow> bt_wf m"
  by (simp add: bt_wf_def)

lemma bt_wf_update [simp]: "bt_wf m \<Longrightarrow> bt_wf (bt_update k f m)"
  by (simp add: bt_update_def split: option.split)

lemma bt_wf_entry [simp]: "bt_wf m \<Longrightarrow> bt_wf (bt_entry k v f m)"
  by (simp add: bt_entry_def)

lemma bt_keys_iff: "k \<in> set (bt_keys m) \<longleftrightarrow> bt_get m k \<noteq> None"
  by (simp add: bt_keys_def bt_get_None_iff)

end
