(* ===== verification/Field_Events.thy ===== *)
theory Field_Events
  imports Node_Cell Reflex Rust_Sort
begin

text \<open>
  What the field writes to its journal, \<open>liminal-core/src/journal.rs\<close>, with the data those deltas carry:
  reflex rules (\<open>reflex/legacy.rs\<close>), the configurations and reports of dreams, synchrony and awakening
  (\<open>dream_engine.rs\<close>, \<open>synchrony.rs\<close>, \<open>awakening.rs\<close>), epochs and replays (\<open>mirror.rs\<close>, \<open>recursion.rs\<close>),
  and the log of builds and applications of the resonant model (\<open>resonant.rs\<close>).
\<close>

type_synonym u16 = "16 word"

section \<open>Reflex rules\<close>

record ReflexWhen =
  rw_token :: string
  rw_kind :: ImpulseKind
  rw_min_strength :: f32
  rw_window_ms :: u32
  rw_min_count :: u16

datatype ReflexAction =
    EmitHint Hint
  | SpawnSeed string f32
  | WakeSleeping u16
  | BoostLinks f32 u16

record ReflexRule =
  rl_id :: u64
  rl_when :: ReflexWhen
  rl_then :: ReflexAction
  rl_enabled :: bool

record ReflexFire =
  rf_id :: u64
  rf_at_ms :: u64
  rf_matched :: u16

section \<open>Configurations and reports\<close>

record DreamConfig =
  dc_min_idle_s :: u32
  dc_window_ms :: u32
  dc_strengthen_top_pct :: f32
  dc_weaken_bottom_pct :: f32
  dc_protect_salience :: f32
  dc_adreno_protect :: bool
  dc_max_ops_per_cycle :: u32

definition dream_config_default :: DreamConfig where
  "dream_config_default =
     \<lparr>dc_min_idle_s = 15, dc_window_ms = 3000, dc_strengthen_top_pct = f32_dec 15 2, dc_weaken_bottom_pct = f32_dec 10 2,
      dc_protect_salience = f32_dec 6 1, dc_adreno_protect = True, dc_max_ops_per_cycle = 256\<rparr>"

record DreamReport =
  dr_strengthened :: u32
  dr_weakened :: u32
  dr_pruned :: u32
  dr_protected :: u32
  dr_rewired :: u32
  dr_took_ms :: u32

record SyncConfig =
  sc_phase_len_ms :: u32
  sc_phase_gap_ms :: u32
  sc_cooccur_threshold :: f32
  sc_max_groups :: u16
  sc_share_top_k :: u16
  sc_weight_xfer :: f32

definition sync_config_default :: SyncConfig where
  "sync_config_default =
     \<lparr>sc_phase_len_ms = 4000, sc_phase_gap_ms = 1000, sc_cooccur_threshold = f32_dec 6 1, sc_max_groups = 4,
      sc_share_top_k = 8, sc_weight_xfer = f32_dec 2 1\<rparr>"

record SyncReport =
  sr_groups :: u16
  sr_shared :: u32
  sr_aligned :: u32
  sr_protected :: u32
  sr_took_ms :: u32

record AwakeningConfig =
  aw_max_nodes :: nat
  aw_energy_floor :: f32
  aw_energy_boost :: f32
  aw_salience_boost :: f32
  aw_protect_salience :: f32
  aw_tick_bias_ms :: int
  aw_target_gain :: f32

definition awakening_config_default :: AwakeningConfig where
  "awakening_config_default =
     \<lparr>aw_max_nodes = 4, aw_energy_floor = f32_dec 45 2, aw_energy_boost = f32_dec 35 2, aw_salience_boost = f32_dec 12 2,
      aw_protect_salience = f32_dec 75 2, aw_tick_bias_ms = 18, aw_target_gain = f32_dec 8 2\<rparr>"

record HarmonyMetrics =
  hx_avg_strength :: f32
  hx_avg_latency :: f32
  hx_entropy :: f32

definition harmony_metrics_default :: HarmonyMetrics where
  "harmony_metrics_default = \<lparr>hx_avg_strength = f32_zero, hx_avg_latency = f32_zero, hx_entropy = f32_zero\<rparr>"

datatype EpochKind = EpochDream | EpochCollective | EpochAwaken

record Epoch =
  ep_id :: u64
  ep_kind :: EpochKind
  ep_start_ms :: u64
  ep_end_ms :: u64
  ep_cfg_hash :: u64
  ep_report_hash :: u64
  ep_harmony_before :: HarmonyMetrics
  ep_harmony_after :: HarmonyMetrics
  ep_tension_before :: f32
  ep_tension_after :: f32
  ep_latency_avg_before :: f32
  ep_latency_avg_after :: f32
  ep_impact :: f32

record ReplayReport =
  rp_epoch_id :: u64
  rp_mode :: string
  rp_applied :: u32
  rp_predicted_gain :: f32
  rp_took_ms :: u32

section \<open>The deltas\<close>

record CellSnapshot =
  cs_id :: u64
  cs_seed_affinity :: f32
  cs_seed_metabolism :: f32
  cs_core_pattern :: string
  cs_state :: NodeState
  cs_links :: "u64 set"
  cs_metabolism :: f32
  cs_affinity :: f32
  cs_last_response_ms :: u64
  cs_energy :: f32
  cs_salience :: f32
  cs_adreno_tag :: bool
  cs_last_recall_ms :: u64

definition cell_snapshot :: "NodeCell \<Rightarrow> CellSnapshot" where
  "cell_snapshot c =
     \<lparr>cs_id = nc_id c, cs_seed_affinity = sp_affinity (nc_seed c), cs_seed_metabolism = sp_base_metabolism (nc_seed c),
      cs_core_pattern = sp_core_pattern (nc_seed c), cs_state = nc_state c, cs_links = nc_links c,
      cs_metabolism = nc_metabolism c, cs_affinity = nc_affinity c, cs_last_response_ms = nc_last_response_ms c,
      cs_energy = nc_energy c, cs_salience = nc_salience c, cs_adreno_tag = nc_adreno_tag c,
      cs_last_recall_ms = nc_last_recall_ms c\<rparr>"

record EnergyDelta =
  ed_id :: u64
  ed_energy :: f32
  ed_metabolism :: f32
  ed_state :: NodeState
  ed_last_response_ms :: u64

record DreamEdgeDelta =
  de_from :: u64
  de_to :: u64
  de_score :: f32
  de_freq :: f32
  de_avg_strength :: f32

record TrsTraceDelta =
  tt_now_ms :: u64
  tt_observed_load :: f32
  tt_error :: f32
  tt_tick_adjust_ms :: int
  tt_alpha :: f32

record TrsHarmonyDelta =
  th_alpha :: f32
  th_affinity_scale :: f32
  th_metabolism_scale :: f32
  th_sleep_delta :: f32

datatype EventDelta =
    EvTick u64
  | EvSpawn CellSnapshot
  | EvDivide u64 CellSnapshot
  | EvSleep u64
  | EvDead u64
  | EvLink u64 u64
  | EvUnlink u64 u64
  | EvAffinity u64 f32
  | EvEnergy EnergyDelta
  | EvReflexAdd ReflexRule
  | EvReflexRemove u64
  | EvReflexFire ReflexFire
  | EvTrsSet TrsConfig
  | EvTrsTarget f32
  | EvTrsTrace TrsTraceDelta
  | EvTrsHarmony TrsHarmonyDelta
  | EvDreamConfig DreamConfig
  | EvSyncConfig SyncConfig
  | EvDreamStrengthen DreamEdgeDelta
  | EvDreamWeaken DreamEdgeDelta
  | EvDreamPrune u64 u64
  | EvDreamRewire u64 u64
  | EvDreamReport u64 DreamReport
  | EvSyncShare u64 string f32
  | EvSyncAlign u64 u64 f32
  | EvCollectiveDreamReport u64 SyncReport
  | EvModelBuild string u32 u64
  | EvAwakenApply "string option" AwakeningConfig u64 u32
  | EvAwakenTick "string option" u64
  | EvMirrorEpoch Epoch
  | EvMirrorReplay ReplayReport

section \<open>The resonant model and its log\<close>

record ResonantEdge =
  re_from :: u64
  re_to :: u64
  re_weight :: f32
  re_coherence :: f32

record Influence =
  if_source :: u64
  if_sink :: u64
  if_weight :: f32
  if_coherence :: f32

record Tension =
  te_node :: u64
  te_magnitude :: f32
  te_relief :: f32

record ModelFrame =
  mf_hash :: string
  mf_cell_count :: u32
  mf_created_ms :: u64

record ResonantModel =
  rm_edges :: "ResonantEdge list"
  rm_influences :: "Influence list"
  rm_tensions :: "Tension list"
  rm_coherence :: f32
  rm_last_build :: "ModelFrame option"
  rm_last_applied :: "string option"

definition resonant_model_default :: ResonantModel where
  "resonant_model_default =
     \<lparr>rm_edges = [], rm_influences = [], rm_tensions = [], rm_coherence = f32_zero, rm_last_build = None, rm_last_applied = None\<rparr>"

definition model_record_build :: "ModelFrame \<Rightarrow> ResonantModel \<Rightarrow> ResonantModel" where
  "model_record_build frame m = m\<lparr>rm_last_build := Some frame\<rparr>"

definition model_last_hash :: "ResonantModel \<Rightarrow> string option" where
  "model_last_hash m = map_option mf_hash (rm_last_build m)"

definition take_top :: "'a list \<Rightarrow> nat \<Rightarrow> 'a list" where
  "take_top items limit = (if limit = 0 then [] else take limit items)"

definition model_truncated :: "nat \<Rightarrow> ResonantModel \<Rightarrow> ResonantModel" where
  "model_truncated limit m =
     m\<lparr>rm_edges := take_top (rm_edges m) limit, rm_influences := take_top (rm_influences m) limit,
       rm_tensions := take_top (rm_tensions m) limit\<rparr>"

datatype SyncEvent =
    SyncDream u64 u32 u32 u32
  | SyncCollective u64 u32 u32 u32
  | SyncBuild u64 string u32
  | SyncApply u64 "string option" u32
  | SyncTick u64

record SyncLog =
  sy_entries :: "SyncEvent list"
  sy_capacity :: nat

definition sync_log_new :: SyncLog where
  "sync_log_new = \<lparr>sy_entries = [], sy_capacity = 48\<rparr>"

text \<open>A log read back from disk has capacity 0, which the first push replaces.\<close>

definition sync_push :: "SyncEvent \<Rightarrow> SyncLog \<Rightarrow> SyncLog" where
  "sync_push event l =
     (let capacity = (if sy_capacity l = 0 then 48 else sy_capacity l);
          entries = sy_entries l @ [event]
      in \<lparr>sy_entries = (if capacity < length entries then drop (length entries - capacity) entries else entries),
          sy_capacity = capacity\<rparr>)"

definition record_dream :: "u64 \<Rightarrow> DreamReport \<Rightarrow> SyncLog \<Rightarrow> SyncLog" where
  "record_dream at_ms r = sync_push (SyncDream at_ms (dr_strengthened r) (dr_weakened r) (dr_protected r))"

definition record_collective :: "u64 \<Rightarrow> SyncReport \<Rightarrow> SyncLog \<Rightarrow> SyncLog" where
  "record_collective at_ms r = sync_push (SyncCollective at_ms (sr_shared r) (sr_aligned r) (sr_protected r))"

definition record_build :: "string \<Rightarrow> u64 \<Rightarrow> u32 \<Rightarrow> SyncLog \<Rightarrow> SyncLog" where
  "record_build hash at_ms cell_count = sync_push (SyncBuild at_ms hash cell_count)"

definition record_apply :: "string option \<Rightarrow> u64 \<Rightarrow> u32 \<Rightarrow> SyncLog \<Rightarrow> SyncLog" where
  "record_apply hash at_ms cell_count = sync_push (SyncApply at_ms hash cell_count)"

definition record_tick :: "u64 \<Rightarrow> SyncLog \<Rightarrow> SyncLog" where
  "record_tick at_ms = sync_push (SyncTick at_ms)"

definition sync_truncated :: "nat \<Rightarrow> SyncLog \<Rightarrow> SyncLog" where
  "sync_truncated limit l =
     (if limit < length (sy_entries l) then l\<lparr>sy_entries := drop (length (sy_entries l) - limit) (sy_entries l)\<rparr> else l)"

text \<open>The log holds the last events pushed, at most its capacity of them.\<close>

lemma sync_push_last:
  assumes "0 < sy_capacity l" "sy_entries l = drop (length es - sy_capacity l) es"
  shows "sy_entries (sync_push e l) = drop (length (es @ [e]) - sy_capacity l) (es @ [e])
       \<and> sy_capacity (sync_push e l) = sy_capacity l"
proof -
  have "length (sy_entries l @ [e]) - sy_capacity l + (length es - sy_capacity l) = length (es @ [e]) - sy_capacity l"
    using assms by (auto simp: min_def)
  then show ?thesis using assms by (auto simp: sync_push_def Let_def)
qed

section \<open>Orders on keys\<close>

text \<open>The counters of the field are keyed by a token and a kind of impulse.\<close>

fun kind_rank :: "ImpulseKind \<Rightarrow> nat" where
  "kind_rank Query = 0"
| "kind_rank Write = 1"
| "kind_rank Affect = 2"

instantiation ImpulseKind :: linorder
begin

definition less_eq_ImpulseKind :: "ImpulseKind \<Rightarrow> ImpulseKind \<Rightarrow> bool" where
  "less_eq_ImpulseKind a b \<longleftrightarrow> kind_rank a \<le> kind_rank b"

definition less_ImpulseKind :: "ImpulseKind \<Rightarrow> ImpulseKind \<Rightarrow> bool" where
  "less_ImpulseKind a b \<longleftrightarrow> kind_rank a < kind_rank b"

instance
proof
  fix x y :: ImpulseKind
  show "x \<le> y \<Longrightarrow> y \<le> x \<Longrightarrow> x = y"
    by (cases x; cases y) (simp_all add: less_eq_ImpulseKind_def)
qed (auto simp: less_eq_ImpulseKind_def less_ImpulseKind_def)

end

end
