(* ===== verification/Variants.thy ===== *)
theory Variants
  imports Rust_Sort Unicode_Text F32_Literals
begin

text \<open>
  The manifold of variants, \<open>liminal-core/src/variant.rs\<close>: actionable variants with their slides,
  intentions and pendulums, the ranking by probability over effort, and the commitment to one of them.
  The exponential function of the logistic curve is a parameter; so is the order in which the hash maps
  are visited, a permutation of their keys.
\<close>

section \<open>Data\<close>

record Variant =
  va_id :: string
  va_title :: string
  va_evidence_score :: f32
  va_cost_est :: f32
  va_time_est_ms :: u32
  va_risk :: f32
  va_expected_gain :: f32
  va_path_hint :: "string list"
  va_resonance_hint :: "f32 option"

definition variant_effort :: "Variant \<Rightarrow> f32" where
  "variant_effort v =
     (let time = f32_div (f32_of_nat (unat (va_time_est_ms v))) (f32_dec 1000 0)
      in f32_max (f32_add (va_cost_est v) time) (f32_dec 1 3))"

text \<open>The desired metrics have \<open>f64\<close> values, kept as their bits.\<close>

record Slide =
  sl_id :: string
  sl_variant_ids :: "string list"
  sl_desired_metrics :: "string \<rightharpoonup> u64"
  sl_ethics_guard :: "string option"

record Intention =
  in_focus_tokens :: "string list"
  in_weights :: "f32 list"
  in_horizon_ms :: "u64 option"
  in_budget :: "f32 option"

definition normalized_weights :: "Intention \<Rightarrow> f32 list" where
  "normalized_weights i =
     (if in_weights i = [] then []
      else
        let total_weight = f32_sum (filter (\<lambda>v. f32_gt v f32_zero) (in_weights i))
        in if f32_le total_weight f32_zero then map (\<lambda>_. f32_zero) (in_weights i)
           else map (\<lambda>w. f32_div (f32_max w f32_zero) total_weight) (in_weights i))"

record Pendulum =
  pe_id :: string
  pe_signature_tokens :: "string list"
  pe_drain_rate :: f32
  pe_counter_policy :: "string option"

definition penalty_for :: "Pendulum \<Rightarrow> string list \<Rightarrow> f32" where
  "penalty_for p tokens =
     (if pe_signature_tokens p = [] then f32_zero
      else
        let hits = length (filter (\<lambda>token. list_ex (\<lambda>needle. eq_ignore_ascii_case needle token) (pe_signature_tokens p)) tokens)
        in if hits = 0 then f32_zero
           else f32_mul (f32_div (f32_of_nat hits) (f32_of_nat (length (pe_signature_tokens p)))) (f32_max (pe_drain_rate p) f32_zero))"

record ProbabilityWeights =
  pw_evidence :: f32
  pw_cost :: f32
  pw_gain :: f32
  pw_risk :: f32
  pw_resonance :: f32

definition weights_default :: ProbabilityWeights where
  "weights_default =
     \<lparr>pw_evidence = f32_dec 21 1, pw_cost = f32_dec 13 1, pw_gain = f32_dec 14 1, pw_risk = f32_dec 11 1,
      pw_resonance = f32_dec 16 1\<rparr>"

record ProbabilityFlow =
  fl_weights :: ProbabilityWeights
  fl_min_effort :: f32

definition flow_default :: ProbabilityFlow where
  "flow_default = \<lparr>fl_weights = weights_default, fl_min_effort = f32_dec 2 1\<rparr>"

definition sigmoid :: "(f32 \<Rightarrow> f32) \<Rightarrow> f32 \<Rightarrow> f32" where
  "sigmoid exp x = f32_div f32_one (f32_add f32_one (exp (f32_neg x)))"

definition flow_probability :: "(f32 \<Rightarrow> f32) \<Rightarrow> ProbabilityFlow \<Rightarrow> Variant \<Rightarrow> Intention option \<Rightarrow> f32 \<Rightarrow> f32" where
  "flow_probability exp fl v intention resonance =
     (let cost_norm =
            (case Option.bind intention in_budget of
               Some budget \<Rightarrow> if f32_gt budget f32_zero then f32_div (va_cost_est v) (f32_max budget (f32_dec 1 3)) else va_cost_est v
             | None \<Rightarrow> va_cost_est v);
          w = fl_weights fl;
          x = f32_add (f32_sub (f32_add (f32_sub (f32_mul (pw_evidence w) (va_evidence_score v)) (f32_mul (pw_cost w) cost_norm))
                (f32_mul (pw_gain w) (va_expected_gain v))) (f32_mul (pw_risk w) (va_risk v))) (f32_mul (pw_resonance w) resonance)
      in sigmoid exp x)"

definition flow_effort :: "ProbabilityFlow \<Rightarrow> Variant \<Rightarrow> f32" where
  "flow_effort fl v = f32_max (variant_effort v) (fl_min_effort fl)"

definition flow_score :: "(f32 \<Rightarrow> f32) \<Rightarrow> ProbabilityFlow \<Rightarrow> Variant \<Rightarrow> Intention option \<Rightarrow> f32 \<Rightarrow> f32 \<times> f32 \<times> f32" where
  "flow_score exp fl v intention resonance =
     (let probability = flow_probability exp fl v intention resonance;
          effort = flow_effort fl v
      in (probability, effort, f32_div probability (f32_max effort (fl_min_effort fl))))"

record VariantScore =
  vs_id :: string
  vs_title :: string
  vs_probability :: f32
  vs_effort :: f32
  vs_score :: f32
  vs_evidence :: f32
  vs_risk :: f32
  vs_expected_gain :: f32

record EvidenceEma =
  em_value :: f32
  em_alpha :: f32
  em_seen :: bool

definition ema_update :: "f32 \<Rightarrow> EvidenceEma \<Rightarrow> EvidenceEma" where
  "ema_update sample e =
     (if \<not> em_seen e then e\<lparr>em_value := sample, em_seen := True\<rparr>
      else e\<lparr>em_value := f32_add (f32_mul (em_alpha e) sample) (f32_mul (f32_sub f32_one (em_alpha e)) (em_value e))\<rparr>)"

record CommitState =
  cm_variant_id :: string
  cm_started_ms :: u64
  cm_accumulated_effort :: f32

record CommitOutcome =
  co_variant_id :: string
  co_planted_seeds :: "u64 list"

record PivotOutcome =
  po_from :: string
  po_to :: string
  po_inertia :: f32

record DefuseOutcome =
  df_pendulum_id :: string
  df_previous_drain :: f32
  df_new_drain :: f32

record VariantManifold =
  vm_variants :: "(string, Variant) btree_map"
  vm_slides :: "(string, Slide) btree_map"
  vm_pendulums :: "(string, Pendulum) btree_map"
  vm_evidence :: "(string, EvidenceEma) btree_map"
  vm_active_slide :: "string option"
  vm_active_intention :: "Intention option"
  vm_active_commit :: "CommitState option"
  vm_flow :: ProbabilityFlow

definition manifold_default :: VariantManifold where
  "manifold_default =
     \<lparr>vm_variants = [], vm_slides = [], vm_pendulums = [], vm_evidence = [], vm_active_slide = None,
      vm_active_intention = None, vm_active_commit = None, vm_flow = flow_default\<rparr>"

section \<open>Operations\<close>

definition upsert_variant :: "Variant \<Rightarrow> VariantManifold \<Rightarrow> VariantManifold" where
  "upsert_variant v m =
     (let evidence = (if bt_contains_key (vm_evidence m) (va_id v) then vm_evidence m
            else bt_insert (va_id v) \<lparr>em_value = f32_zero, em_alpha = f32_dec 35 2, em_seen = False\<rparr> (vm_evidence m))
      in m\<lparr>vm_evidence := evidence, vm_variants := bt_insert (va_id v) v (vm_variants m)\<rparr>)"

definition set_slide :: "Slide \<Rightarrow> VariantManifold \<Rightarrow> VariantManifold" where
  "set_slide s m = m\<lparr>vm_slides := bt_insert (sl_id s) s (vm_slides m), vm_active_slide := Some (sl_id s)\<rparr>"

definition register_pendulum :: "Pendulum \<Rightarrow> VariantManifold \<Rightarrow> VariantManifold" where
  "register_pendulum p m = m\<lparr>vm_pendulums := bt_insert (pe_id p) p (vm_pendulums m)\<rparr>"

definition set_intention :: "Intention \<Rightarrow> VariantManifold \<Rightarrow> VariantManifold" where
  "set_intention i m = m\<lparr>vm_active_intention := Some i\<rparr>"

definition observe_variant :: "string \<Rightarrow> f32 \<Rightarrow> VariantManifold \<Rightarrow> VariantManifold \<times> f32 option" where
  "observe_variant i evidence m =
     (case bt_get (vm_evidence m) i of None \<Rightarrow> (m, None)
      | Some e \<Rightarrow>
          let e' = ema_update (f32_clamp f32_zero f32_one evidence) e
          in (m\<lparr>vm_evidence := bt_insert i e' (vm_evidence m)\<rparr>, Some (em_value e')))"

definition variant_commit :: "string \<Rightarrow> u64 \<Rightarrow> VariantManifold \<Rightarrow> VariantManifold \<times> CommitOutcome option" where
  "variant_commit i now_ms m =
     (case bt_get (vm_variants m) i of None \<Rightarrow> (m, None)
      | Some v \<Rightarrow>
          (m\<lparr>vm_active_commit := Some \<lparr>cm_variant_id = i, cm_started_ms = now_ms, cm_accumulated_effort = variant_effort v\<rparr>\<rparr>,
           Some \<lparr>co_variant_id = i, co_planted_seeds = []\<rparr>))"

definition variant_pivot :: "string \<Rightarrow> string \<Rightarrow> u64 \<Rightarrow> VariantManifold \<Rightarrow> VariantManifold \<times> PivotOutcome option" where
  "variant_pivot from to now_ms m =
     (case vm_active_commit m of None \<Rightarrow> (m, None)
      | Some current \<Rightarrow>
          if cm_variant_id current \<noteq> from then (m, None)
          else
            case bt_get (vm_variants m) to of None \<Rightarrow> (m, None)
            | Some next_variant \<Rightarrow>
                let elapsed = f32_div (f32_of_nat (unat (saturating_sub now_ms (cm_started_ms current)))) (f32_dec 1000 0);
                    inertia = f32_mul (f32_div (cm_accumulated_effort current) (variant_effort next_variant))
                                (f32_add f32_one (f32_mul elapsed (f32_dec 5 2)))
                in (m\<lparr>vm_active_commit := Some \<lparr>cm_variant_id = to, cm_started_ms = now_ms,
                        cm_accumulated_effort = variant_effort next_variant\<rparr>\<rparr>,
                    Some \<lparr>po_from = from, po_to = to, po_inertia = inertia\<rparr>))"

definition variant_defuse :: "string \<Rightarrow> f32 \<Rightarrow> VariantManifold \<Rightarrow> VariantManifold \<times> DefuseOutcome option" where
  "variant_defuse i reduction m =
     (case bt_get (vm_pendulums m) i of None \<Rightarrow> (m, None)
      | Some p \<Rightarrow>
          let drain = f32_max (f32_sub (pe_drain_rate p) reduction) f32_zero
          in (m\<lparr>vm_pendulums := bt_insert i (p\<lparr>pe_drain_rate := drain\<rparr>) (vm_pendulums m)\<rparr>,
              Some \<lparr>df_pendulum_id = i, df_previous_drain = pe_drain_rate p, df_new_drain = drain\<rparr>))"

section \<open>Ranking\<close>

type_synonym hash_order = "string list \<Rightarrow> string list"

text \<open>The values of a hash map in the order in which it is visited.\<close>

definition visit_values :: "hash_order \<Rightarrow> (string, 'v) btree_map \<Rightarrow> 'v list" where
  "visit_values order m = List.map_filter (bt_get m) (order (bt_keys m))"

definition pendulum_penalty :: "hash_order \<Rightarrow> VariantManifold \<Rightarrow> string list \<Rightarrow> f32" where
  "pendulum_penalty order m tokens =
     f32_min (f32_sum (map (\<lambda>p. penalty_for p tokens) (visit_values order (vm_pendulums m)))) (f32_dec 95 2)"

definition str_contains :: "string \<Rightarrow> string \<Rightarrow> bool" where
  "str_contains s t \<longleftrightarrow> list_ex (\<lambda>k. starts_with (drop k s) t) [0..<length s + 1]"

definition focus_score :: "(string \<Rightarrow> string) \<Rightarrow> Intention \<Rightarrow> Variant \<Rightarrow> f32 \<Rightarrow> f32" where
  "focus_score table i v start =
     (let weights = normalized_weights i
      in foldl (\<lambda>score (idx, token).
           if list_ex (\<lambda>hint. eq_ignore_ascii_case hint token) (va_path_hint v)
              \<or> str_contains (lowercase table (va_title v)) (lowercase table token)
           then f32_add score (if idx < length weights then weights ! idx else f32_zero) else score)
         start (List.enumerate 0 (in_focus_tokens i)))"

definition resonance_for :: "(string \<Rightarrow> string) \<Rightarrow> VariantManifold \<Rightarrow> Variant \<Rightarrow> f32" where
  "resonance_for table m v =
     (let score = (case va_resonance_hint v of None \<Rightarrow> f32_zero | Some r \<Rightarrow> r);
          score = (case vm_active_intention m of None \<Rightarrow> score | Some i \<Rightarrow> focus_score table i v score);
          score = (case Option.bind (vm_active_slide m) (bt_get (vm_slides m)) of None \<Rightarrow> score
                   | Some s \<Rightarrow> if va_id v \<in> set (sl_variant_ids s) then f32_add score (f32_dec 2 1) else score)
      in f32_clamp (f32_neg f32_one) f32_one score)"

definition variant_score :: "(f32 \<Rightarrow> f32) \<Rightarrow> (string \<Rightarrow> string) \<Rightarrow> hash_order \<Rightarrow> VariantManifold \<Rightarrow> Variant \<Rightarrow> VariantScore" where
  "variant_score exp table order m v =
     (let (probability, effort, score) = flow_score exp (vm_flow m) v (vm_active_intention m) (resonance_for table m v);
          penalty = pendulum_penalty order m (va_path_hint v);
          score = (if f32_gt penalty f32_zero then f32_mul score (f32_clamp f32_zero f32_one (f32_sub f32_one penalty)) else score)
      in \<lparr>vs_id = va_id v, vs_title = va_title v, vs_probability = probability, vs_effort = effort, vs_score = score,
          vs_evidence = va_evidence_score v, vs_risk = va_risk v, vs_expected_gain = va_expected_gain v\<rparr>)"

text \<open>The loop over the sorted scores: the length is compared with the limit after a score was taken.\<close>

fun rank_loop :: "nat option \<Rightarrow> f32 option \<Rightarrow> VariantScore list \<Rightarrow> VariantScore list \<Rightarrow> VariantScore list" where
  "rank_loop limit min_probability [] taken = taken"
| "rank_loop limit min_probability (item # rest) taken =
     (if (case min_probability of None \<Rightarrow> False | Some threshold \<Rightarrow> f32_lt (vs_probability item) threshold)
      then rank_loop limit min_probability rest taken
      else
        let taken = taken @ [item]
        in case limit of
             None \<Rightarrow> rank_loop limit min_probability rest taken
           | Some n \<Rightarrow> if n \<le> length taken then taken else rank_loop limit min_probability rest taken)"

definition rank_variants :: "(f32 \<Rightarrow> f32) \<Rightarrow> (string \<Rightarrow> string) \<Rightarrow> hash_order \<Rightarrow> nat option \<Rightarrow> f32 option \<Rightarrow> VariantManifold \<Rightarrow> VariantScore list" where
  "rank_variants exp table order limit min_probability m =
     (let items = map (variant_score exp table order m) (visit_values order (vm_variants m));
          items = sort_by (\<lambda>a b. f32_cmp_or_equal (vs_score b) (vs_score a)) items
      in rank_loop limit min_probability items [])"

section \<open>What the ranking returns\<close>

definition above :: "f32 option \<Rightarrow> VariantScore \<Rightarrow> bool" where
  "above min_probability s \<longleftrightarrow> (case min_probability of None \<Rightarrow> True | Some threshold \<Rightarrow> \<not> f32_lt (vs_probability s) threshold)"

text \<open>The loop takes the scores above the threshold, at most the limit of them, but one if the limit is
  zero.\<close>

lemma rank_loop_exact:
  "(case limit of None \<Rightarrow> True | Some n \<Rightarrow> length taken < max n 1) \<Longrightarrow>
   rank_loop limit min_probability items taken = taken @
     (case limit of None \<Rightarrow> filter (above min_probability) items
      | Some n \<Rightarrow> take (max n 1 - length taken) (filter (above min_probability) items))"
proof (induction items arbitrary: taken)
  case (Cons item items)
  show ?case
  proof (cases limit)
    case None
    then show ?thesis using Cons.IH by (auto simp: above_def split: option.splits)
  next
    case (Some n)
    then have len: "length taken < max n 1" using Cons.prems by simp
    show ?thesis
    proof (cases "above min_probability item")
      case True
      then have step: "rank_loop (Some n) min_probability (item # items) taken =
          (if n \<le> Suc (length taken) then taken @ [item] else rank_loop (Some n) min_probability items (taken @ [item]))"
        by (auto simp: above_def Let_def split: option.splits)
      show ?thesis using True Some Cons.IH [of "taken @ [item]"] len unfolding Some step by (auto simp: take_Cons')
    next
      case False
      then show ?thesis using Some Cons.IH [of taken] len by (auto simp: above_def split: option.splits)
    qed
  qed
qed (auto split: option.split)

lemma visit_values_set:
  assumes "\<And>xs. set (order xs) = set xs"
  shows "set (visit_values order m) = {v. \<exists>k. bt_get m k = Some v}"
  using assms by (force simp: visit_values_def List.map_filter_def bt_keys_iff)

end
