(* ===== verification/Symmetry.thy ===== *)
theory Symmetry
  imports Field_Events Variants
begin

text \<open>
  The symmetry loop, \<open>liminal-core/src/symmetry.rs\<close>, and the engine that runs it at an interval,
  \<open>reflex/legacy.rs\<close>: averages and the entropy of the tokens hit in a window, their change against a
  decaying memory, and the mirror impulse proposed when the change is large.  The natural logarithm is a
  parameter; so is the order in which the hash map of counts is visited.
\<close>

record Hit =
  ht_seq :: u64
  ht_ts :: u64
  ht_node :: u64
  ht_strength :: f32
  ht_latency_ms :: u32

datatype SymmetryStatus = SymOk | SymDrift | SymOverload

fun status_as_str :: "SymmetryStatus \<Rightarrow> string" where
  "status_as_str SymOk = ''ok''"
| "status_as_str SymDrift = ''drift''"
| "status_as_str SymOverload = ''overload''"

record MirrorImpulse =
  mi_kind :: string
  mi_pattern :: string
  mi_strength :: f32
  mi_timestamp_ms :: u64

record HarmonySnapshot =
  hs_metrics :: HarmonyMetrics
  hs_delta_strength :: f32
  hs_delta_latency :: f32
  hs_entropy_ratio :: f32
  hs_dominant_pattern :: "string option"
  hs_status :: SymmetryStatus
  hs_mirror :: "MirrorImpulse option"

record SymmetryLoop =
  sm_last :: HarmonyMetrics
  sm_decay :: f32
  sm_window_ms :: u32
  sm_current :: HarmonyMetrics
  sm_delta_strength :: f32
  sm_delta_latency :: f32
  sm_entropy_ratio :: f32
  sm_dominant_pattern :: "string option"
  sm_status :: SymmetryStatus
  sm_last_mirror :: "MirrorImpulse option"

definition symmetry_new :: "f32 \<Rightarrow> u32 \<Rightarrow> SymmetryLoop" where
  "symmetry_new decay window_ms =
     \<lparr>sm_last = harmony_metrics_default, sm_decay = f32_clamp f32_zero (f32_dec 999 3) decay, sm_window_ms = max window_ms 200,
      sm_current = harmony_metrics_default, sm_delta_strength = f32_zero, sm_delta_latency = f32_zero,
      sm_entropy_ratio = f32_zero, sm_dominant_pattern = None, sm_status = SymOk, sm_last_mirror = None\<rparr>"

section \<open>Entropy\<close>

definition count_items :: "string list \<Rightarrow> (string, nat) btree_map" where
  "count_items data = fold (\<lambda>item counts. bt_entry item 0 Suc counts) data []"

definition entropy_of :: "(f32 \<Rightarrow> f32) \<Rightarrow> hash_order \<Rightarrow> string list \<Rightarrow> f32" where
  "entropy_of ln order data =
     (if data = [] then f32_zero
      else
        let counts = count_items data;
            total_count = f32_of_nat (length data)
        in if f32_le total_count (F32 False (2 ^ 126)) then f32_zero
           else
             let entropy = foldl (\<lambda>e count. let p = f32_div (f32_of_nat count) total_count
                             in if f32_gt p f32_zero then f32_sub e (f32_mul p (ln p)) else e) f32_zero (visit_values order counts);
                 max_entropy = ln (f32_of_nat (length counts))
             in if f32_gt max_entropy f32_zero then f32_clamp f32_zero f32_one (f32_div entropy max_entropy) else f32_zero)"

section \<open>Updates\<close>

text \<open>The pattern whose count first exceeded all earlier counts, with the counts so far.\<close>

definition dominant_step :: "string \<Rightarrow> (string, nat) btree_map \<times> string option \<times> nat \<Rightarrow> (string, nat) btree_map \<times> string option \<times> nat" where
  "dominant_step pattern st =
     (let (hits, dominant, dominant_count) = st;
          hits = bt_entry pattern 0 Suc hits;
          n = (case bt_get hits pattern of None \<Rightarrow> 0 | Some n \<Rightarrow> n)
      in if dominant_count < n then (hits, Some pattern, n) else (hits, dominant, dominant_count))"

definition decay_metrics :: "f32 \<Rightarrow> HarmonyMetrics \<Rightarrow> HarmonyMetrics" where
  "decay_metrics decay m =
     \<lparr>hx_avg_strength = f32_mul (hx_avg_strength m) decay, hx_avg_latency = f32_mul (hx_avg_latency m) decay,
      hx_entropy = f32_mul (hx_entropy m) decay\<rparr>"

definition mix_metrics :: "f32 \<Rightarrow> HarmonyMetrics \<Rightarrow> HarmonyMetrics \<Rightarrow> HarmonyMetrics" where
  "mix_metrics decay old new =
     (let rest = f32_sub f32_one decay
      in \<lparr>hx_avg_strength = f32_add (f32_mul (hx_avg_strength old) decay) (f32_mul (hx_avg_strength new) rest),
          hx_avg_latency = f32_add (f32_mul (hx_avg_latency old) decay) (f32_mul (hx_avg_latency new) rest),
          hx_entropy = f32_add (f32_mul (hx_entropy old) decay) (f32_mul (hx_entropy new) rest)\<rparr>)"

definition status_of :: "f32 \<Rightarrow> f32 \<Rightarrow> SymmetryStatus" where
  "status_of entropy delta_strength =
     (if f32_gt entropy (f32_dec 85 2) \<or> f32_gt (f32_abs delta_strength) (f32_dec 35 2) then SymOverload
      else if f32_gt entropy (f32_dec 7 1) \<or> f32_gt (f32_abs delta_strength) (f32_dec 2 1) then SymDrift
      else SymOk)"

definition update_with_samples :: "(f32 \<Rightarrow> f32) \<Rightarrow> hash_order \<Rightarrow> u64 \<Rightarrow> (string \<times> Hit) list \<Rightarrow> SymmetryLoop \<Rightarrow> SymmetryLoop \<times> MirrorImpulse option" where
  "update_with_samples ln order now_ms samples s =
     (if samples = [] then
        (s\<lparr>sm_current := harmony_metrics_default, sm_delta_strength := f32_zero, sm_delta_latency := f32_zero,
           sm_entropy_ratio := f32_zero, sm_dominant_pattern := None, sm_status := SymOk, sm_last_mirror := None,
           sm_last := decay_metrics (sm_decay s) (sm_last s)\<rparr>, None)
      else
        let total_strength = foldl f32_add f32_zero (map (ht_strength \<circ> snd) samples);
            total_latency = foldl f32_add f32_zero (map (f32_of_nat \<circ> unat \<circ> ht_latency_ms \<circ> snd) samples);
            total_count = f32_of_nat (length samples);
            (_, dominant_pattern, _) = fold dominant_step (map fst samples) ([], None, 0);
            metrics = \<lparr>hx_avg_strength = f32_div total_strength total_count, hx_avg_latency = f32_div total_latency total_count,
                       hx_entropy = entropy_of ln order (map fst samples)\<rparr>;
            delta_strength = f32_sub (hx_avg_strength metrics) (hx_avg_strength (sm_last s));
            delta_latency = f32_sub (hx_avg_latency metrics) (hx_avg_latency (sm_last s));
            mirror = (if f32_gt (f32_abs delta_strength) (f32_dec 2 1) \<or> f32_gt (hx_entropy metrics) (f32_dec 7 1)
                      then Some \<lparr>mi_kind = ''mirror'', mi_pattern = (case dominant_pattern of None \<Rightarrow> ''*'' | Some p \<Rightarrow> p),
                                 mi_strength = f32_neg delta_strength, mi_timestamp_ms = now_ms\<rparr>
                      else None)
        in (s\<lparr>sm_current := metrics, sm_delta_strength := delta_strength, sm_delta_latency := delta_latency,
              sm_entropy_ratio := hx_entropy metrics, sm_dominant_pattern := dominant_pattern,
              sm_status := status_of (hx_entropy metrics) delta_strength, sm_last_mirror := mirror,
              sm_last := mix_metrics (sm_decay s) (sm_last s) metrics\<rparr>, mirror))"

definition symmetry_snapshot_of :: "SymmetryLoop \<Rightarrow> HarmonySnapshot" where
  "symmetry_snapshot_of s =
     \<lparr>hs_metrics = sm_current s, hs_delta_strength = sm_delta_strength s, hs_delta_latency = sm_delta_latency s,
      hs_entropy_ratio = sm_entropy_ratio s, hs_dominant_pattern = sm_dominant_pattern s, hs_status = sm_status s,
      hs_mirror = sm_last_mirror s\<rparr>"

definition symmetry_set_window :: "u32 \<Rightarrow> SymmetryLoop \<Rightarrow> SymmetryLoop" where
  "symmetry_set_window window_ms s = s\<lparr>sm_window_ms := max window_ms 200\<rparr>"

section \<open>The engine\<close>

record ReflexEngine =
  en_symmetry :: SymmetryLoop
  en_interval_ms :: u64
  en_accum_ms :: u64

definition reflex_engine_new :: "u64 \<Rightarrow> ReflexEngine" where
  "reflex_engine_new interval_ms =
     \<lparr>en_symmetry = symmetry_new (f32_dec 85 2) (ucast interval_ms), en_interval_ms = max interval_ms 200, en_accum_ms = 0\<rparr>"

text \<open>The line written to a local log file when a mirror impulse is proposed is left out.\<close>

definition engine_tick :: "(f32 \<Rightarrow> f32) \<Rightarrow> hash_order \<Rightarrow> u64 \<Rightarrow> u64 \<Rightarrow> (string \<times> Hit) list \<Rightarrow> ReflexEngine \<Rightarrow> ReflexEngine \<times> HarmonySnapshot option" where
  "engine_tick ln order now_ms dt_ms samples e =
     (let accum = saturating_add (en_accum_ms e) dt_ms
      in if accum < en_interval_ms e then (e\<lparr>en_accum_ms := accum\<rparr>, None)
         else
           let (sym, mirror) = update_with_samples ln order now_ms samples (en_symmetry e)
           in (e\<lparr>en_accum_ms := 0, en_symmetry := sym\<rparr>, Some ((symmetry_snapshot_of sym)\<lparr>hs_mirror := mirror\<rparr>)))"

definition engine_set_interval :: "u64 \<Rightarrow> ReflexEngine \<Rightarrow> ReflexEngine" where
  "engine_set_interval interval_ms e =
     (let interval = max interval_ms 200
      in e\<lparr>en_interval_ms := interval, en_symmetry := symmetry_set_window (ucast interval) (en_symmetry e)\<rparr>)"

section \<open>Laws\<close>

lemma count_items_get:
  "bt_get (count_items data) t = (if t \<in> set data then Some (length (filter (\<lambda>u. u = t) data)) else None)"
proof -
  have "bt_get (fold (\<lambda>item counts. bt_entry item 0 Suc counts) data m) t =
      (if t \<in> set data then Some ((case bt_get m t of None \<Rightarrow> 0 | Some n \<Rightarrow> n) + length (filter (\<lambda>u. u = t) data))
       else bt_get m t)" for m
    by (induction data arbitrary: m) (auto simp: filter_empty_conv split: option.split)
  then show ?thesis by (simp add: count_items_def)
qed

text \<open>A harmony report whose values are numbers comes with a mirror impulse exactly when its status is not
  \<open>Ok\<close>.\<close>

lemma mirror_iff_drift:
  assumes "engine_tick ln order now dt samples e = (e', Some snap)" "samples \<noteq> []"
  shows "(hs_mirror snap \<noteq> None) \<longleftrightarrow> hs_status snap \<noteq> SymOk"
proof -
  have gt: "f32_gt x (f32_dec 85 2) \<Longrightarrow> f32_gt x (f32_dec 7 1)" "f32_gt x (f32_dec 35 2) \<Longrightarrow> f32_gt x (f32_dec 2 1)" for x
    by (cases x; simp add: f32_gt_iff f32_literals f32_literals [unfolded One_nat_def] f32_int_def; force)+
  show ?thesis using assms gt
    by (auto simp: engine_tick_def update_with_samples_def symmetry_snapshot_of_def status_of_def Let_def split: if_splits prod.splits)
qed

end
