(* ===== verification/Field.thy ===== *)
theory Field
  imports Symmetry Seeds
begin

text \<open>
  The cluster field, \<open>liminal-core/src/cluster_field.rs\<close>: its state, the token index, the tracking of
  links and routes, the queues of hits and what a window query reads off them.  The journal is the list of
  deltas handed to it; without a journal nothing is recorded.  Lines of text returned for display are
  values of a type of log entries.  What the code takes from outside (the table of Unicode case mappings,
  random numbers, the exponential and logarithm, and the order in which hash maps are visited) is in an
  environment, which may be another one at every call.
\<close>

section \<open>The environment\<close>

record field_env =
  fe_lower :: "string \<Rightarrow> string"
  fe_rng :: "bytes \<Rightarrow> f32 \<times> f32 \<times> u32"
  fe_variation :: "u64 \<Rightarrow> f32"
  fe_exp :: "f32 \<Rightarrow> f32"
  fe_ln :: "f32 \<Rightarrow> f32"
  fe_ids :: "u64 list \<Rightarrow> u64 list"
  fe_tokens :: hash_order
  fe_pairs :: "(u64 \<times> u64) list \<Rightarrow> (u64 \<times> u64) list"

text \<open>A hash map is visited at each of its keys.\<close>

definition env_ok :: "field_env \<Rightarrow> bool" where
  "env_ok env \<longleftrightarrow> (\<forall>xs. set (fe_ids env xs) = set xs) \<and> (\<forall>xs. set (fe_tokens env xs) = set xs) \<and>
     (\<forall>xs. set (fe_pairs env xs) = set xs)"

section \<open>State\<close>

record RecentRoute =
  rt_ts :: u64
  rt_node :: u64
  rt_strength :: f32

record HarmonyTuning =
  hm_alpha :: f32
  hm_affinity_scale :: f32
  hm_metabolism_scale :: f32
  hm_sleep_delta :: f32

definition harmony_default :: HarmonyTuning where
  "harmony_default =
     \<lparr>hm_alpha = f32_dec 2 1, hm_affinity_scale = f32_one, hm_metabolism_scale = f32_one, hm_sleep_delta = f32_zero\<rparr>"

record NoradrenalineEffect =
  ne_until_ms :: u64
  ne_strength :: f32

record LinkStat =
  lk_hits :: u64
  lk_last_used_ms :: u64

record RouteStat =
  ru_hits :: u64
  ru_last_used_ms :: u64

record 'j ClusterField =
  cf_cells :: "(u64, NodeCell) btree_map"
  cf_index :: "(string, u64 list) btree_map"
  cf_now_ms :: u64
  cf_next_id :: u64
  cf_rules :: "(u64, ReflexRule) btree_map"
  cf_next_reflex_id :: u64
  cf_counters :: "(string \<times> ImpulseKind, (u64 \<times> f32) list) btree_map"
  cf_token_hits :: "(string, Hit list) btree_map"
  cf_journal :: "EventDelta list option"
  cf_ticks_since_impulse :: u64
  cf_link_usage :: "(u64 \<times> u64, LinkStat) btree_map"
  cf_link_scores :: "(u64 \<times> u64, f32) btree_map"
  cf_route_usage :: "(u64 \<times> u64, RouteStat) btree_map"
  cf_route_bias :: "(string \<times> u64, f32) btree_map"
  cf_recent_routes :: "(string, RecentRoute list) btree_map"
  cf_last_dream_ms :: u64
  cf_dream_cfg :: DreamConfig
  cf_dream_reports :: "(u64 \<times> DreamReport) list"
  cf_sync_cfg :: SyncConfig
  cf_sync_reports :: "(u64 \<times> SyncReport) list"
  cf_cached_resonant_model :: "ResonantModel option"
  cf_awakening_cfg :: AwakeningConfig
  cf_sync_log :: SyncLog
  cf_trs :: TrsState
  cf_last_awaken_tick :: u64
  cf_harmony :: HarmonyTuning
  cf_views :: ViewRegistry
  cf_next_hit_seq :: u64
  cf_view_tick_accum :: u64
  cf_reflex_engine :: ReflexEngine
  cf_reflex_feedback :: ReflexState
  cf_reflex_reports :: "ReflexReport list"
  cf_important_cells :: "u64 set"
  cf_noradrenaline :: "NoradrenalineEffect option"
  cf_mirror_epochs :: "Epoch list"
  cf_mirror_replays :: "ReplayReport list"
  cf_resonant_model :: ResonantModel
  cf_seed_garden :: "'j SeedGarden"
  cf_variant_layer :: VariantManifold

definition field_new :: "'j ClusterField" where
  "field_new =
     \<lparr>cf_cells = [], cf_index = [], cf_now_ms = 0, cf_next_id = 1, cf_rules = [], cf_next_reflex_id = 1,
      cf_counters = [], cf_token_hits = [], cf_journal = None, cf_ticks_since_impulse = 0,
      cf_link_usage = [], cf_link_scores = [], cf_route_usage = [], cf_route_bias = [], cf_recent_routes = [],
      cf_last_dream_ms = 0, cf_dream_cfg = dream_config_default, cf_dream_reports = [],
      cf_sync_cfg = sync_config_default, cf_sync_reports = [], cf_cached_resonant_model = None,
      cf_awakening_cfg = awakening_config_default, cf_sync_log = sync_log_new, cf_trs = trs_default,
      cf_last_awaken_tick = 0, cf_harmony = harmony_default, cf_views = view_registry_new, cf_next_hit_seq = 1,
      cf_view_tick_accum = 0, cf_reflex_engine = reflex_engine_new 2000,
      cf_reflex_feedback = reflex_state_new reflex_cfg_default, cf_reflex_reports = [], cf_important_cells = {},
      cf_noradrenaline = None, cf_mirror_epochs = [], cf_mirror_replays = [],
      cf_resonant_model = resonant_model_default, cf_seed_garden = garden_default,
      cf_variant_layer = manifold_default\<rparr>"

definition emit :: "EventDelta \<Rightarrow> 'j ClusterField \<Rightarrow> 'j ClusterField" where
  "emit delta f = (case cf_journal f of None \<Rightarrow> f | Some deltas \<Rightarrow> f\<lparr>cf_journal := Some (deltas @ [delta])\<rparr>)"

definition emit_all :: "EventDelta list \<Rightarrow> 'j ClusterField \<Rightarrow> 'j ClusterField" where
  "emit_all deltas f = fold emit deltas f"

definition set_journal :: "'j ClusterField \<Rightarrow> 'j ClusterField" where
  "set_journal f = f\<lparr>cf_journal := Some []\<rparr>"

definition get_cell :: "'j ClusterField \<Rightarrow> u64 \<Rightarrow> NodeCell option" where
  "get_cell f i = bt_get (cf_cells f) i"

definition set_cell :: "u64 \<Rightarrow> NodeCell \<Rightarrow> 'j ClusterField \<Rightarrow> 'j ClusterField" where
  "set_cell i c f = f\<lparr>cf_cells := bt_insert i c (cf_cells f)\<rparr>"

definition cell_ids :: "field_env \<Rightarrow> 'j ClusterField \<Rightarrow> u64 list" where
  "cell_ids env f = fe_ids env (bt_keys (cf_cells f))"

text \<open>The delta that records the energy of a cell.\<close>

definition energy_delta :: "u64 \<Rightarrow> NodeCell \<Rightarrow> EventDelta" where
  "energy_delta i c =
     EvEnergy \<lparr>ed_id = i, ed_energy = nc_energy c, ed_metabolism = nc_metabolism c, ed_state = nc_state c,
               ed_last_response_ms = nc_last_response_ms c\<rparr>"

section \<open>The index of tokens and the tracking of links\<close>

definition update_index_for :: "field_env \<Rightarrow> u64 \<Rightarrow> 'j ClusterField \<Rightarrow> 'j ClusterField" where
  "update_index_for env i f =
     (case get_cell f i of None \<Rightarrow> f
      | Some c \<Rightarrow>
          let index = bt_map_values (\<lambda>_ ids. filter (\<lambda>existing. existing \<noteq> i) ids) (cf_index f)
          in f\<lparr>cf_index := fold (\<lambda>token m. bt_entry token [] (\<lambda>ids. ids @ [i]) m)
                 (tokenize (fe_lower env) (sp_core_pattern (nc_seed c))) index\<rparr>)"

definition register_link :: "u64 \<Rightarrow> u64 \<Rightarrow> 'j ClusterField \<Rightarrow> 'j ClusterField" where
  "register_link from to f =
     f\<lparr>cf_link_usage := bt_entry (from, to) \<lparr>lk_hits = 0, lk_last_used_ms = cf_now_ms f\<rparr> id (cf_link_usage f),
       cf_link_scores := bt_entry (from, to) f32_one id (cf_link_scores f)\<rparr>"

definition unregister_link :: "u64 \<Rightarrow> u64 \<Rightarrow> 'j ClusterField \<Rightarrow> 'j ClusterField" where
  "unregister_link from to f =
     f\<lparr>cf_link_usage := bt_remove (from, to) (cf_link_usage f), cf_link_scores := bt_remove (from, to) (cf_link_scores f)\<rparr>"

definition ensure_link_tracking :: "u64 \<Rightarrow> 'j ClusterField \<Rightarrow> 'j ClusterField" where
  "ensure_link_tracking i f =
     (case get_cell f i of None \<Rightarrow> f
      | Some c \<Rightarrow> fold (register_link i) (sorted_list_of_set (nc_links c)) f)"

definition attach_cell :: "field_env \<Rightarrow> NodeCell \<Rightarrow> 'j ClusterField \<Rightarrow> 'j ClusterField" where
  "attach_cell env c f = ensure_link_tracking (nc_id c) (update_index_for env (nc_id c) (set_cell (nc_id c) c f))"

definition rebuild_index :: "field_env \<Rightarrow> 'j ClusterField \<Rightarrow> 'j ClusterField" where
  "rebuild_index env f =
     fold (\<lambda>i f. ensure_link_tracking i (update_index_for env i f)) (cell_ids env f) (f\<lparr>cf_index := []\<rparr>)"

definition record_link_hit :: "u64 \<Rightarrow> u64 \<Rightarrow> 'j ClusterField \<Rightarrow> 'j ClusterField" where
  "record_link_hit from to f =
     f\<lparr>cf_link_usage := bt_entry (from, to) \<lparr>lk_hits = 0, lk_last_used_ms = 0\<rparr>
         (\<lambda>s. s\<lparr>lk_hits := saturating_add (lk_hits s) 1, lk_last_used_ms := cf_now_ms f\<rparr>) (cf_link_usage f)\<rparr>"

text \<open>\<open>Iterator::min_by\<close> keeps the first of equal elements.\<close>

definition route_le :: "(u64 \<times> u64, RouteStat) btree_map \<Rightarrow> u64 \<times> u64 \<Rightarrow> u64 \<times> u64 \<Rightarrow> bool" where
  "route_le m k l \<longleftrightarrow>
     (case (bt_get m k, bt_get m l) of
        (Some a, Some b) \<Rightarrow> ru_hits a < ru_hits b \<or> ru_hits a = ru_hits b \<and> ru_last_used_ms a \<le> ru_last_used_ms b
      | _ \<Rightarrow> True)"

fun min_route :: "(u64 \<times> u64, RouteStat) btree_map \<Rightarrow> (u64 \<times> u64) list \<Rightarrow> (u64 \<times> u64) option" where
  "min_route m [] = None"
| "min_route m (k # ks) = Some (fold (\<lambda>l best. if route_le m best l then best else l) ks k)"

definition record_route_pair :: "field_env \<Rightarrow> u64 \<Rightarrow> u64 \<Rightarrow> 'j ClusterField \<Rightarrow> 'j ClusterField" where
  "record_route_pair env from to f =
     (let usage = bt_entry (from, to) \<lparr>ru_hits = 0, ru_last_used_ms = 0\<rparr>
            (\<lambda>s. s\<lparr>ru_hits := saturating_add (ru_hits s) 1, ru_last_used_ms := cf_now_ms f\<rparr>) (cf_route_usage f)
      in f\<lparr>cf_route_usage :=
             (if 2048 < length usage
              then (case min_route usage (fe_pairs env (bt_keys usage)) of None \<Rightarrow> usage | Some k \<Rightarrow> bt_remove k usage)
              else usage)\<rparr>)"

definition purge_tracking_for :: "u64 \<Rightarrow> 'j ClusterField \<Rightarrow> 'j ClusterField" where
  "purge_tracking_for i f =
     f\<lparr>cf_link_usage := bt_retain (\<lambda>(from, to) _. from \<noteq> i \<and> to \<noteq> i) (cf_link_usage f),
       cf_route_usage := bt_retain (\<lambda>(from, to) _. from \<noteq> i \<and> to \<noteq> i) (cf_route_usage f),
       cf_link_scores := bt_retain (\<lambda>(from, to) _. from \<noteq> i \<and> to \<noteq> i) (cf_link_scores f)\<rparr>"

fun record_route_sequence :: "field_env \<Rightarrow> u64 list \<Rightarrow> 'j ClusterField \<Rightarrow> 'j ClusterField" where
  "record_route_sequence env (from # to # rest) f =
     (let f = (case get_cell f from of None \<Rightarrow> f
               | Some c \<Rightarrow> if to \<in> nc_links c then record_link_hit from to f else f)
      in record_route_sequence env (to # rest) (record_route_pair env from to f))"
| "record_route_sequence env _ f = f"

definition link_score :: "'j ClusterField \<Rightarrow> u64 \<Rightarrow> u64 \<Rightarrow> f32" where
  "link_score f from to = (case bt_get (cf_link_scores f) (from, to) of None \<Rightarrow> f32_one | Some s \<Rightarrow> s)"

text \<open>\<open>f32::EPSILON\<close>.\<close>

definition f32_epsilon :: f32 where
  "f32_epsilon = F32 False (2 ^ 126)"

definition adjust_link_score :: "u64 \<Rightarrow> u64 \<Rightarrow> f32 \<Rightarrow> 'j ClusterField \<Rightarrow> 'j ClusterField \<times> bool" where
  "adjust_link_score from to delta f =
     (case get_cell f from of None \<Rightarrow> (f, False)
      | Some c \<Rightarrow>
          if to \<notin> nc_links c then (f, False)
          else
            let entry = link_score f from to;
                updated = f32_clamp (f32_dec 2 1) (f32_dec 3 0) (f32_add entry delta)
            in (f\<lparr>cf_link_scores := bt_insert (from, to) updated (cf_link_scores f)\<rparr>,
                f32_gt (f32_abs (f32_sub updated entry)) f32_epsilon))"

definition prune_link :: "u64 \<Rightarrow> u64 \<Rightarrow> 'j ClusterField \<Rightarrow> 'j ClusterField \<times> bool" where
  "prune_link from to f =
     (case get_cell f from of None \<Rightarrow> (f, False)
      | Some c \<Rightarrow>
          if to \<in> nc_links c
          then (emit (EvUnlink from to) (unregister_link from to (set_cell from (c\<lparr>nc_links := nc_links c - {to}\<rparr>) f)), True)
          else (f, False))"

text \<open>The cell nearest in affinity, the first in the order of the visit among equals.\<close>

definition nearer :: "'j ClusterField \<Rightarrow> u64 \<Rightarrow> f32 \<Rightarrow> u64 set \<Rightarrow> u64 \<Rightarrow> (u64 \<times> f32) option \<Rightarrow> (u64 \<times> f32) option" where
  "nearer f i affinity existing j best =
     (case get_cell f j of None \<Rightarrow> best
      | Some c \<Rightarrow>
          if j = i \<or> j \<in> existing then best
          else
            let distance = f32_abs (f32_sub (nc_affinity c) affinity)
            in case best of None \<Rightarrow> Some (j, distance)
               | Some (k, current) \<Rightarrow> if f32_lt distance current then Some (j, distance) else best)"

definition rewire_lonely :: "field_env \<Rightarrow> u64 \<Rightarrow> 'j ClusterField \<Rightarrow> 'j ClusterField \<times> u32 option" where
  "rewire_lonely env i f =
     (case get_cell f i of None \<Rightarrow> (f, None)
      | Some c \<Rightarrow>
          if nc_links c \<noteq> {} then (f, Some 0)
          else
            case fold (nearer f i (nc_affinity c) (nc_links c)) (cell_ids env f) None of
              None \<Rightarrow> (f, Some 0)
            | Some (j, _) \<Rightarrow>
                if j \<in> nc_links c then (f, Some 0)
                else
                  (emit (EvDreamRewire i j) (emit (EvLink i j)
                    (register_link i j (set_cell i (c\<lparr>nc_links := insert j (nc_links c)\<rparr>) f))), Some 1))"

section \<open>Hits and window queries\<close>

definition record_token_hit :: "field_env \<Rightarrow> string \<Rightarrow> u64 \<Rightarrow> f32 \<Rightarrow> u32 \<Rightarrow> 'j ClusterField \<Rightarrow> 'j ClusterField" where
  "record_token_hit env token node strength latency_ms f =
     (let normalized = lowercase (fe_lower env) token;
          hit = \<lparr>ht_seq = cf_next_hit_seq f, ht_ts = cf_now_ms f, ht_node = node, ht_strength = strength, ht_latency_ms = latency_ms\<rparr>;
          expire = dropWhile (\<lambda>front. 120000 < saturating_sub (cf_now_ms f) (ht_ts front));
          bound = (\<lambda>q. drop (length q - 512) q)
      in f\<lparr>cf_next_hit_seq := saturating_add (cf_next_hit_seq f) 1,
           cf_token_hits := bt_entry normalized [] (\<lambda>q. bound (expire (q @ [hit]))) (cf_token_hits f)\<rparr>)"

definition recent_for :: "field_env \<Rightarrow> 'j ClusterField \<Rightarrow> string \<Rightarrow> u32 \<Rightarrow> Hit list" where
  "recent_for env f token window_ms =
     (case bt_get (cf_token_hits f) (lowercase (fe_lower env) token) of None \<Rightarrow> []
      | Some queue \<Rightarrow>
          let cutoff = saturating_sub (cf_now_ms f) (ucast window_ms)
          in rev (takeWhile (\<lambda>hit. cutoff \<le> ht_ts hit) (rev queue)))"

definition apply_filters :: "'j ClusterField \<Rightarrow> ViewFilter \<Rightarrow> Hit list \<Rightarrow> Hit list" where
  "apply_filters f flt hits =
     (let hits = (case vf_min_strength flt of None \<Rightarrow> hits
            | Some min_strength \<Rightarrow> filter (\<lambda>h. f32_ge (ht_strength h) min_strength) hits);
          hits = (case vf_min_salience flt of None \<Rightarrow> hits
            | Some min_salience \<Rightarrow> filter (\<lambda>h. case get_cell f (ht_node h) of None \<Rightarrow> False
                | Some c \<Rightarrow> f32_ge (nc_salience c) min_salience) hits)
      in case vf_adreno flt of None \<Rightarrow> hits
         | Some adreno \<Rightarrow> filter (\<lambda>h. case get_cell f (ht_node h) of None \<Rightarrow> False | Some c \<Rightarrow> nc_adreno_tag c = adreno) hits)"

definition add_unseen :: "Hit \<Rightarrow> Hit list \<times> u64 set \<Rightarrow> Hit list \<times> u64 set" where
  "add_unseen hit st =
     (let (combined, seen) = st
      in if ht_seq hit \<in> seen then (combined, seen) else (combined @ [hit], insert (ht_seq hit) seen))"

definition gather_hits_for_pattern :: "field_env \<Rightarrow> 'j ClusterField \<Rightarrow> string \<Rightarrow> u32 \<Rightarrow> Hit list" where
  "gather_hits_for_pattern env f pattern window_ms =
     (let hits = concat (map (\<lambda>token. recent_for env f token window_ms) (tokenize (fe_lower env) pattern))
      in sort_key ht_ts (fst (fold add_unseen hits ([], {}))))"

definition top_node_cmp :: "u64 \<times> u32 \<Rightarrow> u64 \<times> u32 \<Rightarrow> Ordering" where
  "top_node_cmp a b = (case cmp (snd b) (snd a) of Equal \<Rightarrow> cmp (fst a) (fst b) | o1 \<Rightarrow> o1)"

definition stats_from_hits :: "'j ClusterField \<Rightarrow> Hit list \<Rightarrow> ViewStats" where
  "stats_from_hits f hits =
     (if hits = [] then view_stats_default
      else
        let count = word_of_nat (length hits) :: u32;
            total_strength = f32_sum (map ht_strength hits);
            total_latency = f32_sum (map (f32_of_nat \<circ> unat \<circ> ht_latency_ms) hits);
            emotional_hits = f32_of_nat (length (filter (\<lambda>h. case get_cell f (ht_node h) of None \<Rightarrow> False | Some c \<Rightarrow> nc_adreno_tag c) hits));
            node_counts = fold (\<lambda>h m. bt_entry (ht_node h) 0 (\<lambda>n. n + 1) m) hits [];
            top_nodes = take 3 (map (\<lambda>(i, n). \<lparr>nh_id = i, nh_hits = n\<rparr>) (sort_by top_node_cmp node_counts));
            n = f32_of_nat (unat count)
        in \<lparr>vs_count = count, vs_avg_strength = f32_clamp f32_zero f32_one (f32_div total_strength n),
            vs_avg_latency = f32_div total_latency n, vs_top_nodes = top_nodes,
            vs_emotional_load = (if count = 0 then f32_zero else f32_clamp f32_zero f32_one (f32_div emotional_hits n))\<rparr>)"

definition stats_for_pattern :: "field_env \<Rightarrow> 'j ClusterField \<Rightarrow> string \<Rightarrow> u32 \<Rightarrow> ViewFilter \<Rightarrow> ViewStats" where
  "stats_for_pattern env f pattern window_ms flt =
     stats_from_hits f (apply_filters f flt (gather_hits_for_pattern env f pattern (max window_ms 1)))"

definition symmetry_samples :: "field_env \<Rightarrow> 'j ClusterField \<Rightarrow> u32 \<Rightarrow> (string \<times> Hit) list" where
  "symmetry_samples env f window_ms =
     (let cutoff = saturating_sub (cf_now_ms f) (ucast window_ms)
      in concat (map (\<lambda>token. case bt_get (cf_token_hits f) token of None \<Rightarrow> []
           | Some queue \<Rightarrow> map (Pair token) (takeWhile (\<lambda>hit. cutoff \<le> ht_ts hit) (rev queue)))
         (fe_tokens env (bt_keys (cf_token_hits f)))))"

section \<open>Hormones, salience and affinity\<close>

definition noradrenaline_active :: "'j ClusterField \<Rightarrow> NoradrenalineEffect option" where
  "noradrenaline_active f =
     (case cf_noradrenaline f of None \<Rightarrow> None | Some e \<Rightarrow> if cf_now_ms f < ne_until_ms e then Some e else None)"

definition affinity_scale_for :: "'j ClusterField \<Rightarrow> NodeCell \<Rightarrow> f32" where
  "affinity_scale_for f c =
     (let scale = hm_affinity_scale (cf_harmony f)
      in if nc_adreno_tag c
         then (case noradrenaline_active f of None \<Rightarrow> scale
               | Some e \<Rightarrow> f32_mul scale (f32_add f32_one (f32_mul (f32_dec 25 2) (ne_strength e))))
         else scale)"

definition refresh_important_cells :: "'j ClusterField \<Rightarrow> 'j ClusterField" where
  "refresh_important_cells f =
     f\<lparr>cf_important_cells := set (map fst (filter (\<lambda>(i, c). f32_ge (nc_salience c) (f32_dec 7 1)
         \<and> saturating_sub (cf_now_ms f) (nc_last_recall_ms c) \<le> 10000) (cf_cells f)))\<rparr>"

definition apply_dampening :: "u64 \<Rightarrow> f32 \<Rightarrow> u64 \<Rightarrow> 'j ClusterField \<Rightarrow> 'j ClusterField" where
  "apply_dampening now_ms strength ttl_ms f =
     f\<lparr>cf_noradrenaline := Some \<lparr>ne_until_ms = saturating_add now_ms ttl_ms, ne_strength = f32_clamp f32_zero f32_one strength\<rparr>\<rparr>"

definition drain_route_bias :: "f32 \<Rightarrow> 'j ClusterField \<Rightarrow> 'j ClusterField" where
  "drain_route_bias factor f =
     (let decay = f32_clamp f32_zero f32_one (f32_sub f32_one factor)
      in f\<lparr>cf_route_bias := bt_map_values (\<lambda>_ v. f32_mul v decay) (cf_route_bias f)\<rparr>)"

end
