(* ===== verification/Field_Routing.thy ===== *)
theory Field_Routing
  imports Field
begin

text \<open>
  Reflex rules and the routing of impulses, \<open>cluster_field.rs\<close>: an impulse first fires the rules it
  matches, then reaches the three best cells, and what they answer is recorded in the routes, the hits and
  the journal.
\<close>

section \<open>Log entries\<close>

datatype FieldLog =
    LogHormone f32 u64
  | LogAstroTag bool
  | LogReflexFire u64 u16
  | LogReflexHint u64 Hint
  | LogReflexSpawn u64 u64 string f32
  | LogReflexWake u64 u16 u16
  | LogReflexBoost u64 u16 f32 u16
  | LogResponse string
  | LogSalience u64 f32 f32
  | LogDivide u64 u64 f32 f32
  | LogSleep u64
  | LogDead u64
  | LogView View ViewStats
  | LogHarmony HarmonySnapshot
  | LogSeed SeedLog

section \<open>Adding cells and rules\<close>

definition add_root :: "field_env \<Rightarrow> string \<Rightarrow> 'j ClusterField \<Rightarrow> 'j ClusterField \<times> u64" where
  "add_root env seed f =
     (let params = create_seed (fe_rng env) seed;
          i = cf_next_id f;
          c = from_seed_params i params;
          f = attach_cell env c (f\<lparr>cf_next_id := i + 1\<rparr>)
      in (case get_cell f i of None \<Rightarrow> f | Some c \<Rightarrow> emit (EvSpawn (cell_snapshot c)) f, i))"

definition add_reflex :: "field_env \<Rightarrow> ReflexRule \<Rightarrow> 'j ClusterField \<Rightarrow> 'j ClusterField \<times> u64" where
  "add_reflex env rule f =
     (let i = (if rl_id rule = 0 then cf_next_reflex_id f else rl_id rule);
          next_id = (if rl_id rule = 0 then cf_next_reflex_id f + 1 else max (cf_next_reflex_id f) (rl_id rule + 1));
          w = rl_when rule;
          rule = rule\<lparr>rl_id := i, rl_when := w\<lparr>rw_token := lowercase (fe_lower env) (trim (rw_token w)),
                   rw_min_strength := f32_clamp f32_zero f32_one (rw_min_strength w)\<rparr>\<rparr>
      in (emit (EvReflexAdd rule) (f\<lparr>cf_next_reflex_id := next_id, cf_rules := bt_insert i rule (cf_rules f)\<rparr>), i))"

definition remove_reflex :: "u64 \<Rightarrow> 'j ClusterField \<Rightarrow> 'j ClusterField \<times> bool" where
  "remove_reflex i f =
     (let removed = bt_contains_key (cf_rules f) i;
          f = f\<lparr>cf_rules := bt_remove i (cf_rules f)\<rparr>
      in (if removed then emit (EvReflexRemove i) f else f, removed))"

definition list_reflex :: "'j ClusterField \<Rightarrow> ReflexRule list" where
  "list_reflex f = sort_key rl_id (bt_values (cf_rules f))"

section \<open>What a rule does\<close>

definition perform_spawn_seed :: "field_env \<Rightarrow> u64 \<Rightarrow> string \<Rightarrow> f32 \<Rightarrow> 'j ClusterField \<Rightarrow> 'j ClusterField \<times> FieldLog list" where
  "perform_spawn_seed env rule_id seed affinity_shift f =
     (let params = create_seed (fe_rng env) seed;
          params = params\<lparr>sp_affinity := f32_clamp f32_zero f32_one (f32_add (sp_affinity params) affinity_shift)\<rparr>;
          new_id = cf_next_id f;
          c = from_seed_params new_id params;
          c = c\<lparr>nc_affinity := f32_clamp f32_zero f32_one (nc_affinity c)\<rparr>;
          c = c\<lparr>nc_seed := (nc_seed c)\<lparr>sp_affinity := nc_affinity c\<rparr>\<rparr>;
          f = attach_cell env c (f\<lparr>cf_next_id := new_id + 1\<rparr>)
      in (emit (EvSpawn (cell_snapshot c)) f, [LogReflexSpawn rule_id new_id seed affinity_shift]))"

definition wake_priority :: "field_env \<Rightarrow> NodeCell \<Rightarrow> string \<Rightarrow> f32" where
  "wake_priority env c token =
     (if lowercase (fe_lower env) token \<in> set (tokenize (fe_lower env) (sp_core_pattern (nc_seed c))) then f32_zero
      else f32_add (f32_abs (f32_sub (nc_affinity c) (f32_dec 5 1))) (f32_dec 5 1))"

definition wake_cell :: "u64 \<Rightarrow> 'j ClusterField \<times> u16 \<Rightarrow> 'j ClusterField \<times> u16" where
  "wake_cell i st =
     (let (f, woke) = st in
      case get_cell f i of None \<Rightarrow> (f, woke)
      | Some c \<Rightarrow>
          if nc_state c \<noteq> Sleep then (f, woke)
          else
            let c = c\<lparr>nc_state := Idle, nc_energy := f32_max (nc_energy c) (f32_dec 3 1), nc_last_response_ms := cf_now_ms f\<rparr>
            in (emit (energy_delta i c) (set_cell i c f), if woke = - 1 then woke else woke + 1))"

definition perform_wake_sleeping :: "field_env \<Rightarrow> u64 \<Rightarrow> u16 \<Rightarrow> string \<Rightarrow> 'j ClusterField \<Rightarrow> 'j ClusterField \<times> FieldLog list" where
  "perform_wake_sleeping env rule_id requested token f =
     (if requested = 0 then (f, [])
      else
        let sleeping = List.map_filter (\<lambda>i. case get_cell f i of None \<Rightarrow> None
              | Some c \<Rightarrow> if nc_state c = Sleep then Some (wake_priority env c token, i) else None) (cell_ids env f);
            sleeping = sort_by (\<lambda>a b. f32_cmp_or_equal (fst a) (fst b)) sleeping;
            (f, woke) = fold wake_cell (map snd (take (unat requested) sleeping)) (f, 0)
        in (f, [LogReflexWake rule_id requested woke]))"

definition count_nodes :: "u64 list \<Rightarrow> (u64, u32) btree_map" where
  "count_nodes nodes = fold (\<lambda>i m. bt_entry i 0 (\<lambda>n. n + 1) m) nodes []"

definition boost_cmp :: "u64 \<times> u32 \<Rightarrow> u64 \<times> u32 \<Rightarrow> Ordering" where
  "boost_cmp a b = (case cmp (snd b) (snd a) of Equal \<Rightarrow> cmp (fst b) (fst a) | o1 \<Rightarrow> o1)"

definition boost_bias :: "string \<Rightarrow> f32 \<Rightarrow> u64 \<Rightarrow> (string \<times> u64, f32) btree_map \<Rightarrow> (string \<times> u64, f32) btree_map" where
  "boost_bias token factor i m =
     bt_entry (token, i) f32_one
       (\<lambda>e. f32_clamp (f32_dec 2 1) (f32_dec 5 0) (f32_mul e (f32_clamp (f32_dec 1 1) (f32_dec 3 0) factor))) m"

definition perform_boost_links :: "field_env \<Rightarrow> u64 \<Rightarrow> string \<Rightarrow> f32 \<Rightarrow> u16 \<Rightarrow> 'j ClusterField \<Rightarrow> 'j ClusterField \<times> FieldLog list" where
  "perform_boost_links env rule_id token factor top_n f =
     (if top_n = 0 then (f, [LogReflexBoost rule_id top_n factor 0])
      else
        let normalized = lowercase (fe_lower env) token;
            f = f\<lparr>cf_recent_routes := bt_entry normalized [] id (cf_recent_routes f)\<rparr>;
            history = (case bt_get (cf_recent_routes f) normalized of None \<Rightarrow> [] | Some h \<Rightarrow> h);
            ranked = take (unat top_n) (sort_by boost_cmp (count_nodes (map rt_node (take 64 (rev history)))))
        in (f\<lparr>cf_route_bias := fold (boost_bias normalized factor) (map fst ranked) (cf_route_bias f)\<rparr>,
            [LogReflexBoost rule_id top_n factor (word_of_nat (length ranked))]))"

definition fire_reflex :: "field_env \<Rightarrow> ReflexRule \<Rightarrow> u16 \<Rightarrow> string \<Rightarrow> 'j ClusterField \<Rightarrow> 'j ClusterField \<times> FieldLog list" where
  "fire_reflex env rule matched token f =
     (let f = emit (EvReflexFire \<lparr>rf_id = rl_id rule, rf_at_ms = cf_now_ms f, rf_matched = matched\<rparr>) f;
          (f, logs) =
            (case rl_then rule of
               EmitHint hint \<Rightarrow> (f, [LogReflexHint (rl_id rule) hint])
             | SpawnSeed seed affinity_shift \<Rightarrow> perform_spawn_seed env (rl_id rule) seed affinity_shift f
             | WakeSleeping requested \<Rightarrow> perform_wake_sleeping env (rl_id rule) requested token f
             | BoostLinks factor top_n \<Rightarrow> perform_boost_links env (rl_id rule) token factor top_n f)
      in (f, LogReflexFire (rl_id rule) matched # logs))"

section \<open>Matching rules\<close>

definition reflex_token_matches :: "field_env \<Rightarrow> string \<Rightarrow> string \<Rightarrow> bool" where
  "reflex_token_matches env rule_token token \<longleftrightarrow> rule_token = token \<or> token \<in> set (tokenize (fe_lower env) rule_token)"

definition relevant_rules :: "field_env \<Rightarrow> 'j ClusterField \<Rightarrow> string \<Rightarrow> ImpulseKind \<Rightarrow> ReflexRule list" where
  "relevant_rules env f token kind =
     filter (\<lambda>rule. rl_enabled rule \<and> rw_kind (rl_when rule) = kind \<and> reflex_token_matches env (rw_token (rl_when rule)) token)
       (List.map_filter (bt_get (cf_rules f)) (fe_ids env (bt_keys (cf_rules f))))"

definition counter_retention :: "ReflexRule list \<Rightarrow> u64" where
  "counter_retention rules =
     max (case rules of [] \<Rightarrow> 2000 | _ \<Rightarrow> ucast (fold max (map (rw_window_ms \<circ> rl_when) rules) 0)) 1"

definition push_counter :: "u64 \<Rightarrow> u64 \<Rightarrow> f32 \<Rightarrow> (u64 \<times> f32) list \<Rightarrow> (u64 \<times> f32) list" where
  "push_counter now_ms retention strength queue =
     (let queue = dropWhile (\<lambda>(ts, _). retention < saturating_sub now_ms ts) (queue @ [(now_ms, strength)])
      in drop (length queue - 256) queue)"

definition rule_matches :: "u64 \<Rightarrow> (u64 \<times> f32) list \<Rightarrow> ReflexRule \<Rightarrow> u16" where
  "rule_matches now_ms queue rule =
     word_of_nat (length (filter (\<lambda>(ts, strength). saturating_sub now_ms ts \<le> ucast (rw_window_ms (rl_when rule))
       \<and> f32_ge strength (rw_min_strength (rl_when rule))) queue))"

definition fire_pending :: "field_env \<Rightarrow> string \<Rightarrow> ReflexRule \<times> u16 \<Rightarrow> 'j ClusterField \<times> FieldLog list \<times> u64 set \<Rightarrow> 'j ClusterField \<times> FieldLog list \<times> u64 set" where
  "fire_pending env token p st =
     (let (f, logs, fired) = st; (f, more_logs) = fire_reflex env (fst p) (snd p) token f
      in (f, logs @ more_logs, insert (rl_id (fst p)) fired))"

definition process_reflex_for :: "field_env \<Rightarrow> Impulse \<Rightarrow> string \<Rightarrow> 'j ClusterField \<times> FieldLog list \<times> u64 set \<Rightarrow> 'j ClusterField \<times> FieldLog list \<times> u64 set" where
  "process_reflex_for env imp token st =
     (let (f, logs, fired) = st;
          normalized = lowercase (fe_lower env) token;
          rules = relevant_rules env f normalized (im_kind imp);
          key = (normalized, im_kind imp);
          f = f\<lparr>cf_counters := bt_entry key [] (push_counter (cf_now_ms f) (counter_retention rules) (im_strength imp)) (cf_counters f)\<rparr>
      in if rules = [] then (f, logs, fired)
         else
           case bt_get (cf_counters f) key of None \<Rightarrow> (f, logs, fired)
           | Some queue \<Rightarrow>
               let pending = List.map_filter (\<lambda>rule. let matched = rule_matches (cf_now_ms f) queue rule
                     in if rl_id rule \<in> fired then None
                        else if rw_min_count (rl_when rule) \<le> matched then Some (rule, matched) else None) rules
               in fold (fire_pending env normalized) pending (f, logs, fired))"

section \<open>Routing\<close>

definition score_cell :: "NodeCell \<Rightarrow> Impulse \<Rightarrow> f32 \<Rightarrow> f32" where
  "score_cell c imp affinity_scale =
     (let match_score = f32_sub f32_one (f32_abs (f32_sub (nc_affinity c) (im_strength imp)));
          affinity_score = (if f32_gt match_score (f32_dec 6 1)
            then f32_mul match_score (f32_clamp (f32_dec 5 1) (f32_dec 15 1) affinity_scale) else match_score);
          state_bonus = (case nc_state c of Active \<Rightarrow> f32_dec 2 1 | Idle \<Rightarrow> f32_zero
            | Sleep \<Rightarrow> f32_neg (f32_dec 4 1) | Dead \<Rightarrow> f32_neg f32_one)
      in f32_add affinity_score state_bonus)"

text \<open>The elements of a list, each at its first occurrence.\<close>

definition first_seen :: "'a list \<Rightarrow> 'a list" where
  "first_seen xs = rev (remdups (rev xs))"

lemma set_first_seen [simp]: "set (first_seen xs) = set xs"
  by (simp add: first_seen_def)

text \<open>The identifiers the index gives for the tokens, each once; all cells if there are none.\<close>

definition route_candidates :: "field_env \<Rightarrow> string list \<Rightarrow> 'j ClusterField \<Rightarrow> u64 list" where
  "route_candidates env tokens f =
     (let ids = first_seen (concat (map (\<lambda>token. case bt_get (cf_index f) token of None \<Rightarrow> [] | Some ids \<Rightarrow> ids) tokens))
      in fe_ids env (if ids = [] then bt_keys (cf_cells f) else ids))"

definition best_bias :: "string list \<Rightarrow> u64 \<Rightarrow> 'j ClusterField \<Rightarrow> f32" where
  "best_bias tokens i f =
     fold (\<lambda>token best. case bt_get (cf_route_bias f) (token, i) of None \<Rightarrow> best
       | Some bias \<Rightarrow> if f32_gt bias best then bias else best) tokens f32_one"

definition scored_candidates :: "field_env \<Rightarrow> Impulse \<Rightarrow> string list \<Rightarrow> 'j ClusterField \<Rightarrow> (f32 \<times> u64) list" where
  "scored_candidates env imp tokens f =
     sort_by (\<lambda>a b. f32_cmp_or_equal (fst b) (fst a))
       (List.map_filter (\<lambda>i. map_option (\<lambda>c. (f32_mul (score_cell c imp (affinity_scale_for f c)) (best_bias tokens i f), i)) (get_cell f i))
         (route_candidates env tokens f))"

record 'j routing =
  ro_field :: "'j ClusterField"
  ro_logs :: "FieldLog list"
  ro_deltas :: "EventDelta list"
  ro_responded :: "(u64 \<times> u32) list"

definition u64_min_u32 :: "u64 \<Rightarrow> u32" where
  "u64_min_u32 n = word_of_nat (min (unat n) (2 ^ 32 - 1))"

definition deliver :: "field_env \<Rightarrow> Impulse \<Rightarrow> u64 \<Rightarrow> 'j routing \<Rightarrow> 'j routing" where
  "deliver env imp i r =
     (let f = ro_field r in
      case get_cell f i of None \<Rightarrow> r
      | Some c \<Rightarrow>
          let before_salience = nc_salience c; previous = nc_last_response_ms c;
              (c, answer) = ingest (fe_lower env) imp (cf_now_ms f) c
          in case answer of
               None \<Rightarrow> r\<lparr>ro_field := set_cell i c f\<rparr>
             | Some response \<Rightarrow>
                 let c = c\<lparr>nc_last_response_ms := cf_now_ms f\<rparr>;
                     salience_log = (if f32_gt (f32_abs (f32_sub (nc_salience c) before_salience)) f32_epsilon
                       then [LogSalience i before_salience (nc_salience c)] else [])
                 in \<lparr>ro_field = set_cell i c f, ro_logs = ro_logs r @ [LogResponse response] @ salience_log,
                     ro_deltas = ro_deltas r @ [energy_delta i c],
                     ro_responded = ro_responded r @ [(i, u64_min_u32 (saturating_sub (cf_now_ms f) previous))]\<rparr>)"

definition push_routes :: "Impulse \<Rightarrow> u64 list \<Rightarrow> string \<Rightarrow> 'j ClusterField \<Rightarrow> 'j ClusterField" where
  "push_routes imp nodes token f =
     f\<lparr>cf_recent_routes := bt_entry token [] (\<lambda>history.
         let history = history @ map (\<lambda>i. \<lparr>rt_ts = cf_now_ms f, rt_node = i, rt_strength = im_strength imp\<rparr>) nodes;
             history = dropWhile (\<lambda>front. 90000 < saturating_sub (cf_now_ms f) (rt_ts front)) history
         in drop (length history - 96) history) (cf_recent_routes f)\<rparr>"

definition push_hits :: "field_env \<Rightarrow> Impulse \<Rightarrow> (u64 \<times> u32) list \<Rightarrow> string \<Rightarrow> 'j ClusterField \<Rightarrow> 'j ClusterField" where
  "push_hits env imp responded token f =
     fold (\<lambda>(node, latency) f. record_token_hit env token node (im_strength imp) latency f) responded f"

definition hormone_impulse :: "Impulse \<Rightarrow> 'j ClusterField \<Rightarrow> 'j ClusterField \<times> FieldLog list" where
  "hormone_impulse imp f =
     (if im_pattern imp = ''affect/noradrenaline''
      then (apply_dampening (cf_now_ms f) (im_strength imp) (im_ttl_ms imp) f, [LogHormone (im_strength imp) (im_ttl_ms imp), LogAstroTag True])
      else (f, []))"

definition route_impulse :: "field_env \<Rightarrow> Impulse \<Rightarrow> 'j ClusterField \<Rightarrow> 'j ClusterField \<times> FieldLog list" where
  "route_impulse env imp f =
     (let tokens = tokenize (fe_lower env) (im_pattern imp);
          (f, logs) = hormone_impulse imp f;
          (f, logs, _) = fold (process_reflex_for env imp) (first_seen tokens) (f, logs, {});
          best = take 3 (map snd (scored_candidates env imp tokens f));
          r = fold (deliver env imp) best \<lparr>ro_field = f, ro_logs = logs, ro_deltas = [], ro_responded = []\<rparr>;
          nodes = map fst (ro_responded r);
          seen = fe_tokens env (first_seen tokens);
          f = record_route_sequence env nodes (ro_field r);
          f = fold (push_routes imp nodes) seen f;
          f = (if ro_responded r = [] then f else fold (push_hits env imp (ro_responded r)) seen f)
      in (emit_all (ro_deltas r) (f\<lparr>cf_ticks_since_impulse := 0\<rparr>), ro_logs r))"

end
