(* ===== verification/Field_Tick.thy ===== *)
theory Field_Tick
  imports Field_Routing
begin

text \<open>
  The passage of time in the field, \<open>cluster_field.rs\<close>: a tick ages and divides the cells, puts them to
  sleep and removes the dead, then refreshes views, symmetry, seeds and the resonant model; trimming and
  budding; the outputs of the regulator and of the reflex loop.  Random choices are arguments.
\<close>

section \<open>Ageing\<close>

definition sleep_shift_for :: "NoradrenalineEffect option \<Rightarrow> f32 \<Rightarrow> NodeCell \<Rightarrow> f32" where
  "sleep_shift_for hormone base_sleep c =
     (if nc_adreno_tag c
      then (case hormone of None \<Rightarrow> base_sleep
            | Some e \<Rightarrow> f32_clamp (f32_neg (f32_dec 4 1)) (f32_dec 2 1) (f32_sub base_sleep (f32_mul (f32_dec 2 1) (ne_strength e))))
      else base_sleep)"

definition age_cell :: "u64 \<Rightarrow> NoradrenalineEffect option \<Rightarrow> u64 \<Rightarrow> 'j ClusterField \<times> EventDelta list \<Rightarrow> 'j ClusterField \<times> EventDelta list" where
  "age_cell dt_ms hormone i st =
     (let (f, pending) = st in
      case get_cell f i of None \<Rightarrow> (f, pending)
      | Some c \<Rightarrow>
          let h = cf_harmony f;
              c = drift_affinity (hm_alpha h) (cell_tick dt_ms (hm_metabolism_scale h) (sleep_shift_for hormone (hm_sleep_delta h) c) c)
          in (set_cell i c f, pending @ [energy_delta i c]))"

section \<open>Division\<close>

record 'j dividing =
  dv_field :: "'j ClusterField"
  dv_pending :: "EventDelta list"
  dv_logs :: "FieldLog list"
  dv_new :: "(u64 \<times> NodeCell) list"

definition divide_cell :: "field_env \<Rightarrow> u64 \<Rightarrow> 'j dividing \<Rightarrow> 'j dividing" where
  "divide_cell env i d =
     (let f = dv_field d in
      case get_cell f i of None \<Rightarrow> d
      | Some parent \<Rightarrow>
          (case maybe_divide (fe_variation env i) parent of
             (_, None) \<Rightarrow> d
           | (c, Some child) \<Rightarrow>
               let new_id = cf_next_id f;
                   child = child\<lparr>nc_id := new_id,
                     nc_seed := (nc_seed child)\<lparr>sp_core_pattern := sp_core_pattern (nc_seed child) @ '':n'' @ dec_digits (unat new_id)\<rparr>,
                     nc_last_response_ms := cf_now_ms f\<rparr>
               in \<lparr>dv_field = (set_cell i c f)\<lparr>cf_next_id := new_id + 1\<rparr>,
                   dv_pending = dv_pending d @ [EvAffinity i (nc_affinity c), energy_delta i c],
                   dv_logs = dv_logs d @ [LogDivide i new_id (nc_affinity parent) (nc_affinity child)],
                   dv_new = dv_new d @ [(i, child)]\<rparr>))"

definition link_child :: "field_env \<Rightarrow> u64 \<times> NodeCell \<Rightarrow> 'j ClusterField \<times> EventDelta list \<Rightarrow> 'j ClusterField \<times> EventDelta list" where
  "link_child env p st =
     (let (f, pending) = st; (parent, child) = p;
          (f, pending) =
            (case get_cell f parent of None \<Rightarrow> (f, pending)
             | Some c \<Rightarrow>
                 if nc_id child \<in> nc_links c then (f, pending)
                 else (register_link parent (nc_id child) (set_cell parent (c\<lparr>nc_links := insert (nc_id child) (nc_links c)\<rparr>) f),
                       pending @ [EvLink parent (nc_id child)]))
      in (attach_cell env child f, pending @ [EvDivide parent (cell_snapshot child)]))"

section \<open>Sleep and death\<close>

record 'j resting =
  rs_field :: "'j ClusterField"
  rs_pending :: "EventDelta list"
  rs_logs :: "FieldLog list"
  rs_needs_reindex :: bool
  rs_purge :: "u64 list"

definition rest_cell :: "NoradrenalineEffect option \<Rightarrow> u64 \<Rightarrow> 'j resting \<Rightarrow> 'j resting" where
  "rest_cell hormone i r =
     (let f = rs_field r in
      case get_cell f i of None \<Rightarrow> r
      | Some prev \<Rightarrow>
          let (c, died) = maybe_sleep_or_die (cf_now_ms f) (sleep_shift_for hormone (hm_sleep_delta (cf_harmony f)) prev) prev;
              sleeps = nc_state prev \<noteq> Sleep \<and> nc_state c = Sleep;
              dies = died \<and> nc_state prev \<noteq> Dead
          in \<lparr>rs_field = set_cell i c f,
              rs_pending = rs_pending r @ (if sleeps then [EvSleep i] else []) @ (if dies then [EvDead i] else []) @ [energy_delta i c],
              rs_logs = rs_logs r @ (if sleeps then [LogSleep i] else []) @ (if dies then [LogDead i] else []),
              rs_needs_reindex = rs_needs_reindex r \<or> dies,
              rs_purge = rs_purge r @ (if dies then [i] else [])\<rparr>)"

definition remove_dead :: "'j ClusterField \<Rightarrow> 'j ClusterField" where
  "remove_dead f = f\<lparr>cf_cells := bt_retain (\<lambda>_ c. nc_state c \<noteq> Dead) (cf_cells f)\<rparr>"

section \<open>The tick\<close>

text \<open>The loop over elapsed half seconds; the fuel is the number of its rounds.\<close>

primrec view_loop :: "field_env \<Rightarrow> nat \<Rightarrow> 'j ClusterField \<times> FieldLog list \<Rightarrow> 'j ClusterField \<times> FieldLog list" where
  "view_loop env 0 st = st"
| "view_loop env (Suc n) st =
     (let (f, logs) = st in
      if cf_view_tick_accum f < 500 then (f, logs)
      else
        let f = f\<lparr>cf_view_tick_accum := cf_view_tick_accum f - 500\<rparr>;
            (views, due) = take_due (fe_ids env (bt_keys (vr_views (cf_views f)))) (cf_now_ms f) (cf_views f);
            f = f\<lparr>cf_views := views\<rparr>
        in view_loop env n (f, logs @ map (\<lambda>v. LogView v (stats_for_pattern env f (vw_pattern v) (vw_window_ms v) (vw_filter v))) due))"

definition tick_views :: "field_env \<Rightarrow> u64 \<Rightarrow> 'j ClusterField \<Rightarrow> 'j ClusterField \<times> FieldLog list" where
  "tick_views env dt_ms f =
     (let f = f\<lparr>cf_view_tick_accum := saturating_add (cf_view_tick_accum f) dt_ms\<rparr>
      in view_loop env (unat (cf_view_tick_accum f) div 500) (f, []))"

definition tick_symmetry :: "field_env \<Rightarrow> u64 \<Rightarrow> 'j ClusterField \<Rightarrow> 'j ClusterField \<times> FieldLog list" where
  "tick_symmetry env dt_ms f =
     (let samples = symmetry_samples env f (sm_window_ms (en_symmetry (cf_reflex_engine f)));
          (engine, snapshot) = engine_tick (fe_ln env) (fe_tokens env) (cf_now_ms f) dt_ms samples (cf_reflex_engine f)
      in (f\<lparr>cf_reflex_engine := engine\<rparr>, case snapshot of None \<Rightarrow> [] | Some s \<Rightarrow> [LogHarmony s]))"

definition tick_seed_garden :: "field_env \<Rightarrow> 'j ClusterField \<Rightarrow> 'j ClusterField \<times> FieldLog list" where
  "tick_seed_garden env f =
     (let garden = tick_garden (fe_ids env (bt_keys (gd_seeds (cf_seed_garden f)))) (cf_now_ms f) (cf_seed_garden f)
      in (f\<lparr>cf_seed_garden := garden\<rparr>, map LogSeed (gd_recent garden)))"

definition awaken_tick :: "'j ClusterField \<Rightarrow> 'j ClusterField" where
  "awaken_tick f =
     emit (EvAwakenTick (rm_last_applied (cf_resonant_model f)) (cf_now_ms f))
       (f\<lparr>cf_last_awaken_tick := cf_now_ms f, cf_sync_log := record_tick (cf_now_ms f) (cf_sync_log f)\<rparr>)"

definition hormone_fades :: "'j ClusterField \<Rightarrow> 'j ClusterField \<times> FieldLog list" where
  "hormone_fades f =
     (case cf_noradrenaline f of None \<Rightarrow> (f, [])
      | Some e \<Rightarrow> if ne_until_ms e \<le> cf_now_ms f then (f\<lparr>cf_noradrenaline := None\<rparr>, [LogAstroTag False]) else (f, []))"

text \<open>The part of the tick that changes cells, up to the deltas it leaves pending.\<close>

definition tick_cells :: "field_env \<Rightarrow> u64 \<Rightarrow> 'j ClusterField \<Rightarrow> 'j resting" where
  "tick_cells env dt_ms f =
     (let ids = cell_ids env f;
          hormone = noradrenaline_active f;
          (f, pending) = fold (age_cell dt_ms hormone) ids (f, []);
          (f, logs) = hormone_fades f;
          d = fold (divide_cell env) ids \<lparr>dv_field = f, dv_pending = pending, dv_logs = logs, dv_new = []\<rparr>;
          (f, pending) = fold (link_child env) (dv_new d) (dv_field d, dv_pending d)
      in fold (rest_cell hormone) ids
           \<lparr>rs_field = f, rs_pending = pending, rs_logs = dv_logs d, rs_needs_reindex = False, rs_purge = []\<rparr>)"

definition tick_all :: "field_env \<Rightarrow> u64 \<Rightarrow> 'j ClusterField \<Rightarrow> 'j ClusterField \<times> FieldLog list" where
  "tick_all env dt_ms f =
     (let f = f\<lparr>cf_now_ms := saturating_add (cf_now_ms f) dt_ms\<rparr>;
          f = emit (EvTick (cf_now_ms f)) f;
          r = tick_cells env dt_ms f;
          before_trim = length (cf_cells (rs_field r));
          f = remove_dead (rs_field r);
          f = (if rs_needs_reindex r \<or> length (cf_cells f) \<noteq> before_trim then rebuild_index env f else f);
          f = fold purge_tracking_for (rs_purge r) f;
          f = refresh_important_cells f;
          f = f\<lparr>cf_ticks_since_impulse := saturating_add (cf_ticks_since_impulse f) 1\<rparr>;
          f = emit_all (rs_pending r) f;
          (f, view_logs) = tick_views env dt_ms f;
          (f, harmony_logs) = tick_symmetry env dt_ms f;
          (f, seed_logs) = tick_seed_garden env f
      in (awaken_tick f, rs_logs r @ view_logs @ harmony_logs @ seed_logs))"

section \<open>Trimming and budding\<close>

definition trim_protected :: "NodeCell \<Rightarrow> bool" where
  "trim_protected c \<longleftrightarrow> nc_adreno_tag c \<or> f32_ge (nc_salience c) (f32_dec 7 1)"

text \<open>The two random choices are given for each cell.\<close>

definition fade_cell :: "u64 \<Rightarrow> (u64 \<Rightarrow> bool \<times> bool) \<Rightarrow> u64 \<Rightarrow> NodeCell \<Rightarrow> NodeCell" where
  "fade_cell now_ms coins i c =
     (if trim_protected c then c
      else if f32_lt (nc_salience c) (f32_dec 2 1) \<and> 60000 < saturating_sub now_ms (nc_last_recall_ms c) \<and> fst (coins i)
      then
        let c = (if nc_state c = Active then c\<lparr>nc_state := Sleep\<rparr> else c)
        in if f32_lt (nc_energy c) (f32_dec 5 2) \<and> snd (coins i) then c\<lparr>nc_state := Dead\<rparr> else c
      else c)"

definition trim_victim :: "NodeCell \<Rightarrow> bool" where
  "trim_victim c \<longleftrightarrow> \<not> trim_protected c \<and> (f32_le (nc_energy c) (f32_dec 1 1) \<or> nc_state c = Dead)"

definition trim_keeps :: "NodeCell \<Rightarrow> bool" where
  "trim_keeps c \<longleftrightarrow>
     (if trim_protected c then nc_state c \<noteq> Dead else f32_gt (nc_energy c) (f32_dec 1 1) \<and> nc_state c \<noteq> Dead)"

definition trim_low_energy :: "field_env \<Rightarrow> (u64 \<Rightarrow> bool \<times> bool) \<Rightarrow> 'j ClusterField \<Rightarrow> 'j ClusterField" where
  "trim_low_energy env coins f =
     (let before = length (cf_cells f);
          f = f\<lparr>cf_cells := bt_map_values (fade_cell (cf_now_ms f) coins) (cf_cells f)\<rparr>;
          victims = filter (\<lambda>i. case get_cell f i of None \<Rightarrow> False | Some c \<Rightarrow> trim_victim c) (cell_ids env f);
          f = f\<lparr>cf_cells := bt_retain (\<lambda>_. trim_keeps) (cf_cells f)\<rparr>;
          f = (if length (cf_cells f) \<noteq> before then rebuild_index env f else f);
          f = fold (\<lambda>i f. purge_tracking_for i (emit (EvDead i) f)) victims f
      in refresh_important_cells f)"

definition bud_link :: "u64 \<Rightarrow> (u64 \<Rightarrow> bool) \<Rightarrow> u64 \<Rightarrow> 'j ClusterField \<times> (u64 \<times> u64) list \<Rightarrow> 'j ClusterField \<times> (u64 \<times> u64) list" where
  "bud_link i coin j st =
     (let (f, links) = st in
      case get_cell f j of None \<Rightarrow> (f, links)
      | Some other \<Rightarrow>
          if nc_id other \<noteq> i \<and> coin j \<and> i \<notin> nc_links other
          then (set_cell j (other\<lparr>nc_links := insert i (nc_links other)\<rparr>) f, links @ [(nc_id other, i)])
          else (f, links))"

definition inject_seed_variation :: "field_env \<Rightarrow> f32 \<Rightarrow> f32 \<Rightarrow> (u64 \<Rightarrow> bool) \<Rightarrow> string \<Rightarrow> 'j ClusterField \<Rightarrow> 'j ClusterField" where
  "inject_seed_variation env jitter extra_energy coin base_seed f =
     (if 64 < length (cf_cells f) then f
      else
        let params = create_seed (fe_rng env) base_seed;
            i = cf_next_id f;
            affinity = f32_clamp f32_zero f32_one (f32_add (sp_affinity params) jitter);
            c = (from_seed_params i params)\<lparr>nc_affinity := affinity,
                  nc_seed := params\<lparr>sp_affinity := affinity, sp_core_pattern := sp_core_pattern params @ '':bud'' @ dec_digits (unat i)\<rparr>,
                  nc_energy := f32_add (f32_dec 5 1) extra_energy, nc_last_response_ms := cf_now_ms f\<rparr>;
            f = emit (EvSpawn (cell_snapshot c)) (attach_cell env c (f\<lparr>cf_next_id := i + 1\<rparr>));
            (f, links) = fold (bud_link i coin) (cell_ids env f) (f, []);
            f = emit_all (map (\<lambda>(from, to). EvLink from to) links) f
        in fold (\<lambda>(from, to). register_link from to) links f)"

section \<open>Regulator and reflex loop\<close>

definition set_trs_config :: "TrsConfig \<Rightarrow> 'j ClusterField \<Rightarrow> 'j ClusterField" where
  "set_trs_config cfg f =
     (let trs = trs_apply_config cfg (cf_trs f)
      in emit (EvTrsSet cfg) (f\<lparr>cf_trs := trs, cf_harmony := (cf_harmony f)\<lparr>hm_alpha := trs_alpha trs\<rparr>\<rparr>))"

definition set_trs_target :: "f32 \<Rightarrow> 'j ClusterField \<Rightarrow> 'j ClusterField" where
  "set_trs_target target f =
     (let trs = trs_set_target target (cf_trs f)
      in emit (EvTrsTarget (trs_target_load trs)) (f\<lparr>cf_trs := trs\<rparr>))"

definition apply_trs_output :: "u64 \<Rightarrow> f32 \<Rightarrow> TrsOutput \<Rightarrow> 'j ClusterField \<Rightarrow> 'j ClusterField" where
  "apply_trs_output now_ms observed_load out f =
     (let h = \<lparr>hm_alpha = f32_clamp (f32_dec 5 2) (f32_dec 95 2) (to_alpha_new out),
               hm_affinity_scale = f32_clamp (f32_dec 7 1) (f32_dec 135 2) (to_affinity_scale out),
               hm_metabolism_scale = f32_clamp (f32_dec 5 1) (f32_dec 15 1) (to_metabolism_scale out),
               hm_sleep_delta = f32_clamp (f32_neg (f32_dec 2 1)) (f32_dec 2 1) (to_sleep_threshold_delta out)\<rparr>;
          f = f\<lparr>cf_harmony := h\<rparr>;
          f = emit (EvTrsTrace \<lparr>tt_now_ms = now_ms, tt_observed_load = observed_load, tt_error = trs_last_err (cf_trs f),
                tt_tick_adjust_ms = to_tick_adjust_ms out, tt_alpha = hm_alpha h\<rparr>) f
      in emit (EvTrsHarmony \<lparr>th_alpha = hm_alpha h, th_affinity_scale = hm_affinity_scale h,
            th_metabolism_scale = hm_metabolism_scale h, th_sleep_delta = hm_sleep_delta h\<rparr>) f)"

definition apply_action :: "u64 \<Rightarrow> Action \<Rightarrow> 'j ClusterField \<Rightarrow> 'j ClusterField" where
  "apply_action now_ms action f =
     (case action of
        MicroPivot _ step \<Rightarrow>
          f\<lparr>cf_trs := trs_set_target (f32_clamp (f32_dec 2 1) (f32_dec 95 2)
             (f32_add (trs_target_load (cf_trs f)) (f32_clamp (f32_neg (f32_dec 2 1)) (f32_dec 2 1) step))) (cf_trs f)\<rparr>
      | DefuseAction _ \<Rightarrow> drain_route_bias (f32_dec 1 1) f
      | Dampening ttl_ms factor \<Rightarrow> apply_dampening now_ms factor ttl_ms f
      | TargetShift load_delta \<Rightarrow>
          f\<lparr>cf_trs := trs_set_target (f32_clamp (f32_dec 2 1) (f32_dec 95 2) (f32_add (trs_target_load (cf_trs f)) load_delta)) (cf_trs f)\<rparr>)"

text \<open>The order of the visit of the biases decides between equal ones.\<close>

definition reflex_neighbors :: "((string \<times> u64) list \<Rightarrow> (string \<times> u64) list) \<Rightarrow> 'j ClusterField \<Rightarrow> (string \<times> f32) list" where
  "reflex_neighbors order f =
     List.map_filter (\<lambda>k. map_option (Pair (fst k)) (bt_get (cf_route_bias f) k)) (order (bt_keys (cf_route_bias f)))"

definition record_reflex_snapshot :: "((string \<times> u64) list \<Rightarrow> (string \<times> u64) list) \<Rightarrow> ReflexSnapshot \<Rightarrow> 'j ClusterField \<Rightarrow> 'j ClusterField \<times> ReflexReport option" where
  "record_reflex_snapshot order snapshot f =
     (let fb = rx_push_snapshot snapshot (cf_reflex_feedback f);
          ctx = \<lparr>cx_cfg = rx_cfg fb, cx_slo_latency_ms = f32_dec 320 0, cx_neighbors = reflex_neighbors order f, cx_now_ms = cf_now_ms f\<rparr>;
          (fb, report) = next_report ctx fb;
          f = f\<lparr>cf_reflex_feedback := fb\<rparr>
      in case report of None \<Rightarrow> (f, None)
         | Some r \<Rightarrow>
             let f = (case rr_action r of None \<Rightarrow> f
                   | Some action \<Rightarrow>
                       let f = apply_action (cf_now_ms f) action f
                       in f\<lparr>cf_reflex_feedback := rx_record_action (action_kind action) (cf_now_ms f)
                              (cooldown_for action (rx_cfg (cf_reflex_feedback f))) (cf_reflex_feedback f)\<rparr>);
                 reports = cf_reflex_reports f @ [r]
             in (f\<lparr>cf_reflex_reports := drop (length reports - 128) reports\<rparr>, Some r))"

end
