(* ===== verification/Field_Replay.thy ===== *)
theory Field_Replay
  imports Field_Tick
begin

text \<open>
  Replay of the journal, \<open>apply_delta\<close> of \<open>cluster_field.rs\<close>, and that it rebuilds the cells: a relation
  between a replayed field and the live one that every operation keeps, and that a tick makes exact.
\<close>

section \<open>Applying a delta\<close>

definition snapshot_to_node :: "CellSnapshot \<Rightarrow> NodeCell" where
  "snapshot_to_node s =
     (from_seed_params (cs_id s) \<lparr>sp_affinity = cs_seed_affinity s, sp_base_metabolism = cs_seed_metabolism s, sp_core_pattern = cs_core_pattern s\<rparr>)
       \<lparr>nc_links := cs_links s, nc_metabolism := cs_metabolism s, nc_affinity := cs_affinity s,
        nc_last_response_ms := cs_last_response_ms s, nc_energy := cs_energy s, nc_state := cs_state s,
        nc_salience := cs_salience s, nc_adreno_tag := cs_adreno_tag s, nc_last_recall_ms := cs_last_recall_ms s\<rparr>"

definition update_cell :: "u64 \<Rightarrow> (NodeCell \<Rightarrow> NodeCell) \<Rightarrow> 'j ClusterField \<Rightarrow> 'j ClusterField" where
  "update_cell i g f = f\<lparr>cf_cells := bt_update i g (cf_cells f)\<rparr>"

definition add_link :: "u64 \<Rightarrow> u64 \<Rightarrow> 'j ClusterField \<Rightarrow> 'j ClusterField" where
  "add_link from to f =
     (case get_cell f from of None \<Rightarrow> f
      | Some c \<Rightarrow>
          if to \<in> nc_links c then f
          else register_link from to (set_cell from (c\<lparr>nc_links := insert to (nc_links c)\<rparr>) f))"

definition drop_link :: "u64 \<Rightarrow> u64 \<Rightarrow> 'j ClusterField \<Rightarrow> 'j ClusterField" where
  "drop_link from to f =
     (case get_cell f from of None \<Rightarrow> f
      | Some c \<Rightarrow>
          if to \<in> nc_links c then unregister_link from to (set_cell from (c\<lparr>nc_links := nc_links c - {to}\<rparr>) f)
          else f)"

definition push_bounded :: "nat \<Rightarrow> 'a \<Rightarrow> 'a list \<Rightarrow> 'a list" where
  "push_bounded limit x xs = (let ys = xs @ [x] in drop (length ys - limit) ys)"

fun apply_delta :: "field_env \<Rightarrow> EventDelta \<Rightarrow> 'j ClusterField \<Rightarrow> 'j ClusterField" where
  "apply_delta env (EvTick now_ms) f = f\<lparr>cf_now_ms := now_ms, cf_ticks_since_impulse := 0\<rparr>"
| "apply_delta env (EvSpawn s) f =
     (let f = attach_cell env (snapshot_to_node s) f in f\<lparr>cf_next_id := max (cf_next_id f) (cs_id s + 1)\<rparr>)"
| "apply_delta env (EvDivide parent s) f =
     (let f = attach_cell env (snapshot_to_node s) (add_link parent (cs_id s) f)
      in f\<lparr>cf_next_id := max (cf_next_id f) (cs_id s + 1)\<rparr>)"
| "apply_delta env (EvSleep i) f = update_cell i (\<lambda>c. c\<lparr>nc_state := Sleep\<rparr>) f"
| "apply_delta env (EvDead i) f =
     purge_tracking_for i (rebuild_index env (f\<lparr>cf_cells := bt_remove i (cf_cells f)\<rparr>))"
| "apply_delta env (EvLink from to) f = add_link from to f"
| "apply_delta env (EvUnlink from to) f = drop_link from to f"
| "apply_delta env (EvAffinity i a) f =
     update_cell i (\<lambda>c. c\<lparr>nc_affinity := a, nc_seed := (nc_seed c)\<lparr>sp_affinity := a\<rparr>\<rparr>) f"
| "apply_delta env (EvEnergy d) f =
     update_cell (ed_id d) (\<lambda>c. c\<lparr>nc_energy := ed_energy d, nc_metabolism := ed_metabolism d, nc_state := ed_state d,
       nc_last_response_ms := ed_last_response_ms d\<rparr>) f"
| "apply_delta env (EvReflexAdd rule) f =
     (let w = rl_when rule;
          rule = rule\<lparr>rl_when := w\<lparr>rw_token := lowercase (fe_lower env) (rw_token w)\<rparr>\<rparr>
      in f\<lparr>cf_next_reflex_id := max (cf_next_reflex_id f) (rl_id rule + 1), cf_rules := bt_insert (rl_id rule) rule (cf_rules f)\<rparr>)"
| "apply_delta env (EvReflexRemove i) f = f\<lparr>cf_rules := bt_remove i (cf_rules f)\<rparr>"
| "apply_delta env (EvReflexFire fire) f = f"
| "apply_delta env (EvTrsSet cfg) f =
     (let trs = trs_apply_config cfg (cf_trs f)
      in f\<lparr>cf_trs := trs, cf_harmony := (cf_harmony f)\<lparr>hm_alpha := trs_alpha trs\<rparr>\<rparr>)"
| "apply_delta env (EvTrsTarget target) f = f\<lparr>cf_trs := trs_set_target target (cf_trs f)\<rparr>"
| "apply_delta env (EvTrsTrace t) f =
     f\<lparr>cf_trs := (cf_trs f)\<lparr>trs_last_err := tt_error t, trs_last_ts := tt_now_ms t\<rparr>,
       cf_harmony := (cf_harmony f)\<lparr>hm_alpha := tt_alpha t\<rparr>\<rparr>"
| "apply_delta env (EvTrsHarmony h) f =
     f\<lparr>cf_harmony := \<lparr>hm_alpha = th_alpha h, hm_affinity_scale = th_affinity_scale h,
         hm_metabolism_scale = th_metabolism_scale h, hm_sleep_delta = th_sleep_delta h\<rparr>\<rparr>"
| "apply_delta env (EvDreamConfig cfg) f = f\<lparr>cf_dream_cfg := cfg\<rparr>"
| "apply_delta env (EvSyncConfig cfg) f = f\<lparr>cf_sync_cfg := cfg\<rparr>"
| "apply_delta env (EvDreamStrengthen d) f =
     f\<lparr>cf_link_scores := bt_insert (de_from d, de_to d) (de_score d) (cf_link_scores f)\<rparr>"
| "apply_delta env (EvDreamWeaken d) f =
     f\<lparr>cf_link_scores := bt_insert (de_from d, de_to d) (de_score d) (cf_link_scores f)\<rparr>"
| "apply_delta env (EvDreamPrune from to) f =
     unregister_link from to (update_cell from (\<lambda>c. c\<lparr>nc_links := nc_links c - {to}\<rparr>) f)"
| "apply_delta env (EvDreamRewire from to) f = add_link from to f"
| "apply_delta env (EvDreamReport now_ms report) f =
     f\<lparr>cf_dream_reports := push_bounded 16 (now_ms, report) (cf_dream_reports f), cf_last_dream_ms := now_ms\<rparr>"
| "apply_delta env (EvSyncShare node token bias) f =
     f\<lparr>cf_route_bias := bt_insert (lowercase (fe_lower env) token, node) bias (cf_route_bias f)\<rparr>"
| "apply_delta env (EvSyncAlign from to score) f = f\<lparr>cf_link_scores := bt_insert (from, to) score (cf_link_scores f)\<rparr>"
| "apply_delta env (EvCollectiveDreamReport now_ms report) f =
     f\<lparr>cf_sync_reports := push_bounded 16 (now_ms, report) (cf_sync_reports f)\<rparr>"
| "apply_delta env (EvModelBuild hash cell_count now_ms) f =
     f\<lparr>cf_resonant_model := model_record_build \<lparr>mf_hash = hash, mf_cell_count = cell_count, mf_created_ms = now_ms\<rparr> (cf_resonant_model f),
       cf_sync_log := record_build hash now_ms cell_count (cf_sync_log f)\<rparr>"
| "apply_delta env (EvAwakenApply hash cfg now_ms cell_count) f =
     f\<lparr>cf_awakening_cfg := cfg, cf_resonant_model := (cf_resonant_model f)\<lparr>rm_last_applied := hash\<rparr>,
       cf_sync_log := (if hash = None then cf_sync_log f else record_apply hash now_ms cell_count (cf_sync_log f))\<rparr>"
| "apply_delta env (EvAwakenTick hash now_ms) f =
     f\<lparr>cf_last_awaken_tick := now_ms, cf_sync_log := record_tick now_ms (cf_sync_log f),
       cf_resonant_model := (if hash \<noteq> None \<and> rm_last_applied (cf_resonant_model f) = None
         then (cf_resonant_model f)\<lparr>rm_last_applied := hash\<rparr> else cf_resonant_model f)\<rparr>"
| "apply_delta env (EvMirrorEpoch epoch) f = f\<lparr>cf_mirror_epochs := push_bounded 256 epoch (cf_mirror_epochs f)\<rparr>"
| "apply_delta env (EvMirrorReplay report) f = f\<lparr>cf_mirror_replays := push_bounded 128 report (cf_mirror_replays f)\<rparr>"

definition replay :: "field_env \<Rightarrow> EventDelta list \<Rightarrow> 'j ClusterField \<Rightarrow> 'j ClusterField" where
  "replay env deltas f = fold (apply_delta env) deltas f"

section \<open>Cells under index and tracking updates\<close>

text \<open>Updates of the index, of tracking and of other tables leave the cells, the clock and the counter of
  identifiers alone.\<close>

definition core :: "'j ClusterField \<Rightarrow> (u64, NodeCell) btree_map \<times> u64 \<times> u64" where
  "core f = (cf_cells f, cf_now_ms f, cf_next_id f)"

named_theorems core_simps

lemma core_fold: "(\<And>x f. core (g x f) = core f) \<Longrightarrow> core (fold g xs f) = core f"
  by (induction xs arbitrary: f) simp_all

lemma core_register [core_simps]: "core (register_link i j f) = core f"
  by (simp add: core_def register_link_def)

lemma core_unregister [core_simps]: "core (unregister_link i j f) = core f"
  by (simp add: core_def unregister_link_def)

lemma core_index [core_simps]: "core (update_index_for env i f) = core f"
  by (simp add: core_def update_index_for_def Let_def split: option.split)

lemma core_tracking [core_simps]: "core (ensure_link_tracking i f) = core f"
  by (simp add: ensure_link_tracking_def core_fold core_register split: option.split)

lemma core_rebuild [core_simps]: "core (rebuild_index env f) = core f"
  unfolding rebuild_index_def by (subst core_fold) (simp_all add: core_tracking core_index, simp add: core_def)

lemma core_purge [core_simps]: "core (purge_tracking_for i f) = core f"
  by (simp add: core_def purge_tracking_for_def)

lemma core_emit [core_simps]: "core (emit d f) = core f"
  by (simp add: core_def emit_def split: option.split)

lemma core_emit_all [core_simps]: "core (emit_all ds f) = core f"
  by (simp add: emit_all_def core_fold core_emit)

lemma core_link_hit [core_simps]: "core (record_link_hit i j f) = core f"
  by (simp add: core_def record_link_hit_def)

lemma core_route_pair [core_simps]: "core (record_route_pair env i j f) = core f"
  by (simp add: core_def record_route_pair_def Let_def)

lemma core_route_sequence [core_simps]: "core (record_route_sequence env ids f) = core f"
  by (induction env ids f rule: record_route_sequence.induct)
    (simp_all add: core_route_pair core_link_hit Let_def split: option.split)

lemma core_token_hit [core_simps]: "core (record_token_hit env t i s l f) = core f"
  by (simp add: core_def record_token_hit_def Let_def)

lemma core_refresh [core_simps]: "core (refresh_important_cells f) = core f"
  by (simp add: core_def refresh_important_cells_def)

lemma core_attach [core_simps]: "core (attach_cell env c f) = core (set_cell (nc_id c) c f)"
  by (simp add: attach_cell_def core_simps)

lemma coreD:
  assumes "core f = core g"
  shows "cf_cells f = cf_cells g" "cf_now_ms f = cf_now_ms g" "cf_next_id f = cf_next_id g" "get_cell f i = get_cell g i"
  using assms by (simp_all add: core_def get_cell_def)

section \<open>Replay as a function on maps\<close>

text \<open>What replay does to the cells and the clock, as an abstract specification: a map from identifiers to
  cells and a time.\<close>

type_synonym cell_map = "u64 \<rightharpoonup> NodeCell"

definition map_cell :: "u64 \<Rightarrow> (NodeCell \<Rightarrow> NodeCell) \<Rightarrow> cell_map \<Rightarrow> cell_map" where
  "map_cell i g m = m(i := map_option g (m i))"

fun cells_apply :: "EventDelta \<Rightarrow> cell_map \<times> u64 \<Rightarrow> cell_map \<times> u64" where
  "cells_apply (EvTick now_ms) (m, t) = (m, now_ms)"
| "cells_apply (EvSpawn s) (m, t) = (m(cs_id s \<mapsto> snapshot_to_node s), t)"
| "cells_apply (EvDivide parent s) (m, t) =
     ((map_cell parent (\<lambda>c. c\<lparr>nc_links := insert (cs_id s) (nc_links c)\<rparr>) m)(cs_id s \<mapsto> snapshot_to_node s), t)"
| "cells_apply (EvSleep i) (m, t) = (map_cell i (\<lambda>c. c\<lparr>nc_state := Sleep\<rparr>) m, t)"
| "cells_apply (EvDead i) (m, t) = (m(i := None), t)"
| "cells_apply (EvLink from to) (m, t) = (map_cell from (\<lambda>c. c\<lparr>nc_links := insert to (nc_links c)\<rparr>) m, t)"
| "cells_apply (EvUnlink from to) (m, t) = (map_cell from (\<lambda>c. c\<lparr>nc_links := nc_links c - {to}\<rparr>) m, t)"
| "cells_apply (EvAffinity i a) (m, t) =
     (map_cell i (\<lambda>c. c\<lparr>nc_affinity := a, nc_seed := (nc_seed c)\<lparr>sp_affinity := a\<rparr>\<rparr>) m, t)"
| "cells_apply (EvEnergy d) (m, t) =
     (map_cell (ed_id d) (\<lambda>c. c\<lparr>nc_energy := ed_energy d, nc_metabolism := ed_metabolism d, nc_state := ed_state d,
       nc_last_response_ms := ed_last_response_ms d\<rparr>) m, t)"
| "cells_apply (EvDreamPrune from to) (m, t) = (map_cell from (\<lambda>c. c\<lparr>nc_links := nc_links c - {to}\<rparr>) m, t)"
| "cells_apply (EvDreamRewire from to) (m, t) = (map_cell from (\<lambda>c. c\<lparr>nc_links := insert to (nc_links c)\<rparr>) m, t)"
| "cells_apply _ st = st"

definition cells_of :: "'j ClusterField \<Rightarrow> cell_map" where
  "cells_of f = get_cell f"

lemma cells_of_core: "core f = core g \<Longrightarrow> cells_of f = cells_of g"
  by (simp add: cells_of_def get_cell_def fun_eq_iff core_def)

lemma cells_of_set_cell [simp]: "cells_of (set_cell i c f) = (cells_of f)(i \<mapsto> c)"
  by (rule ext) (simp add: cells_of_def get_cell_def set_cell_def)

lemma cells_of_next_id [simp]: "cells_of (f\<lparr>cf_next_id := n\<rparr>) = cells_of f"
  by (simp add: cells_of_def get_cell_def fun_eq_iff)

lemma wf_set_cell [simp]: "bt_wf (cf_cells f) \<Longrightarrow> bt_wf (cf_cells (set_cell i c f))"
  by (simp add: set_cell_def)

lemma set_cell_same [simp]: "cf_now_ms (set_cell i c f) = cf_now_ms f" "cf_next_id (set_cell i c f) = cf_next_id f"
  "cf_journal (set_cell i c f) = cf_journal f" "cf_harmony (set_cell i c f) = cf_harmony f"
  by (simp_all add: set_cell_def)

lemma add_link_cells:
  "cells_of (add_link i j f) = map_cell i (\<lambda>c. c\<lparr>nc_links := insert j (nc_links c)\<rparr>) (cells_of f)"
proof (cases "get_cell f i")
  case (Some c)
  have "cells_of (register_link i j (set_cell i c' f)) = (cells_of f)(i \<mapsto> c')" for c'
    by (simp add: cells_of_core [OF core_register])
  moreover have "j \<in> nc_links c \<Longrightarrow> c\<lparr>nc_links := insert j (nc_links c)\<rparr> = c" by (simp add: insert_absorb)
  ultimately show ?thesis using Some by (auto simp: add_link_def map_cell_def cells_of_def fun_upd_idem)
qed (simp add: add_link_def map_cell_def cells_of_def fun_upd_idem)

lemma drop_link_cells:
  "cells_of (drop_link i j f) = map_cell i (\<lambda>c. c\<lparr>nc_links := nc_links c - {j}\<rparr>) (cells_of f)"
proof (cases "get_cell f i")
  case (Some c)
  have "cells_of (unregister_link i j (set_cell i c' f)) = (cells_of f)(i \<mapsto> c')" for c'
    by (simp add: cells_of_core [OF core_unregister])
  moreover have "j \<notin> nc_links c \<Longrightarrow> c\<lparr>nc_links := nc_links c - {j}\<rparr> = c" by simp
  ultimately show ?thesis using Some by (auto simp: drop_link_def map_cell_def cells_of_def fun_upd_idem)
qed (simp add: drop_link_def map_cell_def cells_of_def fun_upd_idem)

lemma update_cell_cells [simp]: "cells_of (update_cell i g f) = map_cell i g (cells_of f)"
  by (rule ext) (simp add: cells_of_def get_cell_def update_cell_def map_cell_def)

lemma link_core:
  "bt_wf (cf_cells f) \<Longrightarrow> bt_wf (cf_cells (add_link i j f)) \<and> bt_wf (cf_cells (drop_link i j f))"
  "cf_now_ms (add_link i j f) = cf_now_ms f" "cf_now_ms (drop_link i j f) = cf_now_ms f"
  by (auto simp: add_link_def drop_link_def coreD [OF core_register] coreD [OF core_unregister] split: option.split)

lemma attach_cells [simp]:
  "cells_of (attach_cell env c f) = (cells_of f)(nc_id c \<mapsto> c)"
  "cf_now_ms (attach_cell env c f) = cf_now_ms f" "cf_next_id (attach_cell env c f) = cf_next_id f"
  "bt_wf (cf_cells f) \<Longrightarrow> bt_wf (cf_cells (attach_cell env c f))"
  by (simp_all add: cells_of_core [OF core_attach] coreD [OF core_attach])

lemma snapshot_node_id [simp]: "nc_id (snapshot_to_node s) = cs_id s"
  by (simp add: snapshot_to_node_def from_seed_params_def)

lemma snapshot_roundtrip [simp]: "snapshot_to_node (cell_snapshot c) = c"
  by (simp add: snapshot_to_node_def cell_snapshot_def from_seed_params_def)

text \<open>Replay refines its specification.\<close>

lemma apply_delta_cells:
  assumes "bt_wf (cf_cells f)"
  shows "(cells_of (apply_delta env d f), cf_now_ms (apply_delta env d f)) = cells_apply d (cells_of f, cf_now_ms f)
       \<and> bt_wf (cf_cells (apply_delta env d f))"
proof (cases d)
  case (EvDead i)
  define f1 where "f1 = f\<lparr>cf_cells := bt_remove i (cf_cells f)\<rparr>"
  have "core (apply_delta env d f) = core f1" by (simp add: EvDead f1_def core_simps)
  moreover have "cells_of f1 = (cells_of f)(i := None)" "cf_now_ms f1 = cf_now_ms f" "bt_wf (cf_cells f1)"
    using assms by (auto simp: f1_def cells_of_def get_cell_def)
  ultimately show ?thesis using EvDead cells_of_core coreD by (metis cells_apply.simps(5))
next
  case (EvDreamPrune i j)
  have "bt_wf (cf_cells (update_cell i g f))" "cf_now_ms (update_cell i g f) = cf_now_ms f" for g
    using assms by (simp_all add: update_cell_def)
  then show ?thesis by (simp add: EvDreamPrune cells_of_core [OF core_unregister] coreD [OF core_unregister])
next
  case (EvDivide p s)
  then show ?thesis using assms by (simp add: Let_def add_link_cells link_core)
next
  case (EvSpawn s)
  then show ?thesis using assms by (simp add: Let_def)
next
  case (EvLink i j)
  then show ?thesis using assms by (simp add: add_link_cells link_core)
next
  case (EvUnlink i j)
  then show ?thesis using assms by (simp add: drop_link_cells link_core)
next
  case (EvDreamRewire i j)
  then show ?thesis using assms by (simp add: add_link_cells link_core)
qed (use assms in \<open>auto simp: Let_def cells_of_def get_cell_def update_cell_def map_cell_def fun_eq_iff\<close>)

lemma replay_cells:
  assumes "bt_wf (cf_cells f)"
  shows "(cells_of (replay env ds f), cf_now_ms (replay env ds f)) = fold cells_apply ds (cells_of f, cf_now_ms f)
       \<and> bt_wf (cf_cells (replay env ds f))"
  using assms
proof (induction ds arbitrary: f)
  case (Cons d ds)
  have "(cells_of (apply_delta env d f), cf_now_ms (apply_delta env d f)) = cells_apply d (cells_of f, cf_now_ms f)"
    "bt_wf (cf_cells (apply_delta env d f))" using apply_delta_cells [OF Cons.prems] by blast+
  then show ?case using Cons.IH [of "apply_delta env d f"] by (simp add: replay_def)
qed (simp add: replay_def)

section \<open>The simulation\<close>

text \<open>A replayed cell agrees with the live one in identity, links and seed at all times, and in energy,
  metabolism, state and time of response for the cells in a set, those recorded since their last change.
  A dead live cell corresponds to none.\<close>

definition cell_skeleton :: "NodeCell \<Rightarrow> u64 \<times> u64 set \<times> string \<times> f32" where
  "cell_skeleton c = (nc_id c, nc_links c, sp_core_pattern (nc_seed c), sp_base_metabolism (nc_seed c))"

definition cell_vitals :: "NodeCell \<Rightarrow> f32 \<times> f32 \<times> NodeState \<times> u64" where
  "cell_vitals c = (nc_energy c, nc_metabolism c, nc_state c, nc_last_response_ms c)"

definition cell_sim :: "bool \<Rightarrow> NodeCell \<Rightarrow> NodeCell \<Rightarrow> bool" where
  "cell_sim exact c c' \<longleftrightarrow> cell_skeleton c = cell_skeleton c' \<and> (exact \<longrightarrow> cell_vitals c = cell_vitals c')"

definition alive_cell :: "NodeCell option \<Rightarrow> NodeCell option" where
  "alive_cell oc = (case oc of None \<Rightarrow> None | Some c \<Rightarrow> if nc_state c = Dead then None else Some c)"

definition sim :: "u64 set \<Rightarrow> cell_map \<times> u64 \<Rightarrow> cell_map \<times> u64 \<Rightarrow> bool" where
  "sim S p q \<longleftrightarrow> snd p = snd q \<and> (\<forall>i. rel_option (cell_sim (i \<in> S)) (fst p i) (alive_cell (fst q i)))"

text \<open>A step of the live field with the deltas it adds to the journal.\<close>

type_synonym view = "cell_map \<times> u64 \<times> EventDelta list option"

definition journal_app :: "EventDelta list option \<Rightarrow> EventDelta list \<Rightarrow> EventDelta list option" where
  "journal_app j ds = map_option (\<lambda>l. l @ ds) j"

definition simulates :: "u64 set \<Rightarrow> view \<Rightarrow> u64 set \<Rightarrow> view \<Rightarrow> bool" where
  "simulates S v S' v' \<longleftrightarrow>
     (case v of (m, t, j) \<Rightarrow> case v' of (m', t', j') \<Rightarrow>
        \<exists>ds. j' = journal_app j ds \<and> (\<forall>p. sim S p (m, t) \<longrightarrow> sim S' (fold cells_apply ds p) (m', t')))"

lemma journal_app_simps [simp]:
  "journal_app (journal_app j a) b = journal_app j (a @ b)" "journal_app j [] = j" "journal_app None ds = None"
  "journal_app (Some l) ds = Some (l @ ds)"
  by (cases j; simp add: journal_app_def)+

lemma simulatesI:
  assumes "\<And>p. sim S p (m, t) \<Longrightarrow> sim S' (fold cells_apply ds p) (m', t')"
  shows "simulates S (m, t, j) S' (m', t', journal_app j ds)"
  using assms by (auto simp: simulates_def)

lemma simulates_refl [simp]: "simulates S v S v"
  by (cases v) (auto simp: simulates_def intro: exI [of _ "[]"])

lemma simulates_trans:
  assumes "simulates S v S' v'" "simulates S' v' S'' v''"
  shows "simulates S v S'' v''"
proof -
  obtain m t j m' t' j' m'' t'' j'' where v: "v = (m, t, j)" "v' = (m', t', j')" "v'' = (m'', t'', j'')"
    by (cases v; cases v'; cases v'') auto
  obtain ds ds' where ds: "j' = journal_app j ds" "\<And>p. sim S p (m, t) \<Longrightarrow> sim S' (fold cells_apply ds p) (m', t')"
    "j'' = journal_app j' ds'" "\<And>p. sim S' p (m', t') \<Longrightarrow> sim S'' (fold cells_apply ds' p) (m'', t'')"
    using assms unfolding v simulates_def by auto
  have "simulates S (m, t, j) S'' (m'', t'', journal_app j (ds @ ds'))"
    using ds(2,4) by (intro simulatesI) simp
  then show ?thesis by (simp add: v ds(1,3))
qed

lemma rel_cell_mono: "rel_option (cell_sim a) x y \<Longrightarrow> (b \<Longrightarrow> a) \<Longrightarrow> rel_option (cell_sim b) x y"
  by (cases x; cases y) (auto simp: cell_sim_def)

lemma sim_mono: "sim S p q \<Longrightarrow> T \<subseteq> S \<Longrightarrow> sim T p q"
  unfolding sim_def by (blast intro: rel_cell_mono)

lemma simulates_weaken:
  assumes "simulates S v S' (m', t', j')" "\<And>p. sim S' p (m', t') \<Longrightarrow> sim T p (m', t')"
  shows "simulates S v T (m', t', j')"
proof -
  obtain m t j where v: "v = (m, t, j)" by (cases v)
  then obtain ds where ds: "j' = journal_app j ds" "\<And>p. sim S p (m, t) \<Longrightarrow> sim S' (fold cells_apply ds p) (m', t')"
    using assms(1) unfolding simulates_def by auto
  show ?thesis unfolding v ds(1) by (rule simulatesI) (intro assms(2) ds(2))
qed

lemma simulates_mono: "simulates S v S' v' \<Longrightarrow> T \<subseteq> S' \<Longrightarrow> simulates S v T v'"
  by (cases v') (blast intro: simulates_weaken sim_mono)

lemma simulates_all:
  assumes "simulates S v S' (m', t', j')" "\<And>i c. m' i = Some c \<Longrightarrow> i \<in> S'"
  shows "simulates S v UNIV (m', t', j')"
proof (rule simulates_weaken [OF assms(1)])
  fix p assume p: "sim S' p (m', t')"
  have "rel_option (cell_sim True) (fst p i) (alive_cell (m' i))" for i
  proof (cases "m' i")
    case None
    have "rel_option (cell_sim (i \<in> S')) (fst p i) (alive_cell (m' i))" using p by (simp add: sim_def)
    then show ?thesis using None by (simp add: alive_cell_def)
  next
    case (Some c)
    then have "i \<in> S'" by (rule assms(2))
    moreover have "rel_option (cell_sim (i \<in> S')) (fst p i) (alive_cell (m' i))" using p by (simp add: sim_def)
    ultimately show ?thesis by simp
  qed
  then show "sim UNIV p (m', t')" using p by (simp add: sim_def)
qed

lemma simulates_fold:
  assumes "\<And>S x st. I st \<Longrightarrow> I (g x st) \<and> simulates S (v st) (insert (h x) S) (v (g x st))"
  shows "I st \<Longrightarrow> I (fold g xs st) \<and> simulates S (v st) (S \<union> h ` set xs) (v (fold g xs st))"
proof (induction xs arbitrary: st S)
  case (Cons x xs)
  have step: "I (g x st)" "simulates S (v st) (insert (h x) S) (v (g x st))" using assms Cons.prems by blast+
  with Cons.IH [OF step(1), of "insert (h x) S"] show ?case by (auto intro: simulates_trans)
qed simp

subsection \<open>Elementary steps\<close>

lemma sim_upd:
  assumes "sim S (m, t) (m', t')" "rel_option (cell_sim (i \<in> T)) c (alive_cell c')" "\<And>j. j \<noteq> i \<Longrightarrow> j \<in> T \<Longrightarrow> j \<in> S"
  shows "sim T (m(i := c), t) (m'(i := c'), t')"
proof -
  have "rel_option (cell_sim (k \<in> T)) (m k) (alive_cell (m' k))" if "k \<noteq> i" for k
    using assms(1,3) that unfolding sim_def fst_conv by (blast intro: rel_cell_mono)
  then show ?thesis using assms(1,2) by (simp add: sim_def)
qed

lemma sim_get:
  assumes "sim S (m, t) (m', t')"
  shows "t = t'" "rel_option (cell_sim (i \<in> S)) (m i) (alive_cell (m' i))"
  using assms by (simp_all add: sim_def)

lemma energy_step:
  assumes "m i = Some c" "cell_skeleton c' = cell_skeleton c" "nc_state c' = Dead \<longleftrightarrow> nc_state c = Dead"
  shows "simulates S (m, t, j) (insert i S) (m(i \<mapsto> c'), t, journal_app j [energy_delta i c'])"
proof (rule simulatesI)
  fix p assume p: "sim S p (m, t)"
  obtain n s where ns: "p = (n, s)" by (cases p)
  have "rel_option (cell_sim (i \<in> S)) (n i) (alive_cell (m i))" using sim_get(2) [OF p [unfolded ns]] .
  then have "rel_option (cell_sim (i \<in> insert i S)) (fst (cells_apply (energy_delta i c') (n, s)) i) (alive_cell (Some c'))"
    using assms by (cases "n i")
      (auto simp: energy_delta_def map_cell_def alive_cell_def cell_sim_def cell_skeleton_def cell_vitals_def split: if_splits)
  from sim_upd [OF p [unfolded ns] this] show "sim (insert i S) (fold cells_apply [energy_delta i c'] p) (m(i \<mapsto> c'), t)"
    by (simp add: ns energy_delta_def map_cell_def)
qed

lemma silent_step:
  assumes "m i = Some c" "cell_skeleton c' = cell_skeleton c" "nc_state c' = Dead \<longleftrightarrow> nc_state c = Dead"
  shows "simulates S (m, t, j) (S - {i}) (m(i \<mapsto> c'), t, j)"
proof -
  have "sim (S - {i}) (fold cells_apply [] p) (m(i \<mapsto> c'), t)" if p: "sim S p (m, t)" for p
  proof -
    obtain n s where ns: "p = (n, s)" by (cases p)
    have "rel_option (cell_sim (i \<in> S)) (n i) (alive_cell (m i))" using sim_get(2) [OF p [unfolded ns]] .
    then have "rel_option (cell_sim (i \<in> S - {i})) (n i) (alive_cell (Some c'))"
      using assms by (cases "n i") (auto simp: alive_cell_def cell_sim_def split: if_splits)
    from sim_upd [OF p [unfolded ns] this] show ?thesis unfolding ns by (simp add: fun_upd_idem)
  qed
  then show ?thesis using simulatesI [of S m t "S - {i}" "[]"] by simp
qed

lemma neutral_step:
  assumes "\<And>p. cells_apply d p = p"
  shows "simulates S (m, t, j) S (m, t, journal_app j [d])"
  using assms by (intro simulatesI) simp

lemma tick_step: "simulates S (m, t, j) S (m, t', journal_app j [EvTick t'])"
  by (rule simulatesI) (auto simp: sim_def split_paired_all)

end
