(* ===== verification/Field_Simulation.thy ===== *)
theory Field_Simulation
  imports Field_Replay
begin

text \<open>
  Elementary steps of the simulation between replayed and live cells, and that a tick, with the deltas it
  hands to the journal, makes the simulation exact.
\<close>

section \<open>Elementary steps\<close>

text \<open>A delta that changes one cell on the replayed side, when the live cell changes to another one.\<close>

lemma one_cell_step:
  assumes "\<And>n s. cells_apply d (n, s) = (n(i := g (n i)), s)"
    and "\<And>c. rel_option (cell_sim (i \<in> S)) c (alive_cell (m i)) \<Longrightarrow> rel_option (cell_sim (i \<in> T)) (g c) (alive_cell c')"
    and "T \<subseteq> insert i S"
  shows "simulates S (m, t, j) T (m(i := c'), t, journal_app j [d])"
proof (rule simulatesI)
  fix p assume p: "sim S p (m, t)"
  obtain n s where ns: "p = (n, s)" by (cases p)
  have "rel_option (cell_sim (i \<in> T)) (g (n i)) (alive_cell c')"
    using assms(2) sim_get(2) [OF p [unfolded ns]] by blast
  moreover have "\<And>k. k \<noteq> i \<Longrightarrow> k \<in> T \<Longrightarrow> k \<in> S" using assms(3) by blast
  ultimately have "sim T (n(i := g (n i)), s) (m(i := c'), t)" using sim_upd [OF p [unfolded ns]] by blast
  then show "sim T (fold cells_apply [d] p) (m(i := c'), t)" by (simp add: ns assms(1))
qed

lemmas sim_defs = alive_cell_def cell_sim_def cell_skeleton_def cell_vitals_def

lemma affinity_step: "simulates S (m, t, j) S (m, t, journal_app j [EvAffinity i a])"
proof -
  have "simulates S (m, t, j) S (m(i := m i), t, journal_app j [EvAffinity i a])"
  proof (rule one_cell_step)
    fix c assume "rel_option (cell_sim (i \<in> S)) c (alive_cell (m i))"
    then show "rel_option (cell_sim (i \<in> S))
        (map_option (\<lambda>c. c\<lparr>nc_affinity := a, nc_seed := (nc_seed c)\<lparr>sp_affinity := a\<rparr>\<rparr>) c) (alive_cell (m i))"
      by (cases c; cases "m i") (auto simp: sim_defs)
  qed (auto simp: map_cell_def)
  then show ?thesis by simp
qed

lemma sleep_step: "simulates S (m, t, j) (S - {i}) (m, t, journal_app j [EvSleep i])"
proof -
  have "simulates S (m, t, j) (S - {i}) (m(i := m i), t, journal_app j [EvSleep i])"
  proof (rule one_cell_step)
    fix c assume "rel_option (cell_sim (i \<in> S)) c (alive_cell (m i))"
    then show "rel_option (cell_sim (i \<in> S - {i})) (map_option (\<lambda>c. c\<lparr>nc_state := Sleep\<rparr>) c) (alive_cell (m i))"
      by (cases c; cases "m i") (auto simp: sim_defs)
  qed (auto simp: map_cell_def)
  then show ?thesis by simp
qed

lemma die_step:
  assumes "alive_cell c' = None"
  shows "simulates S (m, t, j) S (m(i := c'), t, journal_app j [EvDead i])"
  using assms by (intro one_cell_step [where g = "\<lambda>_. None"]) auto

lemma link_step:
  assumes "m i = Some c"
  shows "simulates S (m, t, j) S (m(i \<mapsto> c\<lparr>nc_links := insert k (nc_links c)\<rparr>), t, journal_app j [EvLink i k])"
proof (rule one_cell_step)
  fix x assume "rel_option (cell_sim (i \<in> S)) x (alive_cell (m i))"
  then show "rel_option (cell_sim (i \<in> S)) (map_option (\<lambda>c. c\<lparr>nc_links := insert k (nc_links c)\<rparr>) x)
      (alive_cell (Some (c\<lparr>nc_links := insert k (nc_links c)\<rparr>)))"
    using assms by (cases x) (auto simp: sim_defs split: if_splits)
qed (auto simp: map_cell_def)

lemma unlink_step:
  assumes "m i = Some c"
  shows "simulates S (m, t, j) S (m(i \<mapsto> c\<lparr>nc_links := nc_links c - {k}\<rparr>), t, journal_app j [EvUnlink i k])"
proof (rule one_cell_step)
  fix x assume "rel_option (cell_sim (i \<in> S)) x (alive_cell (m i))"
  then show "rel_option (cell_sim (i \<in> S)) (map_option (\<lambda>c. c\<lparr>nc_links := nc_links c - {k}\<rparr>) x)
      (alive_cell (Some (c\<lparr>nc_links := nc_links c - {k}\<rparr>)))"
    using assms by (cases x) (auto simp: sim_defs split: if_splits)
qed (auto simp: map_cell_def)

lemma rewired_step:
  assumes "m i = Some c" "k \<in> nc_links c"
  shows "simulates S (m, t, j) S (m, t, journal_app j [EvDreamRewire i k])"
proof -
  have "simulates S (m, t, j) S (m(i := m i), t, journal_app j [EvDreamRewire i k])"
  proof (rule one_cell_step)
    fix x assume "rel_option (cell_sim (i \<in> S)) x (alive_cell (m i))"
    then show "rel_option (cell_sim (i \<in> S)) (map_option (\<lambda>c. c\<lparr>nc_links := insert k (nc_links c)\<rparr>) x) (alive_cell (m i))"
      using assms by (cases x) (auto simp: sim_defs split: if_splits)
  qed (auto simp: map_cell_def)
  then show ?thesis by simp
qed

lemma snapshot_id [simp]: "cs_id (cell_snapshot c) = nc_id c"
  by (simp add: cell_snapshot_def)

lemma spawn_step:
  assumes "nc_state c \<noteq> Dead"
  shows "simulates S (m, t, j) (insert (nc_id c) S) (m(nc_id c \<mapsto> c), t, journal_app j [EvSpawn (cell_snapshot c)])"
  using assms by (intro one_cell_step [where g = "\<lambda>_. Some c"]) (auto simp: sim_defs)

text \<open>A division whose link is already recorded.\<close>

lemma divide_step:
  assumes "nc_state child \<noteq> Dead" "\<And>c. m p = Some c \<Longrightarrow> nc_id child \<in> nc_links c"
  shows "simulates S (m, t, j) (insert (nc_id child) S) (m(nc_id child \<mapsto> child), t, journal_app j [EvDivide p (cell_snapshot child)])"
proof (rule simulatesI)
  fix q assume q: "sim S q (m, t)"
  obtain n s where ns: "q = (n, s)" by (cases q)
  define n1 where "n1 = map_cell p (\<lambda>c. c\<lparr>nc_links := insert (nc_id child) (nc_links c)\<rparr>) n"
  have rel: "rel_option (cell_sim (p \<in> S)) (n p) (alive_cell (m p))" using sim_get(2) [OF q [unfolded ns]] .
  then have "rel_option (cell_sim (p \<in> S)) (n1 p) (alive_cell (m p))"
    using assms(2) by (cases "n p"; cases "m p") (auto simp: n1_def map_cell_def sim_defs insert_absorb split: if_splits)
  then have "sim S (n(p := n1 p), s) (m(p := m p), t)" using sim_upd [OF q [unfolded ns]] by blast
  then have "sim S (n1, s) (m, t)" by (simp add: n1_def map_cell_def)
  then have "sim (insert (nc_id child) S) (n1(nc_id child \<mapsto> child), s) (m(nc_id child \<mapsto> child), t)"
    using assms(1) by (rule_tac sim_upd) (auto simp: sim_defs)
  then show "sim (insert (nc_id child) S) (fold cells_apply [EvDivide p (cell_snapshot child)] q) (m(nc_id child \<mapsto> child), t)"
    by (simp add: ns n1_def)
qed

section \<open>Views of a field\<close>

definition view :: "'j ClusterField \<Rightarrow> view" where
  "view f = (cells_of f, cf_now_ms f, cf_journal f)"

text \<open>A field with deltas that are still to be handed to the journal.\<close>

definition pending_view :: "'j ClusterField \<times> EventDelta list \<Rightarrow> view" where
  "pending_view st = (cells_of (fst st), cf_now_ms (fst st), journal_app (cf_journal (fst st)) (snd st))"

lemma view_emit [simp]: "view (emit d f) = (cells_of f, cf_now_ms f, journal_app (cf_journal f) [d])"
  by (simp add: view_def cells_of_core [OF core_emit] coreD [OF core_emit])
    (simp add: emit_def split: option.split)

lemma cells_of_emit [simp]: "cells_of (emit d f) = cells_of f" "cf_now_ms (emit d f) = cf_now_ms f" "cf_cells (emit d f) = cf_cells f"
  by (simp_all add: cells_of_core [OF core_emit] coreD [OF core_emit])

lemma get_cell_of: "get_cell f i = cells_of f i"
  by (simp add: cells_of_def)

lemma journal_emit [simp]: "cf_journal (emit d f) = journal_app (cf_journal f) [d]"
  by (simp add: emit_def split: option.split)

lemma journal_emit_all [simp]: "cf_journal (emit_all ds f) = journal_app (cf_journal f) ds"
proof (induction ds arbitrary: f)
  case (Cons d ds)
  then show ?case by (simp add: emit_all_def)
qed (simp add: emit_all_def)

lemma view_emit_all: "view (emit_all ds f) = pending_view (f, ds)"
  by (simp add: view_def pending_view_def cells_of_core [OF core_emit_all] coreD [OF core_emit_all])

lemma journal_index [simp]: "cf_journal (update_index_for env i f) = cf_journal f" "cf_journal (register_link i j f) = cf_journal f"
  "cf_journal (unregister_link i j f) = cf_journal f"
  by (simp_all add: update_index_for_def register_link_def unregister_link_def Let_def split: option.split)

lemma journal_fold: "(\<And>x f. cf_journal (g x f) = cf_journal f) \<Longrightarrow> cf_journal (fold g xs f) = cf_journal f"
  by (induction xs arbitrary: f) simp_all

lemma journal_tracking [simp]: "cf_journal (ensure_link_tracking i f) = cf_journal f"
  by (simp add: ensure_link_tracking_def journal_fold split: option.split)

lemma journal_rebuild [simp]: "cf_journal (rebuild_index env f) = cf_journal f"
  by (simp add: rebuild_index_def journal_fold)

lemma journal_attach [simp]: "cf_journal (attach_cell env c f) = cf_journal f"
  by (simp add: attach_cell_def)

lemma journal_purge [simp]: "cf_journal (purge_tracking_for i f) = cf_journal f"
  by (simp add: purge_tracking_for_def)

lemma view_same: "core f = core g \<Longrightarrow> cf_journal f = cf_journal g \<Longrightarrow> view f = view g"
  using cells_of_core coreD(2) by (auto simp: view_def)

lemma no_cell_step:
  assumes "m i = None"
  shows "simulates S (m, t, j) (insert i S) (m, t, j)"
proof (rule simulates_weaken [OF simulates_refl])
  fix p assume p: "sim S p (m, t)"
  obtain n s where ns: "p = (n, s)" by (cases p)
  have "rel_option (cell_sim (i \<in> S)) (n i) (alive_cell (m i))" using sim_get(2) [OF p [unfolded ns]] .
  then have "rel_option (cell_sim (i \<in> insert i S)) (n i) (alive_cell (m i))" using assms by (simp add: alive_cell_def)
  from sim_upd [OF p [unfolded ns] this] show "sim (insert i S) p (m, t)" by (simp add: ns)
qed

lemma alive_step:
  assumes "\<And>i. alive_cell (m' i) = alive_cell (m i)"
  shows "simulates S (m, t, j) S (m', t, j)"
proof -
  have "sim S p (m', t)" if "sim S p (m, t)" for p using that assms by (simp add: sim_def)
  then show ?thesis using simulatesI [of S m t S "[]"] by simp
qed

section \<open>The tick\<close>

lemma cell_tick_skeleton [simp]:
  "cell_skeleton (cell_tick dt scale shift c) = cell_skeleton c" "cell_skeleton (drift_affinity a c) = cell_skeleton c"
  "cell_skeleton (fst (maybe_sleep_or_die now shift c)) = cell_skeleton c" "cell_skeleton (fst (maybe_divide v c)) = cell_skeleton c"
  by (simp_all add: cell_skeleton_def cell_tick_def drift_affinity_def maybe_sleep_or_die_def maybe_divide_def Let_def)

lemma cell_tick_alive [simp]:
  "nc_state (cell_tick dt scale shift c) = Dead \<longleftrightarrow> nc_state c = Dead" "nc_state (drift_affinity a c) = nc_state c"
  "nc_state (fst (maybe_divide v c)) = nc_state c"
  by (auto simp: cell_tick_def drift_affinity_def maybe_divide_def Let_def split: if_splits)

lemma sleep_or_die_state:
  assumes "maybe_sleep_or_die now shift c = (c', died)"
  shows "nc_state c' = Dead \<longleftrightarrow> nc_state c = Dead \<or> died" "died \<Longrightarrow> nc_state c \<noteq> Dead" "cell_skeleton c' = cell_skeleton c"
  using assms cell_tick_skeleton(3) [of now shift c] by (auto simp: maybe_sleep_or_die_def Let_def split: if_splits)

lemma pending_set_cell:
  "pending_view (set_cell i c f, p @ ds) = ((cells_of f)(i \<mapsto> c), cf_now_ms f, journal_app (journal_app (cf_journal f) p) ds)"
  by (simp add: pending_view_def)

lemma age_step:
  "simulates S (pending_view st) (insert i S) (pending_view (age_cell dt h i st))"
  "bt_wf (cf_cells (fst st)) \<Longrightarrow> bt_wf (cf_cells (fst (age_cell dt h i st)))"
proof -
  obtain f p where st: "st = (f, p)" by (cases st)
  show "simulates S (pending_view st) (insert i S) (pending_view (age_cell dt h i st))"
  proof (cases "get_cell f i")
    case None
    then have "simulates S (pending_view st) (insert i S) (pending_view st)"
      unfolding pending_view_def by (intro no_cell_step) (simp add: st cells_of_def)
    then show ?thesis using None by (simp add: st age_cell_def)
  next
    case (Some c)
    then have c: "cells_of f i = Some c" by (simp add: cells_of_def)
    define c' where "c' = drift_affinity (hm_alpha (cf_harmony f))
      (cell_tick dt (hm_metabolism_scale (cf_harmony f)) (sleep_shift_for h (hm_sleep_delta (cf_harmony f)) c) c)"
    have "simulates S (cells_of f, cf_now_ms f, journal_app (cf_journal f) p) (insert i S)
      ((cells_of f)(i \<mapsto> c'), cf_now_ms f, journal_app (journal_app (cf_journal f) p) [energy_delta i c'])"
      using c by (rule energy_step) (simp_all add: c'_def)
    then show ?thesis using Some by (simp add: st age_cell_def Let_def c'_def pending_view_def)
  qed
  show "bt_wf (cf_cells (fst st)) \<Longrightarrow> bt_wf (cf_cells (fst (age_cell dt h i st)))"
    by (simp add: st age_cell_def Let_def split: option.split)
qed

definition dividing_view :: "'j dividing \<Rightarrow> view" where
  "dividing_view d = pending_view (dv_field d, dv_pending d)"

definition dividing_ok :: "'j dividing \<Rightarrow> bool" where
  "dividing_ok d \<longleftrightarrow> bt_wf (cf_cells (dv_field d)) \<and> (\<forall>(p, c)\<in>set (dv_new d). nc_state c \<noteq> Dead)"

lemma maybe_divide_child: "maybe_divide v c = (c', Some child) \<Longrightarrow> nc_state child = Idle"
  by (auto simp: maybe_divide_def Let_def split: if_splits)

lemma divide_cell_step:
  assumes "dividing_ok d"
  shows "dividing_ok (divide_cell env i d)" "simulates UNIV (dividing_view d) UNIV (dividing_view (divide_cell env i d))"
proof -
  define f where "f = dv_field d"
  define born where "born = (\<lambda>child :: NodeCell. child\<lparr>nc_id := cf_next_id f,
    nc_seed := (nc_seed child)\<lparr>sp_core_pattern := sp_core_pattern (nc_seed child) @ '':n'' @ dec_digits (unat (cf_next_id f))\<rparr>,
    nc_last_response_ms := cf_now_ms f\<rparr>)"
  consider (no) "divide_cell env i d = d"
    | (yes) c c' child where "get_cell f i = Some c" "maybe_divide (fe_variation env i) c = (c', Some child)"
      "divide_cell env i d = \<lparr>dv_field = (set_cell i c' f)\<lparr>cf_next_id := cf_next_id f + 1\<rparr>,
         dv_pending = dv_pending d @ [EvAffinity i (nc_affinity c'), energy_delta i c'],
         dv_logs = dv_logs d @ [LogDivide i (cf_next_id f) (nc_affinity c) (nc_affinity (born child))],
         dv_new = dv_new d @ [(i, born child)]\<rparr>"
  proof (cases "get_cell f i")
    case None
    then show thesis using no by (simp add: divide_cell_def f_def)
  next
    case (Some c)
    obtain c' oc where m: "maybe_divide (fe_variation env i) c = (c', oc)" by fastforce
    show thesis
    proof (cases oc)
      case None
      then show thesis using no Some m by (simp add: divide_cell_def f_def)
    next
      case (Some child)
      then show thesis using yes [OF \<open>get_cell f i = Some c\<close>] m \<open>get_cell f i = Some c\<close>
        by (simp add: divide_cell_def f_def born_def Let_def)
    qed
  qed
  then have "dividing_ok (divide_cell env i d) \<and> simulates UNIV (dividing_view d) UNIV (dividing_view (divide_cell env i d))"
  proof cases
    case no
    then show ?thesis using assms by simp
  next
    case yes
    have c: "cells_of f i = Some c" using yes(1) by (simp add: cells_of_def)
    have c': "cell_skeleton c' = cell_skeleton c" "nc_state c' = nc_state c"
      using cell_tick_skeleton(4) [of "fe_variation env i" c] cell_tick_alive(3) [of "fe_variation env i" c] yes(2) by simp_all
    have j: "journal_app (journal_app j (dv_pending d)) [EvAffinity i (nc_affinity c'), energy_delta i c'] =
      journal_app (journal_app (journal_app j (dv_pending d)) [EvAffinity i (nc_affinity c')]) [energy_delta i c']" for j by simp
    have "simulates UNIV (cells_of f, cf_now_ms f, journal_app (cf_journal f) (dv_pending d)) (insert i UNIV)
       ((cells_of f)(i \<mapsto> c'), cf_now_ms f, journal_app (journal_app (cf_journal f) (dv_pending d)) [EvAffinity i (nc_affinity c'), energy_delta i c'])"
      unfolding j using c' by (intro simulates_trans [OF affinity_step energy_step [of "cells_of f" i, OF c]]) simp_all
    then show ?thesis using assms maybe_divide_child [OF yes(2)] unfolding yes(3)
      by (simp add: dividing_view_def dividing_ok_def pending_view_def born_def f_def)
  qed
  then show "dividing_ok (divide_cell env i d)" "simulates UNIV (dividing_view d) UNIV (dividing_view (divide_cell env i d))" by blast+
qed

lemma link_child_step:
  assumes "nc_state (snd pc) \<noteq> Dead"
  shows "simulates S (pending_view st) (insert (nc_id (snd pc)) S) (pending_view (link_child env pc st))"
    "bt_wf (cf_cells (fst st)) \<Longrightarrow> bt_wf (cf_cells (fst (link_child env pc st)))"
proof -
  obtain f p where st: "st = (f, p)" by (cases st)
  obtain parent child where pc: "pc = (parent, child)" by (cases pc)
  define st1 where "st1 = (case get_cell f parent of None \<Rightarrow> (f, p)
             | Some c \<Rightarrow>
                 if nc_id child \<in> nc_links c then (f, p)
                 else (register_link parent (nc_id child) (set_cell parent (c\<lparr>nc_links := insert (nc_id child) (nc_links c)\<rparr>) f),
                       p @ [EvLink parent (nc_id child)]))"
  have lc: "link_child env pc st = (attach_cell env child (fst st1), snd st1 @ [EvDivide parent (cell_snapshot child)])"
    unfolding link_child_def st pc st1_def by (simp add: Let_def split: option.split)
  have "simulates S (pending_view st) S (pending_view st1) \<and> (\<forall>c. cells_of (fst st1) parent = Some c \<longrightarrow> nc_id child \<in> nc_links c)
     \<and> (bt_wf (cf_cells f) \<longrightarrow> bt_wf (cf_cells (fst st1)))"
  proof (cases "get_cell f parent")
    case None
    then show ?thesis by (simp add: st1_def st cells_of_def)
  next
    case (Some c)
    define c' where "c' = c\<lparr>nc_links := insert (nc_id child) (nc_links c)\<rparr>"
    show ?thesis
    proof (cases "nc_id child \<in> nc_links c")
      case True
      then show ?thesis using Some by (simp add: st1_def st cells_of_def)
    next
      case False
      have "simulates S (cells_of f, cf_now_ms f, journal_app (cf_journal f) p) S
        ((cells_of f)(parent \<mapsto> c'), cf_now_ms f, journal_app (journal_app (cf_journal f) p) [EvLink parent (nc_id child)])"
        unfolding c'_def using Some by (intro link_step) (simp add: cells_of_def)
      then show ?thesis using Some False
        by (simp add: st1_def st c'_def pending_view_def cells_of_core [OF core_register] coreD [OF core_register])
    qed
  qed
  then have st1: "simulates S (pending_view st) S (pending_view st1)" "\<And>c. cells_of (fst st1) parent = Some c \<Longrightarrow> nc_id child \<in> nc_links c"
    "bt_wf (cf_cells f) \<Longrightarrow> bt_wf (cf_cells (fst st1))" by blast+
  have "simulates S (pending_view st1) (insert (nc_id child) S) (pending_view (link_child env pc st))"
    using divide_step [of child "cells_of (fst st1)" parent S "cf_now_ms (fst st1)" "journal_app (cf_journal (fst st1)) (snd st1)"] assms st1(2)
    unfolding lc by (simp add: pending_view_def pc)
  with st1(1) show "simulates S (pending_view st) (insert (nc_id (snd pc)) S) (pending_view (link_child env pc st))"
    unfolding pc by (auto intro: simulates_trans)
  show "bt_wf (cf_cells (fst st)) \<Longrightarrow> bt_wf (cf_cells (fst (link_child env pc st)))"
    unfolding lc using st1(3) by (simp add: st)
qed

definition resting_view :: "'j resting \<Rightarrow> view" where
  "resting_view r = pending_view (rs_field r, rs_pending r)"

lemma rest_cell_step:
  "simulates S (resting_view r) (insert i S) (resting_view (rest_cell h i r))"
  "bt_wf (cf_cells (rs_field r)) \<Longrightarrow> bt_wf (cf_cells (rs_field (rest_cell h i r)))"
proof -
  define f where "f = rs_field r"
  show "simulates S (resting_view r) (insert i S) (resting_view (rest_cell h i r))"
  proof (cases "get_cell f i")
    case None
    then have "simulates S (resting_view r) (insert i S) (resting_view r)"
      unfolding resting_view_def pending_view_def by (intro no_cell_step) (simp add: f_def cells_of_def)
    then show ?thesis using None by (simp add: rest_cell_def f_def)
  next
    case (Some c)
    define shift where "shift = sleep_shift_for h (hm_sleep_delta (cf_harmony f)) c"
    obtain c' died where m: "maybe_sleep_or_die (cf_now_ms f) shift c = (c', died)" by fastforce
    note st = sleep_or_die_state [OF m]
    define J where "J = journal_app (cf_journal f) (rs_pending r)"
    define sleeps where "sleeps \<longleftrightarrow> nc_state c \<noteq> Sleep \<and> nc_state c' = Sleep"
    define dies where "dies \<longleftrightarrow> died \<and> nc_state c \<noteq> Dead"
    have c: "cells_of f i = Some c" using Some by (simp add: cells_of_def)
    have v: "resting_view (rest_cell h i r) = ((cells_of f)(i \<mapsto> c'), cf_now_ms f,
        journal_app J ((if sleeps then [EvSleep i] else []) @ (if dies then [EvDead i] else []) @ [energy_delta i c']))"
      using Some m by (simp add: rest_cell_def Let_def resting_view_def pending_view_def J_def sleeps_def dies_def f_def shift_def)
    have r: "resting_view r = (cells_of f, cf_now_ms f, J)" by (simp add: resting_view_def pending_view_def J_def f_def)
    show ?thesis
    proof (cases dies)
      case True
      then have dead: "nc_state c' = Dead" using st(1) by (simp add: dies_def)
      have "simulates S (cells_of f, cf_now_ms f, J) (insert i S) (((cells_of f)(i \<mapsto> c'))(i \<mapsto> c'), cf_now_ms f,
          journal_app (journal_app J [EvDead i]) [energy_delta i c'])"
        using dead by (intro simulates_trans [OF die_step energy_step]) (simp_all add: alive_cell_def)
      then show ?thesis using True dead by (simp add: r v sleeps_def)
    next
      case False
      then have alive: "nc_state c' = Dead \<longleftrightarrow> nc_state c = Dead" using st(1,2) by (auto simp: dies_def)
      show ?thesis
      proof (cases sleeps)
        case True
        have "simulates S (cells_of f, cf_now_ms f, J) (insert i (S - {i})) ((cells_of f)(i \<mapsto> c'), cf_now_ms f,
            journal_app (journal_app J [EvSleep i]) [energy_delta i c'])"
          using c st(3) alive by (intro simulates_trans [OF sleep_step energy_step]) simp_all
        then show ?thesis using True False by (simp add: r v)
      next
        case not_sleeps: False
        then show ?thesis using c st(3) alive False energy_step [of "cells_of f" i c c' S "cf_now_ms f" J] by (simp add: r v)
      qed
    qed
  qed
  show "bt_wf (cf_cells (rs_field r)) \<Longrightarrow> bt_wf (cf_cells (rs_field (rest_cell h i r)))"
    by (simp add: rest_cell_def Let_def split: option.split prod.split)
qed

text \<open>The cells of a tick: every cell is recorded while it ages, and every later change is recorded with it.\<close>

lemma fold_wf: "(\<And>x st. P st \<Longrightarrow> P (g x st)) \<Longrightarrow> P st \<Longrightarrow> P (fold g xs st)"
  by (induction xs arbitrary: st) simp_all

lemma cells_of_ids:
  assumes "env_ok env" "cells_of f i \<noteq> None"
  shows "i \<in> set (cell_ids env f)"
  using assms by (simp add: cell_ids_def env_ok_def bt_keys_iff cells_of_def get_cell_def)

lemma age_keys: "cells_of (fst (age_cell dt h i st)) k = None \<longleftrightarrow> cells_of (fst st) k = None"
  by (cases st) (auto simp: age_cell_def Let_def cells_of_def get_cell_def set_cell_def split: option.splits)

lemma fold_age_keys: "cells_of (fst (fold (age_cell dt h) ids st)) k = None \<longleftrightarrow> cells_of (fst st) k = None"
  by (induction ids arbitrary: st) (simp_all add: age_keys)

lemma fades_same:
  "core (fst (hormone_fades f)) = core f" "cf_journal (fst (hormone_fades f)) = cf_journal f"
  by (simp_all add: hormone_fades_def core_def split: option.split)

lemma simulates_loop:
  assumes "\<And>x st. x \<in> set xs \<Longrightarrow> I st \<Longrightarrow> I (g x st) \<and> simulates T (v st) T (v (g x st))" "I st"
  shows "I (fold g xs st) \<and> simulates T (v st) T (v (fold g xs st))"
  using assms
proof (induction xs arbitrary: st)
  case (Cons x xs)
  have step: "I (g x st)" "simulates T (v st) T (v (g x st))" using Cons.prems(1) [of x st] Cons.prems(2) by simp_all
  have "I (fold g xs (g x st)) \<and> simulates T (v (g x st)) T (v (fold g xs (g x st)))"
    using step(1) Cons.prems(1) by (intro Cons.IH) simp_all
  with step(2) show ?case by (auto intro: simulates_trans)
qed simp

lemma tick_cells_step:
  assumes "env_ok env" "bt_wf (cf_cells f)"
  shows "simulates S (view f) UNIV (resting_view (tick_cells env dt f))" "bt_wf (cf_cells (rs_field (tick_cells env dt f)))"
proof -
  define ids where "ids = cell_ids env f"
  define h where "h = noradrenaline_active f"
  define a where "a = fold (age_cell dt h) ids (f, [])"
  define f1 where "f1 = fst (hormone_fades (fst a))"
  define d where "d = fold (divide_cell env) ids \<lparr>dv_field = f1, dv_pending = snd a, dv_logs = snd (hormone_fades (fst a)), dv_new = []\<rparr>"
  define l where "l = fold (link_child env) (dv_new d) (dv_field d, dv_pending d)"
  define r0 where "r0 = \<lparr>rs_field = fst l, rs_pending = snd l, rs_logs = dv_logs d, rs_needs_reindex = False, rs_purge = []\<rparr>"
  have tc: "tick_cells env dt f = fold (rest_cell h) ids r0"
    by (simp add: tick_cells_def ids_def h_def a_def f1_def d_def l_def r0_def Let_def split: prod.split)
  have "bt_wf (cf_cells (fst a)) \<and> simulates S (pending_view (f, [])) (S \<union> id ` set ids) (pending_view a)"
    unfolding a_def
    by (rule simulates_fold [where I = "\<lambda>st. bt_wf (cf_cells (fst st))" and v = pending_view and h = id])
      (simp_all add: age_step assms(2))
  then have a: "bt_wf (cf_cells (fst a))" "simulates S (view f) (S \<union> set ids) (pending_view a)"
    by (simp_all add: view_def pending_view_def)
  have "i \<in> S \<union> set ids" if "cells_of (fst a) i = Some c" for i c
  proof -
    have "cells_of f i \<noteq> None" using that fold_age_keys [of dt h ids "(f, [])" i] by (simp add: a_def)
    then show ?thesis using cells_of_ids [OF assms(1), of f i] by (simp add: ids_def)
  qed
  then have a_all: "simulates S (view f) UNIV (pending_view a)"
    using a(2) unfolding pending_view_def by (rule simulates_all [rotated])
  have f1: "cells_of f1 = cells_of (fst a)" "cf_now_ms f1 = cf_now_ms (fst a)" "cf_journal f1 = cf_journal (fst a)" "bt_wf (cf_cells f1)"
    using a(1) unfolding f1_def by (simp_all add: fades_same cells_of_core [OF fades_same(1)] coreD [OF fades_same(1)])
  define d0 where "d0 = \<lparr>dv_field = f1, dv_pending = snd a, dv_logs = snd (hormone_fades (fst a)), dv_new = []\<rparr>"
  have d: "dividing_ok d \<and> simulates UNIV (dividing_view d0) UNIV (dividing_view d)"
    unfolding d_def d0_def [symmetric]
    by (rule simulates_loop [where I = dividing_ok]) (simp_all add: divide_cell_step, simp add: d0_def dividing_ok_def f1(4))
  have l: "bt_wf (cf_cells (fst l)) \<and> simulates UNIV (dividing_view d) UNIV (pending_view l)"
    unfolding l_def dividing_view_def
  proof (rule simulates_loop [where I = "\<lambda>st. bt_wf (cf_cells (fst st))"])
    fix pc :: "u64 \<times> NodeCell" and st :: "'a ClusterField \<times> EventDelta list"
    assume pc: "pc \<in> set (dv_new d)" and "bt_wf (cf_cells (fst st))"
    moreover have "nc_state (snd pc) \<noteq> Dead" using pc d by (auto simp: dividing_ok_def)
    ultimately show "bt_wf (cf_cells (fst (link_child env pc st))) \<and>
        simulates UNIV (pending_view st) UNIV (pending_view (link_child env pc st))"
      using link_child_step(1) [of pc UNIV st env] link_child_step(2) [of pc st env] by (auto intro: simulates_mono)
  qed (use d in \<open>simp add: dividing_ok_def\<close>)
  have r: "bt_wf (cf_cells (rs_field (fold (rest_cell h) ids r0))) \<and> simulates UNIV (resting_view r0) UNIV (resting_view (fold (rest_cell h) ids r0))"
  proof (rule simulates_loop [where I = "\<lambda>r. bt_wf (cf_cells (rs_field r))"])
    fix i and r :: "'a resting"
    assume "bt_wf (cf_cells (rs_field r))"
    then show "bt_wf (cf_cells (rs_field (rest_cell h i r))) \<and> simulates UNIV (resting_view r) UNIV (resting_view (rest_cell h i r))"
      using rest_cell_step(1) [of UNIV r i h] rest_cell_step(2) [of r h i] by (auto intro: simulates_mono)
  qed (use l in \<open>simp add: r0_def\<close>)
  have "dividing_view d0 = pending_view a" "resting_view r0 = pending_view l"
    by (simp_all add: dividing_view_def resting_view_def pending_view_def d0_def r0_def f1)
  then show "simulates S (view f) UNIV (resting_view (tick_cells env dt f))" "bt_wf (cf_cells (rs_field (tick_cells env dt f)))"
    unfolding tc using a_all d l r by (auto intro: simulates_trans)
qed

lemma remove_dead_cells:
  assumes "bt_wf (cf_cells f)"
  shows "cells_of (remove_dead f) i = alive_cell (cells_of f i)" "bt_wf (cf_cells (remove_dead f))"
  using assms by (auto simp: remove_dead_def cells_of_def get_cell_def bt_get_retain alive_cell_def split: option.split)

lemma journal_same [simp]:
  "cf_journal (remove_dead f) = cf_journal f" "cf_now_ms (remove_dead f) = cf_now_ms f"
  "cf_journal (refresh_important_cells f) = cf_journal f"
  by (simp_all add: remove_dead_def refresh_important_cells_def)

lemma view_loop_same: "core (fst (view_loop env n st)) = core (fst st)" "cf_journal (fst (view_loop env n st)) = cf_journal (fst st)"
proof -
  have "core (fst (view_loop env n st)) = core (fst st) \<and> cf_journal (fst (view_loop env n st)) = cf_journal (fst st)"
    by (induction n arbitrary: st) (simp_all add: Let_def core_def split: prod.split)
  then show "core (fst (view_loop env n st)) = core (fst st)" "cf_journal (fst (view_loop env n st)) = cf_journal (fst st)" by blast+
qed

lemma late_tick_same:
  "core (fst (tick_views env dt f)) = core f" "cf_journal (fst (tick_views env dt f)) = cf_journal f"
  "core (fst (tick_symmetry env dt f)) = core f" "cf_journal (fst (tick_symmetry env dt f)) = cf_journal f"
  "core (fst (tick_seed_garden env f)) = core f" "cf_journal (fst (tick_seed_garden env f)) = cf_journal f"
  by (simp_all add: tick_views_def tick_symmetry_def tick_seed_garden_def Let_def view_loop_same split: prod.split)
    (simp_all add: core_def)

lemma awaken_step: "simulates S (view f) S (view (awaken_tick f))"
proof -
  have "cells_of (f\<lparr>cf_last_awaken_tick := a, cf_sync_log := b\<rparr>) = cells_of f" for a b
    by (simp add: cells_of_def get_cell_def fun_eq_iff)
  moreover have "simulates S (cells_of f, cf_now_ms f, cf_journal f) S (cells_of f, cf_now_ms f, journal_app (cf_journal f) [EvAwakenTick h t])" for h t
    by (rule neutral_step) auto
  ultimately show ?thesis by (simp add: awaken_tick_def) (simp add: view_def)
qed

text \<open>The tick as a chain of fields, and what the first and the last parts of it leave alone.\<close>

definition after_cells :: "field_env \<Rightarrow> 'j resting \<Rightarrow> 'j ClusterField" where
  "after_cells env r =
     (let f = remove_dead (rs_field r);
          f = (if rs_needs_reindex r \<or> length (cf_cells f) \<noteq> length (cf_cells (rs_field r)) then rebuild_index env f else f);
          f = refresh_important_cells (fold purge_tracking_for (rs_purge r) f)
      in f\<lparr>cf_ticks_since_impulse := saturating_add (cf_ticks_since_impulse f) 1\<rparr>)"

definition after_views :: "field_env \<Rightarrow> u64 \<Rightarrow> 'j ClusterField \<Rightarrow> 'j ClusterField" where
  "after_views env dt f = fst (tick_seed_garden env (fst (tick_symmetry env dt (fst (tick_views env dt f)))))"

definition clock_tick :: "u64 \<Rightarrow> 'j ClusterField \<Rightarrow> 'j ClusterField" where
  "clock_tick dt f = emit (EvTick (saturating_add (cf_now_ms f) dt)) (f\<lparr>cf_now_ms := saturating_add (cf_now_ms f) dt\<rparr>)"

lemma tick_all_chain:
  "fst (tick_all env dt f) =
     (let r = tick_cells env dt (clock_tick dt f) in awaken_tick (after_views env dt (emit_all (rs_pending r) (after_cells env r))))"
  by (simp add: tick_all_def after_cells_def after_views_def clock_tick_def Let_def split: prod.split)

lemma after_cells_same:
  "core (after_cells env r) = core (remove_dead (rs_field r))" "cf_journal (after_cells env r) = cf_journal (rs_field r)"
proof -
  define f where "f = (if rs_needs_reindex r \<or> length (cf_cells (remove_dead (rs_field r))) \<noteq> length (cf_cells (rs_field r))
    then rebuild_index env (remove_dead (rs_field r)) else remove_dead (rs_field r))"
  define f2 where "f2 = refresh_important_cells (fold purge_tracking_for (rs_purge r) f)"
  have "after_cells env r = f2\<lparr>cf_ticks_since_impulse := saturating_add (cf_ticks_since_impulse f2) 1\<rparr>"
    by (simp add: after_cells_def f2_def f_def Let_def)
  then have "core (after_cells env r) = core f2" "cf_journal (after_cells env r) = cf_journal f2" by (simp_all add: core_def)
  moreover have "core f2 = core f" "cf_journal f2 = cf_journal f" by (simp_all add: f2_def core_refresh core_fold core_purge journal_fold)
  moreover have "core f = core (remove_dead (rs_field r))" "cf_journal f = cf_journal (rs_field r)" by (simp_all add: f_def core_rebuild)
  ultimately show "core (after_cells env r) = core (remove_dead (rs_field r))" "cf_journal (after_cells env r) = cf_journal (rs_field r)" by simp_all
qed

lemma tick_all_step:
  assumes "env_ok env" "bt_wf (cf_cells f)"
  shows "simulates S (view f) UNIV (view (fst (tick_all env dt f)))" "bt_wf (cf_cells (fst (tick_all env dt f)))"
proof -
  define f1 where "f1 = clock_tick dt f"
  define r where "r = tick_cells env dt f1"
  define f2 where "f2 = after_cells env r"
  define f3 where "f3 = emit_all (rs_pending r) f2"
  define f4 where "f4 = after_views env dt f3"
  have chain: "fst (tick_all env dt f) = awaken_tick f4"
    by (simp add: tick_all_chain Let_def f4_def f3_def f2_def r_def f1_def)
  define f0 where "f0 = f\<lparr>cf_now_ms := saturating_add (cf_now_ms f) dt\<rparr>"
  have f0: "cells_of f0 = cells_of f" "cf_now_ms f0 = saturating_add (cf_now_ms f) dt" "cf_journal f0 = cf_journal f"
    "cf_cells f0 = cf_cells f" by (simp_all add: f0_def cells_of_def get_cell_def fun_eq_iff)
  have v1: "view f1 = (cells_of f, saturating_add (cf_now_ms f) dt, journal_app (cf_journal f) [EvTick (saturating_add (cf_now_ms f) dt)])"
    unfolding f1_def clock_tick_def f0_def [symmetric] by (simp add: f0)
  have w1: "bt_wf (cf_cells f1)"
    unfolding f1_def clock_tick_def f0_def [symmetric] by (simp add: coreD [OF core_emit] f0 assms(2))
  have s1: "simulates S (view f) S (view f1)" unfolding v1 by (simp add: view_def tick_step)
  have s2: "simulates S (view f1) UNIV (resting_view r)" "bt_wf (cf_cells (rs_field r))"
    unfolding r_def using tick_cells_step [OF assms(1) w1] by blast+
  have core2: "core f2 = core (remove_dead (rs_field r))" "cf_journal f2 = cf_journal (rs_field r)"
    unfolding f2_def by (rule after_cells_same)+
  have "view f3 = (cells_of (remove_dead (rs_field r)), cf_now_ms (rs_field r), journal_app (cf_journal (rs_field r)) (rs_pending r))"
    unfolding f3_def view_emit_all pending_view_def using cells_of_core [OF core2(1)] coreD(2) [OF core2(1)] by (simp add: core2(2))
  moreover have "simulates UNIV (resting_view r) UNIV (cells_of (remove_dead (rs_field r)), cf_now_ms (rs_field r), journal_app (cf_journal (rs_field r)) (rs_pending r))"
    unfolding resting_view_def pending_view_def fst_conv snd_conv
    by (rule alive_step) (simp add: remove_dead_cells [OF s2(2)] alive_cell_def split: option.split)
  ultimately have s3: "simulates UNIV (resting_view r) UNIV (view f3)" by simp
  have same: "core f4 = core f3" "cf_journal f4 = cf_journal f3" by (simp_all add: f4_def after_views_def late_tick_same)
  have s4: "simulates UNIV (view f3) UNIV (view (awaken_tick f4))" using awaken_step [of UNIV f4] view_same [OF same] by simp
  show "simulates S (view f) UNIV (view (fst (tick_all env dt f)))"
    unfolding chain using s1 s2(1) s3 s4 by (blast intro: simulates_trans)
  have "core (awaken_tick f4) = core f4" by (simp add: awaken_tick_def core_emit) (simp add: core_def)
  then have "cf_cells (awaken_tick f4) = cf_cells (remove_dead (rs_field r))"
    using same(1) core2(1) core_emit_all [of "rs_pending r" f2] coreD(1) by (metis f3_def)
  then show "bt_wf (cf_cells (fst (tick_all env dt f)))" unfolding chain by (simp add: remove_dead_cells [OF s2(2)])
qed

end
