(* ===== verification/Field_Sound.thy ===== *)
theory Field_Sound
  imports Field_Simulation
begin

text \<open>
  Every operation between ticks, with the deltas it hands to the journal, keeps the simulation between the
  replayed cells and the live ones.
\<close>

section \<open>Operations between ticks\<close>

text \<open>Each cell is stored under its identifier, and between operations no cell is dead.\<close>

definition field_wf :: "'j ClusterField \<Rightarrow> bool" where
  "field_wf f \<longleftrightarrow> bt_wf (cf_cells f) \<and> (\<forall>i c. cells_of f i = Some c \<longrightarrow> nc_id c = i \<and> nc_state c \<noteq> Dead)"

definition sound :: "'j ClusterField \<Rightarrow> 'j ClusterField \<Rightarrow> bool" where
  "sound f f' \<longleftrightarrow> (field_wf f \<longrightarrow> field_wf f' \<and> simulates {} (view f) {} (view f'))"

lemma sound_refl [simp]: "sound f f"
  by (simp add: sound_def)

lemma sound_trans: "sound f g \<Longrightarrow> sound g h \<Longrightarrow> sound f h"
  by (auto simp: sound_def intro: simulates_trans)

lemma sound_fold: "(\<And>x f. x \<in> set xs \<Longrightarrow> sound f (g x f)) \<Longrightarrow> sound f (fold g xs f)"
  by (induction xs arbitrary: f) (auto intro: sound_trans)

lemma field_wf_core: "core f = core g \<Longrightarrow> field_wf f \<longleftrightarrow> field_wf g"
  using cells_of_core coreD(1) unfolding field_wf_def by metis

lemma sound_same: "core f' = core f \<Longrightarrow> cf_journal f' = cf_journal f \<Longrightarrow> sound f f'"
  using view_same [of f' f] field_wf_core [of f' f] by (simp add: sound_def)

lemma sound_emit:
  assumes "\<And>p. cells_apply d p = p"
  shows "sound f (emit d f)"
proof -
  have "simulates {} (view f) {} (view (emit d f))" using neutral_step [OF assms] by (simp add: view_def)
  then show ?thesis using field_wf_core [OF core_emit] by (auto simp: sound_def)
qed

lemma field_wf_set:
  assumes "field_wf f" "get_cell f i = Some c" "cell_skeleton c' = cell_skeleton c" "nc_state c' = Dead \<longleftrightarrow> nc_state c = Dead"
  shows "field_wf (set_cell i c' f)"
  using assms by (auto simp: field_wf_def get_cell_of cell_skeleton_def)

lemma sound_energy:
  assumes "get_cell f i = Some c" "cell_skeleton c' = cell_skeleton c" "nc_state c' = Dead \<longleftrightarrow> nc_state c = Dead"
  shows "sound f (emit (energy_delta i c') (set_cell i c' f))"
proof -
  have "simulates {} (view f) (insert i {}) (view (emit (energy_delta i c') (set_cell i c' f)))"
    using energy_step [of "cells_of f" i c c' "{}" "cf_now_ms f" "cf_journal f"] assms by (simp add: view_def get_cell_of)
  then have "simulates {} (view f) {} (view (emit (energy_delta i c') (set_cell i c' f)))" by (rule simulates_mono) simp
  then show ?thesis using field_wf_set [OF _ assms] field_wf_core [OF core_emit] by (auto simp: sound_def)
qed

lemma sound_set:
  assumes "get_cell f i = Some c" "cell_skeleton c' = cell_skeleton c" "nc_state c' = Dead \<longleftrightarrow> nc_state c = Dead"
  shows "sound f (set_cell i c' f)"
proof -
  have "simulates {} (view f) ({} - {i}) (view (set_cell i c' f))"
    using silent_step [of "cells_of f" i c c' "{}" "cf_now_ms f" "cf_journal f"] assms by (simp add: view_def get_cell_of)
  then show ?thesis using field_wf_set [OF _ assms] by (auto simp: sound_def)
qed

lemma field_wf_attach: "nc_state c \<noteq> Dead \<Longrightarrow> field_wf f \<Longrightarrow> field_wf (attach_cell env c f)"
  by (simp add: field_wf_def)

lemma sound_spawn:
  assumes "nc_state c \<noteq> Dead"
  shows "sound f (emit (EvSpawn (cell_snapshot c)) (attach_cell env c (f\<lparr>cf_next_id := n\<rparr>)))"
proof -
  define f1 where "f1 = f\<lparr>cf_next_id := n\<rparr>"
  have f1: "cells_of f1 = cells_of f" "cf_now_ms f1 = cf_now_ms f" "cf_journal f1 = cf_journal f" "field_wf f1 = field_wf f"
    by (simp_all add: f1_def) (simp add: field_wf_def)
  have "simulates {} (view f) (insert (nc_id c) {}) (view (emit (EvSpawn (cell_snapshot c)) (attach_cell env c f1)))"
    using spawn_step [OF assms, of "{}" "cells_of f" "cf_now_ms f" "cf_journal f"] f1(1-3) by (simp add: view_def)
  then have "simulates {} (view f) {} (view (emit (EvSpawn (cell_snapshot c)) (attach_cell env c f1)))" by (rule simulates_mono) simp
  then show ?thesis unfolding f1_def [symmetric]
    using field_wf_attach [OF assms, of f1 env] field_wf_core [OF core_emit] by (auto simp: sound_def f1(4))
qed

lemma from_seed_alive [simp]: "nc_state (from_seed_params i p) = Active" "nc_id (from_seed_params i p) = i"
  by (simp_all add: from_seed_params_def)

lemma add_root_sound: "sound f (fst (add_root env seed f))"
proof -
  define c where "c = from_seed_params (cf_next_id f) (create_seed (fe_rng env) seed)"
  have "get_cell (attach_cell env c (f\<lparr>cf_next_id := cf_next_id f + 1\<rparr>)) (cf_next_id f) = Some c"
    using attach_cells(1) [of env c "f\<lparr>cf_next_id := cf_next_id f + 1\<rparr>"] by (simp add: get_cell_of c_def)
  then have "fst (add_root env seed f) = emit (EvSpawn (cell_snapshot c)) (attach_cell env c (f\<lparr>cf_next_id := cf_next_id f + 1\<rparr>))"
    by (simp add: add_root_def Let_def c_def)
  then show ?thesis using sound_spawn [of c f env] by (simp add: c_def)
qed

lemma rules_sound: "sound f (fst (add_reflex env rule f))" "sound f (fst (remove_reflex i f))"
proof -
  have same: "sound f (f\<lparr>cf_next_reflex_id := a, cf_rules := b\<rparr>)" "sound f (f\<lparr>cf_rules := b\<rparr>)" for a b
    by (rule sound_same; simp add: core_def)+
  show "sound f (fst (add_reflex env rule f))"
    by (simp add: add_reflex_def Let_def) (intro conjI impI sound_trans [OF same(1) sound_emit]; simp)
  show "sound f (fst (remove_reflex i f))"
    using same(2) sound_trans [OF same(2) sound_emit] by (auto simp: remove_reflex_def Let_def)
qed

lemma sound_fold_by: "(\<And>x st. sound (v st) (v (g x st))) \<Longrightarrow> sound (v st) (v (fold g xs st))"
  by (induction xs arbitrary: st) (auto intro: sound_trans)

lemma perform_sound:
  "sound f (fst (perform_spawn_seed env rule_id seed shift f))"
  "sound f (fst (perform_wake_sleeping env rule_id n token f))"
  "sound f (fst (perform_boost_links env rule_id token factor top_n f))"
proof -
  show "sound f (fst (perform_spawn_seed env rule_id seed shift f))"
    unfolding perform_spawn_seed_def Let_def fst_conv by (rule sound_spawn) simp
  have wake: "sound (fst st) (fst (wake_cell i st))" for i and st :: "'a ClusterField \<times> u16"
  proof -
    obtain g w where st: "st = (g, w)" by (cases st)
    show ?thesis
    proof (cases "get_cell g i")
      case None
      then show ?thesis by (simp add: wake_cell_def st)
    next
      case (Some c)
      define c' where "c' = c\<lparr>nc_state := Idle, nc_energy := f32_max (nc_energy c) (f32_dec 3 1), nc_last_response_ms := cf_now_ms g\<rparr>"
      have "nc_state c = Sleep \<Longrightarrow> sound g (emit (energy_delta i c') (set_cell i c' g))"
        using Some by (intro sound_energy) (auto simp: c'_def cell_skeleton_def)
      then show ?thesis using Some by (simp add: wake_cell_def st Let_def c'_def)
    qed
  qed
  show "sound f (fst (perform_wake_sleeping env rule_id n token f))"
    using sound_fold_by [of fst wake_cell, OF wake, where st = "(f, 0)"] by (simp add: perform_wake_sleeping_def Let_def case_prod_unfold)
  show "sound f (fst (perform_boost_links env rule_id token factor top_n f))"
    by (rule sound_same) (simp_all add: perform_boost_links_def Let_def core_def)
qed

lemma fire_reflex_sound: "sound f (fst (fire_reflex env rule matched token f))"
proof -
  define f1 where "f1 = emit (EvReflexFire \<lparr>rf_id = rl_id rule, rf_at_ms = cf_now_ms f, rf_matched = matched\<rparr>) f"
  have "sound f f1" unfolding f1_def by (rule sound_emit) simp
  moreover have "sound f1 (fst (fire_reflex env rule matched token f))"
  proof (cases "rl_then rule")
    case (SpawnSeed seed shift)
    then show ?thesis using perform_sound(1) [of f1 env "rl_id rule" seed shift] by (simp add: fire_reflex_def Let_def f1_def case_prod_unfold)
  next
    case (WakeSleeping n)
    then show ?thesis using perform_sound(2) [of f1 env "rl_id rule" n token] by (simp add: fire_reflex_def Let_def f1_def case_prod_unfold)
  next
    case (BoostLinks factor n)
    then show ?thesis using perform_sound(3) [of f1 env "rl_id rule" token factor n] by (simp add: fire_reflex_def Let_def f1_def case_prod_unfold)
  qed (simp add: fire_reflex_def Let_def f1_def)
  ultimately show ?thesis by (rule sound_trans)
qed

lemma process_reflex_sound: "sound (fst st) (fst (process_reflex_for env imp token st))"
proof -
  obtain f logs fired where st: "st = (f, logs, fired)" by (cases st)
  define f1 where "f1 = f\<lparr>cf_counters := bt_entry (lowercase (fe_lower env) token, im_kind imp) []
    (push_counter (cf_now_ms f) (counter_retention (relevant_rules env f (lowercase (fe_lower env) token) (im_kind imp))) (im_strength imp)) (cf_counters f)\<rparr>"
  have "sound f f1" by (rule sound_same) (simp_all add: f1_def core_def)
  moreover have pending: "sound (fst st) (fst (fire_pending env t p st))" for t p and st :: "'a ClusterField \<times> FieldLog list \<times> u64 set"
    using fire_reflex_sound [of "fst st" env "fst p" "snd p" t] by (simp add: fire_pending_def Let_def case_prod_unfold)
  then have "sound f1 (fst (process_reflex_for env imp token st))"
    using sound_fold_by [of fst "fire_pending env (lowercase (fe_lower env) token)", OF pending, where st = "(f1, logs, fired)"]
    by (simp add: process_reflex_for_def Let_def st f1_def split: option.split)
  ultimately show ?thesis by (simp add: st) (rule sound_trans)
qed

definition pending_sound :: "'j ClusterField \<times> EventDelta list \<Rightarrow> 'j ClusterField \<times> EventDelta list \<Rightarrow> bool" where
  "pending_sound st st' \<longleftrightarrow> (field_wf (fst st) \<longrightarrow> field_wf (fst st') \<and> simulates {} (pending_view st) {} (pending_view st'))"

lemma pending_sound_refl [simp]: "pending_sound st st"
  by (simp add: pending_sound_def)

lemma pending_sound_trans: "pending_sound st st' \<Longrightarrow> pending_sound st' st'' \<Longrightarrow> pending_sound st st''"
  by (auto simp: pending_sound_def intro: simulates_trans)

lemma ingest_kind_skeleton:
  "ingest_kind imp now score c = (c', delta, response) \<Longrightarrow> cell_skeleton c' = cell_skeleton c \<and> (nc_state c \<noteq> Dead \<longrightarrow> nc_state c' \<noteq> Dead)"
  by (cases "im_kind imp") (auto simp: ingest_kind_def bump_salience_def cell_skeleton_def Let_def split: if_splits)

lemma ingest_skeleton:
  assumes "ingest table imp now c = (c', answer)"
  shows "cell_skeleton c' = cell_skeleton c" "nc_state c' = Dead \<longleftrightarrow> nc_state c = Dead"
proof -
  have "cell_skeleton c' = cell_skeleton c \<and> (nc_state c' = Dead \<longleftrightarrow> nc_state c = Dead)"
  proof (cases "nc_state c = Dead")
    case True
    then show ?thesis using assms by (simp add: ingest_def)
  next
    case alive: False
    show ?thesis
    proof (cases "pattern_match table (nc_affinity c) (sp_core_pattern (nc_seed c)) (im_pattern imp) (im_strength imp) (im_tags imp)")
      case None
      then show ?thesis using assms alive by (auto simp: ingest_def cell_skeleton_def)
    next
      case (Some score)
      define c1 where "c1 = (if im_kind imp = Affect \<and> starts_with (im_pattern imp) ''affect/'' \<and> f32_ge score (f32_dec 6 1)
        then bump_salience (f32_mul (f32_dec 15 2) (im_strength imp)) c else c)"
      have c1: "cell_skeleton c1 = cell_skeleton c" "nc_state c1 \<noteq> Dead" using alive by (simp_all add: c1_def bump_salience_def cell_skeleton_def)
      obtain c2 delta response where k: "ingest_kind imp now score c1 = (c2, delta, response)" using prod_cases3 by blast
      have "ingest table imp now c = (let (c, delta, response) = ingest_kind imp now score c1
          in (c\<lparr>nc_energy := f32_clamp f32_zero f32_one (f32_add (nc_energy c) delta)\<rparr>, Some response))"
        unfolding ingest_def c1_def Let_def Some option.case using alive by (simp only: if_False)
      then have "c' = c2\<lparr>nc_energy := f32_clamp f32_zero f32_one (f32_add (nc_energy c2) delta)\<rparr>" using assms k by simp
      then show ?thesis using ingest_kind_skeleton [OF k] c1 alive by (simp add: cell_skeleton_def)
    qed
  qed
  then show "cell_skeleton c' = cell_skeleton c" "nc_state c' = Dead \<longleftrightarrow> nc_state c = Dead" by blast+
qed

lemma deliver_sound: "pending_sound (ro_field r, ro_deltas r) (ro_field (deliver env imp i r), ro_deltas (deliver env imp i r))"
proof (cases "get_cell (ro_field r) i")
  case None
  then show ?thesis by (simp add: deliver_def)
next
  case (Some c)
  define f where "f = ro_field r"
  define J where "J = journal_app (cf_journal f) (ro_deltas r)"
  have c: "cells_of f i = Some c" "get_cell f i = Some c" using Some by (simp_all add: f_def get_cell_of)
  obtain c1 answer where a: "ingest (fe_lower env) imp (cf_now_ms f) c = (c1, answer)" by fastforce
  note sk = ingest_skeleton [OF a]
  show ?thesis
  proof (cases answer)
    case None
    have "simulates {} (cells_of f, cf_now_ms f, J) ({} - {i}) ((cells_of f)(i \<mapsto> c1), cf_now_ms f, J)"
      using c(1) sk by (rule silent_step)
    then show ?thesis using Some None a field_wf_set [OF _ c(2) sk]
      by (simp add: deliver_def Let_def pending_sound_def pending_view_def J_def f_def)
  next
    case (Some response)
    define c2 where "c2 = c1\<lparr>nc_last_response_ms := cf_now_ms f\<rparr>"
    have sk2: "cell_skeleton c2 = cell_skeleton c" "nc_state c2 = Dead \<longleftrightarrow> nc_state c = Dead"
      using sk by (simp_all add: c2_def cell_skeleton_def)
    have "simulates {} (cells_of f, cf_now_ms f, J) (insert i {}) ((cells_of f)(i \<mapsto> c2), cf_now_ms f, journal_app J [energy_delta i c2])"
      using c(1) sk2 by (rule energy_step)
    then have "simulates {} (cells_of f, cf_now_ms f, J) {} ((cells_of f)(i \<mapsto> c2), cf_now_ms f, journal_app J [energy_delta i c2])"
      by (rule simulates_mono) simp
    then show ?thesis using \<open>get_cell (ro_field r) i = Some c\<close> Some a field_wf_set [OF _ c(2) sk2]
      by (simp add: deliver_def Let_def pending_sound_def pending_view_def J_def f_def c2_def)
  qed
qed

lemma push_same:
  "core (push_routes imp nodes t f) = core f" "cf_journal (push_routes imp nodes t f) = cf_journal f"
  "core (push_hits env imp rs t f) = core f" "cf_journal (push_hits env imp rs t f) = cf_journal f"
proof -
  show "core (push_routes imp nodes t f) = core f" "cf_journal (push_routes imp nodes t f) = cf_journal f"
    by (simp_all add: push_routes_def core_def)
  have "cf_journal (record_token_hit env t i s l g) = cf_journal g" for i s l and g :: "'a ClusterField"
    by (simp add: record_token_hit_def Let_def)
  then show "core (push_hits env imp rs t f) = core f" "cf_journal (push_hits env imp rs t f) = cf_journal f"
    unfolding push_hits_def by (induction rs arbitrary: f) (auto simp: core_token_hit)
qed

lemma journal_route_sequence [simp]: "cf_journal (record_route_sequence env ids f) = cf_journal f"
  by (induction env ids f rule: record_route_sequence.induct)
    (simp_all add: Let_def record_route_pair_def record_link_hit_def split: option.split)

lemma hormone_sound: "sound f (fst (hormone_impulse imp f))"
  by (rule sound_same) (simp_all add: hormone_impulse_def apply_dampening_def core_def)

lemma sound_pending: "sound f f' \<longleftrightarrow> pending_sound (f, []) (f', [])"
  by (simp add: sound_def pending_sound_def view_def pending_view_def)

lemma route_impulse_sound: "sound f (fst (route_impulse env imp f))"
proof -
  define tokens where "tokens = tokenize (fe_lower env) (im_pattern imp)"
  define f1 where "f1 = fst (hormone_impulse imp f)"
  define st where "st = fold (process_reflex_for env imp) (first_seen tokens) (f1, snd (hormone_impulse imp f), {})"
  define f2 where "f2 = fst st"
  define best where "best = take 3 (map snd (scored_candidates env imp tokens f2))"
  define r0 where "r0 = \<lparr>ro_field = f2, ro_logs = fst (snd st), ro_deltas = [], ro_responded = []\<rparr>"
  define r where "r = fold (deliver env imp) best r0"
  define seen where "seen = fe_tokens env (first_seen tokens)"
  define f3 where "f3 = record_route_sequence env (map fst (ro_responded r)) (ro_field r)"
  define f4 where "f4 = fold (push_routes imp (map fst (ro_responded r))) seen f3"
  define f5 where "f5 = (if ro_responded r = [] then f4 else fold (push_hits env imp (ro_responded r)) seen f4)"
  have route: "fst (route_impulse env imp f) = emit_all (ro_deltas r) (f5\<lparr>cf_ticks_since_impulse := 0\<rparr>)"
    by (simp add: route_impulse_def Let_def case_prod_unfold tokens_def f1_def st_def f2_def best_def r0_def r_def seen_def f3_def f4_def f5_def)
  have "sound f f1" unfolding f1_def by (rule hormone_sound)
  moreover have "sound f1 f2"
    using sound_fold_by [of fst "process_reflex_for env imp", OF process_reflex_sound, where st = "(f1, snd (hormone_impulse imp f), {})"]
    by (simp add: f2_def st_def)
  ultimately have s12: "pending_sound (f, []) (f2, [])" unfolding sound_pending [symmetric] by (rule sound_trans)
  have "pending_sound (ro_field q, ro_deltas q) (ro_field (fold (deliver env imp) best q), ro_deltas (fold (deliver env imp) best q))" for q :: "'a routing"
    by (induction best arbitrary: q) (auto intro: pending_sound_trans deliver_sound)
  from this [of r0] have s3: "pending_sound (f2, []) (ro_field r, ro_deltas r)" by (simp add: r_def r0_def)
  have "core f5 = core (ro_field r)" "cf_journal f5 = cf_journal (ro_field r)"
    unfolding f5_def f4_def f3_def by (simp_all add: core_fold journal_fold push_same core_route_sequence)
  then have same: "core (f5\<lparr>cf_ticks_since_impulse := 0\<rparr>) = core (ro_field r)" "cf_journal (f5\<lparr>cf_ticks_since_impulse := 0\<rparr>) = cf_journal (ro_field r)"
    by (simp_all add: core_def)
  have "view (fst (route_impulse env imp f)) = pending_view (ro_field r, ro_deltas r)"
    unfolding route view_emit_all pending_view_def fst_conv snd_conv using cells_of_core [OF same(1)] coreD(2) [OF same(1)] same(2) by simp
  moreover have "field_wf (fst (route_impulse env imp f)) = field_wf (ro_field r)"
    unfolding route using field_wf_core [OF core_emit_all] field_wf_core [OF same(1)] by blast
  ultimately show ?thesis using pending_sound_trans [OF s12 s3]
    by (simp add: sound_def pending_sound_def) (simp add: view_def pending_view_def)
qed

section \<open>Trimming and budding\<close>

lemma replay_deaths: "fold cells_apply (map EvDead is) (n, s) = ((\<lambda>i. if i \<in> set is then None else n i), s)"
  by (induction "is" arbitrary: n) (auto simp: fun_eq_iff)

lemma fade_cell_same [simp]:
  "cell_skeleton (fade_cell now coins i c) = cell_skeleton c" "nc_energy (fade_cell now coins i c) = nc_energy c"
  "trim_protected (fade_cell now coins i c) = trim_protected c" "nc_state c = Dead \<Longrightarrow> nc_state (fade_cell now coins i c) = Dead"
  "trim_protected c \<Longrightarrow> fade_cell now coins i c = c"
  by (simp_all add: fade_cell_def cell_skeleton_def trim_protected_def Let_def)

lemma f32_le_or_gt: "x \<noteq> F32NaN \<Longrightarrow> y \<noteq> F32NaN \<Longrightarrow> f32_le x y \<or> f32_gt x y"
  by (auto simp: f32_le_def f32_ge_def f32_gt_iff f32_partial_cmp_def cmp_def)

lemma not_both_le_gt: "f32_le x y \<Longrightarrow> \<not> f32_gt x y"
  by (auto simp: f32_le_def f32_ge_def f32_gt_iff f32_partial_cmp_def cmp_def split: if_splits)

lemma trim_choice:
  assumes "nc_energy c \<noteq> F32NaN" "nc_state c \<noteq> Dead"
  shows "trim_keeps (fade_cell now coins i c) \<longleftrightarrow> \<not> trim_victim (fade_cell now coins i c)"
proof (cases "trim_protected c")
  case True
  then show ?thesis using assms(2) by (simp add: trim_keeps_def trim_victim_def)
next
  case False
  have "f32_dec 1 1 \<noteq> F32NaN" by (simp add: f32_order_simps)
  then have "f32_le (nc_energy c) (f32_dec 1 1) \<longleftrightarrow> \<not> f32_gt (nc_energy c) (f32_dec 1 1)"
    using f32_le_or_gt [OF assms(1)] not_both_le_gt by blast
  then show ?thesis using False by (auto simp: trim_keeps_def trim_victim_def)
qed

lemma trim_core:
  fixes coins :: "u64 \<Rightarrow> bool \<times> bool"
  assumes "env_ok env" "bt_wf (cf_cells f)"
  defines "g \<equiv> \<lambda>i. fade_cell (cf_now_ms f) coins i"
  obtains victims where "set victims = {i. \<exists>c. cells_of f i = Some c \<and> trim_victim (g i c)}"
    "view (trim_low_energy env coins f) = ((\<lambda>i. case cells_of f i of None \<Rightarrow> None | Some c \<Rightarrow> if trim_keeps (g i c) then Some (g i c) else None),
       cf_now_ms f, journal_app (cf_journal f) (map EvDead victims))" "bt_wf (cf_cells (trim_low_energy env coins f))"
proof -
  define f1 where "f1 = f\<lparr>cf_cells := bt_map_values g (cf_cells f)\<rparr>"
  define victims where "victims = filter (\<lambda>i. case get_cell f1 i of None \<Rightarrow> False | Some c \<Rightarrow> trim_victim c) (cell_ids env f1)"
  define f2 where "f2 = f1\<lparr>cf_cells := bt_retain (\<lambda>_. trim_keeps) (cf_cells f1)\<rparr>"
  define f3 where "f3 = (if length (cf_cells f2) \<noteq> length (cf_cells f) then rebuild_index env f2 else f2)"
  define f4 where "f4 = fold (\<lambda>i f. purge_tracking_for i (emit (EvDead i) f)) victims f3"
  have trim: "trim_low_energy env coins f = refresh_important_cells f4"
    by (simp add: trim_low_energy_def Let_def f1_def victims_def f2_def f3_def f4_def g_def [abs_def])
  have f1: "cells_of f1 i = map_option (g i) (cells_of f i)" "bt_wf (cf_cells f1)" for i
    using assms(2) by (simp_all add: f1_def cells_of_def get_cell_def)
  have set_victims: "set victims = {i. \<exists>c. cells_of f i = Some c \<and> trim_victim (g i c)}"
    using assms(1) f1(1) unfolding victims_def cell_ids_def env_ok_def
    by (auto simp: bt_keys_iff get_cell_of split: option.splits) (auto simp: cells_of_def get_cell_def)
  have "core f4 = core f3" unfolding f4_def by (rule core_fold) (simp add: core_purge core_emit)
  then have core4: "core (trim_low_energy env coins f) = core f2" by (simp add: trim core_refresh f3_def core_rebuild)
  have "cf_journal (fold (\<lambda>i f. purge_tracking_for i (emit (EvDead i) f)) is h) = journal_app (cf_journal h) (map EvDead is)" for "is" and h :: "'a ClusterField"
    by (induction "is" arbitrary: h) simp_all
  then have journal: "cf_journal (trim_low_energy env coins f) = journal_app (cf_journal f) (map EvDead victims)"
    by (simp add: trim f4_def f3_def f2_def f1_def)
  have cells: "cells_of f2 = (\<lambda>i. case cells_of f i of None \<Rightarrow> None | Some c \<Rightarrow> if trim_keeps (g i c) then Some (g i c) else None)"
  proof
    fix i
    have "cells_of f2 i = (case cells_of f1 i of None \<Rightarrow> None | Some c \<Rightarrow> if trim_keeps c then Some c else None)"
      using f1(2) by (simp add: f2_def cells_of_def get_cell_def bt_get_retain)
    then show "cells_of f2 i = (case cells_of f i of None \<Rightarrow> None | Some c \<Rightarrow> if trim_keeps (g i c) then Some (g i c) else None)"
      by (simp add: f1(1) split: option.split)
  qed
  have now: "cf_now_ms f2 = cf_now_ms f" "bt_wf (cf_cells f2)" using f1(2) by (simp_all add: f2_def f1_def)
  show thesis
  proof (rule that [OF set_victims])
    show "view (trim_low_energy env coins f) = ((\<lambda>i. case cells_of f i of None \<Rightarrow> None | Some c \<Rightarrow> if trim_keeps (g i c) then Some (g i c) else None),
       cf_now_ms f, journal_app (cf_journal f) (map EvDead victims))"
      unfolding view_def cells_of_core [OF core4] coreD(2) [OF core4] cells now(1) journal ..
    show "bt_wf (cf_cells (trim_low_energy env coins f))" unfolding coreD(1) [OF core4] by (rule now(2))
  qed
qed

lemma fade_id [simp]: "nc_id (fade_cell now coins i c) = nc_id c"
  by (simp add: fade_cell_def Let_def)

lemma trim_sound:
  assumes "env_ok env" "\<And>i c. cells_of f i = Some c \<Longrightarrow> nc_energy c \<noteq> F32NaN"
  shows "sound f (trim_low_energy env coins f)"
proof -
  define g where "g = (\<lambda>i. fade_cell (cf_now_ms f) coins i)"
  define m where "m = (\<lambda>i. case cells_of f i of None \<Rightarrow> None | Some c \<Rightarrow> if trim_keeps (g i c) then Some (g i c) else None)"
  {
    assume wf: "field_wf f"
    then have "bt_wf (cf_cells f)" by (simp add: field_wf_def)
    from trim_core [OF assms(1) this, of coins] obtain victims where
      v: "set victims = {i. \<exists>c. cells_of f i = Some c \<and> trim_victim (g i c)}"
        "view (trim_low_energy env coins f) = (m, cf_now_ms f, journal_app (cf_journal f) (map EvDead victims))"
        "bt_wf (cf_cells (trim_low_energy env coins f))"
      unfolding g_def m_def by blast
    have "simulates {} (cells_of f, cf_now_ms f, cf_journal f) {} (m, cf_now_ms f, journal_app (cf_journal f) (map EvDead victims))"
    proof (rule simulatesI)
      fix p assume p: "sim {} p (cells_of f, cf_now_ms f)"
      obtain n s where ns: "p = (n, s)" by (cases p)
      have "rel_option (cell_sim False) (if i \<in> set victims then None else n i) (alive_cell (m i))" for i
      proof -
        have rel: "rel_option (cell_sim False) (n i) (alive_cell (cells_of f i))" using sim_get(2) [OF p [unfolded ns], of i] by simp
        show ?thesis
        proof (cases "cells_of f i")
          case None
          then show ?thesis using rel by (simp add: m_def alive_cell_def)
        next
          case (Some c)
          show ?thesis
          proof (cases "nc_state c = Dead")
            case True
            then have "\<not> trim_keeps (g i c)" by (simp add: g_def trim_keeps_def)
            then show ?thesis using rel Some True by (simp add: m_def alive_cell_def)
          next
            case False
            have choice: "trim_keeps (g i c) \<longleftrightarrow> i \<notin> set victims"
              using trim_choice [OF assms(2) [OF Some] False] Some by (simp add: v(1) g_def)
            have "trim_keeps (g i c) \<Longrightarrow> nc_state (g i c) \<noteq> Dead" by (simp add: trim_keeps_def split: if_splits)
            then show ?thesis using rel Some False choice
              by (cases "n i") (auto simp: m_def alive_cell_def cell_sim_def g_def)
          qed
        qed
      qed
      then show "sim {} (fold cells_apply (map EvDead victims) p) (m, cf_now_ms f)"
        using sim_get(1) [OF p [unfolded ns]] by (simp add: ns replay_deaths sim_def)
    qed
    moreover have "field_wf (trim_low_energy env coins f)"
    proof -
      have "cells_of (trim_low_energy env coins f) = m" using v(2) by (simp add: view_def)
      then show ?thesis using wf v(3)
        by (auto simp: field_wf_def m_def g_def trim_keeps_def split: option.splits if_splits)
    qed
    ultimately have "field_wf (trim_low_energy env coins f) \<and> simulates {} (view f) {} (view (trim_low_energy env coins f))"
      by (simp add: v(2)) (simp add: view_def)
  }
  then show ?thesis by (simp add: sound_def)
qed

definition bud_view :: "'j ClusterField \<times> (u64 \<times> u64) list \<Rightarrow> 'j ClusterField \<times> EventDelta list" where
  "bud_view st = (fst st, map (\<lambda>(from, to). EvLink from to) (snd st))"

lemma bud_link_sound: "pending_sound (bud_view st) (bud_view (bud_link i coin j st))"
proof -
  obtain f links where st: "st = (f, links)" by (cases st)
  show ?thesis
  proof (cases "get_cell f j")
    case None
    then show ?thesis by (simp add: st bud_link_def)
  next
    case (Some other)
    define c' where "c' = other\<lparr>nc_links := insert i (nc_links other)\<rparr>"
    define J where "J = journal_app (cf_journal f) (map (\<lambda>(from, to). EvLink from to) links)"
    have "simulates {} (cells_of f, cf_now_ms f, J) {} ((cells_of f)(j \<mapsto> c'), cf_now_ms f, journal_app J [EvLink j i])"
      unfolding c'_def using Some by (intro link_step) (simp add: get_cell_of)
    moreover have "field_wf f \<Longrightarrow> field_wf (set_cell j c' f)" "field_wf f \<Longrightarrow> nc_id other = j"
      using Some by (auto simp: field_wf_def get_cell_of c'_def)
    ultimately show ?thesis using Some
      by (auto simp: st bud_link_def pending_sound_def bud_view_def pending_view_def J_def c'_def)
  qed
qed

lemma inject_sound: "sound f (inject_seed_variation env jitter extra coin seed f)"
proof (cases "64 < length (cf_cells f)")
  case True
  then show ?thesis by (simp add: inject_seed_variation_def)
next
  case False
  define params where "params = create_seed (fe_rng env) seed"
  define i where "i = cf_next_id f"
  define affinity where "affinity = f32_clamp f32_zero f32_one (f32_add (sp_affinity params) jitter)"
  define c where "c = (from_seed_params i params)\<lparr>nc_affinity := affinity,
    nc_seed := params\<lparr>sp_affinity := affinity, sp_core_pattern := sp_core_pattern params @ '':bud'' @ dec_digits (unat i)\<rparr>,
    nc_energy := f32_add (f32_dec 5 1) extra, nc_last_response_ms := cf_now_ms f\<rparr>"
  define f1 where "f1 = emit (EvSpawn (cell_snapshot c)) (attach_cell env c (f\<lparr>cf_next_id := i + 1\<rparr>))"
  define st where "st = fold (bud_link i coin) (cell_ids env f1) (f1, [])"
  define f2 where "f2 = emit_all (map (\<lambda>(from, to). EvLink from to) (snd st)) (fst st)"
  have inject: "inject_seed_variation env jitter extra coin seed f = fold (\<lambda>(from, to). register_link from to) (snd st) f2"
    using False by (simp add: inject_seed_variation_def Let_def case_prod_unfold params_def i_def affinity_def c_def f1_def st_def f2_def)
  have "sound f f1" unfolding f1_def by (rule sound_spawn) (simp add: c_def)
  then have s1: "pending_sound (f, []) (f1, [])" by (simp add: sound_pending)
  have fold_bud: "pending_sound (bud_view q) (bud_view (fold (bud_link i coin) js q))" for js and q :: "'a ClusterField \<times> (u64 \<times> u64) list"
  proof (induction js arbitrary: q)
    case (Cons j js)
    show ?case using pending_sound_trans [OF bud_link_sound Cons.IH] by simp
  qed simp
  have "pending_sound (f1, []) (bud_view st)" using fold_bud [of "(f1, [])" "cell_ids env f1"] by (simp add: st_def bud_view_def)
  then have "pending_sound (f, []) (bud_view st)" by (rule pending_sound_trans [OF s1])
  moreover have "view f2 = pending_view (bud_view st)" "field_wf f2 = field_wf (fst (bud_view st))"
    by (simp_all add: f2_def view_emit_all bud_view_def field_wf_core [OF core_emit_all])
  ultimately have "sound f f2" by (simp add: sound_def pending_sound_def) (simp add: view_def pending_view_def)
  moreover have "sound f2 (fold (\<lambda>(from, to). register_link from to) (snd st) f2)"
    by (rule sound_same) (auto intro!: core_fold journal_fold simp: core_register split: prod.split)
  ultimately show ?thesis unfolding inject by (rule sound_trans)
qed

section \<open>Links, regulator and reflex loop\<close>

lemma sound_unregister: "sound f (unregister_link i j f)" "sound f (register_link i j f)"
  by (rule sound_same; simp add: core_register core_unregister)+

lemma link_ops_sound:
  "sound f (fst (adjust_link_score i j delta f))" "sound f (fst (prune_link i j f))" "sound f (fst (rewire_lonely env i f))"
proof -
  show "sound f (fst (adjust_link_score i j delta f))"
    by (rule sound_same) (simp_all add: adjust_link_score_def Let_def core_def split: option.split)
  show "sound f (fst (prune_link i j f))"
  proof (cases "get_cell f i")
    case (Some c)
    define c' where "c' = c\<lparr>nc_links := nc_links c - {j}\<rparr>"
    define f1 where "f1 = unregister_link i j (set_cell i c' f)"
    have f1: "cells_of f1 = (cells_of f)(i \<mapsto> c')" "cf_now_ms f1 = cf_now_ms f" "cf_journal f1 = cf_journal f" "core f1 = core (set_cell i c' f)"
      by (simp_all add: f1_def cells_of_core [OF core_unregister] coreD [OF core_unregister] core_unregister)
    have "simulates {} (cells_of f, cf_now_ms f, cf_journal f) {} ((cells_of f)(i \<mapsto> c'), cf_now_ms f, journal_app (cf_journal f) [EvUnlink i j])"
      unfolding c'_def using Some by (intro unlink_step) (simp add: get_cell_of)
    moreover have "field_wf f \<Longrightarrow> field_wf (emit (EvUnlink i j) f1)"
      using Some unfolding field_wf_core [OF core_emit] field_wf_core [OF f1(4)] by (auto simp: field_wf_def get_cell_of c'_def)
    ultimately have "sound f (emit (EvUnlink i j) f1)" by (simp add: sound_def f1) (simp add: view_def)
    then show ?thesis using Some by (simp add: prune_link_def f1_def c'_def)
  qed (simp add: prune_link_def)
  show "sound f (fst (rewire_lonely env i f))"
  proof (cases "get_cell f i")
    case (Some c)
    show ?thesis
    proof (cases "fold (nearer f i (nc_affinity c) (nc_links c)) (cell_ids env f) None")
      case None
      then show ?thesis using Some by (auto simp: rewire_lonely_def)
    next
      case near: (Some p)
      define j where "j = fst p"
      define c' where "c' = c\<lparr>nc_links := insert j (nc_links c)\<rparr>"
      define f1 where "f1 = register_link i j (set_cell i c' f)"
      have f1: "cells_of f1 = (cells_of f)(i \<mapsto> c')" "cf_now_ms f1 = cf_now_ms f" "cf_journal f1 = cf_journal f" "core f1 = core (set_cell i c' f)"
        by (simp_all add: f1_def cells_of_core [OF core_register] coreD [OF core_register] core_register)
      have "simulates {} (cells_of f, cf_now_ms f, cf_journal f) {} ((cells_of f)(i \<mapsto> c'), cf_now_ms f, journal_app (cf_journal f) [EvLink i j])"
        unfolding c'_def using Some by (intro link_step) (simp add: get_cell_of)
      moreover have "simulates {} ((cells_of f)(i \<mapsto> c'), cf_now_ms f, journal_app (cf_journal f) [EvLink i j]) {}
          ((cells_of f)(i \<mapsto> c'), cf_now_ms f, journal_app (journal_app (cf_journal f) [EvLink i j]) [EvDreamRewire i j])"
        by (rule rewired_step [of _ i c']) (simp_all add: c'_def)
      moreover have "field_wf f \<Longrightarrow> field_wf (emit (EvDreamRewire i j) (emit (EvLink i j) f1))"
        using Some unfolding field_wf_core [OF core_emit] field_wf_core [OF f1(4)] by (auto simp: field_wf_def get_cell_of c'_def)
      ultimately have "sound f (emit (EvDreamRewire i j) (emit (EvLink i j) f1))"
        by (auto simp: sound_def f1 view_def intro: simulates_trans)
      then show ?thesis using Some near by (auto simp: rewire_lonely_def f1_def c'_def j_def case_prod_unfold)
    qed
  qed (simp add: rewire_lonely_def)
qed

lemma trs_sound:
  "sound f (set_trs_config cfg f)" "sound f (set_trs_target target f)" "sound f (apply_trs_output now load out f)"
proof -
  have same: "sound f (f\<lparr>cf_trs := a, cf_harmony := b\<rparr>)" "sound f (f\<lparr>cf_trs := a\<rparr>)" "sound f (f\<lparr>cf_harmony := b\<rparr>)" for a b
    by (rule sound_same; simp add: core_def)+
  show "sound f (set_trs_config cfg f)"
    unfolding set_trs_config_def Let_def by (rule sound_trans [OF same(1) sound_emit]) simp
  show "sound f (set_trs_target target f)"
    unfolding set_trs_target_def Let_def by (rule sound_trans [OF same(2) sound_emit]) simp
  show "sound f (apply_trs_output now load out f)"
    unfolding apply_trs_output_def Let_def by (rule sound_trans [OF sound_trans [OF same(3) sound_emit] sound_emit]) simp_all
qed

lemma action_same: "core (apply_action now a f) = core f" "cf_journal (apply_action now a f) = cf_journal f"
  by (cases a; simp add: apply_action_def drain_route_bias_def apply_dampening_def Let_def core_def)+

lemma reflex_snapshot_sound: "sound f (fst (record_reflex_snapshot order snap f))"
proof (rule sound_same)
  have same: "core (f\<lparr>cf_reflex_feedback := a\<rparr>) = core f" "cf_journal (f\<lparr>cf_reflex_feedback := a\<rparr>) = cf_journal f"
    "core (f\<lparr>cf_reflex_reports := b\<rparr>) = core f" "cf_journal (f\<lparr>cf_reflex_reports := b\<rparr>) = cf_journal f" for a b and f :: "'a ClusterField"
    by (simp_all add: core_def)
  show "core (fst (record_reflex_snapshot order snap f)) = core f" "cf_journal (fst (record_reflex_snapshot order snap f)) = cf_journal f"
    by (auto simp: record_reflex_snapshot_def Let_def case_prod_unfold same action_same split: option.split)
qed

end
