(* ===== verification/Field_Dreams.thy ===== *)
theory Field_Dreams
  imports Field_Sound
begin

text \<open>
  Dreams, \<open>dream_engine.rs\<close> and the operations of \<open>cluster_field.rs\<close> they use: links between cells
  that answered together are strengthened, the rarest are weakened, and a link that has become too weak
  is cut and lonely cells are linked anew.  The time a dream takes is an argument.
\<close>

section \<open>Pairs of cells that answered together\<close>

record PairStat =
  ps_u :: u64
  ps_v :: u64
  ps_freq :: f32
  ps_avg_strength :: f32

type_synonym pair_accum = "(u64 \<times> u64, u32 \<times> f32) btree_map"

fun pair_scan :: "u64 \<Rightarrow> RecentRoute \<Rightarrow> RecentRoute list \<Rightarrow> pair_accum \<Rightarrow> pair_accum" where
  "pair_scan window_ms left [] accum = accum"
| "pair_scan window_ms left (right # rest) accum =
     (if window_ms < saturating_sub (rt_ts right) (rt_ts left) then accum
      else if rt_node left = rt_node right then pair_scan window_ms left rest accum
      else
        let key = (if rt_node left < rt_node right then (rt_node left, rt_node right) else (rt_node right, rt_node left));
            strength = f32_mul (f32_add (rt_strength left) (rt_strength right)) (f32_dec 5 1)
        in pair_scan window_ms left rest
             (bt_entry key (0, f32_zero) (\<lambda>(n, total_strength). (saturating_add_u32 n 1, f32_add total_strength strength)) accum))"

fun pairs_scan :: "u64 \<Rightarrow> RecentRoute list \<Rightarrow> pair_accum \<Rightarrow> pair_accum" where
  "pairs_scan window_ms [] accum = accum"
| "pairs_scan window_ms (left # rest) accum = pairs_scan window_ms rest (pair_scan window_ms left rest accum)"

definition history_pairs :: "u64 \<Rightarrow> u64 \<Rightarrow> RecentRoute list \<Rightarrow> pair_accum \<Rightarrow> pair_accum" where
  "history_pairs cutoff window_ms history accum =
     (let relevant = filter (\<lambda>entry. cutoff \<le> rt_ts entry) history
      in if length relevant < 2 then accum else pairs_scan window_ms relevant accum)"

definition pair_stat :: "u64 \<times> u64 \<Rightarrow> u32 \<times> f32 \<Rightarrow> PairStat" where
  "pair_stat key entry =
     \<lparr>ps_u = fst key, ps_v = snd key, ps_freq = f32_of_nat (unat (fst entry)),
      ps_avg_strength = (if 0 < fst entry then f32_div (snd entry) (f32_of_nat (unat (fst entry))) else f32_zero)\<rparr>"

definition collect_recent_pairs :: "field_env \<Rightarrow> u32 \<Rightarrow> 'j ClusterField \<Rightarrow> PairStat list" where
  "collect_recent_pairs env window_ms f =
     (let cutoff = saturating_sub (cf_now_ms f) (ucast window_ms);
          accum = fold (history_pairs cutoff (ucast window_ms)) (visit_values (fe_tokens env) (cf_recent_routes f)) []
      in List.map_filter (\<lambda>key. map_option (pair_stat key) (bt_get accum key)) (fe_pairs env (bt_keys accum)))"

section \<open>Deltas of a dream\<close>

definition dream_edge :: "u64 \<Rightarrow> u64 \<Rightarrow> f32 \<Rightarrow> f32 \<Rightarrow> 'j ClusterField \<Rightarrow> DreamEdgeDelta" where
  "dream_edge from to freq avg_strength f =
     \<lparr>de_from = from, de_to = to, de_score = link_score f from to, de_freq = freq, de_avg_strength = avg_strength\<rparr>"

definition emit_dream_strengthen :: "u64 \<Rightarrow> u64 \<Rightarrow> f32 \<Rightarrow> f32 \<Rightarrow> 'j ClusterField \<Rightarrow> 'j ClusterField" where
  "emit_dream_strengthen from to freq avg_strength f = emit (EvDreamStrengthen (dream_edge from to freq avg_strength f)) f"

definition emit_dream_weaken :: "u64 \<Rightarrow> u64 \<Rightarrow> f32 \<Rightarrow> f32 \<Rightarrow> 'j ClusterField \<Rightarrow> 'j ClusterField" where
  "emit_dream_weaken from to freq avg_strength f = emit (EvDreamWeaken (dream_edge from to freq avg_strength f)) f"

definition emit_dream_prune :: "u64 \<Rightarrow> u64 \<Rightarrow> 'j ClusterField \<Rightarrow> 'j ClusterField" where
  "emit_dream_prune from to f = emit (EvDreamPrune from to) f"

definition record_dream_report :: "u64 \<Rightarrow> DreamReport \<Rightarrow> 'j ClusterField \<Rightarrow> 'j ClusterField" where
  "record_dream_report now_ms report f =
     emit (EvDreamReport now_ms report)
       (f\<lparr>cf_sync_log := record_dream now_ms report (cf_sync_log f),
         cf_dream_reports := push_bounded 16 (now_ms, report) (cf_dream_reports f)\<rparr>)"

definition set_dream_config :: "DreamConfig \<Rightarrow> 'j ClusterField \<Rightarrow> 'j ClusterField" where
  "set_dream_config cfg f = emit (EvDreamConfig cfg) (f\<lparr>cf_dream_cfg := cfg\<rparr>)"

section \<open>The dream\<close>

definition protects :: "DreamConfig \<Rightarrow> 'j ClusterField \<Rightarrow> u64 \<Rightarrow> bool" where
  "protects cfg f i \<longleftrightarrow>
     (case get_cell f i of None \<Rightarrow> False
      | Some c \<Rightarrow> f32_ge (nc_salience c) (dc_protect_salience cfg) \<or> dc_adreno_protect cfg \<and> nc_adreno_tag c)"

definition should_protect :: "DreamConfig \<Rightarrow> 'j ClusterField \<Rightarrow> u64 \<Rightarrow> u64 \<Rightarrow> bool" where
  "should_protect cfg f u v \<longleftrightarrow> protects cfg f u \<or> protects cfg f v"

definition has_link :: "'j ClusterField \<Rightarrow> u64 \<Rightarrow> u64 \<Rightarrow> bool" where
  "has_link f a b \<longleftrightarrow> (case get_cell f a of None \<Rightarrow> False | Some c \<Rightarrow> b \<in> nc_links c)"

definition pick_direction :: "'j ClusterField \<Rightarrow> u64 \<Rightarrow> u64 \<Rightarrow> (u64 \<times> u64) option" where
  "pick_direction f a b = (if has_link f a b then Some (a, b) else if has_link f b a then Some (b, a) else None)"

definition dream_report_default :: DreamReport where
  "dream_report_default = \<lparr>dr_strengthened = 0, dr_weakened = 0, dr_pruned = 0, dr_protected = 0, dr_rewired = 0, dr_took_ms = 0\<rparr>"

record 'j dreaming =
  dm_field :: "'j ClusterField"
  dm_report :: DreamReport
  dm_ops :: u32
  dm_touched :: "(u64 \<times> u64) set"

text \<open>Both loops stop when no operation is left; a step is then without effect.\<close>

definition dream_protected :: "'j dreaming \<Rightarrow> 'j dreaming" where
  "dream_protected st = st\<lparr>dm_report := (dm_report st)\<lparr>dr_protected := dr_protected (dm_report st) + 1\<rparr>\<rparr>"

definition strengthen_step :: "DreamConfig \<Rightarrow> PairStat \<Rightarrow> 'j dreaming \<Rightarrow> 'j dreaming" where
  "strengthen_step cfg entry st =
     (let u = ps_u entry; v = ps_v entry; f = dm_field st; report = dm_report st in
      if dm_ops st = 0 then st
      else if should_protect cfg f u v then dream_protected st
      else if (u, v) \<in> dm_touched st then st
      else
        let st = st\<lparr>dm_touched := insert (u, v) (dm_touched st)\<rparr>
        in case pick_direction f u v of None \<Rightarrow> st
           | Some (from, to) \<Rightarrow>
               let (f, changed) = adjust_link_score from to (f32_dec 15 2) f
               in if changed
                  then st\<lparr>dm_ops := saturating_sub_u32 (dm_ops st) 1, dm_report := report\<lparr>dr_strengthened := dr_strengthened report + 1\<rparr>,
                          dm_field := emit_dream_strengthen from to (ps_freq entry) (ps_avg_strength entry) f\<rparr>
                  else st\<lparr>dm_field := f\<rparr>)"

text \<open>Cutting a link that is too weak, and what follows while operations are left.\<close>

definition prune_weak :: "field_env \<Rightarrow> u64 \<Rightarrow> u64 \<Rightarrow> 'j dreaming \<Rightarrow> 'j dreaming" where
  "prune_weak env from to st =
     (let f = dm_field st in
      if \<not> f32_le (link_score f from to) (f32_dec 25 2) then st
      else
        let (f, pruned) = prune_link from to f; report = dm_report st in
        if \<not> pruned then st\<lparr>dm_field := f\<rparr>
        else
          let f = emit_dream_prune from to f;
              ops = saturating_sub_u32 (dm_ops st) 1;
              report = report\<lparr>dr_pruned := dr_pruned report + 1\<rparr>
          in if ops = 0 then st\<lparr>dm_field := f, dm_report := report, dm_ops := ops\<rparr>
             else
               let (f, a) = rewire_lonely env from f; (f, b) = rewire_lonely env to f;
                   a = (case a of None \<Rightarrow> 0 | Some n \<Rightarrow> n); b = (case b of None \<Rightarrow> 0 | Some n \<Rightarrow> n);
                   rewired = saturating_add_u32 a b
               in st\<lparr>dm_field := f, dm_report := report\<lparr>dr_rewired := dr_rewired report + (a + b)\<rparr>,
                     dm_ops := (if 0 < rewired then saturating_sub_u32 ops rewired else ops)\<rparr>)"

definition weaken_step :: "field_env \<Rightarrow> DreamConfig \<Rightarrow> PairStat \<Rightarrow> 'j dreaming \<Rightarrow> 'j dreaming" where
  "weaken_step env cfg entry st =
     (let u = ps_u entry; v = ps_v entry; f = dm_field st; report = dm_report st in
      if dm_ops st = 0 then st
      else if should_protect cfg f u v then dream_protected st
      else if (u, v) \<in> dm_touched st then st
      else
        let st = st\<lparr>dm_touched := insert (u, v) (dm_touched st)\<rparr>
        in case pick_direction f u v of None \<Rightarrow> st
           | Some (from, to) \<Rightarrow>
               let (f, changed) = adjust_link_score from to (f32_neg (f32_dec 2 1)) f
               in if changed
                  then prune_weak env from to
                         (st\<lparr>dm_ops := saturating_sub_u32 (dm_ops st) 1, dm_report := report\<lparr>dr_weakened := dr_weakened report + 1\<rparr>,
                            dm_field := emit_dream_weaken from to (ps_freq entry) (ps_avg_strength entry) f\<rparr>)
                  else st\<lparr>dm_field := f\<rparr>)"

text \<open>The cast \<open>as usize\<close>: truncation, with NaN and negative values at 0.\<close>

fun f32_as_usize :: "f32 \<Rightarrow> nat" where
  "f32_as_usize (F32 s n) = (if s then 0 else min (n div 2 ^ 149) (2 ^ 64 - 1))"
| "f32_as_usize (F32Inf s) = (if s then 0 else 2 ^ 64 - 1)"
| "f32_as_usize F32NaN = 0"

definition share_of :: "nat \<Rightarrow> f32 \<Rightarrow> nat" where
  "share_of n pct = f32_as_usize (f32_clamp f32_zero (f32_of_nat n) (f32_round_int (f32_mul (f32_of_nat n) pct)))"

definition run_dream :: "field_env \<Rightarrow> u32 \<Rightarrow> DreamConfig \<Rightarrow> u64 \<Rightarrow> 'j ClusterField \<Rightarrow> 'j ClusterField \<times> DreamReport" where
  "run_dream env took_ms cfg now_ms f =
     (if dc_max_ops_per_cycle cfg = 0 then (f, dream_report_default)
      else
        let pairs = collect_recent_pairs env (dc_window_ms cfg) f in
        if pairs = [] then (f, dream_report_default\<lparr>dr_took_ms := took_ms\<rparr>)
        else
          let pairs = sort_by (\<lambda>a b. f32_cmp_or_equal (ps_freq b) (ps_freq a)) pairs;
              strengthen_count = share_of (length pairs) (dc_strengthen_top_pct cfg);
              weaken_count = share_of (length pairs) (dc_weaken_bottom_pct cfg);
              st = fold (strengthen_step cfg) (take strengthen_count pairs)
                     \<lparr>dm_field = f, dm_report = dream_report_default, dm_ops = dc_max_ops_per_cycle cfg, dm_touched = {}\<rparr>;
              bottom = sort_by (\<lambda>a b. f32_cmp_or_equal (ps_freq a) (ps_freq b)) pairs;
              st = (if 0 < dm_ops st \<and> 0 < weaken_count then fold (weaken_step env cfg) (take weaken_count bottom) st else st);
              report = (dm_report st)\<lparr>dr_took_ms := took_ms\<rparr>
          in (record_dream_report now_ms report (dm_field st), report))"

definition run_dream_cycle :: "field_env \<Rightarrow> u32 \<Rightarrow> 'j ClusterField \<Rightarrow> 'j ClusterField \<times> DreamReport option" where
  "run_dream_cycle env took_ms f =
     (if length (cf_cells f) < 2 then (f, None)
      else
        let (g, report) = run_dream env took_ms (cf_dream_cfg f) (cf_now_ms f) f
        in (g\<lparr>cf_last_dream_ms := cf_now_ms g\<rparr>, Some report))"

section \<open>Dreams and the journal\<close>

lemma pruned_step:
  assumes "m i = Some c" "k \<notin> nc_links c"
  shows "simulates S (m, t, j) S (m, t, journal_app j [EvDreamPrune i k])"
proof -
  have "simulates S (m, t, j) S (m(i := m i), t, journal_app j [EvDreamPrune i k])"
  proof (rule one_cell_step)
    fix x assume "rel_option (cell_sim (i \<in> S)) x (alive_cell (m i))"
    then show "rel_option (cell_sim (i \<in> S)) (map_option (\<lambda>c. c\<lparr>nc_links := nc_links c - {k}\<rparr>) x) (alive_cell (m i))"
      using assms by (cases x) (auto simp: sim_defs split: if_splits)
  qed (auto simp: map_cell_def)
  then show ?thesis by simp
qed

lemma pruned_links:
  "snd (prune_link i j f) \<Longrightarrow> \<exists>c. get_cell (fst (prune_link i j f)) i = Some c \<and> j \<notin> nc_links c"
  by (auto simp: prune_link_def get_cell_of cells_of_core [OF core_emit] cells_of_core [OF core_unregister] split: option.splits if_splits)

lemma emit_prune_sound:
  assumes "snd (prune_link i j f)"
  shows "sound f (emit_dream_prune i j (fst (prune_link i j f)))"
proof -
  define g where "g = fst (prune_link i j f)"
  obtain c where "get_cell g i = Some c" "j \<notin> nc_links c" using pruned_links [OF assms] by (auto simp: g_def)
  then have "simulates {} (view g) {} (view (emit (EvDreamPrune i j) g))"
    using pruned_step [of "cells_of g" i c j] by (simp add: view_def get_cell_of)
  then have "sound g (emit (EvDreamPrune i j) g)" using field_wf_core [OF core_emit] by (auto simp: sound_def)
  then show ?thesis unfolding g_def emit_dream_prune_def by (rule sound_trans [OF link_ops_sound(2)])
qed

lemma emit_edge_sound: "sound f (emit_dream_strengthen a b x y f)" "sound f (emit_dream_weaken a b x y f)"
  unfolding emit_dream_strengthen_def emit_dream_weaken_def by (rule sound_emit; simp add: split_paired_all)+

lemmas after_link_ops = sound_trans [OF _ link_ops_sound(1)] sound_trans [OF _ link_ops_sound(2)] sound_trans [OF _ link_ops_sound(3)]
  sound_trans [OF _ emit_edge_sound(1)] sound_trans [OF _ emit_edge_sound(2)]

lemma prune_weak_sound: "sound (dm_field st) (dm_field (prune_weak env i j st))"
proof -
  define g where "g = fst (prune_link i j (dm_field st))"
  have "sound (dm_field st) g" unfolding g_def by (rule link_ops_sound)
  moreover have "sound (dm_field st) (emit_dream_prune i j g)" "sound (dm_field st) (fst (rewire_lonely env i (emit_dream_prune i j g)))"
    "sound (dm_field st) (fst (rewire_lonely env j (fst (rewire_lonely env i (emit_dream_prune i j g)))))" if "snd (prune_link i j (dm_field st))"
    using emit_prune_sound [OF that] unfolding g_def by (auto intro: after_link_ops)
  ultimately show ?thesis by (auto simp: prune_weak_def Let_def case_prod_unfold g_def)
qed

lemma dream_step_sound:
  "sound (dm_field st) (dm_field (strengthen_step cfg e st))" "sound (dm_field st) (dm_field (weaken_step env cfg e st))"
proof -
  show "sound (dm_field st) (dm_field (strengthen_step cfg e st))"
    by (auto simp: strengthen_step_def dream_protected_def Let_def case_prod_unfold split: option.split intro!: after_link_ops)
  have prune: "sound (dm_field st) (dm_field (prune_weak env a b st'))" if "sound (dm_field st) (dm_field st')" for a b and st' :: "'a dreaming"
    by (rule sound_trans [OF that prune_weak_sound])
  show "sound (dm_field st) (dm_field (weaken_step env cfg e st))"
    by (auto simp: weaken_step_def dream_protected_def Let_def case_prod_unfold split: option.split intro!: prune after_link_ops)
qed

lemma dream_record_sound: "sound f (record_dream_report now r f)" "sound f (set_dream_config cfg f)"
proof -
  have same: "sound f (f\<lparr>cf_sync_log := a, cf_dream_reports := b\<rparr>)" "sound f (f\<lparr>cf_dream_cfg := cfg\<rparr>)" for a b
    by (rule sound_same; simp add: core_def)+
  have emits: "sound g (emit (EvDreamReport now r) g)" "sound g (emit (EvDreamConfig cfg) g)" for g :: "'a ClusterField"
    by (rule sound_emit; simp add: split_paired_all)+
  show "sound f (record_dream_report now r f)" "sound f (set_dream_config cfg f)"
    unfolding record_dream_report_def set_dream_config_def by (rule sound_trans [OF same(1) emits(1)], rule sound_trans [OF same(2) emits(2)])
qed

lemma run_dream_sound: "sound f (fst (run_dream env took cfg now f))"
proof -
  have "sound (dm_field st) (dm_field (fold (strengthen_step cfg) xs st))" "sound (dm_field st) (dm_field (fold (weaken_step env cfg) xs st))" for xs st
    by (rule sound_fold_by; rule dream_step_sound)+
  then have first: "sound f (dm_field (fold (strengthen_step cfg) xs \<lparr>dm_field = f, dm_report = r, dm_ops = n, dm_touched = t\<rparr>))"
    and "sound (dm_field st) (dm_field (fold (weaken_step env cfg) ys st))" for xs ys st r n t
    by (metis dreaming.select_convs(1))+
  then have second: "sound f (dm_field st) \<Longrightarrow> sound f (dm_field (fold (weaken_step env cfg) ys st))" for ys st by (blast intro: sound_trans)
  show ?thesis unfolding run_dream_def by (auto simp: Let_def intro!: sound_trans [OF _ dream_record_sound(1)] intro: first second)
qed

lemma run_dream_cycle_sound: "sound f (fst (run_dream_cycle env took f))"
proof -
  have last: "sound g (g\<lparr>cf_last_dream_ms := n\<rparr>)" for g :: "'a ClusterField" and n by (rule sound_same) (simp_all add: core_def)
  show ?thesis by (auto simp: run_dream_cycle_def case_prod_unfold Let_def intro: sound_trans [OF run_dream_sound last])
qed

section \<open>The budget of a dream\<close>

definition dream_used :: "DreamReport \<Rightarrow> nat" where
  "dream_used r = unat (dr_strengthened r) + unat (dr_weakened r) + unat (dr_pruned r) + unat (dr_rewired r)"

text \<open>The operations counted and those left make up the budget; the last link that is cut, or a second cell
  that is linked anew, may go one beyond it.\<close>

definition within_budget :: "nat \<Rightarrow> 'j dreaming \<Rightarrow> bool" where
  "within_budget n st \<longleftrightarrow> dream_used (dm_report st) + unat (dm_ops st) = n \<or> dm_ops st = 0 \<and> dream_used (dm_report st) = n + 1"

lemma unat_suc_below: "unat (w :: u32) + 1 < 2 ^ 32 \<Longrightarrow> unat (w + 1) = unat w + 1"
  by (rule unat_suc) (simp add: word_suc_fits)

lemma sat_sub_one: "w \<noteq> 0 \<Longrightarrow> unat (saturating_sub_u32 w 1) = unat w - 1"
  by (simp add: saturating_sub_u32_def word_le_nat_alt unat_minus_one)

lemma rewire_count: "snd (rewire_lonely env i f) \<in> {None, Some 0, Some 1}"
  by (auto simp: rewire_lonely_def case_prod_unfold split: option.split)

lemma within_spend:
  assumes "within_budget n st" "dm_ops st \<noteq> 0" "dream_used r = dream_used (dm_report st) + 1" "unat ops = unat (dm_ops st) - 1"
  shows "dream_used r + unat ops = n"
proof -
  have "0 < unat (dm_ops st)" using assms(2) by (simp add: unat_gt_0)
  then show ?thesis using assms by (auto simp: within_budget_def)
qed

lemma prune_weak_budget:
  assumes n: "n + 1 < 2 ^ 32" and eq: "dream_used (dm_report st) + unat (dm_ops st) = n"
  shows "within_budget n (prune_weak env i j st)"
proof -
  define f where "f = fst (prune_link i j (dm_field st))"
  define r where "r = (dm_report st)\<lparr>dr_pruned := dr_pruned (dm_report st) + 1\<rparr>"
  define ops where "ops = saturating_sub_u32 (dm_ops st) 1"
  have used: "dream_used r = dream_used (dm_report st) + 1"
    using n eq unat_suc_below [of "dr_pruned (dm_report st)"] by (simp add: dream_used_def r_def)
  show ?thesis
  proof (cases "f32_le (link_score (dm_field st) i j) (f32_dec 25 2) \<and> snd (prune_link i j (dm_field st))")
    case False
    then show ?thesis using eq by (auto simp: prune_weak_def Let_def case_prod_unfold within_budget_def)
  next
    case True
    show ?thesis
    proof (cases "ops = 0")
      case zero: True
      then have "unat (dm_ops st) \<le> 1" using sat_sub_one [of "dm_ops st"] unfolding ops_def by (cases "dm_ops st = 0") auto
      then have "unat (dm_ops st) = 0 \<or> unat (dm_ops st) = 1" by auto
      then show ?thesis using True zero used eq
        by (auto simp: prune_weak_def Let_def case_prod_unfold within_budget_def r_def [symmetric] ops_def [symmetric])
    next
      case False
      define g where "g = rewire_lonely env i (emit_dream_prune i j f)"
      define h where "h = rewire_lonely env j (fst g)"
      define a where "a = (case snd g of None \<Rightarrow> 0 | Some n \<Rightarrow> n)"
      define b where "b = (case snd h of None \<Rightarrow> 0 | Some n \<Rightarrow> n)"
      have st: "prune_weak env i j st = st\<lparr>dm_field := fst h, dm_report := r\<lparr>dr_rewired := dr_rewired r + (a + b)\<rparr>,
          dm_ops := (if 0 < saturating_add_u32 a b then saturating_sub_u32 ops (saturating_add_u32 a b) else ops)\<rparr>"
        using True False by (simp add: prune_weak_def Let_def case_prod_unfold f_def [symmetric] r_def [symmetric] ops_def [symmetric]
            g_def [symmetric] h_def [symmetric] a_def [symmetric] b_def [symmetric])
      have "a \<in> {0, 1}" "b \<in> {0, 1}" using rewire_count [of env i "emit_dream_prune i j f"] rewire_count [of env j "fst g"]
        by (auto simp: a_def b_def g_def [symmetric] h_def [symmetric])
      then have ab: "saturating_add_u32 a b = a + b" "unat (a + b) \<le> 2" by (auto simp: saturating_add_u32_def)
      have "dm_ops st \<noteq> 0" using False by (auto simp: ops_def saturating_sub_u32_def)
      then have o1: "unat ops = unat (dm_ops st) - 1" "0 < unat (dm_ops st)" by (simp_all add: ops_def sat_sub_one unat_gt_0)
      have pos: "1 \<le> unat ops" using False by (simp add: Suc_le_eq unat_gt_0)
      have "unat (dr_rewired r) + unat (a + b) < 2 ^ 32" using used eq o1 pos ab(2) n by (simp add: dream_used_def)
      then have rew: "unat (dr_rewired r + (a + b)) = unat (dr_rewired r) + unat (a + b)" by (subst unat_add_lem [THEN iffD1]) auto
      then have total: "dream_used (r\<lparr>dr_rewired := dr_rewired r + (a + b)\<rparr>) = dream_used r + unat (a + b)" by (simp add: dream_used_def)
      have "unat (saturating_sub_u32 ops (a + b)) = unat ops - unat (a + b)"
        by (auto simp: saturating_sub_u32_def word_le_nat_alt unat_sub)
      then show ?thesis using total used eq o1 pos ab unfolding st within_budget_def
        by (auto simp: word_gt_0 unat_eq_zero [symmetric])
    qed
  qed
qed

lemma dream_step_budget:
  assumes n: "n + 1 < 2 ^ 32" and st: "within_budget n st"
  shows "within_budget n (strengthen_step cfg e st)" "within_budget n (weaken_step env cfg e st)"
proof -
  have bound: "dream_used (dm_report st) + 1 < 2 ^ 32" if "dm_ops st \<noteq> 0"
    using n st that by (auto simp: within_budget_def unat_gt_0 [symmetric])
  have spend: "dream_used r + unat (saturating_sub_u32 (dm_ops st) 1) = n"
    if "dm_ops st \<noteq> 0" "dream_used r = dream_used (dm_report st) + 1" for r
    using within_spend [OF st that sat_sub_one [OF that(1)]] .
  have up: "dream_used ((dm_report st)\<lparr>dr_strengthened := dr_strengthened (dm_report st) + 1\<rparr>) = dream_used (dm_report st) + 1"
    "dream_used ((dm_report st)\<lparr>dr_weakened := dr_weakened (dm_report st) + 1\<rparr>) = dream_used (dm_report st) + 1" if "dm_ops st \<noteq> 0"
    using bound [OF that] unat_suc_below [of "dr_strengthened (dm_report st)"] unat_suc_below [of "dr_weakened (dm_report st)"]
    by (simp_all add: dream_used_def)
  have skip: "dream_used ((dm_report st)\<lparr>dr_protected := k\<rparr>) = dream_used (dm_report st)" for k by (simp add: dream_used_def)
  show "within_budget n (strengthen_step cfg e st)"
    using st spend up by (auto simp: strengthen_step_def dream_protected_def Let_def case_prod_unfold within_budget_def skip split: option.split)
  show "within_budget n (weaken_step env cfg e st)"
    using st spend up by (auto simp: weaken_step_def dream_protected_def Let_def case_prod_unfold skip split: option.split
        intro!: prune_weak_budget [OF n]) (auto simp: within_budget_def skip)
qed

lemma fold_invariant_by: "(\<And>x st. P st \<Longrightarrow> P (g x st)) \<Longrightarrow> P st \<Longrightarrow> P (fold g xs st)"
  by (induction xs arbitrary: st) simp_all

lemma run_dream_budget:
  assumes "unat (dc_max_ops_per_cycle cfg) + 1 < 2 ^ 32"
  shows "dream_used (snd (run_dream env took cfg now f)) \<le> unat (dc_max_ops_per_cycle cfg) + 1"
proof -
  define n where "n = unat (dc_max_ops_per_cycle cfg)"
  have none: "dream_used (dream_report_default\<lparr>dr_took_ms := t\<rparr>) = 0" "dream_used dream_report_default = 0" for t
    by (simp_all add: dream_used_def dream_report_default_def)
  have took: "dream_used (r\<lparr>dr_took_ms := t\<rparr>) = dream_used r" for r t by (simp add: dream_used_def)
  have first: "within_budget n (fold (strengthen_step cfg) xs
      \<lparr>dm_field = f, dm_report = dream_report_default, dm_ops = dc_max_ops_per_cycle cfg, dm_touched = {}\<rparr>)" for xs
    by (rule fold_invariant_by) (use assms dream_step_budget(1) in \<open>auto simp: n_def within_budget_def none\<close>)
  have "within_budget n (fold (weaken_step env cfg) ys st)" if "within_budget n st" for ys and st :: "'a dreaming"
    using that by (rule fold_invariant_by [rotated]) (use assms dream_step_budget(2) in \<open>auto simp: n_def\<close>)
  moreover have "dream_used (dm_report st) \<le> n + 1" if "within_budget n st" for st :: "'a dreaming"
    using that by (auto simp: within_budget_def)
  ultimately show ?thesis using first unfolding run_dream_def n_def [symmetric] by (auto simp: Let_def none took)
qed

section \<open>Protected cells\<close>

text \<open>Nothing changes at a protected cell: neither its links nor the score of a link from it or to it.\<close>

definition spares :: "DreamConfig \<Rightarrow> 'j ClusterField \<Rightarrow> 'j ClusterField \<Rightarrow> bool" where
  "spares cfg f g \<longleftrightarrow> (\<forall>i. protects cfg g i = protects cfg f i) \<and>
     (\<forall>a b. protects cfg f a \<longrightarrow> has_link g a b = has_link f a b \<and> link_score g a b = link_score f a b \<and> link_score g b a = link_score f b a)"

lemma spares_refl [simp]: "spares cfg f f"
  by (simp add: spares_def)

lemma spares_trans: "spares cfg f g \<Longrightarrow> spares cfg g h \<Longrightarrow> spares cfg f h"
  by (simp add: spares_def)

lemma spares_scores:
  assumes "cf_cells g = cf_cells f" "\<And>a b. protects cfg f a \<or> protects cfg f b \<Longrightarrow> link_score g a b = link_score f a b"
  shows "spares cfg f g"
proof -
  have "protects cfg g k = protects cfg f k" "has_link g k l = has_link f k l" for k l
    by (simp_all add: protects_def has_link_def get_cell_def assms(1))
  then show ?thesis using assms(2) by (simp add: spares_def)
qed

lemma spares_same: "cf_cells g = cf_cells f \<Longrightarrow> cf_link_scores g = cf_link_scores f \<Longrightarrow> spares cfg f g"
  by (rule spares_scores) (simp_all add: link_score_def)

lemma spares_set:
  assumes "get_cell f i = Some c" "\<not> protects cfg f i" "nc_salience c' = nc_salience c" "nc_adreno_tag c' = nc_adreno_tag c"
  shows "spares cfg f (set_cell i c' f)"
proof -
  have get: "get_cell (set_cell i c' f) k = (if k = i then Some c' else get_cell f k)" for k
    by (simp add: get_cell_def set_cell_def)
  have "cf_link_scores (set_cell i c' f) = cf_link_scores f" by (simp add: set_cell_def)
  then show ?thesis using assms by (auto simp: spares_def protects_def has_link_def link_score_def get)
qed

lemma spares_emit: "spares cfg f (emit d f)"
  by (rule spares_same) (simp_all add: emit_def split: option.split)

lemma spares_register: "spares cfg f (register_link i j f)"
  by (rule spares_scores) (simp_all add: register_link_def link_score_def split: option.split)

lemma bt_get_remove_other: "k' \<noteq> k \<Longrightarrow> bt_get (bt_remove k m) k' = bt_get m k'"
  by (induction k m rule: bt_remove.induct) auto

lemma spares_score:
  assumes "\<not> should_protect cfg f i j"
  shows "spares cfg f (f\<lparr>cf_link_scores := bt_insert (i, j) x (cf_link_scores f)\<rparr>)"
    "spares cfg f (unregister_link i j f)"
proof -
  have other: "(a, b) \<noteq> (i, j)" if "protects cfg f a \<or> protects cfg f b" for a b
    using assms that by (auto simp: should_protect_def)
  show "spares cfg f (f\<lparr>cf_link_scores := bt_insert (i, j) x (cf_link_scores f)\<rparr>)"
    by (rule spares_scores) (use other in \<open>auto simp: link_score_def\<close>)
  show "spares cfg f (unregister_link i j f)"
  proof (rule spares_scores)
    fix a b assume "protects cfg f a \<or> protects cfg f b"
    then have "(a, b) \<noteq> (i, j)" by (rule other)
    then show "link_score (unregister_link i j f) a b = link_score f a b"
      by (simp add: link_score_def unregister_link_def bt_get_remove_other)
  qed (simp add: unregister_link_def)
qed

lemma spares_ops:
  assumes "\<not> should_protect cfg f i j"
  shows "spares cfg f (fst (adjust_link_score i j d f))" "spares cfg f (fst (prune_link i j f))" "spares cfg f (fst (rewire_lonely env i f))"
proof -
  show "spares cfg f (fst (adjust_link_score i j d f))"
    using spares_score(1) [OF assms] by (simp add: adjust_link_score_def Let_def split: option.split)
  have i: "\<not> protects cfg f i" using assms by (simp add: should_protect_def)
  show "spares cfg f (fst (prune_link i j f))"
  proof (cases "get_cell f i")
    case (Some c)
    define g where "g = set_cell i (c\<lparr>nc_links := nc_links c - {j}\<rparr>) f"
    have g: "spares cfg f g" unfolding g_def using Some i by (intro spares_set) auto
    then have "\<not> should_protect cfg g i j" using assms by (simp add: spares_def should_protect_def)
    from spares_trans [OF g spares_score(2) [OF this]] show ?thesis
      using Some by (auto simp: prune_link_def g_def intro: spares_trans spares_emit)
  qed (simp add: prune_link_def)
  show "spares cfg f (fst (rewire_lonely env i f))"
  proof (cases "get_cell f i")
    case (Some c)
    have "spares cfg f (emit d1 (emit d2 (register_link i k (set_cell i (c\<lparr>nc_links := insert k (nc_links c)\<rparr>) f))))" for d1 d2 k
      using Some i by (intro spares_trans [OF spares_trans [OF spares_trans [OF spares_set [of f i c] spares_register] spares_emit] spares_emit]) auto
    then show ?thesis using Some by (auto simp: rewire_lonely_def case_prod_unfold split: option.split)
  qed (simp add: rewire_lonely_def)
qed

lemma spares_protect: "spares cfg f g \<Longrightarrow> should_protect cfg g i j = should_protect cfg f i j"
  by (simp add: spares_def should_protect_def)

lemma protect_swap: "should_protect cfg f i j = should_protect cfg f j i"
  by (auto simp: should_protect_def)

lemmas spares_emits = spares_emit [of cfg f "EvDreamPrune i j" for cfg f i j, folded emit_dream_prune_def]

lemma prune_weak_spares:
  assumes "\<not> should_protect cfg (dm_field st) i j"
  shows "spares cfg (dm_field st) (dm_field (prune_weak env i j st))"
proof -
  define f where "f = dm_field st"
  define g where "g = emit_dream_prune i j (fst (prune_link i j f))"
  define h where "h = fst (rewire_lonely env i g)"
  have p: "spares cfg f (fst (prune_link i j f))" using assms by (intro spares_ops) (simp add: f_def)
  then have g: "spares cfg f g" unfolding g_def by (rule spares_trans [OF _ spares_emits])
  then have "spares cfg g h" unfolding h_def using assms by (intro spares_ops [of cfg g i j]) (simp add: spares_protect f_def)
  with g have h: "spares cfg f h" by (rule spares_trans)
  then have "spares cfg h (fst (rewire_lonely env j h))"
    using assms by (intro spares_ops [of cfg h j i]) (simp add: spares_protect protect_swap f_def)
  with h have "spares cfg f (fst (rewire_lonely env j h))" by (rule spares_trans)
  then show ?thesis using p g unfolding prune_weak_def f_def g_def h_def by (auto simp: Let_def case_prod_unfold)
qed

lemma picked: "pick_direction f u v = Some (a, b) \<Longrightarrow> should_protect cfg f a b = should_protect cfg f u v"
  by (auto simp: pick_direction_def protect_swap split: if_splits)

lemma dream_step_spares:
  "spares cfg (dm_field st) (dm_field (strengthen_step cfg e st))" "spares cfg (dm_field st) (dm_field (weaken_step env cfg e st))"
proof -
  have adjust: "spares cfg (dm_field st) (fst (adjust_link_score a b d (dm_field st)))"
    if "pick_direction (dm_field st) (ps_u e) (ps_v e) = Some (a, b)" "\<not> should_protect cfg (dm_field st) (ps_u e) (ps_v e)" for a b d
    using that picked [OF that(1)] by (intro spares_ops) simp
  then show "spares cfg (dm_field st) (dm_field (strengthen_step cfg e st))"
    by (auto simp: strengthen_step_def dream_protected_def emit_dream_strengthen_def Let_def case_prod_unfold split: option.split
        intro: spares_trans [OF _ spares_emit])
  have pruned: "spares cfg (dm_field st) (dm_field (prune_weak env a b st'))"
    if "pick_direction (dm_field st) (ps_u e) (ps_v e) = Some (a, b)" "\<not> should_protect cfg (dm_field st) (ps_u e) (ps_v e)"
      "spares cfg (dm_field st) (dm_field st')" for a b and st' :: "'a dreaming"
    using that(3) by (rule spares_trans) (use that picked [OF that(1)] spares_protect [OF that(3)] in \<open>intro prune_weak_spares, simp\<close>)
  show "spares cfg (dm_field st) (dm_field (weaken_step env cfg e st))"
    by (auto simp: weaken_step_def dream_protected_def emit_dream_weaken_def Let_def case_prod_unfold split: option.split
        intro!: pruned adjust spares_trans [OF _ spares_emit])
qed

lemma run_dream_spares: "spares cfg f (fst (run_dream env took cfg now f))"
proof -
  have folded: "spares cfg f (dm_field (fold g xs st))"
    if "\<And>x st. spares cfg (dm_field st) (dm_field (g x st))" "spares cfg f (dm_field st)" for g xs and st :: "'a dreaming"
    using that(2) by (induction xs arbitrary: st) (auto intro: spares_trans [OF _ that(1)])
  have reported: "spares cfg g (record_dream_report now r g)" for r and g :: "'a ClusterField"
    unfolding record_dream_report_def by (rule spares_trans [OF spares_same spares_emit]) simp_all
  show ?thesis unfolding run_dream_def
    by (auto simp: Let_def intro!: spares_trans [OF _ reported] folded dream_step_spares)
qed

end
