(* ===== verification/Field_Synchrony.thy ===== *)
theory Field_Synchrony
  imports Field_Dreams
begin

text \<open>
  Synchrony, \<open>synchrony.rs\<close> and the operations of \<open>cluster_field.rs\<close> it uses: cells that often answer
  together form groups, the connected components of a graph, and a collective dream shares tokens and
  strengthens links within each group.
\<close>

section \<open>Groups\<close>

record SyncGroup =
  sg_id :: u64
  sg_nodes :: "u64 list"
  sg_tokens :: "string list"

definition score_pair :: "PairStat \<Rightarrow> f32" where
  "score_pair p = f32_mul (f32_add (f32_max (ps_freq p) f32_zero) f32_one) (f32_add (f32_max (ps_avg_strength p) f32_zero) (f32_dec 5 1))"

type_synonym adjacency = "(u64, u64 list) btree_map"

definition add_edge :: "f32 \<Rightarrow> PairStat \<Rightarrow> adjacency \<Rightarrow> adjacency" where
  "add_edge threshold p adjacency =
     (if f32_lt (ps_avg_strength p) threshold then adjacency
      else bt_entry (ps_v p) [] (\<lambda>ns. ns @ [ps_u p]) (bt_entry (ps_u p) [] (\<lambda>ns. ns @ [ps_v p]) adjacency))"

definition build_adjacency :: "PairStat list \<Rightarrow> f32 \<Rightarrow> adjacency" where
  "build_adjacency pairs threshold = fold (add_edge threshold) pairs []"

definition neighbors :: "adjacency \<Rightarrow> u64 \<Rightarrow> u64 list" where
  "neighbors adjacency i = (case bt_get adjacency i of None \<Rightarrow> [] | Some ns \<Rightarrow> ns)"

text \<open>The search from one node; the last element of the vector is the first of the list here.\<close>

function explore :: "adjacency \<Rightarrow> u64 list \<Rightarrow> u64 set \<Rightarrow> u64 list \<Rightarrow> u64 list \<times> u64 set" where
  "explore adjacency [] seen component = (component, seen)"
| "explore adjacency (current # queue) seen component =
     (if current \<in> seen then explore adjacency queue seen component
      else
        let seen = insert current seen
        in explore adjacency (rev (filter (\<lambda>n. n \<notin> seen) (neighbors adjacency current)) @ queue) seen (component @ [current]))"
  by pat_completeness auto

definition graph_nodes :: "adjacency \<Rightarrow> u64 set" where
  "graph_nodes adjacency = \<Union> (set ` snd ` set adjacency)"

lemma neighbors_nodes: "set (neighbors adjacency i) \<subseteq> graph_nodes adjacency"
proof (cases "bt_get adjacency i")
  case (Some ns)
  then have "(i, ns) \<in> set adjacency" by (rule bt_get_in_set)
  then show ?thesis using Some by (force simp: neighbors_def graph_nodes_def)
qed (simp add: neighbors_def)

termination explore
proof (relation "measures [\<lambda>(g, q, s, _). card (graph_nodes g \<union> set q - s), \<lambda>(g, q, _, _). length q]", goal_cases)
  case (2 g i q s c)
  have "graph_nodes g \<union> set q - s \<subseteq> graph_nodes g \<union> set (i # q) - s" by auto
  then have "card (graph_nodes g \<union> set q - s) \<le> card (graph_nodes g \<union> set (i # q) - s)"
    by (rule card_mono [rotated]) (simp add: graph_nodes_def)
  then show ?case by auto
next
  case (3 g i q s c s')
  have "graph_nodes g \<union> set (rev (filter (\<lambda>n. n \<notin> s') (neighbors g i)) @ q) - s' \<subseteq> graph_nodes g \<union> set (i # q) - s - {i}"
    using 3(2) neighbors_nodes [of g i] by auto
  moreover have "finite (graph_nodes g \<union> set (i # q) - s)" "i \<in> graph_nodes g \<union> set (i # q) - s"
    using 3(1) by (simp_all add: graph_nodes_def)
  ultimately have "card (graph_nodes g \<union> set (rev (filter (\<lambda>n. n \<notin> s') (neighbors g i)) @ q) - s') < card (graph_nodes g \<union> set (i # q) - s)"
    by (meson card_Diff1_less card_mono finite_Diff le_less_trans)
  then show ?case by simp
qed simp

definition component_step :: "adjacency \<Rightarrow> u64 \<Rightarrow> u64 list list \<times> u64 set \<Rightarrow> u64 list list \<times> u64 set" where
  "component_step adjacency node st =
     (let (groups, seen) = st in
      if node \<in> seen then (groups, seen)
      else
        let (component, seen) = explore adjacency [node] seen []
        in (if 1 < length component then groups @ [component] else groups, seen))"

definition extract_components :: "(u64 list \<Rightarrow> u64 list) \<Rightarrow> adjacency \<Rightarrow> u64 list list" where
  "extract_components order adjacency = fst (fold (component_step adjacency) (order (bt_keys adjacency)) ([], {}))"

section \<open>Tokens of a group\<close>

definition community_centroid :: "u64 list \<Rightarrow> 'j ClusterField \<Rightarrow> f32" where
  "community_centroid nodes f =
     (let cells = List.map_filter (get_cell f) nodes
      in if cells = [] then f32_zero
         else f32_div (foldl f32_add f32_zero (map nc_affinity cells)) (f32_of_nat (min (length cells) (2 ^ 32 - 1))))"

text \<open>The score of a token, if a cell of the group is in its recent history.\<close>

definition token_score :: "u64 set \<Rightarrow> RecentRoute list \<Rightarrow> f32 option" where
  "token_score focus history =
     (let entries = filter (\<lambda>entry. rt_node entry \<in> focus) (take 64 (rev history))
      in if entries = [] then None
         else Some (f32_add (foldl f32_add f32_zero (map rt_strength entries)) (f32_mul (f32_of_nat (length entries)) (f32_dec 25 2))))"

definition count_tokens :: "string list \<Rightarrow> (string, u32) btree_map" where
  "count_tokens tokens = fold (\<lambda>token m. bt_entry token 0 (\<lambda>n. n + 1) m) tokens []"

text \<open>The scores can be not-a-number, and the sort by them then has no result.\<close>

definition sync_top_tokens :: "field_env \<Rightarrow> u64 list \<Rightarrow> nat \<Rightarrow> 'j ClusterField \<Rightarrow> string list option" where
  "sync_top_tokens env nodes top_k f =
     (if nodes = [] \<or> top_k = 0 then Some []
      else
        let scores = List.map_filter (\<lambda>token. case bt_get (cf_recent_routes f) token of None \<Rightarrow> None
              | Some history \<Rightarrow> map_option (Pair token) (token_score (set nodes) history)) (fe_tokens env (bt_keys (cf_recent_routes f)));
            ranked = try_sort_by (\<lambda>a b. f32_cmp_or_equal (snd b) (snd a))
              (List.map_filter (\<lambda>token. map_option (Pair token) (map_of scores token)) (fe_tokens env (map fst scores)))
        in map_option (\<lambda>ranked.
             let selected = map fst (take top_k ranked)
             in if selected \<noteq> [] then selected
                else
                  let fallback = count_tokens (concat (map (\<lambda>i. case get_cell f i of None \<Rightarrow> []
                        | Some c \<Rightarrow> tokenize (fe_lower env) (sp_core_pattern (nc_seed c))) nodes));
                      entries = List.map_filter (\<lambda>token. map_option (Pair token) (bt_get fallback token)) (fe_tokens env (bt_keys fallback))
                  in map fst (take top_k (sort_by (\<lambda>a b. cmp (snd b) (snd a)) entries))) ranked)"

section \<open>Detection\<close>

text \<open>The group of a component, which is dropped when it has no token.\<close>

definition sync_group :: "field_env \<Rightarrow> SyncConfig \<Rightarrow> u64 \<Rightarrow> 'j ClusterField \<Rightarrow> nat \<times> u64 list \<Rightarrow> SyncGroup option option" where
  "sync_group env cfg now_ms f = (\<lambda>(idx, nodes).
     map_option (\<lambda>tokens.
       if tokens = [] then None
       else Some \<lparr>sg_id = push_bit 16 now_ms + word_of_nat idx, sg_nodes = nodes, sg_tokens = tokens\<rparr>)
     (sync_top_tokens env nodes (unat (sc_share_top_k cfg)) f))"

text \<open>The first sort compares every score when there are two or more, and its \<open>unwrap\<close> panics on a
  comparison with NaN: no result.\<close>

definition detect_sync_groups :: "field_env \<Rightarrow> SyncConfig \<Rightarrow> u64 \<Rightarrow> 'j ClusterField \<Rightarrow> SyncGroup list option" where
  "detect_sync_groups env cfg now_ms f =
     (let pairs = collect_recent_pairs env (max (sc_phase_len_ms cfg) 500) f in
      if pairs = [] then Some []
      else
        let pairs = filter (\<lambda>p. f32_ge (ps_avg_strength p) (sc_cooccur_threshold cfg)) pairs in
        if 1 < length pairs \<and> list_ex (\<lambda>p. score_pair p = F32NaN) pairs then None
        else
          let pairs = sort_by (\<lambda>a b. f32_cmp_or_equal (score_pair b) (score_pair a)) pairs;
              adjacency = build_adjacency pairs (sc_cooccur_threshold cfg);
              components = sort_key (\<lambda>c. - int (length c)) (extract_components (fe_ids env) adjacency)
          in map_option (List.map_filter id)
               (those (map (sync_group env cfg now_ms f) (List.enumerate 0 (take (unat (sc_max_groups cfg)) components)))))"

section \<open>The collective dream\<close>

record 'j sharing =
  sh_field :: "'j ClusterField"
  sh_shared :: u32
  sh_aligned :: u32
  sh_protected :: u32
  sh_events :: "(u64 \<times> string \<times> f32) list"

definition share_cell :: "f32 \<Rightarrow> f32 \<Rightarrow> NodeCell \<Rightarrow> NodeCell" where
  "share_cell norm_weight centroid c =
     (let node_protected = f32_ge (nc_salience c) (f32_dec 6 1) \<or> nc_adreno_tag c;
          diff = f32_sub centroid (nc_affinity c);
          c = (if f32_gt (f32_abs diff) (f32_dec 2 3)
               then c\<lparr>nc_affinity := f32_clamp f32_zero f32_one (f32_add (nc_affinity c) (f32_mul diff (f32_dec 8 2)))\<rparr> else c);
          adjust = (if f32_lt diff f32_zero then f32_sub f32_one (f32_mul norm_weight (f32_dec 5 2))
                    else f32_add f32_one (f32_mul norm_weight (f32_dec 5 2)))
      in if node_protected then c
         else c\<lparr>nc_metabolism := f32_clamp (f32_dec 5 2) (f32_dec 5 0) (f32_mul (nc_metabolism c) adjust)\<rparr>)"

definition share_bias :: "f32 \<Rightarrow> u64 \<Rightarrow> string \<Rightarrow> 'j sharing \<Rightarrow> 'j sharing" where
  "share_bias norm_weight node token st =
     (let f = sh_field st;
          entry = (case bt_get (cf_route_bias f) (token, node) of None \<Rightarrow> f32_one | Some b \<Rightarrow> b);
          updated = f32_clamp (f32_dec 2 1) (f32_dec 5 0) (f32_add entry norm_weight)
      in if f32_gt (f32_abs (f32_sub updated entry)) f32_epsilon
         then st\<lparr>sh_field := f\<lparr>cf_route_bias := bt_insert (token, node) updated (cf_route_bias f)\<rparr>,
                 sh_shared := saturating_add_u32 (sh_shared st) 1, sh_events := sh_events st @ [(node, token, updated)]\<rparr>
         else st\<lparr>sh_field := f\<lparr>cf_route_bias := bt_insert (token, node) entry (cf_route_bias f)\<rparr>\<rparr>)"

definition share_node :: "f32 \<Rightarrow> f32 \<Rightarrow> string list \<Rightarrow> u64 \<Rightarrow> 'j sharing \<Rightarrow> 'j sharing" where
  "share_node norm_weight centroid tokens node st =
     (case get_cell (sh_field st) node of None \<Rightarrow> st
      | Some c \<Rightarrow>
          let moves = f32_gt (f32_abs (f32_sub centroid (nc_affinity c))) (f32_dec 2 3);
              node_protected = f32_ge (nc_salience c) (f32_dec 6 1) \<or> nc_adreno_tag c
          in fold (share_bias norm_weight node) tokens
               (st\<lparr>sh_field := set_cell node (share_cell norm_weight centroid c) (sh_field st),
                  sh_aligned := (if moves then saturating_add_u32 (sh_aligned st) 1 else sh_aligned st),
                  sh_protected := (if node_protected then saturating_add_u32 (sh_protected st) 1 else sh_protected st)\<rparr>))"

definition align_link :: "f32 \<Rightarrow> u64 \<Rightarrow> u64 \<Rightarrow> 'j sharing \<Rightarrow> 'j sharing" where
  "align_link norm_weight from to st =
     (let (f, changed) = adjust_link_score from to norm_weight (sh_field st)
      in if changed
         then st\<lparr>sh_field := emit (EvSyncAlign from to (link_score f from to)) f, sh_aligned := saturating_add_u32 (sh_aligned st) 1\<rparr>
         else st\<lparr>sh_field := f\<rparr>)"

fun align_pairs :: "f32 \<Rightarrow> u64 list \<Rightarrow> 'j sharing \<Rightarrow> 'j sharing" where
  "align_pairs norm_weight [] st = st"
| "align_pairs norm_weight (from # rest) st =
     align_pairs norm_weight rest (fold (\<lambda>to st. align_link norm_weight to from (align_link norm_weight from to st)) rest st)"

definition share_tokens :: "field_env \<Rightarrow> u64 list \<Rightarrow> string list \<Rightarrow> f32 \<Rightarrow> 'j ClusterField \<Rightarrow> 'j ClusterField \<times> u32 \<times> u32 \<times> u32" where
  "share_tokens env nodes tokens weight_xfer f =
     (if nodes = [] \<or> tokens = [] then (f, 0, 0, 0)
      else
        let norm_weight = f32_clamp (f32_dec 5 2) (f32_dec 5 1) weight_xfer;
            centroid = community_centroid nodes f;
            st = fold (share_node norm_weight centroid (map (lowercase (fe_lower env)) tokens)) nodes
                   \<lparr>sh_field = f, sh_shared = 0, sh_aligned = 0, sh_protected = 0, sh_events = []\<rparr>;
            st = align_pairs norm_weight nodes st
        in (emit_all (map (\<lambda>(node, token, bias). EvSyncShare node token bias) (sh_events st)) (sh_field st),
            sh_shared st, sh_aligned st, sh_protected st))"

definition record_sync_report :: "u64 \<Rightarrow> SyncReport \<Rightarrow> 'j ClusterField \<Rightarrow> 'j ClusterField" where
  "record_sync_report now_ms report f =
     emit (EvCollectiveDreamReport now_ms report)
       (f\<lparr>cf_sync_log := record_collective now_ms report (cf_sync_log f),
         cf_sync_reports := push_bounded 16 (now_ms, report) (cf_sync_reports f)\<rparr>)"

definition share_group :: "field_env \<Rightarrow> f32 \<Rightarrow> SyncGroup \<Rightarrow> 'j ClusterField \<times> SyncReport \<Rightarrow> 'j ClusterField \<times> SyncReport" where
  "share_group env weight_xfer g st =
     (let (f, report) = st;
          (f, shared, aligned, protected) = share_tokens env (sg_nodes g) (sg_tokens g) weight_xfer f
      in (f, report\<lparr>sr_shared := saturating_add_u32 (sr_shared report) shared,
               sr_aligned := saturating_add_u32 (sr_aligned report) aligned,
               sr_protected := saturating_add_u32 (sr_protected report) protected\<rparr>))"

definition sync_report_default :: SyncReport where
  "sync_report_default = \<lparr>sr_groups = 0, sr_shared = 0, sr_aligned = 0, sr_protected = 0, sr_took_ms = 0\<rparr>"

definition run_collective_dream :: "field_env \<Rightarrow> u32 \<Rightarrow> SyncGroup list \<Rightarrow> SyncConfig \<Rightarrow> u64 \<Rightarrow> 'j ClusterField \<Rightarrow> 'j ClusterField \<times> SyncReport" where
  "run_collective_dream env took_ms groups cfg now_ms f =
     (if groups = [] then (f, sync_report_default)
      else
        let (f, report) = fold (share_group env (sc_weight_xfer cfg)) groups (f, sync_report_default\<lparr>sr_groups := word_of_nat (length groups)\<rparr>);
            report = report\<lparr>sr_took_ms := took_ms\<rparr>
        in (record_sync_report now_ms report f, report))"

definition set_sync_config :: "SyncConfig \<Rightarrow> 'j ClusterField \<Rightarrow> 'j ClusterField" where
  "set_sync_config cfg f =
     (let cfg = cfg\<lparr>sc_weight_xfer := f32_clamp (f32_dec 5 2) (f32_dec 5 1) (sc_weight_xfer cfg)\<rparr>
      in emit (EvSyncConfig cfg) (f\<lparr>cf_sync_cfg := cfg\<rparr>))"

section \<open>Groups are connected components\<close>

definition edges :: "adjacency \<Rightarrow> (u64 \<times> u64) set" where
  "edges g = {(a, b). b \<in> set (neighbors g a)}"

definition closed_under :: "adjacency \<Rightarrow> u64 set \<Rightarrow> bool" where
  "closed_under g S \<longleftrightarrow> edges g `` S \<subseteq> S"

lemma explore_spec:
  "\<exists>new. explore g q seen component = (component @ new, seen \<union> set new) \<and> distinct new \<and> set new \<inter> seen = {} \<and>
     set new \<subseteq> (edges g)\<^sup>* `` set q \<and> set q \<subseteq> seen \<union> set new \<and> edges g `` set new \<subseteq> seen \<union> set new"
proof (induction g q seen component rule: explore.induct)
  case (2 g i q seen component)
  show ?case
  proof (cases "i \<in> seen")
    case True
    with 2(1) [OF True] show ?thesis by fastforce
  next
    case False
    define seen' where "seen' = insert i seen"
    define ns where "ns = filter (\<lambda>n. n \<notin> seen') (neighbors g i)"
    obtain new where new: "explore g (rev ns @ q) seen' (component @ [i]) = ((component @ [i]) @ new, seen' \<union> set new)" "distinct new"
      "set new \<inter> seen' = {}" "set new \<subseteq> (edges g)\<^sup>* `` set (rev ns @ q)" "set (rev ns @ q) \<subseteq> seen' \<union> set new"
      "edges g `` set new \<subseteq> seen' \<union> set new"
      using 2(2) [OF False seen'_def] unfolding ns_def by blast
    have "edges g `` {i} \<subseteq> seen' \<union> set new" using new(5) by (auto simp: edges_def ns_def)
    moreover have "(edges g)\<^sup>* `` set (rev ns @ q) \<subseteq> (edges g)\<^sup>* `` set (i # q)"
      by (auto simp: ns_def edges_def intro: converse_rtrancl_into_rtrancl)
    ultimately show ?thesis using new False
      by (intro exI [of _ "i # new"]) (auto simp: seen'_def ns_def Let_def)
  qed
qed simp

lemma closed_rtrancl: "closed_under g S \<Longrightarrow> (a, b) \<in> (edges g)\<^sup>* \<Longrightarrow> a \<in> S \<Longrightarrow> b \<in> S"
  by (erule rtrancl_induct) (auto simp: closed_under_def)

lemma explore_component:
  assumes "sym (edges g)" "closed_under g seen" "i \<notin> seen"
  shows "\<exists>c. explore g [i] seen [] = (c, seen \<union> set c) \<and> distinct c \<and> set c = (edges g)\<^sup>* `` {i} \<and> set c \<inter> seen = {} \<and>
    closed_under g (seen \<union> set c)"
proof -
  obtain c where c: "explore g [i] seen [] = (c, seen \<union> set c)" "distinct c" "set c \<inter> seen = {}" "set c \<subseteq> (edges g)\<^sup>* `` {i}"
    "i \<in> seen \<union> set c" "edges g `` set c \<subseteq> seen \<union> set c"
    using explore_spec [of g "[i]" seen "[]"] by auto
  have closed: "closed_under g (seen \<union> set c)" using assms(2) c(6) by (auto simp: closed_under_def)
  have "x \<in> set c" if "(i, x) \<in> (edges g)\<^sup>*" for x
  proof -
    have "x \<in> seen \<union> set c" by (rule closed_rtrancl [OF closed that c(5)])
    moreover have "x \<notin> seen"
    proof
      assume "x \<in> seen"
      moreover have "(x, i) \<in> (edges g)\<^sup>*" using that assms(1) by (meson sym_rtrancl symD)
      ultimately show False using closed_rtrancl [OF assms(2)] assms(3) by blast
    qed
    ultimately show ?thesis by simp
  qed
  then show ?thesis using c closed by blast
qed

text \<open>The state of the loop over the nodes.\<close>

definition class_of :: "adjacency \<Rightarrow> u64 \<Rightarrow> u64 set" where
  "class_of g n = (edges g)\<^sup>* `` {n}"

lemma class_self [simp]: "n \<in> class_of g n"
  by (simp add: class_of_def)

lemma class_eq: "sym (edges g) \<Longrightarrow> i \<in> class_of g n \<Longrightarrow> class_of g i = class_of g n"
  unfolding class_of_def using sym_rtrancl [of "edges g"] by (auto dest: symD intro: rtrancl_trans)

definition components_inv :: "adjacency \<Rightarrow> u64 set \<Rightarrow> u64 list list \<times> u64 set \<Rightarrow> bool" where
  "components_inv g N st \<longleftrightarrow> closed_under g (snd st) \<and> snd st = \<Union> (class_of g ` N) \<and> distinct (concat (fst st)) \<and>
     \<Union> (set ` set (fst st)) \<subseteq> snd st \<and> set ` set (fst st) = {class_of g n | n. n \<in> N \<and> class_of g n \<noteq> {n}}"

lemma long_class: "distinct c \<Longrightarrow> i \<in> set c \<Longrightarrow> 1 < length c \<longleftrightarrow> set c \<noteq> {i}"
proof (cases c)
  case (Cons x xs)
  assume c: "distinct c" "i \<in> set c"
  show ?thesis using c unfolding Cons by (cases xs) auto
qed simp

lemma class_absorb:
  assumes "n \<in> N" "class_of g i = class_of g n" "i \<in> class_of g n"
  shows "{class_of g m | m. m \<in> insert i N \<and> class_of g m \<noteq> {m}} = {class_of g m | m. m \<in> N \<and> class_of g m \<noteq> {m}}"
    "\<Union> (class_of g ` insert i N) = \<Union> (class_of g ` N)"
proof -
  have "class_of g n \<noteq> {n}" if "class_of g i \<noteq> {i}" using that assms(2,3) by auto
  then show "{class_of g m | m. m \<in> insert i N \<and> class_of g m \<noteq> {m}} = {class_of g m | m. m \<in> N \<and> class_of g m \<noteq> {m}}"
    using assms(1,2) by blast
  show "\<Union> (class_of g ` insert i N) = \<Union> (class_of g ` N)" using assms(1,2) by blast
qed

lemma component_step_inv:
  assumes sym: "sym (edges g)" and inv: "components_inv g N st"
  shows "components_inv g (insert i N) (component_step g i st)"
proof -
  obtain groups seen where st: "st = (groups, seen)" by (cases st)
  have inv': "closed_under g seen" "seen = \<Union> (class_of g ` N)" "distinct (concat groups)" "\<Union> (set ` set groups) \<subseteq> seen"
    "set ` set groups = {class_of g n | n. n \<in> N \<and> class_of g n \<noteq> {n}}"
    using inv unfolding components_inv_def st fst_conv snd_conv by blast+
  show ?thesis
  proof (cases "i \<in> seen")
    case True
    then obtain n where n: "n \<in> N" "i \<in> class_of g n" using inv'(2) by auto
    have "components_inv g (insert i N) st = components_inv g N st"
      unfolding components_inv_def class_absorb [OF n(1) class_eq [OF sym n(2)] n(2)] ..
    moreover have "component_step g i st = st" using True by (simp add: component_step_def st)
    ultimately show ?thesis using inv by simp
  next
    case False
    obtain c where c: "explore g [i] seen [] = (c, seen \<union> set c)" "distinct c" "set c = class_of g i" "set c \<inter> seen = {}"
      "closed_under g (seen \<union> set c)" using explore_component [OF sym inv'(1) False] unfolding class_of_def by blast
    define groups' where "groups' = (if 1 < length c then groups @ [c] else groups)"
    have len: "1 < length c \<longleftrightarrow> class_of g i \<noteq> {i}" using long_class [OF c(2), of i] by (simp add: c(3))
    have step: "component_step g i st = (groups', seen \<union> set c)"
      using False c(1) by (simp add: component_step_def st groups'_def)
    have "set ` set groups' = (if class_of g i \<noteq> {i} then insert (class_of g i) (set ` set groups) else set ` set groups)"
      using len c(3) by (simp add: groups'_def)
    also have "\<dots> = {class_of g n | n. n \<in> insert i N \<and> class_of g n \<noteq> {n}}" unfolding inv'(5) by auto
    finally have "set ` set groups' = {class_of g n | n. n \<in> insert i N \<and> class_of g n \<noteq> {n}}" .
    moreover have "distinct (concat groups')" using inv'(3,4) c(2,4) by (auto simp: groups'_def)
    moreover have "\<Union> (set ` set groups') \<subseteq> seen \<union> set c" using inv'(4) by (auto simp: groups'_def)
    moreover have "seen \<union> set c = \<Union> (class_of g ` insert i N)" using inv'(2) c(3) by auto
    ultimately show ?thesis using c(5) unfolding components_inv_def step fst_conv snd_conv by blast
  qed
qed

lemma fold_components:
  "sym (edges g) \<Longrightarrow> components_inv g N st \<Longrightarrow> components_inv g (set xs \<union> N) (fold (component_step g) xs st)"
proof (induction xs arbitrary: N st)
  case (Cons i xs)
  from Cons.IH [OF Cons.prems(1) component_step_inv [OF Cons.prems], of i] show ?case by simp
qed simp

lemma extract_components_spec:
  assumes "sym (edges g)" "set (order (bt_keys g)) = set (bt_keys g)"
  shows "distinct (concat (extract_components order g))"
    "set ` set (extract_components order g) = {class_of g n | n. n \<in> set (bt_keys g) \<and> class_of g n \<noteq> {n}}"
proof -
  have "components_inv g {} ([], {})" by (auto simp: components_inv_def closed_under_def)
  from fold_components [OF assms(1) this, of "order (bt_keys g)"] assms(2)
  show "distinct (concat (extract_components order g))"
    "set ` set (extract_components order g) = {class_of g n | n. n \<in> set (bt_keys g) \<and> class_of g n \<noteq> {n}}"
    unfolding components_inv_def extract_components_def by simp_all
qed

subsection \<open>The graph of the pairs\<close>

definition pair_edges :: "PairStat list \<Rightarrow> f32 \<Rightarrow> (u64 \<times> u64) set" where
  "pair_edges pairs threshold = (\<Union>p \<in> {p \<in> set pairs. \<not> f32_lt (ps_avg_strength p) threshold}. {(ps_u p, ps_v p), (ps_v p, ps_u p)})"

lemma neighbors_add_edge:
  "set (neighbors (add_edge t p g) i) = set (neighbors g i) \<union>
     (if f32_lt (ps_avg_strength p) t then {} else (if i = ps_u p then {ps_v p} else {}) \<union> (if i = ps_v p then {ps_u p} else {}))"
  by (auto simp: add_edge_def neighbors_def split: option.splits if_splits)

lemma edges_build: "edges (build_adjacency pairs t) = pair_edges pairs t"
proof -
  have "edges (fold (add_edge t) pairs g) = edges g \<union> pair_edges pairs t" for g
  proof (induction pairs arbitrary: g)
    case (Cons p pairs)
    have "edges (add_edge t p g) = edges g \<union> pair_edges [p] t"
      by (auto simp: edges_def neighbors_add_edge pair_edges_def split: if_splits)
    moreover have "pair_edges (p # pairs) t = pair_edges [p] t \<union> pair_edges pairs t" by (auto simp: pair_edges_def)
    ultimately show ?case using Cons.IH by auto
  qed (simp add: pair_edges_def)
  moreover have "edges [] = {}" by (simp add: edges_def neighbors_def)
  ultimately show ?thesis by (simp add: build_adjacency_def)
qed

lemma sym_pair_edges: "sym (pair_edges pairs t)"
  by (auto simp: sym_def pair_edges_def)

lemma key_has_neighbors: "n \<notin> set (bt_keys g) \<Longrightarrow> neighbors g n = []"
  by (simp add: neighbors_def bt_get_None_iff [THEN iffD2] bt_keys_def)

text \<open>A node without edges is alone in its class.\<close>

lemma lonely_class: "n \<notin> set (bt_keys g) \<Longrightarrow> class_of g n = {n}"
proof -
  assume n: "n \<notin> set (bt_keys g)"
  have "x = n" if "(n, x) \<in> (edges g)\<^sup>*" for x
    using that by (cases rule: converse_rtranclE) (simp_all add: edges_def key_has_neighbors [OF n])
  then show ?thesis by (auto simp: class_of_def)
qed

lemma components_of_pairs:
  fixes pairs :: "PairStat list" and t :: f32
  assumes "\<And>xs. set (order xs) = set xs"
  defines "g \<equiv> build_adjacency pairs t" and "R \<equiv> (pair_edges pairs t)\<^sup>*"
  shows "distinct (concat (extract_components order g))" "set ` set (extract_components order g) = {R `` {n} | n. R `` {n} \<noteq> {n}}"
proof -
  have R: "class_of g n = R `` {n}" for n by (simp add: class_of_def g_def R_def edges_build)
  have sym: "sym (edges g)" by (simp add: g_def edges_build sym_pair_edges)
  note spec = extract_components_spec [of g order, OF sym assms(1)]
  show "distinct (concat (extract_components order g))" by (rule spec)
  show "set ` set (extract_components order g) = {R `` {n} | n. R `` {n} \<noteq> {n}}"
    unfolding spec(2) using lonely_class [of _ g] unfolding R by blast
qed

section \<open>Detection does not panic\<close>

definition f32_pos :: "f32 \<Rightarrow> bool" where
  "f32_pos x \<longleftrightarrow> x = F32Inf False \<or> (\<exists>n. x = F32 False n \<and> 0 < n)"

lemma f32_make_pos: "0 < n \<Longrightarrow> f32_pos (f32_make False n)"
proof -
  assume "0 < n"
  then have "2 ^ 0 \<le> f32_ratio n 1" by (intro f32_ratio_ge_power) simp_all
  then show ?thesis unfolding f32_make_ratio f32_of_ratio_def Let_def by (simp add: f32_pos_def)
qed

lemma f32_add_pos:
  assumes "x \<noteq> F32NaN" "y = F32 False k" "0 < k"
  shows "f32_pos (f32_add (f32_max x f32_zero) y)"
proof (cases x)
  case (F32 s n)
  then have "f32_max x f32_zero = F32 False n \<and> \<not> s \<or> f32_max x f32_zero = F32 True 0 \<or> f32_max x f32_zero = F32 False 0"
    by (cases s) (auto simp: f32_max_def f32_zero_def f32_gt_iff f32_int_def)
  then show ?thesis using assms f32_make_pos [of "n + k"] f32_make_pos [of k] by (auto simp: f32_int_def nat_add_distrib Let_def)
next
  case (F32Inf s)
  then show ?thesis using assms f32_make_pos [of k] by (cases s) (auto simp: f32_max_def f32_zero_def f32_gt_iff f32_int_def f32_pos_def Let_def)
qed (use assms in simp)

lemma f32_mul_pos_number: "f32_pos x \<Longrightarrow> f32_pos y \<Longrightarrow> f32_mul x y \<noteq> F32NaN"
  by (auto simp: f32_pos_def f32_of_ratio_def Let_def split: if_splits)

lemma score_pair_number:
  assumes "ps_freq p \<noteq> F32NaN" "ps_avg_strength p \<noteq> F32NaN"
  shows "score_pair p \<noteq> F32NaN"
proof -
  have "f32_between 148 149 (f32_dec 5 1)" unfolding f32_dec_def by (rule f32_between_of_ratio) simp_all
  then obtain k where k: "f32_dec 5 1 = F32 False k" "0 < k"
    unfolding f32_between_def by (metis not_gr_zero not_le power_eq_0_iff zero_less_numeral)
  have one: "f32_one = F32 False (2 ^ 149)" by (simp add: f32_one_def)
  show ?thesis unfolding score_pair_def
    by (rule f32_mul_pos_number) (rule f32_add_pos [OF assms(1) one], simp, rule f32_add_pos [OF assms(2) k])
qed

lemma freq_number: "ps_freq (pair_stat k e) \<noteq> F32NaN"
  by (simp add: pair_stat_def f32_of_nat_def f32_make_def Let_def)

lemma map_filterE: "x \<in> set (List.map_filter g xs) \<Longrightarrow> \<exists>y \<in> set xs. g y = Some x"
  by (auto simp: List.map_filter_def)

text \<open>The scores of the tokens in the recent routes are numbers, for any group of cells.\<close>

definition token_scores_numbers :: "'j ClusterField \<Rightarrow> bool" where
  "token_scores_numbers f \<longleftrightarrow>
     (\<forall>token history S. bt_get (cf_recent_routes f) token = Some history \<longrightarrow> token_score S history \<noteq> Some F32NaN)"

lemma top_tokens_total: "token_scores_numbers f \<Longrightarrow> sync_top_tokens env nodes k f \<noteq> None"
proof -
  assume f: "token_scores_numbers f"
  define scores where "scores = List.map_filter (\<lambda>token. case bt_get (cf_recent_routes f) token of None \<Rightarrow> None
    | Some history \<Rightarrow> map_option (Pair token) (token_score (set nodes) history)) (fe_tokens env (bt_keys (cf_recent_routes f)))"
  have "v \<noteq> F32NaN" if "map_of scores token = Some v" for token v
    using f map_of_SomeD [OF that] unfolding scores_def token_scores_numbers_def
    by (auto dest!: map_filterE split: option.splits)
  then have "\<forall>e \<in> set (List.map_filter (\<lambda>token. map_option (Pair token) (map_of scores token)) xs). snd e \<noteq> F32NaN" for xs
    by (auto dest!: map_filterE)
  from try_sort_by_number [OF this] show ?thesis by (simp add: sync_top_tokens_def Let_def flip: scores_def)
qed

lemma those_total: "(\<forall>x \<in> set xs. h x \<noteq> None) \<Longrightarrow> those (map h xs) \<noteq> None"
  by (induction xs) (auto split: option.split)

lemma those_collect: "those (map h xs) = Some ys \<Longrightarrow> List.map_filter id ys = List.map_filter (\<lambda>x. Option.bind (h x) id) xs"
  by (induction xs arbitrary: ys) (auto simp: List.map_filter_simps split: option.splits)

lemma detect_total: "token_scores_numbers f \<Longrightarrow> detect_sync_groups env cfg now f \<noteq> None"
proof -
  assume f: "token_scores_numbers f"
  have "ps_freq p \<noteq> F32NaN" if "p \<in> set (collect_recent_pairs env w f)" for p w
    using that freq_number by (auto simp: collect_recent_pairs_def Let_def dest!: map_filterE)
  moreover have "ps_avg_strength p \<noteq> F32NaN" if "f32_ge (ps_avg_strength p) t" for p t
    using that by (auto simp: f32_ge_def f32_partial_cmp_def)
  ultimately have "score_pair p \<noteq> F32NaN" if "p \<in> set (collect_recent_pairs env w f)" "f32_ge (ps_avg_strength p) t" for p w t
    using that score_pair_number by blast
  moreover have "those (map (sync_group env cfg now f) xs) \<noteq> None" for xs
    by (rule those_total) (use top_tokens_total [OF f, of env] in \<open>auto simp: sync_group_def\<close>)
  ultimately show ?thesis by (auto simp: detect_sync_groups_def Let_def list_ex_iff)
qed

section \<open>Sharing and the journal\<close>

lemma share_cell_same: "cell_skeleton (share_cell w k c) = cell_skeleton c" "nc_state (share_cell w k c) = nc_state c"
  by (simp_all add: share_cell_def Let_def cell_skeleton_def)

lemma share_bias_sound: "sound (sh_field st) (sh_field (share_bias w i t st))"
  by (rule sound_same) (simp_all add: share_bias_def Let_def core_def)

lemma share_node_sound: "sound (sh_field st) (sh_field (share_node w k ts i st))"
proof (cases "get_cell (sh_field st) i")
  case (Some c)
  have set: "sound (sh_field st) (set_cell i (share_cell w k c) (sh_field st))"
    using Some by (rule sound_set) (simp_all add: share_cell_same)
  have bias: "sound (sh_field st') (sh_field (fold (share_bias w i) ts st'))" for st' :: "'a sharing"
    by (rule sound_fold_by) (rule share_bias_sound)
  have "sound (sh_field st) (sh_field (fold (share_bias w i) ts st'))" if "sh_field st' = set_cell i (share_cell w k c) (sh_field st)" for st'
    using sound_trans [OF set] bias [of st'] that by simp
  then show ?thesis using Some by (simp add: share_node_def Let_def)
qed (simp add: share_node_def)

lemma align_sound: "sound (sh_field st) (sh_field (align_link w i j st))"
proof -
  have "sound g (emit (EvSyncAlign i j x) g)" for x and g :: "'a ClusterField" by (rule sound_emit) (simp add: split_paired_all)
  then show ?thesis
    by (auto simp: align_link_def case_prod_unfold Let_def intro: sound_trans [OF link_ops_sound(1)] link_ops_sound(1))
qed

lemma align_pairs_sound: "sound (sh_field st) (sh_field (align_pairs w ids st))"
proof (induction w ids st rule: align_pairs.induct)
  case (2 w i rest st)
  have "sound (sh_field st) (sh_field (fold (\<lambda>j st. align_link w j i (align_link w i j st)) rest st))"
    by (rule sound_fold_by) (blast intro: sound_trans align_sound)
  with 2 show ?case by (auto intro: sound_trans)
qed simp

lemma share_events_sound: "sound f (emit_all (map (\<lambda>(node, token, bias). EvSyncShare node token bias) es) f)"
proof -
  have "sound g (emit (EvSyncShare a b c) g)" for a b c and g :: "'a ClusterField" by (rule sound_emit) (simp add: split_paired_all)
  then show ?thesis unfolding emit_all_def by (intro sound_fold) auto
qed

lemma share_tokens_sound: "sound f (fst (share_tokens env nodes tokens w f))"
proof -
  have nodes: "sound (sh_field st) (sh_field (fold (share_node a b ts) nodes st))" for a b ts and st :: "'a sharing"
    by (rule sound_fold_by) (rule share_node_sound)
  have "sound f (emit_all (map (\<lambda>(node, token, bias). EvSyncShare node token bias) (sh_events st)) (sh_field st))"
    if "st = align_pairs a nodes (fold (share_node a b ts) nodes \<lparr>sh_field = f, sh_shared = 0, sh_aligned = 0, sh_protected = 0, sh_events = []\<rparr>)"
    for a b ts st
    using sound_trans [OF sound_trans [OF nodes align_pairs_sound] share_events_sound] that by (metis sharing.select_convs(1))
  then show ?thesis by (simp add: share_tokens_def Let_def)
qed

lemma sync_record_sound: "sound f (record_sync_report now r f)" "sound f (set_sync_config cfg f)"
proof -
  have same: "sound f (f\<lparr>cf_sync_log := a, cf_sync_reports := b\<rparr>)" "sound f (f\<lparr>cf_sync_cfg := c\<rparr>)" for a b c
    by (rule sound_same; simp add: core_def)+
  have emits: "sound g (emit (EvCollectiveDreamReport now r) g)" "sound g (emit (EvSyncConfig c) g)" for c and g :: "'a ClusterField"
    by (rule sound_emit; simp add: split_paired_all)+
  show "sound f (record_sync_report now r f)" unfolding record_sync_report_def by (rule sound_trans [OF same(1) emits(1)])
  show "sound f (set_sync_config cfg f)" unfolding set_sync_config_def Let_def by (rule sound_trans [OF same(2) emits(2)])
qed

lemma collective_dream_sound: "sound f (fst (run_collective_dream env took groups cfg now f))"
proof -
  have "sound (fst st) (fst (share_group env w g st))" for w g and st :: "'a ClusterField \<times> SyncReport"
    using share_tokens_sound by (simp add: share_group_def case_prod_unfold Let_def)
  then have "sound (fst st) (fst (fold (share_group env w) groups st))" for w and st :: "'a ClusterField \<times> SyncReport"
    by (rule sound_fold_by)
  then have "sound f (fst (fold (share_group env w) groups (f, r)))" for w r by (metis fst_conv)
  then show ?thesis by (auto simp: run_collective_dream_def case_prod_unfold Let_def intro: sound_trans [OF _ sync_record_sound(1)])
qed

end
