(* ===== verification/Field_Awakening.thy ===== *)
theory Field_Awakening
  imports Field_Synchrony
begin

text \<open>
  The resonant model and awakening, \<open>resonant.rs\<close>, \<open>awakening.rs\<close> and the operations of
  \<open>cluster_field.rs\<close> around them: a model of the most salient cells is built from the log of dreams, and
  its tensions decide which cells receive energy.  The BLAKE3 digest of a model is an argument.
\<close>

section \<open>Reading the log\<close>

fun event_protected :: "SyncEvent \<Rightarrow> u32" where
  "event_protected (SyncDream _ _ _ protected) = protected"
| "event_protected (SyncCollective _ _ _ protected) = protected"
| "event_protected _ = 0"

definition total_protected :: "SyncLog \<Rightarrow> u32" where
  "total_protected l = sum_list (map event_protected (sy_entries l))"

fun event_bias :: "SyncEvent \<Rightarrow> f32 \<Rightarrow> f32" where
  "event_bias (SyncDream _ _ _ _) best = f32_max best (f32_dec 55 2)"
| "event_bias (SyncCollective _ shared aligned _) best =
     (if 0 < aligned + shared
      then f32_max best (f32_div (f32_add (f32_of_nat (unat aligned)) (f32_mul (f32_dec 5 1) (f32_of_nat (unat shared))))
             (f32_of_nat (unat (aligned + shared))))
      else best)"
| "event_bias _ best = best"

definition coherence_bias :: "SyncLog \<Rightarrow> f32" where
  "coherence_bias l = f32_clamp f32_zero f32_one (fold event_bias (sy_entries l) (f32_dec 5 1))"

definition protection_pressure :: "SyncLog \<Rightarrow> f32" where
  "protection_pressure l =
     (let protected = f32_of_nat (unat (total_protected l))
      in f32_clamp f32_zero f32_one (f32_div protected (f32_add protected (f32_dec 8 0))))"

definition dream_balance :: "DreamReport list \<Rightarrow> f32" where
  "dream_balance history =
     (let strengthened = sum_list (map dr_strengthened history); weakened = sum_list (map dr_weakened history);
          all = f32_of_nat (unat (strengthened + weakened))
      in if f32_le all f32_epsilon then f32_dec 5 1
         else f32_clamp f32_zero f32_one (f32_div (f32_of_nat (unat strengthened)) all))"

section \<open>The model\<close>

record modelling =
  mo_edges :: "ResonantEdge list"
  mo_influences :: "Influence list"
  mo_tensions :: "(u64, f32 \<times> f32) btree_map"
  mo_coherence :: f32

definition raise_tension :: "f32 \<Rightarrow> u64 \<Rightarrow> f32 \<Rightarrow> (u64, f32 \<times> f32) btree_map \<Rightarrow> (u64, f32 \<times> f32) btree_map" where
  "raise_tension protection i tension m =
     bt_entry i (f32_zero, protection) (\<lambda>(magnitude, _). (f32_max magnitude tension, protection)) m"

definition cell_tension :: "f32 \<Rightarrow> NodeCell \<Rightarrow> f32" where
  "cell_tension protection c =
     f32_mul (f32_add (f32_max (f32_sub f32_one (nc_energy c)) f32_zero) (f32_mul (nc_salience c) (f32_dec 5 1))) (f32_sub f32_one protection)"

definition influence_weight :: "NodeCell \<Rightarrow> NodeCell \<Rightarrow> f32" where
  "influence_weight a b =
     f32_clamp (f32_dec 2 1) (f32_dec 4 0) (f32_div (f32_add (nc_salience a) (f32_dec 5 2)) (f32_add (nc_salience b) (f32_dec 5 2)))"

definition model_pair :: "f32 \<Rightarrow> f32 \<Rightarrow> f32 \<Rightarrow> NodeCell \<Rightarrow> NodeCell \<Rightarrow> modelling \<Rightarrow> modelling" where
  "model_pair balance bias protection left right st =
     (let salience_avg = f32_mul (f32_add (nc_salience left) (nc_salience right)) (f32_dec 5 1);
          energy_avg = f32_mul (f32_add (nc_energy left) (nc_energy right)) (f32_dec 5 1);
          base_weight = f32_clamp f32_zero (f32_dec 125 2) (f32_add salience_avg (f32_dec 1 1));
          base_coherence = f32_clamp f32_zero (f32_dec 125 2) (f32_add energy_avg (f32_dec 5 2));
          weight = f32_clamp f32_zero (f32_dec 25 1) (f32_mul base_weight (f32_add (f32_dec 5 1) (f32_mul (f32_dec 5 1) balance)));
          coherence = f32_clamp f32_zero (f32_dec 25 1) (f32_mul base_coherence (f32_add (f32_dec 4 1) (f32_mul (f32_dec 6 1) bias)));
          forward = \<lparr>if_source = nc_id left, if_sink = nc_id right, if_weight = influence_weight left right,
            if_coherence = f32_clamp f32_zero (f32_dec 3 0) (f32_add (f32_mul coherence (f32_dec 8 1)) energy_avg)\<rparr>;
          backward = \<lparr>if_source = nc_id right, if_sink = nc_id left, if_weight = influence_weight right left,
            if_coherence = f32_clamp f32_zero (f32_dec 3 0) (f32_add (f32_mul coherence (f32_dec 8 1)) (f32_mul energy_avg (f32_dec 5 1)))\<rparr>
      in \<lparr>mo_edges = mo_edges st @ [\<lparr>re_from = nc_id left, re_to = nc_id right, re_weight = weight, re_coherence = coherence\<rparr>],
          mo_influences = mo_influences st @ [forward, backward],
          mo_tensions = raise_tension protection (nc_id right) (cell_tension protection right)
            (raise_tension protection (nc_id left) (cell_tension protection left) (mo_tensions st)),
          mo_coherence = f32_add (mo_coherence st) coherence\<rparr>)"

fun model_pairs :: "f32 \<Rightarrow> f32 \<Rightarrow> f32 \<Rightarrow> NodeCell list \<Rightarrow> modelling \<Rightarrow> modelling" where
  "model_pairs balance bias protection [] st = st"
| "model_pairs balance bias protection (left # rest) st =
     model_pairs balance bias protection rest (fold (model_pair balance bias protection left) rest st)"

definition salience_cmp :: "NodeCell \<Rightarrow> NodeCell \<Rightarrow> Ordering" where
  "salience_cmp a b = (case f32_cmp_or_equal (nc_salience b) (nc_salience a) of Equal \<Rightarrow> cmp (nc_id a) (nc_id b) | o1 \<Rightarrow> o1)"

definition ranked_cells :: "field_env \<Rightarrow> 'j ClusterField \<Rightarrow> NodeCell list" where
  "ranked_cells env f = take 6 (sort_by salience_cmp (List.map_filter (get_cell f) (cell_ids env f)))"

definition build_model :: "field_env \<Rightarrow> SyncLog \<Rightarrow> DreamReport list \<Rightarrow> 'j ClusterField \<Rightarrow> ResonantModel" where
  "build_model env log history f =
     (let ranked = ranked_cells env f in
      if length (cf_cells f) < 2 \<or> length ranked < 2 then resonant_model_default
      else
        let st = model_pairs (dream_balance history) (coherence_bias log) (protection_pressure log) ranked
              \<lparr>mo_edges = [], mo_influences = [], mo_tensions = [], mo_coherence = f32_zero\<rparr>;
            tensions = List.map_filter (\<lambda>i. map_option (\<lambda>(magnitude, relief). \<lparr>te_node = i,
                te_magnitude = f32_clamp f32_zero (f32_dec 2 0) magnitude, te_relief = f32_clamp f32_zero f32_one relief\<rparr>)
              (bt_get (mo_tensions st) i)) (fe_ids env (bt_keys (mo_tensions st)))
        in resonant_model_default\<lparr>rm_edges := mo_edges st, rm_influences := mo_influences st,
             rm_tensions := sort_by (\<lambda>a b. f32_cmp_or_equal (te_magnitude b) (te_magnitude a)) tensions,
             rm_coherence := (if mo_edges st = [] then f32_zero else f32_div (mo_coherence st) (f32_of_nat (length (mo_edges st))))\<rparr>)"

definition last_dream_reports :: "nat \<Rightarrow> 'j ClusterField \<Rightarrow> (u64 \<times> DreamReport) list" where
  "last_dream_reports n f = rev (take n (rev (cf_dream_reports f)))"

definition rebuild_resonant_model :: "field_env \<Rightarrow> 'j ClusterField \<Rightarrow> 'j ClusterField \<times> ResonantModel option" where
  "rebuild_resonant_model env f =
     (let history = map snd (last_dream_reports 8 f) in
      if history = [] \<and> sy_entries (cf_sync_log f) = [] then (f\<lparr>cf_cached_resonant_model := None\<rparr>, None)
      else
        let model = build_model env (cf_sync_log f) history f
        in (f\<lparr>cf_cached_resonant_model := Some model\<rparr>, Some model))"

section \<open>Awakening\<close>

record AwakeningReport =
  ar_applied :: u32
  ar_protected :: u32
  ar_tick_adjust_ms :: int
  ar_avg_tension :: f32
  ar_energy_delta :: f32

definition awakening_report_default :: AwakeningReport where
  "awakening_report_default = \<lparr>ar_applied = 0, ar_protected = 0, ar_tick_adjust_ms = 0, ar_avg_tension = f32_zero, ar_energy_delta = f32_zero\<rparr>"

definition i32_as_f32 :: "int \<Rightarrow> f32" where
  "i32_as_f32 i = (if i < 0 then f32_neg (f32_of_nat (nat (- i))) else f32_of_nat (nat i))"

record 'j waking =
  wa_field :: "'j ClusterField"
  wa_report :: AwakeningReport
  wa_counted :: u32
  wa_tension :: f32
  wa_energy_delta :: f32

text \<open>The energy a cell is raised to.\<close>

definition awakened_energy :: "AwakeningConfig \<Rightarrow> f32 \<Rightarrow> NodeCell \<Rightarrow> f32" where
  "awakened_energy cfg magnitude c =
     (let floor = f32_max (aw_energy_floor cfg) (nc_energy c);
          boost = f32_min (f32_mul magnitude (aw_energy_boost cfg)) (f32_sub f32_one floor)
      in f32_clamp f32_zero f32_one (f32_add floor boost))"

definition awaken_step :: "AwakeningConfig \<Rightarrow> Tension \<Rightarrow> 'j waking \<Rightarrow> 'j waking" where
  "awaken_step cfg t st =
     (let st = st\<lparr>wa_counted := saturating_add_u32 (wa_counted st) 1, wa_tension := f32_add (wa_tension st) (te_magnitude t)\<rparr>;
          f = wa_field st; report = wa_report st in
      case get_cell f (te_node t) of None \<Rightarrow> st
      | Some c \<Rightarrow>
          if f32_ge (nc_salience c) (aw_protect_salience cfg)
          then st\<lparr>wa_report := report\<lparr>ar_protected := saturating_add_u32 (ar_protected report) 1\<rparr>\<rparr>
          else
            let after = awakened_energy cfg (te_magnitude t) c;
                delta = f32_sub after (nc_energy c) in
            if \<not> f32_gt (f32_abs delta) f32_epsilon then st
            else
              let c = bump_salience (f32_mul (aw_salience_boost cfg) (f32_add f32_one (te_magnitude t))) (c\<lparr>nc_energy := after\<rparr>)
              in st\<lparr>wa_field := emit (energy_delta (te_node t) c) (set_cell (te_node t) c f),
                    wa_energy_delta := f32_add (wa_energy_delta st) delta,
                    wa_report := report\<lparr>ar_applied := saturating_add_u32 (ar_applied report) 1\<rparr>\<rparr>)"

definition awaken :: "ResonantModel \<Rightarrow> AwakeningConfig \<Rightarrow> TrsState \<Rightarrow> 'j ClusterField \<Rightarrow> 'j ClusterField \<times> TrsState \<times> AwakeningReport" where
  "awaken model cfg trs f =
     (if rm_tensions model = [] then (f, trs, awakening_report_default)
      else
        let consider = sort_by (\<lambda>a b. f32_cmp_or_equal (te_magnitude b) (te_magnitude a)) (rm_tensions model);
            st = fold (awaken_step cfg) (take (aw_max_nodes cfg) consider)
              \<lparr>wa_field = f, wa_report = awakening_report_default, wa_counted = 0, wa_tension = f32_zero, wa_energy_delta = f32_zero\<rparr>;
            avg_tension = (if 0 < wa_counted st then f32_div (wa_tension st) (f32_of_nat (unat (wa_counted st))) else f32_zero);
            tension_delta = f32_sub avg_tension (f32_dec 5 1);
            adjust = (if aw_tick_bias_ms cfg \<noteq> 0
              then f32_as_i32 (f32_clamp (f32_neg (f32_dec 64 0)) (f32_dec 64 0) (f32_round_int (f32_mul (i32_as_f32 (aw_tick_bias_ms cfg)) tension_delta)))
              else 0);
            trs = (if f32_gt (aw_target_gain cfg) f32_zero
              then trs_set_target (f32_clamp (f32_dec 3 1) (f32_dec 95 2) (f32_add (trs_target_load trs)
                (f32_clamp (f32_neg (f32_dec 15 2)) (f32_dec 15 2) (f32_mul (aw_target_gain cfg) tension_delta)))) trs
              else trs)
        in (wa_field st, trs, (wa_report st)\<lparr>ar_avg_tension := avg_tension, ar_energy_delta := wa_energy_delta st, ar_tick_adjust_ms := adjust\<rparr>))"

text \<open>The regulator is taken out of the field for the time of the call.\<close>

definition awaken_with :: "ResonantModel \<Rightarrow> 'j ClusterField \<Rightarrow> 'j ClusterField \<times> AwakeningReport" where
  "awaken_with model f =
     (let (g, trs, report) = awaken model (cf_awakening_cfg f) (cf_trs f) (f\<lparr>cf_trs := trs_default\<rparr>)
      in (g\<lparr>cf_trs := trs\<rparr>, report))"

definition awaken_now :: "field_env \<Rightarrow> 'j ClusterField \<Rightarrow> 'j ClusterField \<times> AwakeningReport" where
  "awaken_now env f =
     (let (f, rebuilt) = rebuild_resonant_model env f;
          model = (case rebuilt of Some m \<Rightarrow> m
            | None \<Rightarrow> (case cf_cached_resonant_model f of Some m \<Rightarrow> m | None \<Rightarrow> resonant_model_default))
      in awaken_with model f)"

section \<open>Fingerprints of the field\<close>

text \<open>Decimals are rounded to nearest, ties to even.\<close>

definition round_half_even :: "nat \<Rightarrow> nat \<Rightarrow> nat" where
  "round_half_even a b = (let q = a div b; r = a mod b in if b < 2 * r \<or> 2 * r = b \<and> odd q then q + 1 else q)"

fun f32_fixed :: "nat \<Rightarrow> f32 \<Rightarrow> string" where
  "f32_fixed p F32NaN = ''NaN''"
| "f32_fixed p (F32Inf s) = (if s then ''-inf'' else ''inf'')"
| "f32_fixed p (F32 s n) =
     (let q = round_half_even (n * 10 ^ p) (2 ^ 149); digits = dec_digits (q mod 10 ^ p)
      in (if s then ''-'' else []) @ dec_digits (q div 10 ^ p) @ ''.'' @ replicate (p - length digits) (CHR ''0'') @ digits)"

fun state_name :: "NodeState \<Rightarrow> string" where
  "state_name Active = ''Active''"
| "state_name Idle = ''Idle''"
| "state_name Sleep = ''Sleep''"
| "state_name Dead = ''Dead''"

definition cell_line :: "NodeCell \<Rightarrow> string" where
  "cell_line c =
     dec_digits (unat (nc_id c)) @ ''|'' @ sp_core_pattern (nc_seed c) @ ''|'' @ state_name (nc_state c) @ ''|'' @ f32_fixed 3 (nc_affinity c) @ ''|''
       @ f32_fixed 3 (nc_metabolism c) @ ''|'' @ f32_fixed 3 (nc_energy c) @ ''|'' @ dec_digits (card (nc_links c))"

definition u64_to_le_bytes :: "u64 \<Rightarrow> bytes" where
  "u64_to_le_bytes w = u32_to_le_bytes (ucast w) @ u32_to_le_bytes (ucast (drop_bit 32 w))"

definition cell_count_u32 :: "'j ClusterField \<Rightarrow> u32" where
  "cell_count_u32 f = word_of_nat (min (length (cf_cells f)) (2 ^ 32 - 1))"

definition build_resonant_model :: "(bytes \<Rightarrow> string) \<Rightarrow> 'j ClusterField \<Rightarrow> 'j ClusterField \<times> string" where
  "build_resonant_model blake3 f =
     (let ids = sort (bt_keys (cf_cells f));
          input = as_bytes (concat (map (\<lambda>i. case get_cell f i of None \<Rightarrow> [] | Some c \<Rightarrow> cell_line c) ids))
            @ u64_to_le_bytes (cf_now_ms f) @ u64_to_le_bytes (word_of_nat (length (cf_cells f)));
          hash = blake3 input;
          n = cell_count_u32 f;
          f = f\<lparr>cf_resonant_model := model_record_build \<lparr>mf_hash = hash, mf_cell_count = n, mf_created_ms = cf_now_ms f\<rparr> (cf_resonant_model f),
                cf_sync_log := record_build hash (cf_now_ms f) n (cf_sync_log f)\<rparr>
      in (emit (EvModelBuild hash n (cf_now_ms f)) f, hash))"

definition apply_awakening_model :: "'j ClusterField \<Rightarrow> 'j ClusterField" where
  "apply_awakening_model f =
     (let hash = model_last_hash (cf_resonant_model f); n = cell_count_u32 f;
          f = f\<lparr>cf_sync_log := (if hash = None then cf_sync_log f else record_apply hash (cf_now_ms f) n (cf_sync_log f)),
                cf_resonant_model := (cf_resonant_model f)\<lparr>rm_last_applied := hash\<rparr>\<rparr>
      in emit (EvAwakenApply hash (cf_awakening_cfg f) (cf_now_ms f) n) f)"

definition set_awakening_config :: "AwakeningConfig \<Rightarrow> 'j ClusterField \<Rightarrow> 'j ClusterField" where
  "set_awakening_config cfg f = f\<lparr>cf_awakening_cfg := cfg\<rparr>"

definition restore_awakening_state :: "AwakeningConfig \<Rightarrow> ResonantModel \<Rightarrow> SyncLog \<Rightarrow> u64 \<Rightarrow> 'j ClusterField \<Rightarrow> 'j ClusterField" where
  "restore_awakening_state cfg model sync_log last_tick f =
     f\<lparr>cf_awakening_cfg := cfg, cf_cached_resonant_model := Some model, cf_resonant_model := model, cf_sync_log := sync_log,
       cf_last_awaken_tick := last_tick\<rparr>"

section \<open>Awakening and the journal\<close>

lemma awaken_step_sound: "sound (wa_field st) (wa_field (awaken_step cfg t st))"
proof (cases "get_cell (wa_field st) (te_node t)")
  case (Some c)
  have "sound (wa_field st) (emit (energy_delta (te_node t) (bump_salience a (c\<lparr>nc_energy := e\<rparr>)))
      (set_cell (te_node t) (bump_salience a (c\<lparr>nc_energy := e\<rparr>)) (wa_field st)))" for a e
    using Some by (rule sound_energy) (simp_all add: bump_salience_def cell_skeleton_def)
  then show ?thesis using Some by (simp add: awaken_step_def Let_def)
qed (simp add: awaken_step_def Let_def)

lemma awaken_sound: "sound f (fst (awaken model cfg trs f))"
proof -
  have "sound (wa_field st) (wa_field (fold (awaken_step cfg) ts st))" for ts and st :: "'a waking"
    by (rule sound_fold_by) (rule awaken_step_sound)
  then have "sound f (wa_field (fold (awaken_step cfg) ts \<lparr>wa_field = f, wa_report = a, wa_counted = b, wa_tension = c, wa_energy_delta = d\<rparr>))"
    for ts a b c d by (metis waking.select_convs(1))
  then show ?thesis by (simp add: awaken_def Let_def)
qed

lemma awaken_with_sound: "sound f (fst (awaken_with model f))"
proof -
  have same: "sound g (g\<lparr>cf_trs := t\<rparr>)" for t and g :: "'a ClusterField" by (rule sound_same) (simp_all add: core_def)
  show ?thesis unfolding awaken_with_def
    by (simp add: case_prod_unfold Let_def) (rule sound_trans [OF sound_trans [OF same awaken_sound] same])
qed

lemma awaken_now_sound: "sound f (fst (awaken_now env f))"
proof -
  have "sound f (fst (rebuild_resonant_model env f))"
    by (rule sound_same) (simp_all add: rebuild_resonant_model_def Let_def core_def)
  then show ?thesis unfolding awaken_now_def by (simp add: case_prod_unfold Let_def) (rule sound_trans [OF _ awaken_with_sound])
qed

lemma model_ops_sound:
  "sound f (fst (build_resonant_model blake3 f))" "sound f (apply_awakening_model f)" "sound f (set_awakening_config cfg f)"
  "sound f (restore_awakening_state cfg model l t f)" "sound f (fst (rebuild_resonant_model env f))"
proof -
  have same: "sound f (f\<lparr>cf_resonant_model := a, cf_sync_log := b\<rparr>)" "sound f (f\<lparr>cf_sync_log := b, cf_resonant_model := a\<rparr>)" for a b
    by (rule sound_same; simp add: core_def)+
  have emits: "sound g (emit (EvModelBuild a b c) g)" "sound g (emit (EvAwakenApply d e c b) g)" for a b c d e and g :: "'a ClusterField"
    by (rule sound_emit; simp add: split_paired_all)+
  show "sound f (fst (build_resonant_model blake3 f))"
    unfolding build_resonant_model_def Let_def fst_conv by (rule sound_trans [OF same(1) emits(1)])
  show "sound f (apply_awakening_model f)"
    unfolding apply_awakening_model_def Let_def by (rule sound_trans [OF same(2) emits(2)])
  show "sound f (set_awakening_config cfg f)" "sound f (restore_awakening_state cfg model l t f)" "sound f (fst (rebuild_resonant_model env f))"
    by (rule sound_same; simp add: set_awakening_config_def restore_awakening_state_def rebuild_resonant_model_def Let_def core_def)+
qed

end
