(* ===== verification/Field_Mirror.thy ===== *)
theory Field_Mirror
  imports Field_Awakening
begin

text \<open>
  The mirror, \<open>mirror.rs\<close>, \<open>recursion.rs\<close> and the operations of \<open>cluster_field.rs\<close> they use: what a dream
  or an awakening changed is recorded as an epoch with its impact, and an epoch may be replayed, as a
  prediction only or on the cells.  The counter of epochs is global in the program; here the number it
  gives is an argument.
\<close>

section \<open>Epochs\<close>

fun epoch_kind_as_str :: "EpochKind \<Rightarrow> string" where
  "epoch_kind_as_str EpochDream = ''dream''"
| "epoch_kind_as_str EpochCollective = ''collective''"
| "epoch_kind_as_str EpochAwaken = ''awaken''"

record MirrorTimeline =
  mt_epochs :: "Epoch list"
  mt_built_ms :: u64

text \<open>The measurements before or after: harmony, tension and latency.\<close>

type_synonym measured = "HarmonyMetrics \<times> f32 \<times> f32"

definition epoch_impact :: "measured \<Rightarrow> measured \<Rightarrow> f32" where
  "epoch_impact before after =
     (let (harmony_before, tension_before, latency_before) = before; (harmony_after, tension_after, latency_after) = after;
          tension_gain = f32_sub tension_before tension_after;
          latency_gain = f32_sub latency_before latency_after;
          stability_before = f32_sub (hx_avg_strength harmony_before) (hx_avg_latency harmony_before);
          stability_after = f32_sub (hx_avg_strength harmony_after) (hx_avg_latency harmony_after);
          stability_gain = f32_sub stability_after stability_before;
          entropy_drift = f32_sub (hx_entropy harmony_after) (hx_entropy harmony_before);
          impact = f32_add (f32_add (f32_mul (f32_dec 5 1) tension_gain) (f32_mul (f32_dec 3 1) latency_gain)) (f32_mul (f32_dec 2 1) stability_gain);
          impact = (if f32_gt entropy_drift f32_zero then f32_sub impact (f32_mul entropy_drift (f32_dec 15 2)) else impact)
      in f32_clamp (f32_neg (f32_dec 5 0)) (f32_dec 5 0) impact)"

definition record_epoch :: "u64 \<Rightarrow> EpochKind \<Rightarrow> u64 \<times> u64 \<Rightarrow> u64 \<Rightarrow> u64 \<Rightarrow> measured \<Rightarrow> measured \<Rightarrow> Epoch" where
  "record_epoch i kind span cfg_hash report_hash before after =
     \<lparr>ep_id = i, ep_kind = kind, ep_start_ms = fst span, ep_end_ms = snd span, ep_cfg_hash = cfg_hash, ep_report_hash = report_hash,
      ep_harmony_before = fst before, ep_harmony_after = fst after, ep_tension_before = fst (snd before), ep_tension_after = fst (snd after),
      ep_latency_avg_before = snd (snd before), ep_latency_avg_after = snd (snd after), ep_impact = epoch_impact before after\<rparr>"

definition timeline_cmp :: "Epoch \<Rightarrow> Epoch \<Rightarrow> Ordering" where
  "timeline_cmp a b = (case cmp (ep_start_ms a) (ep_start_ms b) of Equal \<Rightarrow> cmp (ep_id a) (ep_id b) | o1 \<Rightarrow> o1)"

definition rebuild_timeline :: "'j ClusterField \<Rightarrow> MirrorTimeline" where
  "rebuild_timeline f = \<lparr>mt_epochs = sort_by timeline_cmp (cf_mirror_epochs f), mt_built_ms = cf_now_ms f\<rparr>"

definition mirror_timeline :: "'j ClusterField \<Rightarrow> MirrorTimeline" where
  "mirror_timeline f = \<lparr>mt_epochs = cf_mirror_epochs f, mt_built_ms = cf_now_ms f\<rparr>"

definition impact_cmp :: "Epoch \<Rightarrow> Epoch \<Rightarrow> Ordering" where
  "impact_cmp a b = (case f32_cmp_or_equal (ep_impact b) (ep_impact a) of Equal \<Rightarrow> timeline_cmp a b | o1 \<Rightarrow> o1)"

definition top_influencers :: "MirrorTimeline \<Rightarrow> nat \<Rightarrow> Epoch list" where
  "top_influencers timeline k = (if k = 0 then [] else take k (sort_by impact_cmp (mt_epochs timeline)))"

definition mirror_top_influencers :: "nat \<Rightarrow> 'j ClusterField \<Rightarrow> Epoch list" where
  "mirror_top_influencers k f = top_influencers (mirror_timeline f) k"

definition push_mirror_epoch :: "Epoch \<Rightarrow> 'j ClusterField \<Rightarrow> 'j ClusterField" where
  "push_mirror_epoch epoch f =
     (let f = emit (EvMirrorEpoch epoch) f in f\<lparr>cf_mirror_epochs := push_bounded 256 epoch (cf_mirror_epochs f)\<rparr>)"

definition record_mirror_replay :: "ReplayReport \<Rightarrow> 'j ClusterField \<Rightarrow> 'j ClusterField" where
  "record_mirror_replay report f =
     (let f = emit (EvMirrorReplay report) f in f\<lparr>cf_mirror_replays := push_bounded 128 report (cf_mirror_replays f)\<rparr>)"

definition mirror_negative_streak :: "nat \<Rightarrow> 'j ClusterField \<Rightarrow> bool" where
  "mirror_negative_streak window f \<longleftrightarrow>
     window \<noteq> 0 \<and> window \<le> length (cf_mirror_epochs f) \<and> list_all (\<lambda>e. f32_le (ep_impact e) f32_zero) (take window (rev (cf_mirror_epochs f)))"

definition mirror_recent_impacts :: "nat \<Rightarrow> 'j ClusterField \<Rightarrow> f32 list" where
  "mirror_recent_impacts window f = (if window = 0 then [] else map ep_impact (take window (rev (cf_mirror_epochs f))))"

definition average_tension :: "'j ClusterField \<Rightarrow> f32" where
  "average_tension f =
     (let tensions = rm_tensions (cf_resonant_model f)
      in if tensions = [] then f32_zero else f32_div (f32_sum (map te_magnitude tensions)) (f32_of_nat (length tensions)))"

definition set_mirror_interval :: "u64 \<Rightarrow> 'j ClusterField \<Rightarrow> 'j ClusterField" where
  "set_mirror_interval interval_ms f = f\<lparr>cf_reflex_engine := engine_set_interval interval_ms (cf_reflex_engine f)\<rparr>"

section \<open>Replay of an epoch\<close>

record ReplayConfig =
  rc_mode :: string
  rc_scale :: f32
  rc_max_ops :: u32
  rc_protect_salience :: f32

definition replay_config_default :: ReplayConfig where
  "replay_config_default = \<lparr>rc_mode = ''dry'', rc_scale = f32_one, rc_max_ops = 128, rc_protect_salience = f32_dec 75 2\<rparr>"

definition mirror_cell :: "EpochKind \<Rightarrow> f32 \<Rightarrow> f32 \<Rightarrow> NodeCell \<Rightarrow> NodeCell" where
  "mirror_cell kind affinity_delta metabolism_delta c =
     (let c = (if kind = EpochAwaken
           then c\<lparr>nc_metabolism := f32_clamp (f32_dec 5 2) (f32_dec 25 1) (f32_mul (nc_metabolism c) (f32_sub f32_one metabolism_delta))\<rparr> else c)
      in c\<lparr>nc_affinity := f32_clamp f32_zero (f32_dec 2 0) (f32_mul (nc_affinity c) (f32_add f32_one affinity_delta))\<rparr>)"

text \<open>The loop stops after the given number of cells; the cells protected by their salience do not count.\<close>

fun mirror_loop :: "Epoch \<Rightarrow> f32 \<Rightarrow> f32 \<Rightarrow> f32 \<Rightarrow> u32 \<Rightarrow> u64 list \<Rightarrow> 'j ClusterField \<Rightarrow> u32 \<Rightarrow> 'j ClusterField \<times> u32" where
  "mirror_loop epoch protect affinity_delta metabolism_delta max_ops [] f applied = (f, applied)"
| "mirror_loop epoch protect affinity_delta metabolism_delta max_ops (i # rest) f applied =
     (case get_cell f i of None \<Rightarrow> mirror_loop epoch protect affinity_delta metabolism_delta max_ops rest f applied
      | Some c \<Rightarrow>
          if f32_ge (nc_salience c) protect then mirror_loop epoch protect affinity_delta metabolism_delta max_ops rest f applied
          else
            let f = set_cell i (mirror_cell (ep_kind epoch) affinity_delta metabolism_delta c) f; applied = saturating_add_u32 applied 1
            in if max_ops \<le> applied then (f, applied)
               else mirror_loop epoch protect affinity_delta metabolism_delta max_ops rest f applied)"

definition apply_mirror_epoch :: "field_env \<Rightarrow> Epoch \<Rightarrow> f32 \<Rightarrow> u32 \<Rightarrow> f32 \<Rightarrow> 'j ClusterField \<Rightarrow> 'j ClusterField \<times> u32" where
  "apply_mirror_epoch env epoch scale max_ops protect_salience f =
     (if max_ops = 0 then (f, 0)
      else
        let protect = f32_clamp f32_zero f32_one protect_salience;
            scale = f32_clamp (f32_neg (f32_dec 4 0)) (f32_dec 4 0) scale;
            affinity_delta = f32_clamp (f32_neg (f32_dec 35 2)) (f32_dec 35 2) (f32_mul (f32_dec 6 2) scale);
            metabolism_delta = f32_clamp (f32_neg (f32_dec 2 1)) (f32_dec 2 1) (f32_mul (f32_dec 3 2) scale)
        in mirror_loop epoch protect affinity_delta metabolism_delta max_ops (cell_ids env f) f 0)"

definition replay_epoch :: "field_env \<Rightarrow> u32 \<Rightarrow> MirrorTimeline \<Rightarrow> u64 \<Rightarrow> ReplayConfig \<Rightarrow> 'j ClusterField \<Rightarrow> 'j ClusterField \<times> ReplayReport" where
  "replay_epoch env took_ms timeline epoch_id cfg f =
     (case find (\<lambda>e. ep_id e = epoch_id) (mt_epochs timeline) of
        None \<Rightarrow> (f, \<lparr>rp_epoch_id = epoch_id, rp_mode = rc_mode cfg, rp_applied = 0, rp_predicted_gain = f32_zero, rp_took_ms = 0\<rparr>)
      | Some epoch \<Rightarrow>
          let scale = f32_clamp f32_zero (f32_dec 4 0) (rc_scale cfg);
              predicted_gain = f32_mul (ep_impact epoch) (f32_abs scale);
              (f, applied) = (if lowercase (fe_lower env) (rc_mode cfg) = ''apply'' \<and> 0 < rc_max_ops cfg
                then apply_mirror_epoch env epoch scale (rc_max_ops cfg) (rc_protect_salience cfg) f else (f, 0));
              report = \<lparr>rp_epoch_id = ep_id epoch, rp_mode = rc_mode cfg, rp_applied = applied, rp_predicted_gain = predicted_gain, rp_took_ms = took_ms\<rparr>
          in (record_mirror_replay report f, report))"

definition replay_epoch_by_id :: "field_env \<Rightarrow> u32 \<Rightarrow> u64 \<Rightarrow> ReplayConfig \<Rightarrow> 'j ClusterField \<Rightarrow> 'j ClusterField \<times> ReplayReport" where
  "replay_epoch_by_id env took_ms epoch_id cfg f = replay_epoch env took_ms (rebuild_timeline f) epoch_id cfg f"

section \<open>The mirror and the journal\<close>

lemma mirror_cell_same: "cell_skeleton (mirror_cell k a m c) = cell_skeleton c" "nc_state (mirror_cell k a m c) = nc_state c"
  "nc_energy (mirror_cell k a m c) = nc_energy c"
  by (simp_all add: mirror_cell_def Let_def cell_skeleton_def)

lemma mirror_loop_sound: "sound f (fst (mirror_loop e p a m n ids f k))"
proof (induction ids arbitrary: f k)
  case (Cons i ids)
  show ?case
  proof (cases "get_cell f i")
    case (Some c)
    have "sound f (set_cell i (mirror_cell (ep_kind e) a m c) f)" using Some by (rule sound_set) (simp_all add: mirror_cell_same)
    then show ?thesis using Some Cons.IH by (auto simp: Let_def intro: sound_trans)
  qed (simp add: Cons.IH)
qed simp

lemma mirror_record_sound: "sound f (push_mirror_epoch e f)" "sound f (record_mirror_replay r f)" "sound f (set_mirror_interval n f)"
proof -
  have same: "sound g (g\<lparr>cf_mirror_epochs := a\<rparr>)" "sound g (g\<lparr>cf_mirror_replays := b\<rparr>)" "sound g (g\<lparr>cf_reflex_engine := c\<rparr>)"
    for a b c and g :: "'a ClusterField" by (rule sound_same; simp add: core_def)+
  have emits: "sound f (emit (EvMirrorEpoch e) f)" "sound f (emit (EvMirrorReplay r) f)" by (rule sound_emit; simp add: split_paired_all)+
  show "sound f (push_mirror_epoch e f)" unfolding push_mirror_epoch_def Let_def by (rule sound_trans [OF emits(1) same(1)])
  show "sound f (record_mirror_replay r f)" unfolding record_mirror_replay_def Let_def by (rule sound_trans [OF emits(2) same(2)])
  show "sound f (set_mirror_interval n f)" unfolding set_mirror_interval_def by (rule same(3))
qed

lemma replay_epoch_sound: "sound f (fst (replay_epoch env took line i cfg f))"
proof -
  have "sound f (fst (apply_mirror_epoch env e s n p f))" for e s n p by (simp add: apply_mirror_epoch_def Let_def mirror_loop_sound)
  then show ?thesis
    by (auto simp: replay_epoch_def Let_def case_prod_unfold split: option.split intro: sound_trans [OF _ mirror_record_sound(2)])
qed

section \<open>What a replay changes\<close>

text \<open>Nothing but the record of the replay, unless the mode says to apply it.\<close>

lemma dry_replay:
  assumes "lowercase (fe_lower env) (rc_mode cfg) \<noteq> ''apply''"
  shows "cf_cells (fst (replay_epoch env took line i cfg f)) = cf_cells f" "rp_applied (snd (replay_epoch env took line i cfg f)) = 0"
  using assms coreD(1) [OF core_emit]
  by (auto simp: replay_epoch_def record_mirror_replay_def Let_def split: option.split)

end
