(* ===== verification/Life_Loop.thy ===== *)
theory Life_Loop
  imports Field_Mirror
begin

text \<open>
  The life loop, \<open>life_loop.rs\<close>, with the metrics and hints of \<open>morph_mind.rs\<close>: one round of the loop that
  ticks the field, measures it, regulates the load, trims and buds, feeds the reflex loop, dreams and
  awakens.  Random choices, elapsed times and hashes of configurations and reports are arguments of a
  round; lines of text for display are left out.  A round has no result when the detection of
  synchronous groups panics; the other sorts of a round are taken to return.
\<close>

section \<open>Metrics and hints\<close>

definition metrics_default :: Metrics where
  "metrics_default = \<lparr>mt_cells = 0, mt_sleeping_pct = f32_zero, mt_avg_metabolism = f32_zero, mt_avg_latency_ms = f32_zero,
     mt_active_pct = f32_zero, mt_live_load = f32_zero\<rparr>"

definition analyze :: "field_env \<Rightarrow> 'j ClusterField \<Rightarrow> Metrics" where
  "analyze env f =
     (let cells = List.map_filter (get_cell f) (cell_ids env f); n = f32_of_nat (length cells) in
      if cells = [] then metrics_default
      else
        let sleeping = length (filter (\<lambda>c. nc_state c = Sleep) cells); active = length (filter (\<lambda>c. nc_state c = Active) cells);
            metabolism_sum = foldl f32_add f32_zero (map nc_metabolism cells);
            latency_sum = foldl f32_add f32_zero (map (\<lambda>c. f32_of_nat (unat (saturating_sub (cf_now_ms f) (nc_last_response_ms c)))) cells);
            sleeping_pct = f32_div (f32_of_nat sleeping) n; active_pct = f32_div (f32_of_nat active) n;
            avg_metabolism = f32_div metabolism_sum n; avg_latency_ms = f32_div latency_sum n;
            latency_norm = f32_clamp f32_zero f32_one (f32_div avg_latency_ms (f32_dec 320 0));
            metabolism_norm = f32_clamp f32_zero f32_one avg_metabolism;
            vitality = f32_clamp f32_zero f32_one (f32_sub f32_one sleeping_pct);
            live_load = f32_div (f32_add (f32_add (f32_add active_pct (f32_sub f32_one latency_norm)) metabolism_norm) vitality) (f32_dec 4 0)
        in \<lparr>mt_cells = length cells, mt_sleeping_pct = sleeping_pct, mt_avg_metabolism = avg_metabolism,
            mt_avg_latency_ms = avg_latency_ms, mt_active_pct = active_pct, mt_live_load = f32_clamp f32_zero f32_one live_load\<rparr>)"

text \<open>The random choice is drawn when one is needed.\<close>

definition gather_hints :: "bool \<Rightarrow> Metrics \<Rightarrow> Hint list" where
  "gather_hints wake m =
     (if f32_gt (mt_sleeping_pct m) (f32_dec 7 1) then [SlowTick] else []) @
     (if f32_gt (mt_avg_metabolism m) (f32_dec 8 1) then [TrimField] else []) @
     (if f32_gt (mt_avg_latency_ms m) (f32_dec 150 0) then [FastTick] else []) @
     (if (mt_cells m < 3 \<or> f32_gt (mt_sleeping_pct m) (f32_dec 6 1)) \<and> wake then [WakeSeeds] else [])"

section \<open>The state of the loop\<close>

record life_env =
  lf_env :: field_env
  lf_trim_coins :: "u64 \<Rightarrow> bool \<times> bool"
  lf_jitter :: f32
  lf_extra :: f32
  lf_bud_coin :: "u64 \<Rightarrow> bool"
  lf_wake :: bool
  lf_bias_order :: "(string \<times> u64) list \<Rightarrow> (string \<times> u64) list"
  lf_dream_took :: u32
  lf_sync_took :: u32
  lf_replay_took :: u32
  lf_hash_dream :: "DreamConfig \<Rightarrow> u64"
  lf_hash_dream_report :: "DreamReport \<Rightarrow> u64"
  lf_hash_sync :: "SyncConfig \<Rightarrow> u64"
  lf_hash_sync_report :: "SyncReport \<Rightarrow> u64"
  lf_hash_awaken :: "AwakeningConfig \<Rightarrow> u64"
  lf_hash_awaken_report :: "AwakeningReport \<Rightarrow> u64"

record DreamState =
  dt_last_start_ms :: u64
  dt_restore_tick :: "u64 option"
  dt_slowed_once :: bool

record SharedDreamState =
  st_active :: bool
  st_phase_until :: u64
  st_last_phase_end :: u64
  st_restore_tick :: "u64 option"

text \<open>The counter of epochs, which the program keeps in a static, is part of the state.\<close>

record 'j Life =
  lo_field :: "'j ClusterField"
  lo_tick_ms :: u64
  lo_since_metrics :: u64
  lo_since_partial :: u64
  lo_last_metrics :: "Metrics option"
  lo_dream :: DreamState
  lo_shared :: SharedDreamState
  lo_epoch_seq :: u64
  lo_partial :: "(u64 set \<times> u64) option"

definition life_start :: "u64 \<Rightarrow> 'j ClusterField \<Rightarrow> 'j Life" where
  "life_start tick_ms f =
     \<lparr>lo_field = f, lo_tick_ms = tick_ms, lo_since_metrics = 0, lo_since_partial = 0, lo_last_metrics = None,
      lo_dream = \<lparr>dt_last_start_ms = 0, dt_restore_tick = None, dt_slowed_once = False\<rparr>,
      lo_shared = \<lparr>st_active = False, st_phase_until = 0, st_last_phase_end = 0, st_restore_tick = None\<rparr>,
      lo_epoch_seq = 1, lo_partial = None\<rparr>"

section \<open>Tick lengths\<close>

text \<open>\<open>(tick_ms as i64 + adjust).clamp(lo, hi) as u64\<close>.\<close>

definition shift_tick :: "int \<Rightarrow> int \<Rightarrow> int \<Rightarrow> u64 \<Rightarrow> u64" where
  "shift_tick lo hi adjust tick_ms = word_of_int (max lo (min hi (sint tick_ms + adjust)))"

definition slower_tick :: "f32 \<Rightarrow> u64 \<Rightarrow> u64" where
  "slower_tick factor tick_ms =
     (let slower = word_of_nat (f32_as_usize (f32_round_int (f32_mul (f32_of_nat (unat tick_ms)) factor)));
          slower = (if slower \<le> tick_ms then saturating_add tick_ms 5 else slower)
      in max 80 (min 800 slower))"

section \<open>Hints\<close>

definition apply_hint :: "life_env \<Rightarrow> Hint \<Rightarrow> 'j Life \<Rightarrow> 'j Life" where
  "apply_hint le hint l =
     (case hint of
        SlowTick \<Rightarrow> l\<lparr>lo_tick_ms := min (lo_tick_ms l + 50) 400\<rparr>
      | FastTick \<Rightarrow> if 100 < lo_tick_ms l then l\<lparr>lo_tick_ms := max (saturating_sub (lo_tick_ms l) 10) 100\<rparr> else l
      | TrimField \<Rightarrow> l\<lparr>lo_field := trim_low_energy (lf_env le) (lf_trim_coins le) (lo_field l)\<rparr>
      | WakeSeeds \<Rightarrow> l\<lparr>lo_field := inject_seed_variation (lf_env le) (lf_jitter le) (lf_extra le) (lf_bud_coin le) ''liminal/wake'' (lo_field l)\<rparr>)"

section \<open>Epochs\<close>

definition harmony_now :: "'j ClusterField \<Rightarrow> HarmonyMetrics" where
  "harmony_now f = hs_metrics (symmetry_snapshot_of (en_symmetry (cf_reflex_engine f)))"

definition measure_field :: "f32 \<Rightarrow> 'j ClusterField \<Rightarrow> measured" where
  "measure_field latency f = (harmony_now f, average_tension f, latency)"

definition auto_reflect :: "life_env \<Rightarrow> 'j ClusterField \<Rightarrow> 'j ClusterField" where
  "auto_reflect le f =
     (if \<not> mirror_negative_streak 4 f then f
      else
        case find (\<lambda>e. f32_gt (ep_impact e) f32_zero) (mirror_top_influencers 1 f) of
          None \<Rightarrow> f
        | Some best \<Rightarrow>
            fst (replay_epoch (lf_env le) (lf_replay_took le) (mirror_timeline f) (ep_id best)
              \<lparr>rc_mode = ''dry'', rc_scale = f32_dec 75 2, rc_max_ops = 96, rc_protect_salience = f32_dec 8 1\<rparr> f))"

text \<open>An epoch is recorded from the measurements before and after, then the mirror may reflect on it.\<close>

definition close_epoch :: "life_env \<Rightarrow> EpochKind \<Rightarrow> u64 \<Rightarrow> u64 \<Rightarrow> u64 \<Rightarrow> measured \<Rightarrow> 'j Life \<Rightarrow> 'j Life" where
  "close_epoch le kind start_ms cfg_hash report_hash before l =
     (let f = lo_field l;
          epoch = record_epoch (lo_epoch_seq l) kind (start_ms, cf_now_ms f) cfg_hash report_hash before
            (measure_field (mt_avg_latency_ms (analyze (lf_env le) f)) f)
      in l\<lparr>lo_field := auto_reflect le (push_mirror_epoch epoch f), lo_epoch_seq := lo_epoch_seq l + 1\<rparr>)"

definition rebuild_and_awaken :: "life_env \<Rightarrow> 'j Life \<Rightarrow> 'j Life" where
  "rebuild_and_awaken le l =
     (let f = lo_field l; history = map snd (last_dream_reports 8 f) in
      if history = [] \<and> sy_entries (cf_sync_log f) = [] then l\<lparr>lo_field := f\<lparr>cf_cached_resonant_model := None\<rparr>\<rparr>
      else
        let before = measure_field (mt_avg_latency_ms (analyze (lf_env le) f)) f;
            model = build_model (lf_env le) (cf_sync_log f) history f;
            (g, report) = awaken_with model (f\<lparr>cf_cached_resonant_model := Some model\<rparr>);
            tick = (if ar_tick_adjust_ms report \<noteq> 0 then shift_tick 80 800 (ar_tick_adjust_ms report) (lo_tick_ms l) else lo_tick_ms l)
        in close_epoch le EpochAwaken (cf_now_ms f) (lf_hash_awaken le (cf_awakening_cfg f)) (lf_hash_awaken_report le report) before
             (l\<lparr>lo_field := g, lo_tick_ms := tick\<rparr>))"

section \<open>The parts of a round\<close>

definition restore_slowed :: "'j Life \<Rightarrow> 'j Life" where
  "restore_slowed l =
     (case dt_restore_tick (lo_dream l) of None \<Rightarrow> l
      | Some original \<Rightarrow>
          if dt_slowed_once (lo_dream l)
          then l\<lparr>lo_tick_ms := original, lo_dream := (lo_dream l)\<lparr>dt_restore_tick := None, dt_slowed_once := False\<rparr>\<rparr>
          else l\<lparr>lo_dream := (lo_dream l)\<lparr>dt_slowed_once := True\<rparr>\<rparr>)"

definition end_phase :: "'j Life \<Rightarrow> 'j Life" where
  "end_phase l =
     (let now = cf_now_ms (lo_field l); s = lo_shared l in
      if st_active s \<and> st_phase_until s \<le> now
      then l\<lparr>lo_shared := s\<lparr>st_active := False, st_last_phase_end := now, st_restore_tick := None\<rparr>,
             lo_tick_ms := (case st_restore_tick s of None \<Rightarrow> lo_tick_ms l | Some original \<Rightarrow> original)\<rparr>
      else l)"

definition partial_due :: "'j Life \<Rightarrow> 'j Life" where
  "partial_due l =
     (let important = cf_important_cells (lo_field l) in
      if 5000 \<le> lo_since_partial l
      then l\<lparr>lo_since_partial := 0, lo_partial := (if important = {} then None else Some (important, cf_now_ms (lo_field l)))\<rparr>
      else l\<lparr>lo_partial := None\<rparr>)"

definition reflex_part :: "life_env \<Rightarrow> Metrics \<Rightarrow> 'j ClusterField \<Rightarrow> 'j ClusterField" where
  "reflex_part le m f =
     (if rx_enabled (cf_reflex_feedback f)
      then fst (record_reflex_snapshot (lf_bias_order le)
             \<lparr>rs_ts_ms = cf_now_ms f, rs_yield_rate = mt_live_load m, rs_harmony = hx_avg_strength (harmony_now f),
              rs_latency_p95 = mt_avg_latency_ms m,
              rs_impact = f32_clamp (f32_neg f32_one) f32_one (f32_sub (mt_active_pct m) (mt_sleeping_pct m))\<rparr> f)
      else f)"

definition measure_part :: "life_env \<Rightarrow> 'j Life \<Rightarrow> 'j Life" where
  "measure_part le l =
     (if lo_since_metrics l < 1000 then l
      else
        let f = lo_field l; m = analyze (lf_env le) f; observed = mt_live_load m; now = cf_now_ms f;
            (trs, out) = trs_step now observed (trs_set_target (suggest_target m) (cf_trs f));
            f = apply_trs_output now observed out (f\<lparr>cf_trs := trs\<rparr>);
            l = fold (apply_hint le) (gather_hints (lf_wake le) m)
              (l\<lparr>lo_field := f, lo_tick_ms := shift_tick 80 450 (to_tick_adjust_ms out) (lo_tick_ms l)\<rparr>)
        in l\<lparr>lo_field := reflex_part le m (lo_field l), lo_last_metrics := Some m, lo_since_metrics := 0\<rparr>)"

definition dream_part :: "life_env \<Rightarrow> Metrics \<Rightarrow> 'j Life \<Rightarrow> 'j Life" where
  "dream_part le m l =
     (let f = lo_field l; cfg = cf_dream_cfg f; d = lo_dream l;
          idle = saturating_sub (cf_now_ms f) (dt_last_start_ms d) in
      if \<not> (f32_gt (mt_sleeping_pct m) (f32_dec 6 1) \<and> f32_lt (mt_live_load m) (f32_dec 4 1) \<and> ucast (dc_min_idle_s cfg) * 1000 < idle) then l
      else
        let before = measure_field (mt_avg_latency_ms m) f in
        case run_dream_cycle (lf_env le) (lf_dream_took le) f of
          (f, None) \<Rightarrow> l\<lparr>lo_field := f\<rparr>
        | (g, Some report) \<Rightarrow>
            let original = (case dt_restore_tick d of None \<Rightarrow> lo_tick_ms l | Some t \<Rightarrow> t);
                after = analyze (lf_env le) g;
                l = l\<lparr>lo_field := g, lo_tick_ms := slower_tick (f32_dec 115 2) (lo_tick_ms l),
                      lo_dream := \<lparr>dt_last_start_ms = cf_now_ms g, dt_restore_tick = Some original, dt_slowed_once = False\<rparr>\<rparr>;
                l = close_epoch le EpochDream (cf_now_ms f) (lf_hash_dream le (cf_dream_cfg g)) (lf_hash_dream_report le report) before l
            in rebuild_and_awaken le (l\<lparr>lo_last_metrics := Some after\<rparr>))"

definition sync_part :: "life_env \<Rightarrow> Metrics \<Rightarrow> 'j Life \<Rightarrow> 'j Life option" where
  "sync_part le m l =
     (let f = lo_field l; cfg = cf_sync_cfg f; now = cf_now_ms f; s = lo_shared l in
      if st_active s \<or> \<not> (0 < cf_last_dream_ms f \<and> f32_gt (mt_sleeping_pct m) (f32_dec 65 2)
           \<and> saturating_sub now (cf_last_dream_ms f) \<le> 30000 \<and> ucast (sc_phase_gap_ms cfg) \<le> saturating_sub now (st_last_phase_end s))
      then Some l
      else
        case detect_sync_groups (lf_env le) cfg now f of
          None \<Rightarrow> None
        | Some groups \<Rightarrow>
            if groups = [] then Some l
            else
              let metrics_before = (case lo_last_metrics l of None \<Rightarrow> metrics_default | Some x \<Rightarrow> x);
                  before = measure_field (mt_avg_latency_ms metrics_before) f;
                  (g, report) = run_collective_dream (lf_env le) (lf_sync_took le) groups cfg now f;
                  after = analyze (lf_env le) g;
                  l = close_epoch le EpochCollective now (lf_hash_sync le (cf_sync_cfg g)) (lf_hash_sync_report le report) before (l\<lparr>lo_field := g\<rparr>);
                  l = rebuild_and_awaken le (l\<lparr>lo_last_metrics := Some after\<rparr>);
                  baseline = (case dt_restore_tick (lo_dream l) of Some t \<Rightarrow> t
                    | None \<Rightarrow> (case st_restore_tick s of Some t \<Rightarrow> t | None \<Rightarrow> lo_tick_ms l))
              in Some (l\<lparr>lo_shared := s\<lparr>st_active := True, st_phase_until := saturating_add (cf_now_ms (lo_field l)) (ucast (sc_phase_len_ms cfg)),
                           st_restore_tick := Some baseline\<rparr>,
                         lo_tick_ms := slower_tick (f32_dec 11 1) (lo_tick_ms l)\<rparr>))"

definition tick_part :: "life_env \<Rightarrow> 'j Life \<Rightarrow> 'j Life" where
  "tick_part le l =
     (let l = restore_slowed l;
          l = end_phase (l\<lparr>lo_field := fst (tick_all (lf_env le) (lo_tick_ms l) (lo_field l))\<rparr>)
      in partial_due (l\<lparr>lo_since_metrics := lo_since_metrics l + lo_tick_ms l, lo_since_partial := lo_since_partial l + lo_tick_ms l\<rparr>))"

definition life_round :: "life_env \<Rightarrow> 'j Life \<Rightarrow> 'j Life option" where
  "life_round le l =
     (let l = measure_part le (tick_part le l)
      in case lo_last_metrics l of None \<Rightarrow> Some l | Some m \<Rightarrow> sync_part le m (dream_part le m l))"

text \<open>A run of the loop, one environment for each round.\<close>

primrec life_run :: "life_env list \<Rightarrow> 'j Life \<Rightarrow> 'j Life option" where
  "life_run [] l = Some l"
| "life_run (le # les) l = Option.bind (life_round le l) (life_run les)"

section \<open>The length of a tick\<close>

definition tick_ok :: "u64 \<Rightarrow> bool" where
  "tick_ok t \<longleftrightarrow> 80 \<le> t \<and> t \<le> 800"

definition ticks_ok :: "'j Life \<Rightarrow> bool" where
  "ticks_ok l \<longleftrightarrow> tick_ok (lo_tick_ms l) \<and> pred_option tick_ok (dt_restore_tick (lo_dream l)) \<and> pred_option tick_ok (st_restore_tick (lo_shared l))"

lemma clamp_word: "80 \<le> v \<Longrightarrow> v \<le> 800 \<Longrightarrow> tick_ok (word_of_int v)"
  by (simp add: tick_ok_def word_le_def uint_word_of_int)

lemma tick_ok_shift: "tick_ok (shift_tick 80 450 a t)" "tick_ok (shift_tick 80 800 a t)"
  unfolding shift_tick_def by (rule clamp_word; simp add: max_def min_def)+

lemma tick_ok_slower: "tick_ok (slower_tick x t)"
  by (simp add: slower_tick_def Let_def tick_ok_def le_max_iff_disj min_le_iff_disj)

lemma tick_ok_hint:
  assumes "tick_ok t"
  shows "tick_ok (min (t + 50) 400)" "100 < t \<Longrightarrow> tick_ok (max (saturating_sub t 10) 100)"
proof -
  have t: "80 \<le> unat t" "unat t \<le> 800" using assms by (simp_all add: tick_ok_def word_le_nat_alt)
  then have "unat (t + 50) = unat t + 50" by (simp add: unat_word_ariths)
  then show "tick_ok (min (t + 50) 400)" using t by (simp add: tick_ok_def min_def word_le_nat_alt)
  have "unat (saturating_sub t 10) = unat t - 10" using t by (simp add: saturating_sub_def word_le_nat_alt unat_sub)
  then show "100 < t \<Longrightarrow> tick_ok (max (saturating_sub t 10) 100)" using t by (auto simp: tick_ok_def max_def word_le_nat_alt)
qed

lemma ticks_ok_hint: "ticks_ok l \<Longrightarrow> ticks_ok (apply_hint le h l)"
  using tick_ok_hint by (cases h) (auto simp: apply_hint_def ticks_ok_def)

lemma ticks_ok_epoch: "ticks_ok (close_epoch le k a b c m l) = ticks_ok l"
  by (simp add: close_epoch_def Let_def ticks_ok_def)

lemma ticks_ok_awaken: "ticks_ok l \<Longrightarrow> ticks_ok (rebuild_and_awaken le l)"
  by (auto simp: rebuild_and_awaken_def Let_def case_prod_unfold ticks_ok_epoch tick_ok_shift) (auto simp: ticks_ok_def tick_ok_shift)

lemma ticks_ok_tick: "ticks_ok l \<Longrightarrow> ticks_ok (tick_part le l)"
proof -
  assume "ticks_ok l"
  then have "ticks_ok (restore_slowed l)" by (auto simp: restore_slowed_def ticks_ok_def split: option.split)
  moreover have "ticks_ok (end_phase (k\<lparr>lo_field := f\<rparr>))" if "ticks_ok k" for f and k :: "'a Life"
    using that by (auto simp: end_phase_def ticks_ok_def Let_def split: option.split)
  moreover have "ticks_ok (partial_due (k\<lparr>lo_since_metrics := a, lo_since_partial := b\<rparr>)) = ticks_ok k" for a b and k :: "'a Life"
    by (simp add: partial_due_def ticks_ok_def Let_def)
  ultimately show ?thesis by (simp add: tick_part_def Let_def)
qed

lemma ticks_ok_measure: "ticks_ok l \<Longrightarrow> ticks_ok (measure_part le l)"
proof -
  assume l: "ticks_ok l"
  have "ticks_ok (fold (apply_hint le) hs (l\<lparr>lo_field := f, lo_tick_ms := shift_tick 80 450 a t\<rparr>))" for hs f a t
    by (rule fold_invariant_by [where P = ticks_ok]) (rule ticks_ok_hint, assumption, use l in \<open>simp add: ticks_ok_def tick_ok_shift\<close>)
  then show ?thesis using l by (simp add: measure_part_def Let_def case_prod_unfold) (simp add: ticks_ok_def)
qed

lemma ticks_ok_updates:
  "ticks_ok (l\<lparr>lo_last_metrics := z\<rparr>) = ticks_ok l" "ticks_ok (l\<lparr>lo_field := g\<rparr>) = ticks_ok l"
  "ticks_ok (l\<lparr>lo_field := g, lo_tick_ms := t, lo_dream := d\<rparr>) \<longleftrightarrow>
     tick_ok t \<and> pred_option tick_ok (dt_restore_tick d) \<and> pred_option tick_ok (st_restore_tick (lo_shared l))"
  "ticks_ok (l\<lparr>lo_shared := s, lo_tick_ms := t\<rparr>) \<longleftrightarrow>
     tick_ok t \<and> pred_option tick_ok (dt_restore_tick (lo_dream l)) \<and> pred_option tick_ok (st_restore_tick s)"
  by (simp_all add: ticks_ok_def)

lemma ticks_okD: "ticks_ok l \<Longrightarrow> tick_ok (lo_tick_ms l)" "ticks_ok l \<Longrightarrow> dt_restore_tick (lo_dream l) = Some t \<Longrightarrow> tick_ok t"
  "ticks_ok l \<Longrightarrow> st_restore_tick (lo_shared l) = Some t \<Longrightarrow> tick_ok t" "ticks_ok l \<Longrightarrow> pred_option tick_ok (st_restore_tick (lo_shared l))"
  "ticks_ok l \<Longrightarrow> pred_option tick_ok (dt_restore_tick (lo_dream l))"
  by (simp_all add: ticks_ok_def)

lemma ticks_ok_dream: "ticks_ok l \<Longrightarrow> ticks_ok (dream_part le m l)"
  by (auto simp: dream_part_def Let_def ticks_ok_updates ticks_ok_epoch tick_ok_slower split: prod.split option.split
      intro!: ticks_ok_awaken dest: ticks_okD)

lemma close_same [simp]: "lo_dream (close_epoch le k a b c m l) = lo_dream l" "lo_shared (close_epoch le k a b c m l) = lo_shared l"
  by (simp_all add: close_epoch_def Let_def)

lemma awaken_same [simp]: "lo_dream (rebuild_and_awaken le l) = lo_dream l" "lo_shared (rebuild_and_awaken le l) = lo_shared l"
  by (simp_all add: rebuild_and_awaken_def Let_def case_prod_unfold)

lemma sync_part_ok:
  assumes "ticks_ok l" "sync_part le m l = Some l'"
  shows "ticks_ok l'"
proof -
  have awake: "ticks_ok (rebuild_and_awaken le ((close_epoch le k a b c x (l\<lparr>lo_field := g\<rparr>))\<lparr>lo_last_metrics := z\<rparr>))" for k a b c x g z
    by (rule ticks_ok_awaken) (simp add: ticks_ok_updates ticks_ok_epoch assms(1))
  have tick: "tick_ok (lo_tick_ms (rebuild_and_awaken le ((close_epoch le k a b c x (l\<lparr>lo_field := g\<rparr>))\<lparr>lo_last_metrics := z\<rparr>)))" for k a b c x g z
    using awake by (rule ticks_okD)
  show ?thesis using assms unfolding sync_part_def
    by (auto simp: Let_def case_prod_unfold ticks_ok_updates tick_ok_slower tick split: option.splits if_splits dest: ticks_okD)
qed

lemma life_round_ok:
  assumes "ticks_ok l" "life_round le l = Some l'"
  shows "ticks_ok l'"
proof -
  have "ticks_ok (measure_part le (tick_part le l))" using assms(1) by (intro ticks_ok_measure ticks_ok_tick)
  then show ?thesis using assms(2) sync_part_ok [OF ticks_ok_dream]
    by (auto simp: life_round_def Let_def split: option.splits)
qed

lemma life_run_ok: "ticks_ok l \<Longrightarrow> life_run les l = Some l' \<Longrightarrow> ticks_ok l'"
  by (induction les arbitrary: l) (auto simp: bind_eq_Some_conv dest: life_round_ok)

text \<open>Until metrics have been taken a round is its tick.\<close>

lemma early_round:
  assumes "lo_last_metrics l = None" "lo_since_metrics (tick_part le l) < 1000"
  shows "life_round le l = Some (tick_part le l)"
proof -
  have "lo_last_metrics (restore_slowed k) = lo_last_metrics k" "lo_last_metrics (end_phase k) = lo_last_metrics k"
    "lo_last_metrics (partial_due k) = lo_last_metrics k" for k :: "'a Life"
    by (simp_all add: restore_slowed_def end_phase_def partial_due_def Let_def split: option.split)
  then have "lo_last_metrics (tick_part le l) = None" using assms(1) by (simp add: tick_part_def Let_def)
  then show ?thesis using assms(2) by (simp add: life_round_def measure_part_def)
qed

section \<open>The loop and the journal\<close>

definition energies_numbers :: "'j ClusterField \<Rightarrow> bool" where
  "energies_numbers f \<longleftrightarrow> (\<forall>i c. get_cell f i = Some c \<longrightarrow> nc_energy c \<noteq> F32NaN)"

lemma energies_core: "core f = core g \<Longrightarrow> energies_numbers f = energies_numbers g"
  by (drule cells_of_core) (simp add: energies_numbers_def get_cell_of)

lemma tick_part_field: "lo_field (tick_part le l) = fst (tick_all (lf_env le) (lo_tick_ms (restore_slowed l)) (lo_field l))"
proof -
  have "lo_field (restore_slowed l) = lo_field l" by (simp add: restore_slowed_def split: option.split)
  moreover have "lo_field (end_phase k) = lo_field k" "lo_field (partial_due k) = lo_field k" for k :: "'a Life"
    by (simp_all add: end_phase_def partial_due_def Let_def)
  ultimately show ?thesis by (simp add: tick_part_def Let_def)
qed

lemma reflect_sound: "sound f (auto_reflect le f)"
  by (auto simp: auto_reflect_def split: option.split intro: replay_epoch_sound)

lemma close_epoch_sound: "sound (lo_field l) (lo_field (close_epoch le k a b c m l))"
  unfolding close_epoch_def Let_def by simp (rule sound_trans [OF mirror_record_sound(1) reflect_sound])

lemma after_close: "sound f (lo_field l) \<Longrightarrow> sound f (lo_field (close_epoch le k a b c m l))"
  by (rule sound_trans [OF _ close_epoch_sound])

lemma awaken_part_sound: "sound (lo_field l) (lo_field (rebuild_and_awaken le l))"
proof -
  have cached: "sound f (f\<lparr>cf_cached_resonant_model := x\<rparr>)" for x and f :: "'a ClusterField" by (rule sound_same) (simp_all add: core_def)
  have "sound (lo_field l) (fst (awaken_with model ((lo_field l)\<lparr>cf_cached_resonant_model := x\<rparr>)))" for model x
    by (rule sound_trans [OF cached awaken_with_sound])
  then show ?thesis using cached by (auto simp: rebuild_and_awaken_def Let_def case_prod_unfold intro!: after_close)
qed

lemma after_awaken: "sound f (lo_field l) \<Longrightarrow> sound f (lo_field (rebuild_and_awaken le l))"
  by (rule sound_trans [OF _ awaken_part_sound])

lemma dream_part_sound: "sound (lo_field l) (lo_field (dream_part le m l))"
proof -
  obtain g r where g: "run_dream_cycle (lf_env le) (lf_dream_took le) (lo_field l) = (g, r)" by fastforce
  then have "sound (lo_field l) g" using run_dream_cycle_sound [of "lo_field l" "lf_env le" "lf_dream_took le"] by simp
  then show ?thesis by (auto simp: dream_part_def Let_def g split: option.split intro!: after_awaken after_close)
qed

lemma sync_part_sound: "sync_part le m l = Some l' \<Longrightarrow> sound (lo_field l) (lo_field l')"
  by (auto simp: sync_part_def Let_def case_prod_unfold split: if_splits option.splits
      intro!: after_awaken after_close collective_dream_sound)

lemma hints_sound:
  assumes "env_ok (lf_env le)" "energies_numbers (lo_field l)"
  shows "sound (lo_field l) (lo_field (fold (apply_hint le) (gather_hints w m) l))"
proof -
  have trim: "sound (lo_field l) (trim_low_energy (lf_env le) (lf_trim_coins le) (lo_field l))"
    by (rule trim_sound) (use assms in \<open>simp_all add: energies_numbers_def get_cell_of\<close>)
  have bud: "sound f g \<Longrightarrow> sound f (inject_seed_variation a b c d e g)" for f g :: "'a ClusterField" and a b c d e
    by (rule sound_trans [OF _ inject_sound])
  show ?thesis using trim by (auto simp: gather_hints_def apply_hint_def intro!: bud)
qed

lemma measure_part_sound:
  assumes "env_ok (lf_env le)" "energies_numbers (lo_field l)"
  shows "sound (lo_field l) (lo_field (measure_part le l))"
proof -
  have trs: "sound (lo_field l) (apply_trs_output a b c ((lo_field l)\<lparr>cf_trs := t\<rparr>))" for a b c t
    by (rule sound_trans [OF sound_same trs_sound(3)]) (simp_all add: core_def)
  have "core (apply_trs_output a b c ((lo_field l)\<lparr>cf_trs := t\<rparr>)) = core (lo_field l)" for a b c t
    by (simp add: apply_trs_output_def Let_def core_emit) (simp add: core_def)
  then have numbers: "energies_numbers (apply_trs_output a b c ((lo_field l)\<lparr>cf_trs := t\<rparr>))" for a b c t using assms(2) energies_core by blast
  have hints: "sound (lo_field l) (lo_field (fold (apply_hint le) (gather_hints w m)
      (l\<lparr>lo_field := apply_trs_output a b c ((lo_field l)\<lparr>cf_trs := t\<rparr>), lo_tick_ms := n\<rparr>)))" for w m a b c t n
    by (rule sound_trans [OF trs])
      (use hints_sound [OF assms(1), of "l\<lparr>lo_field := apply_trs_output a b c ((lo_field l)\<lparr>cf_trs := t\<rparr>), lo_tick_ms := n\<rparr>" w m] numbers in simp)
  have "sound f (reflex_part le m f)" for m and f :: "'a ClusterField" by (simp add: reflex_part_def reflex_snapshot_sound)
  then show ?thesis by (auto simp: measure_part_def Let_def case_prod_unfold intro!: hints sound_trans [OF hints])
qed

text \<open>Everything after the tick of a round.\<close>

lemma life_round_sound:
  assumes "env_ok (lf_env le)" "energies_numbers (lo_field (tick_part le l))" "life_round le l = Some l'"
  shows "sound (lo_field (tick_part le l)) (lo_field l')"
proof -
  define k where "k = measure_part le (tick_part le l)"
  have k: "sound (lo_field (tick_part le l)) (lo_field k)" unfolding k_def by (rule measure_part_sound [OF assms(1,2)])
  show ?thesis
  proof (cases "lo_last_metrics k")
    case None
    then show ?thesis using assms(3) k by (simp add: life_round_def k_def Let_def)
  next
    case (Some m)
    then have "sync_part le m (dream_part le m k) = Some l'" using assms(3) by (simp add: life_round_def k_def Let_def)
    from sound_trans [OF sound_trans [OF k dream_part_sound] sync_part_sound [OF this]] show ?thesis .
  qed
qed

end
