(* ===== verification/Field_Query.thy ===== *)
theory Field_Query
  imports Field_Mirror Lql
begin

text \<open>
  Execution of queries, \<open>exec_lql\<close> of \<open>cluster_field.rs\<close> with the results of \<open>lql.rs\<close>.  The JSON texts
  reported as events are values of a type of events; how the arguments of a planted seed are written as
  JSON is an argument.
\<close>

section \<open>Results\<close>

record LqlSelectResult =
  ls_pattern :: string
  ls_window_ms :: u32
  ls_min_strength :: "f32 option"
  ls_min_salience :: "f32 option"
  ls_adreno :: "bool option"
  ls_stats :: ViewStats

record LqlSubscribeResult =
  lu_id :: u64
  lu_pattern :: string
  lu_window_ms :: u32
  lu_every_ms :: u32
  lu_min_strength :: "f32 option"
  lu_min_salience :: "f32 option"
  lu_adreno :: "bool option"

record LqlUnsubscribeResult =
  ln_id :: u64
  ln_removed :: bool

record LqlVariantInfo =
  li_id :: string
  li_title :: string
  li_probability :: f32
  li_effort :: f32
  li_score :: f32
  li_evidence :: f32
  li_risk :: f32
  li_expected_gain :: f32

record LqlVariantsResult =
  lv_limit :: "u64 option"
  lv_min_probability :: "f32 option"
  lv_variants :: "LqlVariantInfo list"

record LqlSlideResult =
  ll_id :: string
  ll_variant_ids :: "string list"
  ll_desired_metrics :: goal_map

record LqlCommitResult =
  lc_variant_id :: string
  lc_seeds :: "u64 list"

record LqlPivotResult =
  lp_from :: string
  lp_to :: string
  lp_inertia :: f32
  lp_reason :: "string option"

record LqlDefuseResult =
  ld_pendulum_id :: string
  ld_previous_drain :: f32
  ld_new_drain :: f32

text \<open>The result of an intention has the fields of the intention itself.\<close>

datatype LqlResponse =
    RespSelect LqlSelectResult
  | RespSubscribe LqlSubscribeResult
  | RespUnsubscribe LqlUnsubscribeResult
  | RespIntend Intention
  | RespVariants LqlVariantsResult
  | RespSlide LqlSlideResult
  | RespCommit LqlCommitResult
  | RespPivot LqlPivotResult
  | RespDefuse LqlDefuseResult

datatype LqlEvent =
    ResponseEvent LqlResponse
  | SlideEvent Slide
  | DefuseEvent string f32
  | EdgesEvent nat "ResonantEdge list"
  | InfluencesEvent nat "Influence list"
  | TensionsEvent nat "Tension list"
  | EpochsEvent nat "Epoch list"
  | EpochEvent u64 "Epoch option"
  | ReflexEvent bool "ReflexCfg option"
  | ReflexStatusEvent bool ReflexCfg "ReflexReport option"

record LqlExecResult =
  lx_response :: "LqlResponse option"
  lx_events :: "LqlEvent list"

definition answered :: "LqlResponse \<Rightarrow> LqlEvent \<Rightarrow> LqlError + LqlExecResult" where
  "answered response event = Inr \<lparr>lx_response = Some response, lx_events = [event]\<rparr>"

definition reported :: "LqlEvent \<Rightarrow> LqlError + LqlExecResult" where
  "reported event = Inr \<lparr>lx_response = None, lx_events = [event]\<rparr>"

section \<open>Seeds of a variant\<close>

text \<open>The arguments of a seed from the variant, the token and the expected gain.\<close>

type_synonym 'j seed_args = "string \<Rightarrow> string \<Rightarrow> f32 \<Rightarrow> 'j"

definition plant_token :: "'j seed_args \<Rightarrow> Variant \<Rightarrow> string \<Rightarrow> string \<Rightarrow> 'j ClusterField \<times> u64 list \<Rightarrow> 'j ClusterField \<times> u64 list" where
  "plant_token args v variant_id token st =
     (let (f, planted) = st;
          (garden, i) = plant (cf_seed_garden f) (seed_new PolicyBundle token (args variant_id token (va_expected_gain v))
            (max (va_time_est_ms v) 1) ''manifold'' (cf_now_ms f))
      in (f\<lparr>cf_seed_garden := garden\<rparr>, planted @ [i]))"

definition variant_tokens :: "Variant \<Rightarrow> string list" where
  "variant_tokens v = take 3 (if va_path_hint v = [] then [va_title v] else va_path_hint v)"

definition plant_variant_seeds :: "'j seed_args \<Rightarrow> string \<Rightarrow> 'j ClusterField \<Rightarrow> 'j ClusterField \<times> u64 list" where
  "plant_variant_seeds args variant_id f =
     (case bt_get (vm_variants (cf_variant_layer f)) variant_id of None \<Rightarrow> (f, [])
      | Some v \<Rightarrow> fold (plant_token args v variant_id) (variant_tokens v) (f, []))"

section \<open>Execution\<close>

definition exec_select :: "field_env \<Rightarrow> string \<Rightarrow> u32 option \<Rightarrow> ViewFilter \<Rightarrow> 'j ClusterField \<Rightarrow> LqlSelectResult" where
  "exec_select env pattern window_ms flt f =
     (let window = max (case window_ms of None \<Rightarrow> 1000 | Some w \<Rightarrow> w) 1
      in \<lparr>ls_pattern = pattern, ls_window_ms = window, ls_min_strength = vf_min_strength flt, ls_min_salience = vf_min_salience flt,
          ls_adreno = vf_adreno flt, ls_stats = stats_for_pattern env f pattern window flt\<rparr>)"

definition exec_subscribe :: "string \<Rightarrow> u32 option \<Rightarrow> u32 option \<Rightarrow> ViewFilter \<Rightarrow> 'j ClusterField \<Rightarrow> 'j ClusterField \<times> LqlSubscribeResult" where
  "exec_subscribe pattern window_ms every_ms flt f =
     (let window = max (case window_ms of None \<Rightarrow> 1000 | Some w \<Rightarrow> w) 1;
          every = max (case every_ms of None \<Rightarrow> 1000 | Some e \<Rightarrow> e) 200;
          (views, i) = add_view pattern window every (cf_now_ms f) flt (cf_views f)
      in (f\<lparr>cf_views := views\<rparr>,
          \<lparr>lu_id = i, lu_pattern = pattern, lu_window_ms = window, lu_every_ms = every, lu_min_strength = vf_min_strength flt,
           lu_min_salience = vf_min_salience flt, lu_adreno = vf_adreno flt\<rparr>))"

definition variant_info :: "VariantScore \<Rightarrow> LqlVariantInfo" where
  "variant_info s =
     \<lparr>li_id = vs_id s, li_title = vs_title s, li_probability = vs_probability s, li_effort = vs_effort s, li_score = vs_score s,
      li_evidence = vs_evidence s, li_risk = vs_risk s, li_expected_gain = vs_expected_gain s\<rparr>"

definition introspect_limit :: "u64 option \<Rightarrow> nat" where
  "introspect_limit top_n = (case top_n of None \<Rightarrow> 10 | Some n \<Rightarrow> unat n)"

definition last_option :: "'a list \<Rightarrow> 'a option" where
  "last_option xs = (if xs = [] then None else Some (last xs))"

definition set_variants :: "VariantManifold \<Rightarrow> 'j ClusterField \<Rightarrow> 'j ClusterField" where
  "set_variants m f = f\<lparr>cf_variant_layer := m\<rparr>"

definition set_reflex :: "ReflexState \<Rightarrow> 'j ClusterField \<Rightarrow> 'j ClusterField" where
  "set_reflex r f = f\<lparr>cf_reflex_feedback := r\<rparr>"

type_synonym 'j executed = "'j ClusterField \<times> (LqlError + LqlExecResult)"

definition exec_introspect_model :: "u64 option \<Rightarrow> 'j ClusterField \<Rightarrow> 'j executed" where
  "exec_introspect_model top_n f =
     (let limit = introspect_limit top_n in (f, reported (EdgesEvent limit (take_top (rm_edges (cf_resonant_model f)) limit))))"

definition exec_introspect_influence :: "u64 option \<Rightarrow> 'j ClusterField \<Rightarrow> 'j executed" where
  "exec_introspect_influence top_n f =
     (let limit = introspect_limit top_n in (f, reported (InfluencesEvent limit (take_top (rm_influences (cf_resonant_model f)) limit))))"

definition exec_introspect_tension :: "u64 option \<Rightarrow> 'j ClusterField \<Rightarrow> 'j executed" where
  "exec_introspect_tension top_n f =
     (let limit = introspect_limit top_n in (f, reported (TensionsEvent limit (take_top (rm_tensions (cf_resonant_model f)) limit))))"

definition exec_introspect_epochs :: "u64 option \<Rightarrow> 'j ClusterField \<Rightarrow> 'j executed" where
  "exec_introspect_epochs top_n f =
     (let limit = introspect_limit top_n in (f, reported (EpochsEvent limit (mirror_top_influencers limit f))))"

definition exec_introspect_epoch :: "u64 \<Rightarrow> 'j ClusterField \<Rightarrow> 'j executed" where
  "exec_introspect_epoch i f =
     (f, reported (EpochEvent i (find (\<lambda>e. ep_id e = i) (cf_mirror_epochs f))))"

definition exec_intend :: "string list \<Rightarrow> f32 list \<Rightarrow> u64 option \<Rightarrow> f32 option \<Rightarrow> 'j ClusterField \<Rightarrow> 'j executed" where
  "exec_intend tokens weights horizon_ms budget f =
     (let intention = \<lparr>in_focus_tokens = tokens, in_weights = weights, in_horizon_ms = horizon_ms, in_budget = budget\<rparr>;
          payload = RespIntend intention
      in (set_variants (set_intention intention (cf_variant_layer f)) f, answered payload (ResponseEvent payload)))"

definition exec_variants :: "field_env \<Rightarrow> u64 option \<Rightarrow> f32 option \<Rightarrow> 'j ClusterField \<Rightarrow> 'j executed" where
  "exec_variants env limit min_probability f =
     (let ranked = rank_variants (fe_exp env) (fe_lower env) (fe_tokens env) (map_option unat limit) min_probability (cf_variant_layer f);
          payload = RespVariants \<lparr>lv_limit = limit, lv_min_probability = min_probability, lv_variants = map variant_info ranked\<rparr>
      in (f, answered payload (ResponseEvent payload)))"

definition exec_slide :: "string \<Rightarrow> string list \<Rightarrow> goal_map \<Rightarrow> string option \<Rightarrow> 'j ClusterField \<Rightarrow> 'j executed" where
  "exec_slide i variants goals ethics_guard f =
     (let slide = \<lparr>sl_id = i, sl_variant_ids = variants, sl_desired_metrics = goals, sl_ethics_guard = ethics_guard\<rparr>
      in (set_variants (set_slide slide (cf_variant_layer f)) f,
          answered (RespSlide \<lparr>ll_id = i, ll_variant_ids = variants, ll_desired_metrics = goals\<rparr>) (SlideEvent slide)))"

text \<open>The operations of the manifold work in place: what they leave is installed also when they refuse.\<close>

definition exec_commit :: "'j seed_args \<Rightarrow> string \<Rightarrow> 'j ClusterField \<Rightarrow> 'j executed" where
  "exec_commit args variant_id f =
     (let (m, outcome) = variant_commit variant_id (cf_now_ms f) (cf_variant_layer f); f = set_variants m f
      in case outcome of
           None \<Rightarrow> (f, Inl (''unknown variant '' @ variant_id))
         | Some outcome \<Rightarrow>
             let (f, seeds) = plant_variant_seeds args variant_id f;
                 payload = RespCommit \<lparr>lc_variant_id = co_variant_id outcome, lc_seeds = seeds\<rparr>
             in (f, answered payload (ResponseEvent payload)))"

definition exec_pivot :: "string \<Rightarrow> string \<Rightarrow> string option \<Rightarrow> 'j ClusterField \<Rightarrow> 'j executed" where
  "exec_pivot from to reason f =
     (let (m, outcome) = variant_pivot from to (cf_now_ms f) (cf_variant_layer f); f = set_variants m f
      in case outcome of
           None \<Rightarrow> (f, Inl ''unable to pivot: variant mismatch'')
         | Some outcome \<Rightarrow>
             let payload = RespPivot \<lparr>lp_from = po_from outcome, lp_to = po_to outcome, lp_inertia = po_inertia outcome, lp_reason = reason\<rparr>
             in (f, answered payload (ResponseEvent payload)))"

definition exec_defuse :: "string \<Rightarrow> f32 \<Rightarrow> 'j ClusterField \<Rightarrow> 'j executed" where
  "exec_defuse pendulum_id drain f =
     (let (m, outcome) = variant_defuse pendulum_id drain (cf_variant_layer f); f = set_variants m f
      in case outcome of
           None \<Rightarrow> (f, Inl ''unknown pendulum'')
         | Some outcome \<Rightarrow>
             (f, answered (RespDefuse \<lparr>ld_pendulum_id = df_pendulum_id outcome, ld_previous_drain = df_previous_drain outcome,
                   ld_new_drain = df_new_drain outcome\<rparr>)
                 (DefuseEvent (df_pendulum_id outcome) (df_new_drain outcome))))"

definition exec_unsubscribe :: "u64 \<Rightarrow> 'j ClusterField \<Rightarrow> 'j executed" where
  "exec_unsubscribe i f =
     (let (views, removed) = remove_view i (cf_views f); payload = RespUnsubscribe \<lparr>ln_id = i, ln_removed = removed\<rparr>
      in (f\<lparr>cf_views := views\<rparr>, answered payload (ResponseEvent payload)))"

definition exec_reflex_on :: "'j ClusterField \<Rightarrow> 'j executed" where
  "exec_reflex_on f =
     (let r = (cf_reflex_feedback f)\<lparr>rx_enabled := True\<rparr> in (set_reflex r f, reported (ReflexEvent True (Some (rx_cfg r)))))"

definition exec_reflex_off :: "'j ClusterField \<Rightarrow> 'j executed" where
  "exec_reflex_off f =
     (set_reflex ((cf_reflex_feedback f)\<lparr>rx_enabled := False\<rparr>) f, reported (ReflexEvent False None))"

definition exec_reflex_status :: "'j ClusterField \<Rightarrow> 'j executed" where
  "exec_reflex_status f =
     (f, reported (ReflexStatusEvent (rx_enabled (cf_reflex_feedback f)) (rx_cfg (cf_reflex_feedback f)) (last_option (cf_reflex_reports f))))"

definition exec_reflex_tune :: "ReflexCfg \<Rightarrow> 'j ClusterField \<Rightarrow> 'j executed" where
  "exec_reflex_tune cfg f =
     (let r = (cf_reflex_feedback f)\<lparr>rx_cfg := cfg\<rparr> in (set_reflex r f, reported (ReflexEvent (rx_enabled r) (Some cfg))))"

fun exec_lql :: "field_env \<Rightarrow> 'j seed_args \<Rightarrow> LqlAst \<Rightarrow> 'j ClusterField \<Rightarrow> 'j executed" where
  "exec_lql env args (Select pattern window_ms flt) f =
     (let payload = RespSelect (exec_select env pattern window_ms flt f) in (f, answered payload (ResponseEvent payload)))"
| "exec_lql env args (Subscribe pattern window_ms every_ms flt) f =
     (let (f, result) = exec_subscribe pattern window_ms every_ms flt f; payload = RespSubscribe result
      in (f, answered payload (ResponseEvent payload)))"
| "exec_lql env args (IntrospectModel top_n) f = exec_introspect_model top_n f"
| "exec_lql env args (IntrospectInfluence top_n) f = exec_introspect_influence top_n f"
| "exec_lql env args (IntrospectTension top_n) f = exec_introspect_tension top_n f"
| "exec_lql env args (IntrospectEpochs top_n) f = exec_introspect_epochs top_n f"
| "exec_lql env args (IntrospectEpoch i) f = exec_introspect_epoch i f"
| "exec_lql env args (Intend tokens weights horizon_ms budget) f = exec_intend tokens weights horizon_ms budget f"
| "exec_lql env args (LqlAst.Variants limit min_probability) f = exec_variants env limit min_probability f"
| "exec_lql env args (SlideSet i variants goals ethics_guard) f = exec_slide i variants goals ethics_guard f"
| "exec_lql env args (CommitVariant variant_id) f = exec_commit args variant_id f"
| "exec_lql env args (Pivot from to reason) f = exec_pivot from to reason f"
| "exec_lql env args (Defuse pendulum_id drain) f = exec_defuse pendulum_id drain f"
| "exec_lql env args (Unsubscribe i) f = exec_unsubscribe i f"
| "exec_lql env args ReflexOn f = exec_reflex_on f"
| "exec_lql env args ReflexOff f = exec_reflex_off f"
| "exec_lql env args ReflexStatus f = exec_reflex_status f"
| "exec_lql env args (ReflexTune cfg) f = exec_reflex_tune cfg f"

lemmas exec_defs = exec_subscribe_def exec_introspect_model_def exec_introspect_influence_def exec_introspect_tension_def exec_introspect_epochs_def exec_introspect_epoch_def exec_intend_def exec_variants_def exec_slide_def exec_commit_def exec_pivot_def exec_defuse_def exec_unsubscribe_def exec_reflex_on_def exec_reflex_off_def exec_reflex_status_def exec_reflex_tune_def

section \<open>What a query changes\<close>

text \<open>The registry of views, the variants, the garden and the reflex loop; nothing else.\<close>

definition query_frame :: "'j ClusterField \<Rightarrow> 'j ClusterField \<Rightarrow> bool" where
  "query_frame f g \<longleftrightarrow>
     (\<exists>views variants garden reflex. g = f\<lparr>cf_views := views, cf_variant_layer := variants, cf_seed_garden := garden, cf_reflex_feedback := reflex\<rparr>)"

lemma query_frame_refl [simp]: "query_frame f f"
  unfolding query_frame_def by (intro exI [of _ "cf_views f"] exI [of _ "cf_variant_layer f"] exI [of _ "cf_seed_garden f"] exI [of _ "cf_reflex_feedback f"]) simp

lemma query_frame_trans: "query_frame f g \<Longrightarrow> query_frame g h \<Longrightarrow> query_frame f h"
  by (clarsimp simp: query_frame_def) blast

lemma query_frame_updates [simp]:
  "query_frame f (f\<lparr>cf_views := a\<rparr>)" "query_frame f (f\<lparr>cf_seed_garden := b\<rparr>)" "query_frame f (set_variants c f)" "query_frame f (set_reflex d f)"
proof -
  show "query_frame f (f\<lparr>cf_views := a\<rparr>)" unfolding query_frame_def
    by (intro exI [of _ a] exI [of _ "cf_variant_layer f"] exI [of _ "cf_seed_garden f"] exI [of _ "cf_reflex_feedback f"]) simp
  show "query_frame f (f\<lparr>cf_seed_garden := b\<rparr>)" unfolding query_frame_def
    by (intro exI [of _ "cf_views f"] exI [of _ "cf_variant_layer f"] exI [of _ b] exI [of _ "cf_reflex_feedback f"]) simp
  show "query_frame f (set_variants c f)" unfolding query_frame_def set_variants_def
    by (intro exI [of _ "cf_views f"] exI [of _ c] exI [of _ "cf_seed_garden f"] exI [of _ "cf_reflex_feedback f"]) simp
  show "query_frame f (set_reflex d f)" unfolding query_frame_def set_reflex_def
    by (intro exI [of _ "cf_views f"] exI [of _ "cf_variant_layer f"] exI [of _ "cf_seed_garden f"] exI [of _ d]) simp
qed

lemma plant_frame: "query_frame f (fst (plant_variant_seeds args i f))"
proof -
  have "query_frame f (fst st) \<Longrightarrow> query_frame f (fst (plant_token args v i t st))" for v t st
    by (auto simp: plant_token_def case_prod_unfold Let_def intro: query_frame_trans)
  then have "query_frame f (fst (fold (plant_token args v i) ts (f, [])))" for v ts
    by (rule fold_invariant_by [where P = "\<lambda>st. query_frame f (fst st)"]) simp_all
  then show ?thesis by (simp add: plant_variant_seeds_def split: option.split)
qed

lemma exec_frame: "query_frame f (fst (exec_lql env args q f))"
proof (cases q)
  case (CommitVariant i)
  then show ?thesis
    by (auto simp: exec_commit_def case_prod_unfold Let_def split: option.split intro: query_frame_trans [OF _ plant_frame])
qed (auto simp: exec_defs case_prod_unfold Let_def split: option.split)

lemma exec_sound: "sound f (fst (exec_lql env args q f))"
  using exec_frame [of f env args q] by (auto simp: query_frame_def core_def intro!: sound_same)

text \<open>An operation of the manifold that refuses leaves it as it was.\<close>

lemma refused_unchanged:
  "snd (variant_commit i now m) = None \<Longrightarrow> fst (variant_commit i now m) = m"
  "snd (variant_pivot from to now m) = None \<Longrightarrow> fst (variant_pivot from to now m) = m"
  "snd (variant_defuse i drain m) = None \<Longrightarrow> fst (variant_defuse i drain m) = m"
  by (auto simp: variant_commit_def variant_pivot_def variant_defuse_def Let_def split: option.splits if_splits)

lemma set_variants_same [simp]: "set_variants (cf_variant_layer f) f = f"
  by (simp add: set_variants_def)

lemma failed_query: "snd (exec_lql env args q f) = Inl e \<Longrightarrow> fst (exec_lql env args q f) = f"
  by (cases q) (auto simp: exec_defs answered_def reported_def case_prod_unfold Let_def refused_unchanged split: option.splits prod.splits)

section \<open>Seeds planted by a commitment\<close>

definition variant_seed :: "'j seed_args \<Rightarrow> Variant \<Rightarrow> string \<Rightarrow> u64 \<Rightarrow> string \<Rightarrow> 'j Seed" where
  "variant_seed args v i now t = seed_new PolicyBundle t (args i t (va_expected_gain v)) (max (va_time_est_ms v) 1) ''manifold'' now"

lemma plant_tokens:
  assumes "gd_next_id (cf_seed_garden f) = n" "n \<noteq> 0" "unat n + length ts < 2 ^ 64"
  shows "\<exists>garden. fold (plant_token args v i) ts (f, ids) = (f\<lparr>cf_seed_garden := garden\<rparr>, ids @ map (\<lambda>k. n + word_of_nat k) [0..<length ts]) \<and>
    (\<forall>k<length ts. bt_get (gd_seeds garden) (n + word_of_nat k) = Some ((variant_seed args v i (cf_now_ms f) (ts ! k))\<lparr>sd_id := n + word_of_nat k\<rparr>)) \<and>
    (\<forall>j<n. bt_get (gd_seeds garden) j = bt_get (gd_seeds (cf_seed_garden f)) j) \<and>
    (\<forall>j. (\<forall>k<length ts. j \<noteq> n + word_of_nat k) \<longrightarrow> bt_get (gd_seeds garden) j = bt_get (gd_seeds (cf_seed_garden f)) j)"
  using assms
proof (induction ts arbitrary: f n ids)
  case (Cons t ts)
  define garden where "garden = (cf_seed_garden f)\<lparr>gd_next_id := n + 1,
    gd_seeds := bt_insert n ((variant_seed args v i (cf_now_ms f) t)\<lparr>sd_id := n\<rparr>) (gd_seeds (cf_seed_garden f))\<rparr>"
  have n: "n \<noteq> - 1" using Cons.prems(3) by (auto simp: word_suc_fits)
  then have up: "max n (saturating_add n 1) = n + 1" using word_less_suc [OF n] by (simp add: saturating_add_one max_def)
  have step: "plant_token args v i t (f, ids) = (f\<lparr>cf_seed_garden := garden\<rparr>, ids @ [n])"
    using Cons.prems(1) up by (simp add: plant_token_def plant_def seed_new_def variant_seed_def garden_def Let_def)
  have "n + 1 \<noteq> 0" using n by (simp add: eq_neg_iff_add_eq_0)
  moreover have "unat (n + 1) + length ts < 2 ^ 64" using Cons.prems(3) unat_suc [OF n] by simp
  ultimately obtain G where G: "fold (plant_token args v i) ts (f\<lparr>cf_seed_garden := garden\<rparr>, ids @ [n])
      = (f\<lparr>cf_seed_garden := G\<rparr>, (ids @ [n]) @ map (\<lambda>k. (n + 1) + word_of_nat k) [0..<length ts])"
    "\<And>k. k < length ts \<Longrightarrow> bt_get (gd_seeds G) ((n + 1) + word_of_nat k) =
       Some ((variant_seed args v i (cf_now_ms f) (ts ! k))\<lparr>sd_id := (n + 1) + word_of_nat k\<rparr>)"
    "\<And>j. j < n + 1 \<Longrightarrow> bt_get (gd_seeds G) j = bt_get (gd_seeds garden) j"
    "\<And>j. \<forall>k<length ts. j \<noteq> (n + 1) + word_of_nat k \<Longrightarrow> bt_get (gd_seeds G) j = bt_get (gd_seeds garden) j"
    using Cons.IH [of "f\<lparr>cf_seed_garden := garden\<rparr>" "n + 1" "ids @ [n]"] by (auto simp: garden_def)
  have ids: "map (\<lambda>k. n + word_of_nat k) [0..<length (t # ts)] = n # map (\<lambda>k. (n + 1) + word_of_nat k) [0..<length ts]"
    by (simp add: upt_conv_Cons del: upt_Suc) (simp add: map_Suc_upt [symmetric] algebra_simps del: upt_Suc)
  have first: "bt_get (gd_seeds G) n = Some ((variant_seed args v i (cf_now_ms f) t)\<lparr>sd_id := n\<rparr>)"
    using G(3) [OF word_less_suc [OF n]] by (simp add: garden_def)
  have "bt_get (gd_seeds G) (n + word_of_nat k) = Some ((variant_seed args v i (cf_now_ms f) ((t # ts) ! k))\<lparr>sd_id := n + word_of_nat k\<rparr>)"
    if "k < length (t # ts)" for k
    using that first G(2) [of "k - 1"] by (cases k) (simp_all add: algebra_simps)
  moreover have "bt_get (gd_seeds G) j = bt_get (gd_seeds (cf_seed_garden f)) j" if "j < n" for j
    using that G(3) [of j] word_less_suc [OF n] by (auto simp: garden_def)
  moreover have "bt_get (gd_seeds G) j = bt_get (gd_seeds (cf_seed_garden f)) j"
    if j: "\<forall>k<length (t # ts). j \<noteq> n + word_of_nat k" for j
  proof -
    have "j \<noteq> (n + 1) + word_of_nat k" if "k < length ts" for k
      using j [rule_format, of "Suc k"] that by (simp add: algebra_simps)
    moreover have "j \<noteq> n" using j [rule_format, of 0] by simp
    ultimately show ?thesis using G(4) [of j] by (simp add: garden_def)
  qed
  ultimately show ?case using step G(1) ids by (intro exI [of _ G]) simp
next
  case Nil
  then show ?case by (intro exI [of _ "cf_seed_garden f"]) simp
qed

text \<open>The counter of a garden is above the identifiers in use, until it saturates.\<close>

lemma garden_ids_below:
  "garden_reachable g \<Longrightarrow> gd_next_id g \<noteq> 0 \<and>
     (gd_next_id g \<noteq> - 1 \<longrightarrow> (\<forall>i. bt_get (gd_seeds g) i \<noteq> None \<longrightarrow> i < gd_next_id g))"
proof (induction rule: garden_reachable.induct)
  case (planted g kind target args ttl ns now)
  show ?case
  proof (cases "gd_next_id g = - 1")
    case True
    have "max (- 1) x = - 1" for x :: u64 by (rule max_absorb1) simp
    with True show ?thesis by (simp add: plant_def seed_new_def Let_def)
  next
    case False
    then have "saturating_add (gd_next_id g) 1 = gd_next_id g + 1" "gd_next_id g < gd_next_id g + 1"
      using word_less_suc by (simp_all add: saturating_add_one)
    then show ?thesis using planted.IH False
      by (auto simp: plant_def seed_new_def Let_def max_def split: if_splits)
  qed
next
  case (aborted g i)
  then show ?case by (auto simp: seed_abort_def Let_def split: option.split)
next
  case (ticked g order now)
  have step: "gd_next_id (garden_step now i h) = gd_next_id h" for i and h :: "'a SeedGarden"
    by (simp add: garden_step_def Let_def split: option.split)
  have loop: "gd_next_id (fold (garden_step now) ks h) = gd_next_id h \<and>
      (\<forall>j. bt_get (gd_seeds (fold (garden_step now) ks h)) j = None \<longleftrightarrow> bt_get (gd_seeds h) j = None)" for ks and h :: "'a SeedGarden"
    by (induction ks arbitrary: h) (simp_all add: step garden_step_get)
  show ?case using ticked.IH loop [of order "g\<lparr>gd_recent := []\<rparr>"] by (simp add: tick_garden_def)
qed (simp add: garden_default_def)

end
