(* ===== verification/Field_Run.thy ===== *)
theory Field_Run
  imports Life_Loop Field_Query
begin

text \<open>
  Runs of the field with a journal: the fields that its operations reach, what replay makes of their
  journals, and that identifiers stay fresh after a replay.
\<close>

section \<open>Identifiers through a tick\<close>

definition ids_ok :: "'j ClusterField \<Rightarrow> bool" where
  "ids_ok f \<longleftrightarrow> (\<forall>i c. cells_of f i = Some c \<longrightarrow> nc_id c = i)"

lemma ids_ok_core: "core f = core g \<Longrightarrow> ids_ok f = ids_ok g"
  by (simp add: ids_ok_def cells_of_core [of f g])

lemma ids_ok_set:
  assumes "ids_ok f" "get_cell f i = Some c" "cell_skeleton c' = cell_skeleton c"
  shows "ids_ok (set_cell i c' f)"
  using assms by (auto simp: ids_ok_def get_cell_of cell_skeleton_def)

lemma ids_ok_attach: "ids_ok f \<Longrightarrow> ids_ok (attach_cell env c f)"
  by (simp add: ids_ok_def)

lemma fold_keeps: "(\<And>x st. P st \<Longrightarrow> P (g x st)) \<Longrightarrow> P st \<Longrightarrow> P (fold g xs st)"
  by (induction xs arbitrary: st) simp_all

lemma age_ids: "ids_ok (fst st) \<Longrightarrow> ids_ok (fst (age_cell dt h i st))"
  by (auto simp: age_cell_def Let_def case_prod_unfold split: option.split intro: ids_ok_set)

lemma ids_ok_next [simp]: "ids_ok (f\<lparr>cf_next_id := n\<rparr>) = ids_ok f"
  by (simp add: ids_ok_def)

lemma divide_ids: "ids_ok (dv_field d) \<Longrightarrow> ids_ok (dv_field (divide_cell env i d))"
proof (cases "get_cell (dv_field d) i")
  case (Some c)
  assume ok: "ids_ok (dv_field d)"
  obtain c' oc where m: "maybe_divide (fe_variation env i) c = (c', oc)" by fastforce
  have "cell_skeleton c' = cell_skeleton c" using cell_tick_skeleton(4) [of "fe_variation env i" c] by (simp add: m)
  then have "ids_ok (set_cell i c' (dv_field d))" using ok Some by (intro ids_ok_set)
  then show ?thesis using ok Some m by (simp add: divide_cell_def Let_def split: option.split)
qed (simp add: divide_cell_def)

lemma link_child_ids: "ids_ok (fst st) \<Longrightarrow> ids_ok (fst (link_child env pc st))"
proof -
  assume ok: "ids_ok (fst st)"
  have "ids_ok (register_link p j (set_cell p (c\<lparr>nc_links := l\<rparr>) (fst st)))" if "get_cell (fst st) p = Some c" for p j l c
    using ok that by (simp add: ids_ok_core [OF core_register]) (auto simp: ids_ok_def get_cell_of)
  then show ?thesis using ok by (auto simp: link_child_def Let_def case_prod_unfold split: option.split intro!: ids_ok_attach)
qed

lemma rest_ids: "ids_ok (rs_field r) \<Longrightarrow> ids_ok (rs_field (rest_cell h i r))"
  by (auto simp: rest_cell_def Let_def case_prod_unfold split: option.split intro: ids_ok_set)

lemma tick_cells_ids:
  assumes "ids_ok f"
  shows "ids_ok (rs_field (tick_cells env dt f))"
proof -
  define h where "h = noradrenaline_active f"
  define a where "a = fold (age_cell dt h) (cell_ids env f) (f, [])"
  define d where "d = fold (divide_cell env) (cell_ids env f)
    \<lparr>dv_field = fst (hormone_fades (fst a)), dv_pending = snd a, dv_logs = snd (hormone_fades (fst a)), dv_new = []\<rparr>"
  define l where "l = fold (link_child env) (dv_new d) (dv_field d, dv_pending d)"
  have "ids_ok (fst a)" unfolding a_def by (rule fold_keeps [where P = "\<lambda>st. ids_ok (fst st)"]) (simp_all add: age_ids assms)
  then have "ids_ok (dv_field d)" unfolding d_def
    by (intro fold_keeps [where P = "\<lambda>d. ids_ok (dv_field d)"]) (simp_all add: divide_ids ids_ok_core [OF fades_same(1)])
  then have "ids_ok (fst l)" unfolding l_def
    by (intro fold_keeps [where P = "\<lambda>st. ids_ok (fst st)"]) (simp_all add: link_child_ids)
  moreover have "tick_cells env dt f = fold (rest_cell h) (cell_ids env f)
      \<lparr>rs_field = fst l, rs_pending = snd l, rs_logs = dv_logs d, rs_needs_reindex = False, rs_purge = []\<rparr>"
    by (simp add: tick_cells_def h_def a_def d_def l_def Let_def case_prod_unfold)
  ultimately show ?thesis by (auto intro!: fold_keeps [where P = "\<lambda>r. ids_ok (rs_field r)"] simp: rest_ids)
qed

lemma tick_core:
  "core (fst (tick_all env dt f)) = core (remove_dead (rs_field (tick_cells env dt (clock_tick dt f))))"
proof -
  have "core (awaken_tick g) = core g" for g :: "'a ClusterField" by (simp add: awaken_tick_def core_emit) (simp add: core_def)
  then show ?thesis
    by (simp add: tick_all_chain Let_def after_views_def late_tick_same core_emit_all after_cells_same)
qed

lemma clock_tick_cells: "cells_of (clock_tick dt f) = cells_of f" "cf_cells (clock_tick dt f) = cf_cells f"
  by (simp_all add: clock_tick_def) (simp add: cells_of_def get_cell_def fun_eq_iff)

lemma tick_all_wf:
  assumes "env_ok env" "field_wf f"
  shows "field_wf (fst (tick_all env dt f))"
proof -
  define r where "r = rs_field (tick_cells env dt (clock_tick dt f))"
  have wf: "bt_wf (cf_cells f)" "ids_ok f" using assms(2) by (simp_all add: field_wf_def ids_ok_def)
  then have "ids_ok (clock_tick dt f)" by (simp add: ids_ok_def clock_tick_cells)
  then have "ids_ok r" unfolding r_def by (rule tick_cells_ids)
  moreover have "bt_wf (cf_cells r)" unfolding r_def by (rule tick_cells_step(2) [OF assms(1)]) (simp add: clock_tick_cells wf(1))
  ultimately have r: "ids_ok r" "bt_wf (cf_cells r)" .
  have core: "core (fst (tick_all env dt f)) = core (remove_dead r)" unfolding r_def by (rule tick_core)
  have cells: "cells_of (fst (tick_all env dt f)) j = alive_cell (cells_of r j)" for j
    using cells_of_core [OF core] remove_dead_cells(1) [OF r(2)] by simp
  have "nc_id x = j \<and> nc_state x \<noteq> Dead" if "cells_of (fst (tick_all env dt f)) j = Some x" for j x
    using that r(1) unfolding cells by (auto simp: ids_ok_def alive_cell_def split: option.splits if_splits)
  then show ?thesis using tick_all_step(2) [OF assms(1) wf(1)] by (simp add: field_wf_def)
qed

section \<open>Reachable fields\<close>

text \<open>The fields that operations reach from another.  Trimming is taken with energies that are numbers.\<close>

inductive reaches :: "'j ClusterField \<Rightarrow> 'j ClusterField \<Rightarrow> bool" for f0 where
  start: "reaches f0 f0"
| add_root: "reaches f0 f \<Longrightarrow> reaches f0 (fst (add_root env seed f))"
| add_reflex: "reaches f0 f \<Longrightarrow> reaches f0 (fst (add_reflex env rule f))"
| remove_reflex: "reaches f0 f \<Longrightarrow> reaches f0 (fst (remove_reflex i f))"
| impulse: "reaches f0 f \<Longrightarrow> env_ok env \<Longrightarrow> reaches f0 (fst (route_impulse env imp f))"
| tick: "reaches f0 f \<Longrightarrow> env_ok env \<Longrightarrow> reaches f0 (fst (tick_all env dt f))"
| trim: "reaches f0 f \<Longrightarrow> env_ok env \<Longrightarrow> (\<And>i c. get_cell f i = Some c \<Longrightarrow> nc_energy c \<noteq> F32NaN) \<Longrightarrow> reaches f0 (trim_low_energy env coins f)"
| bud: "reaches f0 f \<Longrightarrow> reaches f0 (inject_seed_variation env jitter extra coin seed f)"
| trs_config: "reaches f0 f \<Longrightarrow> reaches f0 (set_trs_config cfg f)"
| trs_target: "reaches f0 f \<Longrightarrow> reaches f0 (set_trs_target target f)"
| trs_output: "reaches f0 f \<Longrightarrow> reaches f0 (apply_trs_output now load out f)"
| reflex: "reaches f0 f \<Longrightarrow> reaches f0 (fst (record_reflex_snapshot order snap f))"
| strengthen: "reaches f0 f \<Longrightarrow> reaches f0 (fst (adjust_link_score i j delta f))"
| prune: "reaches f0 f \<Longrightarrow> reaches f0 (fst (prune_link i j f))"
| rewire: "reaches f0 f \<Longrightarrow> reaches f0 (fst (rewire_lonely env i f))"
| dream: "reaches f0 f \<Longrightarrow> reaches f0 (fst (run_dream_cycle env took f))"
| dream_config: "reaches f0 f \<Longrightarrow> reaches f0 (set_dream_config dream_cfg f)"
| collective: "reaches f0 f \<Longrightarrow> reaches f0 (fst (run_collective_dream env took groups sync_cfg now f))"
| sync_config: "reaches f0 f \<Longrightarrow> reaches f0 (set_sync_config sync_cfg f)"
| awaken: "reaches f0 f \<Longrightarrow> reaches f0 (fst (awaken_now env f))"
| rebuild: "reaches f0 f \<Longrightarrow> reaches f0 (fst (rebuild_resonant_model env f))"
| build: "reaches f0 f \<Longrightarrow> reaches f0 (fst (build_resonant_model blake3 f))"
| apply_model: "reaches f0 f \<Longrightarrow> reaches f0 (apply_awakening_model f)"
| awakening_config: "reaches f0 f \<Longrightarrow> reaches f0 (set_awakening_config awakening_cfg f)"
| epoch: "reaches f0 f \<Longrightarrow> reaches f0 (push_mirror_epoch e f)"
| replay_epoch: "reaches f0 f \<Longrightarrow> reaches f0 (fst (replay_epoch env took line i replay_cfg f))"
| mirror_interval: "reaches f0 f \<Longrightarrow> reaches f0 (set_mirror_interval interval f)"
| query: "reaches f0 f \<Longrightarrow> reaches f0 (fst (exec_lql env args q f))"
| life: "reaches f0 (lo_field l) \<Longrightarrow> env_ok (lf_env le) \<Longrightarrow> energies_numbers (lo_field (tick_part le l)) \<Longrightarrow>
    life_round le l = Some l' \<Longrightarrow> reaches f0 (lo_field l')"

text \<open>The fields reached from a new one with a journal.\<close>

definition live :: "'j ClusterField \<Rightarrow> bool" where
  "live f \<longleftrightarrow> reaches (set_journal field_new) f"

lemma tick_sound: "env_ok env \<Longrightarrow> sound f (fst (tick_all env dt f))"
proof -
  assume ok: "env_ok env"
  have "simulates {} (view f) {} (view (fst (tick_all env dt f)))" if "field_wf f"
  proof -
    have "bt_wf (cf_cells f)" using that by (simp add: field_wf_def)
    from simulates_mono [OF tick_all_step(1) [OF ok this]] show ?thesis by simp
  qed
  then show ?thesis unfolding sound_def using tick_all_wf [OF ok] by blast
qed

lemmas after_tick = sound_trans [OF _ tick_sound]

text \<open>Each operation writes deltas that keep the relation between a replayed field and the live one.\<close>

lemma reaches_sound: "reaches f0 f \<Longrightarrow> sound f0 f"
proof (induction rule: reaches.induct)
  case (tick f env dt)
  from tick.IH tick_sound [OF tick.hyps(2)] show ?case by (rule sound_trans)
next
  case (trim f env coins)
  have "sound f (trim_low_energy env coins f)" by (rule trim_sound) (use trim.hyps in \<open>simp_all add: get_cell_of\<close>)
  with trim.IH show ?case by (rule sound_trans)
next
  case (life l le l')
  have "sound f0 (lo_field (tick_part le l))" unfolding tick_part_field using life.IH tick_sound [OF life.hyps(2)] by (rule sound_trans)
  from this life_round_sound [OF life.hyps(2-4)] show ?case by (rule sound_trans)
qed (simp, (erule sound_trans; simp add: add_root_sound rules_sound route_impulse_sound inject_sound trs_sound reflex_snapshot_sound link_ops_sound
  run_dream_cycle_sound dream_record_sound collective_dream_sound sync_record_sound awaken_now_sound model_ops_sound mirror_record_sound
  replay_epoch_sound exec_sound)+)

definition same_cell :: "NodeCell \<Rightarrow> NodeCell \<Rightarrow> bool" where
  "same_cell c c' \<longleftrightarrow> nc_id c = nc_id c' \<and> nc_links c = nc_links c' \<and> sp_core_pattern (nc_seed c) = sp_core_pattern (nc_seed c')
     \<and> sp_base_metabolism (nc_seed c) = sp_base_metabolism (nc_seed c') \<and> nc_energy c = nc_energy c'
     \<and> nc_metabolism c = nc_metabolism c' \<and> nc_state c = nc_state c' \<and> nc_last_response_ms c = nc_last_response_ms c'"

lemma alive_wf: "field_wf f \<Longrightarrow> alive_cell (cells_of f i) = cells_of f i"
  by (auto simp: field_wf_def alive_cell_def split: option.split)

lemma sim_start:
  assumes "field_wf f" "cells_of r = cells_of f" "cf_now_ms r = cf_now_ms f"
  shows "sim S (cells_of r, cf_now_ms r) (cells_of f, cf_now_ms f)"
  using alive_wf [OF assms(1)] assms(2,3) by (auto simp: sim_def cell_sim_def rel_option_iff split: option.split)

text \<open>Replay of what was written since a field, on another with the same cells.\<close>

lemma run_replay:
  assumes "reaches f0 f" "field_wf f0" "cf_journal f0 = Some ds"
    and "bt_wf (cf_cells r)" "cells_of r = cells_of f0" "cf_now_ms r = cf_now_ms f0"
  shows "\<exists>es. cf_journal f = Some (ds @ es) \<and> sim {} (cells_of (replay env es r), cf_now_ms (replay env es r)) (cells_of f, cf_now_ms f)"
proof -
  have "simulates {} (view f0) {} (view f)" using reaches_sound [OF assms(1)] assms(2) by (simp add: sound_def)
  then obtain es where es: "cf_journal f = journal_app (Some ds) es"
    "sim {} (fold cells_apply es (cells_of r, cf_now_ms r)) (cells_of f, cf_now_ms f)"
    using sim_start [OF assms(2,5,6)] assms(3) by (auto simp: simulates_def view_def)
  then show ?thesis using replay_cells [OF assms(4), of env es] by auto
qed

lemma tick_replay:
  assumes "reaches f0 f" "env_ok env" "field_wf f0" "cf_journal f0 = Some ds"
    and "bt_wf (cf_cells r)" "cells_of r = cells_of f0" "cf_now_ms r = cf_now_ms f0"
  shows "\<exists>es. cf_journal (fst (tick_all env dt f)) = Some (ds @ es) \<and> cf_now_ms (replay renv es r) = cf_now_ms (fst (tick_all env dt f)) \<and>
    (\<forall>i. rel_option same_cell (get_cell (replay renv es r) i) (get_cell (fst (tick_all env dt f)) i))"
proof -
  define f' where "f' = fst (tick_all env dt f)"
  have wf: "field_wf f" "simulates {} (view f0) {} (view f)" using reaches_sound [OF assms(1)] assms(3) by (simp_all add: sound_def)
  have "simulates {} (view f) UNIV (view f')" unfolding f'_def
    by (rule tick_all_step(1) [OF assms(2)]) (use wf(1) in \<open>simp add: field_wf_def\<close>)
  with wf(2) have "simulates {} (view f0) UNIV (view f')" by (rule simulates_trans)
  then obtain es where es: "cf_journal f' = journal_app (Some ds) es"
    "sim UNIV (fold cells_apply es (cells_of r, cf_now_ms r)) (cells_of f', cf_now_ms f')"
    using sim_start [OF assms(3,6,7)] assms(4) by (auto simp: simulates_def view_def)
  note alive = alive_wf [OF tick_all_wf [OF assms(2) wf(1), of dt], folded f'_def]
  have "cell_sim True = same_cell"
    by (auto simp: cell_sim_def cell_skeleton_def cell_vitals_def same_cell_def fun_eq_iff)
  then have "cf_now_ms (replay renv es r) = cf_now_ms f' \<and> (\<forall>i. rel_option same_cell (get_cell (replay renv es r) i) (get_cell f' i))"
    using es(2) unfolding replay_cells [OF assms(5), of renv es, THEN conjunct1, symmetric] by (simp add: sim_def alive get_cell_of)
  then show ?thesis using es(1) unfolding f'_def by auto
qed

text \<open>A new field with a journal.\<close>

lemma new_field:
  "field_wf (set_journal field_new)" "cf_journal (set_journal field_new) = Some []"
  "bt_wf (cf_cells field_new)" "cells_of field_new = cells_of (set_journal field_new)" "cf_now_ms field_new = cf_now_ms (set_journal field_new)"
  by (simp_all add: field_wf_def set_journal_def field_new_def cells_of_def get_cell_def fun_eq_iff)

section \<open>Identifiers after a replay\<close>

fun spawned :: "EventDelta \<Rightarrow> CellSnapshot option" where
  "spawned (EvSpawn s) = Some s"
| "spawned (EvDivide parent s) = Some s"
| "spawned _ = None"

lemma apply_delta_next_id:
  "cf_next_id (apply_delta env d f) = (case spawned d of None \<Rightarrow> cf_next_id f | Some s \<Rightarrow> max (cf_next_id f) (cs_id s + 1))"
proof -
  have same: "cf_next_id (add_link i j g) = cf_next_id g" "cf_next_id (drop_link i j g) = cf_next_id g"
    "cf_next_id (unregister_link i j g) = cf_next_id g" "cf_next_id (update_cell i h g) = cf_next_id g"
    "cf_next_id (attach_cell env c g) = cf_next_id g" "cf_next_id (purge_tracking_for i g) = cf_next_id g"
    "cf_next_id (rebuild_index env g) = cf_next_id g" for i j h c and g :: "'a ClusterField"
    by (simp_all add: coreD(3) [OF core_register] coreD(3) [OF core_unregister] coreD(3) [OF core_attach] coreD(3) [OF core_purge]
        coreD(3) [OF core_rebuild] add_link_def drop_link_def update_cell_def split: option.split)
  show ?thesis by (cases d) (simp_all add: same Let_def)
qed

lemma cells_apply_dom:
  "fst (cells_apply d (m, t)) i \<noteq> None \<Longrightarrow> m i \<noteq> None \<or> (\<exists>s. spawned d = Some s \<and> i = cs_id s)"
  by (cases d) (auto simp: map_cell_def split: if_splits)

definition ids_below :: "'j ClusterField \<Rightarrow> bool" where
  "ids_below f \<longleftrightarrow> bt_wf (cf_cells f) \<and> (\<forall>i. cells_of f i \<noteq> None \<longrightarrow> i < cf_next_id f)"

lemma apply_delta_below:
  assumes "ids_below f" "\<And>s. spawned d = Some s \<Longrightarrow> cs_id s \<noteq> - 1"
  shows "ids_below (apply_delta env d f)"
proof -
  have step: "(cells_of (apply_delta env d f), cf_now_ms (apply_delta env d f)) = cells_apply d (cells_of f, cf_now_ms f)"
    "bt_wf (cf_cells (apply_delta env d f))" using assms(1) apply_delta_cells [of f env d] by (simp_all add: ids_below_def)
  have "i < cf_next_id (apply_delta env d f)" if "cells_of (apply_delta env d f) i \<noteq> None" for i
  proof -
    have "cells_of f i \<noteq> None \<or> (\<exists>s. spawned d = Some s \<and> i = cs_id s)"
      using cells_apply_dom [of d "cells_of f" "cf_now_ms f" i] that step(1) by (metis fst_conv)
    then show ?thesis
      using assms by (auto simp: apply_delta_next_id ids_below_def less_max_iff_disj word_less_suc split: option.split)
  qed
  then show ?thesis using step(2) by (simp add: ids_below_def)
qed

lemma replay_below:
  "ids_below f \<Longrightarrow> (\<And>d s. d \<in> set ds \<Longrightarrow> spawned d = Some s \<Longrightarrow> cs_id s \<noteq> - 1) \<Longrightarrow> ids_below (replay env ds f)"
  unfolding replay_def
proof (induction ds arbitrary: f)
  case (Cons d ds)
  have "ids_below (apply_delta env d f)" by (rule apply_delta_below [OF Cons.prems(1)]) (use Cons.prems(2) in auto)
  then have "ids_below (fold (apply_delta env) ds (apply_delta env d f))" by (rule Cons.IH) (use Cons.prems(2) in auto)
  then show ?case by simp
qed simp

end
