(* ===== verification/Field_Properties.thy ===== *)
theory Field_Properties
  imports Field_Run
begin

text \<open>
  Properties of the cluster field: what the journal keeps of it, and that its queues stay bounded and in
  order.
\<close>

section \<open>Recovery of the field from its journal\<close>

lemma spawn_values:
  "\<forall>i c. m i = Some c \<longrightarrow> (\<exists>d\<in>D. \<exists>s. spawned d = Some s \<and> cs_id s = i \<and> nc_salience c = cs_salience s
      \<and> nc_adreno_tag c = cs_adreno_tag s \<and> nc_last_recall_ms c = cs_last_recall_ms s) \<Longrightarrow>
   fst (fold cells_apply ds (m, t)) i = Some c \<Longrightarrow>
   \<exists>d\<in>D \<union> set ds. \<exists>s. spawned d = Some s \<and> cs_id s = i \<and> nc_salience c = cs_salience s
      \<and> nc_adreno_tag c = cs_adreno_tag s \<and> nc_last_recall_ms c = cs_last_recall_ms s"
proof (induction ds arbitrary: m t D)
  case (Cons d ds)
  obtain m' t' where step: "cells_apply d (m, t) = (m', t')" by fastforce
  have "\<forall>i c. m' i = Some c \<longrightarrow> (\<exists>d\<in>insert d D. \<exists>s. spawned d = Some s \<and> cs_id s = i \<and> nc_salience c = cs_salience s
      \<and> nc_adreno_tag c = cs_adreno_tag s \<and> nc_last_recall_ms c = cs_last_recall_ms s)"
  proof (intro allI impI)
    fix i c
    assume "m' i = Some c"
    then have "(\<exists>s. spawned d = Some s \<and> cs_id s = i \<and> c = snapshot_to_node s) \<or>
        map_option (\<lambda>c. (nc_salience c, nc_adreno_tag c, nc_last_recall_ms c)) (m i) = Some (nc_salience c, nc_adreno_tag c, nc_last_recall_ms c)"
      using step by (cases d) (auto simp: map_cell_def split: if_splits, blast+)
    then show "\<exists>d\<in>insert d D. \<exists>s. spawned d = Some s \<and> cs_id s = i \<and> nc_salience c = cs_salience s
      \<and> nc_adreno_tag c = cs_adreno_tag s \<and> nc_last_recall_ms c = cs_last_recall_ms s"
      using Cons.prems(1) by (fastforce simp: snapshot_to_node_def)
  qed
  from Cons.IH [OF this, of t'] Cons.prems(2) show ?case by (simp add: step)
qed simp


definition sample_env :: field_env where
  "sample_env = \<lparr>fe_lower = id, fe_rng = (\<lambda>_. (f32_half, f32_half, 7)), fe_variation = (\<lambda>_. f32_zero), fe_exp = id, fe_ln = id,
     fe_ids = id, fe_tokens = id, fe_pairs = id\<rparr>"

lemma sample_env_ok: "env_ok sample_env"
  by (simp add: env_ok_def sample_env_def)

definition sample_field :: "unit ClusterField" where
  "sample_field = fst (add_root sample_env ''liminal'' (set_journal field_new))"

lemma sample_live: "live sample_field"
  unfolding sample_field_def live_def by (intro reaches.add_root reaches.start)


text \<open>Between ticks the journal is behind on energies only: at every moment replay gives the clock and, of
  every cell that is not dead, its identifier, links, pattern and basal metabolism, and no other cells.\<close>

theorem journal_replay_structure:
  assumes "live f"
  shows "\<exists>ds. cf_journal f = Some ds \<and>
    (let g = replay renv ds field_new :: 'j ClusterField in
       cf_now_ms g = cf_now_ms f \<and>
       (\<forall>i. map_option cell_skeleton (get_cell g i) = map_option cell_skeleton (alive_cell (get_cell f i))))"
proof -
  have eq: "rel_option (cell_sim False) x y \<Longrightarrow> map_option cell_skeleton x = map_option cell_skeleton y" for x y
    by (cases x; cases y) (simp_all add: cell_sim_def)
  show ?thesis using run_replay [OF assms [unfolded live_def] new_field, of renv, where 'b = 'j] eq
    by (auto simp: sim_def Let_def cells_of_def)
qed

lemmas sample_field_simps = sample_field_def add_root_def set_journal_def field_new_def sample_env_def create_seed_def Let_def
  attach_cell_def update_index_for_def get_cell_def set_cell_def ensure_link_tracking_def from_seed_params_def emit_def

lemma sample_pattern: "trim ''liminal'' = ''liminal''"
  by (rule trim_graphic) (simp_all add: ascii_graphic_def)

lemma sample_cell: "map_option (\<lambda>c. fst (snd (snd (cell_skeleton c)))) (alive_cell (get_cell sample_field 1)) = Some ''liminal''"
  by (simp add: sample_field_simps alive_cell_def cell_skeleton_def sample_pattern)

theorem journal_replay_structure_witness:
  "\<exists>ds. cf_journal sample_field = Some ds \<and>
    map_option (\<lambda>c. fst (snd (snd (cell_skeleton c)))) (get_cell (replay sample_env ds field_new :: unit ClusterField) 1) = Some ''liminal''"
proof -
  obtain ds where ds: "cf_journal sample_field = Some ds"
    "map_option cell_skeleton (get_cell (replay sample_env ds field_new :: unit ClusterField) 1)
       = map_option cell_skeleton (alive_cell (get_cell sample_field 1))"
    using journal_replay_structure [OF sample_live, of sample_env, where 'j = unit] by (auto simp: Let_def)
  have "map_option (\<lambda>c. fst (snd (snd (cell_skeleton c)))) x = map_option (\<lambda>k. fst (snd (snd k))) (map_option cell_skeleton x)" for x
    by (cases x) simp_all
  then show ?thesis using ds sample_cell by metis
qed

end
