(* ===== verification/Dream_Properties.thy ===== *)
theory Dream_Properties
  imports Field_Properties
begin

text \<open>
  Properties of dreams, of the detection of synchronous groups, of queries on the field and of the life loop.
\<close>

section \<open>Dreams\<close>

text \<open>C29: A dream does not touch what is protected.  Whatever its configuration, the recent routes and the orders of
  hash maps: a cell whose salience reaches the threshold, or that carries the adrenaline tag when tags
  protect, has after the dream exactly the links it had, and every link from it and to it has the score it had.\<close>

theorem dream_spares_protected:
  assumes "protects cfg f i"
  shows "(let g = fst (run_dream env took cfg now f) in
    protects cfg g i \<and> (\<forall>j. has_link g i j = has_link f i j \<and> link_score g i j = link_score f i j \<and> link_score g j i = link_score f j i))"
  using run_dream_spares [of cfg f env took now] assms by (simp add: spares_def Let_def)

definition watchful :: DreamConfig where
  "watchful = \<lparr>dc_min_idle_s = 30, dc_window_ms = 5000, dc_strengthen_top_pct = f32_half, dc_weaken_bottom_pct = f32_half,
     dc_protect_salience = f32_zero, dc_adreno_protect = True, dc_max_ops_per_cycle = 12\<rparr>"

lemma watchful_protects: "protects watchful sample_field 1"
  by (simp add: protects_def watchful_def sample_field_simps f32_ge_def f32_partial_cmp_def f32_zero_def)

theorem dream_spares_protected_witness:
  "(let g = fst (run_dream sample_env 3 watchful 9000 sample_field) in
    protects watchful g 1 \<and> (\<forall>j. has_link g 1 j = has_link sample_field 1 j \<and> link_score g 1 j = link_score sample_field 1 j
      \<and> link_score g j 1 = link_score sample_field j 1))"
  by (rule dream_spares_protected) (rule watchful_protects)

text \<open>C30: A dream is limited.  The links it strengthens, weakens, cuts and makes are together at most one more than
  the number of operations allowed for a cycle; the one more is the second of the two links with which the
  ends of a cut link are reattached, or the cut after the last weakening.\<close>

theorem dream_budget:
  assumes "unat (dc_max_ops_per_cycle cfg) + 1 < 2 ^ 32"
  shows "(let report = snd (run_dream env took cfg now f) in
    unat (dr_strengthened report) + unat (dr_weakened report) + unat (dr_pruned report) + unat (dr_rewired report)
      \<le> unat (dc_max_ops_per_cycle cfg) + 1)"
  using run_dream_budget [OF assms, of env took now f] by (simp add: Let_def dream_used_def)

theorem dream_budget_witness:
  "(let report = snd (run_dream sample_env 3 watchful 9000 sample_field) in
    unat (dr_strengthened report) + unat (dr_weakened report) + unat (dr_pruned report) + unat (dr_rewired report) \<le> 13)"
  using dream_budget [of watchful sample_env 3 9000 sample_field] by (simp add: watchful_def)

section \<open>Synchronous groups\<close>

definition strong_pairs :: "field_env \<Rightarrow> SyncConfig \<Rightarrow> 'j ClusterField \<Rightarrow> PairStat list" where
  "strong_pairs env cfg f =
     filter (\<lambda>p. f32_ge (ps_avg_strength p) (sc_cooccur_threshold cfg)) (collect_recent_pairs env (max (sc_phase_len_ms cfg) 500) f)"

definition linked :: "PairStat list \<Rightarrow> (u64 \<times> u64) set" where
  "linked pairs = ((\<lambda>p. (ps_u p, ps_v p)) ` set pairs \<union> (\<lambda>p. (ps_v p, ps_u p)) ` set pairs)\<^sup>*"

lemma linked_edges:
  assumes "\<And>p. p \<in> set pairs \<Longrightarrow> f32_ge (ps_avg_strength p) t"
  shows "(pair_edges pairs t)\<^sup>* = linked pairs"
proof -
  have "\<not> f32_lt x t" if "f32_ge x t" for x
    using that by (auto simp: f32_ge_def f32_lt_def split: option.splits Ordering.splits)
  then have "pair_edges pairs t = (\<lambda>p. (ps_u p, ps_v p)) ` set pairs \<union> (\<lambda>p. (ps_v p, ps_u p)) ` set pairs"
    using assms by (auto simp: pair_edges_def)
  then show ?thesis by (simp add: linked_def)
qed

lemma map_filter_nodes:
  assumes "\<And>idx nodes g. h (idx, nodes) = Some g \<Longrightarrow> sg_nodes g = nodes"
  shows "mset (concat (map sg_nodes (List.map_filter h xs))) \<subseteq># mset (concat (map snd xs))"
    "length (List.map_filter h xs) \<le> length xs" "sg_nodes ` set (List.map_filter h xs) \<subseteq> snd ` set xs"
proof (induction xs)
  case (Cons x xs)
  case 1
  then show ?case using Cons(1) assms [of "fst x" "snd x"]
    by (auto simp: List.map_filter_simps mset_subset_eq_add_right subset_mset.add_increasing split: option.split)
  case 2
  then show ?case using Cons(2) by (simp add: List.map_filter_simps split: option.split)
  case 3
  then show ?case using Cons(3) assms [of "fst x" "snd x"] by (auto simp: List.map_filter_simps split: option.split)
qed simp_all

lemma mset_concat_of: "mset (concat xss) = \<Sum>\<^sub># (mset (map mset xss))"
  by (simp add: mset_concat flip: sum_mset_sum_list)

lemma mset_concat_perm: "mset xss = mset yss \<Longrightarrow> mset (concat xss) = mset (concat yss)"
  unfolding mset_concat_of by simp

lemma distinct_part:
  assumes "mset ys \<subseteq># mset xs" "distinct xs"
  shows "distinct ys"
proof -
  obtain zs where "mset xs = mset ys + mset zs" using assms(1) by (metis mset_subset_eq_exists_conv ex_mset)
  then have "mset xs = mset (ys @ zs)" by simp
  from mset_eq_imp_distinct_iff [OF this] show ?thesis using assms(2) by simp
qed

lemma groups_spec:
  assumes "env_ok env" "detect_sync_groups env cfg now f = Some groups"
  defines "R \<equiv> linked (strong_pairs env cfg f)"
  shows "distinct (concat (map sg_nodes groups))" "length groups \<le> unat (sc_max_groups cfg)"
    "set ` sg_nodes ` set groups \<subseteq> {R `` {n} | n. R `` {n} \<noteq> {n}}"
proof -
  define pairs where "pairs = sort_by (\<lambda>a b. f32_cmp_or_equal (score_pair b) (score_pair a)) (strong_pairs env cfg f)"
  define comps where "comps = extract_components (fe_ids env) (build_adjacency pairs (sc_cooccur_threshold cfg))"
  define kept where "kept = take (unat (sc_max_groups cfg)) (sort_key (\<lambda>c. - int (length c)) comps)"
  define h where "h = (\<lambda>e. Option.bind (sync_group env cfg now f e) id)"
  have R: "(pair_edges pairs (sc_cooccur_threshold cfg))\<^sup>* = R"
    using linked_edges [of pairs "sc_cooccur_threshold cfg"] by (simp add: R_def pairs_def linked_def) (simp add: strong_pairs_def)
  have comps: "distinct (concat comps)" "set ` set comps = {R `` {n} | n. R `` {n} \<noteq> {n}}"
    using components_of_pairs [of "fe_ids env" pairs "sc_cooccur_threshold cfg"] assms(1) by (simp_all add: comps_def R env_ok_def)
  have groups: "groups = [] \<or> groups = List.map_filter h (List.enumerate 0 kept)"
    using assms(2) unfolding detect_sync_groups_def h_def kept_def comps_def pairs_def strong_pairs_def
    by (auto simp: Let_def split: if_splits dest: those_collect)
  have nodes: "h (idx, nodes) = Some g \<Longrightarrow> sg_nodes g = nodes" for idx nodes g
    by (auto simp: h_def sync_group_def bind_eq_Some_conv split: if_splits)
  have spec: "mset (concat (map sg_nodes (List.map_filter h (List.enumerate 0 kept)))) \<subseteq># mset (concat (map snd (List.enumerate 0 kept)))"
    "length (List.map_filter h (List.enumerate 0 kept)) \<le> length (List.enumerate 0 kept)"
    "sg_nodes ` set (List.map_filter h (List.enumerate 0 kept)) \<subseteq> snd ` set (List.enumerate 0 kept)"
    by (rule map_filter_nodes; rule nodes; assumption)+
  have "mset (concat kept) \<subseteq># mset (concat (sort_key (\<lambda>c. - int (length c)) comps))"
    unfolding kept_def by (metis append_take_drop_id concat_append mset_append mset_subset_eq_add_left)
  also have "\<dots> = mset (concat comps)" by (rule mset_concat_perm) simp
  finally have part: "mset (concat kept) \<subseteq># mset (concat comps)" .
  have names: "map snd (List.enumerate 0 kept) = kept" "snd ` set (List.enumerate 0 kept) = set kept"
    by (simp_all flip: set_map)
  have "distinct (concat (map sg_nodes (List.map_filter h (List.enumerate 0 kept))))"
    using spec(1) unfolding names by (rule distinct_part [OF subset_mset.trans [OF _ part] comps(1)])
  then show "distinct (concat (map sg_nodes groups))" using groups by auto
  have "length kept \<le> unat (sc_max_groups cfg)" "set kept \<subseteq> set comps" by (auto simp: kept_def dest: in_set_takeD)
  then show "length groups \<le> unat (sc_max_groups cfg)" "set ` sg_nodes ` set groups \<subseteq> {R `` {n} | n. R `` {n} \<noteq> {n}}"
    using groups spec(2,3) unfolding names comps(2) [symmetric] by auto
qed

text \<open>C31: Synchronous groups are communities.  Whenever detection returns, the cells of each group are one
  connected component, of two cells or more, of the graph whose edges are the recent pairs that reach the
  threshold; no cell is in two groups, and there are at most as many groups as the configuration allows.
  Detection returns when the scores of the tokens in the recent routes are numbers, whatever the scores of
  the pairs: the \<open>unwrap\<close> in the sort of the pairs never panics.  With a score of a token that is not a
  number the sort of the tokens has no total order, and nothing is claimed.\<close>

theorem sync_groups_are_components:
  assumes "env_ok env"
  shows "(\<forall>groups. detect_sync_groups env cfg now f = Some groups \<longrightarrow> distinct (concat (map sg_nodes groups)) \<and>
      length groups \<le> unat (sc_max_groups cfg) \<and>
      (\<forall>g \<in> set groups. \<exists>n. set (sg_nodes g) = linked (strong_pairs env cfg f) `` {n} \<and> set (sg_nodes g) \<noteq> {n})) \<and>
    (token_scores_numbers f \<longrightarrow> (\<exists>groups. detect_sync_groups env cfg now f = Some groups))"
proof -
  have "\<exists>n. set (sg_nodes g) = linked (strong_pairs env cfg f) `` {n} \<and> set (sg_nodes g) \<noteq> {n}"
    if groups: "detect_sync_groups env cfg now f = Some groups" and "g \<in> set groups" for groups g
  proof -
    have "set (sg_nodes g) \<in> set ` sg_nodes ` set groups" using that by (intro imageI)
    then obtain n where "set (sg_nodes g) = linked (strong_pairs env cfg f) `` {n}" "linked (strong_pairs env cfg f) `` {n} \<noteq> {n}"
      using subsetD [OF groups_spec(3) [OF assms groups]] by blast
    then show ?thesis by (intro exI [of _ n]) simp
  qed
  moreover have "token_scores_numbers f \<longrightarrow> (\<exists>groups. detect_sync_groups env cfg now f = Some groups)"
    using detect_total by (metis not_None_eq)
  moreover have "distinct (concat (map sg_nodes groups))" "length groups \<le> unat (sc_max_groups cfg)"
    if "detect_sync_groups env cfg now f = Some groups" for groups
    using groups_spec(1,2) [OF assms that] .
  ultimately show ?thesis by blast
qed

definition sample_sync :: SyncConfig where
  "sample_sync = \<lparr>sc_phase_len_ms = 2000, sc_phase_gap_ms = 1000, sc_cooccur_threshold = f32_half, sc_max_groups = 4, sc_share_top_k = 3,
     sc_weight_xfer = f32_half\<rparr>"

theorem sync_groups_are_components_witness:
  "\<exists>groups. detect_sync_groups sample_env sample_sync 9000 sample_field = Some groups \<and> length groups \<le> 4"
proof -
  have "token_scores_numbers sample_field" by (simp add: token_scores_numbers_def sample_field_simps)
  then show ?thesis
    using sync_groups_are_components [OF sample_env_ok, of sample_sync 9000 sample_field] by (auto simp: sample_sync_def)
qed

section \<open>Queries\<close>

text \<open>C33: A query that fails changes nothing, and no query, whatever the command, touches the cells, the clock, the
  links, the queues or the journal: it can only replace the registry of views, the variants, the garden and
  the state of the reflex loop.\<close>

theorem query_effects:
  shows "(let (g, result) = exec_lql env args q f in
    (\<exists>views variants garden reflex.
       g = f\<lparr>cf_views := views, cf_variant_layer := variants, cf_seed_garden := garden, cf_reflex_feedback := reflex\<rparr>) \<and>
    (is_ok result \<or> g = f))"
proof -
  obtain g result where run: "exec_lql env args q f = (g, result)" by fastforce
  have "query_frame f g" using exec_frame [of f env args q] by (simp add: run)
  moreover have "is_ok result \<or> g = f" using failed_query [of env args q f] by (cases result) (simp_all add: run)
  ultimately show ?thesis unfolding run query_frame_def by simp
qed

text \<open>C34: Committing to a variant plants its seeds: one for each of the first three tokens of its path, or for its
  title when it has none, under the next identifiers of the garden's counter, which the answer lists.  In a
  garden that planting, aborting and ticking produced these identifiers are not in use, each seed found under
  its identifier is the one made from its token, and every other seed stays.\<close>

theorem commit_plants_seeds:
  assumes "bt_get (vm_variants (cf_variant_layer f)) i = Some v" "garden_reachable (cf_seed_garden f)"
    and "gd_next_id (cf_seed_garden f) = n" "unat n + 3 < 2 ^ 64"
  shows "(let tokens = take 3 (if va_path_hint v = [] then [va_title v] else va_path_hint v);
              ids = map (\<lambda>k. n + word_of_nat k) [0..<length tokens];
              (g, result) = exec_lql env args (CommitVariant i) f in
    result = answered (RespCommit \<lparr>lc_variant_id = i, lc_seeds = ids\<rparr>)
      (ResponseEvent (RespCommit \<lparr>lc_variant_id = i, lc_seeds = ids\<rparr>)) \<and>
    (\<forall>k < length tokens. bt_get (gd_seeds (cf_seed_garden f)) (n + word_of_nat k) = None \<and>
       bt_get (gd_seeds (cf_seed_garden g)) (n + word_of_nat k) =
       Some ((seed_new PolicyBundle (tokens ! k) (args i (tokens ! k) (va_expected_gain v))
         (max (va_time_est_ms v) 1) ''manifold'' (cf_now_ms f))\<lparr>sd_id := n + word_of_nat k\<rparr>)) \<and>
    (\<forall>j. j \<notin> set ids \<longrightarrow> bt_get (gd_seeds (cf_seed_garden g)) j = bt_get (gd_seeds (cf_seed_garden f)) j))"
proof -
  have tokens: "take 3 (if va_path_hint v = [] then [va_title v] else va_path_hint v) = variant_tokens v"
    by (simp add: variant_tokens_def)
  have len: "length (variant_tokens v) \<le> 3" by (simp add: variant_tokens_def)
  then have fits: "unat n + length (variant_tokens v) < 2 ^ 64" using assms(4) by simp
  have n: "n \<noteq> 0" "\<And>j. n \<le> j \<Longrightarrow> bt_get (gd_seeds (cf_seed_garden f)) j = None"
  proof -
    have "n \<noteq> - 1" using assms(4) by (auto simp: word_suc_fits)
    then show "n \<noteq> 0" "\<And>j. n \<le> j \<Longrightarrow> bt_get (gd_seeds (cf_seed_garden f)) j = None"
      using garden_ids_below [OF assms(2)] assms(3) by (auto simp flip: not_less)
  qed
  have "n \<le> n + word_of_nat k" if "k < length (variant_tokens v)" for k
  proof -
    have "k < 2 ^ 64" using that len by simp
    then show ?thesis using that fits by (simp add: word_le_nat_alt unat_word_ariths unat_of_nat)
  qed
  then have free: "bt_get (gd_seeds (cf_seed_garden f)) (n + word_of_nat k) = None" if "k < length (variant_tokens v)" for k
    using that n(2) by blast
  from plant_tokens [of "set_variants (fst (variant_commit i (cf_now_ms f) (cf_variant_layer f))) f" n "variant_tokens v" args v i "[]", OF _ n(1) fits]
  show ?thesis unfolding tokens using assms(1,3) free
    by (auto simp: exec_commit_def plant_variant_seeds_def set_variants_def variant_commit_def variant_seed_def image_iff Let_def)
qed

definition sample_variant :: Variant where
  "sample_variant = \<lparr>va_id = ''v'', va_title = ''walk'', va_evidence_score = f32_half, va_cost_est = f32_one, va_time_est_ms = 500, va_risk = f32_zero,
     va_expected_gain = f32_one, va_path_hint = [''north'', ''lake''], va_resonance_hint = None\<rparr>"

definition sample_planner :: "unit ClusterField" where
  "sample_planner = sample_field\<lparr>cf_variant_layer := (cf_variant_layer sample_field)\<lparr>vm_variants := [(''v'', sample_variant)]\<rparr>,
     cf_seed_garden := fst (plant garden_default (seed_new BoostToken ''cpu'' () 30000 ''default'' 100))\<rparr>"

theorem commit_plants_seeds_witness:
  "snd (exec_lql sample_env (\<lambda>_ _ _. ()) (CommitVariant ''v'') sample_planner) =
     answered (RespCommit \<lparr>lc_variant_id = ''v'', lc_seeds = [2, 3]\<rparr>) (ResponseEvent (RespCommit \<lparr>lc_variant_id = ''v'', lc_seeds = [2, 3]\<rparr>))"
proof -
  have "garden_reachable (cf_seed_garden sample_planner)" by (simp add: sample_planner_def garden_reachable.intros)
  moreover have "gd_next_id (cf_seed_garden sample_planner) = 2"
    by (simp add: sample_planner_def plant_def seed_new_def garden_default_def saturating_add_def max_def Let_def)
  ultimately show ?thesis
    using commit_plants_seeds [of sample_planner "''v''" sample_variant 2 sample_env "\<lambda>_ _ _. ()"]
    by (simp add: sample_planner_def sample_variant_def case_prod_unfold Let_def)
qed

section \<open>The life loop\<close>

text \<open>C32: The life loop keeps its pace.  Started with a tick of 80 to 800 ms on whatever field, the length of the
  tick, which the regulator, the hints, dreams, collective dreams and awakenings all change and which a dream
  saves and restores, is between 80 and 800 ms after every run of rounds that returns, however many rounds and
  whatever the random choices, the elapsed times and the orders of hash maps in each.\<close>

theorem life_loop_bounded:
  assumes "80 \<le> t" "t \<le> 800" "life_run les (life_start t f) = Some l"
  shows "80 \<le> lo_tick_ms l \<and> lo_tick_ms l \<le> 800"
proof -
  have "ticks_ok (life_start t f)" using assms by (simp add: ticks_ok_def tick_ok_def life_start_def)
  from life_run_ok [OF this assms(3)] show ?thesis by (simp add: ticks_ok_def tick_ok_def)
qed

definition sample_life :: life_env where
  "sample_life = \<lparr>lf_env = sample_env, lf_trim_coins = (\<lambda>_. (True, False)), lf_jitter = f32_zero, lf_extra = f32_zero, lf_bud_coin = (\<lambda>_. True),
     lf_wake = True, lf_bias_order = id, lf_dream_took = 1, lf_sync_took = 1, lf_replay_took = 1, lf_hash_dream = (\<lambda>_. 0),
     lf_hash_dream_report = (\<lambda>_. 0), lf_hash_sync = (\<lambda>_. 0), lf_hash_sync_report = (\<lambda>_. 0), lf_hash_awaken = (\<lambda>_. 0),
     lf_hash_awaken_report = (\<lambda>_. 0)\<rparr>"

theorem life_loop_bounded_witness:
  "\<exists>l. life_run [sample_life, sample_life] (life_start 200 sample_field) = Some l \<and> 80 \<le> lo_tick_ms l \<and> lo_tick_ms l \<le> 800"
proof -
  define k where "k = tick_part sample_life (life_start 200 sample_field)"
  have k: "lo_last_metrics k = None" "lo_since_metrics k = 200" "lo_since_metrics (tick_part sample_life k) = 400"
    by (simp_all add: k_def tick_part_def life_start_def restore_slowed_def end_phase_def partial_due_def Let_def)
  have "life_round sample_life (life_start 200 sample_field) = Some k"
    unfolding k_def by (rule early_round) (use k in \<open>simp_all add: k_def life_start_def\<close>)
  moreover have "life_round sample_life k = Some (tick_part sample_life k)" by (rule early_round) (use k in simp_all)
  ultimately have run: "life_run [sample_life, sample_life] (life_start 200 sample_field) = Some (tick_part sample_life k)" by simp
  then show ?thesis using life_loop_bounded [OF _ _ run] by simp
qed

end
