(* ===== verification/Field_Snapshot.thy ===== *)
theory Field_Snapshot
  imports Field_Run Journal
begin

text \<open>
  Snapshots of the field, \<open>liminal-store/src/snapshot.rs\<close>, and the start of a field from its store, as
  \<open>liminal-cli/src/main.rs\<close> and \<open>liminal-bridge-abi/src/ffi.rs\<close> do it: the latest snapshot, the deltas since
  it, and a root when no cell is there.  The serde codecs are arguments.
\<close>

section \<open>Snapshots\<close>

definition RESONANT_SNAPSHOT_LIMIT :: nat where "RESONANT_SNAPSHOT_LIMIT = 48"

definition SYNCLOG_SNAPSHOT_LIMIT :: nat where "SYNCLOG_SNAPSHOT_LIMIT = 96"

definition MIRROR_SNAPSHOT_LIMIT :: nat where "MIRROR_SNAPSHOT_LIMIT = 64"

record 'j SnapshotEnvelope =
  sn_now_ms :: u64
  sn_next_id :: u64
  sn_cells :: "CellSnapshot list"
  sn_rules :: "ReflexRule list"
  sn_next_reflex_id :: u64
  sn_trs :: "TrsState option"
  sn_dream :: "DreamConfig option"
  sn_sync :: "SyncConfig option"
  sn_awakening :: "AwakeningConfig option"
  sn_resonant :: "ResonantModel option"
  sn_sync_log :: "SyncLog option"
  sn_last_awaken_tick :: u64
  sn_mirror :: "MirrorTimeline option"
  sn_seed_garden :: "'j SeedGarden"

record 'j ClusterFieldSeed =
  fs_now_ms :: u64
  fs_next_id :: u64
  fs_cells :: "CellSnapshot list"
  fs_rules :: "ReflexRule list"
  fs_next_reflex_id :: u64
  fs_trs :: TrsState
  fs_dream :: DreamConfig
  fs_sync :: SyncConfig
  fs_awakening :: AwakeningConfig
  fs_resonant :: ResonantModel
  fs_sync_log :: SyncLog
  fs_last_awaken_tick :: u64
  fs_mirror :: MirrorTimeline
  fs_seed_garden :: "'j SeedGarden"

definition restore_cell :: "CellSnapshot \<Rightarrow> 'j ClusterField \<Rightarrow> 'j ClusterField" where
  "restore_cell s f = set_cell (nc_id (snapshot_to_node s)) (snapshot_to_node s) f"

definition restore_rule :: "ReflexRule \<Rightarrow> 'j ClusterField \<Rightarrow> 'j ClusterField" where
  "restore_rule rule f = f\<lparr>cf_rules := bt_insert (rl_id rule) rule (cf_rules f)\<rparr>"

definition reflex_id_after :: "u64 \<Rightarrow> (u64, ReflexRule) btree_map \<Rightarrow> u64" where
  "reflex_id_after next_reflex_id rules =
     (if next_reflex_id = 0 then saturating_add (fold max (bt_keys rules) 0) 1 else next_reflex_id)"

definition into_field :: "field_env \<Rightarrow> 'j ClusterFieldSeed \<Rightarrow> 'j ClusterField" where
  "into_field env seed =
     (let f = fold restore_cell (fs_cells seed) field_new;
          f = fold restore_rule (fs_rules seed) (f\<lparr>cf_now_ms := fs_now_ms seed, cf_next_id := fs_next_id seed\<rparr>);
          f = f\<lparr>cf_next_reflex_id := reflex_id_after (fs_next_reflex_id seed) (cf_rules f), cf_trs := fs_trs seed\<rparr>;
          f = set_sync_config (fs_sync seed) (set_dream_config (fs_dream seed) f);
          f = restore_awakening_state (fs_awakening seed) (fs_resonant seed) (fs_sync_log seed) (fs_last_awaken_tick seed) f;
          f = fold push_mirror_epoch (mt_epochs (fs_mirror seed)) (rebuild_index env f)
      in f\<lparr>cf_seed_garden := fs_seed_garden seed\<rparr>)"

definition truncate_timeline :: "nat \<Rightarrow> MirrorTimeline \<Rightarrow> MirrorTimeline" where
  "truncate_timeline limit timeline =
     (if length (mt_epochs timeline) \<le> limit then timeline
      else timeline\<lparr>mt_epochs := rev (take limit (rev (mt_epochs timeline)))\<rparr>)"

definition snapshot_envelope :: "field_env \<Rightarrow> 'j ClusterField \<Rightarrow> 'j SnapshotEnvelope" where
  "snapshot_envelope env f =
     \<lparr>sn_now_ms = cf_now_ms f, sn_next_id = cf_next_id f,
      sn_cells = map cell_snapshot (List.map_filter (get_cell f) (cell_ids env f)),
      sn_rules = list_reflex f, sn_next_reflex_id = cf_next_reflex_id f, sn_trs = Some (cf_trs f), sn_dream = Some (cf_dream_cfg f),
      sn_sync = Some (cf_sync_cfg f), sn_awakening = Some (cf_awakening_cfg f),
      sn_resonant = map_option (model_truncated RESONANT_SNAPSHOT_LIMIT) (cf_cached_resonant_model f),
      sn_sync_log = Some (sync_truncated SYNCLOG_SNAPSHOT_LIMIT (cf_sync_log f)), sn_last_awaken_tick = cf_last_awaken_tick f,
      sn_mirror = Some (truncate_timeline MIRROR_SNAPSHOT_LIMIT (mirror_timeline f)), sn_seed_garden = cf_seed_garden f\<rparr>"

definition create_snapshot :: "('j SnapshotEnvelope \<Rightarrow> string + bytes) \<Rightarrow> field_env \<Rightarrow> 'j ClusterField \<Rightarrow> string + bytes" where
  "create_snapshot to_vec env f = to_vec (snapshot_envelope env f)"

definition seed_of_envelope :: "'j SnapshotEnvelope \<Rightarrow> 'j ClusterFieldSeed" where
  "seed_of_envelope e =
     \<lparr>fs_now_ms = sn_now_ms e, fs_next_id = sn_next_id e, fs_cells = sn_cells e, fs_rules = sn_rules e,
      fs_next_reflex_id = sn_next_reflex_id e, fs_trs = case_option trs_default id (sn_trs e),
      fs_dream = case_option dream_config_default id (sn_dream e), fs_sync = case_option sync_config_default id (sn_sync e),
      fs_awakening = case_option awakening_config_default id (sn_awakening e),
      fs_resonant = case_option resonant_model_default id (sn_resonant e), fs_sync_log = case_option \<lparr>sy_entries = [], sy_capacity = 0\<rparr> id (sn_sync_log e),
      fs_last_awaken_tick = sn_last_awaken_tick e,
      fs_mirror = case_option \<lparr>mt_epochs = [], mt_built_ms = 0\<rparr> id (sn_mirror e), fs_seed_garden = sn_seed_garden e\<rparr>"

definition load_snapshot :: "(bytes \<Rightarrow> string + 'j SnapshotEnvelope) \<Rightarrow> bytes \<Rightarrow> string + 'j ClusterFieldSeed" where
  "load_snapshot from_slice bs = rbind (from_slice bs) (\<lambda>e. Inr (seed_of_envelope e))"

section \<open>Start from a store\<close>

text \<open>The codecs of the store: CBOR for snapshots and deltas, JSON for the manifest.\<close>

record 'j field_crates =
  fc_to_vec :: "'j SnapshotEnvelope \<Rightarrow> string + bytes"
  fc_from_slice :: "bytes \<Rightarrow> string + 'j SnapshotEnvelope"
  fc_encode_delta :: "EventDelta \<Rightarrow> string + bytes"
  fc_decode_delta :: "bytes \<Rightarrow> string + EventDelta"
  fc_ser_manifest :: "StoreManifest \<Rightarrow> string + bytes"
  fc_de_manifest :: "bytes \<Rightarrow> string + StoreManifest"

definition field_journal :: "'j field_crates \<Rightarrow> field_env \<Rightarrow> (EventDelta, 'j ClusterField, 'j ClusterFieldSeed) journal_env" where
  "field_journal fc env =
     \<lparr>je_encode_delta = fc_encode_delta fc, je_create_snapshot = create_snapshot (fc_to_vec fc) env, je_load_snapshot = load_snapshot (fc_from_slice fc),
      je_ser_manifest = fc_ser_manifest fc, je_de_manifest = fc_de_manifest fc\<rparr>"

datatype StartError = StoreFailed wal_error | DecodeFailed string

definition replay_record :: "'j field_crates \<Rightarrow> field_env \<Rightarrow> 'j ClusterField \<Rightarrow> bytes \<Rightarrow> StartError + 'j ClusterField" where
  "replay_record fc env f bs = rbind (map_err DecodeFailed (fc_decode_delta fc bs)) (\<lambda>delta. Inr (apply_delta env delta f))"

definition loaded_field :: "field_env \<Rightarrow> ('j ClusterFieldSeed \<times> offset) option \<Rightarrow> 'j ClusterField \<times> offset" where
  "loaded_field env loaded =
     (case loaded of Some (seed, off) \<Rightarrow> (into_field env seed, off) | None \<Rightarrow> (field_new, offset_start))"

definition recover_field :: "'j field_crates \<Rightarrow> 'h crc_hasher \<Rightarrow> field_env \<Rightarrow> DiskJournal \<Rightarrow> DiskJournal \<times> (StartError + 'j ClusterField)" where
  "recover_field fc crc env j =
     (case journal_load_latest_snapshot (field_journal fc env) j of
        (j, Inl e) \<Rightarrow> (j, Inl (StoreFailed e))
      | (j, Inr loaded) \<Rightarrow>
          let (f, off) = loaded_field env loaded
          in (j, replay_records crc StoreFailed off (replay_record fc env) f (dj_store j)))"

text \<open>The root of an empty field is added before the journal is set.\<close>

definition start_field :: "'j field_crates \<Rightarrow> 'h crc_hasher \<Rightarrow> field_env \<Rightarrow> DiskJournal \<Rightarrow> DiskJournal \<times> (StartError + 'j ClusterField)" where
  "start_field fc crc env j =
     (case recover_field fc crc env j of
        (j, Inl e) \<Rightarrow> (j, Inl e)
      | (j, Inr f) \<Rightarrow> (j, Inr (set_journal (if cf_cells f = [] then fst (add_root env ''liminal/root'' f) else f))))"

section \<open>What a snapshot keeps\<close>

text \<open>Fields that serde skips have their default after decoding.\<close>

definition wire :: "'j SnapshotEnvelope \<Rightarrow> 'j SnapshotEnvelope" where
  "wire e = e\<lparr>sn_resonant := map_option (\<lambda>m. m\<lparr>rm_last_build := None, rm_last_applied := None\<rparr>) (sn_resonant e),
     sn_sync_log := map_option (\<lambda>l. l\<lparr>sy_capacity := 0\<rparr>) (sn_sync_log e)\<rparr>"

definition snapshot_codec :: "('j SnapshotEnvelope \<Rightarrow> string + bytes) \<Rightarrow> (bytes \<Rightarrow> string + 'j SnapshotEnvelope) \<Rightarrow> bool" where
  "snapshot_codec to_vec from_slice \<longleftrightarrow> (\<forall>e bs. to_vec e = Inr bs \<longrightarrow> from_slice bs = Inr (wire e))"

definition seed_of :: "field_env \<Rightarrow> 'j ClusterField \<Rightarrow> 'j ClusterFieldSeed" where
  "seed_of env f = seed_of_envelope (wire (snapshot_envelope env f))"

lemma snapshot_loads:
  "snapshot_codec to_vec from_slice \<Longrightarrow> create_snapshot to_vec env f = Inr bs \<Longrightarrow> load_snapshot from_slice bs = Inr (seed_of env f)"
  by (simp add: snapshot_codec_def create_snapshot_def load_snapshot_def seed_of_def)

lemma snapshot_of_cell [simp]: "snapshot_to_node (cell_snapshot c) = c"
  by (cases c; cases "nc_seed c") (simp add: snapshot_to_node_def cell_snapshot_def from_seed_params_def)

lemma restore_cells_eq:
  "fold restore_cell ss f = f\<lparr>cf_cells := fold (\<lambda>s. bt_insert (nc_id (snapshot_to_node s)) (snapshot_to_node s)) ss (cf_cells f)\<rparr>"
  by (induction ss arbitrary: f) (simp_all add: restore_cell_def set_cell_def)

lemma restore_rules_eq: "fold restore_rule rs f = f\<lparr>cf_rules := fold (\<lambda>r. bt_insert (rl_id r) r) rs (cf_rules f)\<rparr>"
  by (induction rs arbitrary: f) (simp_all add: restore_rule_def)

lemma push_epochs_eq:
  "cf_journal f = None \<Longrightarrow> fold push_mirror_epoch es f = f\<lparr>cf_mirror_epochs := fold (push_bounded 256) es (cf_mirror_epochs f)\<rparr>"
  by (induction es arbitrary: f) (simp_all add: push_mirror_epoch_def emit_def Let_def)

text \<open>Inserting all values of a map under their keys gives the map.\<close>

lemma insert_all:
  assumes "bt_wf m" "\<And>k v. bt_get m k = Some v \<Longrightarrow> key v = k" "set vs = {v. \<exists>k. bt_get m k = Some v}"
  shows "fold (\<lambda>v. bt_insert (key v) v) vs [] = m"
proof -
  have wf: "bt_wf (fold (\<lambda>v. bt_insert (key v) v) vs n)" if "bt_wf n" for n using that by (induction vs arbitrary: n) simp_all
  have get: "bt_get (fold (\<lambda>v. bt_insert (key v) v) ws n) k = (if \<exists>v \<in> set ws. key v = k then bt_get m k else bt_get n k)"
    if "set ws \<subseteq> {v. \<exists>k. bt_get m k = Some v}" for ws n k
    using that
  proof (induction ws arbitrary: n)
    case (Cons w ws)
    then obtain l where "bt_get m l = Some w" by auto
    then have "bt_get m (key w) = Some w" using assms(2) by auto
    then show ?case using Cons by auto
  qed simp
  have "bt_get (fold (\<lambda>v. bt_insert (key v) v) vs []) k = bt_get m k" for k
  proof (cases "bt_get m k")
    case (Some v)
    then have "v \<in> set vs" "key v = k" using assms(2,3) by auto
    then show ?thesis using get [of vs "[]" k] assms(3) by auto
  next
    case None
    then show ?thesis using get [of vs "[]" k] assms(3) by auto
  qed
  then show ?thesis using wf [of "[]"] assms(1) by (intro bt_ext) simp_all
qed

definition index_frame :: "'j ClusterField \<Rightarrow> 'j ClusterField \<Rightarrow> bool" where
  "index_frame f g \<longleftrightarrow> (\<exists>a b c. g = f\<lparr>cf_index := a, cf_link_usage := b, cf_link_scores := c\<rparr>)"

lemma index_frame_refl [simp]: "index_frame f f"
  unfolding index_frame_def by (intro exI [of _ "cf_index f"] exI [of _ "cf_link_usage f"] exI [of _ "cf_link_scores f"]) simp

lemma index_frame_trans: "index_frame f g \<Longrightarrow> index_frame g h \<Longrightarrow> index_frame f h"
  by (clarsimp simp: index_frame_def) blast

lemma index_frame_steps: "index_frame f (update_index_for env i f)" "index_frame f (ensure_link_tracking i f)" "index_frame f (f\<lparr>cf_index := x\<rparr>)"
proof -
  show index: "index_frame f (f\<lparr>cf_index := x\<rparr>)" for x and f :: "'a ClusterField"
    unfolding index_frame_def by (intro exI [of _ x] exI [of _ "cf_link_usage f"] exI [of _ "cf_link_scores f"]) simp
  show "index_frame f (update_index_for env i f)" by (simp add: update_index_for_def Let_def index split: option.split)
  have "index_frame g (register_link i j g)" for j and g :: "'a ClusterField"
    unfolding index_frame_def register_link_def by (intro exI [of _ "cf_index g"]) auto
  then have "index_frame g (fold (register_link i) js g)" for js and g :: "'a ClusterField"
    by (induction js arbitrary: g) (auto intro: index_frame_trans)
  then show "index_frame f (ensure_link_tracking i f)" by (simp add: ensure_link_tracking_def split: option.split)
qed

lemma index_frame_rebuild: "index_frame f (rebuild_index env f)"
proof -
  have step: "index_frame g (ensure_link_tracking i (update_index_for env i g))" for i and g :: "'a ClusterField"
    by (rule index_frame_trans [OF index_frame_steps(1,2)])
  have "index_frame g (fold (\<lambda>i f. ensure_link_tracking i (update_index_for env i f)) is g)" for "is" and g :: "'a ClusterField"
  proof (induction "is" arbitrary: g)
    case (Cons i "is")
    show ?case using index_frame_trans [OF step Cons.IH] by simp
  qed simp
  then show ?thesis unfolding rebuild_index_def by (rule index_frame_trans [OF index_frame_steps(3)])
qed

lemma into_field_shape:
  fixes seed :: "'j ClusterFieldSeed"
  defines "cells \<equiv> fold (\<lambda>s. bt_insert (nc_id (snapshot_to_node s)) (snapshot_to_node s)) (fs_cells seed) []"
    and "rules \<equiv> fold (\<lambda>r. bt_insert (rl_id r) r) (fs_rules seed) []"
  shows "\<exists>a b c. into_field env seed = field_new\<lparr>cf_cells := cells, cf_now_ms := fs_now_ms seed, cf_next_id := fs_next_id seed, cf_rules := rules,
    cf_next_reflex_id := reflex_id_after (fs_next_reflex_id seed) rules, cf_trs := fs_trs seed, cf_dream_cfg := fs_dream seed,
    cf_sync_cfg := (fs_sync seed)\<lparr>sc_weight_xfer := f32_clamp (f32_dec 5 2) (f32_dec 5 1) (sc_weight_xfer (fs_sync seed))\<rparr>,
    cf_awakening_cfg := fs_awakening seed, cf_cached_resonant_model := Some (fs_resonant seed), cf_resonant_model := fs_resonant seed,
    cf_sync_log := fs_sync_log seed, cf_last_awaken_tick := fs_last_awaken_tick seed,
    cf_mirror_epochs := fold (push_bounded 256) (mt_epochs (fs_mirror seed)) [], cf_seed_garden := fs_seed_garden seed,
    cf_index := a, cf_link_usage := b, cf_link_scores := c\<rparr>"
proof -
  define f where "f = (field_new :: 'j ClusterField)\<lparr>cf_cells := cells, cf_now_ms := fs_now_ms seed, cf_next_id := fs_next_id seed, cf_rules := rules,
    cf_next_reflex_id := reflex_id_after (fs_next_reflex_id seed) rules, cf_trs := fs_trs seed, cf_dream_cfg := fs_dream seed,
    cf_sync_cfg := (fs_sync seed)\<lparr>sc_weight_xfer := f32_clamp (f32_dec 5 2) (f32_dec 5 1) (sc_weight_xfer (fs_sync seed))\<rparr>,
    cf_awakening_cfg := fs_awakening seed, cf_cached_resonant_model := Some (fs_resonant seed), cf_resonant_model := fs_resonant seed,
    cf_sync_log := fs_sync_log seed, cf_last_awaken_tick := fs_last_awaken_tick seed\<rparr>"
  have journal: "cf_journal (field_new :: 'j ClusterField) = None" "cf_cells (field_new :: 'j ClusterField) = []"
    "cf_rules (field_new :: 'j ClusterField) = []" "cf_mirror_epochs (field_new :: 'j ClusterField) = []" by (simp_all add: field_new_def)
  obtain a b c where frame: "rebuild_index env f = f\<lparr>cf_index := a, cf_link_usage := b, cf_link_scores := c\<rparr>"
    using index_frame_rebuild [of f env] by (auto simp: index_frame_def)
  have "into_field env seed = (fold push_mirror_epoch (mt_epochs (fs_mirror seed)) (rebuild_index env f))\<lparr>cf_seed_garden := fs_seed_garden seed\<rparr>"
    by (simp add: into_field_def Let_def restore_cells_eq restore_rules_eq set_dream_config_def set_sync_config_def emit_def journal
        restore_awakening_state_def f_def cells_def rules_def)
  also have "fold push_mirror_epoch (mt_epochs (fs_mirror seed)) (rebuild_index env f) =
      (rebuild_index env f)\<lparr>cf_mirror_epochs := fold (push_bounded 256) (mt_epochs (fs_mirror seed)) []\<rparr>"
    unfolding frame by (subst push_epochs_eq) (simp_all add: f_def journal)
  finally show ?thesis unfolding frame by (intro exI [of _ a] exI [of _ b] exI [of _ c]) (simp add: f_def)
qed

section \<open>Round trips\<close>

text \<open>Rules are kept under their identifiers.\<close>

definition rules_wf :: "'j ClusterField \<Rightarrow> bool" where
  "rules_wf f \<longleftrightarrow> bt_wf (cf_rules f) \<and> (\<forall>i r. bt_get (cf_rules f) i = Some r \<longrightarrow> rl_id r = i)"

lemma bt_values_set: "bt_wf m \<Longrightarrow> set (bt_values m) = {v. \<exists>k. bt_get m k = Some v}"
proof -
  assume wf: "bt_wf m"
  have "v \<in> set (bt_values m) \<longleftrightarrow> (\<exists>k. (k, v) \<in> set m)" for v by (force simp: bt_values_def)
  moreover have "(k, v) \<in> set m \<longleftrightarrow> bt_get m k = Some v" for k v using bt_get_of_set [OF wf] bt_get_in_set by metis
  ultimately show ?thesis by auto
qed

lemma restored_cells:
  assumes "env_ok env" "field_wf f"
  shows "fold (\<lambda>s. bt_insert (nc_id (snapshot_to_node s)) (snapshot_to_node s)) (fs_cells (seed_of env f)) [] = cf_cells f"
proof -
  define cs where "cs = List.map_filter (get_cell f) (cell_ids env f)"
  have "set cs = {c. \<exists>i. bt_get (cf_cells f) i = Some c}"
  proof -
    have "set (cell_ids env f) = {i. bt_get (cf_cells f) i \<noteq> None}" using assms(1) by (auto simp: cell_ids_def env_ok_def bt_keys_iff)
    then show ?thesis by (force simp: cs_def List.map_filter_def get_cell_def)
  qed
  then have "fold (\<lambda>c. bt_insert (nc_id c) c) cs [] = cf_cells f"
    using assms(2) by (intro insert_all) (auto simp: field_wf_def cells_of_def get_cell_def)
  moreover have "fs_cells (seed_of env f) = map cell_snapshot cs"
    by (simp add: seed_of_def seed_of_envelope_def wire_def snapshot_envelope_def cs_def)
  ultimately show ?thesis by (simp add: fold_map o_def)
qed

lemma restored_rules:
  assumes "rules_wf f"
  shows "fold (\<lambda>r. bt_insert (rl_id r) r) (fs_rules (seed_of env f)) [] = cf_rules f"
proof -
  have "set (list_reflex f) = {r. \<exists>i. bt_get (cf_rules f) i = Some r}"
    using assms by (simp add: list_reflex_def rules_wf_def bt_values_set)
  then have "fold (\<lambda>r. bt_insert (rl_id r) r) (list_reflex f) [] = cf_rules f"
    using assms by (intro insert_all) (auto simp: rules_wf_def)
  then show ?thesis by (simp add: seed_of_def seed_of_envelope_def wire_def snapshot_envelope_def)
qed

lemma push_many: "length ys + length xs \<le> n \<Longrightarrow> fold (push_bounded n) xs ys = ys @ xs"
  by (induction xs arbitrary: ys) (simp_all add: push_bounded_def Let_def)

lemma last_few: "rev (take n (rev xs)) = drop (length xs - n) xs"
  by (simp add: take_rev)

lemma restored_field:
  fixes env' :: field_env
  assumes "env_ok env" "field_wf f" "rules_wf f"
  defines "r \<equiv> into_field env' (seed_of env f)"
  shows "cf_cells r = cf_cells f" "cf_now_ms r = cf_now_ms f" "cf_next_id r = cf_next_id f" "cf_rules r = cf_rules f"
    "cf_next_reflex_id f \<noteq> 0 \<Longrightarrow> cf_next_reflex_id r = cf_next_reflex_id f" "cf_trs r = cf_trs f" "cf_dream_cfg r = cf_dream_cfg f"
    "cf_awakening_cfg r = cf_awakening_cfg f" "cf_seed_garden r = cf_seed_garden f" "cf_last_awaken_tick r = cf_last_awaken_tick f"
    "cf_mirror_epochs r = drop (length (cf_mirror_epochs f) - 64) (cf_mirror_epochs f)"
proof -
  note shape = into_field_shape [of env' "seed_of env f", unfolded restored_cells [OF assms(1,2)] restored_rules [OF assms(3)]]
  have mirror: "mt_epochs (fs_mirror (seed_of env f)) = drop (length (cf_mirror_epochs f) - 64) (cf_mirror_epochs f)"
    by (simp add: seed_of_def seed_of_envelope_def wire_def snapshot_envelope_def truncate_timeline_def mirror_timeline_def
        MIRROR_SNAPSHOT_LIMIT_def last_few)
  then have "fold (push_bounded 256) (mt_epochs (fs_mirror (seed_of env f))) [] = drop (length (cf_mirror_epochs f) - 64) (cf_mirror_epochs f)"
    by (subst push_many) simp_all
  with shape show "cf_mirror_epochs r = drop (length (cf_mirror_epochs f) - 64) (cf_mirror_epochs f)" unfolding r_def by auto
  show "cf_cells r = cf_cells f" "cf_now_ms r = cf_now_ms f" "cf_next_id r = cf_next_id f" "cf_rules r = cf_rules f"
    "cf_next_reflex_id f \<noteq> 0 \<Longrightarrow> cf_next_reflex_id r = cf_next_reflex_id f" "cf_trs r = cf_trs f" "cf_dream_cfg r = cf_dream_cfg f"
    "cf_awakening_cfg r = cf_awakening_cfg f" "cf_seed_garden r = cf_seed_garden f" "cf_last_awaken_tick r = cf_last_awaken_tick f"
    using shape unfolding r_def
    by (auto simp: seed_of_def seed_of_envelope_def wire_def snapshot_envelope_def reflex_id_after_def)
qed

section \<open>Recovery\<close>

definition crates_ok :: "'j field_crates \<Rightarrow> bool" where
  "crates_ok fc \<longleftrightarrow> snapshot_codec (fc_to_vec fc) (fc_from_slice fc) \<and>
     (\<forall>d bs. fc_encode_delta fc d = Inr bs \<longrightarrow> fc_decode_delta fc bs = Inr d) \<and>
     (\<forall>m bs. fc_ser_manifest fc m = Inr bs \<longrightarrow> fc_de_manifest fc bs = Inr m)"

lemma field_codec: "crates_ok fc \<Longrightarrow> journal_codec (field_journal fc env) (seed_of env)"
  by (auto simp: journal_codec_def crates_ok_def field_journal_def intro: snapshot_loads)

lemma replay_encoded:
  assumes "crates_ok fc" "list_all2 (\<lambda>d b. fc_encode_delta fc d = Inr b) ds bs"
  shows "fold_result (replay_record fc env) f bs = Inr (replay env ds f)"
  using assms(2)
proof (induction ds arbitrary: bs f)
  case (Cons d ds)
  then obtain b bs' where "bs = b # bs'" "fc_encode_delta fc d = Inr b" "list_all2 (\<lambda>d b. fc_encode_delta fc d = Inr b) ds bs'"
    by (auto simp: list_all2_Cons1)
  then show ?case using Cons.IH assms(1) by (simp add: crates_ok_def replay_record_def replay_def)
qed (simp add: replay_def)

lemma load_any_env: "journal_load_latest_snapshot (field_journal fc env) j = journal_load_latest_snapshot (field_journal fc env') j"
proof -
  have sel: "je_de_manifest (field_journal fc e) = fc_de_manifest fc" "je_load_snapshot (field_journal fc e) = load_snapshot (fc_from_slice fc)" for e
    by (simp_all add: field_journal_def)
  show ?thesis unfolding journal_load_latest_snapshot_def sel ..
qed

text \<open>Loading the snapshot and replaying the deltas since it.\<close>

lemma snapshot_then_deltas:
  assumes "store_rep crc (dj_store j) segs" "segment_room segs (length es)" "crates_ok fc"
    and "journal_write_snapshot (field_journal fc env) faults f j = (j1, Inr info)"
    and "list_all2 (\<lambda>d b. fc_encode_delta fc d = Inr b \<and> frame_ok b) es bs"
  shows "\<exists>j3. recover_field fc crc renv (journal_run_gc (jn_offset info) (append_deltas (field_journal fc env) crc es j1)) =
    (j3, Inr (replay renv es (into_field renv (seed_of env f))))"
proof -
  let ?j2 = "journal_run_gc (jn_offset info) (append_deltas (field_journal fc env) crc es j1)"
  have codec: "journal_codec (field_journal fc env) (seed_of env)" by (rule field_codec [OF assms(3)])
  have bs: "list_all2 (\<lambda>d b. je_encode_delta (field_journal fc env) d = Inr b \<and> frame_ok b) es bs"
    "list_all2 (\<lambda>d b. fc_encode_delta fc d = Inr b) es bs"
    using assms(5) by (simp add: field_journal_def) (rule list_all2_mono [OF assms(5)], simp)
  obtain j3 where j3: "journal_load_latest_snapshot (field_journal fc env) ?j2 = (j3, Inr (Some (seed_of env f, jn_offset info)))"
    "replay_records crc StoreFailed (jn_offset info) (replay_record fc renv) (into_field renv (seed_of env f)) (dj_store j3)
       = fold_result (replay_record fc renv) (into_field renv (seed_of env f)) bs"
    using journal_recovery [OF assms(1,2) codec assms(4) bs(1) refl,
        of StoreFailed "replay_record fc renv" "into_field renv (seed_of env f)"] by (elim exE conjE)
  have "journal_load_latest_snapshot (field_journal fc renv) ?j2 = journal_load_latest_snapshot (field_journal fc env) ?j2"
    by (rule load_any_env)
  then show ?thesis using j3 replay_encoded [OF assms(3) bs(2)] by (simp add: recover_field_def loaded_field_def)
qed

lemma restored_same:
  assumes "env_ok env" "field_wf f"
  shows "bt_wf (cf_cells (into_field renv (seed_of env f)))" "cells_of (into_field renv (seed_of env f)) = cells_of f"
    "cf_now_ms (into_field renv (seed_of env f)) = cf_now_ms f"
proof -
  note shape = into_field_shape [of renv "seed_of env f", unfolded restored_cells [OF assms]]
  then have "cf_cells (into_field renv (seed_of env f)) = cf_cells f" by auto
  moreover have "fs_now_ms (seed_of env f) = cf_now_ms f" by (simp add: seed_of_def seed_of_envelope_def wire_def snapshot_envelope_def)
  with shape show "cf_now_ms (into_field renv (seed_of env f)) = cf_now_ms f" by auto
  ultimately show "bt_wf (cf_cells (into_field renv (seed_of env f)))" "cells_of (into_field renv (seed_of env f)) = cells_of f"
    using assms(2) by (simp_all add: field_wf_def cells_of_def get_cell_def fun_eq_iff)
qed

end
