(* ===== verification/Recovery_Properties.thy ===== *)
theory Recovery_Properties
  imports Field_Properties Field_Snapshot Service_Properties
begin

text \<open>
  Properties of the field together with its store: snapshots, restarts, and the first start.
\<close>

section \<open>Restarts\<close>


lemma root_is_new: "ids_below r \<Longrightarrow> get_cell r (snd (add_root env seed r)) = None"
  by (auto simp: ids_below_def add_root_def Let_def cells_of_def)

text \<open>C28: Identifiers given out after a recovery are new.  When the field whose snapshot was written had all its
  cells below its counter, then after loading the snapshot and replaying the deltas written since, and also
  after replaying a journal without a snapshot on a new field, a root added to the recovered field does not
  replace a cell, as long as no delta spawns a cell with the largest 64-bit identifier.\<close>

theorem recovered_ids_fresh:
  assumes "store_rep crc (dj_store j) segs" "segment_room segs (length es)" "crates_ok fc"
    and "env_ok env" "field_wf f" "rules_wf f" "\<And>i. get_cell f i \<noteq> None \<Longrightarrow> i < cf_next_id f"
    and "journal_write_snapshot (field_journal fc env) faults f j = (j1, Inr info)"
    and "list_all2 (\<lambda>d b. fc_encode_delta fc d = Inr b \<and> frame_ok b) es bs"
    and "list_all (\<lambda>d. pred_option (\<lambda>s. cs_id s \<noteq> - 1) (spawned d)) es"
  shows "(\<exists>j3 r. recover_field fc crc renv (journal_run_gc (jn_offset info) (append_deltas (field_journal fc env) crc es j1)) = (j3, Inr r) \<and>
      get_cell r (snd (add_root env' seed r)) = None) \<and>
    (let r = replay renv es field_new :: 'j ClusterField in get_cell r (snd (add_root env' seed r)) = None)"
proof -
  have spawn: "cs_id s \<noteq> - 1" if "d \<in> set es" "spawned d = Some s" for d s
    using assms(10) that by (auto simp: list_all_iff pred_option_def)
  have "ids_below (into_field renv (seed_of env f))"
    using restored_same [OF assms(4,5), of renv] restored_field(3) [OF assms(4-6), of renv] assms(7) by (simp add: ids_below_def get_cell_of)
  then have "ids_below (replay renv es (into_field renv (seed_of env f)))" using spawn by (rule replay_below)
  moreover have "ids_below (field_new :: 'j ClusterField)" by (simp add: ids_below_def field_new_def cells_of_def get_cell_def)
  then have "ids_below (replay renv es (field_new :: 'j ClusterField))" using spawn by (rule replay_below)
  ultimately show ?thesis using snapshot_then_deltas [OF assms(1-3,8,9), of renv] by (auto simp: Let_def root_is_new)
qed

section \<open>Snapshots\<close>

text \<open>C5: What a snapshot keeps.  Loading the bytes of a snapshot and making a field of them gives back, of a field
  whose cells and rules are under their identifiers: the cells, every part of them, the clock, both
  counters of identifiers, the rules, the regulator, the configurations of dreams and awakening, the garden
  and the last 64 epochs of the mirror.\<close>

theorem field_snapshot_roundtrip:
  assumes "snapshot_codec to_vec from_slice" "env_ok env" "field_wf f" "rules_wf f" "create_snapshot to_vec env f = Inr bs"
  shows "\<exists>seed. load_snapshot from_slice bs = Inr seed \<and>
    (let r = into_field env' seed in
       cf_cells r = cf_cells f \<and> cf_now_ms r = cf_now_ms f \<and> cf_next_id r = cf_next_id f \<and> cf_rules r = cf_rules f \<and>
       (cf_next_reflex_id f \<noteq> 0 \<longrightarrow> cf_next_reflex_id r = cf_next_reflex_id f) \<and> cf_trs r = cf_trs f \<and>
       cf_dream_cfg r = cf_dream_cfg f \<and> cf_awakening_cfg r = cf_awakening_cfg f \<and> cf_seed_garden r = cf_seed_garden f \<and>
       cf_mirror_epochs r = drop (length (cf_mirror_epochs f) - 64) (cf_mirror_epochs f))"
  using snapshot_loads [OF assms(1,5)] restored_field [OF assms(2-4), of env'] by (simp add: Let_def)

section \<open>The first start\<close>

lemma add_root_cell: "get_cell (fst (add_root env seed f)) (cf_next_id f) \<noteq> None"
proof -
  define c where "c = from_seed_params (cf_next_id f) (create_seed (fe_rng env) seed)"
  have "get_cell (attach_cell env c (f\<lparr>cf_next_id := cf_next_id f + 1\<rparr>)) (cf_next_id f) = Some c"
    using attach_cells(1) [of env c "f\<lparr>cf_next_id := cf_next_id f + 1\<rparr>"] by (simp add: get_cell_of c_def)
  then show ?thesis by (simp add: add_root_def Let_def c_def get_cell_of cells_of_core [OF core_emit])
qed

lemma never_spawned:
  "list_all (\<lambda>d. pred_option (\<lambda>s. cs_id s \<noteq> i) (spawned d)) ds \<Longrightarrow> m i = None \<Longrightarrow> fst (fold cells_apply ds (m, t)) i = None"
proof (induction ds arbitrary: m t)
  case (Cons d ds)
  obtain m' t' where step: "cells_apply d (m, t) = (m', t')" by fastforce
  have "m' i = None" using cells_apply_dom [of d m t i] Cons.prems by (cases "m' i") (auto simp: step pred_option_def)
  then show ?case using Cons step by simp
qed simp

text \<open>C40: The root of a new store is not durable.  Started on a store with no snapshot and no delta, the program adds
  a root before it attaches the journal: the field has the root as cell 1 and the journal has no delta that
  spawns it.  Starting again from the same store recovers a field without cells, and after any deltas that
  spawn other cells only, a field without the root.\<close>

theorem first_root_not_durable:
  assumes "store_rep crc (dj_store j) segs" "log_of segs = []"
    and "journal_load_latest_snapshot (field_journal fc env) j = (j, Inr None)"
  shows "(\<exists>f. start_field fc crc env j = (j, Inr f) \<and> get_cell f 1 \<noteq> None \<and> cf_journal f = Some []) \<and>
    recover_field fc crc env j = (j, Inr (field_new :: 'j ClusterField)) \<and>
    (\<forall>es. list_all (\<lambda>d. pred_option (\<lambda>s. cs_id s \<noteq> 1) (spawned d)) es \<longrightarrow>
       get_cell (replay env es (field_new :: 'j ClusterField)) 1 = None)"
proof -
  have recover: "recover_field fc crc env j = (j, Inr (field_new :: 'j ClusterField))"
    using assms replay_records_start [OF assms(1), of StoreFailed "replay_record fc env" "field_new :: 'j ClusterField"]
    by (simp add: recover_field_def loaded_field_def)
  have new: "cf_cells (field_new :: 'j ClusterField) = []" "cf_next_id (field_new :: 'j ClusterField) = 1" by (simp_all add: field_new_def)
  have "get_cell (fst (add_root env s (field_new :: 'j ClusterField))) 1 \<noteq> None" for s
    using add_root_cell [of env s "field_new :: 'j ClusterField"] unfolding new(2) .
  then have start: "\<exists>f. start_field fc crc env j = (j, Inr f) \<and> get_cell f 1 \<noteq> None \<and> cf_journal f = Some []"
    using recover by (simp add: start_field_def new set_journal_def get_cell_def)
  have "get_cell (replay env es (field_new :: 'j ClusterField)) 1 = None"
    if "list_all (\<lambda>d. pred_option (\<lambda>s. cs_id s \<noteq> 1) (spawned d)) es" for es
  proof -
    have "cells_of (replay env es (field_new :: 'j ClusterField)) =
        fst (fold cells_apply es (cells_of (field_new :: 'j ClusterField), cf_now_ms (field_new :: 'j ClusterField)))"
      using replay_cells [of "field_new :: 'j ClusterField" env es] by (metis bt_wf_Nil fst_conv new(1))
    then show ?thesis using never_spawned [OF that] by (simp add: get_cell_of) (simp add: cells_of_def get_cell_def new(1))
  qed
  then show ?thesis using start recover by blast
qed

section \<open>A store with a field\<close>

lemma fold_grows:
  fixes n :: "'s \<Rightarrow> nat"
  assumes "\<And>x st. n (g x st) \<le> n st + k"
  shows "n (fold g xs st) \<le> n st + k * length xs"
proof (induction xs arbitrary: st)
  case (Cons x xs)
  have "n (fold g xs (g x st)) \<le> n (g x st) + k * length xs" by (rule Cons.IH)
  then show ?case using assms [of x st] by simp
qed simp

text \<open>A tick leaves a bounded number of deltas for each cell.\<close>

lemma pending_bound: "length (rs_pending (tick_cells env dt f)) \<le> 8 * length (cell_ids env f)"
proof -
  let ?ids = "cell_ids env f"
  define h where "h = noradrenaline_active f"
  define a where "a = fold (age_cell dt h) ?ids (f, [])"
  define d where "d = fold (divide_cell env) ?ids
    \<lparr>dv_field = fst (hormone_fades (fst a)), dv_pending = snd a, dv_logs = snd (hormone_fades (fst a)), dv_new = []\<rparr>"
  define l where "l = fold (link_child env) (dv_new d) (dv_field d, dv_pending d)"
  have eq: "tick_cells env dt f = fold (rest_cell h) ?ids
      \<lparr>rs_field = fst l, rs_pending = snd l, rs_logs = dv_logs d, rs_needs_reindex = False, rs_purge = []\<rparr>"
    by (simp add: tick_cells_def h_def a_def d_def l_def Let_def case_prod_unfold)
  have "length (snd a) \<le> 0 + 1 * length ?ids" unfolding a_def
    by (rule order_trans [OF fold_grows [where n = "\<lambda>st. length (snd st)" and k = 1]])
      (simp_all add: age_cell_def Let_def case_prod_unfold split: option.split)
  moreover have "length (dv_pending d) \<le> length (snd a) + 2 * length ?ids" unfolding d_def
    by (rule order_trans [OF fold_grows [where n = "\<lambda>d. length (dv_pending d)" and k = 2]])
      (simp_all add: divide_cell_def Let_def split: option.split prod.split)
  moreover have "length (dv_new d) \<le> 0 + 1 * length ?ids" unfolding d_def
    by (rule order_trans [OF fold_grows [where n = "\<lambda>d. length (dv_new d)" and k = 1]])
      (simp_all add: divide_cell_def Let_def split: option.split prod.split)
  moreover have "length (snd l) \<le> length (dv_pending d) + 2 * length (dv_new d)" unfolding l_def
    by (rule order_trans [OF fold_grows [where n = "\<lambda>st. length (snd st)" and k = 2]])
      (simp_all add: link_child_def Let_def case_prod_unfold split: option.split)
  moreover have "length (rs_pending (tick_cells env dt f)) \<le> length (snd l) + 3 * length ?ids" unfolding eq
    by (rule order_trans [OF fold_grows [where n = "\<lambda>r. length (rs_pending r)" and k = 3]])
      (simp_all add: rest_cell_def Let_def case_prod_unfold split: option.split)
  ultimately show ?thesis by simp
qed

lemma tick_cells_journal: "cf_journal (rs_field (tick_cells env dt f)) = cf_journal f"
proof -
  let ?J = "cf_journal f"
  define h where "h = noradrenaline_active f"
  define a where "a = fold (age_cell dt h) (cell_ids env f) (f, [])"
  define d where "d = fold (divide_cell env) (cell_ids env f)
    \<lparr>dv_field = fst (hormone_fades (fst a)), dv_pending = snd a, dv_logs = snd (hormone_fades (fst a)), dv_new = []\<rparr>"
  define l where "l = fold (link_child env) (dv_new d) (dv_field d, dv_pending d)"
  have set [simp]: "cf_journal (set_cell i c g) = cf_journal g" for i c and g :: "'a ClusterField" by (simp add: set_cell_def)
  have "cf_journal (fst a) = ?J" unfolding a_def
    by (rule fold_keeps [where P = "\<lambda>st. cf_journal (fst st) = ?J"]) (auto simp: age_cell_def Let_def case_prod_unfold split: option.split)
  then have "cf_journal (fst (hormone_fades (fst a))) = ?J" by (simp add: hormone_fades_def split: option.split)
  then have "cf_journal (dv_field d) = ?J" unfolding d_def
    by (intro fold_keeps [where P = "\<lambda>d. cf_journal (dv_field d) = ?J"]) (auto simp: divide_cell_def Let_def split: option.split prod.split)
  then have "cf_journal (fst l) = ?J" unfolding l_def
    by (intro fold_keeps [where P = "\<lambda>st. cf_journal (fst st) = ?J"]) (auto simp: link_child_def Let_def case_prod_unfold split: option.split)
  moreover have "tick_cells env dt f = fold (rest_cell h) (cell_ids env f)
      \<lparr>rs_field = fst l, rs_pending = snd l, rs_logs = dv_logs d, rs_needs_reindex = False, rs_purge = []\<rparr>"
    by (simp add: tick_cells_def h_def a_def d_def l_def Let_def case_prod_unfold)
  ultimately show ?thesis
    by (auto intro!: fold_keeps [where P = "\<lambda>r. cf_journal (rs_field r) = ?J"] simp: rest_cell_def Let_def case_prod_unfold split: option.split)
qed

lemma tick_deltas: "\<exists>es. cf_journal (fst (tick_all env dt f)) = journal_app (cf_journal f) es \<and> length es \<le> 8 * length (cell_ids env f) + 2"
proof -
  define c where "c = clock_tick dt f"
  define r where "r = tick_cells env dt c"
  have journal: "cf_journal c = journal_app (cf_journal f) [EvTick (saturating_add (cf_now_ms f) dt)]" by (simp add: c_def clock_tick_def)
  have ids: "cell_ids env c = cell_ids env f" by (simp add: cell_ids_def c_def clock_tick_cells)
  have "fst (tick_all env dt f) = awaken_tick (after_views env dt (emit_all (rs_pending r) (after_cells env r)))"
    by (simp add: tick_all_chain Let_def r_def c_def)
  moreover have "cf_journal (awaken_tick g) = journal_app (cf_journal g) [EvAwakenTick (rm_last_applied (cf_resonant_model g)) (cf_now_ms g)]" for g :: "'a ClusterField"
    by (simp add: awaken_tick_def)
  ultimately have "\<exists>e. cf_journal (fst (tick_all env dt f)) = journal_app (cf_journal c) (rs_pending r @ [e])"
    using tick_cells_journal [of env dt c] by (auto simp: after_views_def late_tick_same after_cells_same r_def)
  then obtain e where e: "cf_journal (fst (tick_all env dt f)) = journal_app (cf_journal f) (EvTick (saturating_add (cf_now_ms f) dt) # rs_pending r @ [e])"
    by (auto simp: journal)
  show ?thesis using pending_bound [of env dt c] e by (intro exI [of _ "EvTick (saturating_add (cf_now_ms f) dt) # rs_pending r @ [e]"]) (simp add: ids r_def)
qed

text \<open>Codecs by tables, on the store of the examples.\<close>

definition sample_manifest :: StoreManifest where
  "sample_manifest = \<lparr>last_snapshot = Some (snapshot_file_path 1), wal_segment = 1, wal_position = 0\<rparr>"

definition sample_crates :: "EventDelta list \<Rightarrow> unit field_crates" where
  "sample_crates es =
     \<lparr>fc_to_vec = ser_table [snapshot_envelope sample_env sample_field],
      fc_from_slice = (\<lambda>bs. rbind (de_table [snapshot_envelope sample_env sample_field] bs) (\<lambda>e. Inr (wire e))),
      fc_encode_delta = ser_table es, fc_decode_delta = de_table es,
      fc_ser_manifest = ser_table [sample_manifest], fc_de_manifest = de_table [sample_manifest]\<rparr>"

lemma sample_crates_ok: "crates_ok (sample_crates es)"
  by (auto simp: crates_ok_def sample_crates_def snapshot_codec_def ser_de_table)

lemma sample_encodes:
  "length es < 256 \<Longrightarrow> \<exists>bs. list_all2 (\<lambda>d b. fc_encode_delta (sample_crates es) d = Inr b \<and> frame_ok b) es bs"
proof -
  assume len: "length es < 256"
  have "\<exists>b. ser_table es d = Inr b" if "d \<in> set es" for d
  proof -
    have "find_index (\<lambda>w. w = d) es \<noteq> None" using that by (induction es) (auto split: option.split)
    then obtain i where i: "find_index (\<lambda>w. w = d) es = Some i" by blast
    then have "i < 256" using find_index_Some [OF i] len by simp
    then show ?thesis using i by (simp add: ser_table_def)
  qed
  then have "\<forall>d \<in> set es. \<exists>b. fc_encode_delta (sample_crates es) d = Inr b \<and> frame_ok b"
    by (simp add: sample_crates_def) (metis ser_table_frame)
  then obtain g where "\<forall>d \<in> set es. fc_encode_delta (sample_crates es) d = Inr (g d) \<and> frame_ok (g d)" by metis
  then have "list_all2 (\<lambda>d b. fc_encode_delta (sample_crates es) d = Inr b \<and> frame_ok b) es (map g es)"
    by (simp add: list_all2_map2 list_all2_same)
  then show ?thesis ..
qed

lemma sample_field_ok: "field_wf sample_field" "rules_wf sample_field"
  by (auto simp: field_wf_def rules_wf_def cells_of_def sample_field_simps bt_wf_Cons split: if_splits)

lemma sample_field_snapshot:
  "\<exists>j1 info. journal_write_snapshot (field_journal (sample_crates es) sample_env) no_snapshot_faults sample_field (sample_journal []) = (j1, Inr info)"
proof -
  have "next_snapshot_id (log_store crc32 [] []) = 1"
    by (simp add: next_snapshot_id_def list_snapshots_def numbered_files_def log_store_def sort_dedup_def map_filter_simps)
  then show ?thesis
    by (simp add: journal_write_snapshot_def field_journal_def sample_journal_def sample_crates_def create_snapshot_def sample_manifest_def
        end_offset_def log_store_def Let_def write_snapshot_file_def no_snapshot_faults_def require_def write_manifest_def ser_table_def)
qed


definition sample_deltas :: "EventDelta list" where
  "sample_deltas = [EvSpawn (cell_snapshot (from_seed_params 4 (create_seed (fe_rng sample_env) ''liminal''))), EvDead 4]"

theorem recovered_ids_fresh_witness:
  "\<exists>j1 info j3 r. journal_write_snapshot (field_journal (sample_crates sample_deltas) sample_env) no_snapshot_faults sample_field (sample_journal []) = (j1, Inr info) \<and>
    recover_field (sample_crates sample_deltas) crc32 sample_env
      (journal_run_gc (jn_offset info) (append_deltas (field_journal (sample_crates sample_deltas) sample_env) crc32 sample_deltas j1)) = (j3, Inr r) \<and>
    get_cell r (snd (add_root sample_env ''next'' r)) = None"
proof -
  have len: "length sample_deltas < 256" and room: "segment_room [(1, [])] (length sample_deltas)"
    by (simp_all add: sample_deltas_def segment_room_def)
  have spawn: "list_all (\<lambda>d. pred_option (\<lambda>s. cs_id s \<noteq> - 1) (spawned d)) sample_deltas"
    by (simp add: sample_deltas_def cell_snapshot_def from_seed_params_def)
  have below: "i < cf_next_id sample_field" if "get_cell sample_field i \<noteq> None" for i
    using that by (auto simp: sample_field_simps split: if_splits)
  obtain j1 info where snap: "journal_write_snapshot (field_journal (sample_crates sample_deltas) sample_env) no_snapshot_faults sample_field (sample_journal []) = (j1, Inr info)"
    using sample_field_snapshot by blast
  obtain bs where "list_all2 (\<lambda>d b. fc_encode_delta (sample_crates sample_deltas) d = Inr b \<and> frame_ok b) sample_deltas bs"
    using sample_encodes [OF len] by blast
  from recovered_ids_fresh [OF sample_journal_rep room sample_crates_ok sample_env_ok sample_field_ok below snap this spawn,
      of sample_env sample_env "''next''", where 'j = unit] snap
  show ?thesis by blast
qed

theorem field_snapshot_roundtrip_witness:
  "\<exists>bs seed. create_snapshot (fc_to_vec (sample_crates [])) sample_env sample_field = Inr bs \<and>
    load_snapshot (fc_from_slice (sample_crates [])) bs = Inr seed \<and> cf_cells (into_field sample_env seed) = cf_cells sample_field"
proof -
  obtain bs where bs: "create_snapshot (fc_to_vec (sample_crates [])) sample_env sample_field = Inr bs"
    by (simp add: create_snapshot_def sample_crates_def ser_table_def)
  have "snapshot_codec (fc_to_vec (sample_crates [])) (fc_from_slice (sample_crates []))" using sample_crates_ok by (simp add: crates_ok_def)
  from field_snapshot_roundtrip [OF this sample_env_ok sample_field_ok(1,2) bs, of sample_env] bs show ?thesis by (auto simp: Let_def)
qed

theorem first_root_not_durable_witness:
  "\<exists>f. start_field (sample_crates []) crc32 sample_env (sample_journal []) = (sample_journal [], Inr f) \<and> get_cell f 1 \<noteq> None \<and>
    recover_field (sample_crates []) crc32 sample_env (sample_journal []) = (sample_journal [], Inr (field_new :: unit ClusterField))"
proof -
  have "journal_load_latest_snapshot (field_journal (sample_crates []) sample_env) (sample_journal []) = (sample_journal [], Inr None)"
    by (simp add: journal_load_latest_snapshot_def read_manifest_def sample_journal_def log_store_def)
  from first_root_not_durable [OF sample_journal_rep _ this] show ?thesis by auto
qed

end
