(* ===== verification/Spec2Isabelle.thy ===== *)
theory Spec2Isabelle
  imports ProofPath_Properties Governance_Properties Wal_Properties Service_Properties Noetic_Properties
    Core_Properties Lql_Properties Field_Properties Dream_Properties Recovery_Properties
begin

text \<open>
  LiminalDB: a verification library for the crates under \<open>src/liminal-db/crates\<close>.

  \<^bold>\<open>The program.\<close>  LiminalDB keeps a field of cells in memory and makes what happened to it durable.
  The store crate (\<open>liminal-store\<close>) owns the disk: an append-only log of checksummed frames in numbered
  segments, and snapshot files replaced through a temporary file and a backup.  On that log stand the
  journal of the field, the ledger of trustworthy transitions, the ledger of ProofPath evidence, signed
  checkpoints of a transition ledger, and the bridge that turns a governance envelope into a ledger
  event, a snapshot, a checkpoint and a receipt.  The core crate (\<open>liminal-core\<close>) holds the field with
  its load regulator and reflex loop, and the access control of its services.  The network crate
  (\<open>liminal-bridge-net\<close>) exchanges replicated state between peers after a signed handshake, and a small
  runtime of \<open>liminal-bridge-abi\<close> drives proposals and votes on it.

  \<^bold>\<open>Theories and sources.\<close>
  \<^item> \<open>Prelude\<close>, \<open>Rust_Text\<close>, \<open>BTree_Map\<close>: what the code uses of Rust's standard library: results with
    early return, wrapping and saturating integers, trimming, number formats, sort-and-deduplicate,
    ordered maps.  \<open>F32\<close>, \<open>F32_Arith\<close> and \<open>F32_Literals\<close> are single-precision arithmetic with exact
    rounding, \<open>Unicode_Text\<close> words of a text, \<open>Rust_Sort\<close> stable sorting by any comparison, with and without
    a result where the comparison is not a total order.
  \<^item> \<open>Wal\<close> (\<open>wal.rs\<close>, \<open>gc.rs\<close>), \<open>Wal_Log\<close> (frames and streams), \<open>Wal_Store\<close> (the store as a log), \<open>Wal_Open\<close>
    (opening it under failing calls), \<open>Append_Log\<close> (the contract of the store as locales), \<open>Wal_Properties\<close>.
  \<^item> \<open>Snapshot_Durability\<close>: \<open>snapshot_durability.rs\<close> and \<open>durability.rs\<close>.
  \<^item> \<open>Transition\<close>, \<open>Transition_Invariant\<close>, \<open>Transition_Ledger\<close>, \<open>Transition_Properties\<close>:
    \<open>trustworthy_transition.rs\<close>; \<open>Hash_Chain\<close> is the pattern both ledgers share.
  \<^item> \<open>ProofPath\<close>, \<open>ProofPath_Ledger\<close>, \<open>ProofPath_Properties\<close>: \<open>proofpath_durable.rs\<close>.
  \<^item> \<open>Checkpoint\<close>, \<open>Checkpoint_Chain\<close>, \<open>Checkpoint_Properties\<close>: \<open>checkpoint.rs\<close>.
  \<^item> \<open>Governance\<close>, \<open>Governance_Properties\<close>: \<open>governance_checkpoint_bridge.rs\<close>.
  \<^item> \<open>Journal\<close> (\<open>journal_impl.rs\<close>), \<open>Access\<close> (\<open>security.rs\<close>), \<open>Peers\<close> (\<open>peers.rs\<close>),
    \<open>Service_Properties\<close>.
  \<^item> \<open>Crdt\<close>, \<open>Noetic_State\<close>, \<open>Consensus\<close>, \<open>Noetic_Properties\<close>: \<open>noetic/crdt.rs\<close>, \<open>noetic/state.rs\<close>,
    \<open>noetic/consensus.rs\<close> and the \<open>NoeticRuntime\<close> of \<open>ffi.rs\<close>.
  \<^item> \<open>Trs\<close> (\<open>trs.rs\<close>), \<open>Reflex\<close> (\<open>reflex/feedback.rs\<close>), \<open>Views\<close> (\<open>views.rs\<close>), \<open>Core_Properties\<close>.
  \<^item> \<open>Lql\<close> (\<open>lql.rs\<close>), \<open>Lql_Grammar\<close> (the grammar of its clauses), \<open>Lql_Properties\<close>.
  \<^item> \<open>Node_Cell\<close> (\<open>node_cell.rs\<close>, \<open>seed.rs\<close>, \<open>types.rs\<close>), \<open>Seeds\<close> (\<open>seeds.rs\<close>, \<open>seeds_metrics.rs\<close>), \<open>Variants\<close>
    (\<open>variant.rs\<close>), \<open>Symmetry\<close> (\<open>symmetry.rs\<close>, \<open>reflex/legacy.rs\<close>).
  \<^item> The field, \<open>cluster_field.rs\<close> and \<open>journal.rs\<close>: \<open>Field_Events\<close> (deltas and configurations), \<open>Field\<close> (state,
    index, links, hits, window queries), \<open>Field_Routing\<close> (impulses and reflex rules), \<open>Field_Tick\<close> (ticks,
    trimming, budding), \<open>Field_Replay\<close> (replay of a delta, and replay on the cells alone), \<open>Field_Query\<close>
    (execution of queries).  \<open>Field_Simulation\<close> relates each step of a tick to the deltas it writes,
    \<open>Field_Sound\<close> does so for the other operations, \<open>Field_Run\<close> defines the reachable fields, and
    \<open>Field_Properties\<close> has the theorems on recovery.
  \<^item> \<open>Field_Dreams\<close> (\<open>dream_engine.rs\<close>), \<open>Field_Synchrony\<close> (\<open>synchrony.rs\<close>), \<open>Field_Awakening\<close> (\<open>awakening.rs\<close>,
    \<open>resonant.rs\<close>), \<open>Field_Mirror\<close> (\<open>mirror.rs\<close>, \<open>recursion.rs\<close>), \<open>Life_Loop\<close> (\<open>life_loop.rs\<close>, \<open>morph_mind.rs\<close>),
    \<open>Dream_Properties\<close>.
  \<^item> \<open>Field_Snapshot\<close> (\<open>snapshot.rs\<close> and the start of a field in \<open>main.rs\<close>), \<open>Recovery_Properties\<close>.
  \<^item> \<open>Sample_Crates\<close>: concrete functions for the parameters, used by the examples.

  \<^bold>\<open>How state and operations correspond.\<close>  A struct is a record with a prefix per struct, an enum a
  datatype, a fallible function returns \<open>'e + 'a\<close>, and a method with \<open>&mut self\<close> returns the new state
  with its result.  The disk is a map from file names to bytes.  Integers keep their width where it
  matters; sums that Rust does not check wrap, as in a release build.

  \<^bold>\<open>Faults.\<close>  Appends, openings of a store, snapshots of the journal with their manifest, and the
  replacement of a ledger snapshot take a plan of faults, so that each of their calls may fail and may have
  written a part of its bytes; a process that exits at a durability failpoint leaves the bytes that a call
  failing there leaves, so one model covers both.  Opening is modelled twice: \<open>store_open\<close> without faults, on
  which the ledgers and the journal stand, and \<open>store_open_io\<close> with them; \<open>Wal_Open\<close> shows that after any
  number of failed openings an opening that succeeds gives the store that \<open>store_open\<close> gives.  Reads while a
  ledger replays its log, listing and garbage collection are taken to succeed, and the three names a
  snapshot replacement works on are not directories.  Sorting by a comparison that is no total order, which
  happens when a key is not a number, may panic: the detection of synchronous groups has no result there,
  and the other sorts by such keys (awakening, resonant model, trimming, routing, ranking of variants) stand
  for the runs in which they return.

  \<^bold>\<open>Parameters.\<close>  The crates the code calls and does not contain are arguments: CRC-32, SHA-256,
  BLAKE3, Ed25519, the serde codecs, UUIDs, the Unicode case table, the exponential and the logarithm.  Random numbers, elapsed times and
  the orders in which hash maps are walked are arguments too, so that the theorems hold for all of them.  Where a theorem needs something of them (a decoder
  inverts its encoder, a signature verifies) it is a hypothesis, and the example after the theorem
  satisfies it with the functions of \<open>Sample_Crates\<close>.  Theorems about digests state collisions
  explicitly: equal heads mean equal histories or two different inputs with one digest.

  \<^bold>\<open>What is shown.\<close>
  \<^item> Store: acknowledged records survive every run of appends, failures and restarts in which the store is
    opened again after a failed append; without that they can be lost, which is shown too; a torn tail is
    cut off and nothing before it is lost; a failed append is atomic.
  \<^item> Snapshots: at every fault, recovery shows the old or the new snapshot.
  \<^item> Ledgers: every accepted history satisfies the ledger invariant, commitments are monotone,
    transitions do not interfere, the log is a hash chain whose head determines it, opening fails
    closed, and retries after a crash record evidence exactly once.
  \<^item> Checkpoints and governance: signing and verification are inverse, accepted chains are monotone
    and anchored, material commits to the snapshot on disk, a returned receipt is durable and its envelope
    is refused from then on.
  \<^item> Services and replication: recovery of the journal, exactness of authorization, convergence of
    sets and counters under equal credences and of two peers' states, and commits that happen once.
  \<^item> Core: the regulator stays within its ranges, views keep their period, the query parser ends on
    every text, accepts exactly the grammar written beside it and returns only well-formed queries.
  \<^item> Field: cells stay in range and seeds ripen; the journal of every reachable field rebuilds its clock
    and, of its cells, what the deltas record: after a tick identifiers, links, patterns, energies,
    metabolism, states and last responses, and between ticks all of these but the energies.  Salience, tags
    and last recalls come back as they were when a cell was spawned or in the last snapshot, and affinities
    only as far as they were journalled.  A snapshot keeps all of a cell; the deltas after it and a restart
    give back the field in the same sense; identifiers stay fresh after a recovery; the root of a new store
    alone is not durable.  Dreams spare protected cells and keep their budget up to one; synchronous groups
    are the connected components of the strong pairs; queries touch neither cells nor journal and leave
    everything as it was when they fail; the tick of the life loop stays between 80 and 800 ms.
  \<^item> Findings are stated as theorems about the code as it is.

  \<^bold>\<open>Interfaces.\<close>  \<open>append_log\<close>, \<open>offset_log\<close> and \<open>event_log\<close> are what the store promises its
  clients; they are interpreted on the store (\<open>wal\<close>), the transition ledger (\<open>tl\<close>) and the ProofPath
  ledger (\<open>pp\<close>), whose durability theorems use those facts.  \<open>hash_chain\<close> is interpreted on both ledgers,
  \<open>ordered_map\<close> on the map type, and \<open>convergent\<close>, \<open>map_join\<close>, \<open>total_context\<close> and
  \<open>stamped_registers\<close> on the replicated types.

  \<^bold>\<open>Bounds.\<close>  Segment numbers are below \<open>2\<^sup>6\<^sup>4\<close> and payloads below \<open>2\<^sup>3\<^sup>2\<close> where a theorem says so; the
  loops of the log readers carry fuel equal to the length of the file, which every frame shortens.
  A single is a multiple of \<open>2\<^sup>-\<^sup>1\<^sup>4\<^sup>9\<close>.  The regulator's theorem takes gains of at most \<open>2\<^sup>1\<^sup>6\<close>, which keeps
  every intermediate value finite.  The loop of \<open>SELECT\<close> and \<open>SUBSCRIBE\<close> is a partial function, and
  \<open>parser_returns\<close> shows that it has a value on every text.

  \<^bold>\<open>Not modelled.\<close>  The command line, the C ABI and the JSON protocol move text between a user and the
  operations below them; the WebSocket server and client are I/O on a runtime that is not in the
  repository; sensors read the host.  The token bucket of \<open>security.rs\<close> computes in double precision.
  Intents of \<open>echo.rs\<close>, the parsing of free text
  in \<open>nlu.rs\<close> and the summaries are heuristics over JSON and text.  Of the field and the life loop, the
  lines of text for display and the files of partial snapshots are left out.
\<close>

end
